(* ===== verification/Prelude.thy ===== *)
theory Prelude
  imports Main "HOL-Library.Char_ord" "HOL-Library.List_Lexorder"
begin

section \<open>Prelude: results, machine integers, shared lemmas\<close>

text \<open>
  What every other theory shares: the result type of fallible code (a sum whose left side is
  the error, as Rust's \<^verbatim>\<open>Result\<close>), the \<^verbatim>\<open>?\<close> operator on it, the ranges of the machine
  integers the code uses, and the collections of rewrite rules the component proofs draw on.
  Machine integers are \<open>int\<close> or \<open>nat\<close>; wherever a value can leave the range of its Rust type
  the conversion (\<^verbatim>\<open>as u64\<close>, \<^verbatim>\<open>as u32\<close>, \<^verbatim>\<open>try_from\<close>, a wrapping sum) is written out
  with the functions below.
\<close>

named_theorems row_simps \<open>reading attributes and hydrating rows\<close>
named_theorems store_simps \<open>unfolding requests against the store\<close>

subsection \<open>Results and the question-mark operator\<close>

definition rbind :: "'e + 'a \<Rightarrow> ('a \<Rightarrow> 'e + 'b) \<Rightarrow> 'e + 'b" where
  "rbind r f = (case r of Inl e \<Rightarrow> Inl e | Inr x \<Rightarrow> f x)"

definition ok_or :: "'e \<Rightarrow> 'a option \<Rightarrow> 'e + 'a" where
  "ok_or e x = (case x of None \<Rightarrow> Inl e | Some a \<Rightarrow> Inr a)"

definition map_err :: "('e \<Rightarrow> 'f) \<Rightarrow> 'e + 'a \<Rightarrow> 'f + 'a" where
  "map_err f r = (case r of Inl e \<Rightarrow> Inl (f e) | Inr x \<Rightarrow> Inr x)"

definition unwrap_or :: "'a \<Rightarrow> 'a option \<Rightarrow> 'a" where
  "unwrap_or d x = (case x of None \<Rightarrow> d | Some a \<Rightarrow> a)"

lemma rbind_simps [simp]:
  "rbind (Inl e) f = Inl e"
  "rbind (Inr x) f = f x"
  by (simp_all add: rbind_def)

lemma rbind_eq_Inr [simp]:
  "rbind r f = Inr y \<longleftrightarrow> (\<exists>x. r = Inr x \<and> f x = Inr y)"
  by (cases r) auto

lemma rbind_eq_Inl:
  "rbind r f = Inl e \<longleftrightarrow> r = Inl e \<or> (\<exists>x. r = Inr x \<and> f x = Inl e)"
  by (cases r) auto

lemma rbind_cong [fundef_cong]:
  "r = r' \<Longrightarrow> (\<And>x. r' = Inr x \<Longrightarrow> f x = g x) \<Longrightarrow> rbind r f = rbind r' g"
  by (cases r') auto

lemma ok_or_simps [simp]:
  "ok_or e None = Inl e"
  "ok_or e (Some a) = Inr a"
  by (simp_all add: ok_or_def)

lemma ok_or_eq_Inr [simp]: "ok_or e x = Inr y \<longleftrightarrow> x = Some y"
  by (cases x) auto

lemma map_err_simps [simp]:
  "map_err f (Inl e) = Inl (f e)"
  "map_err f (Inr x) = Inr x"
  by (simp_all add: map_err_def)

lemma map_err_eq_Inr [simp]: "map_err f r = Inr y \<longleftrightarrow> r = Inr y"
  by (cases r) auto

lemma map_err_eq_Inl [simp]: "map_err f r = Inl e \<longleftrightarrow> (\<exists>e'. r = Inl e' \<and> e = f e')"
  by (cases r) auto

lemma unwrap_or_simps [simp]:
  "unwrap_or d None = d"
  "unwrap_or d (Some a) = a"
  by (simp_all add: unwrap_or_def)

text \<open>A loop that stops at the first error, as a \<^verbatim>\<open>for\<close> with \<^verbatim>\<open>?\<close> in its body does.\<close>

fun mapM :: "('row \<Rightarrow> 'e + 'rec) \<Rightarrow> 'row list \<Rightarrow> 'e + 'rec list" where
  "mapM f [] = Inr []"
| "mapM f (x # xs) = rbind (f x) (\<lambda>y. rbind (mapM f xs) (\<lambda>ys. Inr (y # ys)))"

lemma mapM_Inr_iff:
  "mapM f xs = Inr ys \<longleftrightarrow> list_all2 (\<lambda>x y. f x = Inr y) xs ys"
  by (induction xs arbitrary: ys) (auto simp: list_all2_Cons1)

lemma mapM_length: "mapM f xs = Inr ys \<Longrightarrow> length ys = length xs"
  by (auto simp: mapM_Inr_iff dest: list_all2_lengthD)

lemma mapM_Inr_all: "(\<And>x. x \<in> set xs \<Longrightarrow> f x = Inr (g x)) \<Longrightarrow> mapM f xs = Inr (map g xs)"
  by (induction xs) auto

subsection \<open>Stateful fallible code\<close>

text \<open>
  An \<^verbatim>\<open>async fn\<close> that reads and writes the database is a function from the state to its
  result and the next state. \<open>sbind\<close> is \<^verbatim>\<open>?\<close> between two such steps: an error ends the
  function and keeps the state reached so far. \<open>sread\<close> is a step that only reads,
  \<open>sensure\<close> an early return when a condition fails.
\<close>

definition sbind ::
    "('s \<Rightarrow> ('e + 'a) \<times> 's) \<Rightarrow> ('a \<Rightarrow> 's \<Rightarrow> ('e + 'b) \<times> 's) \<Rightarrow> 's \<Rightarrow> ('e + 'b) \<times> 's" where
  "sbind m k s = (case m s of (Inl e, s') \<Rightarrow> (Inl e, s') | (Inr x, s') \<Rightarrow> k x s')"

definition sreturn :: "'a \<Rightarrow> 's \<Rightarrow> ('e + 'a) \<times> 's" where
  "sreturn x s = (Inr x, s)"

definition sread :: "('s \<Rightarrow> 'e + 'a) \<Rightarrow> 's \<Rightarrow> ('e + 'a) \<times> 's" where
  "sread f s = (f s, s)"

definition slift :: "'e + 'a \<Rightarrow> 's \<Rightarrow> ('e + 'a) \<times> 's" where
  "slift r s = (r, s)"

definition sensure :: "bool \<Rightarrow> 'e \<Rightarrow> 's \<Rightarrow> ('e + unit) \<times> 's" where
  "sensure b e s = ((if b then Inr () else Inl e), s)"

definition smap_err :: "('e \<Rightarrow> 'f) \<Rightarrow> ('s \<Rightarrow> ('e + 'a) \<times> 's) \<Rightarrow> 's \<Rightarrow> ('f + 'a) \<times> 's" where
  "smap_err f m s = (let (r, s') = m s in (map_err f r, s'))"

lemma sbind_Inr [simp]:
  "sbind m k s = (Inr y, s') \<longleftrightarrow> (\<exists>x t. m s = (Inr x, t) \<and> k x t = (Inr y, s'))"
  by (auto simp: sbind_def split: prod.splits sum.splits)

lemma sreturn_eq [simp]: "sreturn x s = (r, s') \<longleftrightarrow> r = Inr x \<and> s' = s"
  by (auto simp: sreturn_def)

lemma sread_eq [simp]: "sread f s = (r, s') \<longleftrightarrow> r = f s \<and> s' = s"
  by (auto simp: sread_def)

lemma slift_eq [simp]: "slift x s = (r, s') \<longleftrightarrow> r = x \<and> s' = s"
  by (auto simp: slift_def)

lemma sensure_eq [simp]:
  "sensure b e s = (r, s') \<longleftrightarrow> r = (if b then Inr () else Inl e) \<and> s' = s"
  by (auto simp: sensure_def)

lemma smap_err_eq_Inr [simp]: "smap_err f m s = (Inr x, s') \<longleftrightarrow> m s = (Inr x, s')"
  by (auto simp: smap_err_def split: prod.splits)

text \<open>Where a run that ends in a state other than its first made the difference.\<close>

lemma sbind_changed:
  assumes "sbind m k s = (r, s')" "s' \<noteq> s"
  obtains e where "m s = (Inl e, s')" "r = Inl e"
    | x t where "m s = (Inr x, t)" "k x t = (r, s')"
  using assms by (auto simp: sbind_def split: prod.splits sum.splits)

lemma sbind_pure_changed:
  "sbind (sread f) k s = (r, s') \<Longrightarrow> s' \<noteq> s \<Longrightarrow> \<exists>x. f s = Inr x \<and> k x s = (r, s')"
  "sbind (slift q) k s = (r, s') \<Longrightarrow> s' \<noteq> s \<Longrightarrow> \<exists>x. q = Inr x \<and> k x s = (r, s')"
  "sbind (sensure b e) k' s = (r, s') \<Longrightarrow> s' \<noteq> s \<Longrightarrow> b \<and> k' () s = (r, s')"
  by (auto simp: sbind_def sread_def slift_def sensure_def split: sum.splits if_splits)

lemma smap_err_changed: "smap_err f m s = (r, s') \<Longrightarrow> \<exists>q. m s = (q, s') \<and> r = map_err f q"
  by (auto simp: smap_err_def split: prod.splits)

text \<open>Steps that never change the state, and a step followed by such a tail.\<close>

definition spure :: "('s \<Rightarrow> ('e + 'a) \<times> 's) \<Rightarrow> bool" where
  "spure m \<longleftrightarrow> (\<forall>s r s'. m s = (r, s') \<longrightarrow> s' = s)"

lemma spure_basic [simp]: "spure (sreturn x)" "spure (sread f)" "spure (slift q)" "spure (sensure b e)"
  by (simp_all add: spure_def)

lemma spure_sbind [simp]: "spure m \<Longrightarrow> (\<And>x. spure (k x)) \<Longrightarrow> spure (sbind m k)"
  unfolding spure_def sbind_def by (force split: prod.splits sum.splits)

text \<open>
  \<open>effect m s Q\<close>: whenever a run of \<open>m\<close> from \<open>s\<close> ends in another state, that state satisfies
  \<open>Q\<close>. The rules walk through a handler to its one write.
\<close>

definition effect :: "('s \<Rightarrow> ('e + 'a) \<times> 's) \<Rightarrow> 's \<Rightarrow> ('s \<Rightarrow> bool) \<Rightarrow> bool" where
  "effect m s Q \<longleftrightarrow> (\<forall>r s'. m s = (r, s') \<longrightarrow> s' \<noteq> s \<longrightarrow> Q s')"

lemma effectD: "effect m s Q \<Longrightarrow> m s = (r, s') \<Longrightarrow> s' \<noteq> s \<Longrightarrow> Q s'"
  by (simp add: effect_def)

lemma effect_read: "(\<And>x. f s = Inr x \<Longrightarrow> effect (k x) s Q) \<Longrightarrow> effect (sbind (sread f) k) s Q"
  unfolding effect_def by (auto dest: sbind_pure_changed)

lemma effect_lift: "(\<And>x. q = Inr x \<Longrightarrow> effect (k x) s Q) \<Longrightarrow> effect (sbind (slift q) k) s Q"
  unfolding effect_def by (auto dest: sbind_pure_changed)

lemma effect_ensure: "(b \<Longrightarrow> effect (k ()) s Q) \<Longrightarrow> effect (sbind (sensure b e) k) s Q"
  unfolding effect_def by (auto dest: sbind_pure_changed)

lemma effect_write:
  assumes "\<And>r s'. m s = (r, s') \<Longrightarrow> s' \<noteq> s \<Longrightarrow> Q s'"
  shows "effect (smap_err f m) s Q"
  unfolding effect_def using assms by (auto dest: smap_err_changed)

lemma effect_tail: "effect m s Q \<Longrightarrow> (\<And>x. spure (k x)) \<Longrightarrow> effect (sbind m k) s Q"
  unfolding effect_def spure_def sbind_def by (force split: prod.splits sum.splits)

lemma effect_pure: "spure m \<Longrightarrow> effect m s Q"
  by (simp add: effect_def spure_def)

lemma effect_cases: "effect m s Q \<Longrightarrow> Q s \<Longrightarrow> m s = (r, s') \<Longrightarrow> Q s'"
  by (cases "s' = s") (auto simp: effect_def)

lemmas effect_prefix = effect_read effect_lift effect_ensure

subsection \<open>Machine integers\<close>

definition i64_min :: int where "i64_min = - 9223372036854775808"
definition i64_max :: int where "i64_max = 9223372036854775807"
definition u64_max :: nat where "u64_max = 18446744073709551615"
definition u32_max :: nat where "u32_max = 4294967295"

definition in_i64 :: "int \<Rightarrow> bool" where
  "in_i64 x \<longleftrightarrow> i64_min \<le> x \<and> x \<le> i64_max"

text \<open>Two's complement wrap-around of a 64-bit addition in a release build.\<close>

definition wrap_i64 :: "int \<Rightarrow> int" where
  "wrap_i64 x = (x + 9223372036854775808) mod 18446744073709551616 - 9223372036854775808"

text \<open>The casts \<^verbatim>\<open>n as u64\<close> and \<^verbatim>\<open>n as u32\<close> of an \<^verbatim>\<open>i64\<close>.\<close>

definition as_u64 :: "int \<Rightarrow> nat" where "as_u64 n = nat (n mod 18446744073709551616)"
definition as_u32 :: "int \<Rightarrow> nat" where "as_u32 n = nat (n mod 4294967296)"

lemma wrap_i64_id: "in_i64 x \<Longrightarrow> wrap_i64 x = x"
  by (simp add: wrap_i64_def in_i64_def i64_min_def i64_max_def)

lemma in_i64_wrap: "in_i64 (wrap_i64 x)"
proof -
  have "0 \<le> (x + 9223372036854775808) mod 18446744073709551616"
    and "(x + 9223372036854775808) mod 18446744073709551616 < 18446744073709551616"
    by simp_all
  then show ?thesis by (simp add: wrap_i64_def in_i64_def i64_min_def i64_max_def)
qed

lemma as_u64_of_nat: "n < 9223372036854775808 \<Longrightarrow> as_u64 (int n) = n"
  by (simp add: as_u64_def)

lemma as_u32_of_nat: "n \<le> u32_max \<Longrightarrow> as_u32 (int n) = n"
  by (simp add: as_u32_def u32_max_def)

text \<open>A left-to-right 64-bit sum, as \<^verbatim>\<open>Iterator::sum\<close> computes it.\<close>

definition sum_i64 :: "int list \<Rightarrow> int" where
  "sum_i64 xs = foldl (\<lambda>a x. wrap_i64 (a + x)) 0 xs"

lemma foldl_wrap_exact:
  assumes "\<And>x. x \<in> set xs \<Longrightarrow> 0 \<le> x" "0 \<le> a" "a + sum_list xs \<le> i64_max"
  shows "foldl (\<lambda>a x. wrap_i64 (a + x)) a xs = a + sum_list xs"
  using assms
proof (induction xs arbitrary: a)
  case (Cons x xs)
  have x: "0 \<le> x" and "0 \<le> sum_list xs"
    using Cons.prems(1) by (auto intro: sum_list_nonneg)
  with Cons.prems(2,3) have lo: "0 \<le> a + x" and hi: "a + x \<le> i64_max" by simp_all
  from lo have "i64_min \<le> a + x" unfolding i64_min_def by linarith
  with hi have w: "wrap_i64 (a + x) = a + x" by (simp add: wrap_i64_id in_i64_def)
  have "foldl (\<lambda>a x. wrap_i64 (a + x)) (a + x) xs = (a + x) + sum_list xs"
    using Cons.prems lo by (intro Cons.IH) (simp_all add: add.assoc)
  then show ?case by (simp add: w add.assoc)
qed simp

lemma sum_i64_exact:
  assumes "\<And>x. x \<in> set xs \<Longrightarrow> 0 \<le> x" "sum_list xs \<le> i64_max"
  shows "sum_i64 xs = sum_list xs"
  using foldl_wrap_exact [of xs 0] assms by (simp add: sum_i64_def)

lemma sum_list_le_bound:
  fixes b :: int
  assumes "\<And>x. x \<in> set xs \<Longrightarrow> x \<le> b"
  shows "sum_list xs \<le> int (length xs) * b"
  using assms
proof (induction xs)
  case (Cons x xs)
  have "x \<le> b" using Cons.prems by simp
  moreover have "sum_list xs \<le> int (length xs) * b" using Cons by simp
  ultimately have "x + sum_list xs \<le> b + int (length xs) * b" by (rule add_mono)
  then show ?case by (simp add: algebra_simps)
qed simp

subsection \<open>Maps and lists\<close>

lemma map_upd_triv_iff [simp]: "m(k \<mapsto> v) = m \<longleftrightarrow> m k = Some v"
  by (auto simp: fun_eq_iff)

lemma map_snd_zip_filter: "length xs = length ys \<Longrightarrow> map snd (zip xs ys) = ys"
  by (induction xs ys rule: list_induct2) auto

lemma map_le_distinct_subset:
  "distinct xs \<Longrightarrow> set xs \<subseteq> set ys \<Longrightarrow> length xs \<le> length ys"
  by (metis card_length card_mono distinct_card dual_order.trans finite_set)

end
