(* ===== verification/Domain.thy ===== *)
theory Domain
  imports Rust_Str
begin

section \<open>Domain types\<close>

text \<open>
  The row types, enumerations and pure helpers of \<^verbatim>\<open>api/src/db.rs\<close>. A struct is a record
  whose fields carry a prefix for the struct (\<open>inv_status\<close> is \<^verbatim>\<open>Invoice::status\<close>), an enum
  is a datatype, \<^verbatim>\<open>Option\<close> is \<open>option\<close>, \<^verbatim>\<open>u64\<close> and \<^verbatim>\<open>u32\<close> fields are \<open>nat\<close> and
  \<^verbatim>\<open>i64\<close> fields are \<open>int\<close>.
\<close>

subsection \<open>Errors\<close>

datatype db_error =
    NotFound string
  | Hydration string
  | Infrastructure string
  | Integrity string
  | TypeConversion string
  | MutationDisabled

definition at_most_one :: "'a list \<Rightarrow> string \<Rightarrow> db_error + 'a option" where
  "at_most_one matches describe =
     (if length matches > 1 then Inl (Integrity describe)
      else Inr (if matches = [] then None else Some (last matches)))"

subsection \<open>Instances\<close>

datatype instance_kind = Support | Invoicing

fun instance_kind_str :: "instance_kind \<Rightarrow> string" where
  "instance_kind_str Support = ''support''"
| "instance_kind_str Invoicing = ''invoicing''"

definition parse_instance_kind :: "string \<Rightarrow> instance_kind option" where
  "parse_instance_kind s =
     (if s = ''support'' then Some Support
      else if s = ''invoicing'' then Some Invoicing else None)"

record org_instance =
  inst_id :: string
  inst_name :: string
  inst_slug :: string
  inst_kind :: instance_kind
  inst_public_submission_enabled :: bool
  inst_from_name :: string
  inst_signature :: string
  inst_created_at :: nat
  inst_deleted :: bool
  inst_business_name :: "string option"
  inst_business_abn :: "string option"
  inst_business_address :: "string option"
  inst_business_phone :: "string option"
  inst_business_email :: "string option"
  inst_payment_details :: "string option"
  inst_gst_registered :: bool
  inst_currency :: "string option"

definition currency_or_default :: "org_instance \<Rightarrow> string" where
  "currency_or_default i = unwrap_or ''AUD'' (inst_currency i)"

datatype kind_error = WrongKind string instance_kind instance_kind

definition require_instance_kind :: "org_instance \<Rightarrow> instance_kind \<Rightarrow> kind_error + unit" where
  "require_instance_kind i expected =
     (if inst_kind i \<noteq> expected then Inl (WrongKind (inst_id i) (inst_kind i) expected)
      else Inr ())"

definition is_ascii_uppercase :: "char \<Rightarrow> bool" where
  "is_ascii_uppercase c \<longleftrightarrow> 65 \<le> (of_char c :: nat) \<and> (of_char c :: nat) \<le> 90"

definition is_ascii_lowercase :: "char \<Rightarrow> bool" where
  "is_ascii_lowercase c \<longleftrightarrow> 97 \<le> (of_char c :: nat) \<and> (of_char c :: nat) \<le> 122"

definition validate_currency_code :: "string \<Rightarrow> string + unit" where
  "validate_currency_code code =
     (if length code \<noteq> 3 \<or> \<not> list_all is_ascii_uppercase code then Inl code else Inr ())"

datatype slug_error = SlugEmpty | SlugTooLong | SlugBadChar | SlugHyphenEdge

definition validate_slug :: "string \<Rightarrow> slug_error + unit" where
  "validate_slug slug =
     (if slug = [] then Inl SlugEmpty
      else if length slug > 63 then Inl SlugTooLong
      else if \<not> list_all (\<lambda>c. is_ascii_lowercase c \<or> is_digit c \<or> c = CHR ''-'') slug
      then Inl SlugBadChar
      else if starts_with_char (CHR ''-'') slug \<or> ends_with_char (CHR ''-'') slug
      then Inl SlugHyphenEdge
      else Inr ())"

datatype email_error = EmailMissingAt string | EmailMalformed string

text \<open>\<^verbatim>\<open>str::to_lowercase\<close> follows the Unicode tables and is the parameter \<open>lower\<close>.\<close>

definition normalize_user_email :: "(string \<Rightarrow> string) \<Rightarrow> string \<Rightarrow> email_error + string" where
  "normalize_user_email lower raw =
     (let email = lower (trim raw) in
      case split_once (CHR ''@'') email of
        None \<Rightarrow> Inl (EmailMissingAt raw)
      | Some (local, domain) \<Rightarrow>
          if local = [] \<or> domain = [] \<or> CHR ''@'' \<in> set domain then Inl (EmailMalformed raw)
          else Inr email)"

subsection \<open>Projects and billable items\<close>

record project =
  proj_id :: string
  proj_instance_id :: string
  proj_name :: string
  proj_client_name :: string
  proj_client_abn :: "string option"
  proj_client_address :: "string option"
  proj_reference :: "string option"
  proj_archived :: bool
  proj_created_at :: nat
  proj_updated_at :: nat

record billable_item =
  item_id :: string
  item_instance_id :: string
  item_project_id :: string
  item_date :: string
  item_description :: string
  item_quantity_hundredths :: int
  item_unit_price_cents :: int
  item_invoice_id :: "string option"
  item_created_by_user_id :: string
  item_created_at :: nat
  item_updated_at :: nat

record item_fields =
  fld_date :: string
  fld_description :: string
  fld_quantity_hundredths :: int
  fld_unit_price_cents :: int

subsection \<open>Invoices\<close>

datatype invoice_status = Draft | Finalized

fun invoice_status_str :: "invoice_status \<Rightarrow> string" where
  "invoice_status_str Draft = ''draft''"
| "invoice_status_str Finalized = ''finalized''"

definition parse_invoice_status :: "string \<Rightarrow> invoice_status option" where
  "parse_invoice_status s =
     (if s = ''draft'' then Some Draft
      else if s = ''finalized'' then Some Finalized else None)"

record invoice =
  inv_id :: string
  inv_instance_id :: string
  inv_project_id :: string
  inv_status :: invoice_status
  inv_version :: nat
  inv_item_ids :: "string list"
  inv_created_by_user_id :: string
  inv_created_at :: nat
  inv_updated_at :: nat
  inv_number :: "nat option"
  inv_issue_date :: "string option"
  inv_snapshot :: "string option"
  inv_total_cents :: "int option"
  inv_finalized_at :: "nat option"
  inv_finalized_by_user_id :: "string option"
  inv_paid_date :: "string option"
  inv_pdf_s3_key :: "string option"

subsection \<open>Memberships and notification settings\<close>

datatype membership_role = Owner | Agent

fun membership_role_str :: "membership_role \<Rightarrow> string" where
  "membership_role_str Owner = ''owner''"
| "membership_role_str Agent = ''agent''"

definition parse_membership_role :: "string \<Rightarrow> membership_role option" where
  "parse_membership_role s =
     (if s = ''owner'' then Some Owner else if s = ''agent'' then Some Agent else None)"

record notification_settings =
  ns_new_ticket :: bool
  ns_assigned_to_me :: bool
  ns_assigned_to_me_updated :: bool
  ns_unassigned_updated :: bool
  ns_assigned_to_others_updated :: bool

definition default_notification_settings :: notification_settings where
  "default_notification_settings =
     \<lparr>ns_new_ticket = True, ns_assigned_to_me = True, ns_assigned_to_me_updated = True,
      ns_unassigned_updated = True, ns_assigned_to_others_updated = False\<rparr>"

record notification_patch =
  np_new_ticket :: "bool option"
  np_assigned_to_me :: "bool option"
  np_assigned_to_me_updated :: "bool option"
  np_unassigned_updated :: "bool option"
  np_assigned_to_others_updated :: "bool option"

definition patch_is_empty :: "notification_patch \<Rightarrow> bool" where
  "patch_is_empty p \<longleftrightarrow>
     np_new_ticket p = None \<and> np_assigned_to_me p = None \<and> np_assigned_to_me_updated p = None
     \<and> np_unassigned_updated p = None \<and> np_assigned_to_others_updated p = None"

definition merged_onto :: "notification_patch \<Rightarrow> notification_settings \<Rightarrow> notification_settings" where
  "merged_onto p current =
     \<lparr>ns_new_ticket = unwrap_or (ns_new_ticket current) (np_new_ticket p),
      ns_assigned_to_me = unwrap_or (ns_assigned_to_me current) (np_assigned_to_me p),
      ns_assigned_to_me_updated =
        unwrap_or (ns_assigned_to_me_updated current) (np_assigned_to_me_updated p),
      ns_unassigned_updated = unwrap_or (ns_unassigned_updated current) (np_unassigned_updated p),
      ns_assigned_to_others_updated =
        unwrap_or (ns_assigned_to_others_updated current) (np_assigned_to_others_updated p)\<rparr>"

subsection \<open>Tickets\<close>

datatype ticket_status = TOpen | TClosed | TDeleted

fun ticket_status_str :: "ticket_status \<Rightarrow> string" where
  "ticket_status_str TOpen = ''open''"
| "ticket_status_str TClosed = ''closed''"
| "ticket_status_str TDeleted = ''deleted''"

definition parse_ticket_status :: "string \<Rightarrow> ticket_status option" where
  "parse_ticket_status s =
     (if s = ''open'' then Some TOpen
      else if s = ''closed'' then Some TClosed
      else if s = ''deleted'' then Some TDeleted else None)"

record ticket_markers =
  mk_instance_status :: string
  mk_instance_visible :: "string option"
  mk_instance_assignee :: "string option"

definition compute_ticket_markers ::
    "string \<Rightarrow> ticket_status \<Rightarrow> string option \<Rightarrow> ticket_markers" where
  "compute_ticket_markers instance_id status assignee_user_id =
     (let instance_status = instance_id @ ''#'' @ ticket_status_str status in
      if status = TDeleted then
        \<lparr>mk_instance_status = instance_status, mk_instance_visible = None, mk_instance_assignee = None\<rparr>
      else
        \<lparr>mk_instance_status = instance_status,
         mk_instance_visible = Some instance_id,
         mk_instance_assignee = map_option (\<lambda>uid. instance_id @ ''#'' @ uid) assignee_user_id\<rparr>)"

definition ticket_subject_tag :: "string \<Rightarrow> nat \<Rightarrow> string" where
  "ticket_subject_tag slug number = ''[#'' @ slug @ ''-'' @ show_nat number @ '']''"

record ticket =
  tkt_id :: string
  tkt_instance_id :: string
  tkt_number :: nat
  tkt_subject :: string
  tkt_status :: ticket_status
  tkt_requester_emails :: "string list"
  tkt_cc_emails :: "string list"
  tkt_assignee_user_id :: "string option"
  tkt_reply_token :: string
  tkt_created_at :: nat
  tkt_updated_at :: nat
  tkt_last_activity_at :: nat
  tkt_has_attachments :: bool

datatype ticket_update =
    SetStatusAndAssignee string ticket_status "string option" nat
  | AddRequester string nat
  | RemoveRequester string nat
  | AddCc string nat
  | RemoveCc string nat
  | Touch nat
  | MarkHasAttachments

subsection \<open>Facts\<close>

lemma parse_instance_kind_str [simp]: "parse_instance_kind (instance_kind_str k) = Some k"
  by (cases k) (simp_all add: parse_instance_kind_def)

lemma parse_invoice_status_str [simp]: "parse_invoice_status (invoice_status_str s) = Some s"
  by (cases s) (simp_all add: parse_invoice_status_def)

lemma parse_membership_role_str [simp]: "parse_membership_role (membership_role_str r) = Some r"
  by (cases r) (simp_all add: parse_membership_role_def)

lemma parse_ticket_status_str [simp]: "parse_ticket_status (ticket_status_str s) = Some s"
  by (cases s) (simp_all add: parse_ticket_status_def)

lemma invoice_status_str_draft [simp]: "invoice_status_str s = ''draft'' \<longleftrightarrow> s = Draft"
  and invoice_status_str_finalized [simp]: "invoice_status_str s = ''finalized'' \<longleftrightarrow> s = Finalized"
  by (cases s; simp)+

lemma parse_invoice_status_SomeD: "parse_invoice_status x = Some s \<Longrightarrow> x = invoice_status_str s"
  by (auto simp: parse_invoice_status_def split: if_splits)

lemma merged_onto_empty: "patch_is_empty p \<Longrightarrow> merged_onto p current = current"
  by (simp add: patch_is_empty_def merged_onto_def)

end
