(* ===== verification/Dynamo.thy ===== *)
theory Dynamo
  imports Domain
begin

section \<open>The DynamoDB service as a parameter\<close>

text \<open>
  The program keeps all its state in DynamoDB, a service that is not part of the repository.
  What the code sends it is modelled as data: attribute values, condition expressions, update
  actions and the three write requests \<^verbatim>\<open>PutItem\<close>, \<^verbatim>\<open>UpdateItem\<close> and
  \<^verbatim>\<open>DeleteItem\<close>. The service itself is a record of functions, \<open>dynamo\<close>, passed to every
  definition that calls it, and the locale \<open>dynamo_service\<close> states what the code relies on, as
  DynamoDB documents it: a request that succeeds had its condition true and applied exactly its
  actions, a transaction applies all its requests or none, a failed condition changes nothing,
  a strongly consistent read returns the current item, a consistent batch read returns the
  current items of the keys it processed and names the keys it did not (its last argument tells
  the attempts of one loop apart); any request may also fail with an SDK
  error, and then a write may or may not have been applied. Nothing is assumed to succeed.
  A number attribute is DynamoDB's arbitrary-precision number, an \<open>int\<close>.
\<close>

subsection \<open>Items, conditions, actions, requests\<close>

datatype attr =
    AS string
  | AN int
  | ABool bool
  | ASs "string list"
  | ANull
  | AL "attr list"
  | AM "(string \<times> attr) list"

type_synonym item = "string \<Rightarrow> attr option"
type_synonym store = "string \<Rightarrow> string \<Rightarrow> item option"

datatype cond =
    CTrue
  | CExists string
  | CNotExists string
  | CEq string attr
  | CLe string int
  | CAnd cond cond
  | COr cond cond

fun holds :: "cond \<Rightarrow> item \<Rightarrow> bool" where
  "holds CTrue it = True"
| "holds (CExists a) it = (it a \<noteq> None)"
| "holds (CNotExists a) it = (it a = None)"
| "holds (CEq a v) it = (it a = Some v)"
| "holds (CLe a n) it = (case it a of Some (AN m) \<Rightarrow> m \<le> n | _ \<Rightarrow> False)"
| "holds (CAnd p q) it = (holds p it \<and> holds q it)"
| "holds (COr p q) it = (holds p it \<or> holds q it)"

datatype action =
    ASet string attr
  | ARemove string
  | AAddN string int
  | AAddSs string "string list"
  | ADelSs string "string list"

text \<open>\<^verbatim>\<open>ADD\<close> and \<^verbatim>\<open>DELETE\<close> fail on an attribute of another type.\<close>

fun action_ok :: "item \<Rightarrow> action \<Rightarrow> bool" where
  "action_ok it (ASet a v) = True"
| "action_ok it (ARemove a) = True"
| "action_ok it (AAddN a n) = (case it a of None \<Rightarrow> True | Some (AN m) \<Rightarrow> True | _ \<Rightarrow> False)"
| "action_ok it (AAddSs a xs) = (case it a of None \<Rightarrow> True | Some (ASs ys) \<Rightarrow> True | _ \<Rightarrow> False)"
| "action_ok it (ADelSs a xs) = (case it a of None \<Rightarrow> True | Some (ASs ys) \<Rightarrow> True | _ \<Rightarrow> False)"

text \<open>
  A string set has no order of its own: \<open>ss\<close> is the service's enumeration of a set. A set
  that becomes empty leaves the item, because DynamoDB stores no empty sets.
\<close>

fun apply_action :: "(string list \<Rightarrow> string list) \<Rightarrow> action \<Rightarrow> item \<Rightarrow> item" where
  "apply_action ss (ASet a v) it = it(a \<mapsto> v)"
| "apply_action ss (ARemove a) it = it(a := None)"
| "apply_action ss (AAddN a n) it =
     (case it a of Some (AN m) \<Rightarrow> it(a \<mapsto> AN (m + n)) | _ \<Rightarrow> it(a \<mapsto> AN n))"
| "apply_action ss (AAddSs a xs) it =
     (case it a of Some (ASs ys) \<Rightarrow> it(a \<mapsto> ASs (ss (ys @ xs))) | _ \<Rightarrow> it(a \<mapsto> ASs (ss xs)))"
| "apply_action ss (ADelSs a xs) it =
     (case it a of
        Some (ASs ys) \<Rightarrow>
          (let zs = filter (\<lambda>y. y \<notin> set xs) ys
           in it(a := (if zs = [] then None else Some (ASs (ss zs)))))
      | _ \<Rightarrow> it)"

datatype wreq =
    Put string string item cond
  | Update string string string "action list" cond
  | Delete string string cond

fun target :: "wreq \<Rightarrow> string \<times> string" where
  "target (Put t k it c) = (t, k)"
| "target (Update t kn k acts c) = (t, k)"
| "target (Delete t k c) = (t, k)"

fun write_cond :: "wreq \<Rightarrow> cond" where
  "write_cond (Put t k it c) = c"
| "write_cond (Update t kn k acts c) = c"
| "write_cond (Delete t k c) = c"

text \<open>A condition on an absent item is evaluated on an item without attributes.\<close>

definition attrs_of :: "item option \<Rightarrow> item" where
  "attrs_of it = (case it of None \<Rightarrow> Map.empty | Some i \<Rightarrow> i)"

definition cond_holds :: "store \<Rightarrow> wreq \<Rightarrow> bool" where
  "cond_holds s w = holds (write_cond w) (attrs_of (s (fst (target w)) (snd (target w))))"

text \<open>\<^verbatim>\<open>UpdateItem\<close> on an absent item creates it with its key attribute.\<close>

definition update_base :: "string \<Rightarrow> string \<Rightarrow> item option \<Rightarrow> item" where
  "update_base kn k it = (case it of None \<Rightarrow> [kn \<mapsto> AS k] | Some i \<Rightarrow> i)"

fun actions_ok :: "store \<Rightarrow> wreq \<Rightarrow> bool" where
  "actions_ok s (Update t kn k acts c) = list_all (action_ok (update_base kn k (s t k))) acts"
| "actions_ok s w = True"

fun new_item :: "(string list \<Rightarrow> string list) \<Rightarrow> store \<Rightarrow> wreq \<Rightarrow> item option" where
  "new_item ss s (Put t k it c) = Some it"
| "new_item ss s (Update t kn k acts c) =
     Some (fold (apply_action ss) acts (update_base kn k (s t k)))"
| "new_item ss s (Delete t k c) = None"

definition set_row :: "store \<Rightarrow> string \<times> string \<Rightarrow> item option \<Rightarrow> store" where
  "set_row s tk it = s(fst tk := (s (fst tk))(snd tk := it))"

definition apply_write :: "(string list \<Rightarrow> string list) \<Rightarrow> wreq \<Rightarrow> store \<Rightarrow> store" where
  "apply_write ss w s = set_row s (target w) (new_item ss s w)"

text \<open>
  What a list of requests does when it is carried out: each condition holds and each action
  applies in the state before, no item is the target of two of them, and all are applied.
\<close>

definition applicable :: "store \<Rightarrow> wreq list \<Rightarrow> bool" where
  "applicable s ws \<longleftrightarrow>
     distinct (map target ws) \<and> list_all (\<lambda>w. cond_holds s w \<and> actions_ok s w) ws"

definition apply_all :: "(string list \<Rightarrow> string list) \<Rightarrow> wreq list \<Rightarrow> store \<Rightarrow> store" where
  "apply_all ss ws s = fold (apply_write ss) ws s"

definition commits :: "(string list \<Rightarrow> string list) \<Rightarrow> store \<Rightarrow> wreq list \<Rightarrow> store \<Rightarrow> bool" where
  "commits ss s ws s' \<longleftrightarrow> applicable s ws \<and> s' = apply_all ss ws s"

subsection \<open>The service\<close>

datatype outcome = Done | CondFailed | SdkFailed string

record dynamo =
  dy_ss :: "string list \<Rightarrow> string list"
  dy_write :: "store \<Rightarrow> wreq \<Rightarrow> outcome \<times> store"
  dy_transact :: "store \<Rightarrow> wreq list \<Rightarrow> outcome \<times> store"
  dy_get :: "store \<Rightarrow> string \<Rightarrow> string \<Rightarrow> string + item option"
  dy_batch_get :: "store \<Rightarrow> string \<Rightarrow> string list \<Rightarrow> nat \<Rightarrow> string + item list \<times> string list"

locale dynamo_service =
  fixes d :: dynamo
  assumes ss_set: "set (dy_ss d xs) = set xs"
    and ss_distinct: "distinct (dy_ss d xs)"
    and write_done: "dy_write d s w = (Done, s') \<Longrightarrow> commits (dy_ss d) s [w] s'"
    and write_cond_failed: "dy_write d s w = (CondFailed, s') \<Longrightarrow> s' = s \<and> \<not> cond_holds s w"
    and write_failed: "dy_write d s w = (SdkFailed e, s') \<Longrightarrow> s' = s \<or> commits (dy_ss d) s [w] s'"
    and transact_done: "dy_transact d s ws = (Done, s') \<Longrightarrow> commits (dy_ss d) s ws s'"
    and transact_cancelled: "dy_transact d s ws = (CondFailed, s') \<Longrightarrow> s' = s"
    and transact_failed:
      "dy_transact d s ws = (SdkFailed e, s') \<Longrightarrow> s' = s \<or> commits (dy_ss d) s ws s'"
    and get_consistent: "dy_get d s t k = Inr it \<Longrightarrow> it = s t k"
    and batch_sound: "dy_batch_get d s t ks n = Inr (its, un) \<Longrightarrow> i \<in> set its \<Longrightarrow> \<exists>k \<in> set ks. s t k = Some i"
    and batch_complete: "dy_batch_get d s t ks n = Inr (its, un) \<Longrightarrow> k \<in> set ks \<Longrightarrow> k \<notin> set un \<Longrightarrow>
      s t k = Some i \<Longrightarrow> i \<in> set its"
    and batch_unprocessed: "dy_batch_get d s t ks n = Inr (its, un) \<Longrightarrow> set un \<subseteq> set ks"
begin

lemma write_all_or_nothing: "dy_write d s w = (out, s') \<Longrightarrow> s' = s \<or> commits (dy_ss d) s [w] s'"
  using write_done write_cond_failed write_failed by (cases out) blast+

lemma transact_all_or_nothing:
  "dy_transact d s ws = (out, s') \<Longrightarrow> s' = s \<or> commits (dy_ss d) s ws s'"
  using transact_done transact_cancelled transact_failed by (cases out) blast+

end

text \<open>
  A service that never fails on its own account and keeps string sets in the order of first
  insertion: it shows that the assumptions can hold, and witnesses evaluate on it.
\<close>

definition ref_dynamo :: dynamo where
  "ref_dynamo =
     \<lparr>dy_ss = remdups,
      dy_write = (\<lambda>s w. if \<not> cond_holds s w then (CondFailed, s)
                        else if \<not> actions_ok s w then (SdkFailed ''ValidationException'', s)
                        else (Done, apply_write remdups w s)),
      dy_transact = (\<lambda>s ws. if applicable s ws then (Done, apply_all remdups ws s)
                            else (CondFailed, s)),
      dy_get = (\<lambda>s t k. Inr (s t k)),
      dy_batch_get = (\<lambda>s t ks n. Inr (concat (map (\<lambda>k. case s t k of None \<Rightarrow> [] | Some i \<Rightarrow> [i]) ks), []))\<rparr>"

interpretation ref: dynamo_service ref_dynamo
  by unfold_locales
    (force simp: ref_dynamo_def commits_def applicable_def apply_all_def split: if_splits option.splits)+

subsection \<open>The handler's ways of writing\<close>

text \<open>
  \<^verbatim>\<open>dynamodb::Handler\<close>: the client and the read-only switch. The table prefix, which every
  request of one handler shares, is left out. \<open>ensure_writable\<close> guards every write;
  \<open>send_conditional\<close> is the match every conditional \<^verbatim>\<open>UpdateItem\<close>/\<^verbatim>\<open>DeleteItem\<close> ends in,
  \<open>send_plain\<close> the one of an unconditional write, \<open>transact_write\<close> the transaction helper.
\<close>

record handler =
  h_read_only :: bool
  h_svc :: dynamo

definition ensure_writable :: "handler \<Rightarrow> db_error + unit" where
  "ensure_writable h = (if h_read_only h then Inl MutationDisabled else Inr ())"

definition send_conditional :: "handler \<Rightarrow> wreq \<Rightarrow> store \<Rightarrow> (db_error + bool) \<times> store" where
  "send_conditional h w s =
     (case ensure_writable h of
        Inl e \<Rightarrow> (Inl e, s)
      | Inr _ \<Rightarrow>
         (case dy_write (h_svc h) s w of
            (Done, s') \<Rightarrow> (Inr True, s')
          | (CondFailed, s') \<Rightarrow> (Inr False, s')
          | (SdkFailed e, s') \<Rightarrow> (Inl (Infrastructure e), s')))"

definition send_plain :: "handler \<Rightarrow> wreq \<Rightarrow> store \<Rightarrow> (db_error + unit) \<times> store" where
  "send_plain h w s =
     (case ensure_writable h of
        Inl e \<Rightarrow> (Inl e, s)
      | Inr _ \<Rightarrow>
         (case dy_write (h_svc h) s w of
            (Done, s') \<Rightarrow> (Inr (), s')
          | (CondFailed, s') \<Rightarrow> (Inl (Infrastructure ''ConditionalCheckFailedException''), s')
          | (SdkFailed e, s') \<Rightarrow> (Inl (Infrastructure e), s')))"

text \<open>\<^verbatim>\<open>map_update_err\<close>: a failed condition is a missing row.\<close>

definition send_existing :: "handler \<Rightarrow> string \<Rightarrow> wreq \<Rightarrow> store \<Rightarrow> (db_error + unit) \<times> store" where
  "send_existing h not_found_msg w s =
     (case ensure_writable h of
        Inl e \<Rightarrow> (Inl e, s)
      | Inr _ \<Rightarrow>
         (case dy_write (h_svc h) s w of
            (Done, s') \<Rightarrow> (Inr (), s')
          | (CondFailed, s') \<Rightarrow> (Inl (NotFound not_found_msg), s')
          | (SdkFailed e, s') \<Rightarrow> (Inl (Infrastructure e), s')))"

definition transact_write :: "handler \<Rightarrow> wreq list \<Rightarrow> store \<Rightarrow> (db_error + bool) \<times> store" where
  "transact_write h ws s =
     (case ensure_writable h of
        Inl e \<Rightarrow> (Inl e, s)
      | Inr _ \<Rightarrow>
         (case dy_transact (h_svc h) s ws of
            (Done, s') \<Rightarrow> (Inr True, s')
          | (CondFailed, s') \<Rightarrow> (Inr False, s')
          | (SdkFailed e, s') \<Rightarrow> (Inl (Infrastructure e), s')))"

lemmas send_defs = send_conditional_def send_plain_def send_existing_def transact_write_def
  ensure_writable_def

text \<open>
  The contract of a write that the operations of \<^verbatim>\<open>db::Handler\<close> rest on: success means that
  the requests were carried out, a refused write and a read-only handler change nothing, and
  whatever the answer the state is the old one or the one with all requests carried out.
\<close>

locale write_op =
  fixes ss :: "string list \<Rightarrow> string list"
    and ws :: "wreq list"
    and op :: "store \<Rightarrow> (db_error + bool) \<times> store"
  assumes op_true: "op s = (Inr True, s') \<Longrightarrow> commits ss s ws s'"
    and op_false: "op s = (Inr False, s') \<Longrightarrow> s' = s"
    and op_any: "op s = (r, s') \<Longrightarrow> s' = s \<or> commits ss s ws s'"
begin

lemma op_changed: "op s = (r, s') \<Longrightarrow> s' \<noteq> s \<Longrightarrow> commits ss s ws s'"
  using op_any by blast

lemma op_invariant:
  assumes "op s = (r, s')" "P s" "\<And>t. commits ss s ws t \<Longrightarrow> P t"
  shows "P s'"
  using op_any [OF assms(1)] assms(2,3) by blast

end

context dynamo_service begin

lemma send_conditional_op: "h_svc h = d \<Longrightarrow> write_op (dy_ss d) [w] (send_conditional h w)"
  using write_all_or_nothing [of _ w] write_done [of _ w] write_cond_failed [of _ w]
  by unfold_locales (auto simp: send_defs split: if_splits prod.splits outcome.splits)

lemma transact_write_op: "h_svc h = d \<Longrightarrow> write_op (dy_ss d) ws (transact_write h ws)"
  using transact_all_or_nothing [of _ ws] transact_done [of _ ws] transact_cancelled [of _ ws]
  by unfold_locales (auto simp: send_defs split: if_splits prod.splits outcome.splits)

lemma send_existing_changes:
  "h_svc h = d \<Longrightarrow> send_existing h m w s = (r, s') \<Longrightarrow> s' = s \<or> commits (dy_ss d) s [w] s'"
  using write_all_or_nothing [of s w]
  by (auto simp: send_defs split: if_splits prod.splits outcome.splits)

lemma send_existing_ok:
  "h_svc h = d \<Longrightarrow> send_existing h m w s = (Inr u, s') \<Longrightarrow> commits (dy_ss d) s [w] s'"
  using write_done [of s w]
  by (auto simp: send_defs split: if_splits prod.splits outcome.splits)

lemma send_plain_changes:
  "h_svc h = d \<Longrightarrow> send_plain h w s = (r, s') \<Longrightarrow> s' = s \<or> commits (dy_ss d) s [w] s'"
  using write_all_or_nothing [of s w]
  by (auto simp: send_defs split: if_splits prod.splits outcome.splits)

end

text \<open>
  A handler whose client is such a service: every way of writing meets the contract, which the
  operations built on them inherit.
\<close>

locale dynamo_handler = dynamo_service d for d +
  fixes h :: handler
  assumes svc: "h_svc h = d"

sublocale dynamo_handler \<subseteq> single: write_op "dy_ss d" "[w]" "send_conditional h w" for w
  by (rule send_conditional_op [OF svc])

sublocale dynamo_handler \<subseteq> trans: write_op "dy_ss d" ws "transact_write h ws" for ws
  by (rule transact_write_op [OF svc])

context dynamo_handler begin

lemma plain_any: "send_plain h w s = (r, s') \<Longrightarrow> s' = s \<or> commits (dy_ss d) s [w] s'"
  by (rule send_plain_changes [OF svc])

lemma plain_ok: "send_plain h w s = (Inr u, s') \<Longrightarrow> commits (dy_ss d) s [w] s'"
  using svc write_done [of s w]
  by (auto simp: send_defs split: if_splits prod.splits outcome.splits)

lemma existing_any: "send_existing h m w s = (r, s') \<Longrightarrow> s' = s \<or> commits (dy_ss d) s [w] s'"
  by (rule send_existing_changes [OF svc])

end

definition ref_handler :: handler where
  "ref_handler = \<lparr>h_read_only = False, h_svc = ref_dynamo\<rparr>"

interpretation ref_client: dynamo_handler ref_dynamo ref_handler
  by unfold_locales (simp add: ref_handler_def)

interpretation ref_write: write_op "dy_ss ref_dynamo" "[w]" "send_conditional ref_handler w" for w
  by unfold_locales

subsection \<open>Rows of a state after requests\<close>

lemma set_row_same [simp]: "set_row s tk it (fst tk) (snd tk) = it"
  by (simp add: set_row_def)

lemma set_row_apply: "set_row s (t, k) it t' k' = (if t' = t \<and> k' = k then it else s t' k')"
  by (simp add: set_row_def)

lemma apply_write_row:
  "apply_write ss w s t k = (if (t, k) = target w then new_item ss s w else s t k)"
  by (cases "target w") (auto simp: apply_write_def set_row_apply)

lemma new_item_frame:
  "s (fst (target w)) (snd (target w)) = s' (fst (target w)) (snd (target w)) \<Longrightarrow>
     new_item ss s w = new_item ss s' w"
  by (cases w) simp_all

lemma apply_all_other:
  "(t, k) \<notin> target ` set ws \<Longrightarrow> apply_all ss ws s t k = s t k"
  unfolding apply_all_def
  by (induction ws arbitrary: s) (auto simp: apply_write_row)

lemma apply_all_row:
  assumes "distinct (map target ws)" "w \<in> set ws" "target w = (t, k)"
  shows "apply_all ss ws s t k = new_item ss s w"
  using assms
proof (induction ws arbitrary: s)
  case (Cons v ws)
  show ?case
  proof (cases "w = v")
    case True
    with Cons.prems have "(t, k) \<notin> target ` set ws" by (metis distinct.simps(2) list.simps(9) set_map)
    then have "apply_all ss ws (apply_write ss v s) t k = apply_write ss v s t k"
      by (rule apply_all_other)
    with True Cons.prems show ?thesis by (simp add: apply_all_def apply_write_row)
  next
    case False
    with Cons.prems have w: "w \<in> set ws" and d: "distinct (map target ws)" by simp_all
    have "target w \<noteq> target v" using Cons.prems(1) w by (metis distinct.simps(2) image_eqI list.simps(9) set_map)
    then have "new_item ss (apply_write ss v s) w = new_item ss s w"
      by (intro new_item_frame) (simp add: apply_write_row)
    then show ?thesis using Cons.IH [OF d w Cons.prems(3)] by (simp add: apply_all_def)
  qed
qed simp

lemma commits_single: "commits ss s [w] s' \<longleftrightarrow> cond_holds s w \<and> actions_ok s w \<and> s' = apply_write ss w s"
  by (auto simp: commits_def applicable_def apply_all_def)

lemma commits_row:
  "commits ss s ws s' \<Longrightarrow> w \<in> set ws \<Longrightarrow> target w = (t, k) \<Longrightarrow> s' t k = new_item ss s w"
  by (auto simp: commits_def applicable_def apply_all_row)

lemma commits_other: "commits ss s ws s' \<Longrightarrow> (t, k) \<notin> target ` set ws \<Longrightarrow> s' t k = s t k"
  by (auto simp: commits_def apply_all_other)

lemma commits_cond: "commits ss s ws s' \<Longrightarrow> w \<in> set ws \<Longrightarrow> cond_holds s w \<and> actions_ok s w"
  by (auto simp: commits_def applicable_def list_all_iff)

text \<open>A request creates an item only if its condition holds of an item without attributes.\<close>

fun may_create :: "wreq \<Rightarrow> bool" where
  "may_create (Put t k it c) = True"
| "may_create (Update t kn k acts c) = holds c Map.empty"
| "may_create (Delete t k c) = False"

lemma commits_dom:
  assumes "commits ss s ws s'" "s' t k \<noteq> None"
  shows "s t k \<noteq> None \<or> (\<exists>w \<in> set ws. target w = (t, k) \<and> may_create w)"
proof (cases "(t, k) \<in> target ` set ws")
  case True
  then obtain w where w: "w \<in> set ws" "target w = (t, k)" by (metis imageE)
  have row: "s' t k = new_item ss s w" using commits_row [OF assms(1) w] .
  show ?thesis
  proof (cases "s t k")
    case None
    then have "holds (write_cond w) Map.empty"
      using commits_cond [OF assms(1) w(1)] w(2) by (simp add: cond_holds_def attrs_of_def)
    then have "may_create w" using row assms(2) by (cases w) auto
    with w show ?thesis by blast
  qed simp
next
  case False
  with commits_other [OF assms(1)] assms(2) show ?thesis by simp
qed

lemma commits_no_new:
  assumes "commits ss s ws s'" "\<And>w. w \<in> set ws \<Longrightarrow> \<not> may_create w"
  shows "s' t k \<noteq> None \<Longrightarrow> s t k \<noteq> None"
  using commits_dom [OF assms(1)] assms(2) by blast

end
