(* ===== verification/Rows.thy ===== *)
theory Rows
  imports Dynamo
begin

section \<open>Hydration: from attribute maps to rows\<close>

text \<open>
  The typed accessors of \<^verbatim>\<open>dynamodb::Item\<close> and the \<^verbatim>\<open>TryInto\<close> implementations that turn
  an attribute map into a row, in \<^verbatim>\<open>api/src/dynamodb.rs\<close>. A hydration error carries its
  message; the casts \<^verbatim>\<open>as u64\<close> and \<^verbatim>\<open>as u32\<close> of the stored \<^verbatim>\<open>i64\<close> are written out.
\<close>

subsection \<open>Typed field access\<close>

definition item_id_field :: "item \<Rightarrow> string + string" where
  "item_id_field it =
     (case it ''id'' of
        None \<Rightarrow> Inl ''Encountered an item with a missing id field''
      | Some (AS i) \<Rightarrow> Inr i
      | Some _ \<Rightarrow> Inl ''Encountered an item with an ID that is not a string'')"

definition has_field :: "item \<Rightarrow> string \<Rightarrow> bool" where
  "has_field it f \<longleftrightarrow> it f \<noteq> None"

definition string_field :: "item \<Rightarrow> string \<Rightarrow> string + string option" where
  "string_field it f =
     (case it f of
        None \<Rightarrow> Inr None
      | Some (AS v) \<Rightarrow> Inr (Some v)
      | Some ANull \<Rightarrow> Inr None
      | Some _ \<Rightarrow> Inl (''Item had string field of wrong type: '' @ f))"

definition i64_field :: "item \<Rightarrow> string \<Rightarrow> string + int option" where
  "i64_field it f =
     (case it f of
        None \<Rightarrow> Inr None
      | Some (AN n) \<Rightarrow>
          if in_i64 n then Inr (Some n) else Inl (''Item had unparseable number field: '' @ f)
      | Some _ \<Rightarrow> Inl (''Item had number field of wrong type: '' @ f))"

definition bool_field :: "item \<Rightarrow> string \<Rightarrow> string + bool option" where
  "bool_field it f =
     (case it f of
        None \<Rightarrow> Inr None
      | Some (ABool b) \<Rightarrow> Inr (Some b)
      | Some _ \<Rightarrow> Inl (''Item had bool field of wrong type: '' @ f))"

definition string_set_field :: "item \<Rightarrow> string \<Rightarrow> string + string list" where
  "string_set_field it f =
     (case it f of
        None \<Rightarrow> Inr []
      | Some (ASs xs) \<Rightarrow> Inr xs
      | Some ANull \<Rightarrow> Inr []
      | Some _ \<Rightarrow> Inl (''Item had string set/null field of wrong type: '' @ f))"

definition need_string :: "item \<Rightarrow> string \<Rightarrow> string \<Rightarrow> string + string" where
  "need_string it f msg = rbind (string_field it f) (ok_or msg)"

definition need_i64 :: "item \<Rightarrow> string \<Rightarrow> string \<Rightarrow> string + int" where
  "need_i64 it f msg = rbind (i64_field it f) (ok_or msg)"

subsection \<open>Rows\<close>

definition hydrate_instance :: "item \<Rightarrow> string + org_instance" where
  "hydrate_instance it =
     rbind (rbind (string_field it ''kind'') (\<lambda>k.
        case k of None \<Rightarrow> Inr Support
        | Some s \<Rightarrow> ok_or (''Instance has unrecognized kind: '' @ s) (parse_instance_kind s))) (\<lambda>kind.
     rbind (item_id_field it) (\<lambda>i.
     rbind (need_string it ''name'' ''Instance missing name'') (\<lambda>name.
     rbind (need_string it ''slug'' ''Instance missing slug'') (\<lambda>slug.
     rbind (bool_field it ''public_submission_enabled'') (\<lambda>pub.
     rbind (string_field it ''from_name'') (\<lambda>from_name.
     rbind (string_field it ''signature'') (\<lambda>sig.
     rbind (need_i64 it ''created_at'' ''Instance missing created_at'') (\<lambda>created.
     rbind (bool_field it ''deleted'') (\<lambda>deleted.
     rbind (string_field it ''business_name'') (\<lambda>bname.
     rbind (string_field it ''business_abn'') (\<lambda>babn.
     rbind (string_field it ''business_address'') (\<lambda>baddr.
     rbind (string_field it ''business_phone'') (\<lambda>bphone.
     rbind (string_field it ''business_email'') (\<lambda>bemail.
     rbind (string_field it ''payment_details'') (\<lambda>pay.
     rbind (bool_field it ''gst_registered'') (\<lambda>gst.
     rbind (string_field it ''currency'') (\<lambda>cur.
     Inr \<lparr>inst_id = i, inst_name = name, inst_slug = slug, inst_kind = kind,
          inst_public_submission_enabled = unwrap_or False pub,
          inst_from_name = unwrap_or [] from_name, inst_signature = unwrap_or [] sig,
          inst_created_at = as_u64 created, inst_deleted = unwrap_or False deleted,
          inst_business_name = bname, inst_business_abn = babn, inst_business_address = baddr,
          inst_business_phone = bphone, inst_business_email = bemail,
          inst_payment_details = pay, inst_gst_registered = unwrap_or False gst,
          inst_currency = cur\<rparr>)))))))))))))))))"

definition hydrate_project :: "item \<Rightarrow> string + project" where
  "hydrate_project it =
     rbind (item_id_field it) (\<lambda>i.
     rbind (need_string it ''instance_id'' ''Project missing instance_id'') (\<lambda>inst.
     rbind (need_string it ''name'' ''Project missing name'') (\<lambda>name.
     rbind (need_string it ''client_name'' ''Project missing client_name'') (\<lambda>cname.
     rbind (string_field it ''client_abn'') (\<lambda>cabn.
     rbind (string_field it ''client_address'') (\<lambda>caddr.
     rbind (string_field it ''reference'') (\<lambda>ref.
     rbind (bool_field it ''archived'') (\<lambda>archived.
     rbind (need_i64 it ''created_at'' ''Project missing created_at'') (\<lambda>created.
     rbind (need_i64 it ''updated_at'' ''Project missing updated_at'') (\<lambda>updated.
     Inr \<lparr>proj_id = i, proj_instance_id = inst, proj_name = name, proj_client_name = cname,
          proj_client_abn = cabn, proj_client_address = caddr, proj_reference = ref,
          proj_archived = unwrap_or False archived, proj_created_at = as_u64 created,
          proj_updated_at = as_u64 updated\<rparr>))))))))))"

definition hydrate_billable_item :: "item \<Rightarrow> string + billable_item" where
  "hydrate_billable_item it =
     rbind (item_id_field it) (\<lambda>i.
     rbind (need_string it ''instance_id'' ''BillableItem missing instance_id'') (\<lambda>inst.
     rbind (need_string it ''project_id'' ''BillableItem missing project_id'') (\<lambda>proj.
     rbind (need_string it ''date'' ''BillableItem missing date'') (\<lambda>date.
     rbind (need_string it ''description'' ''BillableItem missing description'') (\<lambda>desc.
     rbind (need_i64 it ''quantity_hundredths'' ''BillableItem missing quantity_hundredths'') (\<lambda>qty.
     rbind (need_i64 it ''unit_price_cents'' ''BillableItem missing unit_price_cents'') (\<lambda>price.
     rbind (string_field it ''invoice_id'') (\<lambda>inv.
     rbind (need_string it ''created_by_user_id'' ''BillableItem missing created_by_user_id'') (\<lambda>creator.
     rbind (need_i64 it ''created_at'' ''BillableItem missing created_at'') (\<lambda>created.
     rbind (need_i64 it ''updated_at'' ''BillableItem missing updated_at'') (\<lambda>updated.
     Inr \<lparr>item_id = i, item_instance_id = inst, item_project_id = proj, item_date = date,
          item_description = desc, item_quantity_hundredths = qty,
          item_unit_price_cents = price, item_invoice_id = inv,
          item_created_by_user_id = creator, item_created_at = as_u64 created,
          item_updated_at = as_u64 updated\<rparr>)))))))))))"

definition hydrate_invoice :: "item \<Rightarrow> string + invoice" where
  "hydrate_invoice it =
     rbind (need_string it ''status'' ''Invoice missing status'') (\<lambda>status_str.
     rbind (ok_or (''Invoice has unrecognized status: '' @ status_str)
             (parse_invoice_status status_str)) (\<lambda>status.
     rbind (item_id_field it) (\<lambda>i.
     rbind (need_string it ''instance_id'' ''Invoice missing instance_id'') (\<lambda>inst.
     rbind (need_string it ''project_id'' ''Invoice missing project_id'') (\<lambda>proj.
     rbind (need_i64 it ''version'' ''Invoice missing version'') (\<lambda>version.
     rbind (string_set_field it ''item_ids'') (\<lambda>ids.
     rbind (need_string it ''created_by_user_id'' ''Invoice missing created_by_user_id'') (\<lambda>creator.
     rbind (need_i64 it ''created_at'' ''Invoice missing created_at'') (\<lambda>created.
     rbind (need_i64 it ''updated_at'' ''Invoice missing updated_at'') (\<lambda>updated.
     rbind (i64_field it ''number'') (\<lambda>number.
     rbind (string_field it ''issue_date'') (\<lambda>issue.
     rbind (string_field it ''snapshot'') (\<lambda>snap.
     rbind (i64_field it ''total_cents'') (\<lambda>total.
     rbind (i64_field it ''finalized_at'') (\<lambda>fin_at.
     rbind (string_field it ''finalized_by_user_id'') (\<lambda>fin_by.
     rbind (string_field it ''paid_date'') (\<lambda>paid.
     rbind (string_field it ''pdf_s3_key'') (\<lambda>pdf.
     Inr \<lparr>inv_id = i, inv_instance_id = inst, inv_project_id = proj, inv_status = status,
          inv_version = as_u64 version, inv_item_ids = ids, inv_created_by_user_id = creator,
          inv_created_at = as_u64 created, inv_updated_at = as_u64 updated,
          inv_number = map_option as_u32 number, inv_issue_date = issue,
          inv_snapshot = snap, inv_total_cents = total,
          inv_finalized_at = map_option as_u64 fin_at,
          inv_finalized_by_user_id = fin_by, inv_paid_date = paid,
          inv_pdf_s3_key = pdf\<rparr>))))))))))))))))))"

text \<open>
  \<^verbatim>\<open>hydrate_item\<close>: a row that does not hydrate is named by its id, if that can be read;
  \<^verbatim>\<open>From<HydrationError> for db::Error\<close>; and a read of one row by id.
\<close>

definition hydrate_item :: "(item \<Rightarrow> string + 'r) \<Rightarrow> item \<Rightarrow> string + 'r" where
  "hydrate_item f it =
     map_err (\<lambda>e. case item_id_field it of Inr i \<Rightarrow> ''record '' @ i @ '': '' @ e | Inl _ \<Rightarrow> e) (f it)"

lemma hydrate_item_Inr [simp]:
  "hydrate_item f it = Inr x \<longleftrightarrow> f it = Inr x" "f it = Inr x \<Longrightarrow> hydrate_item f it = Inr x"
  by (auto simp: hydrate_item_def)

lemma mapM_hydrate_item [simp]: "mapM (hydrate_item f) its = Inr xs \<longleftrightarrow> mapM f its = Inr xs"
  by (induction its arbitrary: xs) auto

definition hydrated :: "(item \<Rightarrow> string + 'r) \<Rightarrow> item option \<Rightarrow> db_error + 'r option" where
  "hydrated f it =
     (case it of
        None \<Rightarrow> Inr None
      | Some i \<Rightarrow> map_err Hydration (rbind (hydrate_item f i) (\<lambda>r. Inr (Some r))))"

definition get_record_consistent ::
    "handler \<Rightarrow> string \<Rightarrow> (item \<Rightarrow> string + 'r) \<Rightarrow> string \<Rightarrow> store \<Rightarrow> db_error + 'r option" where
  "get_record_consistent h t f k s =
     rbind (map_err Infrastructure (dy_get (h_svc h) s t k)) (hydrated f)"

subsection \<open>Rewriting\<close>

text \<open>
  A row is read attribute by attribute: with each attribute present in the right type these
  rules compute the hydrated row.
\<close>

lemma field_rules [row_simps]:
  "it f = None \<Longrightarrow> string_field it f = Inr None"
  "it f = Some (AS v) \<Longrightarrow> string_field it f = Inr (Some v)"
  "it f = None \<Longrightarrow> i64_field it f = Inr None"
  "it f = Some (AN n) \<Longrightarrow> in_i64 n \<Longrightarrow> i64_field it f = Inr (Some n)"
  "it f = None \<Longrightarrow> bool_field it f = Inr None"
  "it f = Some (ABool b) \<Longrightarrow> bool_field it f = Inr (Some b)"
  "it f = None \<Longrightarrow> string_set_field it f = Inr []"
  "it f = Some (ASs xs) \<Longrightarrow> string_set_field it f = Inr xs"
  "it ''id'' = Some (AS i) \<Longrightarrow> item_id_field it = Inr i"
  by (simp_all add: string_field_def i64_field_def bool_field_def string_set_field_def item_id_field_def)

lemma need_rules [row_simps]:
  "it f = Some (AS v) \<Longrightarrow> need_string it f m = Inr v"
  "it f = Some (AN n) \<Longrightarrow> in_i64 n \<Longrightarrow> need_i64 it f m = Inr n"
  by (simp_all add: need_string_def need_i64_def row_simps)

lemma need_string_iff [simp]:
  "need_string it f m = Inr v \<longleftrightarrow> it f = Some (AS v)"
  by (auto simp: need_string_def string_field_def split: option.splits attr.splits)

lemma need_i64_iff [simp]:
  "need_i64 it f m = Inr n \<longleftrightarrow> it f = Some (AN n) \<and> in_i64 n"
  by (auto simp: need_i64_def i64_field_def split: option.splits attr.splits if_splits)

lemma item_id_field_iff [simp]: "item_id_field it = Inr i \<longleftrightarrow> it ''id'' = Some (AS i)"
  by (auto simp: item_id_field_def split: option.splits attr.splits)

end
