(* ===== verification/Invoice_Store.thy ===== *)
theory Invoice_Store
  imports Rows
begin

section \<open>Invoices and billable items in the store\<close>

text \<open>
  The \<^verbatim>\<open>billable_item\<close>, \<^verbatim>\<open>invoice\<close> and \<^verbatim>\<open>counter\<close> operations of
  \<^verbatim>\<open>api/src/dynamodb.rs\<close>. Each operation builds the requests of the source (attribute names,
  update actions and condition expressions as written there) and sends them. The nanoid and
  the clock are arguments (\<open>i\<close> for a new id, \<open>now\<close>). Reads that the source makes without
  \<^verbatim>\<open>ConsistentRead\<close> are given the state they observe as an argument of their own, by the
  callers in \<^verbatim>\<open>Invoice_Mutations\<close>.
\<close>

subsection \<open>Projects\<close>

definition opt_attr :: "string \<Rightarrow> string option \<Rightarrow> item \<Rightarrow> item" where
  "opt_attr a v it = (case v of None \<Rightarrow> it | Some x \<Rightarrow> it(a \<mapsto> AS x))"

definition create_project ::
    "handler \<Rightarrow> string \<Rightarrow> nat \<Rightarrow> string \<Rightarrow> string \<Rightarrow> string \<Rightarrow> string option \<Rightarrow> string option
     \<Rightarrow> string option \<Rightarrow> store \<Rightarrow> (db_error + project) \<times> store" where
  "create_project h i now instance_id name client_name client_abn client_address reference s =
     (let it = opt_attr ''reference'' reference (opt_attr ''client_address'' client_address
                 (opt_attr ''client_abn'' client_abn
                   [''id'' \<mapsto> AS i, ''instance_id'' \<mapsto> AS instance_id, ''name'' \<mapsto> AS name,
                    ''client_name'' \<mapsto> AS client_name, ''created_at'' \<mapsto> AN (int now),
                    ''updated_at'' \<mapsto> AN (int now)]));
          (r, s') = send_plain h (Put ''project'' i it (CNotExists ''id'')) s
      in (rbind r (\<lambda>_. Inr
            \<lparr>proj_id = i, proj_instance_id = instance_id, proj_name = name,
             proj_client_name = client_name, proj_client_abn = client_abn,
             proj_client_address = client_address, proj_reference = reference,
             proj_archived = False, proj_created_at = now, proj_updated_at = now\<rparr>), s'))"

definition set_or_remove :: "string \<Rightarrow> string option \<Rightarrow> action" where
  "set_or_remove a v = (case v of None \<Rightarrow> ARemove a | Some x \<Rightarrow> ASet a (AS x))"

definition update_project ::
    "handler \<Rightarrow> nat \<Rightarrow> string \<Rightarrow> string \<Rightarrow> string \<Rightarrow> string option \<Rightarrow> string option \<Rightarrow> string option
     \<Rightarrow> bool \<Rightarrow> store \<Rightarrow> (db_error + unit) \<times> store" where
  "update_project h now i name client_name client_abn client_address reference archived s =
     send_existing h (''Project '' @ i)
       (Update ''project'' ''id'' i
         [ASet ''name'' (AS name), ASet ''client_name'' (AS client_name),
          ASet ''updated_at'' (AN (int now)), set_or_remove ''client_abn'' client_abn,
          set_or_remove ''client_address'' client_address, set_or_remove ''reference'' reference,
          if archived then ASet ''archived'' (ABool True) else ARemove ''archived'']
         (CExists ''id'')) s"

subsection \<open>Billable items\<close>

definition billable_item_row ::
    "string \<Rightarrow> nat \<Rightarrow> string \<Rightarrow> string \<Rightarrow> item_fields \<Rightarrow> string \<Rightarrow> item" where
  "billable_item_row i now instance_id project_id f created_by =
     [''id'' \<mapsto> AS i, ''instance_id'' \<mapsto> AS instance_id, ''project_id'' \<mapsto> AS project_id,
      ''date'' \<mapsto> AS (fld_date f), ''description'' \<mapsto> AS (fld_description f),
      ''quantity_hundredths'' \<mapsto> AN (fld_quantity_hundredths f),
      ''unit_price_cents'' \<mapsto> AN (fld_unit_price_cents f),
      ''created_by_user_id'' \<mapsto> AS created_by,
      ''created_at'' \<mapsto> AN (int now), ''updated_at'' \<mapsto> AN (int now)]"

definition create_billable_item_req ::
    "string \<Rightarrow> nat \<Rightarrow> string \<Rightarrow> string \<Rightarrow> item_fields \<Rightarrow> string \<Rightarrow> wreq" where
  "create_billable_item_req i now instance_id project_id f created_by =
     Put ''billable_item'' i (billable_item_row i now instance_id project_id f created_by)
       (CNotExists ''id'')"

definition create_billable_item ::
    "handler \<Rightarrow> string \<Rightarrow> nat \<Rightarrow> string \<Rightarrow> string \<Rightarrow> item_fields \<Rightarrow> string \<Rightarrow> store
     \<Rightarrow> (db_error + billable_item) \<times> store" where
  "create_billable_item h i now instance_id project_id f created_by s =
     (let (r, s') = send_plain h
            (create_billable_item_req i now instance_id project_id f created_by) s
      in (rbind r (\<lambda>_. Inr
            \<lparr>item_id = i, item_instance_id = instance_id, item_project_id = project_id,
             item_date = fld_date f, item_description = fld_description f,
             item_quantity_hundredths = fld_quantity_hundredths f,
             item_unit_price_cents = fld_unit_price_cents f, item_invoice_id = None,
             item_created_by_user_id = created_by, item_created_at = now,
             item_updated_at = now\<rparr>), s'))"

definition item_field_actions :: "item_fields \<Rightarrow> nat \<Rightarrow> action list" where
  "item_field_actions f now =
     [ASet ''date'' (AS (fld_date f)), ASet ''description'' (AS (fld_description f)),
      ASet ''quantity_hundredths'' (AN (fld_quantity_hundredths f)),
      ASet ''unit_price_cents'' (AN (fld_unit_price_cents f)),
      ASet ''updated_at'' (AN (int now))]"

definition update_unbilled_req :: "string \<Rightarrow> item_fields \<Rightarrow> nat \<Rightarrow> wreq" where
  "update_unbilled_req i f now =
     Update ''billable_item'' ''id'' i (item_field_actions f now)
       (CAnd (CExists ''id'') (CNotExists ''invoice_id''))"

definition update_billed_reqs :: "string \<Rightarrow> string \<Rightarrow> item_fields \<Rightarrow> nat \<Rightarrow> wreq list" where
  "update_billed_reqs i invoice_id f now =
     [Update ''billable_item'' ''id'' i (item_field_actions f now)
        (CAnd (CExists ''id'') (CEq ''invoice_id'' (AS invoice_id))),
      Update ''invoice'' ''id'' invoice_id
        [ASet ''updated_at'' (AN (int now)), AAddN ''version'' 1]
        (CAnd (CExists ''id'') (CEq ''status'' (AS ''draft'')))]"

definition update_billable_item ::
    "handler \<Rightarrow> nat \<Rightarrow> string \<Rightarrow> string option \<Rightarrow> item_fields \<Rightarrow> store
     \<Rightarrow> (db_error + bool) \<times> store" where
  "update_billable_item h now i invoice_id f s =
     (case invoice_id of
        None \<Rightarrow> send_conditional h (update_unbilled_req i f now) s
      | Some invoice_id \<Rightarrow> transact_write h (update_billed_reqs i invoice_id f now) s)"

definition delete_billable_item_req :: "string \<Rightarrow> wreq" where
  "delete_billable_item_req i =
     Delete ''billable_item'' i (CAnd (CExists ''id'') (CNotExists ''invoice_id''))"

definition delete_billable_item :: "handler \<Rightarrow> string \<Rightarrow> store \<Rightarrow> (db_error + bool) \<times> store" where
  "delete_billable_item h i s = send_conditional h (delete_billable_item_req i) s"

subsection \<open>Invoices\<close>

definition attach_req :: "string \<Rightarrow> string \<Rightarrow> string \<Rightarrow> wreq" where
  "attach_req invoice_id project_id x =
     Update ''billable_item'' ''id'' x [ASet ''invoice_id'' (AS invoice_id)]
       (CAnd (CAnd (CExists ''id'') (CNotExists ''invoice_id''))
             (CEq ''project_id'' (AS project_id)))"

definition detach_req :: "string \<Rightarrow> string \<Rightarrow> wreq" where
  "detach_req invoice_id x =
     Update ''billable_item'' ''id'' x [ARemove ''invoice_id'']
       (CAnd (CExists ''id'') (CEq ''invoice_id'' (AS invoice_id)))"

definition invoice_row ::
    "(string list \<Rightarrow> string list) \<Rightarrow> string \<Rightarrow> nat \<Rightarrow> string \<Rightarrow> string \<Rightarrow> string list \<Rightarrow> string \<Rightarrow> item" where
  "invoice_row ss i now instance_id project_id ids created_by =
     (let base = [''id'' \<mapsto> AS i, ''instance_id'' \<mapsto> AS instance_id,
                  ''project_id'' \<mapsto> AS project_id, ''status'' \<mapsto> AS ''draft'',
                  ''version'' \<mapsto> AN 1, ''created_by_user_id'' \<mapsto> AS created_by,
                  ''created_at'' \<mapsto> AN (int now), ''updated_at'' \<mapsto> AN (int now)]
      in if ids = [] then base else base(''item_ids'' \<mapsto> ASs (ss ids)))"

definition create_invoice_reqs ::
    "(string list \<Rightarrow> string list) \<Rightarrow> string \<Rightarrow> nat \<Rightarrow> string \<Rightarrow> string \<Rightarrow> string list \<Rightarrow> string
     \<Rightarrow> wreq list" where
  "create_invoice_reqs ss i now instance_id project_id ids created_by =
     Put ''invoice'' i (invoice_row ss i now instance_id project_id ids created_by)
         (CNotExists ''id'')
     # map (attach_req i project_id) ids"

definition create_invoice ::
    "handler \<Rightarrow> string \<Rightarrow> nat \<Rightarrow> string \<Rightarrow> string \<Rightarrow> string list \<Rightarrow> string \<Rightarrow> store
     \<Rightarrow> (db_error + invoice option) \<times> store" where
  "create_invoice h i now instance_id project_id ids created_by s =
     (let (r, s') = transact_write h
            (create_invoice_reqs (dy_ss (h_svc h)) i now instance_id project_id ids created_by) s
      in (rbind r (\<lambda>committed.
            if \<not> committed then Inr None
            else Inr (Some
              \<lparr>inv_id = i, inv_instance_id = instance_id, inv_project_id = project_id,
               inv_status = Draft, inv_version = 1, inv_item_ids = ids,
               inv_created_by_user_id = created_by, inv_created_at = now, inv_updated_at = now,
               inv_number = None, inv_issue_date = None, inv_snapshot = None,
               inv_total_cents = None, inv_finalized_at = None,
               inv_finalized_by_user_id = None, inv_paid_date = None,
               inv_pdf_s3_key = None\<rparr>)), s'))"

definition draft_at :: "nat \<Rightarrow> cond" where
  "draft_at expected_version =
     CAnd (CEq ''status'' (AS ''draft'')) (CEq ''version'' (AN (int expected_version)))"

definition add_invoice_items_reqs ::
    "nat \<Rightarrow> string \<Rightarrow> string \<Rightarrow> string list \<Rightarrow> nat \<Rightarrow> wreq list" where
  "add_invoice_items_reqs now invoice_id project_id ids expected_version =
     Update ''invoice'' ''id'' invoice_id
       [ASet ''updated_at'' (AN (int now)), AAddSs ''item_ids'' ids, AAddN ''version'' 1]
       (draft_at expected_version)
     # map (attach_req invoice_id project_id) ids"

definition add_invoice_items ::
    "handler \<Rightarrow> nat \<Rightarrow> string \<Rightarrow> string \<Rightarrow> string list \<Rightarrow> nat \<Rightarrow> store \<Rightarrow> (db_error + bool) \<times> store" where
  "add_invoice_items h now invoice_id project_id ids expected_version s =
     transact_write h (add_invoice_items_reqs now invoice_id project_id ids expected_version) s"

definition remove_invoice_items_reqs :: "nat \<Rightarrow> string \<Rightarrow> string list \<Rightarrow> nat \<Rightarrow> wreq list" where
  "remove_invoice_items_reqs now invoice_id ids expected_version =
     Update ''invoice'' ''id'' invoice_id
       [ASet ''updated_at'' (AN (int now)), AAddN ''version'' 1, ADelSs ''item_ids'' ids]
       (draft_at expected_version)
     # map (detach_req invoice_id) ids"

definition remove_invoice_items ::
    "handler \<Rightarrow> nat \<Rightarrow> string \<Rightarrow> string list \<Rightarrow> nat \<Rightarrow> store \<Rightarrow> (db_error + bool) \<times> store" where
  "remove_invoice_items h now invoice_id ids expected_version s =
     transact_write h (remove_invoice_items_reqs now invoice_id ids expected_version) s"

definition delete_invoice_reqs :: "string \<Rightarrow> string list \<Rightarrow> nat \<Rightarrow> wreq list" where
  "delete_invoice_reqs invoice_id ids expected_version =
     Delete ''invoice'' invoice_id (draft_at expected_version) # map (detach_req invoice_id) ids"

definition delete_invoice ::
    "handler \<Rightarrow> string \<Rightarrow> string list \<Rightarrow> nat \<Rightarrow> store \<Rightarrow> (db_error + bool) \<times> store" where
  "delete_invoice h invoice_id ids expected_version s =
     transact_write h (delete_invoice_reqs invoice_id ids expected_version) s"

definition finalize_invoice_req ::
    "nat \<Rightarrow> string \<Rightarrow> nat \<Rightarrow> nat \<Rightarrow> string \<Rightarrow> string \<Rightarrow> int \<Rightarrow> string \<Rightarrow> wreq" where
  "finalize_invoice_req now invoice_id expected_version number issue_date snapshot_json
       total_cents finalized_by =
     Update ''invoice'' ''id'' invoice_id
       [ASet ''status'' (AS ''finalized''), ASet ''number'' (AN (int number)),
        ASet ''issue_date'' (AS issue_date), ASet ''snapshot'' (AS snapshot_json),
        ASet ''total_cents'' (AN total_cents), ASet ''finalized_at'' (AN (int now)),
        ASet ''finalized_by_user_id'' (AS finalized_by), ASet ''updated_at'' (AN (int now)),
        AAddN ''version'' 1]
       (CAnd (CExists ''id'') (draft_at expected_version))"

definition finalize_invoice ::
    "handler \<Rightarrow> nat \<Rightarrow> string \<Rightarrow> nat \<Rightarrow> nat \<Rightarrow> string \<Rightarrow> string \<Rightarrow> int \<Rightarrow> string \<Rightarrow> store
     \<Rightarrow> (db_error + bool) \<times> store" where
  "finalize_invoice h now invoice_id expected_version number issue_date snapshot_json
       total_cents finalized_by s =
     send_conditional h
       (finalize_invoice_req now invoice_id expected_version number issue_date snapshot_json
          total_cents finalized_by) s"

definition is_finalized :: cond where
  "is_finalized = CAnd (CExists ''id'') (CEq ''status'' (AS ''finalized''))"

definition set_invoice_paid_req :: "nat \<Rightarrow> string \<Rightarrow> string option \<Rightarrow> wreq" where
  "set_invoice_paid_req now invoice_id paid_date =
     Update ''invoice'' ''id'' invoice_id
       (case paid_date of
          Some d \<Rightarrow> [ASet ''paid_date'' (AS d), ASet ''updated_at'' (AN (int now))]
        | None \<Rightarrow> [ARemove ''paid_date'', ASet ''updated_at'' (AN (int now))])
       is_finalized"

definition set_invoice_paid ::
    "handler \<Rightarrow> nat \<Rightarrow> string \<Rightarrow> string option \<Rightarrow> store \<Rightarrow> (db_error + bool) \<times> store" where
  "set_invoice_paid h now invoice_id paid_date s =
     send_conditional h (set_invoice_paid_req now invoice_id paid_date) s"

definition set_invoice_pdf_key_req :: "string \<Rightarrow> string \<Rightarrow> wreq" where
  "set_invoice_pdf_key_req invoice_id key =
     Update ''invoice'' ''id'' invoice_id [ASet ''pdf_s3_key'' (AS key)] is_finalized"

definition set_invoice_pdf_key :: "handler \<Rightarrow> string \<Rightarrow> string \<Rightarrow> store \<Rightarrow> (db_error + bool) \<times> store" where
  "set_invoice_pdf_key h invoice_id key s = send_conditional h (set_invoice_pdf_key_req invoice_id key) s"

subsection \<open>The invoice number counter\<close>

definition u64_attr :: "item option \<Rightarrow> string \<Rightarrow> nat option" where
  \<comment> \<open>\<^verbatim>\<open>as_n().ok()\<close> then \<^verbatim>\<open>parse::<u64>().ok()\<close>\<close>
  "u64_attr it a =
     (case attrs_of it a of
        Some (AN n) \<Rightarrow> if 0 \<le> n \<and> n \<le> int u64_max then Some (nat n) else None
      | _ \<Rightarrow> None)"

definition increment_counter_req :: "string \<Rightarrow> wreq" where
  "increment_counter_req instance_id =
     Update ''counter'' ''id'' instance_id [AAddN ''next_invoice_number'' 1] CTrue"

definition increment_invoice_counter ::
    "handler \<Rightarrow> string \<Rightarrow> store \<Rightarrow> (db_error + nat) \<times> store" where
  "increment_invoice_counter h instance_id s =
     (let (r, s') = send_plain h (increment_counter_req instance_id) s
      in (rbind r (\<lambda>_. ok_or (Infrastructure ''counter update missing next_invoice_number'')
            (u64_attr (s' ''counter'' instance_id) ''next_invoice_number'')), s'))"

definition get_invoice_counter :: "handler \<Rightarrow> string \<Rightarrow> store \<Rightarrow> db_error + nat" where
  "get_invoice_counter h instance_id s =
     rbind (map_err Infrastructure (dy_get (h_svc h) s ''counter'' instance_id)) (\<lambda>it.
       Inr (unwrap_or 0 (u64_attr it ''next_invoice_number'')))"

definition set_next_invoice_number_req :: "string \<Rightarrow> nat \<Rightarrow> wreq" where
  "set_next_invoice_number_req instance_id new_value =
     Update ''counter'' ''id'' instance_id
       [ASet ''next_invoice_number'' (AN (int new_value))]
       (COr (CNotExists ''next_invoice_number'') (CLe ''next_invoice_number'' (int new_value)))"

definition set_next_invoice_number ::
    "handler \<Rightarrow> string \<Rightarrow> nat \<Rightarrow> store \<Rightarrow> (db_error + bool) \<times> store" where
  "set_next_invoice_number h instance_id new_value s =
     send_conditional h (set_next_invoice_number_req instance_id new_value) s"

end
