(* ===== verification/Ledger.thy ===== *)
theory Ledger
  imports Invoice_Store
begin

section \<open>What the invoice requests do to the tables\<close>

text \<open>
  The abstract view of the invoice store: the tables \<open>I\<close> (invoices), \<open>B\<close> (billable items)
  as maps from keys to rows, with an item's owner, an invoice's item set, its status and its
  version. For each group of requests one lemma gives the tables after it as an equation on
  the tables before, and \<open>draft_change\<close> says what all changes to drafts have in common: at
  most one invoice changes, it was and stays a draft (or appears, or goes), its version moves
  on, and only items that belong to it or to nobody change hands.
\<close>

type_synonym table = "string \<Rightarrow> item option"

abbreviation invoices :: "store \<Rightarrow> table" where "invoices s \<equiv> s ''invoice''"
abbreviation items :: "store \<Rightarrow> table" where "items s \<equiv> s ''billable_item''"
abbreviation counters :: "store \<Rightarrow> table" where "counters s \<equiv> s ''counter''"

definition item_owner :: "table \<Rightarrow> string \<Rightarrow> string option" where
  "item_owner B x =
     (case B x of None \<Rightarrow> None
      | Some r \<Rightarrow> (case r ''invoice_id'' of Some (AS k) \<Rightarrow> Some k | _ \<Rightarrow> None))"

definition ids_in :: "item \<Rightarrow> string set" where
  "ids_in it = (case it ''item_ids'' of Some (ASs xs) \<Rightarrow> set xs | _ \<Rightarrow> {})"

definition ids_of :: "table \<Rightarrow> string \<Rightarrow> string set" where
  "ids_of I k = (case I k of None \<Rightarrow> {} | Some it \<Rightarrow> ids_in it)"

definition is_draft :: "item \<Rightarrow> bool" where
  "is_draft it \<longleftrightarrow> it ''status'' = Some (AS ''draft'')"

definition is_final :: "item \<Rightarrow> bool" where
  "is_final it \<longleftrightarrow> it ''status'' = Some (AS ''finalized'')"

definition version_of :: "item \<Rightarrow> int" where
  "version_of it = (case it ''version'' of Some (AN v) \<Rightarrow> v | _ \<Rightarrow> 0)"

subsection \<open>Well-formed tables\<close>

definition invoice_row_ok :: "string \<Rightarrow> item \<Rightarrow> bool" where
  "invoice_row_ok k it \<longleftrightarrow>
     it ''id'' = Some (AS k) \<and> (is_draft it \<or> is_final it) \<and> (is_draft it \<longrightarrow> it ''number'' = None)
     \<and> (\<exists>v. it ''version'' = Some (AN v) \<and> 1 \<le> v)
     \<and> (it ''item_ids'' = None \<or> (\<exists>xs. it ''item_ids'' = Some (ASs xs) \<and> distinct xs))"

definition item_row_ok :: "string \<Rightarrow> item \<Rightarrow> bool" where
  "item_row_ok x r \<longleftrightarrow>
     r ''id'' = Some (AS x) \<and> (r ''invoice_id'' = None \<or> (\<exists>k. r ''invoice_id'' = Some (AS k)))"

definition links :: "table \<Rightarrow> table \<Rightarrow> bool" where
  "links I B \<longleftrightarrow> (\<forall>x k. item_owner B x = Some k \<longleftrightarrow> x \<in> ids_of I k)"

definition ledger_ok :: "table \<Rightarrow> table \<Rightarrow> bool" where
  "ledger_ok I B \<longleftrightarrow>
     (\<forall>k it. I k = Some it \<longrightarrow> invoice_row_ok k it) \<and> (\<forall>x r. B x = Some r \<longrightarrow> item_row_ok x r) \<and> links I B"

lemma ledger_okD:
  "ledger_ok I B \<Longrightarrow> I k = Some it \<Longrightarrow> invoice_row_ok k it"
  "ledger_ok I B \<Longrightarrow> B x = Some r \<Longrightarrow> item_row_ok x r"
  "ledger_ok I B \<Longrightarrow> item_owner B x = Some k \<longleftrightarrow> x \<in> ids_of I k"
  by (auto simp: ledger_ok_def links_def)

lemma not_draft_final [simp]: "is_draft it \<Longrightarrow> \<not> is_final it" "is_final it \<Longrightarrow> \<not> is_draft it"
  by (auto simp: is_draft_def is_final_def)

lemma ids_of_simps [simp]:
  "I k = None \<Longrightarrow> ids_of I k = {}"
  "I k = Some it \<Longrightarrow> ids_of I k = ids_in it"
  by (simp_all add: ids_of_def)

lemma ids_of_upd [simp]: "ids_of (I(k := v)) j = (if j = k then (case v of None \<Rightarrow> {} | Some it \<Rightarrow> ids_in it) else ids_of I j)"
  by (simp add: ids_of_def)

lemma item_owner_None_iff:
  "item_row_ok x r \<Longrightarrow> B x = Some r \<Longrightarrow> item_owner B x = None \<longleftrightarrow> r ''invoice_id'' = None"
  by (auto simp: item_owner_def item_row_ok_def)

subsection \<open>Attaching and detaching items\<close>

definition attach :: "string \<Rightarrow> string set \<Rightarrow> table \<Rightarrow> table" where
  "attach k X B = (\<lambda>x. if x \<in> X then map_option (\<lambda>r. r(''invoice_id'' \<mapsto> AS k)) (B x) else B x)"

definition detach :: "string set \<Rightarrow> table \<Rightarrow> table" where
  "detach X B = (\<lambda>x. if x \<in> X then map_option (\<lambda>r. r(''invoice_id'' := None)) (B x) else B x)"

definition free_items :: "string \<Rightarrow> string set \<Rightarrow> table \<Rightarrow> bool" where
  "free_items p X B \<longleftrightarrow>
     (\<forall>x \<in> X. \<exists>r. B x = Some r \<and> r ''invoice_id'' = None \<and> r ''project_id'' = Some (AS p))"

definition owned_items :: "string \<Rightarrow> string set \<Rightarrow> table \<Rightarrow> bool" where
  "owned_items k X B \<longleftrightarrow> (\<forall>x \<in> X. \<exists>r. B x = Some r \<and> r ''invoice_id'' = Some (AS k))"

lemma item_owner_attach: "free_items p X B \<Longrightarrow> item_owner (attach k X B) x = (if x \<in> X then Some k else item_owner B x)"
  by (auto simp: item_owner_def attach_def free_items_def split: option.splits)

lemma item_owner_detach: "item_owner (detach X B) x = (if x \<in> X then None else item_owner B x)"
  by (auto simp: item_owner_def detach_def split: option.splits)

lemma free_items_owner: "free_items p X B \<Longrightarrow> x \<in> X \<Longrightarrow> item_owner B x = None"
  by (force simp: free_items_def item_owner_def)

lemma owned_items_owner: "owned_items k X B \<Longrightarrow> x \<in> X \<Longrightarrow> item_owner B x = Some k"
  by (force simp: owned_items_def item_owner_def)

lemma attach_rows_ok: "(\<forall>x r. B x = Some r \<longrightarrow> item_row_ok x r) \<Longrightarrow> attach k X B x = Some r \<Longrightarrow> item_row_ok x r"
  by (auto simp: attach_def item_row_ok_def split: if_splits)

lemma detach_rows_ok: "(\<forall>x r. B x = Some r \<longrightarrow> item_row_ok x r) \<Longrightarrow> detach X B x = Some r \<Longrightarrow> item_row_ok x r"
  by (auto simp: detach_def item_row_ok_def split: if_splits)

lemma attach_changed: "attach k X B x \<noteq> B x \<Longrightarrow> x \<in> X"
  and detach_changed: "detach X B x \<noteq> B x \<Longrightarrow> x \<in> X"
  by (auto simp: attach_def detach_def split: if_splits)

text \<open>One invoice request followed by an attach or a detach request for each id.\<close>

lemma target_attach [simp]: "target (attach_req k p x) = (''billable_item'', x)"
  and target_detach [simp]: "target (detach_req k x) = (''billable_item'', x)"
  by (simp_all add: attach_req_def detach_req_def)

lemma commits_attach:
  assumes "commits ss s (w # map (attach_req k p) ids) s'" "target w = (''invoice'', j)"
  shows "invoices s' = (invoices s)(j := new_item ss s w)" "items s' = attach k (set ids) (items s)"
    and "free_items p (set ids) (items s)" "cond_holds s w"
    and "t \<noteq> ''invoice'' \<Longrightarrow> t \<noteq> ''billable_item'' \<Longrightarrow> s' t = s t"
proof -
  have row: "\<exists>r. items s x = Some r \<and> r ''invoice_id'' = None \<and> r ''project_id'' = Some (AS p)" if "x \<in> set ids" for x
    using commits_cond [OF assms(1), of "attach_req k p x"] that
    by (auto simp: cond_holds_def attach_req_def attrs_of_def split: option.splits)
  then show free: "free_items p (set ids) (items s)" by (simp add: free_items_def)
  show "cond_holds s w" using commits_cond [OF assms(1), of w] by simp
  show "invoices s' = (invoices s)(j := new_item ss s w)"
    using commits_row [OF assms(1) _ assms(2)] commits_other [OF assms(1), of "''invoice''"] assms(2)
    by (auto simp: fun_eq_iff image_iff)
  have "items s' x = attach k (set ids) (items s) x" for x
  proof (cases "x \<in> set ids")
    case True
    with row [OF True] show ?thesis
      using commits_row [OF assms(1), of "attach_req k p x" "''billable_item''" x]
      by (auto simp: attach_def attach_req_def update_base_def)
  next
    case False
    then show ?thesis using commits_other [OF assms(1), of "''billable_item''" x] assms(2)
      by (auto simp: attach_def image_iff)
  qed
  then show "items s' = attach k (set ids) (items s)" by blast
  show "s' t = s t" if "t \<noteq> ''invoice''" "t \<noteq> ''billable_item''"
    using commits_other [OF assms(1), of t] assms(2) that by (auto simp: fun_eq_iff image_iff)
qed

lemma commits_detach:
  assumes "commits ss s (w # map (detach_req k) ids) s'" "target w = (''invoice'', j)"
  shows "invoices s' = (invoices s)(j := new_item ss s w)" "items s' = detach (set ids) (items s)"
    and "owned_items k (set ids) (items s)" "cond_holds s w"
    and "t \<noteq> ''invoice'' \<Longrightarrow> t \<noteq> ''billable_item'' \<Longrightarrow> s' t = s t"
proof -
  have row: "\<exists>r. items s x = Some r \<and> r ''invoice_id'' = Some (AS k)" if "x \<in> set ids" for x
    using commits_cond [OF assms(1), of "detach_req k x"] that
    by (auto simp: cond_holds_def detach_req_def attrs_of_def split: option.splits)
  then show owned: "owned_items k (set ids) (items s)" by (simp add: owned_items_def)
  show "cond_holds s w" using commits_cond [OF assms(1), of w] by simp
  show "invoices s' = (invoices s)(j := new_item ss s w)"
    using commits_row [OF assms(1) _ assms(2)] commits_other [OF assms(1), of "''invoice''"] assms(2)
    by (auto simp: fun_eq_iff image_iff)
  have "items s' x = detach (set ids) (items s) x" for x
  proof (cases "x \<in> set ids")
    case True
    with row [OF True] show ?thesis
      using commits_row [OF assms(1), of "detach_req k x" "''billable_item''" x]
      by (auto simp: detach_def detach_req_def update_base_def)
  next
    case False
    then show ?thesis using commits_other [OF assms(1), of "''billable_item''" x] assms(2)
      by (auto simp: detach_def image_iff)
  qed
  then show "items s' = detach (set ids) (items s)" by blast
  show "s' t = s t" if "t \<noteq> ''invoice''" "t \<noteq> ''billable_item''"
    using commits_other [OF assms(1), of t] assms(2) that by (auto simp: fun_eq_iff image_iff)
qed

subsection \<open>Changes to drafts\<close>

definition same_core :: "item \<Rightarrow> item \<Rightarrow> bool" where
  "same_core it it' \<longleftrightarrow>
     (\<forall>a \<in> {''id'', ''instance_id'', ''project_id'', ''created_by_user_id'', ''created_at'', ''number''}.
        it' a = it a)"

definition draft_change :: "string option \<Rightarrow> table \<Rightarrow> table \<Rightarrow> table \<Rightarrow> table \<Rightarrow> bool" where
  "draft_change ko I B I' B' \<longleftrightarrow>
     (\<forall>k. ko \<noteq> Some k \<longrightarrow> I' k = I k)
     \<and> (\<forall>x. B' x \<noteq> B x \<longrightarrow> item_owner B x \<in> {None, ko})
     \<and> (\<forall>k it. ko = Some k \<longrightarrow> I k = Some it \<longrightarrow> is_draft it)
     \<and> (\<forall>k it'. ko = Some k \<longrightarrow> I' k = Some it' \<longrightarrow> is_draft it' \<and> it' ''number'' = None
          \<and> (\<forall>it. I k = Some it \<longrightarrow> same_core it it' \<and> version_of it < version_of it'))"

lemma draft_changeI:
  assumes "\<And>k. ko \<noteq> Some k \<Longrightarrow> I' k = I k"
    and "\<And>x. B' x \<noteq> B x \<Longrightarrow> item_owner B x = None \<or> item_owner B x = ko"
    and "\<And>k it. ko = Some k \<Longrightarrow> I k = Some it \<Longrightarrow> is_draft it"
    and "\<And>k it'. ko = Some k \<Longrightarrow> I' k = Some it' \<Longrightarrow> is_draft it' \<and> it' ''number'' = None"
    and "\<And>k it it'. ko = Some k \<Longrightarrow> I k = Some it \<Longrightarrow> I' k = Some it' \<Longrightarrow>
      same_core it it' \<and> version_of it < version_of it'"
  shows "draft_change ko I B I' B'"
  using assms unfolding draft_change_def by blast

text \<open>Each operation keeps the tables well formed and is a change to a draft.\<close>

definition ledger_step :: "string option \<Rightarrow> store \<Rightarrow> store \<Rightarrow> bool" where
  "ledger_step ko s s' \<longleftrightarrow>
     (ledger_ok (invoices s) (items s) \<longrightarrow>
        ledger_ok (invoices s') (items s')
        \<and> draft_change ko (invoices s) (items s) (invoices s') (items s'))
     \<and> counters s' = counters s"

lemma cond_holds_update:
  "cond_holds s (Update t kn k acts c) \<longleftrightarrow> holds c (attrs_of (s t k))"
  by (simp add: cond_holds_def)

lemma draft_at_row:
  "holds (draft_at v) (attrs_of r) \<Longrightarrow>
     \<exists>it. r = Some it \<and> is_draft it \<and> it ''version'' = Some (AN (int v))"
  by (auto simp: draft_at_def attrs_of_def is_draft_def split: option.splits)

lemma draft_row_ok: "invoice_row_ok k it \<Longrightarrow> is_draft it \<Longrightarrow> it ''number'' = None"
  by (auto simp: invoice_row_ok_def)

subsection \<open>Links\<close>

lemma links_attach:
  assumes "links I B" "free_items p X B" "ids_in it' = ids_of I k \<union> X"
  shows "links (I(k \<mapsto> it')) (attach k X B)"
proof -
  have free: "x \<notin> ids_of I j" if "x \<in> X" for x j
    using assms(1) free_items_owner [OF assms(2) that] unfolding links_def by (metis option.distinct(1))
  show ?thesis
    using assms(1,3) free unfolding links_def item_owner_attach [OF assms(2)] by auto
qed

lemma links_detach:
  assumes "links I B" "owned_items k X B"
    and "(case r of None \<Rightarrow> {} | Some it \<Rightarrow> ids_in it) = ids_of I k - X"
  shows "links (I(k := r)) (detach X B)"
proof -
  have owned: "x \<notin> ids_of I j" if "x \<in> X" "j \<noteq> k" for x j
    using assms(1) owned_items_owner [OF assms(2) that(1)] that(2) unfolding links_def by (metis option.sel)
  show ?thesis
    using assms(1,3) owned unfolding links_def item_owner_detach ids_of_upd by auto
qed

lemma links_same:
  assumes "links I B" "\<And>k. ids_of I' k = ids_of I k" "\<And>x. item_owner B' x = item_owner B x"
  shows "links I' B'"
  using assms by (simp add: links_def)

lemma ledger_ok_links: "ledger_ok I B \<Longrightarrow> links I B"
  by (simp add: ledger_ok_def)

lemma ledger_okI:
  assumes "\<And>k it. I k = Some it \<Longrightarrow> invoice_row_ok k it" "\<And>x r. B x = Some r \<Longrightarrow> item_row_ok x r" "links I B"
  shows "ledger_ok I B"
  using assms by (simp add: ledger_ok_def)

definition set_enum :: "(string list \<Rightarrow> string list) \<Rightarrow> bool" where
  "set_enum ss \<longleftrightarrow> (\<forall>xs. set (ss xs) = set xs \<and> distinct (ss xs))"

lemma set_enumD [simp]: "set_enum ss \<Longrightarrow> set (ss xs) = set xs" "set_enum ss \<Longrightarrow> distinct (ss xs)"
  by (simp_all add: set_enum_def)

text \<open>An invoice row after the update expressions of the code.\<close>

definition bump :: "nat \<Rightarrow> int \<Rightarrow> attr option \<Rightarrow> item \<Rightarrow> item" where
  "bump now v ids it = (it(''updated_at'' \<mapsto> AN (int now), ''version'' \<mapsto> AN (v + 1)))(''item_ids'' := ids)"

lemma bump_ok:
  assumes "invoice_row_ok k it" "is_draft it" "it ''version'' = Some (AN v)"
    and "ids = None \<or> (\<exists>xs. ids = Some (ASs xs) \<and> distinct xs)"
  shows "invoice_row_ok k (bump now v ids it)" "is_draft (bump now v ids it)"
    "same_core it (bump now v ids it)" "version_of it < version_of (bump now v ids it)"
    "bump now v ids it ''number'' = None"
  using assms by (auto simp: invoice_row_ok_def bump_def is_draft_def is_final_def same_core_def version_of_def)

lemma ids_in_bump: "ids_in (bump now v ids it) = (case ids of Some (ASs xs) \<Rightarrow> set xs | _ \<Rightarrow> {})"
  by (simp add: ids_in_def bump_def)

lemma ids_in_cases:
  assumes "invoice_row_ok k it"
  obtains "it ''item_ids'' = None" "ids_in it = {}"
    | xs where "it ''item_ids'' = Some (ASs xs)" "ids_in it = set xs" "distinct xs"
  using assms by (auto simp: invoice_row_ok_def ids_in_def)

lemma bump_change:
  assumes "ledger_ok I B" "I k = Some it" "is_draft it" "it ''version'' = Some (AN v)"
    and "ids = None \<or> (\<exists>xs. ids = Some (ASs xs) \<and> distinct xs)"
    and "I' = I(k \<mapsto> bump now v ids it)" "links I' B'" "\<And>x r. B' x = Some r \<Longrightarrow> item_row_ok x r"
    and "\<And>x. B' x \<noteq> B x \<Longrightarrow> item_owner B x = None \<or> item_owner B x = Some k"
  shows "ledger_ok I' B' \<and> draft_change (Some k) I B I' B'"
proof
  note ok = bump_ok [OF ledger_okD(1) [OF assms(1,2)] assms(3,4,5), of now]
  show "ledger_ok I' B'"
    using ok(1) ledger_okD(1) [OF assms(1)] assms(6-8) by (intro ledger_okI) (auto split: if_splits)
  show "draft_change (Some k) I B I' B'"
    using ok assms(2,3,6,9) by (intro draft_changeI) auto
qed

subsection \<open>The draft operations\<close>

lemma create_invoice_change:
  assumes "commits ss s (create_invoice_reqs ss i now inst p ids u) s'" "set_enum ss"
  shows "ledger_step (Some i) s s'"
proof -
  let ?row = "invoice_row ss i now inst p ids u"
  note eff = commits_attach [OF assms(1) [unfolded create_invoice_reqs_def], of i, simplified]
  have ids: "ids_in ?row = set ids" using assms(2) by (auto simp: ids_in_def invoice_row_def Let_def)
  have draft: "is_draft ?row" "?row ''number'' = None" by (auto simp: is_draft_def invoice_row_def Let_def)
  have row: "invoice_row_ok i ?row"
    using assms(2) draft by (auto simp: invoice_row_ok_def invoice_row_def Let_def)
  show ?thesis unfolding ledger_step_def
  proof (intro conjI impI)
    assume ok: "ledger_ok (invoices s) (items s)"
    have fresh: "invoices s i = None"
      using eff(4) ledger_okD(1) [OF ok, of i]
      by (auto simp: cond_holds_def attrs_of_def invoice_row_ok_def split: option.splits)
    have "links (invoices s) (items s)" using ok by (simp add: ledger_ok_def)
    from links_attach [OF this eff(3), of ?row i] fresh ids eff(1,2)
    have links: "links (invoices s') (items s')" by simp
    show "ledger_ok (invoices s') (items s')"
      using links row eff(1,2) ok attach_rows_ok [of "items s"]
      by (intro ledger_okI) (auto simp: ledger_ok_def split: if_splits)
    show "draft_change (Some i) (invoices s) (items s) (invoices s') (items s')"
      using eff(1,2) free_items_owner [OF eff(3)] fresh draft
      by (intro draft_changeI) (auto simp: attach_def split: if_splits)
  qed (use eff(5) in simp)
qed

lemma fold_add:
  assumes "it ''version'' = Some (AN v)" "invoice_row_ok k it"
  shows "fold (apply_action ss) [ASet ''updated_at'' (AN (int now)), AAddSs ''item_ids'' ids, AAddN ''version'' 1] it
    = bump now v (Some (ASs (ss (case it ''item_ids'' of Some (ASs xs) \<Rightarrow> xs @ ids | _ \<Rightarrow> ids)))) it"
proof (cases "it ''item_ids''")
  case None
  with assms(1) show ?thesis by (simp add: bump_def fun_upd_twist)
next
  case (Some a)
  with assms(2) obtain xs where "it ''item_ids'' = Some (ASs xs)" by (auto simp: invoice_row_ok_def)
  with assms(1) show ?thesis by (simp add: bump_def fun_upd_twist)
qed

lemma fold_remove:
  assumes "it ''version'' = Some (AN v)" "invoice_row_ok k it"
    and "rest = (case it ''item_ids'' of Some (ASs xs) \<Rightarrow> filter (\<lambda>y. y \<notin> set ids) xs | _ \<Rightarrow> [])"
  shows "fold (apply_action ss) [ASet ''updated_at'' (AN (int now)), AAddN ''version'' 1, ADelSs ''item_ids'' ids] it
    = bump now v (if rest = [] then None else Some (ASs (ss rest))) it"
proof (cases "it ''item_ids''")
  case None
  with assms(1,3) show ?thesis by (auto simp: bump_def fun_eq_iff)
next
  case (Some a)
  with assms(2) obtain xs where "it ''item_ids'' = Some (ASs xs)" by (auto simp: invoice_row_ok_def)
  with assms(1,3) show ?thesis by (simp add: bump_def Let_def)
qed

lemma add_invoice_items_change:
  assumes "commits ss s (add_invoice_items_reqs now k p ids v) s'" "set_enum ss"
  shows "ledger_step (Some k) s s'"
proof -
  note eff = commits_attach [OF assms(1) [unfolded add_invoice_items_reqs_def], of k,
      simplified target.simps new_item.simps, OF refl]
  obtain it where it: "invoices s k = Some it" "is_draft it" "it ''version'' = Some (AN (int v))"
    using eff(4) draft_at_row by (auto simp: cond_holds_update)
  show ?thesis unfolding ledger_step_def
  proof (intro conjI impI)
    assume ok: "ledger_ok (invoices s) (items s)"
    define ids' where "ids' = Some (ASs (ss (case it ''item_ids'' of Some (ASs xs) \<Rightarrow> xs @ ids | _ \<Rightarrow> ids)))"
    have I: "invoices s' = (invoices s)(k \<mapsto> bump now (int v) ids' it)"
      using eff(1) it(1) fold_add [OF it(3) ledger_okD(1) [OF ok it(1)], of ss now ids]
      by (simp add: update_base_def ids'_def del: fold.simps)
    have "ids_in (bump now (int v) ids' it) = ids_of (invoices s) k \<union> set ids"
      using it(1) assms(2)
      by (cases rule: ids_in_cases [OF ledger_okD(1) [OF ok it(1)]]) (auto simp: ids_in_bump ids'_def)
    with ok eff(3) have links: "links (invoices s') (items s')"
      unfolding I eff(2) by (intro links_attach) (simp_all add: ledger_ok_def)
    have dist: "ids' = None \<or> (\<exists>xs. ids' = Some (ASs xs) \<and> distinct xs)" using assms(2) by (simp add: ids'_def)
    have rows: "item_row_ok x r" if "items s' x = Some r" for x r
      using attach_rows_ok [of "items s"] ledger_okD(2) [OF ok] that unfolding eff(2) by blast
    have chg: "item_owner (items s) x = None \<or> item_owner (items s) x = Some k" if "items s' x \<noteq> items s x" for x
      using that free_items_owner [OF eff(3)] attach_changed unfolding eff(2) by blast
    from bump_change [OF ok it dist I links rows chg]
    show "ledger_ok (invoices s') (items s')"
      and "draft_change (Some k) (invoices s) (items s) (invoices s') (items s')" by simp_all
  qed (use eff(5) in simp)
qed

lemma remove_invoice_items_change:
  assumes "commits ss s (remove_invoice_items_reqs now k ids v) s'" "set_enum ss"
  shows "ledger_step (Some k) s s'"
proof -
  note eff = commits_detach [OF assms(1) [unfolded remove_invoice_items_reqs_def], of k,
      simplified target.simps new_item.simps, OF refl]
  obtain it where it: "invoices s k = Some it" "is_draft it" "it ''version'' = Some (AN (int v))"
    using eff(4) draft_at_row by (auto simp: cond_holds_update)
  show ?thesis unfolding ledger_step_def
  proof (intro conjI impI)
    assume ok: "ledger_ok (invoices s) (items s)"
    define rest where "rest = (case it ''item_ids'' of Some (ASs xs) \<Rightarrow> filter (\<lambda>y. y \<notin> set ids) xs | _ \<Rightarrow> [])"
    define ids' where "ids' = (if rest = [] then None else Some (ASs (ss rest)))"
    have I: "invoices s' = (invoices s)(k \<mapsto> bump now (int v) ids' it)"
      using eff(1) it(1) fold_remove [OF it(3) ledger_okD(1) [OF ok it(1)] rest_def, of ss now]
      by (simp add: update_base_def ids'_def del: fold.simps)
    have ids: "ids_in (bump now (int v) ids' it) = ids_of (invoices s) k - set ids"
    proof -
      have "ids_in (bump now (int v) ids' it) = set rest"
        using assms(2) by (auto simp: ids_in_bump ids'_def)
      also have "\<dots> = ids_of (invoices s) k - set ids"
        using it(1) by (cases rule: ids_in_cases [OF ledger_okD(1) [OF ok it(1)]]) (auto simp: rest_def)
      finally show ?thesis .
    qed
    with ok eff(3) have links: "links (invoices s') (items s')"
      unfolding I eff(2) by (intro links_detach) (simp_all add: ledger_ok_def)
    have dist: "ids' = None \<or> (\<exists>xs. ids' = Some (ASs xs) \<and> distinct xs)" using assms(2) by (simp add: ids'_def)
    have rows: "item_row_ok x r" if "items s' x = Some r" for x r
      using detach_rows_ok [of "items s"] ledger_okD(2) [OF ok] that unfolding eff(2) by blast
    have chg: "item_owner (items s) x = None \<or> item_owner (items s) x = Some k" if "items s' x \<noteq> items s x" for x
      using that owned_items_owner [OF eff(3)] detach_changed unfolding eff(2) by blast
    from bump_change [OF ok it dist I links rows chg]
    show "ledger_ok (invoices s') (items s')"
      and "draft_change (Some k) (invoices s) (items s) (invoices s') (items s')" by simp_all
  qed (use eff(5) in simp)
qed

lemma delete_invoice_change:
  assumes "commits ss s (delete_invoice_reqs k ids v) s'"
    and "\<And>it. invoices s k = Some it \<Longrightarrow> version_of it = int v \<Longrightarrow> ids_in it = set ids"
  shows "ledger_step (Some k) s s'"
proof -
  note eff = commits_detach [OF assms(1) [unfolded delete_invoice_reqs_def], of k, simplified]
  obtain it where it: "invoices s k = Some it" "is_draft it" "it ''version'' = Some (AN (int v))"
    using eff(4) draft_at_row by (auto simp: cond_holds_def)
  have ids: "ids_in it = set ids" using assms(2) it by (simp add: version_of_def)
  show ?thesis unfolding ledger_step_def
  proof (intro conjI impI)
    assume ok: "ledger_ok (invoices s) (items s)"
    have links: "links (invoices s') (items s')"
      unfolding eff(1,2) using ok eff(3) it(1) ids by (intro links_detach) (simp_all add: ledger_ok_def)
    show "ledger_ok (invoices s') (items s')"
      using links eff(1,2) ok detach_rows_ok [of "items s"]
      by (intro ledger_okI) (auto simp: ledger_ok_def split: if_splits)
    show "draft_change (Some k) (invoices s) (items s) (invoices s') (items s')"
      using eff(1,2) it owned_items_owner [OF eff(3)]
      by (intro draft_changeI) (auto simp: detach_def split: if_splits)
  qed (use eff(5) in simp)
qed

subsection \<open>Operations on items\<close>

lemma fold_fields:
  assumes "r' = fold (apply_action ss) (item_field_actions f now) r"
  shows "r' ''id'' = r ''id''" "r' ''invoice_id'' = r ''invoice_id''" "r' ''project_id'' = r ''project_id''"
  using assms by (simp_all add: item_field_actions_def)

lemma update_billed_change:
  assumes "commits ss s (update_billed_reqs x k f now) s'"
  shows "ledger_step (Some k) s s'"
proof -
  let ?r = "Update ''billable_item'' ''id'' x (item_field_actions f now)
              (CAnd (CExists ''id'') (CEq ''invoice_id'' (AS k)))"
  let ?w = "Update ''invoice'' ''id'' k [ASet ''updated_at'' (AN (int now)), AAddN ''version'' 1]
              (CAnd (CExists ''id'') (CEq ''status'' (AS ''draft'')))"
  have c: "commits ss s [?r, ?w] s'" using assms by (simp add: update_billed_reqs_def)
  obtain r where r: "items s x = Some r" "r ''invoice_id'' = Some (AS k)"
    using commits_cond [OF c, of ?r] by (auto simp: cond_holds_update attrs_of_def split: option.splits)
  obtain it where it: "invoices s k = Some it" "is_draft it"
    using commits_cond [OF c, of ?w]
    by (auto simp: cond_holds_update attrs_of_def is_draft_def split: option.splits)
  define r' where "r' = fold (apply_action ss) (item_field_actions f now) r"
  note same = fold_fields [OF r'_def]
  have B: "items s' = (items s)(x \<mapsto> r')"
    using commits_row [OF c, of ?r] commits_other [OF c, of "''billable_item''"] r(1)
    by (auto simp: fun_eq_iff update_base_def r'_def)
  show ?thesis unfolding ledger_step_def
  proof (intro conjI impI)
    assume ok: "ledger_ok (invoices s) (items s)"
    obtain v where v: "it ''version'' = Some (AN v)"
      using ledger_okD(1) [OF ok it(1)] by (auto simp: invoice_row_ok_def)
    have I: "invoices s' = (invoices s)(k \<mapsto> bump now v (it ''item_ids'') it)"
      using commits_row [OF c, of ?w] commits_other [OF c, of "''invoice''"] it(1) v
      by (auto simp: fun_eq_iff update_base_def bump_def)
    have dist: "it ''item_ids'' = None \<or> (\<exists>xs. it ''item_ids'' = Some (ASs xs) \<and> distinct xs)"
      using ledger_okD(1) [OF ok it(1)] by (simp add: invoice_row_ok_def)
    have owner: "item_owner (items s') y = item_owner (items s) y" for y
      using r same by (simp add: B item_owner_def)
    have ids: "ids_of (invoices s') j = ids_of (invoices s) j" for j
      using it(1) by (auto simp: I ids_in_def bump_def)
    have links: "links (invoices s') (items s')"
      by (rule links_same [OF ledger_ok_links [OF ok] ids owner])
    have rows: "item_row_ok y q" if "items s' y = Some q" for y q
      using that ledger_okD(2) [OF ok] r(1) same by (auto simp: B item_row_ok_def split: if_splits)
    have chg: "item_owner (items s) y = None \<or> item_owner (items s) y = Some k" if "items s' y \<noteq> items s y" for y
      using that r by (auto simp: B item_owner_def split: if_splits)
    from bump_change [OF ok it v dist I links rows chg]
    show "ledger_ok (invoices s') (items s')"
      and "draft_change (Some k) (invoices s) (items s) (invoices s') (items s')" by simp_all
  qed (use commits_other [OF c, of "''counter''"] in \<open>auto simp: fun_eq_iff\<close>)
qed

lemma free_item_change:
  assumes "commits ss s [w] s'" "target w = (''billable_item'', x)"
    and old: "\<And>r. items s x = Some r \<Longrightarrow> r ''invoice_id'' = None"
    and new: "\<And>r r'. (case items s x of None \<Rightarrow> True | Some r \<Rightarrow> item_row_ok x r) \<Longrightarrow> new_item ss s w = Some r' \<Longrightarrow>
      r' ''id'' = Some (AS x) \<and> r' ''invoice_id'' = None"
  shows "ledger_step None s s'"
proof -
  have I: "invoices s' = invoices s" and C: "counters s' = counters s"
    using commits_other [OF assms(1), of "''invoice''"] commits_other [OF assms(1), of "''counter''"] assms(2)
    by (auto simp: fun_eq_iff)
  have B: "items s' = (items s)(x := new_item ss s w)"
    using commits_row [OF assms(1) _ assms(2)] commits_other [OF assms(1), of "''billable_item''"] assms(2)
    by (auto simp: fun_eq_iff)
  show ?thesis unfolding ledger_step_def
  proof (intro conjI impI)
    assume ok: "ledger_ok (invoices s) (items s)"
    have row: "case items s x of None \<Rightarrow> True | Some r \<Rightarrow> item_row_ok x r"
      using ledger_okD(2) [OF ok, of x] by (auto split: option.splits)
    have before: "item_owner (items s) x = None" using old by (auto simp: item_owner_def split: option.splits)
    have after: "item_owner (items s') x = None"
      using new [OF row] by (auto simp: B item_owner_def split: option.splits)
    have owner: "item_owner (items s') y = item_owner (items s) y" for y
      using before after by (cases "y = x") (auto simp: B item_owner_def)
    have "links (invoices s') (items s')"
      by (rule links_same [OF ledger_ok_links [OF ok] _ owner]) (simp add: I)
    then show "ledger_ok (invoices s') (items s')"
      using ledger_okD(1,2) [OF ok] I B new [OF row]
      by (intro ledger_okI) (auto simp: item_row_ok_def split: if_splits)
    show "draft_change None (invoices s) (items s) (invoices s') (items s')"
      using I B before by (intro draft_changeI) (auto split: if_splits)
  qed (rule C)
qed

lemma create_item_change:
  assumes "commits ss s [create_billable_item_req i now inst p f u] s'" "items s i = None"
  shows "ledger_step None s s'"
  using assms
  by (intro free_item_change [OF assms(1)]) (auto simp: create_billable_item_req_def billable_item_row_def)

lemma update_unbilled_change:
  assumes "commits ss s [update_unbilled_req x f now] s'"
  shows "ledger_step None s s'"
proof -
  have c: "cond_holds s (update_unbilled_req x f now)" using assms by (simp add: commits_single)
  then obtain r where r: "items s x = Some r" "r ''invoice_id'' = None"
    by (auto simp: update_unbilled_req_def cond_holds_update attrs_of_def split: option.splits)
  show ?thesis
    using r fold_fields [OF refl, of ss f now r]
    by (intro free_item_change [OF assms]) (auto simp: update_unbilled_req_def update_base_def item_row_ok_def)
qed

lemma delete_item_change:
  assumes "commits ss s [delete_billable_item_req x] s'"
  shows "ledger_step None s s'"
proof -
  have c: "cond_holds s (delete_billable_item_req x)" using assms by (simp add: commits_single)
  then obtain r where r: "items s x = Some r" "r ''invoice_id'' = None"
    by (auto simp: delete_billable_item_req_def cond_holds_def attrs_of_def split: option.splits)
  show ?thesis
    using r by (intro free_item_change [OF assms]) (auto simp: delete_billable_item_req_def)
qed

subsection \<open>Finalizing, and what may still change afterwards\<close>

definition final_row ::
    "nat \<Rightarrow> int \<Rightarrow> nat \<Rightarrow> string \<Rightarrow> string \<Rightarrow> int \<Rightarrow> string \<Rightarrow> item \<Rightarrow> item" where
  "final_row now v n date json tot u it =
     it(''status'' \<mapsto> AS ''finalized'', ''number'' \<mapsto> AN (int n), ''issue_date'' \<mapsto> AS date,
        ''snapshot'' \<mapsto> AS json, ''total_cents'' \<mapsto> AN tot, ''finalized_at'' \<mapsto> AN (int now),
        ''finalized_by_user_id'' \<mapsto> AS u, ''updated_at'' \<mapsto> AN (int now), ''version'' \<mapsto> AN (v + 1))"

lemma final_row_facts [simp]:
  "is_final (final_row now v n date json tot u it)" "ids_in (final_row now v n date json tot u it) = ids_in it"
  by (simp_all add: is_final_def ids_in_def final_row_def)

lemma commits_one_table:
  assumes "commits ss s [w] s'" "target w = (t, k)"
  shows "s' t = (s t)(k := new_item ss s w)" "t' \<noteq> t \<Longrightarrow> s' t' = s t'" "cond_holds s w"
proof -
  show "s' t = (s t)(k := new_item ss s w)"
    using commits_row [OF assms(1) _ assms(2)] commits_other [OF assms(1), of t] assms(2)
    by (auto simp: fun_eq_iff)
  show "s' t' = s t'" if "t' \<noteq> t"
    using commits_other [OF assms(1), of t'] assms(2) that by (auto simp: fun_eq_iff)
  show "cond_holds s w" using commits_cond [OF assms(1), of w] by simp
qed

lemma finalize_effect:
  assumes "commits ss s [finalize_invoice_req now k v n date json tot u] s'"
  shows "\<exists>it. invoices s k = Some it \<and> is_draft it \<and> it ''version'' = Some (AN (int v))
    \<and> invoices s' = (invoices s)(k \<mapsto> final_row now (int v) n date json tot u it)
    \<and> items s' = items s \<and> counters s' = counters s"
proof -
  let ?w = "finalize_invoice_req now k v n date json tot u"
  have t: "target ?w = (''invoice'', k)" by (simp add: finalize_invoice_req_def)
  note eff = commits_one_table [OF assms t]
  have "holds (draft_at v) (attrs_of (invoices s k))"
    using eff(3) by (simp add: finalize_invoice_req_def cond_holds_update)
  then obtain it where it: "invoices s k = Some it" "is_draft it" "it ''version'' = Some (AN (int v))"
    using draft_at_row by blast
  have "new_item ss s ?w = Some (final_row now (int v) n date json tot u it)"
    using it(1,3) by (simp add: finalize_invoice_req_def update_base_def final_row_def)
  with it eff(1) eff(2) [of "''billable_item''"] eff(2) [of "''counter''"] show ?thesis by auto
qed

definition touched :: "item \<Rightarrow> item \<Rightarrow> bool" where
  "touched it it' \<longleftrightarrow> (\<forall>a. a \<notin> {''paid_date'', ''updated_at'', ''pdf_s3_key''} \<longrightarrow> it' a = it a)"

lemma touchedD:
  assumes "touched it it'"
  shows "it' ''id'' = it ''id''" "it' ''status'' = it ''status''" "it' ''number'' = it ''number''"
    "it' ''version'' = it ''version''" "it' ''item_ids'' = it ''item_ids''"
    "it' ''instance_id'' = it ''instance_id''" "it' ''project_id'' = it ''project_id''"
    "it' ''snapshot'' = it ''snapshot''" "it' ''total_cents'' = it ''total_cents''"
    "it' ''issue_date'' = it ''issue_date''"
  using assms by (simp_all add: touched_def)

lemma is_finalized_row:
  "holds is_finalized (attrs_of r) \<Longrightarrow> \<exists>it. r = Some it \<and> is_final it"
  by (auto simp: is_finalized_def is_final_def attrs_of_def split: option.splits)

lemma touch_effect:
  assumes "commits ss s [w] s'"
    and "w = set_invoice_paid_req now k d \<or> w = set_invoice_pdf_key_req k key"
  shows "\<exists>it it'. invoices s k = Some it \<and> is_final it \<and> touched it it'
    \<and> invoices s' = (invoices s)(k \<mapsto> it') \<and> items s' = items s \<and> counters s' = counters s"
proof -
  have t: "target w = (''invoice'', k)"
    using assms(2) by (auto simp: set_invoice_paid_req_def set_invoice_pdf_key_req_def)
  note eff = commits_one_table [OF assms(1) t]
  have "holds is_finalized (attrs_of (invoices s k))"
    using eff(3) assms(2) by (auto simp: set_invoice_paid_req_def set_invoice_pdf_key_req_def cond_holds_update)
  then obtain it where it: "invoices s k = Some it" "is_final it" using is_finalized_row by blast
  obtain it' where "new_item ss s w = Some it'" "touched it it'"
    using assms(2) it(1)
    by (auto simp: set_invoice_paid_req_def set_invoice_pdf_key_req_def update_base_def touched_def
        split: option.splits)
  with it eff(1) eff(2) [of "''billable_item''"] eff(2) [of "''counter''"] show ?thesis by auto
qed

lemmas paid_effect = touch_effect [OF _ disjI1 [OF refl]]
lemmas pdf_effect = touch_effect [OF _ disjI2 [OF refl]]

lemma final_row_ok:
  assumes "ledger_ok I B" "I k = Some it"
    and "it ''version'' = Some (AN v)"
  shows "ledger_ok (I(k \<mapsto> final_row now v n date json tot u it)) B"
proof (rule ledger_okI)
  have ok: "invoice_row_ok k it" using ledger_okD(1) [OF assms(1,2)] .
  have "invoice_row_ok k (final_row now v n date json tot u it)"
    using ok assms(3) by (auto simp: invoice_row_ok_def final_row_def is_draft_def is_final_def)
  then show "invoice_row_ok j q" if "(I(k \<mapsto> final_row now v n date json tot u it)) j = Some q" for j q
    using that ledger_okD(1) [OF assms(1)] by (auto split: if_splits)
  have "ids_of (I(k \<mapsto> final_row now v n date json tot u it)) j = ids_of I j" for j
    using assms(2) by (simp add: ids_in_def final_row_def)
  from links_same [OF ledger_ok_links [OF assms(1)] this refl]
  show "links (I(k \<mapsto> final_row now v n date json tot u it)) B" .
qed (use ledger_okD(2) [OF assms(1)] in blast)

lemma touched_ok:
  assumes "ledger_ok I B" "I k = Some it" "touched it it'"
  shows "ledger_ok (I(k \<mapsto> it')) B"
proof (rule ledger_okI)
  note same = touchedD [OF assms(3)]
  have "invoice_row_ok k it'"
    using ledger_okD(1) [OF assms(1,2)] same by (simp add: invoice_row_ok_def is_draft_def is_final_def)
  then show "invoice_row_ok j q" if "(I(k \<mapsto> it')) j = Some q" for j q
    using that ledger_okD(1) [OF assms(1)] by (auto split: if_splits)
  have "ids_in it' = ids_in it" using same by (simp add: ids_in_def)
  then have "ids_of (I(k \<mapsto> it')) j = ids_of I j" for j using assms(2) by simp
  from links_same [OF ledger_ok_links [OF assms(1)] this refl]
  show "links (I(k \<mapsto> it')) B" .
qed (use ledger_okD(2) [OF assms(1)] in blast)

subsection \<open>The number counter\<close>

definition counter_of :: "table \<Rightarrow> string \<Rightarrow> int option" where
  "counter_of C i = (case attrs_of (C i) ''next_invoice_number'' of Some (AN m) \<Rightarrow> Some m | _ \<Rightarrow> None)"

lemma increment_effect:
  assumes "commits ss s [increment_counter_req i] s'"
  shows "invoices s' = invoices s" "items s' = items s"
    and "counter_of (counters s') j =
      (if j = i then Some (case counter_of (counters s) i of None \<Rightarrow> 1 | Some m \<Rightarrow> m + 1)
       else counter_of (counters s) j)"
    and "u64_attr (counters s' i) ''next_invoice_number'' = Some n \<Longrightarrow> counter_of (counters s') i = Some (int n)"
proof -
  have t: "target (increment_counter_req i) = (''counter'', i)" by (simp add: increment_counter_req_def)
  note eff = commits_one_table [OF assms t]
  show "invoices s' = invoices s" "items s' = items s"
    using eff(2) [of "''invoice''"] eff(2) [of "''billable_item''"] by auto
  have acts: "actions_ok s (increment_counter_req i)" using assms by (simp add: commits_single)
  show "counter_of (counters s') j =
      (if j = i then Some (case counter_of (counters s) i of None \<Rightarrow> 1 | Some m \<Rightarrow> m + 1)
       else counter_of (counters s) j)"
    using acts unfolding eff(1)
    by (auto simp: increment_counter_req_def counter_of_def attrs_of_def update_base_def
        split: option.splits attr.splits)
  show "counter_of (counters s') i = Some (int n)"
    if "u64_attr (counters s' i) ''next_invoice_number'' = Some n"
    using that by (auto simp: u64_attr_def counter_of_def split: option.splits attr.splits if_splits)
qed

lemma set_next_effect:
  assumes "commits ss s [set_next_invoice_number_req i v] s'"
  shows "invoices s' = invoices s" "items s' = items s"
    and "counter_of (counters s') j = (if j = i then Some (int v) else counter_of (counters s) j)"
    and "counter_of (counters s) i = Some m \<Longrightarrow> m \<le> int v"
proof -
  have t: "target (set_next_invoice_number_req i v) = (''counter'', i)" by (simp add: set_next_invoice_number_req_def)
  note eff = commits_one_table [OF assms t]
  show "invoices s' = invoices s" "items s' = items s"
    using eff(2) [of "''invoice''"] eff(2) [of "''billable_item''"] by auto
  show "counter_of (counters s') j = (if j = i then Some (int v) else counter_of (counters s) j)"
    unfolding eff(1)
    by (auto simp: set_next_invoice_number_req_def counter_of_def attrs_of_def update_base_def split: option.splits)
  show "m \<le> int v" if "counter_of (counters s) i = Some m"
    using eff(3) that
    by (auto simp: set_next_invoice_number_req_def cond_holds_update counter_of_def split: option.splits attr.splits)
qed

end
