(* ===== verification/Batch_Get.thy ===== *)
theory Batch_Get
  imports Rows
begin

section \<open>Batch reads\<close>

text \<open>
  \<^verbatim>\<open>get_records\<close> and \<^verbatim>\<open>get_records_consistent\<close> of \<^verbatim>\<open>api/src/dynamodb.rs\<close>: the ids go
  out in chunks of at most 100 keys, each chunk is sent again for its unprocessed keys at most
  five times, and the rows are handed back in the order of the ids, each \<^verbatim>\<open>remove\<close>d from the
  result map as it is. The two functions differ only in the state a request reads: the
  consistent one reads the current state, the other one a replica that may lag, which is an
  arbitrary state of its own. The lemmas show that a batch read that returns has the row of
  every id that exists: no row is lost to the chunking or to unprocessed keys.
\<close>

definition BATCH_GET_MAX_ATTEMPTS :: nat where "BATCH_GET_MAX_ATTEMPTS = 5"

definition batch_get_backoff :: "nat \<Rightarrow> nat" where
  "batch_get_backoff retry = min (min u64_max (50 * 2 ^ (min retry 8 - 1))) 1000"

function chunks :: "nat \<Rightarrow> 'a list \<Rightarrow> 'a list list" where
  "chunks n xs = (if xs = [] \<or> n = 0 then [] else take n xs # chunks n (drop n xs))"
  by pat_completeness auto
termination by (relation "measure (\<lambda>(n, xs). length xs)") auto

declare chunks.simps [simp del]

text \<open>\<^verbatim>\<open>for item in items { let rec: R = hydrate_item(item)?; results.insert(rec.id(), rec); }\<close>\<close>

fun insert_rows ::
    "(item \<Rightarrow> string + 'r) \<Rightarrow> ('r \<Rightarrow> string) \<Rightarrow> item list \<Rightarrow> (string \<rightharpoonup> 'r) \<Rightarrow> db_error + (string \<rightharpoonup> 'r)" where
  "insert_rows f rid [] results = Inr results"
| "insert_rows f rid (it # its) results =
     rbind (map_err Hydration (hydrate_item f it)) (\<lambda>r. insert_rows f rid its (results(rid r \<mapsto> r)))"

text \<open>The attempts at one chunk: \<open>n\<close> are left, \<open>attempt\<close> is the number of the next one.\<close>

fun batch_attempts ::
    "handler \<Rightarrow> store \<Rightarrow> string \<Rightarrow> (item \<Rightarrow> string + 'r) \<Rightarrow> ('r \<Rightarrow> string) \<Rightarrow> nat \<Rightarrow> nat \<Rightarrow> string list
     \<Rightarrow> (string \<rightharpoonup> 'r) \<Rightarrow> db_error + (string \<rightharpoonup> 'r)" where
  "batch_attempts h s t f rid 0 attempt pending results =
     (if pending \<noteq> []
      then Inl (Infrastructure (''batch_get '' @ t @ '': '' @ show_nat (length pending)
             @ '' key(s) still unprocessed after '' @ show_nat BATCH_GET_MAX_ATTEMPTS @ '' attempts''))
      else Inr results)"
| "batch_attempts h s t f rid (Suc n) attempt pending results =
     rbind (map_err Infrastructure (dy_batch_get (h_svc h) s t pending attempt)) (\<lambda>(items, unprocessed).
     rbind (insert_rows f rid items results) (\<lambda>results'.
     if unprocessed = [] then Inr results'
     else batch_attempts h s t f rid n (Suc attempt) unprocessed results'))"

fun batch_chunks ::
    "handler \<Rightarrow> store \<Rightarrow> string \<Rightarrow> (item \<Rightarrow> string + 'r) \<Rightarrow> ('r \<Rightarrow> string) \<Rightarrow> string list list
     \<Rightarrow> (string \<rightharpoonup> 'r) \<Rightarrow> db_error + (string \<rightharpoonup> 'r)" where
  "batch_chunks h s t f rid [] results = Inr results"
| "batch_chunks h s t f rid (c # cs) results =
     rbind (batch_attempts h s t f rid BATCH_GET_MAX_ATTEMPTS 1 c results)
       (batch_chunks h s t f rid cs)"

text \<open>\<^verbatim>\<open>ids.map(|id| results.remove(id))\<close>: a repeated id finds its row gone.\<close>

fun remove_each :: "string list \<Rightarrow> (string \<rightharpoonup> 'r) \<Rightarrow> 'r option list" where
  "remove_each [] m = []"
| "remove_each (i # ids) m = m i # remove_each ids (m(i := None))"

definition get_records ::
    "handler \<Rightarrow> string \<Rightarrow> (item \<Rightarrow> string + 'r) \<Rightarrow> ('r \<Rightarrow> string) \<Rightarrow> string list \<Rightarrow> store
     \<Rightarrow> db_error + 'r option list" where
  "get_records h t f rid ids s =
     rbind (batch_chunks h s t f rid (chunks 100 ids) Map.empty) (\<lambda>results. Inr (remove_each ids results))"

subsection \<open>Chunks\<close>

lemma chunks_Nil [simp]: "chunks n [] = []"
  by (simp add: chunks.simps)

lemma chunks_step: "xs \<noteq> [] \<Longrightarrow> 0 < n \<Longrightarrow> chunks n xs = take n xs # chunks n (drop n xs)"
  by (simp add: chunks.simps)

lemma concat_chunks: "0 < n \<Longrightarrow> concat (chunks n xs) = xs"
proof (induction n xs rule: chunks.induct)
  case (1 n xs)
  then show ?case by (cases "xs = []") (simp_all add: chunks_step)
qed

lemma chunks_length: "c \<in> set (chunks n xs) \<Longrightarrow> c \<noteq> [] \<and> length c \<le> n"
proof (induction n xs rule: chunks.induct)
  case (1 n xs)
  then show ?case
    by (cases "xs = [] \<or> n = 0") (auto simp: chunks_step chunks.simps [of 0])
qed

lemma chunks_small: "xs \<noteq> [] \<Longrightarrow> length xs \<le> n \<Longrightarrow> chunks n xs = [xs]"
  by (cases xs) (auto simp: chunks_step)

subsection \<open>Completeness\<close>

lemma remove_each_length [simp]: "length (remove_each ids m) = length ids"
  by (induction ids arbitrary: m) simp_all

lemma remove_each_distinct: "distinct ids \<Longrightarrow> remove_each ids m = map m ids"
proof (induction ids arbitrary: m)
  case (Cons i ids)
  then have "map (m(i := None)) ids = map m ids" by (intro map_cong) auto
  with Cons show ?case by simp
qed simp

text \<open>
  What the result map holds while the loop runs: only rows of the table, each under its own
  key. \<open>keyed\<close> says that the key attribute of every stored item is its key, and \<open>id_hydrate\<close>
  that hydration keeps it.
\<close>

definition keyed :: "store \<Rightarrow> string \<Rightarrow> bool" where
  "keyed s t \<longleftrightarrow> (\<forall>k it. s t k = Some it \<longrightarrow> it ''id'' = Some (AS k))"

definition id_hydrate :: "(item \<Rightarrow> string + 'r) \<Rightarrow> ('r \<Rightarrow> string) \<Rightarrow> bool" where
  "id_hydrate f rid \<longleftrightarrow> (\<forall>it r. f it = Inr r \<longrightarrow> it ''id'' = Some (AS (rid r)))"

definition rows_of :: "store \<Rightarrow> string \<Rightarrow> (item \<Rightarrow> string + 'r) \<Rightarrow> (string \<rightharpoonup> 'r) \<Rightarrow> bool" where
  "rows_of s t f m \<longleftrightarrow> (\<forall>k r. m k = Some r \<longrightarrow> (\<exists>it. s t k = Some it \<and> f it = Inr r))"

text \<open>\<open>has m k\<close>: the map has the row of key \<open>k\<close>, if there is one.\<close>

definition has_row :: "store \<Rightarrow> string \<Rightarrow> (string \<rightharpoonup> 'r) \<Rightarrow> string \<Rightarrow> bool" where
  "has_row s t m k \<longleftrightarrow> (s t k \<noteq> None \<longrightarrow> m k \<noteq> None)"

lemma keyedD: "keyed s t \<Longrightarrow> s t k = Some it \<Longrightarrow> it ''id'' = Some (AS k)"
  by (simp add: keyed_def)

lemma insert_rows_spec:
  assumes "insert_rows f rid its m = Inr m'" "id_hydrate f rid" "rows_of s t f m"
    and "\<And>it. it \<in> set its \<Longrightarrow> \<exists>k. s t k = Some it" "keyed s t"
  shows "rows_of s t f m' \<and> (\<forall>k. m k \<noteq> None \<longrightarrow> m' k \<noteq> None)
    \<and> (\<forall>it k. it \<in> set its \<longrightarrow> s t k = Some it \<longrightarrow> m' k \<noteq> None)"
  using assms
proof (induction its arbitrary: m)
  case (Cons it its)
  from Cons.prems(1) obtain r where r: "f it = Inr r" and rest: "insert_rows f rid its (m(rid r \<mapsto> r)) = Inr m'"
    by auto
  from Cons.prems(2) r have i: "it ''id'' = Some (AS (rid r))" by (simp add: id_hydrate_def)
  obtain k where k: "s t k = Some it" using Cons.prems(4) by auto
  with i keyedD [OF Cons.prems(5)] have kr: "k = rid r" by fastforce
  have R: "rows_of s t f (m(rid r \<mapsto> r))" using Cons.prems(3) k kr r by (auto simp: rows_of_def)
  have S: "\<exists>k. s t k = Some it'" if "it' \<in> set its" for it' using Cons.prems(4) that by simp
  from Cons.IH [OF rest Cons.prems(2) R S Cons.prems(5)]
  have IH: "rows_of s t f m'" "\<And>k. (m(rid r \<mapsto> r)) k \<noteq> None \<Longrightarrow> m' k \<noteq> None"
      "\<And>it k. it \<in> set its \<Longrightarrow> s t k = Some it \<Longrightarrow> m' k \<noteq> None"
    by blast+
  have "m' k' \<noteq> None" if "s t k' = Some it" for k'
  proof -
    from that i keyedD [OF Cons.prems(5)] have "k' = rid r" by fastforce
    then show ?thesis by (intro IH(2)) simp
  qed
  moreover have "m' k' \<noteq> None" if "m k' \<noteq> None" for k' using that by (intro IH(2)) auto
  ultimately show ?case using IH(1,3) by auto
qed auto

context dynamo_service begin

lemma batch_attempts_spec:
  assumes "batch_attempts h s t f rid n a pending m = Inr m'" "h_svc h = d"
    and "id_hydrate f rid" "rows_of s t f m" "keyed s t"
  shows "rows_of s t f m' \<and> (\<forall>k. m k \<noteq> None \<longrightarrow> m' k \<noteq> None) \<and> (\<forall>k \<in> set pending. has_row s t m' k)"
  using assms
proof (induction n arbitrary: a pending m)
  case 0
  then show ?case by (auto split: if_splits)
next
  case (Suc n)
  from Suc.prems(1) obtain its un m1 where
      get: "dy_batch_get d s t pending a = Inr (its, un)"
      and ins: "insert_rows f rid its m = Inr m1"
      and cont: "(if un = [] then Inr m1 else batch_attempts h s t f rid n (Suc a) un m1) = Inr m'"
    using Suc.prems(2) by auto
  have "\<exists>k. s t k = Some it" if "it \<in> set its" for it using batch_sound [OF get that] by auto
  from insert_rows_spec [OF ins Suc.prems(3,4) this Suc.prems(5)]
  have rows: "rows_of s t f m1" and keep: "\<And>k. m k \<noteq> None \<Longrightarrow> m1 k \<noteq> None"
    and got: "\<And>it k. it \<in> set its \<Longrightarrow> s t k = Some it \<Longrightarrow> m1 k \<noteq> None" by auto
  have got_all: "has_row s t m1 k" if "k \<in> set pending" "k \<notin> set un" for k
    using batch_complete [OF get that] got by (auto simp: has_row_def)
  show ?case
  proof (cases "un = []")
    case True
    with cont have "m1 = m'" by simp
    with rows keep got_all True show ?thesis by auto
  next
    case False
    with cont have "batch_attempts h s t f rid n (Suc a) un m1 = Inr m'" by simp
    from Suc.IH [OF this Suc.prems(2,3) rows Suc.prems(5)]
    have IH: "rows_of s t f m'" "\<And>k. m1 k \<noteq> None \<Longrightarrow> m' k \<noteq> None" "\<And>k. k \<in> set un \<Longrightarrow> has_row s t m' k"
      by auto
    then show ?thesis using keep got_all unfolding has_row_def by (metis (no_types))
  qed
qed

lemma batch_chunks_spec:
  assumes "batch_chunks h s t f rid cs m = Inr m'" "h_svc h = d"
    and "id_hydrate f rid" "rows_of s t f m" "keyed s t"
  shows "rows_of s t f m' \<and> (\<forall>k. m k \<noteq> None \<longrightarrow> m' k \<noteq> None) \<and> (\<forall>k \<in> set (concat cs). has_row s t m' k)"
  using assms
proof (induction cs arbitrary: m)
  case (Cons c cs)
  from Cons.prems(1) obtain m1 where
      one: "batch_attempts h s t f rid BATCH_GET_MAX_ATTEMPTS 1 c m = Inr m1"
      and rest: "batch_chunks h s t f rid cs m1 = Inr m'" by auto
  note A = batch_attempts_spec [OF one Cons.prems(2-5)]
  from A have rows: "rows_of s t f m1" by simp
  note B = Cons.IH [OF rest Cons.prems(2,3) rows Cons.prems(5)]
  from A B show ?case by (auto simp: has_row_def)
qed auto

lemma get_records_spec:
  assumes "get_records h t f rid ids s = Inr rs" "h_svc h = d"
    and "id_hydrate f rid" "keyed s t" "distinct ids"
  shows "list_all2 (\<lambda>i r. hydrated f (s t i) = Inr r) ids rs"
proof -
  from assms(1) obtain m where m: "batch_chunks h s t f rid (chunks 100 ids) Map.empty = Inr m"
      and rs: "rs = remove_each ids m" by (auto simp: get_records_def)
  have "rows_of s t f (Map.empty :: string \<rightharpoonup> 'a)" by (simp add: rows_of_def)
  from batch_chunks_spec [OF m assms(2,3) this assms(4)]
  have rows: "rows_of s t f m" and all: "\<And>k. k \<in> set ids \<Longrightarrow> has_row s t m k"
    by (simp_all add: concat_chunks)
  have "hydrated f (s t i) = Inr (m i)" if "i \<in> set ids" for i
  proof (cases "m i")
    case None
    with all [OF that] have "s t i = None" by (auto simp: has_row_def)
    with None show ?thesis by (simp add: hydrated_def)
  next
    case (Some r)
    with rows obtain it where "s t i = Some it" "f it = Inr r" by (auto simp: rows_of_def)
    with Some show ?thesis by (simp add: hydrated_def)
  qed
  then show ?thesis
    using rs remove_each_distinct [OF assms(5), of m]
    by (auto simp: list_all2_conv_all_nth)
qed

end

lemma hydrate_ids:
  "id_hydrate hydrate_instance inst_id" "id_hydrate hydrate_project proj_id"
  "id_hydrate hydrate_billable_item item_id" "id_hydrate hydrate_invoice inv_id"
  by (auto simp: id_hydrate_def hydrate_instance_def hydrate_project_def hydrate_billable_item_def
    hydrate_invoice_def)

end
