(* ===== verification/Money.thy ===== *)
theory Money
  imports Rust_Str
begin

section \<open>Integer money arithmetic\<close>

text \<open>
  The model of \<^verbatim>\<open>api/src/invoicing/money.rs\<close> and of the input validators of
  \<^verbatim>\<open>api/src/invoicing/mod.rs\<close>. Quantities are integer hundredths and prices integer cents,
  both \<^verbatim>\<open>i64\<close> in the code and \<open>int\<close> here; the 128-bit intermediate products of two
  \<^verbatim>\<open>i64\<close> values cannot overflow, and the conversion back to \<^verbatim>\<open>i64\<close> is \<open>clamp_i64\<close>. The
  error messages are constructors, one per error branch. The date validator takes chrono's
  \<^verbatim>\<open>NaiveDate::parse_from_str\<close> followed by \<^verbatim>\<open>format\<close> (both with
  \<^verbatim>\<open>%Y-%m-%d\<close>) as the parameter \<open>canon\<close>.
\<close>

subsection \<open>Constants\<close>

definition MAX_QUANTITY_HUNDREDTHS :: int where "MAX_QUANTITY_HUNDREDTHS = 100000000"
definition MAX_UNIT_PRICE_CENTS :: int where "MAX_UNIT_PRICE_CENTS = 1000000000"
definition MAX_SAFE_TOTAL_CENTS :: int where "MAX_SAFE_TOTAL_CENTS = 9007199254740991"
definition MAX_DESCRIPTION_LEN :: nat where "MAX_DESCRIPTION_LEN = 2000"

lemmas money_consts = MAX_QUANTITY_HUNDREDTHS_def MAX_UNIT_PRICE_CENTS_def
  MAX_SAFE_TOTAL_CENTS_def MAX_DESCRIPTION_LEN_def

subsection \<open>Quantities\<close>

datatype quantity_error =
    QuantityRequired
  | QuantityNotPositive
  | QuantityNotValid string
  | QuantityTooManyDecimals
  | QuantityTooLarge

definition parse_quantity :: "string \<Rightarrow> quantity_error + int" where
  "parse_quantity raw =
     (let s = trim raw in
      if s = [] then Inl QuantityRequired
      else if starts_with_char (CHR ''-'') s then Inl QuantityNotPositive
      else
        let (whole, frac) =
              (case split_once (CHR ''.'') s of Some (w, f) \<Rightarrow> (w, f) | None \<Rightarrow> (s, []));
            well_formed =
              (\<not> (whole = [] \<and> frac = []) \<and> list_all is_digit whole \<and> list_all is_digit frac
               \<and> \<not> ends_with_char (CHR ''.'') s)
        in
        if \<not> well_formed then Inl (QuantityNotValid s)
        else if length frac > 2 then Inl QuantityTooManyDecimals
        else
          let whole_trimmed = strip_zeros whole in
          if length whole_trimmed > 7 then Inl QuantityTooLarge
          else
            rbind (if whole_trimmed = [] then Inr 0
                   else ok_or (QuantityNotValid s) (map_option int (parse_nat whole_trimmed)))
              (\<lambda>whole_value.
            rbind (if length frac = 0 then Inr 0
                   else if length frac = 1 then Inr (int (digit_val (hd frac)) * 10)
                   else ok_or (QuantityNotValid s) (map_option int (parse_nat frac)))
              (\<lambda>frac_value.
            let hundredths = whole_value * 100 + frac_value in
            if hundredths \<le> 0 then Inl QuantityNotPositive
            else if hundredths > MAX_QUANTITY_HUNDREDTHS then Inl QuantityTooLarge
            else Inr hundredths)))"

definition format_quantity :: "int \<Rightarrow> string" where
  "format_quantity hundredths =
     (let sign = (if hundredths < 0 then ''-'' else []);
          a = nat \<bar>hundredths\<bar>;
          whole = a div 100;
          frac = a mod 100
      in if frac = 0 then sign @ show_nat whole
         else if frac mod 10 = 0 then sign @ show_nat whole @ ''.'' @ show_nat (frac div 10)
         else sign @ show_nat whole @ ''.'' @ pad0 2 (show_nat frac))"

subsection \<open>Amounts\<close>

definition quot :: "int \<Rightarrow> int \<Rightarrow> int" where
  \<comment> \<open>Rust's \<^verbatim>\<open>/\<close>: truncation towards zero; every use below has a non-negative dividend\<close>
  "quot a b = sgn a * sgn b * (\<bar>a\<bar> div \<bar>b\<bar>)"

definition div_round_half_up :: "int \<Rightarrow> int \<Rightarrow> int" where
  "div_round_half_up numerator denominator =
     (let half = quot denominator 2 in
      if numerator \<ge> 0 then quot (numerator + half) denominator
      else - quot (- numerator + half) denominator)"

definition clamp_i64 :: "int \<Rightarrow> int" where
  "clamp_i64 v = (if in_i64 v then v else if v < 0 then i64_min else i64_max)"

definition line_amount_cents :: "int \<Rightarrow> int \<Rightarrow> int" where
  "line_amount_cents quantity_hundredths unit_price_cents =
     clamp_i64 (div_round_half_up (quantity_hundredths * unit_price_cents) 100)"

definition gst_cents :: "int \<Rightarrow> int" where
  "gst_cents subtotal_cents = clamp_i64 (div_round_half_up subtotal_cents 10)"

definition group_digits :: "string \<Rightarrow> string" where
  \<comment> \<open>the loop of \<^verbatim>\<open>format_cents\<close> over \<^verbatim>\<open>whole.chars().enumerate()\<close>\<close>
  "group_digits whole =
     concat (map (\<lambda>(i, ch). if i > 0 \<and> (length whole - i) mod 3 = 0 then [CHR '','', ch] else [ch])
                 (zip [0 ..< length whole] whole))"

definition format_cents :: "int \<Rightarrow> string" where
  "format_cents cents =
     (let sign = (if cents < 0 then ''-'' else []);
          a = nat \<bar>cents\<bar>
      in sign @ group_digits (show_nat (a div 100)) @ ''.'' @ pad0 2 (show_nat (a mod 100)))"

subsection \<open>Input validation (\<^verbatim>\<open>invoicing/mod.rs\<close>)\<close>

datatype item_error =
    BadDate string
  | DescriptionEmpty
  | DescriptionTooLong
  | PriceNegative
  | PriceTooLarge
  | TotalTooLarge

definition validate_item_date :: "(string \<Rightarrow> string option) \<Rightarrow> string \<Rightarrow> item_error + string" where
  "validate_item_date canon raw =
     (let s = trim raw in
      rbind (ok_or (BadDate s) (canon s)) (\<lambda>canonical.
        if canonical \<noteq> s then Inl (BadDate s) else Inr canonical))"

definition validate_description :: "string \<Rightarrow> item_error + string" where
  "validate_description raw =
     (let trimmed = trim raw in
      if trimmed = [] then Inl DescriptionEmpty
      else if char_count trimmed > MAX_DESCRIPTION_LEN then Inl DescriptionTooLong
      else Inr trimmed)"

definition validate_unit_price_cents :: "int \<Rightarrow> item_error + int" where
  "validate_unit_price_cents cents =
     (if cents < 0 then Inl PriceNegative
      else if cents > MAX_UNIT_PRICE_CENTS then Inl PriceTooLarge
      else Inr cents)"

definition validate_total_within_safe_integer :: "int \<Rightarrow> item_error + unit" where
  "validate_total_within_safe_integer total_cents =
     (if total_cents > MAX_SAFE_TOTAL_CENTS then Inl TotalTooLarge else Inr ())"

subsection \<open>Rounding\<close>

lemma quot_nonneg: "0 \<le> a \<Longrightarrow> 0 < b \<Longrightarrow> quot a b = a div b"
  by (cases "a = 0") (simp_all add: quot_def)

lemma div_round_nonneg:
  "0 \<le> n \<Longrightarrow> 0 < d \<Longrightarrow> div_round_half_up n d = (n + d div 2) div d"
  by (simp add: div_round_half_up_def quot_nonneg Let_def)

lemma div_round_bounds:
  assumes "0 \<le> n" "0 < d" "even d"
  shows "2 * (d * div_round_half_up n d) \<le> 2 * n + d"
    and "2 * n + d < 2 * (d * div_round_half_up n d) + 2 * d"
proof -
  define k h r where "k = d * div_round_half_up n d" and "h = d div 2" and "r = (n + h) mod d"
  have "d * ((n + h) div d) + (n + h) mod d = n + h" by (rule mult_div_mod_eq)
  then have eq: "k + r = n + h"
    using assms by (simp add: k_def r_def h_def div_round_nonneg)
  have r: "0 \<le> r" "r < d" and h: "2 * h = d" using assms by (simp_all add: r_def h_def)
  from eq r h show "2 * (d * div_round_half_up n d) \<le> 2 * n + d"
    unfolding k_def [symmetric] by linarith
  from eq r h show "2 * n + d < 2 * (d * div_round_half_up n d) + 2 * d"
    unfolding k_def [symmetric] by linarith
qed

lemma div_round_nonneg_result: "0 \<le> n \<Longrightarrow> 0 < d \<Longrightarrow> 0 \<le> div_round_half_up n d"
  by (simp add: div_round_nonneg pos_imp_zdiv_nonneg_iff)

lemma clamp_i64_id: "in_i64 v \<Longrightarrow> clamp_i64 v = v"
  by (simp add: clamp_i64_def)

lemma in_i64_clamp: "in_i64 (clamp_i64 v)"
  by (simp add: clamp_i64_def in_i64_def i64_min_def i64_max_def)

lemma in_i64I: "0 \<le> v \<Longrightarrow> v \<le> 9223372036854775807 \<Longrightarrow> in_i64 v"
  by (simp add: in_i64_def i64_min_def i64_max_def)

lemma line_product_bounds:
  assumes "0 \<le> q" "q \<le> MAX_QUANTITY_HUNDREDTHS" "0 \<le> p" "p \<le> MAX_UNIT_PRICE_CENTS"
  shows "0 \<le> q * p" "q * p \<le> 100000000000000000"
proof -
  show "0 \<le> q * p" using assms by simp
  have "q * p \<le> 100000000 * 1000000000"
    using assms by (intro mult_mono) (simp_all add: money_consts)
  then show "q * p \<le> 100000000000000000" by simp
qed

lemma line_amount_exact:
  assumes "0 \<le> q" "q \<le> MAX_QUANTITY_HUNDREDTHS" "0 \<le> p" "p \<le> MAX_UNIT_PRICE_CENTS"
  shows "line_amount_cents q p = (q * p + 50) div 100"
proof -
  note b = line_product_bounds [OF assms]
  have r: "div_round_half_up (q * p) 100 = (q * p + 50) div 100"
    using b(1) by (simp add: div_round_nonneg)
  have "in_i64 ((q * p + 50) div 100)" using b by (intro in_i64I) simp_all
  with r show ?thesis by (simp add: line_amount_cents_def clamp_i64_id)
qed

lemma line_amount_range:
  assumes "0 \<le> q" "q \<le> MAX_QUANTITY_HUNDREDTHS" "0 \<le> p" "p \<le> MAX_UNIT_PRICE_CENTS"
  shows "0 \<le> line_amount_cents q p" "line_amount_cents q p \<le> 1000000000000000"
  using line_product_bounds [OF assms] by (simp_all add: line_amount_exact [OF assms])

lemma gst_exact:
  assumes "0 \<le> n" "n \<le> i64_max"
  shows "gst_cents n = (n + 5) div 10"
proof -
  have r: "div_round_half_up n 10 = (n + 5) div 10" using assms by (simp add: div_round_nonneg)
  have "in_i64 ((n + 5) div 10)" using assms by (intro in_i64I) (simp_all add: i64_max_def)
  with r show ?thesis by (simp add: gst_cents_def clamp_i64_id)
qed

lemma gst_range: "0 \<le> n \<Longrightarrow> n \<le> i64_max \<Longrightarrow> 0 \<le> gst_cents n \<and> 10 * gst_cents n \<le> n + 5"
  by (simp add: gst_exact, presburger)

subsection \<open>Decimal numerals: what the quantity parser reads\<close>

text \<open>
  The reference: a whole part and at most two decimals, at least one of them present, with the
  value \<open>100 * whole + 10 ^ (2 - k) * frac\<close> for \<open>k\<close> decimals.
\<close>

definition decimal_text :: "string \<Rightarrow> string \<Rightarrow> string" where
  "decimal_text w f = w @ (if f = [] then [] else CHR ''.'' # f)"

definition decimal_value :: "string \<Rightarrow> string \<Rightarrow> int" where
  "decimal_value w f = 100 * int (digits_val w) + 10 ^ (2 - length f) * int (digits_val f)"

definition decimal_wf :: "string \<Rightarrow> string \<Rightarrow> bool" where
  "decimal_wf w f \<longleftrightarrow> (w \<noteq> [] \<or> f \<noteq> []) \<and> list_all is_digit w \<and> list_all is_digit f"

lemma dot_not_digit: "\<not> is_digit (CHR ''.'')" and dash_not_digit: "\<not> is_digit (CHR ''-'')"
  by (simp_all add: is_digit_def)

lemma split_decimal:
  assumes "decimal_wf w f"
  shows "(case split_once (CHR ''.'') (decimal_text w f) of Some (a, b) \<Rightarrow> (a, b)
          | None \<Rightarrow> (decimal_text w f, [])) = (w, f)"
proof -
  have w: "CHR ''.'' \<notin> set w" using assms dot_not_digit by (auto simp: decimal_wf_def list_all_iff)
  show ?thesis
  proof (cases "f = []")
    case True
    with w have "split_once (CHR ''.'') w = None" by (simp add: split_once_None)
    then show ?thesis by (simp add: decimal_text_def True)
  qed (simp add: decimal_text_def split_once_append [OF w])
qed

lemma decimal_text_shape:
  assumes "decimal_wf w f"
  shows "decimal_text w f \<noteq> []" "\<not> starts_with_char (CHR ''-'') (decimal_text w f)"
    and "\<not> ends_with_char (CHR ''.'') (decimal_text w f)"
proof -
  show ne: "decimal_text w f \<noteq> []" using assms by (auto simp: decimal_wf_def decimal_text_def)
  have sets: "set (decimal_text w f) \<subseteq> set w \<union> set f \<union> {CHR ''.''}"
    by (auto simp: decimal_text_def)
  then have "CHR ''-'' \<notin> set (decimal_text w f)"
    using assms dash_not_digit by (auto simp: decimal_wf_def list_all_iff)
  then show "\<not> starts_with_char (CHR ''-'') (decimal_text w f)"
    by (cases "decimal_text w f") (auto simp: starts_with_char_def)
  have "last (decimal_text w f) \<in> set w \<union> set f"
    using ne by (cases "f = []") (auto simp: decimal_text_def)
  then have "last (decimal_text w f) \<noteq> CHR ''.''"
    using assms dot_not_digit by (auto simp: decimal_wf_def list_all_iff)
  then show "\<not> ends_with_char (CHR ''.'') (decimal_text w f)"
    using ne by (cases "decimal_text w f" rule: rev_cases)
      (auto simp: ends_with_char_def starts_with_char_def)
qed

lemma strip_zeros_digits: "list_all is_digit w \<Longrightarrow> list_all is_digit (strip_zeros w)"
  by (auto simp: strip_zeros_def list_all_iff dest: set_dropWhileD)

lemma char_of_48: "char_of (48 :: nat) = CHR ''0''"
  by code_simp

lemma digit_val_pos: "is_digit c \<Longrightarrow> c \<noteq> CHR ''0'' \<Longrightarrow> 0 < digit_val c"
  using digit_digit_val [of c] char_of_48 by (cases "digit_val c") (auto simp: digit_def)

lemma digits_val_ge:
  "list_all is_digit s \<Longrightarrow> s \<noteq> [] \<Longrightarrow> hd s \<noteq> CHR ''0'' \<Longrightarrow> 10 ^ (length s - 1) \<le> digits_val s"
proof (induction s rule: rev_induct)
  case (snoc c s)
  show ?case
  proof (cases "s = []")
    case True
    with snoc.prems show ?thesis
      using digit_val_pos [of c] by (simp add: digits_val_def)
  next
    case False
    with snoc have ih: "10 ^ (length s - 1) \<le> digits_val s" by simp
    have "(10::nat) ^ length s = 10 * 10 ^ (length s - 1)"
      using False by (cases s) simp_all
    with ih show ?thesis by (simp add: digits_val_append)
  qed
qed simp

lemma strip_zeros_hd: "strip_zeros w \<noteq> [] \<Longrightarrow> hd (strip_zeros w) \<noteq> CHR ''0''"
  unfolding strip_zeros_def by (rule hd_dropWhile)

lemma strip_zeros_short:
  assumes "list_all is_digit w" "digits_val w \<le> 1000000"
  shows "length (strip_zeros w) \<le> 7"
proof (rule ccontr)
  assume "\<not> length (strip_zeros w) \<le> 7"
  then have ne: "strip_zeros w \<noteq> []" and len: "7 \<le> length (strip_zeros w) - 1" by auto
  have "(10::nat) ^ 7 \<le> 10 ^ (length (strip_zeros w) - 1)" using len by (rule power_increasing) simp
  also have "\<dots> \<le> digits_val (strip_zeros w)"
    using digits_val_ge [OF strip_zeros_digits [OF assms(1)] ne strip_zeros_hd [OF ne]] .
  finally show False using assms(2) by simp
qed

lemma whole_part_value:
  assumes "list_all is_digit w"
  shows "(if strip_zeros w = [] then Inr 0
          else ok_or e (map_option int (parse_nat (strip_zeros w)))) = Inr (int (digits_val w))"
proof -
  have "strip_zeros w = [] \<Longrightarrow> digits_val w = 0"
    using digits_val_strip_zeros [of w] by (simp add: digits_val_def)
  then show ?thesis using strip_zeros_digits [OF assms] by (simp add: parse_nat_def)
qed

lemma frac_part_value:
  assumes "list_all is_digit f" "length f \<le> 2"
  shows "(if length f = 0 then Inr 0
          else if length f = 1 then Inr (int (digit_val (hd f)) * 10)
          else ok_or e (map_option int (parse_nat f)))
         = Inr (10 ^ (2 - length f) * int (digits_val f))"
proof -
  consider "f = []" | c where "f = [c]" | "length f = 2"
    using assms(2) by (cases f; cases "tl f") auto
  then show ?thesis
    using assms(1) by cases (auto simp: digits_val_def parse_nat_def)
qed

lemma parse_decimal:
  assumes "trim raw = decimal_text w f" "decimal_wf w f"
  shows "parse_quantity raw =
    (if length f > 2 then Inl QuantityTooManyDecimals
     else if length (strip_zeros w) > 7 then Inl QuantityTooLarge
     else if decimal_value w f \<le> 0 then Inl QuantityNotPositive
     else if decimal_value w f > MAX_QUANTITY_HUNDREDTHS then Inl QuantityTooLarge
     else Inr (decimal_value w f))"
proof -
  have w: "list_all is_digit w" and f: "list_all is_digit f" and ne: "\<not> (w = [] \<and> f = [])"
    using assms(2) by (auto simp: decimal_wf_def)
  note shape = decimal_text_shape [OF assms(2)]
  note split = split_decimal [OF assms(2)]
  show ?thesis
    unfolding parse_quantity_def Let_def assms(1) split prod.case
    using shape w f ne
    by (cases "length f \<le> 2")
      (simp_all only: whole_part_value [OF w] frac_part_value [OF f] decimal_value_def
        if_False if_True not_True_eq_False not_False_eq_True simp_thms rbind_simps
        linorder_not_less linorder_not_le not_less, auto simp: algebra_simps)
qed


lemma parse_quantity_wf:
  assumes "parse_quantity raw = Inr q"
  shows "\<exists>w f. trim raw = decimal_text w f \<and> decimal_wf w f"
proof (cases "split_once (CHR ''.'') (trim raw)")
  case None
  with assms have "decimal_wf (trim raw) []" "trim raw = decimal_text (trim raw) []"
    by (auto simp: parse_quantity_def Let_def decimal_wf_def decimal_text_def split: if_splits)
  then show ?thesis by blast
next
  case (Some wf)
  obtain w f where wf: "wf = (w, f)" by fastforce
  with Some have s: "trim raw = w @ CHR ''.'' # f" using split_once_SomeD by blast
  from assms Some wf have "decimal_wf w f" and dot: "\<not> ends_with_char (CHR ''.'') (trim raw)"
    by (auto simp: parse_quantity_def Let_def decimal_wf_def split: if_splits)
  moreover have "f \<noteq> []" using dot s by (auto simp: ends_with_char_def starts_with_char_def)
  ultimately show ?thesis using s by (auto simp: decimal_text_def)
qed

lemma parse_quantity_iff:
  "parse_quantity raw = Inr q \<longleftrightarrow>
     (\<exists>w f. trim raw = decimal_text w f \<and> decimal_wf w f \<and> length f \<le> 2
            \<and> q = decimal_value w f \<and> 0 < q \<and> q \<le> MAX_QUANTITY_HUNDREDTHS)"
proof
  assume q: "parse_quantity raw = Inr q"
  then obtain w f where wf: "trim raw = decimal_text w f" "decimal_wf w f"
    using parse_quantity_wf by blast
  with q show "\<exists>w f. trim raw = decimal_text w f \<and> decimal_wf w f \<and> length f \<le> 2
            \<and> q = decimal_value w f \<and> 0 < q \<and> q \<le> MAX_QUANTITY_HUNDREDTHS"
    by (intro exI [of _ w] exI [of _ f]) (auto simp: parse_decimal [OF wf] split: if_splits)
next
  assume "\<exists>w f. trim raw = decimal_text w f \<and> decimal_wf w f \<and> length f \<le> 2
            \<and> q = decimal_value w f \<and> 0 < q \<and> q \<le> MAX_QUANTITY_HUNDREDTHS"
  then obtain w f where wf: "trim raw = decimal_text w f" "decimal_wf w f" and len: "length f \<le> 2"
    and q: "q = decimal_value w f" "0 < q" "q \<le> MAX_QUANTITY_HUNDREDTHS" by blast
  have "100 * int (digits_val w) \<le> decimal_value w f" by (simp add: decimal_value_def)
  with q have "digits_val w \<le> 1000000" by (simp add: money_consts)
  with wf(2) have "length (strip_zeros w) \<le> 7" by (simp add: strip_zeros_short decimal_wf_def)
  with len q show "parse_quantity raw = Inr q" by (simp add: parse_decimal [OF wf])
qed


lemma show_nat_small: "n < 10 \<Longrightarrow> show_nat n = [digit n]"
  by (simp add: show_nat.simps)

lemma trim_decimal_text:
  assumes "decimal_wf w f"
  shows "trim (decimal_text w f) = decimal_text w f"
proof (rule trim_all_plain)
  have "plain_char (CHR ''.'')" by (simp add: plain_char_def)
  then show "plain_char c" if "c \<in> set (decimal_text w f)" for c
    using that assms by (auto simp: decimal_text_def decimal_wf_def list_all_iff digit_plain split: if_splits)
qed

lemma format_quantity_decimal:
  assumes "0 < q"
  obtains w f where "format_quantity q = decimal_text w f" "decimal_wf w f" "length f \<le> 2"
    "decimal_value w f = q"
proof -
  define a where "a = nat q"
  have q: "q = int a" using assms by (simp add: a_def)
  define w where "w = show_nat (a div 100)"
  define f where "f = (if a mod 100 = 0 then [] else if (a mod 100) mod 10 = 0
    then show_nat ((a mod 100) div 10) else pad0 2 (show_nat (a mod 100)))"
  have w: "w \<noteq> []" "list_all is_digit w" "digits_val w = a div 100"
    by (simp_all add: w_def show_nat_digits)
  have f_digits: "list_all is_digit f" by (simp add: f_def show_nat_digits pad0_digits)
  have shape: "format_quantity q = decimal_text w f"
    using assms by (simp add: format_quantity_def decimal_text_def w_def f_def q Let_def)
      (metis length_greater_0_conv pad0_length max_0L zero_less_numeral less_max_iff_disj)
  have small: "(a mod 100) div 10 < 10" by simp
  have two: "length (show_nat (a mod 100)) \<le> 2" by (rule length_show_nat_le) simp_all
  have len: "length f = (if a mod 100 = 0 then 0 else if (a mod 100) mod 10 = 0 then 1 else 2)"
    using two by (simp add: f_def show_nat_small [OF small])
  have "10 ^ (2 - length f) * digits_val f = a mod 100"
    unfolding len by (auto simp: f_def digits_val_def [of "[]"])
  then have "int (10 ^ (2 - length f) * digits_val f) = int (a mod 100)" by simp
  then have val: "decimal_value w f = q"
    by (simp add: decimal_value_def w q zmod_int zdiv_int)
  show thesis
  proof (rule that [OF shape _ _ val])
    show "decimal_wf w f" using w f_digits by (simp add: decimal_wf_def)
    show "length f \<le> 2" by (simp add: len)
  qed
qed

subsection \<open>Digit grouping\<close>

text \<open>The reference: split three digits off the right end, recursively.\<close>

function group3 :: "string \<Rightarrow> string" where
  "group3 s =
     (if length s \<le> 3 then s
      else group3 (take (length s - 3) s) @ CHR '','' # drop (length s - 3) s)"
  by pat_completeness auto
termination
  by (relation "measure length") auto

declare group3.simps [simp del]

lemma group_digits_append3:
  assumes "length b = 3" "a \<noteq> []"
  shows "group_digits (a @ b) = group_digits a @ CHR '','' # b"
proof -
  obtain x y z where b: "b = [x, y, z]" using assms(1) by (auto simp: numeral_3_eq_3 length_Suc_conv)
  have idx: "[0 ..< length (a @ b)] = [0 ..< length a] @ [length a, Suc (length a), Suc (Suc (length a))]"
    by (simp add: b upt_rec [of "length a"] upt_rec [of "Suc (length a)"] upt_rec [of "Suc (Suc (length a))"]
        flip: upt_add_eq_append [of 0 "length a" 3, simplified])
  have old: "(length (a @ b) - i) mod 3 = (length a - i) mod 3" if "i < length a" for i
  proof -
    have "length (a @ b) - i = (length a - i) + 3" using that by (simp add: b)
    then show ?thesis by simp
  qed
  define F where "F n = (\<lambda>(i, ch). if i > 0 \<and> (n - i) mod 3 = 0 then [CHR '','', ch] else [ch])"
    for n :: nat
  have whole: "group_digits s = concat (map (F (length s)) (zip [0 ..< length s] s))" for s
    by (simp add: group_digits_def F_def)
  have "map (F (length (a @ b))) (zip [0 ..< length a] a) = map (F (length a)) (zip [0 ..< length a] a)"
    using old by (intro map_cong) (auto simp: F_def dest!: set_zip_leftD)
  then have "concat (map (F (length (a @ b))) (zip [0 ..< length a] a)) = group_digits a"
    unfolding whole by (rule arg_cong)
  moreover have "concat (map (F (length (a @ b)))
      (zip [length a, Suc (length a), Suc (Suc (length a))] b)) = CHR '','' # b"
    using assms(2) by (simp add: F_def b)
  ultimately show ?thesis
    unfolding whole [of "a @ b"] idx by (simp only: zip_append length_upt diff_zero map_append concat_append)
qed

lemma group_digits_short: "length s \<le> 3 \<Longrightarrow> group_digits s = s"
proof -
  assume len: "length s \<le> 3"
  have zero: "i = 0" if "i < length s" "3 dvd length s - i" for i
    using dvd_imp_le [OF that(2)] that(1) len by linarith
  have "map (\<lambda>(i, ch). if i > 0 \<and> (length s - i) mod 3 = 0 then [CHR '','', ch] else [ch])
          (zip [0 ..< length s] s) = map (\<lambda>(i, ch). [ch]) (zip [0 ..< length s] s)"
    using len by (intro map_cong) (auto dest!: set_zip_leftD dest: zero)
  then have "group_digits s = concat (map (\<lambda>(i, ch). [ch]) (zip [0 ..< length s] s))"
    unfolding group_digits_def by (rule arg_cong)
  also have "\<dots> = map snd (zip [0 ..< length s] s)"
    by (induction "zip [0 ..< length s] s" rule: list.induct) (simp_all add: case_prod_unfold concat_map_singleton)
  finally show ?thesis by simp
qed

lemma group_digits_group3: "group_digits s = group3 s"
proof (induction s rule: group3.induct)
  case (1 s)
  show ?case
  proof (cases "length s \<le> 3")
    case True
    then show ?thesis by (simp add: group_digits_short group3.simps [of s])
  next
    case False
    let ?a = "take (length s - 3) s" and ?b = "drop (length s - 3) s"
    have "group_digits (?a @ ?b) = group_digits ?a @ CHR '','' # ?b"
      using False by (intro group_digits_append3) auto
    with 1 False show ?thesis by (simp add: group3.simps [of s])
  qed
qed

subsection \<open>Properties\<close>

text \<open>
  \<^verbatim>\<open>parse_quantity\<close> accepts exactly the decimal numerals with a whole part, at most two
  decimals (one of the two parts may be missing), a positive value and at most 1,000,000.00, up
  to surrounding white space, and returns their value in hundredths: no accepted text is read
  as another number and no such numeral is refused, whatever its leading zeros.
\<close>

theorem parse_quantity_exact:
  "parse_quantity raw = Inr q \<longleftrightarrow>
     (\<exists>w f. trim raw = decimal_text w f \<and> decimal_wf w f \<and> length f \<le> 2
            \<and> q = decimal_value w f \<and> 0 < q \<and> q \<le> MAX_QUANTITY_HUNDREDTHS)"
  by (rule parse_quantity_iff)

text \<open>
  C9. Formatting a stored quantity and parsing the text again returns the same quantity: what
  the API hands to an edit form is accepted unchanged when it comes back.
\<close>

theorem quantity_round_trip:
  assumes "0 < q" "q \<le> MAX_QUANTITY_HUNDREDTHS"
  shows "parse_quantity (format_quantity q) = Inr q"
proof -
  obtain w f where d: "format_quantity q = decimal_text w f" "decimal_wf w f" "length f \<le> 2"
    "decimal_value w f = q" using format_quantity_decimal [OF assms(1)] .
  then have "trim (format_quantity q) = decimal_text w f" by (simp add: trim_decimal_text)
  with d assms show ?thesis unfolding parse_quantity_iff by blast
qed

theorem quantity_round_trip_witness:
  "parse_quantity (format_quantity 25) = Inr 25 \<and> format_quantity 25 = ''0.25''"
proof -
  have "format_quantity 25 = ''0.25''" by code_simp
  with quantity_round_trip [of 25] show ?thesis by (simp add: money_consts)
qed

text \<open>
  C10. Within the validated ranges a line amount is the exact product rounded half up to the
  cent: it is within half a cent of \<open>q * p / 100\<close> (never the lower neighbour of a tie), it
  never reaches the clamp, and it lies between 0 and 10^15.
\<close>

theorem line_amount_nearest_cent:
  assumes "0 \<le> q" "q \<le> MAX_QUANTITY_HUNDREDTHS" "0 \<le> p" "p \<le> MAX_UNIT_PRICE_CENTS"
  shows "200 * line_amount_cents q p \<le> 2 * (q * p) + 100
    \<and> 2 * (q * p) + 100 < 200 * line_amount_cents q p + 200
    \<and> 0 \<le> line_amount_cents q p \<and> line_amount_cents q p \<le> 1000000000000000"
proof -
  note b = line_product_bounds [OF assms]
  have "line_amount_cents q p = div_round_half_up (q * p) 100"
    using b by (simp add: line_amount_exact [OF assms] div_round_nonneg)
  moreover have "even (100 :: int)" by simp
  ultimately show ?thesis
    using div_round_bounds [OF b(1), of 100] line_amount_range [OF assms] by simp
qed

theorem line_amount_nearest_cent_witness:
  "line_amount_cents 150 333 = 500 \<and> 200 * line_amount_cents 150 333 \<le> 2 * (150 * 333) + 100"
proof
  show "line_amount_cents 150 333 = 500" by code_simp
  show "200 * line_amount_cents 150 333 \<le> 2 * (150 * 333) + 100"
    using line_amount_nearest_cent [of 150 333] by (simp add: money_consts)
qed

text \<open>
  \<^verbatim>\<open>format_cents\<close> prints the sign, the whole part grouped in threes from the right (the
  recursive reference grouping) and exactly two decimals, for every amount.
\<close>

theorem format_cents_reference:
  "format_cents c =
     (if c < 0 then ''-'' else []) @ group3 (show_nat (nat \<bar>c\<bar> div 100)) @ ''.''
       @ [digit (nat \<bar>c\<bar> div 10 mod 10), digit (nat \<bar>c\<bar> mod 10)]"
proof -
  define a where "a = nat \<bar>c\<bar>"
  define x y where "x = a div 10 mod 10" and "y = a mod 10"
  have xy: "x < 10" "y < 10" by (simp_all add: x_def y_def)
  have "a mod (10 * 10) = 10 * (a div 10 mod 10) + a mod 10" by (rule mod_mult2_eq)
  then have split: "a mod 100 = 10 * x + y" by (simp add: x_def y_def)
  have "pad0 2 (show_nat (10 * x + y)) = [digit x, digit y]"
  proof (cases "x = 0")
    case True
    with xy show ?thesis by (simp add: pad0_def show_nat_small digit_def char_of_48)
  next
    case False
    with xy have "show_nat (10 * x + y) = [digit x, digit y]"
      by (subst show_nat.simps) (simp add: show_nat_small)
    then show ?thesis by (simp add: pad0_def)
  qed
  then show ?thesis
    by (simp add: format_cents_def group_digits_group3 Let_def split x_def y_def flip: a_def)
qed

end
