(* ===== verification/Guards.thy ===== *)
theory Guards
  imports Batch_Get Money
begin

section \<open>Authorisation\<close>

text \<open>
  \<^verbatim>\<open>graphql/error.rs\<close>, \<^verbatim>\<open>graphql/auth.rs\<close> and the \<^verbatim>\<open>require_*_member\<close> helpers at the
  head of \<^verbatim>\<open>graphql/mutations.rs\<close>: error classes, principals, the field guard and the
  per-record checks that load a row and answer \<^verbatim>\<open>NOT_FOUND\<close> both for a missing row and for
  one of an instance the caller does not belong to.
\<close>

subsection \<open>Errors of a resolver\<close>

datatype error_code = NotFoundCode | Forbidden | Unauthenticated | Conflict | Internal

fun error_code_str :: "error_code \<Rightarrow> string" where
  "error_code_str NotFoundCode = ''NOT_FOUND''"
| "error_code_str Forbidden = ''FORBIDDEN''"
| "error_code_str Unauthenticated = ''UNAUTHENTICATED''"
| "error_code_str Conflict = ''CONFLICT''"
| "error_code_str Internal = ''INTERNAL''"

text \<open>
  What a resolver fails with: an \<^verbatim>\<open>ApiError\<close>, a \<^verbatim>\<open>db::Error\<close> that \<^verbatim>\<open>?\<close> converted, or an
  \<^verbatim>\<open>anyhow!\<close> of a message, of a validator's error or of a kind mismatch.
\<close>

datatype api_error =
    ApiError error_code string
  | DbError db_error
  | Anyhow string
  | BadItem item_error
  | BadQuantity quantity_error
  | BadKind kind_error

fun classify :: "api_error \<Rightarrow> error_code" where
  "classify (ApiError c m) = c"
| "classify (DbError e) = Internal"
| "classify (Anyhow m) = Internal"
| "classify (BadItem e) = Internal"
| "classify (BadQuantity q) = Internal"
| "classify (BadKind k) = Internal"

definition not_found :: "string \<Rightarrow> string \<Rightarrow> api_error" where
  "not_found kind i = ApiError NotFoundCode (kind @ '' with ID '' @ i @ '' missing'')"

definition forbidden :: "string \<Rightarrow> api_error" where
  "forbidden m = ApiError Forbidden m"

definition conflict :: "string \<Rightarrow> api_error" where
  "conflict m = ApiError Conflict m"

subsection \<open>Principals and field guards\<close>

record auth_membership =
  am_instance_id :: string
  am_is_owner :: bool

datatype auth_info =
    User (user_id: string) (memberships: "auth_membership list") (is_superuser: bool)
      (user_token_id: "string option") (user_grant_id: "string option")
  | Requester (requester_email: string) (requester_instance_id: string)
  | ApiToken (api_token_id: string) (api_token_instance_id: string)

definition is_member :: "auth_membership list \<Rightarrow> string \<Rightarrow> bool" where
  "is_member ms instance_id \<longleftrightarrow> list_ex (\<lambda>m. am_instance_id m = instance_id) ms"

definition is_owner :: "auth_membership list \<Rightarrow> string \<Rightarrow> bool" where
  "is_owner ms instance_id \<longleftrightarrow> list_ex (\<lambda>m. am_instance_id m = instance_id \<and> am_is_owner m) ms"

datatype auth_requirement =
    RequireAuthenticated
  | RequireMember string
  | RequireInstanceOwner string
  | RequireRequester
  | RequireSuperuser
  | RequireInstanceOwnerOrSuperuser string
  | RequireApiToken

fun guard_check :: "auth_requirement \<Rightarrow> auth_info option \<Rightarrow> api_error + unit" where
  "guard_check RequireAuthenticated auth =
     (if (case auth of Some (User i ms su tk g) \<Rightarrow> True | Some (Requester e i) \<Rightarrow> True
          | Some (ApiToken t i) \<Rightarrow> False | None \<Rightarrow> False)
      then Inr () else Inl (ApiError Unauthenticated ''Must be authenticated''))"
| "guard_check (RequireMember instance_id) auth =
     (if (case auth of Some (User i ms su tk g) \<Rightarrow> is_member ms instance_id
          | Some (Requester e i) \<Rightarrow> False | Some (ApiToken t i) \<Rightarrow> False | None \<Rightarrow> False)
      then Inr () else Inl (ApiError Unauthenticated ''Must be a member of this instance''))"
| "guard_check (RequireInstanceOwner instance_id) auth =
     (if (case auth of Some (User i ms su tk g) \<Rightarrow> is_owner ms instance_id
          | Some (Requester e i) \<Rightarrow> False | Some (ApiToken t i) \<Rightarrow> False | None \<Rightarrow> False)
      then Inr () else Inl (ApiError Unauthenticated ''Must be an owner of this instance''))"
| "guard_check RequireRequester auth =
     (if (case auth of Some (Requester e i) \<Rightarrow> True | Some (User i ms su tk g) \<Rightarrow> False
          | Some (ApiToken t i) \<Rightarrow> False | None \<Rightarrow> False)
      then Inr () else Inl (ApiError Unauthenticated ''Must provide a requester submit token''))"
| "guard_check RequireSuperuser auth =
     (if (case auth of Some (User i ms su tk g) \<Rightarrow> su | Some (Requester e i) \<Rightarrow> False
          | Some (ApiToken t i) \<Rightarrow> False | None \<Rightarrow> False)
      then Inr () else Inl (ApiError Unauthenticated ''Must be a superuser''))"
| "guard_check (RequireInstanceOwnerOrSuperuser instance_id) auth =
     (if (case auth of Some (User i ms su tk g) \<Rightarrow> su \<or> is_owner ms instance_id
          | Some (Requester e i) \<Rightarrow> False | Some (ApiToken t i) \<Rightarrow> False | None \<Rightarrow> False)
      then Inr ()
      else Inl (ApiError Unauthenticated ''Must be an owner of this instance, or a superuser''))"
| "guard_check RequireApiToken auth =
     (if (case auth of Some (ApiToken t i) \<Rightarrow> True | Some (User i ms su tk g) \<Rightarrow> False
          | Some (Requester e i) \<Rightarrow> False | None \<Rightarrow> False)
      then Inr () else Inl (ApiError Unauthenticated ''Must provide a valid API token''))"

subsection \<open>The request's environment\<close>

text \<open>
  What a resolver has beside its arguments: the database handler, the principal, the state an
  eventually consistent read sees (\<open>rq_view\<close>: any state, a replica may lag), the clock at
  the database call and at the end of the resolver, a fresh id, and the serialiser of the
  snapshot. \<open>rq_canon\<close> is the date library's parse-and-format.
\<close>

record request =
  rq_db :: handler
  rq_auth :: "auth_info option"
  rq_view :: store
  rq_now :: nat
  rq_now_end :: nat
  rq_new_id :: string
  rq_canon :: "string \<Rightarrow> string option"

definition first_row :: "'r option list \<Rightarrow> 'r option" where
  "first_row rs = (case rs of [] \<Rightarrow> None | r # _ \<Rightarrow> r)"

text \<open>\<^verbatim>\<open>get_x(&[id]).await?.into_iter().next().flatten().ok_or_else(|| not_found(kind, id))?\<close>\<close>

definition load_row ::
    "request \<Rightarrow> string \<Rightarrow> (item \<Rightarrow> string + 'r) \<Rightarrow> ('r \<Rightarrow> string) \<Rightarrow> string \<Rightarrow> string \<Rightarrow> api_error + 'r" where
  "load_row rq t f rid kind i =
     rbind (map_err DbError (get_records (rq_db rq) t f rid [i] (rq_view rq))) (\<lambda>rs.
       ok_or (not_found kind i) (first_row rs))"

definition must_be_user :: api_error where
  "must_be_user = forbidden ''Must be authenticated as a user''"

definition current_user :: "request \<Rightarrow> api_error + string" where
  "current_user rq =
     (case rq_auth rq of Some (User i ms su tk g) \<Rightarrow> Inr i | _ \<Rightarrow> Inl must_be_user)"

definition current_memberships :: "request \<Rightarrow> api_error + auth_membership list" where
  "current_memberships rq =
     (case rq_auth rq of Some (User i ms su tk g) \<Rightarrow> Inr ms | _ \<Rightarrow> Inl must_be_user)"

definition check_member :: "auth_membership list \<Rightarrow> string \<Rightarrow> string \<Rightarrow> string \<Rightarrow> api_error + unit" where
  "check_member ms instance_id kind i =
     (if is_member ms instance_id then Inr () else Inl (not_found kind i))"

definition require_project_member :: "request \<Rightarrow> string \<Rightarrow> api_error + project" where
  "require_project_member rq i =
     rbind (current_memberships rq) (\<lambda>ms.
     rbind (load_row rq ''project'' hydrate_project proj_id ''Project'' i) (\<lambda>project.
     rbind (check_member ms (proj_instance_id project) ''Project'' i) (\<lambda>_. Inr project)))"

definition require_billable_item_member :: "request \<Rightarrow> string \<Rightarrow> api_error + billable_item" where
  "require_billable_item_member rq i =
     rbind (current_memberships rq) (\<lambda>ms.
     rbind (load_row rq ''billable_item'' hydrate_billable_item item_id ''BillableItem'' i) (\<lambda>it.
     rbind (check_member ms (item_instance_id it) ''BillableItem'' i) (\<lambda>_. Inr it)))"

text \<open>\<^verbatim>\<open>get_invoice_consistent\<close> reads the current state, not the replica.\<close>

definition get_invoice_consistent :: "request \<Rightarrow> string \<Rightarrow> store \<Rightarrow> api_error + invoice option" where
  "get_invoice_consistent rq i s =
     map_err DbError (get_record_consistent (rq_db rq) ''invoice'' hydrate_invoice i s)"

definition require_invoice_member :: "request \<Rightarrow> string \<Rightarrow> store \<Rightarrow> api_error + invoice" where
  "require_invoice_member rq i s =
     rbind (current_memberships rq) (\<lambda>ms.
     rbind (get_invoice_consistent rq i s) (\<lambda>found.
     rbind (ok_or (not_found ''Invoice'' i) found) (\<lambda>invoice.
     rbind (check_member ms (inv_instance_id invoice) ''Invoice'' i) (\<lambda>_. Inr invoice))))"

subsection \<open>Facts\<close>

lemma is_owner_member: "is_owner ms i \<Longrightarrow> is_member ms i"
  by (auto simp: is_owner_def is_member_def list_ex_iff)

lemma current_user_Inr: "current_user rq = Inr u \<longleftrightarrow> (\<exists>ms su tk g. rq_auth rq = Some (User u ms su tk g))"
  by (auto simp: current_user_def split: option.splits auth_info.splits)

lemma current_memberships_Inr:
  "current_memberships rq = Inr ms \<longleftrightarrow> (\<exists>u su tk g. rq_auth rq = Some (User u ms su tk g))"
  by (auto simp: current_memberships_def split: option.splits auth_info.splits)

lemma check_member_Inr [simp]: "check_member ms inst kind i = Inr x \<longleftrightarrow> is_member ms inst"
  by (simp add: check_member_def)

text \<open>What a caller may have of a row: the member check of every loader.\<close>

definition may_access :: "request \<Rightarrow> string \<Rightarrow> bool" where
  "may_access rq instance_id \<longleftrightarrow>
     (case rq_auth rq of Some (User u ms su tk g) \<Rightarrow> is_member ms instance_id | _ \<Rightarrow> False)"

lemma may_access_iff:
  "may_access rq inst \<longleftrightarrow> (\<exists>ms. current_memberships rq = Inr ms \<and> is_member ms inst)"
  by (auto simp: may_access_def current_memberships_def split: option.splits auth_info.splits)

lemma require_project_member_access:
  "require_project_member rq i = Inr p \<Longrightarrow> may_access rq (proj_instance_id p)"
  by (auto simp: require_project_member_def may_access_iff)

lemma require_billable_item_member_access:
  "require_billable_item_member rq i = Inr it \<Longrightarrow> may_access rq (item_instance_id it)"
  by (auto simp: require_billable_item_member_def may_access_iff)

lemma require_invoice_member_access:
  "require_invoice_member rq i s = Inr v \<Longrightarrow> may_access rq (inv_instance_id v)"
  by (auto simp: require_invoice_member_def may_access_iff)

end
