(* ===== verification/Snapshot.thy ===== *)
theory Snapshot
  imports Money Domain "HOL-Library.Multiset"
begin

section \<open>Invoice snapshots\<close>

text \<open>
  The model of \<^verbatim>\<open>api/src/invoicing/snapshot.rs\<close>: the frozen shape of an invoice and
  \<^verbatim>\<open>build_snapshot\<close>, the one function that computes both a draft's preview and the content a
  finalized invoice freezes. \<^verbatim>\<open>sort_by\<close> is the library's stable sort (\<open>sort_key\<close>) on the
  pair of date and creation time; the \<^verbatim>\<open>i64\<close> sum and the final addition wrap as a release
  build does, and are proved not to inside the validated ranges.
\<close>

definition SCHEMA_VERSION :: nat where "SCHEMA_VERSION = 1"

record snapshot_seller =
  sel_name :: "string option"
  sel_abn :: "string option"
  sel_address :: "string option"
  sel_phone :: "string option"
  sel_email :: "string option"

record snapshot_bill_to =
  bill_name :: string
  bill_abn :: "string option"
  bill_address :: "string option"

record snapshot_line =
  line_date :: string
  line_description :: string
  line_quantity :: string
  line_quantity_hundredths :: int
  line_unit_price_cents :: int
  line_amount :: int

record invoice_snapshot =
  snap_schema_version :: nat
  snap_title :: string
  snap_display_number :: "string option"
  snap_issue_date :: "string option"
  snap_seller :: snapshot_seller
  snap_bill_to :: snapshot_bill_to
  snap_reference :: "string option"
  snap_currency :: string
  snap_gst_registered :: bool
  snap_lines :: "snapshot_line list"
  snap_subtotal_cents :: int
  snap_gst_cents :: int
  snap_total_cents :: int
  snap_payment_details :: "string option"
  snap_no_gst_note :: bool

definition item_line :: "billable_item \<Rightarrow> snapshot_line" where
  "item_line it =
     \<lparr>line_date = item_date it,
      line_description = item_description it,
      line_quantity = format_quantity (item_quantity_hundredths it),
      line_quantity_hundredths = item_quantity_hundredths it,
      line_unit_price_cents = item_unit_price_cents it,
      line_amount = line_amount_cents (item_quantity_hundredths it) (item_unit_price_cents it)\<rparr>"

text \<open>
  The comparison \<^verbatim>\<open>a.date.cmp(&b.date).then(a.created_at.cmp(&b.created_at))\<close> and the stable
  sort by it: an insertion sort that keeps equal elements in their order.
\<close>

definition item_le :: "billable_item \<Rightarrow> billable_item \<Rightarrow> bool" where
  "item_le a b \<longleftrightarrow>
     item_date a < item_date b
     \<or> item_date a = item_date b \<and> item_created_at a \<le> item_created_at b"

fun insert_item :: "billable_item \<Rightarrow> billable_item list \<Rightarrow> billable_item list" where
  "insert_item x [] = [x]"
| "insert_item x (y # ys) = (if item_le x y then x # y # ys else y # insert_item x ys)"

fun sort_items :: "billable_item list \<Rightarrow> billable_item list" where
  "sort_items [] = []"
| "sort_items (x # xs) = insert_item x (sort_items xs)"

definition build_snapshot ::
    "org_instance \<Rightarrow> project \<Rightarrow> billable_item list \<Rightarrow> nat option \<Rightarrow> string option
     \<Rightarrow> invoice_snapshot" where
  "build_snapshot instance proj items number issue_date =
     (let gst_registered = inst_gst_registered instance;
          title = (if gst_registered then ''Tax Invoice'' else ''Invoice'');
          lines = map item_line (sort_items items);
          subtotal_cents = sum_i64 (map line_amount lines);
          gst = (if gst_registered then gst_cents subtotal_cents else 0);
          total_cents = wrap_i64 (subtotal_cents + gst)
      in \<lparr>snap_schema_version = SCHEMA_VERSION,
          snap_title = title,
          snap_display_number = map_option (\<lambda>n. pad0 3 (show_nat n)) number,
          snap_issue_date = issue_date,
          snap_seller =
            \<lparr>sel_name = inst_business_name instance,
             sel_abn = inst_business_abn instance,
             sel_address = inst_business_address instance,
             sel_phone = inst_business_phone instance,
             sel_email = inst_business_email instance\<rparr>,
          snap_bill_to =
            \<lparr>bill_name = proj_client_name proj,
             bill_abn = proj_client_abn proj,
             bill_address = proj_client_address proj\<rparr>,
          snap_reference = proj_reference proj,
          snap_currency = currency_or_default instance,
          snap_gst_registered = gst_registered,
          snap_lines = lines,
          snap_subtotal_cents = subtotal_cents,
          snap_gst_cents = gst,
          snap_total_cents = total_cents,
          snap_payment_details = inst_payment_details instance,
          snap_no_gst_note = (\<not> gst_registered)\<rparr>)"

definition item_amount :: "billable_item \<Rightarrow> int" where
  "item_amount it = line_amount_cents (item_quantity_hundredths it) (item_unit_price_cents it)"

lemma item_amount_eta: "(\<lambda>it. line_amount_cents (item_quantity_hundredths it) (item_unit_price_cents it)) = item_amount"
  by (simp add: item_amount_def fun_eq_iff)

lemma build_snapshot_fields:
  "snap_title (build_snapshot i p items n d) = (if inst_gst_registered i then ''Tax Invoice'' else ''Invoice'')"
  "snap_lines (build_snapshot i p items n d) = map item_line (sort_items items)"
  "snap_subtotal_cents (build_snapshot i p items n d) = sum_i64 (map item_amount (sort_items items))"
  "snap_gst_cents (build_snapshot i p items n d) =
     (if inst_gst_registered i then gst_cents (sum_i64 (map item_amount (sort_items items))) else 0)"
  "snap_total_cents (build_snapshot i p items n d) =
     wrap_i64 (snap_subtotal_cents (build_snapshot i p items n d) + snap_gst_cents (build_snapshot i p items n d))"
  "snap_display_number (build_snapshot i p items n d) = map_option (\<lambda>m. pad0 3 (show_nat m)) n"
  "snap_issue_date (build_snapshot i p items n d) = d"
  by (simp_all add: build_snapshot_def Let_def item_line_def item_amount_eta comp_def)

subsection \<open>The sort\<close>

text \<open>\<open>sort_items\<close> is a sort: a permutation, ordered, and stable.\<close>

lemma mset_insert_item [simp]: "mset (insert_item x ys) = add_mset x (mset ys)"
  by (induction ys) auto

lemma mset_sort_items [simp]: "mset (sort_items xs) = mset xs"
  by (induction xs) auto

lemma set_sort_items [simp]: "set (sort_items xs) = set xs"
  by (metis mset_sort_items set_mset_mset)

lemma length_sort_items [simp]: "length (sort_items xs) = length xs"
  by (metis mset_sort_items size_mset)

lemma item_le_trans: "item_le a b \<Longrightarrow> item_le b c \<Longrightarrow> item_le a c"
  by (auto simp: item_le_def)

lemma item_le_total: "\<not> item_le a b \<Longrightarrow> item_le b a"
  by (auto simp: item_le_def)

lemma sorted_insert_item: "sorted_wrt item_le ys \<Longrightarrow> sorted_wrt item_le (insert_item x ys)"
proof (induction ys)
  case (Cons y ys)
  have "set (insert_item x ys) = insert x (set ys)"
    by (metis mset_insert_item set_mset_add_mset_insert set_mset_mset)
  with Cons show ?case by (auto intro: item_le_trans item_le_total)
qed simp

lemma sorted_sort_items: "sorted_wrt item_le (sort_items xs)"
  by (induction xs) (auto simp: sorted_insert_item)

definition same_key :: "billable_item \<Rightarrow> billable_item \<Rightarrow> bool" where
  "same_key a b \<longleftrightarrow> item_date a = item_date b \<and> item_created_at a = item_created_at b"

lemma insert_item_stable:
  "filter (same_key k) (insert_item x ys) = filter (same_key k) (x # ys)"
  by (induction ys) (auto simp: same_key_def item_le_def)

lemma sort_items_stable: "filter (same_key k) (sort_items xs) = filter (same_key k) xs"
  by (induction xs) (simp_all add: insert_item_stable del: filter.simps, simp)

subsection \<open>Totals\<close>

text \<open>An item as validation lets it in.\<close>

definition valid_item :: "billable_item \<Rightarrow> bool" where
  "valid_item it \<longleftrightarrow>
     0 \<le> item_quantity_hundredths it \<and> item_quantity_hundredths it \<le> MAX_QUANTITY_HUNDREDTHS
     \<and> 0 \<le> item_unit_price_cents it \<and> item_unit_price_cents it \<le> MAX_UNIT_PRICE_CENTS"

definition exact_amount :: "billable_item \<Rightarrow> int" where
  "exact_amount it = (item_quantity_hundredths it * item_unit_price_cents it + 50) div 100"

lemma item_amount_exact: "valid_item it \<Longrightarrow> item_amount it = exact_amount it"
  by (simp add: item_amount_def exact_amount_def valid_item_def line_amount_exact)

lemma item_amount_range:
  "valid_item it \<Longrightarrow> 0 \<le> item_amount it \<and> item_amount it \<le> 1000000000000000"
  by (simp add: item_amount_def valid_item_def line_amount_range)

lemma amounts_bound:
  assumes "list_all valid_item items" "length items \<le> 50"
  shows "0 \<le> sum_list (map item_amount items)" "sum_list (map item_amount items) \<le> 50000000000000000"
proof -
  have r: "0 \<le> x \<and> x \<le> 1000000000000000" if "x \<in> set (map item_amount items)" for x
    using that assms(1) item_amount_range by (auto simp: list_all_iff)
  show "0 \<le> sum_list (map item_amount items)" using r by (intro sum_list_nonneg) blast
  have "sum_list (map item_amount items) \<le> int (length (map item_amount items)) * 1000000000000000"
    using r by (intro sum_list_le_bound) blast
  also have "\<dots> \<le> 50 * 1000000000000000" using assms(2) by simp
  finally show "sum_list (map item_amount items) \<le> 50000000000000000" by simp
qed

lemma sum_amounts_exact:
  assumes "list_all valid_item items" "length items \<le> 50"
  shows "sum_i64 (map item_amount items) = sum_list (map item_amount items)"
proof (rule sum_i64_exact)
  show "0 \<le> x" if "x \<in> set (map item_amount items)" for x
    using that assms(1) item_amount_range by (auto simp: list_all_iff)
  show "sum_list (map item_amount items) \<le> i64_max"
    using amounts_bound(2) [OF assms] by (simp add: i64_max_def)
qed

lemma sum_amounts_sorted: "sum_list (map item_amount (sort_items items)) = sum_list (map item_amount items)"
proof -
  have "mset (map item_amount (sort_items items)) = mset (map item_amount items)" by simp
  then show ?thesis by (metis sum_mset_sum_list)
qed

lemma valid_sorted: "list_all valid_item items \<Longrightarrow> list_all valid_item (sort_items items)"
  by (simp add: list_all_iff)

lemma snapshot_totals_of:
  assumes "list_all valid_item items" "length items \<le> 50"
  defines "S \<equiv> sum_list (map exact_amount items)"
  shows "snap_subtotal_cents (build_snapshot i p items n d) = S"
    and "snap_gst_cents (build_snapshot i p items n d) = (if inst_gst_registered i then (S + 5) div 10 else 0)"
    and "snap_total_cents (build_snapshot i p items n d) = S + (if inst_gst_registered i then (S + 5) div 10 else 0)"
    and "0 \<le> S" "S \<le> 50000000000000000"
proof -
  have eq: "map item_amount items = map exact_amount items"
    using assms(1) item_amount_exact by (auto simp: list_all_iff)
  have b: "0 \<le> S" "S \<le> 50000000000000000" using amounts_bound [OF assms(1,2)] by (simp_all add: eq S_def)
  then show "0 \<le> S" "S \<le> 50000000000000000" .
  show sub: "snap_subtotal_cents (build_snapshot i p items n d) = S"
    using sum_amounts_exact [OF valid_sorted [OF assms(1)]] assms(2)
    by (simp add: build_snapshot_fields sum_amounts_sorted eq S_def)
  then have s: "sum_i64 (map item_amount (sort_items items)) = S" by (simp add: build_snapshot_fields)
  have g: "gst_cents S = (S + 5) div 10" using b by (intro gst_exact) (simp_all add: i64_max_def)
  show gst: "snap_gst_cents (build_snapshot i p items n d) = (if inst_gst_registered i then (S + 5) div 10 else 0)"
    by (simp add: build_snapshot_fields s g)
  have "in_i64 (S + (if inst_gst_registered i then (S + 5) div 10 else 0))"
    using b by (intro in_i64I) auto
  then show "snap_total_cents (build_snapshot i p items n d) = S + (if inst_gst_registered i then (S + 5) div 10 else 0)"
    using sub gst by (simp add: build_snapshot_fields(5) wrap_i64_id)
qed

subsection \<open>Properties\<close>

text \<open>
  The lines of a snapshot are the invoice's items, each exactly once, in order of date and
  creation time, and items with the same date and creation time keep the order they came in.
\<close>

theorem snapshot_lines_sorted:
  "\<exists>ys. snap_lines (build_snapshot i p items n d) = map item_line ys \<and> mset ys = mset items
     \<and> sorted_wrt item_le ys \<and> filter (same_key k) ys = filter (same_key k) items"
  by (intro exI [of _ "sort_items items"])
    (simp add: build_snapshot_fields sorted_sort_items sort_items_stable)

text \<open>
  C7. For at most 50 validated items nothing in \<^verbatim>\<open>build_snapshot\<close> overflows or is clamped: the
  subtotal is the exact sum of the items' products rounded half up to the cent, GST is a tenth
  of it rounded half up (none when not registered), the total is their sum, and it stays below
  the range of the 64-bit integers by two orders of magnitude.
\<close>

theorem snapshot_totals_exact:
  assumes "list_all valid_item items" "length items \<le> 50"
  shows "snap_subtotal_cents (build_snapshot i p items n d) = sum_list (map exact_amount items)
    \<and> snap_gst_cents (build_snapshot i p items n d)
        = (if inst_gst_registered i then (sum_list (map exact_amount items) + 5) div 10 else 0)
    \<and> snap_total_cents (build_snapshot i p items n d)
        = snap_subtotal_cents (build_snapshot i p items n d) + snap_gst_cents (build_snapshot i p items n d)
    \<and> 0 \<le> snap_total_cents (build_snapshot i p items n d)
    \<and> snap_total_cents (build_snapshot i p items n d) \<le> 55000000000000001"
  using snapshot_totals_of(1-3) [OF assms, of i p n d] snapshot_totals_of(4,5) [OF assms] by auto

definition sample_instance :: org_instance where
  "sample_instance =
     \<lparr>inst_id = ''n1'', inst_name = ''N'', inst_slug = ''n'', inst_kind = Invoicing,
      inst_public_submission_enabled = False, inst_from_name = [], inst_signature = [], inst_created_at = 0,
      inst_deleted = False, inst_business_name = Some ''N Pty'', inst_business_abn = None,
      inst_business_address = None, inst_business_phone = None, inst_business_email = None,
      inst_payment_details = None, inst_gst_registered = True, inst_currency = None\<rparr>"

definition sample_item :: billable_item where
  "sample_item =
     \<lparr>item_id = ''i1'', item_instance_id = ''n1'', item_project_id = ''p1'', item_date = ''2026-01-02'',
      item_description = ''work'', item_quantity_hundredths = 150, item_unit_price_cents = 10000,
      item_invoice_id = Some ''v1'', item_created_by_user_id = ''u1'', item_created_at = 1, item_updated_at = 1\<rparr>"

definition sample_project :: project where
  "sample_project =
     \<lparr>proj_id = ''p1'', proj_instance_id = ''n1'', proj_name = ''P'', proj_client_name = ''C'',
      proj_client_abn = None, proj_client_address = None, proj_reference = None, proj_archived = False,
      proj_created_at = 0, proj_updated_at = 0\<rparr>"

theorem snapshot_totals_exact_witness:
  "snap_subtotal_cents (build_snapshot sample_instance sample_project [sample_item, sample_item] None None) = 30000
    \<and> snap_gst_cents (build_snapshot sample_instance sample_project [sample_item, sample_item] None None) = 3000"
proof -
  have "list_all valid_item [sample_item, sample_item]" by (simp add: valid_item_def sample_item_def money_consts)
  from snapshot_totals_exact [OF this, of sample_instance sample_project None None] show ?thesis
    by (simp add: exact_amount_def sample_item_def sample_instance_def)
qed

end
