(* ===== verification/Invoice_Mutations.thy ===== *)
theory Invoice_Mutations
  imports Invoice_Store Guards Snapshot
begin

section \<open>The invoicing mutations\<close>

text \<open>
  The resolvers of \<^verbatim>\<open>graphql/mutations.rs\<close> for projects, billable items and invoices. Each
  is a function of the request, its arguments and the database state, in the order of the
  source: authorisation, pre-checks, validation, the conditional write, the answer. The
  helpers they share (\<^verbatim>\<open>validate_new_invoice_item_ids\<close>, \<^verbatim>\<open>fetch_eligible_items\<close>, ...) come
  first. Eventually consistent reads look at \<open>rq_view\<close>, consistent ones at the current state.
\<close>

definition MAX_INVOICE_ITEMS :: nat where "MAX_INVOICE_ITEMS = 50"
definition MAX_PROJECT_FIELD_LEN :: nat where "MAX_PROJECT_FIELD_LEN = 200"
definition MAX_PROJECT_LONG_FIELD_LEN :: nat where "MAX_PROJECT_LONG_FIELD_LEN = 2000"

subsection \<open>Input validation\<close>

definition require_project_name :: "string \<Rightarrow> api_error + string" where
  "require_project_name raw =
     (let trimmed = trim raw in
      if trimmed = [] then Inl (Anyhow ''name cannot be empty'')
      else if char_count trimmed > MAX_PROJECT_FIELD_LEN
      then Inl (Anyhow (''name cannot be longer than '' @ show_nat MAX_PROJECT_FIELD_LEN @ '' characters''))
      else Inr trimmed)"

definition require_project_client_name :: "string \<Rightarrow> api_error + string" where
  "require_project_client_name raw =
     (let trimmed = trim raw in
      if trimmed = [] then Inl (Anyhow ''clientName cannot be empty'')
      else if char_count trimmed > MAX_PROJECT_FIELD_LEN
      then Inl (Anyhow (''clientName cannot be longer than '' @ show_nat MAX_PROJECT_FIELD_LEN @ '' characters''))
      else Inr trimmed)"

definition normalize_project_field ::
    "string option \<Rightarrow> string \<Rightarrow> nat \<Rightarrow> api_error + string option" where
  "normalize_project_field raw field_name max_len =
     (case raw of
        None \<Rightarrow> Inr None
      | Some r \<Rightarrow>
         (let trimmed = trim r in
          if trimmed = [] then Inr None
          else if char_count trimmed > max_len
          then Inl (Anyhow (field_name @ '' cannot be longer than '' @ show_nat max_len @ '' characters''))
          else Inr (Some trimmed)))"

text \<open>
  The ids of a request are checked left to right against the set of those seen so far, which
  starts as the invoice's own item ids.
\<close>

fun distinct_ids :: "string list \<Rightarrow> string list \<Rightarrow> api_error + string list" where
  "distinct_ids seen [] = Inr []"
| "distinct_ids seen (i # ids) =
     (if i \<in> set seen then Inl (Anyhow (''Item '' @ i @ '' is duplicated''))
      else rbind (distinct_ids (i # seen) ids) (\<lambda>out. Inr (i # out)))"

definition validate_new_invoice_item_ids :: "string list \<Rightarrow> string list \<Rightarrow> api_error + string list" where
  "validate_new_invoice_item_ids ids existing =
     (if ids = [] then Inl (Anyhow ''At least one item id is required'')
      else if length existing + length ids > MAX_INVOICE_ITEMS
      then Inl (Anyhow (''An invoice can have at most '' @ show_nat MAX_INVOICE_ITEMS @ '' items''))
      else distinct_ids existing ids)"

fun removable_ids :: "string list \<Rightarrow> string list \<Rightarrow> string list \<Rightarrow> api_error + string list" where
  "removable_ids current seen [] = Inr []"
| "removable_ids current seen (i # ids) =
     (if i \<in> set seen then Inl (Anyhow (''Item '' @ i @ '' is duplicated''))
      else if i \<notin> set current then Inl (Anyhow (''Item '' @ i @ '' is not on this invoice''))
      else rbind (removable_ids current (i # seen) ids) (\<lambda>out. Inr (i # out)))"

definition validate_remove_invoice_item_ids :: "string list \<Rightarrow> string list \<Rightarrow> api_error + string list" where
  "validate_remove_invoice_item_ids ids current =
     (if ids = [] then Inl (Anyhow ''At least one item id is required'')
      else removable_ids current [] ids)"

record billable_item_input =
  in_date :: string
  in_description :: string
  in_quantity :: string
  in_unit_price_cents :: int

definition validate_billable_item_input ::
    "(string \<Rightarrow> string option) \<Rightarrow> billable_item_input \<Rightarrow> api_error + item_fields" where
  "validate_billable_item_input canon input =
     rbind (map_err BadItem (validate_item_date canon (in_date input))) (\<lambda>date.
     rbind (map_err BadItem (validate_description (in_description input))) (\<lambda>description.
     rbind (map_err BadQuantity (parse_quantity (in_quantity input))) (\<lambda>quantity.
     rbind (map_err BadItem (validate_unit_price_cents (in_unit_price_cents input))) (\<lambda>price.
     Inr \<lparr>fld_date = date, fld_description = description, fld_quantity_hundredths = quantity,
          fld_unit_price_cents = price\<rparr>))))"

subsection \<open>Rows the mutations load\<close>

definition load_instance :: "request \<Rightarrow> string \<Rightarrow> api_error + org_instance" where
  "load_instance rq i = load_row rq ''instance'' hydrate_instance inst_id ''Instance'' i"

definition load_project :: "request \<Rightarrow> string \<Rightarrow> api_error + project" where
  "load_project rq i = load_row rq ''project'' hydrate_project proj_id ''Project'' i"

definition get_billable_items :: "request \<Rightarrow> string list \<Rightarrow> api_error + billable_item option list" where
  "get_billable_items rq ids =
     map_err DbError
       (get_records (rq_db rq) ''billable_item'' hydrate_billable_item item_id ids (rq_view rq))"

definition get_billable_items_consistent ::
    "request \<Rightarrow> string list \<Rightarrow> store \<Rightarrow> api_error + billable_item option list" where
  "get_billable_items_consistent rq ids s =
     map_err DbError (get_records (rq_db rq) ''billable_item'' hydrate_billable_item item_id ids s)"

definition eligible_item :: "string \<Rightarrow> string \<times> billable_item option \<Rightarrow> api_error + billable_item" where
  "eligible_item project_id entry =
     (let (i, found) = entry in
      rbind (ok_or (not_found ''BillableItem'' i) found) (\<lambda>it.
        if item_project_id it \<noteq> project_id
        then Inl (conflict (''Billable item '' @ i @ '' does not belong to this invoice's project''))
        else if item_invoice_id it \<noteq> None
        then Inl (conflict (''Billable item '' @ i @ '' is already on an invoice''))
        else Inr it))"

definition fetch_eligible_items :: "request \<Rightarrow> string \<Rightarrow> string list \<Rightarrow> api_error + billable_item list" where
  "fetch_eligible_items rq project_id ids =
     rbind (get_billable_items rq ids) (\<lambda>fetched. mapM (eligible_item project_id) (zip ids fetched))"

definition check_invoice_total_within_safe_integer ::
    "billable_item list \<Rightarrow> bool \<Rightarrow> api_error + unit" where
  "check_invoice_total_within_safe_integer items gst_registered =
     (let subtotal = sum_i64 (map (\<lambda>it. line_amount_cents (item_quantity_hundredths it)
                                          (item_unit_price_cents it)) items);
          gst = (if gst_registered then gst_cents subtotal else 0);
          total = clamp_i64 (subtotal + gst)
      in map_err BadItem (validate_total_within_safe_integer total))"

subsection \<open>Projects\<close>

record project_input =
  pin_name :: string
  pin_client_name :: string
  pin_client_abn :: "string option"
  pin_client_address :: "string option"
  pin_reference :: "string option"

definition db_call :: "(store \<Rightarrow> (db_error + 'a) \<times> store) \<Rightarrow> store \<Rightarrow> (api_error + 'a) \<times> store" where
  "db_call m = smap_err DbError m"

record project_values =
  pv_name :: string
  pv_client_name :: string
  pv_client_abn :: "string option"
  pv_client_address :: "string option"
  pv_reference :: "string option"

definition validate_project_input :: "project_input \<Rightarrow> api_error + project_values" where
  "validate_project_input input =
     rbind (require_project_name (pin_name input)) (\<lambda>name.
     rbind (require_project_client_name (pin_client_name input)) (\<lambda>client_name.
     rbind (normalize_project_field (pin_client_abn input) ''clientAbn'' MAX_PROJECT_FIELD_LEN) (\<lambda>abn.
     rbind (normalize_project_field (pin_client_address input) ''clientAddress'' MAX_PROJECT_LONG_FIELD_LEN) (\<lambda>addr.
     rbind (normalize_project_field (pin_reference input) ''reference'' MAX_PROJECT_FIELD_LEN) (\<lambda>ref.
     Inr \<lparr>pv_name = name, pv_client_name = client_name, pv_client_abn = abn,
          pv_client_address = addr, pv_reference = ref\<rparr>)))))"

definition m_create_project ::
    "request \<Rightarrow> string \<Rightarrow> project_input \<Rightarrow> store \<Rightarrow> (api_error + project) \<times> store" where
  "m_create_project rq instance_id input =
     sbind (slift (guard_check (RequireMember instance_id) (rq_auth rq))) (\<lambda>_.
     sbind (slift (load_instance rq instance_id)) (\<lambda>instance.
     sbind (slift (map_err BadKind (require_instance_kind instance Invoicing))) (\<lambda>_.
     sbind (slift (validate_project_input input)) (\<lambda>v.
     db_call (create_project (rq_db rq) (rq_new_id rq) (rq_now rq) instance_id (pv_name v)
       (pv_client_name v) (pv_client_abn v) (pv_client_address v) (pv_reference v))))))"

definition m_update_project ::
    "request \<Rightarrow> string \<Rightarrow> project_input \<Rightarrow> bool \<Rightarrow> store \<Rightarrow> (api_error + project) \<times> store" where
  "m_update_project rq i input archived =
     sbind (slift (require_project_member rq i)) (\<lambda>project.
     sbind (slift (validate_project_input input)) (\<lambda>v.
     sbind (db_call (update_project (rq_db rq) (rq_now rq) (proj_id project) (pv_name v)
              (pv_client_name v) (pv_client_abn v) (pv_client_address v) (pv_reference v) archived)) (\<lambda>_.
     sreturn (project\<lparr>proj_name := pv_name v, proj_client_name := pv_client_name v,
       proj_client_abn := pv_client_abn v, proj_client_address := pv_client_address v,
       proj_reference := pv_reference v, proj_archived := archived,
       proj_updated_at := rq_now_end rq\<rparr>))))"

subsection \<open>Billable items\<close>

definition m_create_billable_item ::
    "request \<Rightarrow> string \<Rightarrow> billable_item_input \<Rightarrow> store \<Rightarrow> (api_error + billable_item) \<times> store" where
  "m_create_billable_item rq project_id input =
     sbind (slift (require_project_member rq project_id)) (\<lambda>project.
     sbind (slift (current_user rq)) (\<lambda>user.
     sbind (sensure (\<not> proj_archived project)
              (Anyhow (''Project is archived '' @ em_dash @ '' un-archive it to add billable items''))) (\<lambda>_.
     sbind (slift (validate_billable_item_input (rq_canon rq) input)) (\<lambda>fields.
     db_call (create_billable_item (rq_db rq) (rq_new_id rq) (rq_now rq)
       (proj_instance_id project) (proj_id project) fields user)))))"

text \<open>The up-front check of an item's invoice: present, and still a draft.\<close>

definition item_invoice_draft :: "request \<Rightarrow> billable_item \<Rightarrow> store \<Rightarrow> api_error + unit" where
  "item_invoice_draft rq it s =
     (case item_invoice_id it of
        None \<Rightarrow> Inr ()
      | Some invoice_id \<Rightarrow>
          rbind (get_invoice_consistent rq invoice_id s) (\<lambda>found.
          rbind (ok_or (conflict (''Billable item's invoice is missing '' @ em_dash @ '' reload and try again'')) found) (\<lambda>invoice.
          if inv_status invoice \<noteq> Draft
          then Inl (conflict ''Billable item is on a finalized invoice and can no longer be edited'')
          else Inr ())))"

definition m_update_billable_item ::
    "request \<Rightarrow> string \<Rightarrow> billable_item_input \<Rightarrow> store \<Rightarrow> (api_error + billable_item) \<times> store" where
  "m_update_billable_item rq i input =
     sbind (slift (require_billable_item_member rq i)) (\<lambda>it.
     sbind (sread (item_invoice_draft rq it)) (\<lambda>_.
     sbind (slift (validate_billable_item_input (rq_canon rq) input)) (\<lambda>fields.
     sbind (db_call (update_billable_item (rq_db rq) (rq_now rq) (item_id it) (item_invoice_id it) fields)) (\<lambda>written.
     sbind (sensure written (conflict (''Billable item changed concurrently '' @ em_dash @ '' reload and try again''))) (\<lambda>_.
     sreturn (it\<lparr>item_date := fld_date fields, item_description := fld_description fields,
       item_quantity_hundredths := fld_quantity_hundredths fields,
       item_unit_price_cents := fld_unit_price_cents fields,
       item_updated_at := rq_now_end rq\<rparr>))))))"

definition m_delete_billable_item ::
    "request \<Rightarrow> string \<Rightarrow> store \<Rightarrow> (api_error + string) \<times> store" where
  "m_delete_billable_item rq i =
     sbind (slift (require_billable_item_member rq i)) (\<lambda>it.
     sbind (sensure (item_invoice_id it = None) (conflict ''Billable item is already on an invoice'')) (\<lambda>_.
     sbind (db_call (delete_billable_item (rq_db rq) (item_id it))) (\<lambda>deleted.
     sbind (sensure deleted (conflict
       (''Billable item changed (deleted or put on an invoice) '' @ em_dash @ '' reload and try again''))) (\<lambda>_.
     sreturn (item_id it)))))"

subsection \<open>Draft invoices\<close>

definition m_create_invoice ::
    "request \<Rightarrow> string \<Rightarrow> string list \<Rightarrow> store \<Rightarrow> (api_error + invoice) \<times> store" where
  "m_create_invoice rq project_id item_ids =
     sbind (slift (require_project_member rq project_id)) (\<lambda>project.
     sbind (slift (current_user rq)) (\<lambda>user.
     sbind (slift (validate_new_invoice_item_ids item_ids [])) (\<lambda>ids.
     sbind (slift (fetch_eligible_items rq (proj_id project) ids)) (\<lambda>items.
     sbind (slift (load_instance rq (proj_instance_id project))) (\<lambda>instance.
     sbind (slift (check_invoice_total_within_safe_integer items (inst_gst_registered instance))) (\<lambda>_.
     sbind (db_call (create_invoice (rq_db rq) (rq_new_id rq) (rq_now rq)
              (proj_instance_id project) (proj_id project) ids user)) (\<lambda>created.
     slift (ok_or (conflict
       (''One or more items changed (deleted or put on another invoice) '' @ em_dash @ '' reload and try again'')) created))))))))"

definition invoice_changed :: api_error where
  "invoice_changed = conflict (''Invoice changed concurrently '' @ em_dash @ '' reload and try again'')"

definition m_add_invoice_items ::
    "request \<Rightarrow> string \<Rightarrow> string list \<Rightarrow> store \<Rightarrow> (api_error + invoice) \<times> store" where
  "m_add_invoice_items rq invoice_id item_ids =
     sbind (sread (require_invoice_member rq invoice_id)) (\<lambda>invoice.
     sbind (sensure (inv_status invoice = Draft)
              (conflict ''Invoice is finalized and can no longer be edited'')) (\<lambda>_.
     sbind (slift (validate_new_invoice_item_ids item_ids (inv_item_ids invoice))) (\<lambda>new_ids.
     sbind (slift (fetch_eligible_items rq (inv_project_id invoice) new_ids)) (\<lambda>new_items.
     sbind (slift (if inv_item_ids invoice = [] then Inr []
                   else rbind (get_billable_items rq (inv_item_ids invoice))
                          (\<lambda>found. Inr (List.map_filter id found)))) (\<lambda>existing_items.
     sbind (slift (load_instance rq (inv_instance_id invoice))) (\<lambda>instance.
     sbind (slift (check_invoice_total_within_safe_integer (existing_items @ new_items)
              (inst_gst_registered instance))) (\<lambda>_.
     sbind (db_call (add_invoice_items (rq_db rq) (rq_now rq) (inv_id invoice)
              (inv_project_id invoice) new_ids (inv_version invoice))) (\<lambda>committed.
     sbind (sensure committed invoice_changed) (\<lambda>_.
     sreturn (invoice\<lparr>inv_item_ids := inv_item_ids invoice @ new_ids,
       inv_version := inv_version invoice + 1, inv_updated_at := rq_now_end rq\<rparr>))))))))))"

definition m_remove_invoice_items ::
    "request \<Rightarrow> string \<Rightarrow> string list \<Rightarrow> store \<Rightarrow> (api_error + invoice) \<times> store" where
  "m_remove_invoice_items rq invoice_id item_ids =
     sbind (sread (require_invoice_member rq invoice_id)) (\<lambda>invoice.
     sbind (sensure (inv_status invoice = Draft)
              (conflict ''Invoice is finalized and can no longer be edited'')) (\<lambda>_.
     sbind (slift (validate_remove_invoice_item_ids item_ids (inv_item_ids invoice))) (\<lambda>remove_ids.
     sbind (db_call (remove_invoice_items (rq_db rq) (rq_now rq) (inv_id invoice) remove_ids
              (inv_version invoice))) (\<lambda>committed.
     sbind (sensure committed invoice_changed) (\<lambda>_.
     sreturn (invoice\<lparr>inv_item_ids := filter (\<lambda>i. i \<notin> set remove_ids) (inv_item_ids invoice),
       inv_version := inv_version invoice + 1, inv_updated_at := rq_now_end rq\<rparr>))))))"

definition m_delete_invoice :: "request \<Rightarrow> string \<Rightarrow> store \<Rightarrow> (api_error + string) \<times> store" where
  "m_delete_invoice rq invoice_id =
     sbind (sread (require_invoice_member rq invoice_id)) (\<lambda>invoice.
     sbind (sensure (inv_status invoice = Draft) (conflict ''Only a draft invoice can be deleted'')) (\<lambda>_.
     sbind (db_call (delete_invoice (rq_db rq) (inv_id invoice) (inv_item_ids invoice)
              (inv_version invoice))) (\<lambda>committed.
     sbind (sensure committed invoice_changed) (\<lambda>_.
     sreturn (inv_id invoice)))))"

subsection \<open>Finalizing\<close>

text \<open>
  Step 2 of \<^verbatim>\<open>finalizeInvoice\<close>: every item of the invoice exists and still points back at
  it. Step 3: the business name is set. Steps 4 and 5: the number as a \<^verbatim>\<open>u32\<close>, the frozen
  snapshot and the bound on its total.
\<close>

definition resolve_item :: "string \<Rightarrow> string \<times> billable_item option \<Rightarrow> api_error + billable_item" where
  "resolve_item invoice_id entry =
     (let (i, found) = entry in
      rbind (ok_or (conflict (''Billable item '' @ i @ '' is missing '' @ em_dash @ '' reload and try again'')) found) (\<lambda>it.
        if item_invoice_id it \<noteq> Some invoice_id then Inl invoice_changed else Inr it))"

definition resolve_items ::
    "invoice \<Rightarrow> billable_item option list \<Rightarrow> api_error + billable_item list" where
  "resolve_items invoice fetched = mapM (resolve_item (inv_id invoice)) (zip (inv_item_ids invoice) fetched)"

definition require_business_name :: "org_instance \<Rightarrow> api_error + unit" where
  "require_business_name instance =
     (if unwrap_or [] (map_option trim (inst_business_name instance)) = []
      then Inl (Anyhow ''Complete the invoicing settings first'') else Inr ())"

definition number_u32 :: "nat \<Rightarrow> nat" where
  "number_u32 n = (if n \<le> u32_max then n else u32_max)"

definition final_snapshot ::
    "org_instance \<Rightarrow> project \<Rightarrow> billable_item list \<Rightarrow> nat \<Rightarrow> string \<Rightarrow> api_error + invoice_snapshot" where
  "final_snapshot instance proj items number issue_date =
     (let snapshot = build_snapshot instance proj items (Some number) (Some issue_date)
      in rbind (map_err BadItem (validate_total_within_safe_integer (snap_total_cents snapshot)))
           (\<lambda>_. Inr snapshot))"

definition serialize_snapshot :: "(invoice_snapshot \<Rightarrow> string + string) \<Rightarrow> invoice_snapshot \<Rightarrow> api_error + string" where
  "serialize_snapshot ser snapshot =
     map_err (\<lambda>e. Anyhow (''Failed to serialize invoice snapshot: '' @ e)) (ser snapshot)"

definition finalizable :: "invoice \<Rightarrow> api_error + unit" where
  "finalizable invoice =
     (if inv_status invoice \<noteq> Draft then Inl (conflict ''Invoice is already finalized'')
      else if inv_item_ids invoice = [] then Inl (Anyhow ''Add at least one item before finalizing'')
      else Inr ())"

text \<open>Steps 5 and 6: freeze the snapshot under the allocated number, and write it.\<close>

definition write_final ::
    "(invoice_snapshot \<Rightarrow> string + string) \<Rightarrow> request \<Rightarrow> invoice \<Rightarrow> string \<Rightarrow> string \<Rightarrow> billable_item list
     \<Rightarrow> project \<Rightarrow> org_instance \<Rightarrow> nat \<Rightarrow> store \<Rightarrow> (api_error + invoice) \<times> store" where
  "write_final ser rq invoice user issue_date items project instance allocated =
     sbind (slift (final_snapshot instance project items (number_u32 allocated) issue_date)) (\<lambda>snapshot.
     sbind (slift (serialize_snapshot ser snapshot)) (\<lambda>snapshot_json.
     sbind (db_call (finalize_invoice (rq_db rq) (rq_now rq) (inv_id invoice) (inv_version invoice)
              (number_u32 allocated) issue_date snapshot_json (snap_total_cents snapshot) user)) (\<lambda>committed.
     sbind (sensure committed invoice_changed) (\<lambda>_.
     sreturn (invoice\<lparr>inv_status := Finalized, inv_version := inv_version invoice + 1,
       inv_number := Some (number_u32 allocated), inv_issue_date := Some issue_date,
       inv_snapshot := Some snapshot_json, inv_total_cents := Some (snap_total_cents snapshot),
       inv_finalized_at := Some (rq_now_end rq), inv_finalized_by_user_id := Some user,
       inv_updated_at := rq_now_end rq\<rparr>)))))"

definition m_finalize_invoice ::
    "(invoice_snapshot \<Rightarrow> string + string) \<Rightarrow> request \<Rightarrow> string \<Rightarrow> string \<Rightarrow> store
     \<Rightarrow> (api_error + invoice) \<times> store" where
  "m_finalize_invoice ser rq invoice_id issue_date_arg =
     sbind (sread (require_invoice_member rq invoice_id)) (\<lambda>invoice.
     sbind (slift (current_user rq)) (\<lambda>user.
     sbind (slift (finalizable invoice)) (\<lambda>_.
     sbind (slift (map_err BadItem (validate_item_date (rq_canon rq) issue_date_arg))) (\<lambda>issue_date.
     sbind (sread (get_billable_items_consistent rq (inv_item_ids invoice))) (\<lambda>fetched.
     sbind (slift (resolve_items invoice fetched)) (\<lambda>items.
     sbind (slift (load_project rq (inv_project_id invoice))) (\<lambda>project.
     sbind (slift (load_instance rq (inv_instance_id invoice))) (\<lambda>instance.
     sbind (slift (require_business_name instance)) (\<lambda>_.
     sbind (db_call (increment_invoice_counter (rq_db rq) (inv_instance_id invoice)))
       (write_final ser rq invoice user issue_date items project instance))))))))))"

subsection \<open>Finalized invoices\<close>

definition m_set_invoice_paid ::
    "request \<Rightarrow> string \<Rightarrow> string option \<Rightarrow> store \<Rightarrow> (api_error + invoice) \<times> store" where
  "m_set_invoice_paid rq invoice_id paid_date =
     sbind (sread (require_invoice_member rq invoice_id)) (\<lambda>invoice.
     sbind (sensure (inv_status invoice = Finalized)
              (conflict ''Only a finalized invoice can be marked paid'')) (\<lambda>_.
     sbind (slift (case paid_date of
                None \<Rightarrow> Inr None
              | Some d \<Rightarrow> map_err BadItem (rbind (validate_item_date (rq_canon rq) d) (\<lambda>v. Inr (Some v))))) (\<lambda>validated.
     sbind (db_call (set_invoice_paid (rq_db rq) (rq_now rq) (inv_id invoice) validated)) (\<lambda>committed.
     sbind (sensure committed invoice_changed) (\<lambda>_.
     sreturn (invoice\<lparr>inv_paid_date := validated, inv_updated_at := rq_now_end rq\<rparr>))))))"

text \<open>
  Storage and the PDF renderer are parameters: \<open>de\<close> is the JSON parser, \<open>render\<close> the
  renderer, \<open>put\<close> and \<open>presign\<close> the calls of the storage handler.
\<close>

record pdf_env =
  pdf_de :: "string \<Rightarrow> string + invoice_snapshot"
  pdf_render :: "invoice_snapshot \<Rightarrow> string + string"
  pdf_put :: "string \<Rightarrow> string \<Rightarrow> string + unit"
  pdf_presign :: "string \<Rightarrow> string \<Rightarrow> string + string"

definition pdf_filename :: "invoice \<Rightarrow> string" where
  "pdf_filename invoice =
     ''Invoice-'' @ (case inv_number invoice of None \<Rightarrow> ''unknown'' | Some n \<Rightarrow> pad0 3 (show_nat n)) @ ''.pdf''"

definition pdf_key :: "invoice \<Rightarrow> string" where
  "pdf_key invoice =
     ''invoices/'' @ inv_instance_id invoice @ ''/'' @ inv_id invoice @ ''/'' @ pdf_filename invoice"

definition m_download_invoice_pdf ::
    "pdf_env \<Rightarrow> request \<Rightarrow> string \<Rightarrow> store \<Rightarrow> (api_error + string) \<times> store" where
  "m_download_invoice_pdf p rq invoice_id =
     sbind (sread (require_invoice_member rq invoice_id)) (\<lambda>invoice.
     sbind (sensure (inv_status invoice = Finalized)
              (conflict ''Only a finalized invoice can be downloaded'')) (\<lambda>_.
     sbind (case inv_pdf_s3_key invoice of
              Some key \<Rightarrow> sreturn key
            | None \<Rightarrow>
               sbind (slift (ok_or (Anyhow (''Finalized invoice '' @ inv_id invoice @ '' is missing its snapshot''))
                        (inv_snapshot invoice))) (\<lambda>json.
               sbind (slift (map_err (\<lambda>e. Anyhow (''Invoice '' @ inv_id invoice @ '' has a corrupt snapshot: '' @ e))
                        (pdf_de p json))) (\<lambda>snapshot.
               sbind (slift (map_err Anyhow (pdf_render p snapshot))) (\<lambda>bytes.
               sbind (slift (map_err Anyhow (pdf_put p (pdf_key invoice) bytes))) (\<lambda>_.
               sbind (db_call (set_invoice_pdf_key (rq_db rq) (inv_id invoice) (pdf_key invoice))) (\<lambda>_.
               sreturn (pdf_key invoice))))))) (\<lambda>key.
     slift (map_err Anyhow (pdf_presign p key (pdf_filename invoice))))))"

definition m_set_next_invoice_number ::
    "request \<Rightarrow> string \<Rightarrow> int \<Rightarrow> store \<Rightarrow> (api_error + org_instance) \<times> store" where
  "m_set_next_invoice_number rq instance_id next =
     sbind (slift (guard_check (RequireInstanceOwnerOrSuperuser instance_id) (rq_auth rq))) (\<lambda>_.
     sbind (slift (load_instance rq instance_id)) (\<lambda>instance.
     sbind (slift (map_err BadKind (require_instance_kind instance Invoicing))) (\<lambda>_.
     sbind (sensure (1 \<le> next) (Anyhow ''next must be at least 1'')) (\<lambda>_.
     sbind (db_call (set_next_invoice_number (rq_db rq) (inst_id instance) (nat (next - 1)))) (\<lambda>committed.
     sbind (sensure committed (conflict ''The next invoice number can only move forward'')) (\<lambda>_.
     sreturn instance))))))"

subsection \<open>Validation of item ids\<close>

lemma distinct_ids_iff:
  "distinct_ids seen ids = Inr out \<longleftrightarrow> out = ids \<and> distinct ids \<and> set ids \<inter> set seen = {}"
  by (induction ids arbitrary: seen out) auto

lemma removable_ids_iff:
  "removable_ids current seen ids = Inr out \<longleftrightarrow>
     out = ids \<and> distinct ids \<and> set ids \<inter> set seen = {} \<and> set ids \<subseteq> set current"
  by (induction ids arbitrary: seen out) auto

lemma check_total_of:
  assumes "list_all valid_item items" "length items \<le> 50"
  shows "check_invoice_total_within_safe_integer items (inst_gst_registered i)
    = map_err BadItem (validate_total_within_safe_integer (snap_total_cents (build_snapshot i p items n d)))"
proof -
  note t = snapshot_totals_of [OF assms]
  have eq: "map item_amount items = map exact_amount items"
    using assms(1) item_amount_exact by (auto simp: list_all_iff)
  define S where "S = sum_list (map exact_amount items)"
  have S: "sum_i64 (map item_amount items) = S" using sum_amounts_exact [OF assms] by (simp add: eq S_def)
  have b: "0 \<le> S" "S \<le> 50000000000000000" using t(4,5) by (simp_all add: S_def)
  have g: "gst_cents S = (S + 5) div 10" using b by (intro gst_exact) (simp_all add: i64_max_def)
  have "clamp_i64 (S + (S + 5) div 10) = S + (S + 5) div 10" "clamp_i64 S = S"
    using b by (auto intro!: clamp_i64_id in_i64I)
  then show ?thesis
    using t(3) [of i p n d]
    by (simp add: check_invoice_total_within_safe_integer_def item_amount_eta S g flip: S_def)
qed

end
