(* ===== verification/Invoice_System.thy ===== *)
theory Invoice_System
  imports Ledger Invoice_Mutations
begin

section \<open>Invoices under concurrency\<close>

text \<open>
  Any number of requests run at once, and each of their database calls is a step of its own.
  A state is the database together with what the running requests have in hand: the invoices
  their consistent reads returned, the item rows a finalize read for an invoice it holds, the
  numbers taken from a counter and not yet written, and every id ever drawn. A step is one
  read, or the commit of the requests of one operation, with arguments that some request can
  hold: the invoice value passed to \<^verbatim>\<open>addInvoiceItems\<close> is one that was read earlier, at any
  time. Steps of other requests may come in between, so the handlers of
  \<^verbatim>\<open>graphql/mutations.rs\<close> are interleaved at every database call. The only assumption on the
  environment is in \<open>create\<close>: a nanoid is an id that was not drawn before.
\<close>

record sys =
  sy_db :: store
  sy_reads :: "invoice set"
  sy_items :: "(invoice \<times> billable_item) set"
  sy_numbers :: "(string \<times> nat) set"
  sy_used :: "string set"

text \<open>The rows a finalize resolved: each item of the invoice, read for it and still attached.\<close>

definition resolved :: "sys \<Rightarrow> invoice \<Rightarrow> billable_item list \<Rightarrow> bool" where
  "resolved c v xs \<longleftrightarrow>
     list_all2 (\<lambda>i x. (v, x) \<in> sy_items c \<and> item_id x = i \<and> item_invoice_id x = Some (inv_id v))
       (inv_item_ids v) xs"

definition allocated_number :: "string \<Rightarrow> store \<Rightarrow> (string \<times> nat) set" where
  "allocated_number i s =
     (case u64_attr (counters s i) ''next_invoice_number'' of None \<Rightarrow> {} | Some n \<Rightarrow> {(i, n)})"

inductive step ::
    "(string list \<Rightarrow> string list) \<Rightarrow> (invoice_snapshot \<Rightarrow> string + string) \<Rightarrow> sys \<Rightarrow> sys \<Rightarrow> bool"
  for ss ser where
  read_invoice:
    "hydrated hydrate_invoice (invoices (sy_db c) k) = Inr (Some v) \<Longrightarrow>
       step ss ser c (c\<lparr>sy_reads := insert v (sy_reads c)\<rparr>)"
| read_item:
    "v \<in> sy_reads c \<Longrightarrow> hydrated hydrate_billable_item (items (sy_db c) k) = Inr (Some x) \<Longrightarrow>
       step ss ser c (c\<lparr>sy_items := insert (v, x) (sy_items c)\<rparr>)"
| create_item:
    "i \<notin> sy_used c \<Longrightarrow> commits ss (sy_db c) [create_billable_item_req i now inst p f u] s' \<Longrightarrow>
       step ss ser c (c\<lparr>sy_db := s', sy_used := insert i (sy_used c)\<rparr>)"
| update_unbilled:
    "commits ss (sy_db c) [update_unbilled_req x f now] s' \<Longrightarrow> step ss ser c (c\<lparr>sy_db := s'\<rparr>)"
| update_billed:
    "commits ss (sy_db c) (update_billed_reqs x k f now) s' \<Longrightarrow> step ss ser c (c\<lparr>sy_db := s'\<rparr>)"
| delete_item:
    "commits ss (sy_db c) [delete_billable_item_req x] s' \<Longrightarrow> step ss ser c (c\<lparr>sy_db := s'\<rparr>)"
| create:
    "i \<notin> sy_used c \<Longrightarrow> commits ss (sy_db c) (create_invoice_reqs ss i now inst p ids u) s' \<Longrightarrow>
       step ss ser c (c\<lparr>sy_db := s', sy_used := insert i (sy_used c)\<rparr>)"
| add_items:
    "v \<in> sy_reads c \<Longrightarrow>
     commits ss (sy_db c) (add_invoice_items_reqs now (inv_id v) (inv_project_id v) ids (inv_version v)) s' \<Longrightarrow>
       step ss ser c (c\<lparr>sy_db := s'\<rparr>)"
| remove_items:
    "v \<in> sy_reads c \<Longrightarrow>
     commits ss (sy_db c) (remove_invoice_items_reqs now (inv_id v) ids (inv_version v)) s' \<Longrightarrow>
       step ss ser c (c\<lparr>sy_db := s'\<rparr>)"
| delete:
    "v \<in> sy_reads c \<Longrightarrow>
     commits ss (sy_db c) (delete_invoice_reqs (inv_id v) (inv_item_ids v) (inv_version v)) s' \<Longrightarrow>
       step ss ser c (c\<lparr>sy_db := s'\<rparr>)"
| allocate:
    "commits ss (sy_db c) [increment_counter_req i] s' \<Longrightarrow>
       step ss ser c (c\<lparr>sy_db := s', sy_numbers := sy_numbers c \<union> allocated_number i s'\<rparr>)"
| set_next:
    "commits ss (sy_db c) [set_next_invoice_number_req i n] s' \<Longrightarrow> step ss ser c (c\<lparr>sy_db := s'\<rparr>)"
| finalize:
    "v \<in> sy_reads c \<Longrightarrow> finalizable v = Inr () \<Longrightarrow> resolved c v xs \<Longrightarrow>
     (inv_instance_id v, n) \<in> sy_numbers c \<Longrightarrow>
     final_snapshot inst proj xs (number_u32 n) date = Inr snap \<Longrightarrow> ser snap = Inr json \<Longrightarrow>
     commits ss (sy_db c)
       [finalize_invoice_req now (inv_id v) (inv_version v) (number_u32 n) date json (snap_total_cents snap) u] s' \<Longrightarrow>
       step ss ser c (c\<lparr>sy_db := s', sy_numbers := sy_numbers c - {(inv_instance_id v, n)}\<rparr>)"
| set_paid:
    "commits ss (sy_db c) [set_invoice_paid_req now k d] s' \<Longrightarrow> step ss ser c (c\<lparr>sy_db := s'\<rparr>)"
| set_pdf_key:
    "commits ss (sy_db c) [set_invoice_pdf_key_req k key] s' \<Longrightarrow> step ss ser c (c\<lparr>sy_db := s'\<rparr>)"
| other:
    "invoices s' = invoices (sy_db c) \<Longrightarrow> items s' = items (sy_db c) \<Longrightarrow>
     (\<And>i. counter_of (counters s') i = counter_of (counters (sy_db c)) i) \<Longrightarrow>
       step ss ser c (c\<lparr>sy_db := s'\<rparr>)"

text \<open>The database starts without invoices and items, and no request holds anything.\<close>

definition init_sys :: "sys \<Rightarrow> bool" where
  "init_sys c \<longleftrightarrow>
     invoices (sy_db c) = Map.empty \<and> items (sy_db c) = Map.empty
     \<and> sy_reads c = {} \<and> sy_items c = {} \<and> sy_numbers c = {}"

inductive reachable ::
    "(string list \<Rightarrow> string list) \<Rightarrow> (invoice_snapshot \<Rightarrow> string + string) \<Rightarrow> sys \<Rightarrow> bool"
  for ss ser where
  start: "init_sys c \<Longrightarrow> reachable ss ser c"
| more: "reachable ss ser c \<Longrightarrow> step ss ser c c' \<Longrightarrow> reachable ss ser c'"

inductive steps ::
    "(string list \<Rightarrow> string list) \<Rightarrow> (invoice_snapshot \<Rightarrow> string + string) \<Rightarrow> sys \<Rightarrow> sys \<Rightarrow> bool"
  for ss ser where
  none: "steps ss ser c c"
| snoc: "steps ss ser c d \<Longrightarrow> step ss ser d e \<Longrightarrow> steps ss ser c e"

subsection \<open>The invariant\<close>

definition used_ok :: "sys \<Rightarrow> bool" where
  "used_ok c \<longleftrightarrow>
     (\<forall>k. invoices (sy_db c) k \<noteq> None \<longrightarrow> k \<in> sy_used c)
     \<and> (\<forall>x. items (sy_db c) x \<noteq> None \<longrightarrow> x \<in> sy_used c)
     \<and> (\<forall>v \<in> sy_reads c. inv_id v \<in> sy_used c \<and> distinct (inv_item_ids v))
     \<and> (\<forall>v x. (v, x) \<in> sy_items c \<longrightarrow> v \<in> sy_reads c)"

text \<open>An invoice value read earlier, against the row of today.\<close>

definition read_ok :: "invoice \<Rightarrow> item \<Rightarrow> bool" where
  "read_ok v it \<longleftrightarrow>
     it ''instance_id'' = Some (AS (inv_instance_id v)) \<and> int (inv_version v) \<le> version_of it
     \<and> (version_of it = int (inv_version v) \<longrightarrow> ids_in it = set (inv_item_ids v))"

definition reads_ok :: "sys \<Rightarrow> bool" where
  "reads_ok c \<longleftrightarrow>
     (\<forall>v \<in> sy_reads c. \<forall>it. invoices (sy_db c) (inv_id v) = Some it \<longrightarrow> read_ok v it)"

definition row_is :: "table \<Rightarrow> string \<Rightarrow> billable_item \<Rightarrow> bool" where
  "row_is B i x \<longleftrightarrow> (\<exists>r. B i = Some r \<and> hydrate_billable_item r = Inr x)"

definition items_ok :: "sys \<Rightarrow> bool" where
  "items_ok c \<longleftrightarrow>
     (\<forall>v x it. (v, x) \<in> sy_items c \<longrightarrow> invoices (sy_db c) (inv_id v) = Some it \<longrightarrow>
        version_of it = int (inv_version v) \<longrightarrow> item_invoice_id x = Some (inv_id v) \<longrightarrow>
        row_is (items (sy_db c)) (item_id x) x)"

text \<open>
  What a finalized invoice froze: the snapshot in its row is the serialised snapshot of its
  items as their rows are now, under the number, date and total in its row.
\<close>

definition snapshot_of_rows ::
    "(invoice_snapshot \<Rightarrow> string + string) \<Rightarrow> table \<Rightarrow> item \<Rightarrow> bool" where
  "snapshot_of_rows ser B it \<longleftrightarrow>
     (\<exists>inst proj ids xs n date snap json.
        ids \<noteq> [] \<and> distinct ids \<and> set ids = ids_in it \<and> list_all2 (row_is B) ids xs
        \<and> final_snapshot inst proj xs n date = Inr snap \<and> ser snap = Inr json
        \<and> it ''number'' = Some (AN (int n)) \<and> it ''issue_date'' = Some (AS date)
        \<and> it ''snapshot'' = Some (AS json) \<and> it ''total_cents'' = Some (AN (snap_total_cents snap)))"

definition frozen_ok :: "(invoice_snapshot \<Rightarrow> string + string) \<Rightarrow> sys \<Rightarrow> bool" where
  "frozen_ok ser c \<longleftrightarrow>
     (\<forall>k it. invoices (sy_db c) k = Some it \<longrightarrow> is_final it \<longrightarrow> snapshot_of_rows ser (items (sy_db c)) it)"

definition pending_ok :: "sys \<Rightarrow> bool" where
  "pending_ok c \<longleftrightarrow>
     (\<forall>i n. (i, n) \<in> sy_numbers c \<longrightarrow>
        (\<exists>m. counter_of (counters (sy_db c)) i = Some m \<and> int n \<le> m))"

text \<open>
  A number below \<^verbatim>\<open>u32::MAX\<close> in a row was given out by the counter, and to that row only. At
  \<^verbatim>\<open>u32::MAX\<close> the code's \<^verbatim>\<open>unwrap_or(u32::MAX)\<close> gives every further invoice the same number.
\<close>

definition has_number :: "sys \<Rightarrow> string \<Rightarrow> string \<Rightarrow> nat \<Rightarrow> bool" where
  "has_number c k i n \<longleftrightarrow>
     (\<exists>it. invoices (sy_db c) k = Some it \<and> it ''instance_id'' = Some (AS i)
        \<and> it ''number'' = Some (AN (int n)))"

definition numbers_ok :: "sys \<Rightarrow> bool" where
  "numbers_ok c \<longleftrightarrow>
     (\<forall>k i n. has_number c k i n \<longrightarrow> n < u32_max \<longrightarrow>
        (\<exists>m. counter_of (counters (sy_db c)) i = Some m \<and> int n \<le> m) \<and> (i, n) \<notin> sy_numbers c)
     \<and> (\<forall>j k i n. has_number c j i n \<longrightarrow> has_number c k i n \<longrightarrow> n < u32_max \<longrightarrow> j = k)"

definition sys_ok :: "(invoice_snapshot \<Rightarrow> string + string) \<Rightarrow> sys \<Rightarrow> bool" where
  "sys_ok ser c \<longleftrightarrow>
     ledger_ok (invoices (sy_db c)) (items (sy_db c)) \<and> used_ok c \<and> reads_ok c \<and> items_ok c
     \<and> frozen_ok ser c \<and> pending_ok c \<and> numbers_ok c"

lemma init_ok: "init_sys c \<Longrightarrow> sys_ok ser c"
  by (simp add: init_sys_def sys_ok_def ledger_ok_def links_def item_owner_def ids_of_def used_ok_def
    reads_ok_def items_ok_def frozen_ok_def pending_ok_def numbers_ok_def has_number_def)

subsection \<open>Reads\<close>

lemma hydrate_invoiceD:
  assumes "hydrate_invoice it = Inr v"
  shows "it ''id'' = Some (AS (inv_id v))" "it ''instance_id'' = Some (AS (inv_instance_id v))"
    "it ''status'' = Some (AS (invoice_status_str (inv_status v)))"
    "\<exists>n. it ''version'' = Some (AN n) \<and> in_i64 n \<and> inv_version v = as_u64 n"
    "string_set_field it ''item_ids'' = Inr (inv_item_ids v)"
  using assms by (auto simp: hydrate_invoice_def dest: parse_invoice_status_SomeD)

lemma hydrate_billable_itemD:
  assumes "hydrate_billable_item r = Inr x"
  shows "r ''id'' = Some (AS (item_id x))" "string_field r ''invoice_id'' = Inr (item_invoice_id x)"
  using assms by (auto simp: hydrate_billable_item_def)

lemma hydrated_Some: "hydrated f r = Inr (Some x) \<longleftrightarrow> (\<exists>it. r = Some it \<and> f it = Inr x)"
  by (auto simp: hydrated_def split: option.splits)

lemma as_u64_i64: "in_i64 n \<Longrightarrow> 0 \<le> n \<Longrightarrow> int (as_u64 n) = n"
  by (simp add: as_u64_def in_i64_def i64_max_def)

lemma read_row:
  assumes "invoice_row_ok k it" "hydrate_invoice it = Inr v"
  shows "inv_id v = k" "version_of it = int (inv_version v)" "ids_in it = set (inv_item_ids v)"
    "distinct (inv_item_ids v)" "it ''instance_id'' = Some (AS (inv_instance_id v))"
proof -
  note h = hydrate_invoiceD [OF assms(2)]
  show "inv_id v = k" using h(1) assms(1) by (simp add: invoice_row_ok_def)
  show "version_of it = int (inv_version v)"
    using h(4) assms(1) as_u64_i64 by (auto simp: version_of_def invoice_row_ok_def)
  show "ids_in it = set (inv_item_ids v)" "distinct (inv_item_ids v)"
    using h(5) assms(1) by (auto simp: ids_in_def invoice_row_ok_def string_set_field_def)
  show "it ''instance_id'' = Some (AS (inv_instance_id v))" by (rule h(2))
qed

lemma row_is_hydrated:
  "row_is B = (\<lambda>i x. hydrated hydrate_billable_item (B i) = Inr (Some x))"
  by (simp add: fun_eq_iff row_is_def hydrated_Some)

lemma final_snapshotD:
  "final_snapshot inst proj xs n date = Inr snap \<Longrightarrow> snap = build_snapshot inst proj xs (Some n) (Some date)"
  by (auto simp: final_snapshot_def Let_def)

lemma row_is_owner:
  assumes "row_is B (item_id x) x" "item_invoice_id x = Some k"
  shows "item_owner B (item_id x) = Some k"
proof -
  obtain r where r: "B (item_id x) = Some r" "hydrate_billable_item r = Inr x"
    using assms(1) by (auto simp: row_is_def)
  have "string_field r ''invoice_id'' = Inr (Some k)" using hydrate_billable_itemD(2) [OF r(2)] assms(2) by simp
  then have "r ''invoice_id'' = Some (AS k)" by (auto simp: string_field_def split: option.splits attr.splits)
  with r(1) show ?thesis by (simp add: item_owner_def)
qed

lemma read_invoice_ok:
  assumes "sys_ok ser c" "hydrated hydrate_invoice (invoices (sy_db c) k) = Inr (Some v)"
  shows "sys_ok ser (c\<lparr>sy_reads := insert v (sy_reads c)\<rparr>)"
proof -
  obtain it where it: "invoices (sy_db c) k = Some it" "hydrate_invoice it = Inr v"
    using assms(2) by (auto simp: hydrated_Some)
  have "invoice_row_ok k it" using assms(1) it(1) by (auto simp: sys_ok_def ledger_ok_def)
  note row = read_row [OF this it(2)]
  have "read_ok v it" using row by (simp add: read_ok_def)
  moreover have "k \<in> sy_used c" using assms(1) it(1) by (auto simp: sys_ok_def used_ok_def)
  ultimately show ?thesis
    using assms(1) row it(1)
    by (auto simp: sys_ok_def used_ok_def reads_ok_def items_ok_def frozen_ok_def pending_ok_def
        numbers_ok_def has_number_def)
qed

lemma read_item_ok:
  assumes "sys_ok ser c" "v \<in> sy_reads c"
    and "hydrated hydrate_billable_item (items (sy_db c) k) = Inr (Some x)"
  shows "sys_ok ser (c\<lparr>sy_items := insert (v, x) (sy_items c)\<rparr>)"
proof -
  obtain r where r: "items (sy_db c) k = Some r" "hydrate_billable_item r = Inr x"
    using assms(3) by (auto simp: hydrated_Some)
  have "item_row_ok k r" using assms(1) r(1) by (auto simp: sys_ok_def ledger_ok_def)
  then have "k = item_id x" using hydrate_billable_itemD(1) [OF r(2)] by (simp add: item_row_ok_def)
  with r have "row_is (items (sy_db c)) (item_id x) x" by (auto simp: row_is_def)
  then show ?thesis
    using assms(1,2)
    by (auto simp: sys_ok_def used_ok_def reads_ok_def items_ok_def frozen_ok_def pending_ok_def
        numbers_ok_def has_number_def)
qed

subsection \<open>Changes to drafts\<close>

lemma draft_changeD:
  assumes "draft_change ko I B I' B'"
  shows "ko \<noteq> Some k \<Longrightarrow> I' k = I k"
    and "B' x \<noteq> B x \<Longrightarrow> item_owner B x = None \<or> item_owner B x = ko"
    and "I k = Some it \<Longrightarrow> is_final it \<Longrightarrow> I' k = Some it"
    and "I' k = Some it' \<Longrightarrow> is_final it' \<Longrightarrow> I k = Some it'"
    and "I' k = Some it' \<Longrightarrow> I k = Some it \<Longrightarrow> it' \<noteq> it \<Longrightarrow>
      ko = Some k \<and> version_of it < version_of it' \<and> it' ''instance_id'' = it ''instance_id''"
    and "I' k = Some it' \<Longrightarrow> it' ''number'' = Some n \<Longrightarrow> I k = Some it'"
proof -
  note d = assms [unfolded draft_change_def]
  show same: "I' k = I k" if "ko \<noteq> Some k" for k using d that by blast
  show "item_owner B x = None \<or> item_owner B x = ko" if "B' x \<noteq> B x" using d that by auto
  show "I' k = Some it" if "I k = Some it" "is_final it"
    using d that same by (metis not_draft_final(2))
  show "I k = Some it'" if "I' k = Some it'" "is_final it'"
    using d that same by (metis not_draft_final(2))
  show "ko = Some k \<and> version_of it < version_of it' \<and> it' ''instance_id'' = it ''instance_id''"
    if "I' k = Some it'" "I k = Some it" "it' \<noteq> it"
  proof -
    have ko: "ko = Some k" using same [of k] that by (cases "ko = Some k") auto
    with d that have "same_core it it'" "version_of it < version_of it'" by blast+
    with ko show ?thesis by (simp add: same_core_def)
  qed
  show "I k = Some it'" if "I' k = Some it'" "it' ''number'' = Some n"
  proof (cases "ko = Some k")
    case True
    with d that have "it' ''number'' = None" by blast
    with that show ?thesis by simp
  qed (use same that in simp)
qed

lemma owned_rows_kept:
  assumes "draft_change ko I B I' B'" "item_owner B x = Some k" "ko \<noteq> Some k"
  shows "B' x = B x"
  using draft_changeD(2) [OF assms(1)] assms(2,3) by (metis option.distinct(1))

lemma sys_okD:
  assumes "sys_ok ser c"
  shows "ledger_ok (invoices (sy_db c)) (items (sy_db c))" "used_ok c" "reads_ok c" "items_ok c"
    "frozen_ok ser c" "pending_ok c" "numbers_ok c"
  using assms by (simp_all add: sys_ok_def)

lemma sys_okI:
  assumes "ledger_ok (invoices (sy_db c)) (items (sy_db c))" "used_ok c" "reads_ok c" "items_ok c"
    "frozen_ok ser c" "pending_ok c" "numbers_ok c"
  shows "sys_ok ser c"
  using assms by (simp add: sys_ok_def)

lemma snapshot_of_rows_cong:
  assumes "snapshot_of_rows ser B it" "\<And>i. i \<in> ids_in it \<Longrightarrow> B' i = B i"
    and "ids_in it' = ids_in it" "it' ''number'' = it ''number''" "it' ''issue_date'' = it ''issue_date''"
      "it' ''snapshot'' = it ''snapshot''" "it' ''total_cents'' = it ''total_cents''"
  shows "snapshot_of_rows ser B' it'"
proof -
  obtain inst proj ids xs n date snap json where a:
      "ids \<noteq> []" "distinct ids" "set ids = ids_in it" "list_all2 (row_is B) ids xs"
      "final_snapshot inst proj xs n date = Inr snap" "ser snap = Inr json"
      "it ''number'' = Some (AN (int n))" "it ''issue_date'' = Some (AS date)"
      "it ''snapshot'' = Some (AS json)" "it ''total_cents'' = Some (AN (snap_total_cents snap))"
    using assms(1) unfolding snapshot_of_rows_def by blast
  have same: "B' i = B i" if "i \<in> set ids" for i using assms(2) a(3) that by blast
  have "row_is B i x \<Longrightarrow> row_is B' i x" if "i \<in> set ids" for i x using same [OF that] by (simp add: row_is_def)
  then have "list_all2 (row_is B') ids xs" using a(4) by (auto simp: list_all2_conv_all_nth)
  with a assms(3-) show ?thesis unfolding snapshot_of_rows_def by metis
qed

lemma numbers_ok_mono:
  assumes "numbers_ok c" "\<And>k i n. has_number c' k i n \<Longrightarrow> has_number c k i n"
    and "\<And>i. counter_of (counters (sy_db c')) i = counter_of (counters (sy_db c)) i"
    and "sy_numbers c' \<subseteq> sy_numbers c"
  shows "numbers_ok c'"
  unfolding numbers_ok_def
proof (intro conjI allI impI)
  fix k i n assume n: "has_number c' k i n" "n < u32_max"
  show "\<exists>m. counter_of (counters (sy_db c')) i = Some m \<and> int n \<le> m"
    using assms(1) assms(2) [OF n(1)] n(2) unfolding numbers_ok_def assms(3) by blast
  show "(i, n) \<notin> sy_numbers c'"
    using assms(1) assms(2) [OF n(1)] n(2) assms(4) unfolding numbers_ok_def by blast
next
  fix j k i n assume n: "has_number c' j i n" "has_number c' k i n" "n < u32_max"
  show "j = k"
    using assms(1) assms(2) [OF n(1)] assms(2) [OF n(2)] n(3) unfolding numbers_ok_def by blast
qed

lemma draft_step_ok:
  assumes ok: "sys_ok ser c" and st: "ledger_step ko (sy_db c) s'" and U: "sy_used c \<subseteq> U"
    and newk: "\<And>k. invoices s' k \<noteq> None \<Longrightarrow> invoices (sy_db c) k \<noteq> None \<or> k \<in> U - sy_used c"
    and newx: "\<And>x. items s' x \<noteq> None \<Longrightarrow> items (sy_db c) x \<noteq> None \<or> x \<in> U"
  shows "sys_ok ser (c\<lparr>sy_db := s', sy_used := U\<rparr>)"
proof -
  let ?I = "invoices (sy_db c)" and ?B = "items (sy_db c)" and ?I' = "invoices s'" and ?B' = "items s'"
  note inv = sys_okD [OF ok]
  from st inv(1) have L': "ledger_ok ?I' ?B'" and d: "draft_change ko ?I ?B ?I' ?B'"
    and C: "counters s' = counters (sy_db c)" by (auto simp: ledger_step_def)
  note ch = draft_changeD [OF d]
  have old: "\<exists>it. ?I k = Some it" if "?I' k = Some it'" "k \<in> sy_used c" for k it'
    using newk [of k] that by auto
  show ?thesis
  proof (rule sys_okI, simp_all)
    show "ledger_ok ?I' ?B'" by (rule L')
    show "used_ok (c\<lparr>sy_db := s', sy_used := U\<rparr>)"
    proof -
      have "k \<in> U" if "?I' k = Some it" for k it using newk [of k] that inv(2) U by (auto simp: used_ok_def)
      moreover have "x \<in> U" if "?B' x = Some r" for x r
        using newx [of x] that inv(2) U by (auto simp: used_ok_def)
      ultimately show ?thesis using inv(2) U by (auto simp: used_ok_def)
    qed
    show "reads_ok (c\<lparr>sy_db := s', sy_used := U\<rparr>)"
      unfolding reads_ok_def
    proof (intro ballI allI impI, simp)
      fix v it' assume v: "v \<in> sy_reads c" and it': "?I' (inv_id v) = Some it'"
      have "inv_id v \<in> sy_used c" using inv(2) v by (auto simp: used_ok_def)
      then obtain it where it: "?I (inv_id v) = Some it" using old [OF it'] by blast
      have r: "read_ok v it" using inv(3) v it by (auto simp: reads_ok_def)
      show "read_ok v it'"
      proof (cases "it' = it")
        case False
        with ch(5) [OF it' it] r show ?thesis by (auto simp: read_ok_def)
      qed (use r in simp)
    qed
    show "items_ok (c\<lparr>sy_db := s', sy_used := U\<rparr>)"
      unfolding items_ok_def
    proof (intro allI impI, simp)
      fix v x it' assume vx: "(v, x) \<in> sy_items c" and it': "?I' (inv_id v) = Some it'"
        and ver: "version_of it' = int (inv_version v)" and own: "item_invoice_id x = Some (inv_id v)"
      have v: "v \<in> sy_reads c" using inv(2) vx by (auto simp: used_ok_def)
      then have "inv_id v \<in> sy_used c" using inv(2) by (auto simp: used_ok_def)
      then obtain it where it: "?I (inv_id v) = Some it" using old [OF it'] by blast
      have "int (inv_version v) \<le> version_of it" using inv(3) v it by (auto simp: reads_ok_def read_ok_def)
      with ch(5) [OF it' it] ver have same: "it' = it" by fastforce
      then have row: "row_is ?B (item_id x) x" using inv(4) vx it ver own by (auto simp: items_ok_def)
      have "ko \<noteq> Some (inv_id v)"
        using d it it' same unfolding draft_change_def by (metis less_irrefl)
      then have "?B' (item_id x) = ?B (item_id x)"
        using owned_rows_kept [OF d row_is_owner [OF row own]] by blast
      with row show "row_is ?B' (item_id x) x" by (simp add: row_is_def)
    qed
    show "frozen_ok ser (c\<lparr>sy_db := s', sy_used := U\<rparr>)"
      unfolding frozen_ok_def
    proof (intro allI impI, simp)
      fix k it assume it': "?I' k = Some it" and f: "is_final it"
      have it: "?I k = Some it" using ch(4) [OF it' f] .
      have "snapshot_of_rows ser ?B it" using inv(5) it f by (auto simp: frozen_ok_def)
      moreover have "?B' i = ?B i" if "i \<in> ids_in it" for i
      proof -
        have "item_owner ?B i = Some k" using ledger_okD(3) [OF inv(1), of i k] it that by simp
        moreover have "ko \<noteq> Some k" using d it f unfolding draft_change_def by (metis not_draft_final(2))
        ultimately show ?thesis using owned_rows_kept [OF d] by blast
      qed
      ultimately show "snapshot_of_rows ser ?B' it" by (rule snapshot_of_rows_cong) simp_all
    qed
    show "pending_ok (c\<lparr>sy_db := s', sy_used := U\<rparr>)" using inv(6) C by (simp add: pending_ok_def)
    have "has_number c k i n" if "has_number (c\<lparr>sy_db := s', sy_used := U\<rparr>) k i n" for k i n
      using that ch(6) by (auto simp: has_number_def)
    then show "numbers_ok (c\<lparr>sy_db := s', sy_used := U\<rparr>)"
      by (intro numbers_ok_mono [OF inv(7)]) (simp_all add: C)
  qed
qed

subsection \<open>Finalizing and later\<close>

text \<open>An invoice row changes without its items, and only forward.\<close>

lemma invoice_row_step:
  assumes ok: "sys_ok ser c" and k: "invoices (sy_db c) k = Some it"
    and I: "invoices s' = (invoices (sy_db c))(k \<mapsto> it')" and B: "items s' = items (sy_db c)"
    and L: "ledger_ok (invoices s') (items s')"
    and same: "it' ''instance_id'' = it ''instance_id''" "ids_in it' = ids_in it" "version_of it \<le> version_of it'"
    and c': "sy_db c' = s'" "sy_used c' = sy_used c" "sy_reads c' = sy_reads c" "sy_items c' = sy_items c"
    and fin: "is_final it' \<Longrightarrow> snapshot_of_rows ser (items (sy_db c)) it'"
    and num: "pending_ok c'" "numbers_ok c'"
  shows "sys_ok ser c'"
proof (rule sys_okI)
  note inv = sys_okD [OF ok]
  show "ledger_ok (invoices (sy_db c')) (items (sy_db c'))" using L c' by simp
  show "used_ok c'" using inv(2) k by (auto simp: used_ok_def c' I B)
  show "reads_ok c'"
    unfolding reads_ok_def c' I
  proof (intro ballI allI impI)
    fix v q assume v: "v \<in> sy_reads c" and q: "((invoices (sy_db c))(k \<mapsto> it')) (inv_id v) = Some q"
    show "read_ok v q"
    proof (cases "inv_id v = k")
      case True
      with inv(3) v k have "read_ok v it" by (auto simp: reads_ok_def)
      with True q same show ?thesis by (auto simp: read_ok_def)
    next
      case False
      with inv(3) v q show ?thesis by (auto simp: reads_ok_def)
    qed
  qed
  show "items_ok c'"
    unfolding items_ok_def c' I B
  proof (intro allI impI)
    fix v x q
    assume vx: "(v, x) \<in> sy_items c" and q: "((invoices (sy_db c))(k \<mapsto> it')) (inv_id v) = Some q"
      and ver: "version_of q = int (inv_version v)" and own: "item_invoice_id x = Some (inv_id v)"
    have v: "v \<in> sy_reads c" using inv(2) vx by (auto simp: used_ok_def)
    show "row_is (items (sy_db c)) (item_id x) x"
    proof (cases "inv_id v = k")
      case True
      with inv(3) v k have "int (inv_version v) \<le> version_of it" by (auto simp: reads_ok_def read_ok_def)
      with True q same(3) ver have "version_of it = int (inv_version v)" by simp
      with inv(4) vx k True own show ?thesis by (auto simp: items_ok_def)
    next
      case False
      with inv(4) vx q ver own show ?thesis by (auto simp: items_ok_def)
    qed
  qed
  show "frozen_ok ser c'"
    using inv(5) fin unfolding frozen_ok_def c' I B by (auto split: if_splits)
qed (use num in simp_all)

lemma pending_mono:
  assumes "pending_ok c" "sy_numbers c' \<subseteq> sy_numbers c"
    and "\<And>i. counter_of (counters (sy_db c')) i = counter_of (counters (sy_db c)) i"
  shows "pending_ok c'"
  using assms unfolding pending_ok_def by (simp add: subset_iff)

lemma touch_ok:
  assumes ok: "sys_ok ser c" and k: "invoices (sy_db c) k = Some it" and f: "is_final it" and t: "touched it it'"
    and I: "invoices s' = (invoices (sy_db c))(k \<mapsto> it')" and B: "items s' = items (sy_db c)"
    and C: "counters s' = counters (sy_db c)"
  shows "sys_ok ser (c\<lparr>sy_db := s'\<rparr>)"
proof (rule invoice_row_step [OF ok k I B])
  note inv = sys_okD [OF ok] and d = touchedD [OF t]
  show "ledger_ok (invoices s') (items s')" unfolding I B by (rule touched_ok [OF inv(1) k t])
  show ids: "ids_in it' = ids_in it" using d by (simp add: ids_in_def)
  show "version_of it \<le> version_of it'" using d by (simp add: version_of_def)
  have "snapshot_of_rows ser (items (sy_db c)) it" using inv(5) k f by (auto simp: frozen_ok_def)
  then show "snapshot_of_rows ser (items (sy_db c)) it'"
    by (rule snapshot_of_rows_cong) (simp_all add: ids d)
  show "pending_ok (c\<lparr>sy_db := s'\<rparr>)" by (rule pending_mono [OF inv(6)]) (simp_all add: C)
  have "has_number c j i n" if "has_number (c\<lparr>sy_db := s'\<rparr>) j i n" for j i n
    using that k d by (auto simp: has_number_def I split: if_splits)
  then show "numbers_ok (c\<lparr>sy_db := s'\<rparr>)" by (intro numbers_ok_mono [OF inv(7)]) (simp_all add: C)
qed (simp_all add: touchedD [OF t])

lemma finalize_ok:
  assumes ok: "sys_ok ser c" and v: "v \<in> sy_reads c" and fz: "finalizable v = Inr ()" and xs: "resolved c v xs"
    and n: "(inv_instance_id v, n) \<in> sy_numbers c"
    and snap: "final_snapshot inst proj xs (number_u32 n) date = Inr snap" and json: "ser snap = Inr json"
    and cm: "commits ss (sy_db c)
      [finalize_invoice_req now (inv_id v) (inv_version v) (number_u32 n) date json (snap_total_cents snap) u] s'"
  shows "sys_ok ser (c\<lparr>sy_db := s', sy_numbers := sy_numbers c - {(inv_instance_id v, n)}\<rparr>)"
    (is "sys_ok ser ?c'")
proof -
  note inv = sys_okD [OF ok]
  let ?k = "inv_id v" and ?B = "items (sy_db c)"
  obtain it where it: "invoices (sy_db c) ?k = Some it" "is_draft it" "it ''version'' = Some (AN (int (inv_version v)))"
    and I: "invoices s' = (invoices (sy_db c))(?k \<mapsto>
      final_row now (int (inv_version v)) (number_u32 n) date json (snap_total_cents snap) u it)"
    and B: "items s' = ?B" and C: "counters s' = counters (sy_db c)"
    using finalize_effect [OF cm] by blast
  let ?it' = "final_row now (int (inv_version v)) (number_u32 n) date json (snap_total_cents snap) u it"
  have r: "read_ok v it" using inv(3) v it(1) by (auto simp: reads_ok_def)
  have ver: "version_of it = int (inv_version v)" using it(3) by (simp add: version_of_def)
  have ids: "ids_in it = set (inv_item_ids v)" using r ver by (simp add: read_ok_def)
  have dist: "distinct (inv_item_ids v)" using inv(2) v by (auto simp: used_ok_def)
  have rows: "list_all2 (row_is ?B) (inv_item_ids v) xs"
    using xs inv(4) it(1) ver
    unfolding resolved_def by (elim list_all2_mono) (auto simp: items_ok_def)
  have ids': "ids_in ?it' = ids_in it" by (simp add: ids_in_def final_row_def)
  have inst: "?it' ''instance_id'' = it ''instance_id''" by (simp add: final_row_def)
  have "inv_item_ids v \<noteq> []" using fz by (auto simp: finalizable_def split: if_splits)
  with dist rows snap json ids have fin: "snapshot_of_rows ser ?B ?it'"
    unfolding snapshot_of_rows_def ids' by (intro exI [of _ inst] exI [of _ proj] exI [of _ "inv_item_ids v"]
      exI [of _ xs] exI [of _ "number_u32 n"] exI [of _ date] exI [of _ snap] exI [of _ json])
      (simp add: final_row_def)
  have num: "numbers_ok ?c'"
  proof -
    have inst_v: "it ''instance_id'' = Some (AS (inv_instance_id v))" using r by (simp add: read_ok_def)
    have old: "has_number c j i m \<or> (j = ?k \<and> i = inv_instance_id v \<and> m = number_u32 n)"
      if "has_number ?c' j i m" for j i m
    proof (cases "j = ?k")
      case True
      with that inst_v show ?thesis by (auto simp: has_number_def I final_row_def)
    next
      case False
      with that show ?thesis by (auto simp: has_number_def I)
    qed
    have fresh: "\<not> has_number c j (inv_instance_id v) (number_u32 n)" if "number_u32 n < u32_max" for j
      using inv(7) n that by (auto simp: numbers_ok_def number_u32_def split: if_splits)
    have pend: "\<exists>m. counter_of (counters (sy_db c)) (inv_instance_id v) = Some m \<and> int n \<le> m"
      using inv(6) n by (auto simp: pending_ok_def)
    show ?thesis
      unfolding numbers_ok_def
    proof (intro conjI allI impI)
      fix j i m assume m: "has_number ?c' j i m" "m < u32_max"
      show "\<exists>q. counter_of (counters (sy_db ?c')) i = Some q \<and> int m \<le> q"
        using old [OF m(1)] m(2) inv(7) pend C by (auto simp: numbers_ok_def number_u32_def split: if_splits)
      show "(i, m) \<notin> sy_numbers ?c'"
        using old [OF m(1)] m(2) inv(7) by (auto simp: numbers_ok_def number_u32_def split: if_splits)
    next
      fix j j' i m assume m: "has_number ?c' j i m" "has_number ?c' j' i m" "m < u32_max"
      from old [OF m(1)] old [OF m(2)] m(3) fresh inv(7) show "j = j'"
        unfolding numbers_ok_def by blast
    qed
  qed
  have pend: "pending_ok ?c'" by (rule pending_mono [OF inv(6)]) (auto simp: C)
  show ?thesis
  proof (rule invoice_row_step [OF ok it(1) I B _ inst ids' _ _ _ _ _ fin pend num])
    show "ledger_ok (invoices s') (items s')" unfolding I B by (rule final_row_ok [OF inv(1) it(1) it(3)])
    show "version_of it \<le> version_of ?it'" using ver by (simp add: version_of_def final_row_def)
  qed simp_all
qed

subsection \<open>The counter\<close>

text \<open>Steps that leave both tables alone keep everything but the numbers.\<close>

lemma tables_same_ok:
  assumes "sys_ok ser c" "invoices s' = invoices (sy_db c)" "items s' = items (sy_db c)"
    and "sy_db c' = s'" "sy_used c' = sy_used c" "sy_reads c' = sy_reads c" "sy_items c' = sy_items c"
    and "pending_ok c'" "numbers_ok c'"
  shows "sys_ok ser c'"
  using assms by (simp add: sys_ok_def used_ok_def reads_ok_def items_ok_def frozen_ok_def)

lemma allocate_ok:
  assumes ok: "sys_ok ser c" and cm: "commits ss (sy_db c) [increment_counter_req i] s'"
  shows "sys_ok ser (c\<lparr>sy_db := s', sy_numbers := sy_numbers c \<union> allocated_number i s'\<rparr>)"
    (is "sys_ok ser ?c'")
proof -
  note inv = sys_okD [OF ok] and eff = increment_effect [OF cm]
  have new: "counter_of (counters s') i = Some (int n)" if "(j, n) \<in> allocated_number i s'" for j n
    using that eff(4) by (auto simp: allocated_number_def split: option.splits)
  have only: "j = i" if "(j, n) \<in> allocated_number i s'" for j n
    using that by (auto simp: allocated_number_def split: option.splits)
  have grow: "\<exists>m'. counter_of (counters s') j = Some m' \<and> m \<le> m' \<and> (j = i \<longrightarrow> m < m')"
    if "counter_of (counters (sy_db c)) j = Some m" for j m
    using eff(3) [of j] that by (auto split: option.splits)
  have pend: "pending_ok ?c'"
    unfolding pending_ok_def
  proof (intro allI impI, simp)
    fix j n assume "(j, n) \<in> sy_numbers c \<or> (j, n) \<in> allocated_number i s'"
    then show "\<exists>m. counter_of (counters s') j = Some m \<and> int n \<le> m"
    proof
      assume "(j, n) \<in> sy_numbers c"
      then obtain m where "counter_of (counters (sy_db c)) j = Some m" "int n \<le> m"
        using inv(6) by (auto simp: pending_ok_def)
      with grow [of j m] show ?thesis by auto
    next
      assume a: "(j, n) \<in> allocated_number i s'"
      from new [OF a] only [OF a] show ?thesis by auto
    qed
  qed
  have same: "has_number ?c' k j n = has_number c k j n" for k j n by (simp add: has_number_def eff(1))
  have num: "numbers_ok ?c'"
    unfolding numbers_ok_def same
  proof (intro conjI allI impI)
    fix k j n assume n: "has_number c k j n" "n < u32_max"
    then obtain m where m: "counter_of (counters (sy_db c)) j = Some m" "int n \<le> m"
      and fresh: "(j, n) \<notin> sy_numbers c" using inv(7) unfolding numbers_ok_def by blast
    from grow [OF m(1)] m(2) show "\<exists>q. counter_of (counters (sy_db ?c')) j = Some q \<and> int n \<le> q" by auto
    have "(j, n) \<notin> allocated_number i s'"
    proof
      assume a: "(j, n) \<in> allocated_number i s'"
      with only have "j = i" by blast
      with grow [OF m(1)] m(2) new [OF a] show False by auto
    qed
    with fresh show "(j, n) \<notin> sy_numbers ?c'" by simp
  next
    fix k k' j n assume "has_number c k j n" "has_number c k' j n" "n < u32_max"
    with inv(7) show "k = k'" unfolding numbers_ok_def by blast
  qed
  show ?thesis by (rule tables_same_ok [OF ok eff(1,2) _ _ _ _ pend num]) simp_all
qed

lemma set_next_ok:
  assumes ok: "sys_ok ser c" and cm: "commits ss (sy_db c) [set_next_invoice_number_req i n] s'"
  shows "sys_ok ser (c\<lparr>sy_db := s'\<rparr>)" (is "sys_ok ser ?c'")
proof -
  note inv = sys_okD [OF ok] and eff = set_next_effect [OF cm]
  have grow: "\<exists>m'. counter_of (counters s') j = Some m' \<and> m \<le> m'"
    if "counter_of (counters (sy_db c)) j = Some m" for j m
    using eff(3) [of j] eff(4) [of m] that by (cases "j = i") auto
  have pend: "pending_ok ?c'"
    unfolding pending_ok_def
  proof (intro allI impI, simp)
    fix j q assume "(j, q) \<in> sy_numbers c"
    then obtain m where "counter_of (counters (sy_db c)) j = Some m" "int q \<le> m"
      using inv(6) by (auto simp: pending_ok_def)
    with grow [of j m] show "\<exists>m. counter_of (counters s') j = Some m \<and> int q \<le> m" by auto
  qed
  have same: "has_number ?c' k j q = has_number c k j q" for k j q by (simp add: has_number_def eff(1))
  have num: "numbers_ok ?c'"
    unfolding numbers_ok_def same
  proof (intro conjI allI impI)
    fix k j q assume q: "has_number c k j q" "q < u32_max"
    then obtain m where m: "counter_of (counters (sy_db c)) j = Some m" "int q \<le> m"
      and fresh: "(j, q) \<notin> sy_numbers c" using inv(7) unfolding numbers_ok_def by blast
    from grow [OF m(1)] m(2) show "\<exists>m. counter_of (counters (sy_db ?c')) j = Some m \<and> int q \<le> m" by auto
    show "(j, q) \<notin> sy_numbers ?c'" using fresh by simp
  next
    fix k k' j q assume "has_number c k j q" "has_number c k' j q" "q < u32_max"
    with inv(7) show "k = k'" unfolding numbers_ok_def by blast
  qed
  show ?thesis by (rule tables_same_ok [OF ok eff(1,2) _ _ _ _ pend num]) simp_all
qed

lemma other_ok:
  assumes ok: "sys_ok ser c" and "invoices s' = invoices (sy_db c)" "items s' = items (sy_db c)"
    and "\<And>i. counter_of (counters s') i = counter_of (counters (sy_db c)) i"
  shows "sys_ok ser (c\<lparr>sy_db := s'\<rparr>)"
proof (rule tables_same_ok [OF ok assms(2,3)])
  show "pending_ok (c\<lparr>sy_db := s'\<rparr>)" by (rule pending_mono [OF sys_okD(6) [OF ok]]) (simp_all add: assms(4))
  show "numbers_ok (c\<lparr>sy_db := s'\<rparr>)"
    by (rule numbers_ok_mono [OF sys_okD(7) [OF ok]]) (simp_all add: assms has_number_def)
qed simp_all

subsection \<open>Every step keeps the invariant\<close>

text \<open>The operations on drafts, each as one \<open>ledger_step\<close> that creates at most the drawn id.\<close>

lemma no_create [simp]:
  "\<not> may_create (attach_req k p x)" "\<not> may_create (detach_req k x)"
  "\<not> may_create (update_unbilled_req x f now)" "\<not> may_create (delete_billable_item_req x)"
  by (simp_all add: attach_req_def detach_req_def update_unbilled_req_def delete_billable_item_req_def)

definition draft_step :: "sys \<Rightarrow> string set \<Rightarrow> string option \<Rightarrow> store \<Rightarrow> bool" where
  "draft_step c U ko s' \<longleftrightarrow>
     ledger_step ko (sy_db c) s' \<and> sy_used c \<subseteq> U
     \<and> (\<forall>k. invoices s' k \<noteq> None \<longrightarrow> invoices (sy_db c) k \<noteq> None \<or> k \<in> U - sy_used c)
     \<and> (\<forall>x. items s' x \<noteq> None \<longrightarrow> items (sy_db c) x \<noteq> None \<or> x \<in> U)"

lemma draft_stepI:
  assumes "ledger_step ko (sy_db c) s'" "commits ss (sy_db c) ws s'" "\<And>w. w \<in> set ws \<Longrightarrow> \<not> may_create w"
  shows "draft_step c (sy_used c) ko s'"
  using assms commits_no_new [OF assms(2,3)] unfolding draft_step_def by blast

lemma draft_stepI_new:
  assumes "ledger_step ko (sy_db c) s'" "commits ss (sy_db c) ws s'" "i \<notin> sy_used c"
    and "\<And>w. w \<in> set ws \<Longrightarrow> may_create w \<Longrightarrow> snd (target w) = i"
  shows "draft_step c (insert i (sy_used c)) ko s'"
proof -
  have "sy_db c t k \<noteq> None \<or> k = i" if "s' t k \<noteq> None" for t k
    using commits_dom [OF assms(2) that] assms(4) by force
  then show ?thesis using assms(1,3) unfolding draft_step_def by blast
qed

lemma draft_step_sys_ok:
  "sys_ok ser c \<Longrightarrow> draft_step c U ko s' \<Longrightarrow> sys_ok ser (c\<lparr>sy_db := s', sy_used := U\<rparr>)"
  unfolding draft_step_def by (intro draft_step_ok) auto

lemma draft_step_sys_ok':
  "sys_ok ser c \<Longrightarrow> draft_step c (sy_used c) ko s' \<Longrightarrow> sys_ok ser (c\<lparr>sy_db := s'\<rparr>)"
  using draft_step_sys_ok [of ser c "sy_used c" ko s'] by simp

lemma create_item_draft:
  assumes "sys_ok ser c" "i \<notin> sy_used c" "commits ss (sy_db c) [create_billable_item_req i now inst p f u] s'"
  shows "draft_step c (insert i (sy_used c)) None s'"
proof (rule draft_stepI_new [OF create_item_change [OF assms(3)] assms(3,2)])
  show "items (sy_db c) i = None"
    using sys_okD(2) [OF assms(1)] assms(2) by (auto simp: used_ok_def)
qed (auto simp: create_billable_item_req_def)

lemma create_invoice_draft:
  assumes "set_enum ss" "i \<notin> sy_used c"
    and "commits ss (sy_db c) (create_invoice_reqs ss i now inst p ids u) s'"
  shows "draft_step c (insert i (sy_used c)) (Some i) s'"
  by (rule draft_stepI_new [OF create_invoice_change [OF assms(3,1)] assms(3,2)])
    (auto simp: create_invoice_reqs_def)

lemma update_billed_draft:
  assumes "commits ss (sy_db c) (update_billed_reqs x k f now) s'"
  shows "draft_step c (sy_used c) (Some k) s'"
  by (rule draft_stepI [OF update_billed_change [OF assms] assms]) (auto simp: update_billed_reqs_def)

lemma add_items_draft:
  assumes "set_enum ss" "commits ss (sy_db c) (add_invoice_items_reqs now k p ids v) s'"
  shows "draft_step c (sy_used c) (Some k) s'"
  by (rule draft_stepI [OF add_invoice_items_change [OF assms(2,1)] assms(2)])
    (auto simp: add_invoice_items_reqs_def draft_at_def)

lemma remove_items_draft:
  assumes "set_enum ss" "commits ss (sy_db c) (remove_invoice_items_reqs now k ids v) s'"
  shows "draft_step c (sy_used c) (Some k) s'"
  by (rule draft_stepI [OF remove_invoice_items_change [OF assms(2,1)] assms(2)])
    (auto simp: remove_invoice_items_reqs_def draft_at_def)

lemma delete_invoice_draft:
  assumes "sys_ok ser c" "v \<in> sy_reads c"
    and "commits ss (sy_db c) (delete_invoice_reqs (inv_id v) (inv_item_ids v) (inv_version v)) s'"
  shows "draft_step c (sy_used c) (Some (inv_id v)) s'"
proof (rule draft_stepI [OF delete_invoice_change [OF assms(3)] assms(3)])
  show "ids_in it = set (inv_item_ids v)"
    if "invoices (sy_db c) (inv_id v) = Some it" "version_of it = int (inv_version v)" for it
    using sys_okD(3) [OF assms(1)] assms(2) that by (auto simp: reads_ok_def read_ok_def)
qed (auto simp: delete_invoice_reqs_def)

lemma update_unbilled_draft:
  assumes "commits ss (sy_db c) [update_unbilled_req x f now] s'"
  shows "draft_step c (sy_used c) None s'"
  by (rule draft_stepI [OF update_unbilled_change [OF assms] assms]) simp

lemma delete_item_draft:
  assumes "commits ss (sy_db c) [delete_billable_item_req x] s'"
  shows "draft_step c (sy_used c) None s'"
  by (rule draft_stepI [OF delete_item_change [OF assms] assms]) simp

text \<open>
  What a step does to the two tables, whichever it is: nothing, a change to a draft and the
  items that are its own or free, or one invoice row alone, and then either a draft becomes
  final or only the three attributes outside the frozen content change.
\<close>

lemma step_effect:
  assumes "set_enum ss" "sys_ok ser c" "step ss ser c c'"
  obtains (same) "invoices (sy_db c') = invoices (sy_db c)" "items (sy_db c') = items (sy_db c)"
    | (draft) ko where "draft_change ko (invoices (sy_db c)) (items (sy_db c)) (invoices (sy_db c')) (items (sy_db c'))"
    | (final) k it it' where "invoices (sy_db c) k = Some it" "is_draft it" "is_final it'" "ids_in it' = ids_in it"
        "invoices (sy_db c') = (invoices (sy_db c))(k \<mapsto> it')" "items (sy_db c') = items (sy_db c)"
    | (touch) k it it' where "invoices (sy_db c) k = Some it" "is_final it" "touched it it'"
        "invoices (sy_db c') = (invoices (sy_db c))(k \<mapsto> it')" "items (sy_db c') = items (sy_db c)"
proof -
  have D: "draft_change ko (invoices (sy_db c)) (items (sy_db c)) (invoices s') (items s')"
    if "draft_step c U ko s'" for U ko s'
    using that sys_okD(1) [OF assms(2)] by (simp add: draft_step_def ledger_step_def)
  from assms(3) show thesis
  proof cases
    case (finalize v xs n inst proj date snap json now u s')
    from finalize_effect [OF finalize(8)] obtain it where it: "invoices (sy_db c) (inv_id v) = Some it" "is_draft it"
        and I: "invoices s' = (invoices (sy_db c))(inv_id v \<mapsto> final_row now (int (inv_version v)) (number_u32 n) date json
          (snap_total_cents snap) u it)" and B: "items s' = items (sy_db c)"
      by blast
    show thesis
      by (rule final [OF it final_row_facts(1) final_row_facts(2)]) (use I B finalize(1) in simp_all)
  next
    case (set_paid now k d s')
    from paid_effect [OF set_paid(2)] set_paid(1) touch show thesis by auto
  next
    case (set_pdf_key k key s')
    from pdf_effect [OF set_pdf_key(2)] set_pdf_key(1) touch show thesis by auto
  next
    case (allocate i s')
    with increment_effect(1,2) [OF allocate(2)] same show thesis by simp
  next
    case (set_next i n s')
    with set_next_effect(1,2) [OF set_next(2)] same show thesis by simp
  next
    case (create_item i now inst p f u s')
    show thesis by (rule draft [of None]) (use D [OF create_item_draft [OF assms(2) create_item(2,3)]] create_item(1) in simp)
  next
    case (create i now inst p ids u s')
    show thesis by (rule draft [of "Some i"]) (use D [OF create_invoice_draft [OF assms(1) create(2,3)]] create(1) in simp)
  next
    case (update_billed x k f now s')
    show thesis by (rule draft [of "Some k"]) (use D [OF update_billed_draft [OF update_billed(2)]] update_billed(1) in simp)
  next
    case (update_unbilled x f now s')
    show thesis by (rule draft [of None]) (use D [OF update_unbilled_draft [OF update_unbilled(2)]] update_unbilled(1) in simp)
  next
    case (delete_item x s')
    show thesis by (rule draft [of None]) (use D [OF delete_item_draft [OF delete_item(2)]] delete_item(1) in simp)
  next
    case (add_items v now ids s')
    show thesis by (rule draft [of "Some (inv_id v)"]) (use D [OF add_items_draft [OF assms(1) add_items(3)]] add_items(1) in simp)
  next
    case (remove_items v now ids s')
    show thesis by (rule draft [of "Some (inv_id v)"]) (use D [OF remove_items_draft [OF assms(1) remove_items(3)]] remove_items(1) in simp)
  next
    case (delete v s')
    show thesis by (rule draft [of "Some (inv_id v)"]) (use D [OF delete_invoice_draft [OF assms(2) delete(2,3)]] delete(1) in simp)
  qed (use same in simp_all)
qed

lemma step_ok:
  assumes "set_enum ss" "sys_ok ser c" "step ss ser c c'"
  shows "sys_ok ser c'"
  using assms(3)
proof cases
  case (read_invoice k v)
  with read_invoice_ok [OF assms(2)] show ?thesis by simp
next
  case (read_item v k x)
  with read_item_ok [OF assms(2)] show ?thesis by simp
next
  case (finalize v xs n inst proj date snap json now u s')
  from finalize_ok [OF assms(2) finalize(2-8)] finalize(1) show ?thesis by simp
next
  case (set_paid now k d s')
  from paid_effect [OF set_paid(2)] touch_ok [OF assms(2)] set_paid(1) show ?thesis by blast
next
  case (set_pdf_key k key s')
  from pdf_effect [OF set_pdf_key(2)] touch_ok [OF assms(2)] set_pdf_key(1) show ?thesis by blast
next
  case (allocate i s')
  with allocate_ok [OF assms(2)] show ?thesis by simp
next
  case (set_next i n s')
  with set_next_ok [OF assms(2)] show ?thesis by simp
next
  case (other s')
  with other_ok [OF assms(2)] show ?thesis by simp
next
  case (create_item i now inst p f u s')
  with draft_step_sys_ok [OF assms(2) create_item_draft [OF assms(2) create_item(2,3)]] show ?thesis by simp
next
  case (create i now inst p ids u s')
  with draft_step_sys_ok [OF assms(2) create_invoice_draft [OF assms(1) create(2,3)]] show ?thesis by simp
next
  case (update_billed x k f now s')
  with draft_step_sys_ok' [OF assms(2) update_billed_draft [OF update_billed(2)]] show ?thesis by simp
next
  case (update_unbilled x f now s')
  with draft_step_sys_ok' [OF assms(2) update_unbilled_draft [OF update_unbilled(2)]] show ?thesis by simp
next
  case (delete_item x s')
  with draft_step_sys_ok' [OF assms(2) delete_item_draft [OF delete_item(2)]] show ?thesis by simp
next
  case (add_items v now ids s')
  with draft_step_sys_ok' [OF assms(2) add_items_draft [OF assms(1) add_items(3)]] show ?thesis by simp
next
  case (remove_items v now ids s')
  with draft_step_sys_ok' [OF assms(2) remove_items_draft [OF assms(1) remove_items(3)]] show ?thesis by simp
next
  case (delete v s')
  with draft_step_sys_ok' [OF assms(2) delete_invoice_draft [OF assms(2) delete(2,3)]] show ?thesis by simp
qed

lemma reachable_ok: "set_enum ss \<Longrightarrow> reachable ss ser c \<Longrightarrow> sys_ok ser c"
  by (rotate_tac, induction rule: reachable.induct) (auto intro: init_ok step_ok)

subsection \<open>Finalized is final\<close>

text \<open>
  \<open>kept\<close>: a finalized row is still there with all its attributes but the payment date, the
  PDF key and the time of update, and every row of its items is as it was.
\<close>

definition kept :: "string \<Rightarrow> item \<Rightarrow> store \<Rightarrow> store \<Rightarrow> bool" where
  "kept k it s s' \<longleftrightarrow>
     (\<exists>it'. invoices s' k = Some it' \<and> touched it it') \<and> (\<forall>i \<in> ids_in it. items s' i = items s i)"

lemma touched_refl: "touched it it"
  by (simp add: touched_def)

lemma touched_final: "touched it it' \<Longrightarrow> is_final it \<Longrightarrow> is_final it' \<and> ids_in it' = ids_in it"
  using touchedD [of it it'] by (simp add: is_final_def ids_in_def)

lemma step_kept:
  assumes "set_enum ss" "sys_ok ser c" "step ss ser c c'"
    and "invoices (sy_db c) k = Some it" "is_final it"
  shows "kept k it (sy_db c) (sy_db c')"
  using assms(1-3)
proof (cases rule: step_effect)
  case same
  with assms(4) show ?thesis by (auto simp: kept_def touched_refl)
next
  case (draft ko)
  have row: "invoices (sy_db c') k = Some it" using draft_changeD(3) [OF draft assms(4,5)] .
  have "ko \<noteq> Some k" using draft assms(4,5) unfolding draft_change_def by (metis not_draft_final(2))
  moreover have "item_owner (items (sy_db c)) i = Some k" if "i \<in> ids_in it" for i
    using ledger_okD(3) [OF sys_okD(1) [OF assms(2)], of i k] assms(4) that by simp
  ultimately have "items (sy_db c') i = items (sy_db c) i" if "i \<in> ids_in it" for i
    using owned_rows_kept [OF draft] that by blast
  with row show ?thesis by (auto simp: kept_def touched_refl)
next
  case (final j jt jt')
  then have "j \<noteq> k" using assms(4,5) by auto
  with final assms(4) show ?thesis by (auto simp: kept_def touched_refl)
next
  case (touch j jt jt')
  with assms(4) show ?thesis by (cases "j = k") (auto simp: kept_def touched_refl)
qed

lemma kept_trans:
  assumes "kept k it r s" "is_final it" "invoices s k = Some it1 \<Longrightarrow> touched it it1 \<Longrightarrow> is_final it1 \<Longrightarrow> kept k it1 s t"
    and "invoices s k = Some it1"
  shows "kept k it r t"
proof -
  have t1: "touched it it1" using assms(1,4) by (auto simp: kept_def)
  note f = touched_final [OF t1 assms(2)]
  have "kept k it1 s t" using assms(3) [OF assms(4) t1] f by blast
  with assms(1) t1 f show ?thesis by (auto simp: kept_def touched_def)
qed

lemma steps_ok: "steps ss ser c d \<Longrightarrow> set_enum ss \<Longrightarrow> sys_ok ser c \<Longrightarrow> sys_ok ser d"
  by (induction rule: steps.induct) (auto intro: step_ok)

lemma steps_kept:
  assumes "steps ss ser c d" "set_enum ss" "sys_ok ser c"
    and "invoices (sy_db c) k = Some it" "is_final it"
  shows "kept k it (sy_db c) (sy_db d)"
  using assms
proof (induction rule: steps.induct)
  case (none c)
  then show ?case by (auto simp: kept_def touched_refl)
next
  case (snoc c d e)
  from snoc.IH snoc.prems have k: "kept k it (sy_db c) (sy_db d)" by blast
  obtain it1 where it1: "invoices (sy_db d) k = Some it1" using k by (auto simp: kept_def)
  have "sys_ok ser d" using steps_ok [OF snoc.hyps(1)] snoc.prems by blast
  with step_kept [OF snoc.prems(1) _ snoc.hyps(2)] kept_trans [OF k snoc.prems(4) _ it1]
  show ?case by blast
qed

subsection \<open>Writes are against what was read\<close>

text \<open>The requests an operation conditions on the version of the invoice it holds.\<close>

definition versioned_reqs :: "invoice \<Rightarrow> wreq list \<Rightarrow> bool" where
  "versioned_reqs v ws \<longleftrightarrow>
     (\<exists>now ids. ws = add_invoice_items_reqs now (inv_id v) (inv_project_id v) ids (inv_version v))
     \<or> (\<exists>now ids. ws = remove_invoice_items_reqs now (inv_id v) ids (inv_version v))
     \<or> ws = delete_invoice_reqs (inv_id v) (inv_item_ids v) (inv_version v)
     \<or> (\<exists>now n date json tot u. ws = [finalize_invoice_req now (inv_id v) (inv_version v) n date json tot u])"

lemma versioned_cond:
  assumes "commits ss s ws s'" "versioned_reqs v ws"
  shows "holds (draft_at (inv_version v)) (attrs_of (invoices s (inv_id v)))"
proof -
  have hd: "ws \<noteq> [] \<and> target (hd ws) = (''invoice'', inv_id v) \<and>
      (write_cond (hd ws) = draft_at (inv_version v)
        \<or> write_cond (hd ws) = CAnd (CExists ''id'') (draft_at (inv_version v)))"
    using assms(2) unfolding versioned_reqs_def
    by (elim disjE exE) (simp_all add: add_invoice_items_reqs_def remove_invoice_items_reqs_def
        delete_invoice_reqs_def finalize_invoice_req_def)
  then have "cond_holds s (hd ws)" using commits_cond [OF assms(1), of "hd ws"] by simp
  with hd show ?thesis by (auto simp: cond_holds_def)
qed

lemma versioned_current:
  assumes "sys_ok ser c" "v \<in> sy_reads c" "commits ss (sy_db c) ws s'" "versioned_reqs v ws"
  shows "\<exists>it. invoices (sy_db c) (inv_id v) = Some it \<and> is_draft it \<and> version_of it = int (inv_version v)
    \<and> ids_in it = set (inv_item_ids v)"
proof -
  obtain it where it: "invoices (sy_db c) (inv_id v) = Some it" "is_draft it" "it ''version'' = Some (AN (int (inv_version v)))"
    using draft_at_row [OF versioned_cond [OF assms(3,4)]] by blast
  then have "version_of it = int (inv_version v)" by (simp add: version_of_def)
  with sys_okD(3) [OF assms(1)] assms(2) it show ?thesis by (auto simp: reads_ok_def read_ok_def)
qed

subsection \<open>The counter never goes back\<close>

lemma draft_step_counters: "draft_step c U ko s' \<Longrightarrow> counters s' = counters (sy_db c)"
  by (simp add: draft_step_def ledger_step_def)

lemma step_counters:
  assumes "set_enum ss" "sys_ok ser c" "step ss ser c c'"
  shows "counters (sy_db c') = counters (sy_db c)
    \<or> (\<forall>i. counter_of (counters (sy_db c')) i = counter_of (counters (sy_db c)) i)
    \<or> (\<exists>i. commits ss (sy_db c) [increment_counter_req i] (sy_db c'))
    \<or> (\<exists>i n. commits ss (sy_db c) [set_next_invoice_number_req i n] (sy_db c'))"
  using assms(3)
proof cases
  case (finalize v xs n inst proj date snap json now u s')
  with finalize_effect [OF finalize(8)] show ?thesis by auto
next
  case (set_paid now k d s')
  with paid_effect [OF set_paid(2)] show ?thesis by auto
next
  case (set_pdf_key k key s')
  with pdf_effect [OF set_pdf_key(2)] show ?thesis by auto
next
  case (create_item i now inst p f u s')
  with draft_step_counters [OF create_item_draft [OF assms(2) create_item(2,3)]] show ?thesis by simp
next
  case (create i now inst p ids u s')
  with draft_step_counters [OF create_invoice_draft [OF assms(1) create(2,3)]] show ?thesis by simp
next
  case (update_billed x k f now s')
  with draft_step_counters [OF update_billed_draft [OF update_billed(2)]] show ?thesis by simp
next
  case (update_unbilled x f now s')
  with draft_step_counters [OF update_unbilled_draft [OF update_unbilled(2)]] show ?thesis by simp
next
  case (delete_item x s')
  with draft_step_counters [OF delete_item_draft [OF delete_item(2)]] show ?thesis by simp
next
  case (add_items v now ids s')
  with draft_step_counters [OF add_items_draft [OF assms(1) add_items(3)]] show ?thesis by simp
next
  case (remove_items v now ids s')
  with draft_step_counters [OF remove_items_draft [OF assms(1) remove_items(3)]] show ?thesis by simp
next
  case (delete v s')
  with draft_step_counters [OF delete_invoice_draft [OF assms(2) delete(2,3)]] show ?thesis by simp
qed auto

lemma step_counter_mono:
  assumes "set_enum ss" "sys_ok ser c" "step ss ser c c'" "counter_of (counters (sy_db c)) i = Some m"
  shows "\<exists>m'. counter_of (counters (sy_db c')) i = Some m' \<and> m \<le> m'"
  using step_counters [OF assms(1-3)]
proof (elim disjE exE)
  fix j assume cm: "commits ss (sy_db c) [increment_counter_req j] (sy_db c')"
  show ?thesis using increment_effect(3) [OF cm, of i] assms(4) by (cases "i = j") auto
next
  fix j n assume cm: "commits ss (sy_db c) [set_next_invoice_number_req j n] (sy_db c')"
  show ?thesis using set_next_effect(3) [OF cm, of i] set_next_effect(4) [OF cm, of m] assms(4) by (cases "i = j") auto
qed (use assms(4) in auto)

lemma steps_counter_mono:
  assumes "steps ss ser c d" "set_enum ss" "sys_ok ser c" "counter_of (counters (sy_db c)) i = Some m"
  shows "\<exists>m'. counter_of (counters (sy_db d)) i = Some m' \<and> m \<le> m'"
  using assms
proof (induction rule: steps.induct)
  case (snoc c d e)
  then obtain m' where m': "counter_of (counters (sy_db d)) i = Some m'" "m \<le> m'" by blast
  have "sys_ok ser d" using steps_ok [OF snoc.hyps(1)] snoc.prems by blast
  from step_counter_mono [OF snoc.prems(1) this snoc.hyps(2) m'(1)] m'(2) show ?case by auto
qed auto

end
