(* ===== verification/Invoice_Runs.thy ===== *)
theory Invoice_Runs
  imports Invoice_System
begin

section \<open>The resolvers run as steps of the system\<close>

text \<open>
  A run of an invoicing mutation of \<^verbatim>\<open>graphql/mutations.rs\<close>, against any service that keeps
  the laws of \<open>dynamo_service\<close> and whatever it answers (failed conditions, failed requests
  that were applied all the same), is a sequence of steps of \<open>Invoice_System\<close>. So everything
  proved of reachable states holds of every interleaving of runs, and the operations carry out
  no request the step relation does not know.
\<close>

subsection \<open>Sequences of steps\<close>

lemma steps_one: "step ss ser c d \<Longrightarrow> steps ss ser c d"
  using steps.snoc [OF steps.none] .

lemma steps_append: "steps ss ser d e \<Longrightarrow> steps ss ser c d \<Longrightarrow> steps ss ser c e"
  by (induction rule: steps.induct) (auto intro: steps.snoc)

definition reaches ::
    "(string list \<Rightarrow> string list) \<Rightarrow> (invoice_snapshot \<Rightarrow> string + string) \<Rightarrow> sys \<Rightarrow> store \<Rightarrow> bool" where
  "reaches ss ser c s' \<longleftrightarrow> (\<exists>c'. steps ss ser c c' \<and> sy_db c' = s')"

lemma reaches_same: "reaches ss ser c (sy_db c)"
  unfolding reaches_def using steps.none by blast

lemma reaches_step: "step ss ser c c' \<Longrightarrow> sy_db c' = s' \<Longrightarrow> reaches ss ser c s'"
  unfolding reaches_def using steps_one by blast

lemma reaches_after: "steps ss ser c d \<Longrightarrow> reaches ss ser d s' \<Longrightarrow> reaches ss ser c s'"
  unfolding reaches_def using steps_append by blast

text \<open>Item rows are read one by one.\<close>

lemma read_items_steps:
  assumes "v \<in> sy_reads c" "\<And>x. x \<in> set xs \<Longrightarrow> \<exists>k. hydrated hydrate_billable_item (items (sy_db c) k) = Inr (Some x)"
  shows "steps ss ser c (c\<lparr>sy_items := sy_items c \<union> (\<lambda>x. (v, x)) ` set xs\<rparr>)"
  using assms(2)
proof (induction xs rule: rev_induct)
  case Nil
  then show ?case using steps.none by simp
next
  case (snoc x xs)
  let ?d = "c\<lparr>sy_items := sy_items c \<union> (\<lambda>x. (v, x)) ` set xs\<rparr>"
  have IH: "steps ss ser c ?d" using snoc by simp
  obtain k where k: "hydrated hydrate_billable_item (items (sy_db ?d) k) = Inr (Some x)"
    using snoc.prems [of x] by auto
  have "step ss ser ?d (?d\<lparr>sy_items := insert (v, x) (sy_items ?d)\<rparr>)"
    by (rule step.read_item [OF _ k]) (simp add: assms(1))
  with steps.snoc [OF IH] show ?case by simp
qed

subsection \<open>What a handler reads\<close>

context dynamo_handler begin

lemma invoice_read:
  assumes "get_invoice_consistent rq i s = Inr found" "rq_db rq = h"
  shows "hydrated hydrate_invoice (invoices s i) = Inr found"
  using assms svc get_consistent by (auto simp: get_invoice_consistent_def get_record_consistent_def)

lemma member_invoice_read:
  assumes "require_invoice_member rq i s = Inr v" "rq_db rq = h"
  shows "hydrated hydrate_invoice (invoices s i) = Inr (Some v)"
  using assms invoice_read by (auto simp: require_invoice_member_def)

text \<open>After the consistent read of its invoice, a handler holds it.\<close>

lemma holding:
  assumes "require_invoice_member rq i (sy_db c) = Inr v" "rq_db rq = h"
  shows "steps (dy_ss d) ser c (c\<lparr>sy_reads := insert v (sy_reads c)\<rparr>)"
  by (rule steps_one [OF step.read_invoice [OF member_invoice_read [OF assms]]])

end

subsection \<open>Drafts\<close>

lemma effect_db: "(\<And>r s'. m s = (r, s') \<Longrightarrow> s' \<noteq> s \<Longrightarrow> Q s') \<Longrightarrow> effect (db_call m) s Q"
  unfolding db_call_def by (rule effect_write)

context dynamo_handler begin

lemma run_create_billable_item:
  assumes "rq_db rq = h" "rq_new_id rq \<notin> sy_used c"
  shows "effect (m_create_billable_item rq p input) (sy_db c) (reaches (dy_ss d) ser c)"
  unfolding m_create_billable_item_def
proof (intro effect_prefix effect_db)
  fix project user u fields r s'
  assume "create_billable_item (rq_db rq) (rq_new_id rq) (rq_now rq) (proj_instance_id project) (proj_id project)
      fields user (sy_db c) = (r, s')" and "s' \<noteq> sy_db c"
  then have "commits (dy_ss d) (sy_db c) [create_billable_item_req (rq_new_id rq) (rq_now rq)
      (proj_instance_id project) (proj_id project) fields user] s'"
    using plain_any assms(1) by (fastforce simp: create_billable_item_def split: prod.splits)
  from reaches_step [OF step.create_item [OF assms(2) this]] show "reaches (dy_ss d) ser c s'" by simp
qed

lemma run_update_billable_item:
  assumes "rq_db rq = h"
  shows "effect (m_update_billable_item rq i input) (sy_db c) (reaches (dy_ss d) ser c)"
  unfolding m_update_billable_item_def
proof (intro effect_prefix effect_tail effect_db)
  fix it fields r s'
  assume w: "update_billable_item (rq_db rq) (rq_now rq) (item_id it) (item_invoice_id it) fields (sy_db c) = (r, s')"
    and new: "s' \<noteq> sy_db c"
  show "reaches (dy_ss d) ser c s'"
  proof (cases "item_invoice_id it")
    case None
    then have "commits (dy_ss d) (sy_db c) [update_unbilled_req (item_id it) fields (rq_now rq)] s'"
      using single.op_changed w new assms by (simp add: update_billable_item_def)
    from reaches_step [OF step.update_unbilled [OF this]] show ?thesis by simp
  next
    case (Some k)
    then have "commits (dy_ss d) (sy_db c) (update_billed_reqs (item_id it) k fields (rq_now rq)) s'"
      using trans.op_changed w new assms by (simp add: update_billable_item_def)
    from reaches_step [OF step.update_billed [OF this]] show ?thesis by simp
  qed
qed simp_all

lemma run_delete_billable_item:
  assumes "rq_db rq = h"
  shows "effect (m_delete_billable_item rq i) (sy_db c) (reaches (dy_ss d) ser c)"
  unfolding m_delete_billable_item_def
proof (intro effect_prefix effect_tail effect_db)
  fix it r s'
  assume "delete_billable_item (rq_db rq) (item_id it) (sy_db c) = (r, s')" and "s' \<noteq> sy_db c"
  then have "commits (dy_ss d) (sy_db c) [delete_billable_item_req (item_id it)] s'"
    using single.op_changed assms by (simp add: delete_billable_item_def)
  from reaches_step [OF step.delete_item [OF this]] show "reaches (dy_ss d) ser c s'" by simp
qed simp_all

lemma run_create_invoice:
  assumes "rq_db rq = h" "rq_new_id rq \<notin> sy_used c"
  shows "effect (m_create_invoice rq p ids) (sy_db c) (reaches (dy_ss d) ser c)"
  unfolding m_create_invoice_def
proof (intro effect_prefix effect_tail effect_db)
  fix project user ids' r s'
  assume "create_invoice (rq_db rq) (rq_new_id rq) (rq_now rq) (proj_instance_id project) (proj_id project) ids' user
      (sy_db c) = (r, s')" and "s' \<noteq> sy_db c"
  then have "commits (dy_ss d) (sy_db c) (create_invoice_reqs (dy_ss d) (rq_new_id rq) (rq_now rq)
      (proj_instance_id project) (proj_id project) ids' user) s'"
    using trans.op_changed svc assms(1) by (fastforce simp: create_invoice_def split: prod.splits)
  from reaches_step [OF step.create [OF assms(2) this]] show "reaches (dy_ss d) ser c s'" by simp
qed simp_all

lemma run_add_invoice_items:
  assumes "rq_db rq = h"
  shows "effect (m_add_invoice_items rq k ids) (sy_db c) (reaches (dy_ss d) ser c)"
  unfolding m_add_invoice_items_def
proof (intro effect_prefix effect_tail effect_db)
  fix v ids' r s'
  assume v: "require_invoice_member rq k (sy_db c) = Inr v" and
      "add_invoice_items (rq_db rq) (rq_now rq) (inv_id v) (inv_project_id v) ids' (inv_version v) (sy_db c) = (r, s')"
      and "s' \<noteq> sy_db c"
  then have cm: "commits (dy_ss d) (sy_db c) (add_invoice_items_reqs (rq_now rq) (inv_id v) (inv_project_id v) ids'
      (inv_version v)) s'"
    using trans.op_changed assms by (simp add: add_invoice_items_def)
  show "reaches (dy_ss d) ser c s'"
    by (rule reaches_after [OF holding [OF v assms]], rule reaches_step [OF step.add_items])
      (use cm in simp_all)
qed simp_all

lemma run_remove_invoice_items:
  assumes "rq_db rq = h"
  shows "effect (m_remove_invoice_items rq k ids) (sy_db c) (reaches (dy_ss d) ser c)"
  unfolding m_remove_invoice_items_def
proof (intro effect_prefix effect_tail effect_db)
  fix v ids' r s'
  assume v: "require_invoice_member rq k (sy_db c) = Inr v" and
      "remove_invoice_items (rq_db rq) (rq_now rq) (inv_id v) ids' (inv_version v) (sy_db c) = (r, s')"
      and "s' \<noteq> sy_db c"
  then have cm: "commits (dy_ss d) (sy_db c) (remove_invoice_items_reqs (rq_now rq) (inv_id v) ids' (inv_version v)) s'"
    using trans.op_changed assms by (simp add: remove_invoice_items_def)
  show "reaches (dy_ss d) ser c s'"
    by (rule reaches_after [OF holding [OF v assms]], rule reaches_step [OF step.remove_items])
      (use cm in simp_all)
qed simp_all

lemma run_delete_invoice:
  assumes "rq_db rq = h"
  shows "effect (m_delete_invoice rq k) (sy_db c) (reaches (dy_ss d) ser c)"
  unfolding m_delete_invoice_def
proof (intro effect_prefix effect_tail effect_db)
  fix v r s'
  assume v: "require_invoice_member rq k (sy_db c) = Inr v" and
      "delete_invoice (rq_db rq) (inv_id v) (inv_item_ids v) (inv_version v) (sy_db c) = (r, s')"
      and "s' \<noteq> sy_db c"
  then have cm: "commits (dy_ss d) (sy_db c) (delete_invoice_reqs (inv_id v) (inv_item_ids v) (inv_version v)) s'"
    using trans.op_changed assms by (simp add: delete_invoice_def)
  show "reaches (dy_ss d) ser c s'"
    by (rule reaches_after [OF holding [OF v assms]], rule reaches_step [OF step.delete])
      (use cm in simp_all)
qed simp_all

lemma run_set_invoice_paid:
  assumes "rq_db rq = h"
  shows "effect (m_set_invoice_paid rq k paid) (sy_db c) (reaches (dy_ss d) ser c)"
  unfolding m_set_invoice_paid_def
proof (intro effect_prefix effect_tail effect_db)
  fix v date r s'
  assume "set_invoice_paid (rq_db rq) (rq_now rq) (inv_id v) date (sy_db c) = (r, s')" "s' \<noteq> sy_db c"
  then have "commits (dy_ss d) (sy_db c) [set_invoice_paid_req (rq_now rq) (inv_id v) date] s'"
    using single.op_changed assms by (simp add: set_invoice_paid_def)
  from reaches_step [OF step.set_paid [OF this]] show "reaches (dy_ss d) ser c s'" by simp
qed simp_all

lemma run_download_invoice_pdf:
  assumes "rq_db rq = h"
  shows "effect (m_download_invoice_pdf p rq k) (sy_db c) (reaches (dy_ss d) ser c)"
  unfolding m_download_invoice_pdf_def
proof (intro effect_prefix effect_tail)
  fix v
  have w: "reaches (dy_ss d) ser c s'"
    if "set_invoice_pdf_key (rq_db rq) (inv_id v) (pdf_key v) (sy_db c) = (r, s')" "s' \<noteq> sy_db c" for r s'
  proof -
    have "commits (dy_ss d) (sy_db c) [set_invoice_pdf_key_req (inv_id v) (pdf_key v)] s'"
      using single.op_changed assms that by (simp add: set_invoice_pdf_key_def)
    from reaches_step [OF step.set_pdf_key [OF this]] show ?thesis by simp
  qed
  show "effect (case inv_pdf_s3_key v of
              Some key \<Rightarrow> sreturn key
            | None \<Rightarrow>
               sbind (slift (ok_or (Anyhow (''Finalized invoice '' @ inv_id v @ '' is missing its snapshot''))
                        (inv_snapshot v))) (\<lambda>json.
               sbind (slift (map_err (\<lambda>e. Anyhow (''Invoice '' @ inv_id v @ '' has a corrupt snapshot: '' @ e))
                        (pdf_de p json))) (\<lambda>snapshot.
               sbind (slift (map_err Anyhow (pdf_render p snapshot))) (\<lambda>bytes.
               sbind (slift (map_err Anyhow (pdf_put p (pdf_key v) bytes))) (\<lambda>_.
               sbind (db_call (set_invoice_pdf_key (rq_db rq) (inv_id v) (pdf_key v))) (\<lambda>_.
               sreturn (pdf_key v))))))) (sy_db c) (reaches (dy_ss d) ser c)"
  proof (cases "inv_pdf_s3_key v")
    case None
    then show ?thesis
      by (simp only: option.case) (intro effect_prefix effect_tail effect_db w, assumption, assumption, simp)
  qed (simp add: effect_pure)
qed simp_all

lemma run_set_next_invoice_number:
  assumes "rq_db rq = h"
  shows "effect (m_set_next_invoice_number rq i n) (sy_db c) (reaches (dy_ss d) ser c)"
  unfolding m_set_next_invoice_number_def
proof (intro effect_prefix effect_tail effect_db)
  fix inst r s'
  assume "set_next_invoice_number (rq_db rq) (inst_id inst) (nat (n - 1)) (sy_db c) = (r, s')" "s' \<noteq> sy_db c"
  then have "commits (dy_ss d) (sy_db c) [set_next_invoice_number_req (inst_id inst) (nat (n - 1))] s'"
    using single.op_changed assms by (simp add: set_next_invoice_number_def)
  from reaches_step [OF step.set_next [OF this]] show "reaches (dy_ss d) ser c s'" by simp
qed simp_all

text \<open>Projects live in a table of their own.\<close>

lemma other_table:
  assumes "commits ss (sy_db c) [w] s'" "fst (target w) \<notin> {''invoice'', ''billable_item'', ''counter''}"
  shows "reaches ss ser c s'"
proof -
  obtain t k where t: "target w = (t, k)" by (cases "target w")
  have same: "s' t' = sy_db c t'" if "t' \<in> {''invoice'', ''billable_item'', ''counter''}" for t'
    using commits_one_table(2) [OF assms(1) t, of t'] assms(2) t that by auto
  show ?thesis
    by (rule reaches_step [OF step.other [of s' c]]) (use same in simp_all)
qed

lemma run_create_project:
  assumes "rq_db rq = h"
  shows "effect (m_create_project rq i input) (sy_db c) (reaches (dy_ss d) ser c)"
  unfolding m_create_project_def
proof (intro effect_prefix effect_tail effect_db)
  fix v r s'
  assume w: "create_project (rq_db rq) (rq_new_id rq) (rq_now rq) i (pv_name v) (pv_client_name v) (pv_client_abn v)
      (pv_client_address v) (pv_reference v) (sy_db c) = (r, s')" and new: "s' \<noteq> sy_db c"
  then obtain it q where "send_plain h (Put ''project'' (rq_new_id rq) it (CNotExists ''id'')) (sy_db c) = (q, s')"
    using assms by (auto simp: create_project_def split: prod.splits)
  with new have cm: "commits (dy_ss d) (sy_db c) [Put ''project'' (rq_new_id rq) it (CNotExists ''id'')] s'"
    using plain_any by blast
  show "reaches (dy_ss d) ser c s'" by (rule other_table [OF cm]) simp
qed

lemma run_update_project:
  assumes "rq_db rq = h"
  shows "effect (m_update_project rq i input archived) (sy_db c) (reaches (dy_ss d) ser c)"
  unfolding m_update_project_def
proof (intro effect_prefix effect_tail effect_db)
  fix project v r s'
  assume w: "update_project (rq_db rq) (rq_now rq) (proj_id project) (pv_name v) (pv_client_name v) (pv_client_abn v)
      (pv_client_address v) (pv_reference v) archived (sy_db c) = (r, s')" and new: "s' \<noteq> sy_db c"
  then obtain acts cd q m where "send_existing h m (Update ''project'' ''id'' (proj_id project) acts cd) (sy_db c) = (q, s')"
    using assms by (auto simp: update_project_def)
  with new have cm: "commits (dy_ss d) (sy_db c) [Update ''project'' ''id'' (proj_id project) acts cd] s'"
    using existing_any by blast
  show "reaches (dy_ss d) ser c s'" by (rule other_table [OF cm]) simp
qed simp_all

end

subsection \<open>Finalizing\<close>

context dynamo_handler begin

lemma increment_run:
  assumes "increment_invoice_counter h i s = (r, s')"
  shows "s' = s \<or> commits (dy_ss d) s [increment_counter_req i] s'"
    and "r = Inr n \<Longrightarrow> commits (dy_ss d) s [increment_counter_req i] s' \<and> (i, n) \<in> allocated_number i s'"
proof -
  obtain q where q: "send_plain h (increment_counter_req i) s = (q, s')"
      and r: "r = rbind q (\<lambda>_. ok_or (Infrastructure ''counter update missing next_invoice_number'')
            (u64_attr (s' ''counter'' i) ''next_invoice_number''))"
    using assms by (auto simp: increment_invoice_counter_def Let_def split: prod.splits)
  show "s' = s \<or> commits (dy_ss d) s [increment_counter_req i] s'" by (rule plain_any [OF q])
  show "commits (dy_ss d) s [increment_counter_req i] s' \<and> (i, n) \<in> allocated_number i s'" if "r = Inr n"
    using that r q plain_ok by (auto simp: allocated_number_def)
qed

lemma resolve_items_resolved:
  assumes "sys_ok ser c" "v \<in> sy_reads c" "rq_db rq = h"
    and "get_billable_items_consistent rq (inv_item_ids v) (sy_db c) = Inr fetched"
    and "resolve_items v fetched = Inr xs"
  shows "\<exists>Y. steps (dy_ss d) ser c (c\<lparr>sy_items := Y\<rparr>) \<and> resolved (c\<lparr>sy_items := Y\<rparr>) v xs"
proof -
  have "keyed (sy_db c) ''billable_item''"
    using sys_okD(1) [OF assms(1)] by (auto simp: keyed_def ledger_ok_def item_row_ok_def)
  moreover have dist: "distinct (inv_item_ids v)" using sys_okD(2) [OF assms(1)] assms(2) by (simp add: used_ok_def)
  ultimately have got: "list_all2 (\<lambda>i r. hydrated hydrate_billable_item (items (sy_db c) i) = Inr r) (inv_item_ids v) fetched"
    using get_records_spec [OF _ svc hydrate_ids(3)] assms(3,4) by (simp add: get_billable_items_consistent_def)
  have len: "length (inv_item_ids v) = length fetched" using got by (rule list_all2_lengthD)
  have res: "list_all2 (\<lambda>e x. snd e = Some x \<and> item_invoice_id x = Some (inv_id v)) (zip (inv_item_ids v) fetched) xs"
    using assms(5) unfolding resolve_items_def mapM_Inr_iff
    by (elim list_all2_mono) (auto simp: resolve_item_def split: if_splits)
  have row: "hydrated hydrate_billable_item (items (sy_db c) (inv_item_ids v ! j)) = Inr (Some (xs ! j))
      \<and> item_invoice_id (xs ! j) = Some (inv_id v)" if "j < length xs" for j
    using that got res len by (auto simp: list_all2_conv_all_nth)
  have lenx: "length xs = length (inv_item_ids v)" using res len by (auto dest: list_all2_lengthD)
  have idx: "item_id (xs ! j) = inv_item_ids v ! j" if "j < length xs" for j
  proof -
    from row [OF that]
    obtain r where r: "items (sy_db c) (inv_item_ids v ! j) = Some r" "hydrate_billable_item r = Inr (xs ! j)"
      by (auto simp: hydrated_Some)
    have "item_row_ok (inv_item_ids v ! j) r" using ledger_okD(2) [OF sys_okD(1) [OF assms(1)] r(1)] .
    with hydrate_billable_itemD(1) [OF r(2)] show ?thesis by (simp add: item_row_ok_def)
  qed
  let ?Y = "sy_items c \<union> (\<lambda>x. (v, x)) ` set xs"
  have "steps (dy_ss d) ser c (c\<lparr>sy_items := ?Y\<rparr>)"
    by (rule read_items_steps [OF assms(2)]) (use row in \<open>auto simp: in_set_conv_nth\<close>)
  moreover have "resolved (c\<lparr>sy_items := ?Y\<rparr>) v xs"
    unfolding resolved_def list_all2_conv_all_nth using lenx row idx by simp
  ultimately show ?thesis by blast
qed

lemma run_write_final:
  assumes "rq_db rq = h" "v \<in> sy_reads c" "finalizable v = Inr ()" "resolved c v xs"
    and "(inv_instance_id v, n) \<in> sy_numbers c"
  shows "effect (write_final ser rq v user date xs proj inst n) (sy_db c) (reaches (dy_ss d) ser c)"
  unfolding write_final_def
proof (intro effect_prefix effect_tail effect_db)
  fix snap json r s'
  assume sn: "final_snapshot inst proj xs (number_u32 n) date = Inr snap"
    and js: "serialize_snapshot ser snap = Inr json"
    and w: "finalize_invoice (rq_db rq) (rq_now rq) (inv_id v) (inv_version v) (number_u32 n) date json
      (snap_total_cents snap) user (sy_db c) = (r, s')" and new: "s' \<noteq> sy_db c"
  have cm: "commits (dy_ss d) (sy_db c) [finalize_invoice_req (rq_now rq) (inv_id v) (inv_version v) (number_u32 n)
      date json (snap_total_cents snap) user] s'"
    using single.op_changed w new assms(1) by (simp add: finalize_invoice_def)
  have js': "ser snap = Inr json" using js by (simp add: serialize_snapshot_def)
  from reaches_step [OF step.finalize [where ser = ser and snap = snap and json = json, OF assms(2-5) sn js' cm]] show "reaches (dy_ss d) ser c s'" by simp
qed simp_all

lemma run_allocate_then:
  assumes "rq_db rq = h"
    and "\<And>n s1. commits (dy_ss d) (sy_db c) [increment_counter_req i] s1 \<Longrightarrow> (i, n) \<in> allocated_number i s1 \<Longrightarrow>
      effect (F n) s1 (reaches (dy_ss d) ser c)"
  shows "effect (sbind (db_call (increment_invoice_counter (rq_db rq) i)) F) (sy_db c) (reaches (dy_ss d) ser c)"
  unfolding effect_def
proof (intro allI impI)
  fix r s' assume run: "sbind (db_call (increment_invoice_counter (rq_db rq) i)) F (sy_db c) = (r, s')"
    and new: "s' \<noteq> sy_db c"
  obtain q s1 where q: "increment_invoice_counter h i (sy_db c) = (q, s1)" by fastforce
  show "reaches (dy_ss d) ser c s'"
  proof (cases q)
    case (Inl e)
    with run q assms(1) have "s' = s1" by (simp add: sbind_def db_call_def smap_err_def)
    with increment_run(1) [OF q] new have cm: "commits (dy_ss d) (sy_db c) [increment_counter_req i] s'" by blast
    from reaches_step [OF step.allocate [OF cm]] show ?thesis by simp
  next
    case (Inr n)
    note a = increment_run(2) [OF q Inr]
    from run q Inr assms(1) have F: "F n s1 = (r, s')" by (simp add: sbind_def db_call_def smap_err_def)
    have "reaches (dy_ss d) ser c s1" using reaches_step [OF step.allocate [OF conjunct1 [OF a]]] by simp
    with effect_cases [OF assms(2) _ F] a show ?thesis by blast
  qed
qed

lemma run_finalize_invoice:
  assumes ok: "sys_ok ser c" and "rq_db rq = h"
  shows "effect (m_finalize_invoice ser rq k date) (sy_db c) (reaches (dy_ss d) ser c)"
  unfolding m_finalize_invoice_def
proof (intro effect_prefix run_allocate_then [OF assms(2)])
  fix v user u idate fetched xs proj inst u' n s1
  assume v: "require_invoice_member rq k (sy_db c) = Inr v" and fz: "finalizable v = Inr u"
    and items: "get_billable_items_consistent rq (inv_item_ids v) (sy_db c) = Inr fetched"
      "resolve_items v fetched = Inr xs"
    and cm: "commits (dy_ss d) (sy_db c) [increment_counter_req (inv_instance_id v)] s1"
    and al: "(inv_instance_id v, n) \<in> allocated_number (inv_instance_id v) s1"
  let ?c1 = "c\<lparr>sy_reads := insert v (sy_reads c)\<rparr>"
  have s1: "steps (dy_ss d) ser c ?c1" by (rule holding [OF v assms(2)])
  have ok1: "sys_ok ser ?c1" by (rule read_invoice_ok [OF ok member_invoice_read [OF v assms(2)]])
  obtain Y where s2: "steps (dy_ss d) ser ?c1 (?c1\<lparr>sy_items := Y\<rparr>)"
    and res: "resolved (?c1\<lparr>sy_items := Y\<rparr>) v xs"
    using resolve_items_resolved [OF ok1 _ assms(2) _ items(2)] items(1) by auto
  let ?c2 = "?c1\<lparr>sy_items := Y\<rparr>"
  let ?c3 = "?c2\<lparr>sy_db := s1, sy_numbers := sy_numbers ?c2 \<union> allocated_number (inv_instance_id v) s1\<rparr>"
  have "step (dy_ss d) ser ?c2 ?c3" by (rule step.allocate) (use cm in simp)
  then have s3: "steps (dy_ss d) ser c ?c3" by (rule steps.snoc [OF steps_append [OF s2 s1]])
  have "effect (write_final ser rq v user idate xs proj inst n) (sy_db ?c3) (reaches (dy_ss d) ser ?c3)"
    by (rule run_write_final [OF assms(2)]) (use fz res al in \<open>simp_all add: resolved_def\<close>)
  then show "effect (write_final ser rq v user idate xs proj inst n) s1 (reaches (dy_ss d) ser c)"
    using reaches_after [OF s3] by (auto simp: effect_def)
qed

end

subsection \<open>All invoicing mutations\<close>

text \<open>One constructor for each field of \<^verbatim>\<open>MutationRoot\<close> modelled here; answers are dropped.\<close>

datatype mutation =
    CreateProject string project_input
  | UpdateProject string project_input bool
  | CreateBillableItem string billable_item_input
  | UpdateBillableItem string billable_item_input
  | DeleteBillableItem string
  | CreateInvoice string "string list"
  | AddInvoiceItems string "string list"
  | RemoveInvoiceItems string "string list"
  | DeleteInvoice string
  | FinalizeInvoice string string
  | SetInvoicePaid string "string option"
  | DownloadInvoicePdf string
  | SetNextInvoiceNumber string int

definition drop_answer :: "('e + 'a) \<times> 's \<Rightarrow> ('e + unit) \<times> 's" where
  "drop_answer rs = (rbind (fst rs) (\<lambda>_. Inr ()), snd rs)"

fun run_mutation ::
    "(invoice_snapshot \<Rightarrow> string + string) \<Rightarrow> pdf_env \<Rightarrow> request \<Rightarrow> mutation \<Rightarrow> store
     \<Rightarrow> (api_error + unit) \<times> store" where
  "run_mutation ser p rq (CreateProject i input) s = drop_answer (m_create_project rq i input s)"
| "run_mutation ser p rq (UpdateProject i input b) s = drop_answer (m_update_project rq i input b s)"
| "run_mutation ser p rq (CreateBillableItem i input) s = drop_answer (m_create_billable_item rq i input s)"
| "run_mutation ser p rq (UpdateBillableItem i input) s = drop_answer (m_update_billable_item rq i input s)"
| "run_mutation ser p rq (DeleteBillableItem i) s = drop_answer (m_delete_billable_item rq i s)"
| "run_mutation ser p rq (CreateInvoice i ids) s = drop_answer (m_create_invoice rq i ids s)"
| "run_mutation ser p rq (AddInvoiceItems i ids) s = drop_answer (m_add_invoice_items rq i ids s)"
| "run_mutation ser p rq (RemoveInvoiceItems i ids) s = drop_answer (m_remove_invoice_items rq i ids s)"
| "run_mutation ser p rq (DeleteInvoice i) s = drop_answer (m_delete_invoice rq i s)"
| "run_mutation ser p rq (FinalizeInvoice i date) s = drop_answer (m_finalize_invoice ser rq i date s)"
| "run_mutation ser p rq (SetInvoicePaid i date) s = drop_answer (m_set_invoice_paid rq i date s)"
| "run_mutation ser p rq (DownloadInvoicePdf i) s = drop_answer (m_download_invoice_pdf p rq i s)"
| "run_mutation ser p rq (SetNextInvoiceNumber i n) s = drop_answer (m_set_next_invoice_number rq i n s)"

lemma effect_drop: "effect m s Q \<Longrightarrow> effect (\<lambda>s. drop_answer (m s)) s Q"
  unfolding effect_def drop_answer_def by (metis prod.collapse snd_conv)

lemma effect_cong: "effect m' s Q \<Longrightarrow> m s = m' s \<Longrightarrow> effect m s Q"
  by (simp add: effect_def)

context dynamo_handler begin

lemma run_mutation_reaches:
  assumes "sys_ok ser c" "rq_db rq = h" "rq_new_id rq \<notin> sy_used c"
  shows "effect (run_mutation ser p rq m) (sy_db c) (reaches (dy_ss d) ser c)"
proof (cases m)
  case (CreateProject i input)
  show ?thesis by (rule effect_cong [OF effect_drop [OF run_create_project [OF assms(2)]]]) (simp only: CreateProject run_mutation.simps)
next
  case (UpdateProject i input b)
  show ?thesis by (rule effect_cong [OF effect_drop [OF run_update_project [OF assms(2)]]]) (simp only: UpdateProject run_mutation.simps)
next
  case (CreateBillableItem i input)
  show ?thesis by (rule effect_cong [OF effect_drop [OF run_create_billable_item [OF assms(2,3)]]]) (simp only: CreateBillableItem run_mutation.simps)
next
  case (UpdateBillableItem i input)
  show ?thesis by (rule effect_cong [OF effect_drop [OF run_update_billable_item [OF assms(2)]]]) (simp only: UpdateBillableItem run_mutation.simps)
next
  case (DeleteBillableItem i)
  show ?thesis by (rule effect_cong [OF effect_drop [OF run_delete_billable_item [OF assms(2)]]]) (simp only: DeleteBillableItem run_mutation.simps)
next
  case (CreateInvoice i ids)
  show ?thesis by (rule effect_cong [OF effect_drop [OF run_create_invoice [OF assms(2,3)]]]) (simp only: CreateInvoice run_mutation.simps)
next
  case (AddInvoiceItems i ids)
  show ?thesis by (rule effect_cong [OF effect_drop [OF run_add_invoice_items [OF assms(2)]]]) (simp only: AddInvoiceItems run_mutation.simps)
next
  case (RemoveInvoiceItems i ids)
  show ?thesis by (rule effect_cong [OF effect_drop [OF run_remove_invoice_items [OF assms(2)]]]) (simp only: RemoveInvoiceItems run_mutation.simps)
next
  case (DeleteInvoice i)
  show ?thesis by (rule effect_cong [OF effect_drop [OF run_delete_invoice [OF assms(2)]]]) (simp only: DeleteInvoice run_mutation.simps)
next
  case (FinalizeInvoice i date)
  show ?thesis by (rule effect_cong [OF effect_drop [OF run_finalize_invoice [OF assms(1,2)]]]) (simp only: FinalizeInvoice run_mutation.simps)
next
  case (SetInvoicePaid i date)
  show ?thesis by (rule effect_cong [OF effect_drop [OF run_set_invoice_paid [OF assms(2)]]]) (simp only: SetInvoicePaid run_mutation.simps)
next
  case (DownloadInvoicePdf i)
  show ?thesis by (rule effect_cong [OF effect_drop [OF run_download_invoice_pdf [OF assms(2)]]]) (simp only: DownloadInvoicePdf run_mutation.simps)
next
  case (SetNextInvoiceNumber i n)
  show ?thesis by (rule effect_cong [OF effect_drop [OF run_set_next_invoice_number [OF assms(2)]]]) (simp only: SetNextInvoiceNumber run_mutation.simps)
qed

lemma ss_enum: "set_enum (dy_ss d)"
  unfolding set_enum_def by (intro allI conjI ss_set ss_distinct)

lemma run_mutation_steps:
  assumes "reachable (dy_ss d) ser c" "rq_db rq = h" "rq_new_id rq \<notin> sy_used c"
    and "run_mutation ser p rq m (sy_db c) = (r, s')"
  shows "reaches (dy_ss d) ser c s'"
proof -
  have "sys_ok ser c" using reachable_ok [OF ss_enum assms(1)] .
  from effect_cases [OF run_mutation_reaches [OF this assms(2,3)] reaches_same assms(4)]
  show ?thesis .
qed

end

lemma steps_reachable: "steps ss ser c d \<Longrightarrow> reachable ss ser c \<Longrightarrow> reachable ss ser d"
  by (induction rule: steps.induct) (auto intro: reachable.more)

subsection \<open>Refusals\<close>

text \<open>A read-only handler writes nothing, whatever the service.\<close>

lemma read_only_write:
  assumes "h_read_only h"
  shows "send_conditional h w s = (Inl MutationDisabled, s)" "send_plain h w s = (Inl MutationDisabled, s)"
    "send_existing h msg w s = (Inl MutationDisabled, s)" "transact_write h ws s = (Inl MutationDisabled, s)"
  using assms by (simp_all add: send_defs)

lemmas store_ops = create_project_def update_project_def create_billable_item_def update_billable_item_def
  delete_billable_item_def create_invoice_def add_invoice_items_def remove_invoice_items_def delete_invoice_def
  finalize_invoice_def set_invoice_paid_def set_invoice_pdf_key_def increment_invoice_counter_def
  set_next_invoice_number_def

lemma read_only_spure:
  assumes "h_read_only h"
  shows "spure (create_project h i now inst n cn a b e)" "spure (update_project h now i n cn a b e ar)"
    "spure (create_billable_item h i now inst p f u)" "spure (update_billable_item h now i io f)"
    "spure (delete_billable_item h i)" "spure (create_invoice h i now inst p ids u)"
    "spure (add_invoice_items h now k p ids v)" "spure (remove_invoice_items h now k ids v)"
    "spure (delete_invoice h k ids v)" "spure (finalize_invoice h now k v num dt js tc u)"
    "spure (set_invoice_paid h now k d)" "spure (set_invoice_pdf_key h k key)"
    "spure (increment_invoice_counter h i)" "spure (set_next_invoice_number h i num)"
  using read_only_write [OF assms]
  by (auto simp: spure_def store_ops split: option.splits)

lemma spure_db_call: "spure m \<Longrightarrow> spure (db_call m)"
  by (auto simp: spure_def db_call_def dest: smap_err_changed)

lemma spure_option: "(\<And>x. spure (f x)) \<Longrightarrow> spure g \<Longrightarrow> spure (case y of None \<Rightarrow> g | Some x \<Rightarrow> f x)"
  by (cases y) auto

lemma spure_drop: "spure m \<Longrightarrow> spure (\<lambda>s. drop_answer (m s))"
  unfolding spure_def drop_answer_def by (metis prod.collapse snd_conv)

lemmas mutation_defs = m_create_project_def m_update_project_def m_create_billable_item_def
  m_update_billable_item_def m_delete_billable_item_def m_create_invoice_def m_add_invoice_items_def
  m_remove_invoice_items_def m_delete_invoice_def m_finalize_invoice_def m_set_invoice_paid_def
  m_download_invoice_pdf_def m_set_next_invoice_number_def write_final_def

lemma read_only_mutation:
  assumes "h_read_only (rq_db rq)"
  shows "spure (run_mutation ser p rq m)"
proof -
  note ops = spure_db_call [OF read_only_spure(1) [OF assms]] spure_db_call [OF read_only_spure(2) [OF assms]]
    spure_db_call [OF read_only_spure(3) [OF assms]] spure_db_call [OF read_only_spure(4) [OF assms]]
    spure_db_call [OF read_only_spure(5) [OF assms]] spure_db_call [OF read_only_spure(6) [OF assms]]
    spure_db_call [OF read_only_spure(7) [OF assms]] spure_db_call [OF read_only_spure(8) [OF assms]]
    spure_db_call [OF read_only_spure(9) [OF assms]] spure_db_call [OF read_only_spure(10) [OF assms]]
    spure_db_call [OF read_only_spure(11) [OF assms]] spure_db_call [OF read_only_spure(12) [OF assms]]
    spure_db_call [OF read_only_spure(13) [OF assms]] spure_db_call [OF read_only_spure(14) [OF assms]]
  have "spure (\<lambda>s. run_mutation ser p rq m s)"
    by (cases m; simp only: run_mutation.simps; rule spure_drop;
        simp add: mutation_defs ops spure_option)
  then show ?thesis by simp
qed

end
