(* ===== verification/Invoice_Demo.thy ===== *)
theory Invoice_Demo
  imports Invoice_Runs
begin

section \<open>A worked run\<close>

text \<open>
  One run of the system, used by the witnesses of the properties about reachable states: an
  item is recorded, put on a draft invoice, the draft is read, its item is read, a number is
  allocated and the invoice is finalized. The serialiser of the run keeps the title only.
\<close>

definition demo_ser :: "invoice_snapshot \<Rightarrow> string + string" where
  "demo_ser snap = Inr (snap_title snap)"

definition demo_fields :: item_fields where
  "demo_fields = \<lparr>fld_date = ''2026-01-02'', fld_description = ''work'',
     fld_quantity_hundredths = 150, fld_unit_price_cents = 10000\<rparr>"

definition demo_start :: sys where
  "demo_start = \<lparr>sy_db = (\<lambda>t k. None), sy_reads = {}, sy_items = {}, sy_numbers = {}, sy_used = {}\<rparr>"

definition demo_db1 :: store where
  "demo_db1 = apply_all remdups [create_billable_item_req ''i1'' 1 ''n1'' ''p1'' demo_fields ''u1''] (\<lambda>t k. None)"

definition demo_db2 :: store where
  "demo_db2 = apply_all remdups (create_invoice_reqs remdups ''v1'' 2 ''n1'' ''p1'' [''i1''] ''u1'') demo_db1"

definition demo_db3 :: store where
  "demo_db3 = apply_all remdups [increment_counter_req ''n1''] demo_db2"

definition demo_invoice :: invoice where
  "demo_invoice =
     \<lparr>inv_id = ''v1'', inv_instance_id = ''n1'', inv_project_id = ''p1'', inv_status = Draft, inv_version = 1,
      inv_item_ids = [''i1''], inv_created_by_user_id = ''u1'', inv_created_at = 2, inv_updated_at = 2,
      inv_number = None, inv_issue_date = None, inv_snapshot = None, inv_total_cents = None,
      inv_finalized_at = None, inv_finalized_by_user_id = None, inv_paid_date = None, inv_pdf_s3_key = None\<rparr>"

definition demo_snapshot :: invoice_snapshot where
  "demo_snapshot = build_snapshot sample_instance sample_project [sample_item] (Some 1) (Some ''2026-02-01'')"

definition demo_db4 :: store where
  "demo_db4 = apply_all remdups
     [finalize_invoice_req 4 ''v1'' 1 1 ''2026-02-01'' (snap_title demo_snapshot)
        (snap_total_cents demo_snapshot) ''u1''] demo_db3"

definition demo_end :: sys where
  "demo_end = \<lparr>sy_db = demo_db4, sy_reads = {demo_invoice}, sy_items = {(demo_invoice, sample_item)},
     sy_numbers = {}, sy_used = {''v1'', ''i1''}\<rparr>"

lemmas demo_eval = commits_def applicable_def apply_all_def cond_holds_def attrs_of_def apply_write_def
  set_row_def update_base_def

lemma demo_commit1:
  "commits remdups (\<lambda>t k. None) [create_billable_item_req ''i1'' 1 ''n1'' ''p1'' demo_fields ''u1''] demo_db1"
  by (simp add: demo_eval demo_db1_def create_billable_item_req_def)

lemma demo_items1:
  "items demo_db1 = [''i1'' \<mapsto> billable_item_row ''i1'' 1 ''n1'' ''p1'' demo_fields ''u1'']"
  "invoices demo_db1 = Map.empty" "counters demo_db1 = Map.empty"
  by (auto simp: fun_eq_iff demo_eval demo_db1_def create_billable_item_req_def)

lemma demo_commit2:
  "commits remdups demo_db1 (create_invoice_reqs remdups ''v1'' 2 ''n1'' ''p1'' [''i1''] ''u1'') demo_db2"
  using demo_items1
  by (simp add: commits_def applicable_def demo_db2_def create_invoice_reqs_def attach_req_def cond_holds_def
    attrs_of_def billable_item_row_def)

lemma demo_rows2:
  "invoices demo_db2 = [''v1'' \<mapsto> invoice_row remdups ''v1'' 2 ''n1'' ''p1'' [''i1''] ''u1'']"
  "items demo_db2 = [''i1'' \<mapsto> (billable_item_row ''i1'' 1 ''n1'' ''p1'' demo_fields ''u1'')(''invoice_id'' \<mapsto> AS ''v1'')]"
  "counters demo_db2 = Map.empty"
proof -
  note e = commits_attach [OF demo_commit2 [unfolded create_invoice_reqs_def], of "''v1''", simplified]
  show "invoices demo_db2 = [''v1'' \<mapsto> invoice_row remdups ''v1'' 2 ''n1'' ''p1'' [''i1''] ''u1'']"
    using e(1) demo_items1 by simp
  show "items demo_db2 = [''i1'' \<mapsto> (billable_item_row ''i1'' 1 ''n1'' ''p1'' demo_fields ''u1'')(''invoice_id'' \<mapsto> AS ''v1'')]"
    using e(2) demo_items1 by (auto simp: attach_def fun_eq_iff)
  show "counters demo_db2 = Map.empty" using e(5) [of "''counter''"] demo_items1 by simp
qed

lemma demo_read_invoice: "hydrated hydrate_invoice (invoices demo_db2 ''v1'') = Inr (Some demo_invoice)"
  by (simp add: hydrated_Some demo_rows2 hydrate_invoice_def invoice_row_def demo_invoice_def row_simps
    item_id_field_def need_string_def need_i64_def string_field_def i64_field_def string_set_field_def
    in_i64_def i64_min_def i64_max_def as_u64_def parse_invoice_status_def Let_def)

lemma demo_read_item: "hydrated hydrate_billable_item (items demo_db2 ''i1'') = Inr (Some sample_item)"
  by (simp add: hydrated_Some demo_rows2 hydrate_billable_item_def billable_item_row_def sample_item_def demo_fields_def
    item_id_field_def need_string_def need_i64_def string_field_def i64_field_def
    in_i64_def i64_min_def i64_max_def as_u64_def)

lemma demo_commit3: "commits remdups demo_db2 [increment_counter_req ''n1''] demo_db3"
  using demo_rows2
  by (simp add: commits_def applicable_def demo_db3_def increment_counter_req_def cond_holds_def update_base_def)

lemma demo_rows3:
  "invoices demo_db3 = invoices demo_db2" "items demo_db3 = items demo_db2"
  "counters demo_db3 = [''n1'' \<mapsto> [''id'' \<mapsto> AS ''n1'', ''next_invoice_number'' \<mapsto> AN 1]]"
  using commits_one_table [OF demo_commit3, of "''counter''" "''n1''"] demo_rows2
  by (simp_all add: increment_counter_req_def update_base_def)

lemma demo_allocated: "allocated_number ''n1'' demo_db3 = {(''n1'', 1)}"
  by (simp add: allocated_number_def demo_rows3 u64_attr_def attrs_of_def u64_max_def)

lemma demo_total:
  "snap_title demo_snapshot = ''Tax Invoice''" "snap_total_cents demo_snapshot = 16500"
  by (simp_all add: demo_snapshot_def build_snapshot_fields sample_instance_def sample_item_def item_amount_def
    sum_i64_def wrap_i64_def line_amount_cents_def gst_cents_def div_round_half_up_def quot_def clamp_i64_def
    in_i64_def i64_min_def i64_max_def)

lemma demo_final:
  "final_snapshot sample_instance sample_project [sample_item] (number_u32 1) ''2026-02-01'' = Inr demo_snapshot"
proof -
  have "build_snapshot sample_instance sample_project [sample_item] (Some (number_u32 1)) (Some ''2026-02-01'') = demo_snapshot"
    by (simp add: demo_snapshot_def number_u32_def u32_max_def)
  then show ?thesis
    by (simp add: final_snapshot_def demo_total validate_total_within_safe_integer_def MAX_SAFE_TOTAL_CENTS_def)
qed

lemma demo_commit4:
  "commits remdups demo_db3
     [finalize_invoice_req 4 ''v1'' 1 1 ''2026-02-01'' (snap_title demo_snapshot)
        (snap_total_cents demo_snapshot) ''u1''] demo_db4"
  using demo_rows2 demo_rows3
  by (simp add: commits_def applicable_def demo_db4_def finalize_invoice_req_def cond_holds_def attrs_of_def
    draft_at_def invoice_row_def update_base_def)

text \<open>The state before the last step.\<close>

definition demo_mid :: sys where
  "demo_mid = \<lparr>sy_db = demo_db3, sy_reads = {demo_invoice}, sy_items = {(demo_invoice, sample_item)},
     sy_numbers = {(''n1'', 1)}, sy_used = {''v1'', ''i1''}\<rparr>"

lemma demo_mid_reachable: "reachable remdups demo_ser demo_mid"
proof -
  let ?c1 = "demo_start\<lparr>sy_db := demo_db1, sy_used := insert ''i1'' (sy_used demo_start)\<rparr>"
  let ?c2 = "?c1\<lparr>sy_db := demo_db2, sy_used := insert ''v1'' (sy_used ?c1)\<rparr>"
  let ?c3 = "?c2\<lparr>sy_reads := insert demo_invoice (sy_reads ?c2)\<rparr>"
  let ?c4 = "?c3\<lparr>sy_items := insert (demo_invoice, sample_item) (sy_items ?c3)\<rparr>"
  let ?c5 = "?c4\<lparr>sy_db := demo_db3, sy_numbers := sy_numbers ?c4 \<union> allocated_number ''n1'' demo_db3\<rparr>"
  have "reachable remdups demo_ser demo_start"
    by (rule reachable.start) (simp add: init_sys_def demo_start_def)
  then have "reachable remdups demo_ser ?c1"
    by (rule reachable.more, intro step.create_item) (use demo_commit1 in \<open>simp_all add: demo_start_def\<close>)
  then have "reachable remdups demo_ser ?c2"
    by (rule reachable.more, intro step.create) (use demo_commit2 in \<open>simp_all add: demo_start_def\<close>)
  then have "reachable remdups demo_ser ?c3"
    by (rule reachable.more, intro step.read_invoice [where k = "''v1''"]) (use demo_read_invoice in simp)
  then have "reachable remdups demo_ser ?c4"
    by (rule reachable.more, intro step.read_item [where k = "''i1''"]) (use demo_read_item in simp_all)
  then have "reachable remdups demo_ser ?c5"
    by (rule reachable.more, intro step.allocate) (use demo_commit3 in simp)
  moreover have "?c5 = demo_mid" by (simp add: demo_mid_def demo_start_def demo_allocated)
  ultimately show ?thesis by simp
qed

lemma demo_reachable: "reachable remdups demo_ser demo_end"
proof -
  have "step remdups demo_ser demo_mid
      (demo_mid\<lparr>sy_db := demo_db4, sy_numbers := sy_numbers demo_mid - {(inv_instance_id demo_invoice, 1)}\<rparr>)"
  proof (rule step.finalize [where xs = "[sample_item]" and snap = demo_snapshot
        and json = "snap_title demo_snapshot" and inst = sample_instance and proj = sample_project
        and date = "''2026-02-01''" and now = 4 and u = "''u1''"])
    show "final_snapshot sample_instance sample_project [sample_item] (number_u32 1) ''2026-02-01'' = Inr demo_snapshot"
      by (rule demo_final)
    show "commits remdups (sy_db demo_mid) [finalize_invoice_req 4 (inv_id demo_invoice) (inv_version demo_invoice)
        (number_u32 1) ''2026-02-01'' (snap_title demo_snapshot) (snap_total_cents demo_snapshot) ''u1''] demo_db4"
      using demo_commit4 by (simp add: demo_mid_def demo_invoice_def number_u32_def u32_max_def)
    show "resolved demo_mid demo_invoice [sample_item]"
      by (simp add: resolved_def demo_mid_def) (simp add: demo_invoice_def sample_item_def)
    show "finalizable demo_invoice = Inr ()" by (simp add: finalizable_def demo_invoice_def)
    show "(inv_instance_id demo_invoice, 1) \<in> sy_numbers demo_mid" by (simp add: demo_mid_def demo_invoice_def)
  qed (simp_all add: demo_mid_def demo_ser_def)
  moreover have "demo_mid\<lparr>sy_db := demo_db4, sy_numbers := sy_numbers demo_mid - {(inv_instance_id demo_invoice, 1)}\<rparr>
      = demo_end"
    by (simp add: demo_end_def demo_mid_def) (simp add: demo_invoice_def)
  ultimately show ?thesis using reachable.more [OF demo_mid_reachable] by metis
qed

lemma demo_row:
  "invoices demo_db4 ''v1'' = Some (final_row 4 1 1 ''2026-02-01'' ''Tax Invoice'' 16500 ''u1''
     (invoice_row remdups ''v1'' 2 ''n1'' ''p1'' [''i1''] ''u1''))"
proof -
  from finalize_effect [OF demo_commit4] demo_rows3(1) demo_rows2(1) show ?thesis
    by (auto simp: demo_total)
qed

lemma demo_is_final: "\<exists>it. invoices (sy_db demo_end) ''v1'' = Some it \<and> is_final it \<and> ids_in it = {''i1''}"
  by (simp add: demo_end_def demo_row) (simp add: ids_in_def invoice_row_def Let_def)

end
