(* ===== verification/Mail_Routing.thy ===== *)
theory Mail_Routing
  imports Domain
begin

section \<open>Inbound mail: loop guards, addresses, attachment names\<close>

text \<open>
  The pure half of the inbound mail path: \<^verbatim>\<open>api/src/mailloop.rs\<close> (which messages are
  dropped for their headers), \<^verbatim>\<open>api/src/inbound/routing.rs\<close> (how a recipient address is
  normalised and looked up) and \<^verbatim>\<open>api/src/inbound/attachments.rs\<close> (how an untrusted file
  name becomes a storage key). A string is its UTF-8 bytes, so a character is found by its first
  byte. \<^verbatim>\<open>str::to_lowercase\<close> follows the Unicode tables and is the parameter \<open>lower\<close>; the
  locale \<open>lowercase\<close> states what is used of it, and the ASCII case folding, which the code uses
  itself, satisfies it.
\<close>

subsection \<open>Case folding\<close>

definition is_ascii :: "char \<Rightarrow> bool" where
  "is_ascii c \<longleftrightarrow> (of_char c :: nat) < 128"

definition ascii_lower :: "char \<Rightarrow> char" where
  "ascii_lower c = (if is_ascii_uppercase c then char_of (of_char c + 32 :: nat) else c)"

definition to_ascii_lowercase :: "string \<Rightarrow> string" where
  "to_ascii_lowercase s = map ascii_lower s"

definition eq_ignore_ascii_case :: "string \<Rightarrow> string \<Rightarrow> bool" where
  "eq_ignore_ascii_case a b \<longleftrightarrow> to_ascii_lowercase a = to_ascii_lowercase b"

locale lowercase =
  fixes lower :: "string \<Rightarrow> string"
  assumes lower_ascii: "list_all is_ascii s \<Longrightarrow> lower s = to_ascii_lowercase s"
    and lower_idem: "lower (lower s) = lower s"
    and lower_keeps: "c \<in> {CHR ''@'', CHR ''+'', CHR ''*''} \<Longrightarrow> c \<in> set (lower s) \<longleftrightarrow> c \<in> set s"
    and lower_at: "lower (a @ CHR ''@'' # b) = lower a @ CHR ''@'' # lower b"

lemma of_char_ascii_lower:
  "(of_char (ascii_lower c) :: nat) = (if is_ascii_uppercase c then of_char c + 32 else of_char c)"
  by (simp add: ascii_lower_def is_ascii_uppercase_def)

lemma ascii_lower_idem [simp]: "ascii_lower (ascii_lower c) = ascii_lower c"
proof -
  have "\<not> is_ascii_uppercase (ascii_lower c)"
    by (auto simp: is_ascii_uppercase_def of_char_ascii_lower)
  then show ?thesis by (simp add: ascii_lower_def)
qed

lemma ascii_lower_eq_special:
  assumes "c \<in> {CHR ''@'', CHR ''+'', CHR ''*''}"
  shows "ascii_lower x = c \<longleftrightarrow> x = c"
proof
  assume "ascii_lower x = c"
  then have "(of_char (ascii_lower x) :: nat) = of_char c" by simp
  moreover have "(of_char c :: nat) \<in> {64, 43, 42}" using assms by auto
  ultimately have "\<not> is_ascii_uppercase x"
    by (auto simp: of_char_ascii_lower is_ascii_uppercase_def split: if_splits)
  with \<open>ascii_lower x = c\<close> show "x = c" by (simp add: ascii_lower_def)
next
  assume "x = c"
  then show "ascii_lower x = c" using assms by (auto simp: ascii_lower_def is_ascii_uppercase_def)
qed

interpretation ascii: lowercase to_ascii_lowercase
proof
  fix c s assume "c \<in> {CHR ''@'', CHR ''+'', CHR ''*''}"
  from ascii_lower_eq_special [OF this] show "c \<in> set (to_ascii_lowercase s) \<longleftrightarrow> c \<in> set s"
    unfolding to_ascii_lowercase_def by (force simp: image_iff)
qed (simp_all add: to_ascii_lowercase_def ascii_lower_def is_ascii_uppercase_def comp_def)

subsection \<open>Loop guards (\<^verbatim>\<open>mailloop.rs\<close>)\<close>

datatype drop_reason =
    AutoSubmitted string
  | Precedence string
  | OwnLoopHeader
  | FromOwnAddress string

fun drop_reason_str :: "drop_reason \<Rightarrow> string" where
  "drop_reason_str (AutoSubmitted v) = ''Auto-Submitted: '' @ v"
| "drop_reason_str (Precedence v) = ''Precedence: '' @ v"
| "drop_reason_str OwnLoopHeader = ''X-Toolbox-Loop header present''"
| "drop_reason_str (FromOwnAddress addr) = ''From ('' @ addr @ '') is one of our own addresses''"

record loop_headers =
  lh_auto_submitted :: "string option"
  lh_precedence :: "string option"
  lh_loop_header_present :: bool

definition auto_submitted_reason :: "string option \<Rightarrow> drop_reason option" where
  "auto_submitted_reason h =
     (case h of
        None \<Rightarrow> None
      | Some v \<Rightarrow>
         (let trimmed = trim v in
          if \<not> eq_ignore_ascii_case trimmed ''no'' then Some (AutoSubmitted trimmed) else None))"

definition precedence_reason :: "(string \<Rightarrow> string) \<Rightarrow> string option \<Rightarrow> drop_reason option" where
  "precedence_reason lower h =
     (case h of
        None \<Rightarrow> None
      | Some v \<Rightarrow>
         (let l = lower (trim v) in
          if l \<in> {''bulk'', ''list'', ''junk''} then Some (Precedence l) else None))"

definition check_structural :: "(string \<Rightarrow> string) \<Rightarrow> loop_headers \<Rightarrow> drop_reason option" where
  "check_structural lower h =
     (case auto_submitted_reason (lh_auto_submitted h) of
        Some r \<Rightarrow> Some r
      | None \<Rightarrow>
         (case precedence_reason lower (lh_precedence h) of
            Some r \<Rightarrow> Some r
          | None \<Rightarrow> if lh_loop_header_present h then Some OwnLoopHeader else None))"

lemma check_structural_None_iff:
  "check_structural lower h = None \<longleftrightarrow>
     (\<forall>v. lh_auto_submitted h = Some v \<longrightarrow> eq_ignore_ascii_case (trim v) ''no'')
     \<and> (\<forall>v. lh_precedence h = Some v \<longrightarrow> lower (trim v) \<notin> {''bulk'', ''list'', ''junk''})
     \<and> \<not> lh_loop_header_present h"
  by (auto simp: check_structural_def auto_submitted_reason_def precedence_reason_def Let_def
      split: option.splits)

subsection \<open>Recipient addresses (\<^verbatim>\<open>inbound/routing.rs\<close>)\<close>

record normalized_recipient =
  nr_address :: string
  nr_tag :: "string option"
  nr_domain :: "string option"

definition normalize_recipient :: "(string \<Rightarrow> string) \<Rightarrow> string \<Rightarrow> normalized_recipient" where
  "normalize_recipient lower raw =
     (case split_once (CHR ''@'') raw of
        Some (local, domain) \<Rightarrow>
         (let domain_lower = lower domain in
          case split_once (CHR ''+'') local of
            Some (base, tag) \<Rightarrow>
              \<lparr>nr_address = lower base @ ''@'' @ domain_lower, nr_tag = Some tag,
               nr_domain = Some domain_lower\<rparr>
          | None \<Rightarrow>
              \<lparr>nr_address = lower local @ ''@'' @ domain_lower, nr_tag = None,
               nr_domain = Some domain_lower\<rparr>)
      | None \<Rightarrow> \<lparr>nr_address = lower raw, nr_tag = None, nr_domain = None\<rparr>)"

definition wildcard_for_domain :: "string \<Rightarrow> string" where
  "wildcard_for_domain domain = ''*@'' @ domain"

definition lookup_keys :: "(string \<Rightarrow> string) \<Rightarrow> string \<Rightarrow> string list" where
  "lookup_keys lower raw =
     (let n = normalize_recipient lower raw
      in nr_address n # (case nr_domain n of None \<Rightarrow> [] | Some d \<Rightarrow> [wildcard_for_domain d]))"

fun resolve :: "(string \<Rightarrow> string) \<Rightarrow> (string \<Rightarrow> bool) \<Rightarrow> string list \<Rightarrow> string option" where
  "resolve lower is_known [] = None"
| "resolve lower is_known (recipient # recipients) =
     (case find is_known (lookup_keys lower recipient) of
        Some key \<Rightarrow> Some key
      | None \<Rightarrow> resolve lower is_known recipients)"

datatype address_kind = Exact | Wildcard

fun address_kind_str :: "address_kind \<Rightarrow> string" where
  "address_kind_str Exact = ''exact''"
| "address_kind_str Wildcard = ''wildcard''"

definition parse_address_kind :: "string \<Rightarrow> address_kind option" where
  "parse_address_kind s =
     (if s = ''exact'' then Some Exact else if s = ''wildcard'' then Some Wildcard else None)"

datatype address_error =
    AddressMissingAt string
  | AddressNoDomain string
  | AddressStarMisplaced string
  | AddressNoLocal string

definition classify_for_storage ::
    "(string \<Rightarrow> string) \<Rightarrow> string \<Rightarrow> address_error + string \<times> address_kind" where
  "classify_for_storage lower raw =
     (let l = lower (trim raw) in
      case split_once (CHR ''@'') l of
        None \<Rightarrow> Inl (AddressMissingAt raw)
      | Some (local, domain) \<Rightarrow>
          if domain = [] then Inl (AddressNoDomain raw)
          else if local = ''*'' then Inr (l, Wildcard)
          else if CHR ''*'' \<in> set local \<or> CHR ''*'' \<in> set domain then Inl (AddressStarMisplaced raw)
          else if local = [] then Inl (AddressNoLocal raw)
          else Inr (l, Exact))"

lemma parse_address_kind_str [simp]: "parse_address_kind (address_kind_str k) = Some k"
  by (cases k) (simp_all add: parse_address_kind_def)

lemma resolve_find: "resolve lower p rs = find p (concat (map (lookup_keys lower) rs))"
proof (induction rs)
  case (Cons r rs)
  have "find p (xs @ ys) = (case find p xs of None \<Rightarrow> find p ys | Some x \<Rightarrow> Some x)" for xs ys :: "string list"
    by (induction xs) auto
  with Cons show ?case by (auto split: option.splits)
qed simp

context lowercase begin

lemma lower_no_at: "CHR ''@'' \<notin> set a \<Longrightarrow> CHR ''@'' \<notin> set (lower a)"
  by (simp add: lower_keeps)

lemma address_parts:
  assumes "addr \<in> set (lookup_keys lower r)" "split_once (CHR ''@'') addr = Some (l, d)"
  shows "CHR ''+'' \<notin> set l"
proof (cases "split_once (CHR ''@'') r")
  case None
  then have "CHR ''@'' \<notin> set r" by (simp add: split_once_None)
  then have "split_once (CHR ''@'') (lower r) = None" by (simp add: lower_no_at split_once_None)
  with None assms show ?thesis by (simp add: lookup_keys_def normalize_recipient_def)
next
  case (Some p)
  obtain local dom where p: "p = (local, dom)" by (cases p)
  note r = split_once_SomeD [OF Some [unfolded p]]
  have star: "split_once (CHR ''@'') (''*@'' @ lower dom) = Some (''*'', lower dom)" by simp
  show ?thesis
  proof (cases "split_once (CHR ''+'') local")
    case None
    then have plus: "CHR ''+'' \<notin> set local" by (simp add: split_once_None)
    have "split_once (CHR ''@'') (lower local @ ''@'' @ lower dom) = Some (lower local, lower dom)"
      using split_once_append [OF lower_no_at, of local "lower dom"] r by simp
    with Some p None assms star plus show ?thesis
      by (auto simp: lookup_keys_def normalize_recipient_def wildcard_for_domain_def lower_keeps Let_def)
  next
    case (Some q)
    obtain base tag where q: "q = (base, tag)" by (cases q)
    note b = split_once_SomeD [OF Some [unfolded q]]
    have "CHR ''@'' \<notin> set base" using b r by auto
    then have "split_once (CHR ''@'') (lower base @ ''@'' @ lower dom) = Some (lower base, lower dom)"
      using split_once_append [OF lower_no_at, of base "lower dom"] by simp
    with \<open>split_once (CHR ''@'') r = Some p\<close> p Some q assms star b show ?thesis
      by (auto simp: lookup_keys_def normalize_recipient_def wildcard_for_domain_def lower_keeps Let_def)
  qed
qed

lemma normalize_plain:
  assumes "split_once (CHR ''@'') addr = Some (l, d)" "CHR ''+'' \<notin> set l" "lower addr = addr"
  shows "nr_address (normalize_recipient lower addr) = addr"
proof -
  note a = split_once_SomeD [OF assms(1)]
  have "split_once (CHR ''+'') l = None" using assms(2) by (simp add: split_once_None)
  moreover have "lower l @ CHR ''@'' # lower d = addr" using assms(3) a lower_at [of l d] by simp
  ultimately show ?thesis using assms(1) by (simp add: normalize_recipient_def)
qed

lemma classify_lower:
  assumes "classify_for_storage lower raw = Inr (addr, k)"
  shows "lower addr = addr" "\<exists>l d. split_once (CHR ''@'') addr = Some (l, d) \<and> d \<noteq> []"
  using assms lower_idem
  by (auto simp: classify_for_storage_def Let_def split: option.splits prod.splits if_splits)

lemma stored_address_reachable:
  assumes "classify_for_storage lower raw = Inr (addr, k)"
  shows "(\<exists>r. addr \<in> set (lookup_keys lower r)) \<longleftrightarrow> CHR ''+'' \<notin> set (takeWhile (\<lambda>c. c \<noteq> CHR ''@'') addr)"
proof -
  note c = classify_lower [OF assms]
  then obtain l d where s: "split_once (CHR ''@'') addr = Some (l, d)" by blast
  note a = split_once_SomeD [OF s]
  have "\<And>c. c \<in> set l \<Longrightarrow> c \<noteq> CHR ''@''" using a by auto
  with a have t: "takeWhile (\<lambda>c. c \<noteq> CHR ''@'') addr = l" by (simp add: takeWhile_append2)
  show ?thesis
  proof
    assume "\<exists>r. addr \<in> set (lookup_keys lower r)"
    then show "CHR ''+'' \<notin> set (takeWhile (\<lambda>c. c \<noteq> CHR ''@'') addr)" using address_parts s t by auto
  next
    assume "CHR ''+'' \<notin> set (takeWhile (\<lambda>c. c \<noteq> CHR ''@'') addr)"
    then have "nr_address (normalize_recipient lower addr) = addr" using normalize_plain [OF s _ c(1)] t by simp
    then have "addr \<in> set (lookup_keys lower addr)" by (simp add: lookup_keys_def Let_def)
    then show "\<exists>r. addr \<in> set (lookup_keys lower r)" ..
  qed
qed

end

text \<open>
  Which stored addresses can receive mail. An address accepted by
  \<^verbatim>\<open>classify_for_storage\<close> is ever tried by \<^verbatim>\<open>lookup_keys\<close>, for any recipient at all, exactly
  when its local part has no plus sign: routing strips the tag before it looks an address up, so
  an address stored with one receives nothing.
\<close>

theorem stored_address_reachable_iff:
  assumes "lowercase lower" "classify_for_storage lower raw = Inr (addr, k)"
  shows "(\<exists>r. addr \<in> set (lookup_keys lower r)) \<longleftrightarrow> CHR ''+'' \<notin> set (takeWhile (\<lambda>c. c \<noteq> CHR ''@'') addr)"
  using assms by (rule lowercase.stored_address_reachable)

theorem stored_address_reachable_iff_witness:
  "\<not> (\<exists>r. ''help+eu@acme.test'' \<in> set (lookup_keys to_ascii_lowercase r))"
proof -
  have t: "trim ''help+eu@acme.test'' = ''help+eu@acme.test''" by (rule trim_all_plain) (auto simp: plain_char_def)
  have "classify_for_storage to_ascii_lowercase ''help+eu@acme.test'' = Inr (''help+eu@acme.test'', Exact)"
    by (simp add: classify_for_storage_def t to_ascii_lowercase_def ascii_lower_def is_ascii_uppercase_def)
  from stored_address_reachable_iff [OF ascii.lowercase_axioms this] show ?thesis by simp
qed

end
