(* ===== verification/Desk_Domain.thy ===== *)
theory Desk_Domain
  imports Mail_Routing
begin

section \<open>Helpdesk rows\<close>

text \<open>
  The row types of \<^verbatim>\<open>api/src/db.rs\<close> that only the helpdesk half uses: inbound addresses,
  memberships, users, ticket messages with their attachments, and the update shapes of a
  message.
\<close>

record inbound_address =
  ia_address :: string
  ia_instance_id :: string
  ia_kind :: address_kind
  ia_created_at :: nat

record membership =
  mb_id :: string
  mb_user_id :: string
  mb_instance_id :: string
  mb_role :: membership_role
  mb_notification_settings :: notification_settings

record user =
  usr_id :: string
  usr_email :: string
  usr_name :: string
  usr_enabled :: bool
  usr_created_at :: nat
  usr_access_time :: "nat option"
  usr_superuser :: bool

datatype message_kind = Inbound | Reply | Note | System

fun message_kind_str :: "message_kind \<Rightarrow> string" where
  "message_kind_str Inbound = ''inbound''"
| "message_kind_str Reply = ''reply''"
| "message_kind_str Note = ''note''"
| "message_kind_str System = ''system''"

definition parse_message_kind :: "string \<Rightarrow> message_kind option" where
  "parse_message_kind s =
     (if s = ''inbound'' then Some Inbound
      else if s = ''reply'' then Some Reply
      else if s = ''note'' then Some Note
      else if s = ''system'' then Some System else None)"

record attachment =
  at_s3_key :: string
  at_filename :: string
  at_content_type :: string
  at_size :: nat

record ticket_message =
  msg_id :: string
  msg_ticket_id :: string
  msg_kind :: message_kind
  msg_author_user_id :: "string option"
  msg_from_email :: "string option"
  msg_to_emails :: "string list"
  msg_cc_emails :: "string list"
  msg_body_text :: "string option"
  msg_body_html :: "string option"
  msg_rfc_message_id :: "string option"
  msg_in_reply_to :: "string option"
  msg_references :: "string option"
  msg_attachments :: "attachment list"
  msg_raw_s3_key :: "string option"
  msg_created_at :: nat

datatype message_update =
    SetRfcMessageId string
  | SetRawS3Key string
  | SetAttachments "attachment list"

lemma parse_message_kind_str [simp]: "parse_message_kind (message_kind_str k) = Some k"
  by (cases k) (simp_all add: parse_message_kind_def)

end
