(* ===== verification/Ticket_Store.thy ===== *)
theory Ticket_Store
  imports Invoice_Store Batch_Get Desk_Domain "HOL-Library.Product_Lexorder" "HOL-Library.Multiset"
begin

section \<open>Tickets and messages in the store\<close>

text \<open>
  The \<^verbatim>\<open>ticket\<close>, \<^verbatim>\<open>ticket_message\<close>, \<^verbatim>\<open>processed_message\<close>, \<^verbatim>\<open>inbound_address\<close> and
  \<^verbatim>\<open>membership\<close> operations of \<^verbatim>\<open>api/src/dynamodb.rs\<close>, with the requests of the source:
  attribute names, update actions and conditions as written there. Ids, tokens and the clock are
  arguments. A secondary index is the parameter \<open>index\<close>: the rows of a table whose attribute
  has a value, in the state the index reflects; the locale \<open>index_service\<close> states what a query
  run to its last page returns.
\<close>

subsection \<open>Secondary indexes\<close>

type_synonym index = "store \<Rightarrow> string \<Rightarrow> string \<Rightarrow> string \<Rightarrow> string + item list"

definition rows_with :: "store \<Rightarrow> string \<Rightarrow> string \<Rightarrow> string \<Rightarrow> string set" where
  "rows_with s t a v = {k. attrs_of (s t k) a = Some (AS v)}"

locale index_service =
  fixes q :: index
  assumes query_rows: "q s t a v = Inr its \<Longrightarrow>
    \<exists>ks. distinct ks \<and> set ks = rows_with s t a v \<and> its = map (\<lambda>k. attrs_of (s t k)) ks"
begin

lemma query_row: "q s t a v = Inr its \<Longrightarrow> it \<in> set its \<Longrightarrow> \<exists>k. s t k = Some it \<and> it a = Some (AS v)"
  using query_rows by (fastforce simp: rows_with_def attrs_of_def split: option.splits)

end

definition ref_index :: index where
  "ref_index s t a v =
     (if finite (rows_with s t a v)
      then Inr (map (\<lambda>k. attrs_of (s t k)) (sorted_list_of_set (rows_with s t a v)))
      else Inl ''unbounded'')"

interpretation ref_ix: index_service ref_index
proof
  fix s t a v its assume "ref_index s t a v = Inr its"
  then have "finite (rows_with s t a v)"
    "its = map (\<lambda>k. attrs_of (s t k)) (sorted_list_of_set (rows_with s t a v))"
    by (simp_all add: ref_index_def split: if_splits)
  then show "\<exists>ks. distinct ks \<and> set ks = rows_with s t a v \<and> its = map (\<lambda>k. attrs_of (s t k)) ks"
    by (intro exI [of _ "sorted_list_of_set (rows_with s t a v)"]) simp
qed

text \<open>\<^verbatim>\<open>query_all\<close>: every page, hydrated up to the first bad row.\<close>

definition query_all :: "index \<Rightarrow> (item \<Rightarrow> string + 'r) \<Rightarrow> string \<Rightarrow> string \<Rightarrow> string \<Rightarrow> store \<Rightarrow> db_error + 'r list" where
  "query_all q f t a v s =
     rbind (map_err Infrastructure (q s t a v)) (\<lambda>its. map_err Hydration (mapM (hydrate_item f) its))"

definition query_ids :: "index \<Rightarrow> string \<Rightarrow> string \<Rightarrow> string \<Rightarrow> store \<Rightarrow> db_error + string list" where
  "query_ids q t a v s =
     rbind (map_err Infrastructure (q s t a v)) (\<lambda>its. map_err Hydration (mapM item_id_field its))"

subsection \<open>Hydration\<close>

definition hydrate_inbound_address :: "item \<Rightarrow> string + inbound_address" where
  "hydrate_inbound_address it =
     rbind (need_string it ''address'' ''InboundAddress missing address'') (\<lambda>address.
     rbind (need_string it ''kind'' ''InboundAddress missing kind'') (\<lambda>kind_str.
     rbind (ok_or (''InboundAddress has unrecognized kind: '' @ kind_str) (parse_address_kind kind_str)) (\<lambda>kind.
     rbind (need_string it ''instance_id'' ''InboundAddress missing instance_id'') (\<lambda>inst.
     rbind (need_i64 it ''created_at'' ''InboundAddress missing created_at'') (\<lambda>created.
     Inr \<lparr>ia_address = address, ia_instance_id = inst, ia_kind = kind,
          ia_created_at = as_u64 created\<rparr>)))))"

definition bool_or :: "item \<Rightarrow> string \<Rightarrow> bool \<Rightarrow> string + bool" where
  "bool_or it f d = rbind (bool_field it f) (\<lambda>b. Inr (unwrap_or d b))"

definition hydrate_membership :: "item \<Rightarrow> string + membership" where
  "hydrate_membership it =
     rbind (need_string it ''role'' ''Membership missing role'') (\<lambda>role_str.
     rbind (ok_or (''Membership has unrecognized role: '' @ role_str) (parse_membership_role role_str)) (\<lambda>role.
     rbind (item_id_field it) (\<lambda>i.
     rbind (need_string it ''user_id'' ''Membership missing user_id'') (\<lambda>uid.
     rbind (need_string it ''instance_id'' ''Membership missing instance_id'') (\<lambda>inst.
     let defaults = default_notification_settings in
     rbind (bool_or it ''notify_new_ticket'' (ns_new_ticket defaults)) (\<lambda>nt.
     rbind (bool_or it ''notify_assigned_to_me'' (ns_assigned_to_me defaults)) (\<lambda>am.
     rbind (bool_or it ''notify_assigned_to_me_updated'' (ns_assigned_to_me_updated defaults)) (\<lambda>amu.
     rbind (bool_or it ''notify_unassigned_updated'' (ns_unassigned_updated defaults)) (\<lambda>uu.
     rbind (bool_or it ''notify_assigned_to_others_updated''
             (ns_assigned_to_others_updated defaults)) (\<lambda>aou.
     Inr \<lparr>mb_id = i, mb_user_id = uid, mb_instance_id = inst, mb_role = role,
          mb_notification_settings =
            \<lparr>ns_new_ticket = nt, ns_assigned_to_me = am, ns_assigned_to_me_updated = amu,
             ns_unassigned_updated = uu, ns_assigned_to_others_updated = aou\<rparr>\<rparr>))))))))))"

definition hydrate_ticket :: "item \<Rightarrow> string + ticket" where
  "hydrate_ticket it =
     rbind (need_string it ''status'' ''Ticket missing status'') (\<lambda>status_str.
     rbind (ok_or (''Ticket has unrecognized status: '' @ status_str) (parse_ticket_status status_str)) (\<lambda>status.
     rbind (item_id_field it) (\<lambda>i.
     rbind (need_string it ''instance_id'' ''Ticket missing instance_id'') (\<lambda>inst.
     rbind (need_i64 it ''number'' ''Ticket missing number'') (\<lambda>number.
     rbind (need_string it ''subject'' ''Ticket missing subject'') (\<lambda>subject.
     rbind (string_set_field it ''requester_emails'') (\<lambda>requesters.
     rbind (string_set_field it ''cc_emails'') (\<lambda>ccs.
     rbind (string_field it ''assignee_user_id'') (\<lambda>assignee.
     rbind (need_string it ''reply_token'' ''Ticket missing reply_token'') (\<lambda>token.
     rbind (need_i64 it ''created_at'' ''Ticket missing created_at'') (\<lambda>created.
     rbind (need_i64 it ''updated_at'' ''Ticket missing updated_at'') (\<lambda>updated.
     rbind (need_i64 it ''last_activity_at'' ''Ticket missing last_activity_at'') (\<lambda>active.
     rbind (bool_or it ''has_attachments'' False) (\<lambda>has.
     Inr \<lparr>tkt_id = i, tkt_instance_id = inst, tkt_number = as_u64 number, tkt_subject = subject,
          tkt_status = status, tkt_requester_emails = requesters, tkt_cc_emails = ccs,
          tkt_assignee_user_id = assignee, tkt_reply_token = token,
          tkt_created_at = as_u64 created, tkt_updated_at = as_u64 updated,
          tkt_last_activity_at = as_u64 active, tkt_has_attachments = has\<rparr>))))))))))))))"

fun attachment_entry :: "string \<Rightarrow> attr \<Rightarrow> string + attachment" where
  "attachment_entry f (AM m) =
     rbind (need_string (map_of m) ''s3_key'' ''attachment missing s3_key'') (\<lambda>key.
     rbind (need_string (map_of m) ''filename'' ''attachment missing filename'') (\<lambda>name.
     rbind (need_string (map_of m) ''content_type'' ''attachment missing content_type'') (\<lambda>ct.
     rbind (need_i64 (map_of m) ''size'' ''attachment missing size'') (\<lambda>size.
     Inr \<lparr>at_s3_key = key, at_filename = name, at_content_type = ct, at_size = as_u64 size\<rparr>))))"
| "attachment_entry f v = Inl (''attachments entry in '' @ f @ '' is not a map'')"

definition attachment_list_field :: "item \<Rightarrow> string \<Rightarrow> string + attachment list" where
  "attachment_list_field it f =
     (case it f of
        None \<Rightarrow> Inr []
      | Some (AL vs) \<Rightarrow> mapM (attachment_entry f) vs
      | Some _ \<Rightarrow> Inl (''Item had attachments field of wrong type: '' @ f))"

definition hydrate_message :: "item \<Rightarrow> string + ticket_message" where
  "hydrate_message it =
     rbind (need_string it ''kind'' ''TicketMessage missing kind'') (\<lambda>kind_str.
     rbind (ok_or (''TicketMessage has unrecognized kind: '' @ kind_str) (parse_message_kind kind_str)) (\<lambda>kind.
     rbind (item_id_field it) (\<lambda>i.
     rbind (need_string it ''ticket_id'' ''TicketMessage missing ticket_id'') (\<lambda>tid.
     rbind (string_field it ''author_user_id'') (\<lambda>author.
     rbind (string_field it ''from_email'') (\<lambda>from.
     rbind (string_set_field it ''to_emails'') (\<lambda>tos.
     rbind (string_set_field it ''cc_emails'') (\<lambda>ccs.
     rbind (string_field it ''body_text'') (\<lambda>txt.
     rbind (string_field it ''body_html'') (\<lambda>html.
     rbind (string_field it ''rfc_message_id'') (\<lambda>rfc.
     rbind (string_field it ''in_reply_to'') (\<lambda>irt.
     rbind (string_field it ''references'') (\<lambda>refs.
     rbind (attachment_list_field it ''attachments'') (\<lambda>atts.
     rbind (string_field it ''raw_s3_key'') (\<lambda>raw.
     rbind (need_i64 it ''created_at'' ''TicketMessage missing created_at'') (\<lambda>created.
     Inr \<lparr>msg_id = i, msg_ticket_id = tid, msg_kind = kind, msg_author_user_id = author,
          msg_from_email = from, msg_to_emails = tos, msg_cc_emails = ccs, msg_body_text = txt,
          msg_body_html = html, msg_rfc_message_id = rfc, msg_in_reply_to = irt,
          msg_references = refs, msg_attachments = atts, msg_raw_s3_key = raw,
          msg_created_at = as_u64 created\<rparr>))))))))))))))))"

subsection \<open>Inbound addresses\<close>

definition inbound_address_row :: "string \<Rightarrow> string \<Rightarrow> address_kind \<Rightarrow> nat \<Rightarrow> item" where
  "inbound_address_row address instance_id kind now =
     [''address'' \<mapsto> AS address, ''instance_id'' \<mapsto> AS instance_id,
      ''kind'' \<mapsto> AS (address_kind_str kind), ''created_at'' \<mapsto> AN (int now)]"

definition create_inbound_address ::
    "handler \<Rightarrow> nat \<Rightarrow> string \<Rightarrow> string \<Rightarrow> address_kind \<Rightarrow> store \<Rightarrow> (db_error + inbound_address) \<times> store" where
  "create_inbound_address h now address instance_id kind s =
     (let (r, s') = send_plain h
            (Put ''inbound_address'' address (inbound_address_row address instance_id kind now) CTrue) s
      in (rbind r (\<lambda>_. Inr \<lparr>ia_address = address, ia_instance_id = instance_id, ia_kind = kind,
            ia_created_at = now\<rparr>), s'))"

definition get_inbound_address :: "handler \<Rightarrow> string \<Rightarrow> store \<Rightarrow> db_error + inbound_address option" where
  "get_inbound_address h address s =
     rbind (map_err Infrastructure (dy_get (h_svc h) s ''inbound_address'' address))
       (hydrated hydrate_inbound_address)"

definition delete_inbound_address :: "handler \<Rightarrow> string \<Rightarrow> store \<Rightarrow> (db_error + unit) \<times> store" where
  "delete_inbound_address h address s = send_plain h (Delete ''inbound_address'' address CTrue) s"

definition list_inbound_addresses_by_instance ::
    "index \<Rightarrow> string \<Rightarrow> store \<Rightarrow> db_error + inbound_address list" where
  "list_inbound_addresses_by_instance q instance_id s =
     query_all q hydrate_inbound_address ''inbound_address'' ''instance_id'' instance_id s"

subsection \<open>Memberships\<close>

definition membership_row :: "string \<Rightarrow> string \<Rightarrow> string \<Rightarrow> membership_role \<Rightarrow> item" where
  "membership_row i user_id instance_id role =
     [''id'' \<mapsto> AS i, ''user_id'' \<mapsto> AS user_id, ''instance_id'' \<mapsto> AS instance_id,
      ''role'' \<mapsto> AS (membership_role_str role)]"

definition create_membership ::
    "handler \<Rightarrow> string \<Rightarrow> string \<Rightarrow> string \<Rightarrow> membership_role \<Rightarrow> store \<Rightarrow> (db_error + membership) \<times> store" where
  "create_membership h i user_id instance_id role s =
     (let (r, s') = send_plain h (Put ''membership'' i (membership_row i user_id instance_id role) CTrue) s
      in (rbind r (\<lambda>_. Inr \<lparr>mb_id = i, mb_user_id = user_id, mb_instance_id = instance_id, mb_role = role,
            mb_notification_settings = default_notification_settings\<rparr>), s'))"

definition delete_membership :: "handler \<Rightarrow> string \<Rightarrow> store \<Rightarrow> (db_error + unit) \<times> store" where
  "delete_membership h i s = send_plain h (Delete ''membership'' i CTrue) s"

definition update_membership_role ::
    "handler \<Rightarrow> string \<Rightarrow> membership_role \<Rightarrow> store \<Rightarrow> (db_error + unit) \<times> store" where
  "update_membership_role h i role s =
     send_existing h (''Membership '' @ i)
       (Update ''membership'' ''id'' i [ASet ''role'' (AS (membership_role_str role))] (CExists ''id'')) s"

definition settings_actions :: "notification_patch \<Rightarrow> action list" where
  "settings_actions p =
     concat (map (\<lambda>(a, v). case v of None \<Rightarrow> [] | Some b \<Rightarrow> [ASet a (ABool b)])
       [(''notify_new_ticket'', np_new_ticket p),
        (''notify_assigned_to_me'', np_assigned_to_me p),
        (''notify_assigned_to_me_updated'', np_assigned_to_me_updated p),
        (''notify_unassigned_updated'', np_unassigned_updated p),
        (''notify_assigned_to_others_updated'', np_assigned_to_others_updated p)])"

definition update_membership_notification_settings ::
    "handler \<Rightarrow> string \<Rightarrow> notification_patch \<Rightarrow> store \<Rightarrow> (db_error + unit) \<times> store" where
  "update_membership_notification_settings h i p s =
     (case ensure_writable h of
        Inl e \<Rightarrow> (Inl e, s)
      | Inr _ \<Rightarrow>
          if patch_is_empty p then (Inr (), s)
          else send_existing h (''Membership '' @ i)
                 (Update ''membership'' ''id'' i (settings_actions p) (CExists ''id'')) s)"

definition list_memberships_by_user :: "index \<Rightarrow> string \<Rightarrow> store \<Rightarrow> db_error + membership list" where
  "list_memberships_by_user q user_id s =
     query_all q hydrate_membership ''membership'' ''user_id'' user_id s"

definition list_memberships_by_instance :: "index \<Rightarrow> string \<Rightarrow> store \<Rightarrow> db_error + membership list" where
  "list_memberships_by_instance q instance_id s =
     query_all q hydrate_membership ''membership'' ''instance_id'' instance_id s"

subsection \<open>Tickets\<close>

definition increment_ticket_counter_req :: "string \<Rightarrow> wreq" where
  "increment_ticket_counter_req instance_id =
     Update ''counter'' ''id'' instance_id [AAddN ''next_ticket_number'' 1] CTrue"

definition increment_ticket_counter :: "handler \<Rightarrow> string \<Rightarrow> store \<Rightarrow> (db_error + nat) \<times> store" where
  "increment_ticket_counter h instance_id s =
     (let (r, s') = send_plain h (increment_ticket_counter_req instance_id) s
      in (rbind r (\<lambda>_. ok_or (Infrastructure ''counter update missing next_ticket_number'')
            (u64_attr (s' ''counter'' instance_id) ''next_ticket_number'')), s'))"

definition set_attr :: "(string list \<Rightarrow> string list) \<Rightarrow> string \<Rightarrow> string list \<Rightarrow> item \<Rightarrow> item" where
  "set_attr ss a xs it = (if xs = [] then it else it(a \<mapsto> ASs (ss xs)))"

definition instance_number :: "string \<Rightarrow> nat \<Rightarrow> string" where
  "instance_number instance_id number = instance_id @ ''#'' @ show_nat number"

definition ticket_row ::
    "(string list \<Rightarrow> string list) \<Rightarrow> string \<Rightarrow> nat \<Rightarrow> string \<Rightarrow> string \<Rightarrow> nat \<Rightarrow> string \<Rightarrow> string list
     \<Rightarrow> string list \<Rightarrow> item" where
  "ticket_row ss i now reply_token instance_id number subject requester_emails cc_emails =
     (let markers = compute_ticket_markers instance_id TOpen None in
      set_attr ss ''cc_emails'' cc_emails (set_attr ss ''requester_emails'' requester_emails
        (opt_attr ''instance_visible'' (mk_instance_visible markers)
          [''id'' \<mapsto> AS i, ''instance_id'' \<mapsto> AS instance_id, ''number'' \<mapsto> AN (int number),
           ''subject'' \<mapsto> AS subject, ''status'' \<mapsto> AS (ticket_status_str TOpen),
           ''instance_status'' \<mapsto> AS (mk_instance_status markers),
           ''instance_number'' \<mapsto> AS (instance_number instance_id number),
           ''reply_token'' \<mapsto> AS reply_token, ''created_at'' \<mapsto> AN (int now),
           ''updated_at'' \<mapsto> AN (int now), ''last_activity_at'' \<mapsto> AN (int now)])))"

definition create_ticket_req ::
    "(string list \<Rightarrow> string list) \<Rightarrow> string \<Rightarrow> nat \<Rightarrow> string \<Rightarrow> string \<Rightarrow> nat \<Rightarrow> string \<Rightarrow> string list
     \<Rightarrow> string list \<Rightarrow> wreq" where
  "create_ticket_req ss i now reply_token instance_id number subject requester_emails cc_emails =
     Put ''ticket'' i (ticket_row ss i now reply_token instance_id number subject requester_emails cc_emails)
       (CNotExists ''id'')"

definition create_ticket ::
    "handler \<Rightarrow> string \<Rightarrow> nat \<Rightarrow> string \<Rightarrow> string \<Rightarrow> nat \<Rightarrow> string \<Rightarrow> string list \<Rightarrow> string list
     \<Rightarrow> store \<Rightarrow> (db_error + ticket) \<times> store" where
  "create_ticket h i now reply_token instance_id number subject requester_emails cc_emails s =
     (let (r, s') = send_plain h (create_ticket_req (dy_ss (h_svc h)) i now reply_token instance_id number
            subject requester_emails cc_emails) s
      in (rbind r (\<lambda>_. Inr
            \<lparr>tkt_id = i, tkt_instance_id = instance_id, tkt_number = number, tkt_subject = subject,
             tkt_status = TOpen, tkt_requester_emails = requester_emails, tkt_cc_emails = cc_emails,
             tkt_assignee_user_id = None, tkt_reply_token = reply_token, tkt_created_at = now,
             tkt_updated_at = now, tkt_last_activity_at = now, tkt_has_attachments = False\<rparr>), s'))"

definition touch_actions :: "nat \<Rightarrow> action list" where
  "touch_actions now =
     [ASet ''updated_at'' (AN (int now)), ASet ''last_activity_at'' (AN (int now))]"

fun ticket_actions :: "ticket_update \<Rightarrow> action list" where
  "ticket_actions (SetStatusAndAssignee instance_id status assignee now) =
     (let markers = compute_ticket_markers instance_id status assignee in
      [ASet ''status'' (AS (ticket_status_str status))] @ touch_actions now @
      [ASet ''instance_status'' (AS (mk_instance_status markers)),
       set_or_remove ''assignee_user_id'' assignee,
       set_or_remove ''instance_visible'' (mk_instance_visible markers),
       set_or_remove ''instance_assignee'' (mk_instance_assignee markers)])"
| "ticket_actions (AddRequester email now) = touch_actions now @ [AAddSs ''requester_emails'' [email]]"
| "ticket_actions (RemoveRequester email now) = touch_actions now @ [ADelSs ''requester_emails'' [email]]"
| "ticket_actions (AddCc email now) = touch_actions now @ [AAddSs ''cc_emails'' [email]]"
| "ticket_actions (RemoveCc email now) = touch_actions now @ [ADelSs ''cc_emails'' [email]]"
| "ticket_actions MarkHasAttachments = [ASet ''has_attachments'' (ABool True)]"
| "ticket_actions (Touch now) = touch_actions now"

definition update_ticket_req :: "string \<Rightarrow> ticket_update \<Rightarrow> wreq" where
  "update_ticket_req i change = Update ''ticket'' ''id'' i (ticket_actions change) (CExists ''id'')"

definition update_ticket :: "handler \<Rightarrow> string \<Rightarrow> ticket_update \<Rightarrow> store \<Rightarrow> (db_error + unit) \<times> store" where
  "update_ticket h i change s = send_existing h (''Ticket '' @ i) (update_ticket_req i change) s"

definition get_ticket_id_by_instance_number ::
    "index \<Rightarrow> string \<Rightarrow> nat \<Rightarrow> store \<Rightarrow> db_error + string option" where
  "get_ticket_id_by_instance_number q instance_id number s =
     (let key = instance_number instance_id number in
      rbind (query_ids q ''ticket'' ''instance_number'' key s) (\<lambda>ids.
        at_most_one ids (''Multiple tickets share instance_number '' @ key)))"

subsection \<open>Messages\<close>

definition message_row ::
    "(string list \<Rightarrow> string list) \<Rightarrow> string \<Rightarrow> nat \<Rightarrow> string \<Rightarrow> message_kind \<Rightarrow> string option \<Rightarrow> string option
     \<Rightarrow> string list \<Rightarrow> string list \<Rightarrow> string option \<Rightarrow> string option \<Rightarrow> string option \<Rightarrow> string option \<Rightarrow> item" where
  "message_row ss i now ticket_id kind author_user_id from_email to_emails cc_emails body_text
       body_html in_reply_to references =
     opt_attr ''references'' references (opt_attr ''in_reply_to'' in_reply_to
       (opt_attr ''body_html'' body_html (opt_attr ''body_text'' body_text
         (set_attr ss ''cc_emails'' cc_emails (set_attr ss ''to_emails'' to_emails
           (opt_attr ''from_email'' from_email (opt_attr ''author_user_id'' author_user_id
             [''id'' \<mapsto> AS i, ''ticket_id'' \<mapsto> AS ticket_id, ''kind'' \<mapsto> AS (message_kind_str kind),
              ''created_at'' \<mapsto> AN (int now)])))))))"

definition create_ticket_message ::
    "handler \<Rightarrow> string \<Rightarrow> nat \<Rightarrow> string \<Rightarrow> message_kind \<Rightarrow> string option \<Rightarrow> string option
     \<Rightarrow> string list \<Rightarrow> string list \<Rightarrow> string option \<Rightarrow> string option \<Rightarrow> string option \<Rightarrow> string option
     \<Rightarrow> store \<Rightarrow> (db_error + ticket_message) \<times> store" where
  "create_ticket_message h i now ticket_id kind author_user_id from_email to_emails cc_emails
       body_text body_html in_reply_to references s =
     (let (r, s') = send_plain h (Put ''ticket_message'' i
            (message_row (dy_ss (h_svc h)) i now ticket_id kind author_user_id from_email to_emails
               cc_emails body_text body_html in_reply_to references) (CNotExists ''id'')) s
      in (rbind r (\<lambda>_. Inr
            \<lparr>msg_id = i, msg_ticket_id = ticket_id, msg_kind = kind, msg_author_user_id = author_user_id,
             msg_from_email = from_email, msg_to_emails = to_emails, msg_cc_emails = cc_emails,
             msg_body_text = body_text, msg_body_html = body_html, msg_rfc_message_id = None,
             msg_in_reply_to = in_reply_to, msg_references = references, msg_attachments = [],
             msg_raw_s3_key = None, msg_created_at = now\<rparr>), s'))"

text \<open>The thread's order: by second, ties by id, a stable sort.\<close>

definition message_le :: "ticket_message \<Rightarrow> ticket_message \<Rightarrow> bool" where
  "message_le a b \<longleftrightarrow>
     msg_created_at a < msg_created_at b
     \<or> msg_created_at a = msg_created_at b \<and> msg_id a \<le> msg_id b"

fun insert_message :: "ticket_message \<Rightarrow> ticket_message list \<Rightarrow> ticket_message list" where
  "insert_message x [] = [x]"
| "insert_message x (y # ys) = (if message_le x y then x # y # ys else y # insert_message x ys)"

definition sort_messages :: "ticket_message list \<Rightarrow> ticket_message list" where
  "sort_messages ms = foldr insert_message ms []"

definition list_ticket_messages :: "index \<Rightarrow> string \<Rightarrow> store \<Rightarrow> db_error + ticket_message list" where
  "list_ticket_messages q ticket_id s =
     rbind (query_all q hydrate_message ''ticket_message'' ''ticket_id'' ticket_id s)
       (\<lambda>ms. Inr (sort_messages ms))"

definition attachment_attr :: "attachment \<Rightarrow> attr" where
  "attachment_attr a =
     AM [(''s3_key'', AS (at_s3_key a)), (''filename'', AS (at_filename a)),
         (''content_type'', AS (at_content_type a)), (''size'', AN (int (at_size a)))]"

fun message_actions :: "message_update \<Rightarrow> action list" where
  "message_actions (SetRfcMessageId rid) = [ASet ''rfc_message_id'' (AS rid)]"
| "message_actions (SetRawS3Key key) = [ASet ''raw_s3_key'' (AS key)]"
| "message_actions (SetAttachments as) =
     (if as = [] then [ARemove ''attachments'']
      else [ASet ''attachments'' (AL (map attachment_attr as))])"

definition update_ticket_message ::
    "handler \<Rightarrow> string \<Rightarrow> message_update \<Rightarrow> store \<Rightarrow> (db_error + unit) \<times> store" where
  "update_ticket_message h i change s =
     send_existing h (''TicketMessage '' @ i)
       (Update ''ticket_message'' ''id'' i (message_actions change) (CExists ''id'')) s"

text \<open>The index gives the message, a read of the message its ticket; the states may differ.\<close>

definition get_ticket_id_by_rfc_message_id ::
    "handler \<Rightarrow> index \<Rightarrow> string \<Rightarrow> store \<Rightarrow> store \<Rightarrow> db_error + string option" where
  "get_ticket_id_by_rfc_message_id h q rid index_state view =
     rbind (query_ids q ''ticket_message'' ''rfc_message_id'' rid index_state) (\<lambda>ids.
     rbind (at_most_one ids (''Multiple ticket_messages share rfc_message_id '' @ rid)) (\<lambda>found.
     case found of
       None \<Rightarrow> Inr None
     | Some message_id \<Rightarrow>
         rbind (get_records h ''ticket_message'' hydrate_message msg_id [message_id] view) (\<lambda>ms.
           Inr (case ms of Some m # _ \<Rightarrow> Some (msg_ticket_id m) | _ \<Rightarrow> None))))"

definition claim_processed_message ::
    "handler \<Rightarrow> string \<Rightarrow> nat \<Rightarrow> nat \<Rightarrow> store \<Rightarrow> (db_error + bool) \<times> store" where
  "claim_processed_message h ses_message_id now expires_at s =
     send_conditional h
       (Put ''processed_message'' ses_message_id
          [''ses_message_id'' \<mapsto> AS ses_message_id, ''processed_at'' \<mapsto> AN (int now),
           ''expires_at'' \<mapsto> AN (int expires_at)]
          (CNotExists ''ses_message_id'')) s"

subsection \<open>Rows read back\<close>

lemma in_i64_nat: "n < 9223372036854775808 \<Longrightarrow> in_i64 (int n)"
  by (simp add: in_i64_def i64_min_def i64_max_def)

lemma bool_or_None: "it f = None \<Longrightarrow> bool_or it f d = Inr d"
  by (simp add: bool_or_def row_simps)

lemma attachment_entry_attr:
  "at_size a < 9223372036854775808 \<Longrightarrow> attachment_entry f (attachment_attr a) = Inr a"
  by (simp add: attachment_attr_def row_simps in_i64_nat as_u64_of_nat)

text \<open>
  Attachments survive the store: what \<^verbatim>\<open>SetAttachments\<close> writes is read back as the same
  list, whatever set of attachments and whatever other attributes the row has, for sizes below
  two to the 63rd.
\<close>

theorem attachments_round_trip:
  assumes "list_all (\<lambda>a. at_size a < 9223372036854775808) as"
  shows "attachment_list_field (fold (apply_action ss) (message_actions (SetAttachments as)) it) ''attachments'' = Inr as"
proof (cases as)
  case Nil
  then show ?thesis by (simp add: attachment_list_field_def)
next
  case (Cons a bs)
  have "mapM (attachment_entry f) (map attachment_attr as) = Inr as" for f
    using assms by (induction as) (simp_all add: attachment_entry_attr)
  with Cons show ?thesis by (simp add: attachment_list_field_def)
qed

theorem attachments_round_trip_witness:
  "attachment_list_field (fold (apply_action remdups)
     (message_actions (SetAttachments [\<lparr>at_s3_key = ''k'', at_filename = ''a.png'', at_content_type = ''image/png'', at_size = 12\<rparr>]))
     Map.empty) ''attachments''
   = Inr [\<lparr>at_s3_key = ''k'', at_filename = ''a.png'', at_content_type = ''image/png'', at_size = 12\<rparr>]"
  by (rule attachments_round_trip) simp

lemma ticket_row_fields:
  "ticket_row ss i now token inst n subject rs cs ''id'' = Some (AS i)"
  "ticket_row ss i now token inst n subject rs cs ''instance_id'' = Some (AS inst)"
  "ticket_row ss i now token inst n subject rs cs ''number'' = Some (AN (int n))"
  "ticket_row ss i now token inst n subject rs cs ''status'' = Some (AS ''open'')"
  "ticket_row ss i now token inst n subject rs cs ''assignee_user_id'' = None"
  "ticket_row ss i now token inst n subject rs cs ''instance_status'' = Some (AS (inst @ ''#open''))"
  "ticket_row ss i now token inst n subject rs cs ''instance_visible'' = Some (AS inst)"
  "ticket_row ss i now token inst n subject rs cs ''instance_assignee'' = None"
  "ticket_row ss i now token inst n subject rs cs ''instance_number'' = Some (AS (instance_number inst n))"
  "ticket_row ss i now token inst n subject rs cs ''reply_token'' = Some (AS token)"
  "ticket_row ss i now token inst n subject rs cs ''subject'' = Some (AS subject)"
  "ticket_row ss i now token inst n subject rs cs ''requester_emails'' = (if rs = [] then None else Some (ASs (ss rs)))"
  "ticket_row ss i now token inst n subject rs cs ''cc_emails'' = (if cs = [] then None else Some (ASs (ss cs)))"
  "ticket_row ss i now token inst n subject rs cs ''created_at'' = Some (AN (int now))"
  "ticket_row ss i now token inst n subject rs cs ''updated_at'' = Some (AN (int now))"
  "ticket_row ss i now token inst n subject rs cs ''last_activity_at'' = Some (AN (int now))"
  "ticket_row ss i now token inst n subject rs cs ''has_attachments'' = None"
  by (simp_all add: ticket_row_def compute_ticket_markers_def Let_def set_attr_def opt_attr_def)

text \<open>
  A ticket reads back as \<^verbatim>\<open>create_ticket\<close> answered it, the address sets in the service's
  order.
\<close>

theorem created_ticket_reads_back:
  assumes "n < 9223372036854775808" "now < 9223372036854775808"
    and "create_ticket h i now token inst n subject rs cs s = (Inr t, s')"
  shows "hydrate_ticket (ticket_row ss i now token inst n subject rs cs)
    = Inr (t\<lparr>tkt_requester_emails := (if rs = [] then [] else ss rs), tkt_cc_emails := (if cs = [] then [] else ss cs)\<rparr>)"
proof -
  have t: "t = \<lparr>tkt_id = i, tkt_instance_id = inst, tkt_number = n, tkt_subject = subject,
      tkt_status = TOpen, tkt_requester_emails = rs, tkt_cc_emails = cs, tkt_assignee_user_id = None,
      tkt_reply_token = token, tkt_created_at = now, tkt_updated_at = now, tkt_last_activity_at = now,
      tkt_has_attachments = False\<rparr>"
    using assms(3) by (auto simp: create_ticket_def Let_def split: prod.splits)
  show ?thesis
    using assms(1,2)
    by (simp add: hydrate_ticket_def row_simps ticket_row_fields in_i64_nat as_u64_of_nat bool_or_None t
        parse_ticket_status_def)
qed

definition ref_handler0 :: handler where
  "ref_handler0 = \<lparr>h_read_only = False, h_svc = ref_dynamo\<rparr>"

theorem created_ticket_reads_back_witness:
  "\<exists>t. hydrate_ticket (ticket_row remdups ''T1'' 9 ''k9'' ''n1'' 42 ''printer'' [''ann@client.test''] []) = Inr t
     \<and> tkt_requester_emails t = [''ann@client.test'']"
proof -
  have "\<exists>t s'. create_ticket ref_handler0 ''T1'' 9 ''k9'' ''n1'' 42 ''printer'' [''ann@client.test''] [] (\<lambda>t k. None) = (Inr t, s')"
    by (simp add: create_ticket_def ref_handler0_def ref_dynamo_def send_plain_def ensure_writable_def
        create_ticket_req_def cond_holds_def attrs_of_def)
  then obtain t s' where c: "create_ticket ref_handler0 ''T1'' 9 ''k9'' ''n1'' 42 ''printer'' [''ann@client.test''] []
      (\<lambda>t k. None) = (Inr t, s')" by blast
  have n: "(42::nat) < 9223372036854775808" "(9::nat) < 9223372036854775808" by simp_all
  from created_ticket_reads_back [OF n c, of remdups] show ?thesis by simp
qed

subsection \<open>The thread's order\<close>

definition message_key :: "ticket_message \<Rightarrow> nat \<times> string" where
  "message_key m = (msg_created_at m, msg_id m)"

lemma message_le_key: "message_le a b \<longleftrightarrow> message_key a \<le> message_key b"
  by (auto simp: message_le_def message_key_def less_eq_prod_def)

lemma sort_messages_key: "sort_messages ms = sort_key message_key ms"
proof -
  have "insert_message x ms = insort_key message_key x ms" for x ms
    by (induction ms) (simp_all add: message_le_key)
  then have "insert_message = insort_key message_key" by (intro ext)
  then show ?thesis by (simp add: sort_messages_def sort_key_def)
qed

text \<open>
  A thread is always shown in one order: whatever order the index returns the messages in,
  sorting gives the same list, oldest first.
\<close>

theorem thread_order_stable:
  assumes "mset ms = mset ns" "distinct (map msg_id ms)"
  shows "sort_messages ms = sort_messages ns \<and> sorted (map msg_created_at (sort_messages ms))"
proof -
  have "inj_on message_key (set ms)" using assms(2) by (auto simp: inj_on_def message_key_def distinct_map)
  then have "sort_key message_key ms = sort_key message_key ns"
    by (intro sort_key_inj_key_eq) (simp_all add: assms(1))
  moreover have "sorted (map msg_created_at (sort_key message_key ms))"
  proof -
    have "sorted_wrt (\<lambda>a b. message_key a \<le> message_key b) (sort_key message_key ms)"
      using sorted_sort_key [of message_key ms] by (simp add: sorted_wrt_map)
    then have "sorted_wrt (\<lambda>a b. msg_created_at a \<le> msg_created_at b) (sort_key message_key ms)"
      by (rule sorted_wrt_mono_rel [rotated]) (auto simp: message_key_def less_eq_prod_def)
    then show ?thesis by (simp add: sorted_wrt_map)
  qed
  ultimately show ?thesis by (simp add: sort_messages_key)
qed

definition demo_message :: "string \<Rightarrow> nat \<Rightarrow> ticket_message" where
  "demo_message i n =
     \<lparr>msg_id = i, msg_ticket_id = ''T1'', msg_kind = Inbound, msg_author_user_id = None,
      msg_from_email = Some ''ann@client.test'', msg_to_emails = [], msg_cc_emails = [], msg_body_text = None,
      msg_body_html = None, msg_rfc_message_id = None, msg_in_reply_to = None, msg_references = None,
      msg_attachments = [], msg_raw_s3_key = None, msg_created_at = n\<rparr>"

theorem thread_order_stable_witness:
  "sort_messages [demo_message ''b'' 5, demo_message ''a'' 5] = sort_messages [demo_message ''a'' 5, demo_message ''b'' 5]"
proof -
  have m: "mset [demo_message ''b'' 5, demo_message ''a'' 5] = mset [demo_message ''a'' 5, demo_message ''b'' 5]" by simp
  have d: "distinct (map msg_id [demo_message ''b'' 5, demo_message ''a'' 5])" by (simp add: demo_message_def)
  show ?thesis using thread_order_stable [OF m d] by (rule conjunct1)
qed

end
