(* ===== verification/Desk_System.thy ===== *)
theory Desk_System
  imports Ticket_Store
begin

section \<open>The tickets under concurrent requests\<close>

text \<open>
  The helpdesk's tables as a transition system. A step is one committed write of some request,
  in any interleaving: allocating a number, opening a ticket under a number that was allocated
  and not used yet (\<open>ds_free\<close>, what the requests in flight hold), changing a ticket by one of the
  update shapes, and any write to other tables. A change carries what its request believed of
  the ticket, which may be stale; the one thing that cannot be stale is the ticket's instance.
  The invariant says what every ticket row looks like: its composite marker attributes, which
  the listing indexes are keyed on, agree with its status and assignee, and its number is its own.
\<close>

abbreviation tickets :: "store \<Rightarrow> string \<Rightarrow> item option" where "tickets s \<equiv> s ''ticket''"

record desk_sys =
  ds_db :: store
  ds_free :: "(string \<times> nat) set"

definition ticket_count :: "store \<Rightarrow> string \<Rightarrow> int" where
  "ticket_count s i =
     (case attrs_of (s ''counter'' i) ''next_ticket_number'' of Some (AN m) \<Rightarrow> m | _ \<Rightarrow> 0)"

fun change_instance :: "ticket_update \<Rightarrow> string option" where
  "change_instance (SetStatusAndAssignee instance_id status assignee now) = Some instance_id"
| "change_instance _ = None"

definition change_fits :: "item \<Rightarrow> ticket_update \<Rightarrow> bool" where
  "change_fits it ch \<longleftrightarrow> (\<forall>i. change_instance ch = Some i \<longrightarrow> it ''instance_id'' = Some (AS i))"

text \<open>Writes that leave tickets and the ticket counters alone.\<close>

definition desk_frame :: "store \<Rightarrow> store \<Rightarrow> bool" where
  "desk_frame s s' \<longleftrightarrow> tickets s' = tickets s \<and> (\<forall>i. ticket_count s' i = ticket_count s i)"

inductive desk_step :: "(string list \<Rightarrow> string list) \<Rightarrow> desk_sys \<Rightarrow> desk_sys \<Rightarrow> bool" for ss where
  allocate:
    "commits ss (ds_db c) [increment_ticket_counter_req i] s' \<Longrightarrow>
     u64_attr (s' ''counter'' i) ''next_ticket_number'' = Some n \<Longrightarrow>
       desk_step ss c (c\<lparr>ds_db := s', ds_free := insert (i, n) (ds_free c)\<rparr>)"
| allocate_lost:
    "commits ss (ds_db c) [increment_ticket_counter_req i] s' \<Longrightarrow> desk_step ss c (c\<lparr>ds_db := s'\<rparr>)"
| open_ticket:
    "(i, n) \<in> ds_free c \<Longrightarrow>
     commits ss (ds_db c) [create_ticket_req ss k now token i n subject rs cs] s' \<Longrightarrow>
       desk_step ss c (c\<lparr>ds_db := s', ds_free := ds_free c - {(i, n)}\<rparr>)"
| change_ticket:
    "tickets (ds_db c) k = Some it \<Longrightarrow> change_fits it ch \<Longrightarrow>
     commits ss (ds_db c) [update_ticket_req k ch] s' \<Longrightarrow> desk_step ss c (c\<lparr>ds_db := s'\<rparr>)"
| elsewhere:
    "desk_frame (ds_db c) s' \<Longrightarrow> desk_step ss c (c\<lparr>ds_db := s'\<rparr>)"

inductive desk_reachable :: "(string list \<Rightarrow> string list) \<Rightarrow> desk_sys \<Rightarrow> bool" for ss where
  desk_start: "tickets (ds_db c) = (\<lambda>k. None) \<Longrightarrow> ds_free c = {} \<Longrightarrow> desk_reachable ss c"
| desk_more: "desk_reachable ss c \<Longrightarrow> desk_step ss c c' \<Longrightarrow> desk_reachable ss c'"

inductive desk_steps :: "(string list \<Rightarrow> string list) \<Rightarrow> desk_sys \<Rightarrow> desk_sys \<Rightarrow> bool" for ss where
  desk_none: "desk_steps ss c c"
| desk_snoc: "desk_steps ss c d \<Longrightarrow> desk_step ss d e \<Longrightarrow> desk_steps ss c e"

subsection \<open>Well-formed ticket rows\<close>

definition markers_of :: "item \<Rightarrow> ticket_markers \<Rightarrow> bool" where
  "markers_of it m \<longleftrightarrow>
     it ''instance_status'' = Some (AS (mk_instance_status m))
     \<and> it ''instance_visible'' = map_option AS (mk_instance_visible m)
     \<and> it ''instance_assignee'' = map_option AS (mk_instance_assignee m)"

definition ticket_row_is :: "string \<Rightarrow> item \<Rightarrow> string \<Rightarrow> nat \<Rightarrow> ticket_status \<Rightarrow> string option \<Rightarrow> bool" where
  "ticket_row_is k it inst n st as \<longleftrightarrow>
     it ''id'' = Some (AS k) \<and> it ''instance_id'' = Some (AS inst) \<and> it ''number'' = Some (AN (int n))
     \<and> it ''instance_number'' = Some (AS (instance_number inst n))
     \<and> it ''status'' = Some (AS (ticket_status_str st))
     \<and> it ''assignee_user_id'' = map_option AS as
     \<and> markers_of it (compute_ticket_markers inst st as)"

lemma ticket_row_new: "ticket_row_is k (ticket_row ss k now token i n subject rs cs) i n TOpen None"
  by (simp add: ticket_row_is_def markers_of_def ticket_row_fields compute_ticket_markers_def)

lemma status_str_inj [simp]: "ticket_status_str a = ticket_status_str b \<longleftrightarrow> a = b"
  by (cases a; cases b) simp_all

lemma ticket_row_is_unique:
  assumes "ticket_row_is k it inst n st as" "ticket_row_is k it inst' n' st' as'"
  shows "inst' = inst" "n' = n" "st' = st"
  using assms by (auto simp: ticket_row_is_def)

definition changed_row :: "(string list \<Rightarrow> string list) \<Rightarrow> ticket_update \<Rightarrow> item \<Rightarrow> item" where
  "changed_row ss ch it = fold (apply_action ss) (ticket_actions ch) it"

fun new_status :: "ticket_update \<Rightarrow> ticket_status \<Rightarrow> ticket_status" where
  "new_status (SetStatusAndAssignee i st as now) old = st"
| "new_status _ old = old"

fun new_assignee :: "ticket_update \<Rightarrow> string option \<Rightarrow> string option" where
  "new_assignee (SetStatusAndAssignee i st as now) old = as"
| "new_assignee _ old = old"

lemma apply_set_or_remove: "apply_action ss (set_or_remove a v) it = it(a := map_option AS v)"
  by (cases v) (simp_all add: set_or_remove_def)

lemma apply_add_set: "b \<noteq> a \<Longrightarrow> apply_action ss (AAddSs a xs) it b = it b"
  by (simp split: option.splits attr.splits)

lemma apply_del_set: "b \<noteq> a \<Longrightarrow> apply_action ss (ADelSs a xs) it b = it b"
  by (simp add: Let_def split: option.splits attr.splits)

lemma changed_row_is:
  assumes "ticket_row_is k it inst n st as" "change_fits it ch"
  shows "ticket_row_is k (changed_row ss ch it) inst n (new_status ch st) (new_assignee ch as)"
proof (cases ch)
  case (SetStatusAndAssignee i st' as' now)
  then have "i = inst" using assms by (simp add: change_fits_def ticket_row_is_def)
  with SetStatusAndAssignee assms(1) show ?thesis
    by (simp add: changed_row_def ticket_row_is_def markers_of_def touch_actions_def Let_def
        apply_set_or_remove)
next
  case (AddRequester e now)
  with assms(1) show ?thesis
    by (simp del: apply_action.simps(4)
        add: changed_row_def ticket_row_is_def markers_of_def touch_actions_def apply_add_set)
next
  case (RemoveRequester e now)
  with assms(1) show ?thesis
    by (simp del: apply_action.simps(5)
        add: changed_row_def ticket_row_is_def markers_of_def touch_actions_def apply_del_set)
next
  case (AddCc e now)
  with assms(1) show ?thesis
    by (simp del: apply_action.simps(4)
        add: changed_row_def ticket_row_is_def markers_of_def touch_actions_def apply_add_set)
next
  case (RemoveCc e now)
  with assms(1) show ?thesis
    by (simp del: apply_action.simps(5)
        add: changed_row_def ticket_row_is_def markers_of_def touch_actions_def apply_del_set)
qed (use assms(1) in \<open>simp_all add: changed_row_def ticket_row_is_def markers_of_def touch_actions_def\<close>)

subsection \<open>What the requests do to the tables\<close>

lemma update_ticket_effect:
  assumes "commits ss s [update_ticket_req k ch] s'"
  shows "\<exists>it. tickets s k = Some it \<and> s' = s(''ticket'' := (tickets s)(k \<mapsto> changed_row ss ch it))"
  using assms
  by (auto simp: commits_single update_ticket_req_def cond_holds_def attrs_of_def apply_write_def set_row_def
      update_base_def changed_row_def split: option.splits)

lemma create_ticket_effect:
  assumes "commits ss s [create_ticket_req ss k now token i n subject rs cs] s'"
  shows "attrs_of (tickets s k) ''id'' = None
    \<and> s' = s(''ticket'' := (tickets s)(k \<mapsto> ticket_row ss k now token i n subject rs cs))"
  using assms by (auto simp: commits_single create_ticket_req_def cond_holds_def apply_write_def set_row_def)

lemma increment_ticket_effect:
  assumes "commits ss s [increment_ticket_counter_req i] s'"
  shows "tickets s' = tickets s \<and> (\<forall>j. ticket_count s' j = (if j = i then ticket_count s i + 1 else ticket_count s j))
    \<and> attrs_of (s' ''counter'' i) ''next_ticket_number'' = Some (AN (ticket_count s i + 1))"
proof -
  let ?b = "update_base ''id'' i (s ''counter'' i)"
  have c: "?b ''next_ticket_number'' = attrs_of (s ''counter'' i) ''next_ticket_number''"
    by (simp add: update_base_def attrs_of_def split: option.splits)
  have ok: "action_ok ?b (AAddN ''next_ticket_number'' 1)"
    and s': "s' = apply_write ss (increment_ticket_counter_req i) s"
    using assms by (simp_all add: commits_single increment_ticket_counter_req_def)
  have row: "s' ''counter'' i = Some (?b(''next_ticket_number'' \<mapsto> AN (ticket_count s i + 1)))"
    using ok by (auto simp: s' increment_ticket_counter_req_def apply_write_def set_row_def ticket_count_def c
        split: option.splits attr.splits)
  have other: "s' t k = s t k" if "(t, k) \<noteq> (''counter'', i)" for t k
    using that by (auto simp: s' increment_ticket_counter_req_def apply_write_def set_row_def)
  have "ticket_count s' j = ticket_count s j" if "j \<noteq> i" for j
    using other [of "''counter''" j] that by (simp add: ticket_count_def)
  moreover have "tickets s' = tickets s" using other by auto
  ultimately show ?thesis using row by (simp add: ticket_count_def attrs_of_def)
qed

lemma ticket_count_ticket [simp]: "ticket_count (s(''ticket'' := T)) i = ticket_count s i"
  by (simp add: ticket_count_def)

lemma write_elsewhere:
  assumes "commits ss s ws s'" "\<forall>w \<in> set ws. fst (target w) \<notin> {''ticket'', ''counter''}"
  shows "desk_frame s s'"
proof -
  have "s' t k = s t k" if "t \<in> {''ticket'', ''counter''}" for t k
  proof (rule commits_other [OF assms(1)])
    show "(t, k) \<notin> target ` set ws" using assms(2) that by (auto simp: image_iff) (metis fst_conv)+
  qed
  then show ?thesis by (auto simp: desk_frame_def ticket_count_def)
qed

subsection \<open>The invariant\<close>

definition is_ticket :: "store \<Rightarrow> string \<Rightarrow> string \<Rightarrow> nat \<Rightarrow> bool" where
  "is_ticket s k inst n \<longleftrightarrow> (\<exists>it st as. tickets s k = Some it \<and> ticket_row_is k it inst n st as)"

definition desk_ok :: "desk_sys \<Rightarrow> bool" where
  "desk_ok c \<longleftrightarrow>
     (\<forall>k. tickets (ds_db c) k \<noteq> None \<longrightarrow> (\<exists>inst n. is_ticket (ds_db c) k inst n))
     \<and> (\<forall>k inst n. is_ticket (ds_db c) k inst n \<longrightarrow>
          int n \<le> ticket_count (ds_db c) inst \<and> (inst, n) \<notin> ds_free c)
     \<and> (\<forall>j k inst n. is_ticket (ds_db c) j inst n \<longrightarrow> is_ticket (ds_db c) k inst n \<longrightarrow> j = k)
     \<and> (\<forall>inst n. (inst, n) \<in> ds_free c \<longrightarrow> int n \<le> ticket_count (ds_db c) inst)"

lemma desk_okD:
  "desk_ok c \<Longrightarrow> tickets (ds_db c) k = Some it \<Longrightarrow> \<exists>inst n. is_ticket (ds_db c) k inst n"
  "desk_ok c \<Longrightarrow> is_ticket (ds_db c) k inst n \<Longrightarrow> int n \<le> ticket_count (ds_db c) inst \<and> (inst, n) \<notin> ds_free c"
  "desk_ok c \<Longrightarrow> is_ticket (ds_db c) j inst n \<Longrightarrow> is_ticket (ds_db c) k inst n \<Longrightarrow> j = k"
  "desk_ok c \<Longrightarrow> (inst, n) \<in> ds_free c \<Longrightarrow> int n \<le> ticket_count (ds_db c) inst"
  unfolding desk_ok_def by blast+

lemma is_ticket_unique: "is_ticket s k i n \<Longrightarrow> is_ticket s k i' n' \<Longrightarrow> i' = i \<and> n' = n"
  by (auto simp: is_ticket_def dest: ticket_row_is_unique)

lemma update_keeps_tickets:
  assumes "commits ss s [update_ticket_req k ch] s'" "tickets s k = Some it" "change_fits it ch"
    and "\<exists>inst n. is_ticket s k inst n"
  shows "is_ticket s' j i n \<longleftrightarrow> is_ticket s j i n" "tickets s' j \<noteq> None \<longleftrightarrow> tickets s j \<noteq> None"
    "ticket_count s' i = ticket_count s i"
proof -
  have s': "s' = s(''ticket'' := (tickets s)(k \<mapsto> changed_row ss ch it))"
    using update_ticket_effect [OF assms(1)] assms(2) by auto
  obtain inst m st as where row: "ticket_row_is k it inst m st as"
    using assms(2,4) unfolding is_ticket_def by auto
  note new = changed_row_is [OF row assms(3), of ss]
  show "tickets s' j \<noteq> None \<longleftrightarrow> tickets s j \<noteq> None" "ticket_count s' i = ticket_count s i"
    using assms(2) by (auto simp: s')
  show "is_ticket s' j i n \<longleftrightarrow> is_ticket s j i n"
  proof (cases "j = k")
    case True
    have "is_ticket s' k inst m" using new by (auto simp: is_ticket_def s')
    moreover have "is_ticket s k inst m" using row assms(2) by (auto simp: is_ticket_def)
    ultimately show ?thesis using True is_ticket_unique by metis
  next
    case False
    then show ?thesis by (simp add: is_ticket_def s')
  qed
qed

text \<open>Numbers above every counter may be handed out, and counters may grow.\<close>

lemma desk_ok_transfer:
  assumes "desk_ok c" "\<And>k i n. is_ticket s' k i n \<longleftrightarrow> is_ticket (ds_db c) k i n"
    and "\<And>k. tickets s' k \<noteq> None \<longleftrightarrow> tickets (ds_db c) k \<noteq> None"
    and "\<And>j. ticket_count (ds_db c) j \<le> ticket_count s' j" "F \<subseteq> ds_free c \<union> N"
    and "\<And>i n. (i, n) \<in> N \<Longrightarrow> ticket_count (ds_db c) i < int n \<and> int n \<le> ticket_count s' i"
  shows "desk_ok (c\<lparr>ds_db := s', ds_free := F\<rparr>)"
proof -
  note d = desk_okD [OF assms(1)]
  have same: "is_ticket s' = is_ticket (ds_db c)" by (intro ext) (rule assms(2))
  have le: "int n \<le> ticket_count s' i" if "int n \<le> ticket_count (ds_db c) i" for i n
    using that assms(4) [of i] by simp
  have "int n \<le> ticket_count s' i \<and> (i, n) \<notin> F" if "is_ticket (ds_db c) k i n" for k i n
    using d(2) [OF that] le assms(5,6) by fastforce
  moreover have "int n \<le> ticket_count s' i" if "(i, n) \<in> F" for i n
    using that d(4) le assms(5,6) by blast
  moreover have "j = k" if "is_ticket (ds_db c) j i n" "is_ticket (ds_db c) k i n" for j k i n
    using d(3) that by blast
  moreover have "\<exists>i n. is_ticket (ds_db c) k i n" if "tickets s' k \<noteq> None" for k
    using d(1) that assms(3) by blast
  ultimately show ?thesis unfolding desk_ok_def same [symmetric] by (simp add: same)
qed

lemma desk_step_ok:
  assumes "desk_step ss c c'" "desk_ok c"
  shows "desk_ok c'"
  using assms(1)
proof cases
  case (allocate i s' n)
  note e = increment_ticket_effect [OF allocate(2)]
  have n: "int n = ticket_count (ds_db c) i + 1"
    using allocate(3) e by (auto simp: u64_attr_def split: if_splits)
  show ?thesis unfolding allocate(1)
    by (rule desk_ok_transfer [OF assms(2), where N = "{(i, n)}"]) (use e n in \<open>auto simp: is_ticket_def\<close>)
next
  case (allocate_lost i s')
  note e = increment_ticket_effect [OF allocate_lost(2)]
  have "desk_ok (c\<lparr>ds_db := s', ds_free := ds_free c\<rparr>)"
    by (rule desk_ok_transfer [OF assms(2), where N = "{}"]) (use e in \<open>auto simp: is_ticket_def\<close>)
  then show ?thesis by (simp add: allocate_lost(1))
next
  case (open_ticket i n k now token subject rs cs s')
  note e = create_ticket_effect [OF open_ticket(3)]
  let ?row = "ticket_row ss k now token i n subject rs cs"
  have s': "s' = (ds_db c)(''ticket'' := (tickets (ds_db c))(k \<mapsto> ?row))" using e by blast
  have free: "tickets (ds_db c) k = None"
  proof (rule ccontr)
    assume "tickets (ds_db c) k \<noteq> None"
    then obtain it where "tickets (ds_db c) k = Some it" by blast
    with desk_okD(1) [OF assms(2) this] e show False
      by (auto simp: is_ticket_def ticket_row_is_def attrs_of_def)
  qed
  have new: "is_ticket s' j inst m \<longleftrightarrow> (if j = k then inst = i \<and> m = n else is_ticket (ds_db c) j inst m)" for j inst m
  proof -
    have "is_ticket s' k i n" unfolding is_ticket_def s' by (intro exI conjI, simp, rule ticket_row_new)
    moreover have "is_ticket s' j inst m \<longleftrightarrow> is_ticket (ds_db c) j inst m" if "j \<noteq> k"
      using that by (simp add: is_ticket_def s')
    ultimately show ?thesis using is_ticket_unique by (cases "j = k") metis+
  qed
  have cnt: "ticket_count s' inst = ticket_count (ds_db c) inst" for inst by (simp add: s')
  have rows: "tickets s' j \<noteq> None \<Longrightarrow> j \<noteq> k \<Longrightarrow> tickets (ds_db c) j \<noteq> None" for j by (simp add: s')
  show ?thesis
    unfolding desk_ok_def
  proof (intro conjI allI impI)
    fix j assume "tickets (ds_db c') j \<noteq> None"
    then show "\<exists>inst n. is_ticket (ds_db c') j inst n"
    proof (cases "j = k")
      case False
      with \<open>tickets (ds_db c') j \<noteq> None\<close> obtain it where "tickets (ds_db c) j = Some it"
        using rows by (auto simp: open_ticket(1))
      from desk_okD(1) [OF assms(2) this] False show ?thesis by (simp add: open_ticket(1) new)
    qed (simp add: open_ticket(1) new)
  next
    fix j inst m assume a: "is_ticket (ds_db c') j inst m"
    show "int m \<le> ticket_count (ds_db c') inst" "(inst, m) \<notin> ds_free c'"
      using a desk_okD(2,4) [OF assms(2)] open_ticket(2) cnt by (auto simp: open_ticket(1) new split: if_splits)
  next
    fix j j' inst m assume "is_ticket (ds_db c') j inst m" "is_ticket (ds_db c') j' inst m"
    then show "j = j'" using desk_okD(2,3) [OF assms(2)] open_ticket(2) by (auto simp: open_ticket(1) new split: if_splits)
  next
    fix inst m assume "(inst, m) \<in> ds_free c'"
    then show "int m \<le> ticket_count (ds_db c') inst" using desk_okD(4) [OF assms(2)] cnt by (simp add: open_ticket(1))
  qed
next
  case (change_ticket k it ch s')
  note u = update_keeps_tickets [OF change_ticket(4,2,3) desk_okD(1) [OF assms(2) change_ticket(2)]]
  have "desk_ok (c\<lparr>ds_db := s', ds_free := ds_free c\<rparr>)"
    by (rule desk_ok_transfer [OF assms(2) u(1,2), where N = "{}"]) (simp_all add: u(3))
  then show ?thesis by (simp add: change_ticket(1))
next
  case (elsewhere s')
  have "desk_ok (c\<lparr>ds_db := s', ds_free := ds_free c\<rparr>)"
    by (rule desk_ok_transfer [OF assms(2), where N = "{}"])
      (use elsewhere(2) in \<open>simp_all add: desk_frame_def is_ticket_def\<close>)
  then show ?thesis by (simp add: elsewhere(1))
qed

lemma desk_reachable_ok: "desk_reachable ss c \<Longrightarrow> desk_ok c"
proof (induction rule: desk_reachable.induct)
  case (desk_start c)
  then show ?case by (simp add: desk_ok_def is_ticket_def)
next
  case (desk_more c c')
  then show ?case using desk_step_ok by blast
qed

subsection \<open>What steps keep\<close>

definition same_ticket :: "item \<Rightarrow> item \<Rightarrow> bool" where
  "same_ticket it it' \<longleftrightarrow>
     (\<forall>a \<in> {''id'', ''instance_id'', ''number'', ''instance_number'', ''reply_token'', ''subject'', ''created_at''}.
        it' a = it a)"

lemma same_ticket_refl [simp]: "same_ticket it it"
  by (simp add: same_ticket_def)

lemma same_ticket_trans: "same_ticket a b \<Longrightarrow> same_ticket b c \<Longrightarrow> same_ticket a c"
  by (simp add: same_ticket_def)

lemma changed_row_same: "same_ticket it (changed_row ss ch it)"
  by (cases ch)
    (simp_all del: apply_action.simps(4,5)
      add: same_ticket_def changed_row_def touch_actions_def Let_def apply_set_or_remove apply_add_set apply_del_set)

definition tickets_kept :: "store \<Rightarrow> store \<Rightarrow> bool" where
  "tickets_kept s s' \<longleftrightarrow> (\<forall>k it. tickets s k = Some it \<longrightarrow> (\<exists>it'. tickets s' k = Some it' \<and> same_ticket it it'))"

lemma tickets_keptD: "tickets_kept s s' \<Longrightarrow> tickets s k = Some it \<Longrightarrow> \<exists>it'. tickets s' k = Some it' \<and> same_ticket it it'"
  by (simp add: tickets_kept_def)

lemma tickets_kept_refl [simp]: "tickets_kept s s"
  by (simp add: tickets_kept_def)

lemma tickets_kept_trans:
  assumes "tickets_kept r s" "tickets_kept s t"
  shows "tickets_kept r t"
  unfolding tickets_kept_def
proof (intro allI impI)
  fix k it assume "tickets r k = Some it"
  from tickets_keptD [OF assms(1) this] obtain it1 where 1: "tickets s k = Some it1" "same_ticket it it1" by blast
  from tickets_keptD [OF assms(2) 1(1)] obtain it2 where "tickets t k = Some it2" "same_ticket it1 it2" by blast
  then show "\<exists>it'. tickets t k = Some it' \<and> same_ticket it it'" using same_ticket_trans [OF 1(2)] by blast
qed

lemma desk_step_kept:
  assumes "desk_step ss c c'" "desk_ok c"
  shows "tickets_kept (ds_db c) (ds_db c')"
  using assms(1)
proof cases
  case (allocate i s' n)
  have "tickets s' = tickets (ds_db c)" using increment_ticket_effect [OF allocate(2)] by blast
  then show ?thesis by (simp add: allocate(1) tickets_kept_def)
next
  case (allocate_lost i s')
  have "tickets s' = tickets (ds_db c)" using increment_ticket_effect [OF allocate_lost(2)] by blast
  then show ?thesis by (simp add: allocate_lost(1) tickets_kept_def)
next
  case (open_ticket i n k now token subject rs cs s')
  note e = create_ticket_effect [OF open_ticket(3)]
  have "tickets (ds_db c) k = None"
  proof (cases "tickets (ds_db c) k")
    case (Some it)
    with desk_okD(1) [OF assms(2) this] e show ?thesis
      by (auto simp: is_ticket_def ticket_row_is_def attrs_of_def)
  qed
  with e show ?thesis by (auto simp: open_ticket(1) tickets_kept_def)
next
  case (change_ticket k it ch s')
  with update_ticket_effect [OF change_ticket(4)] changed_row_same show ?thesis
    by (auto simp: tickets_kept_def)
next
  case (elsewhere s')
  then show ?thesis by (simp add: tickets_kept_def desk_frame_def)
qed

lemma desk_steps_ok:
  assumes "desk_steps ss c d" "desk_ok c"
  shows "desk_ok d \<and> tickets_kept (ds_db c) (ds_db d)"
  using assms
proof induction
  case (desk_snoc c d e)
  then show ?case using desk_step_ok desk_step_kept tickets_kept_trans by blast
qed simp

subsection \<open>A worked run\<close>

text \<open>
  One ticket: a number is allocated, the ticket opened, assigned and deleted. The witnesses of
  the properties look at this run.
\<close>

definition desk_db0 :: store where "desk_db0 = (\<lambda>t k. None)"
definition desk_db1 :: store where
  "desk_db1 = apply_write remdups (increment_ticket_counter_req ''n1'') desk_db0"
definition desk_db2 :: store where
  "desk_db2 = apply_write remdups
     (create_ticket_req remdups ''T1'' 9 ''k9'' ''n1'' 1 ''printer'' [''ann@client.test'', ''bob@client.test''] []) desk_db1"
definition desk_db3 :: store where
  "desk_db3 = apply_write remdups
     (update_ticket_req ''T1'' (SetStatusAndAssignee ''n1'' TOpen (Some ''u1'') 10)) desk_db2"
definition desk_db4 :: store where
  "desk_db4 = apply_write remdups
     (update_ticket_req ''T1'' (SetStatusAndAssignee ''n1'' TDeleted (Some ''u1'') 11)) desk_db3"

lemma desk_row2: "tickets desk_db2 ''T1'' =
    Some (ticket_row remdups ''T1'' 9 ''k9'' ''n1'' 1 ''printer'' [''ann@client.test'', ''bob@client.test''] [])"
  by (simp add: desk_db2_def apply_write_def set_row_def create_ticket_req_def)

lemma desk_row3: "\<exists>it. tickets desk_db3 ''T1'' = Some it \<and> ticket_row_is ''T1'' it ''n1'' 1 TOpen (Some ''u1'')"
proof -
  have "tickets desk_db3 ''T1'' = Some (changed_row remdups (SetStatusAndAssignee ''n1'' TOpen (Some ''u1'') 10)
      (ticket_row remdups ''T1'' 9 ''k9'' ''n1'' 1 ''printer'' [''ann@client.test'', ''bob@client.test''] []))"
    by (simp add: desk_db3_def apply_write_def set_row_def update_ticket_req_def update_base_def desk_row2
        changed_row_def del: ticket_actions.simps)
  moreover have "change_fits (ticket_row remdups ''T1'' 9 ''k9'' ''n1'' 1 ''printer'' [''ann@client.test'', ''bob@client.test''] [])
      (SetStatusAndAssignee ''n1'' TOpen (Some ''u1'') 10)"
    by (simp add: change_fits_def ticket_row_fields)
  ultimately show ?thesis using changed_row_is [OF ticket_row_new] by fastforce
qed

lemma desk_row4: "\<exists>it. tickets desk_db4 ''T1'' = Some it \<and> ticket_row_is ''T1'' it ''n1'' 1 TDeleted (Some ''u1'')"
proof -
  obtain it where it: "tickets desk_db3 ''T1'' = Some it" "ticket_row_is ''T1'' it ''n1'' 1 TOpen (Some ''u1'')"
    using desk_row3 by blast
  have "tickets desk_db4 ''T1'' = Some (changed_row remdups (SetStatusAndAssignee ''n1'' TDeleted (Some ''u1'') 11) it)"
    by (simp add: desk_db4_def apply_write_def set_row_def update_ticket_req_def update_base_def it(1)
        changed_row_def del: ticket_actions.simps)
  moreover have "change_fits it (SetStatusAndAssignee ''n1'' TDeleted (Some ''u1'') 11)"
    using it(2) by (simp add: change_fits_def ticket_row_is_def)
  ultimately show ?thesis using changed_row_is [OF it(2)] by fastforce
qed

lemma desk_commit1: "commits remdups desk_db0 [increment_ticket_counter_req ''n1''] desk_db1"
  by (simp add: commits_single desk_db1_def increment_ticket_counter_req_def cond_holds_def update_base_def desk_db0_def)

lemma desk_count1: "u64_attr (desk_db1 ''counter'' ''n1'') ''next_ticket_number'' = Some 1"
  using increment_ticket_effect [OF desk_commit1]
  by (simp add: u64_attr_def ticket_count_def desk_db0_def attrs_of_def u64_max_def)

lemma desk_commit2: "commits remdups desk_db1
    [create_ticket_req remdups ''T1'' 9 ''k9'' ''n1'' 1 ''printer'' [''ann@client.test'', ''bob@client.test''] []] desk_db2"
proof -
  have "tickets desk_db1 = (\<lambda>k. None)" using increment_ticket_effect [OF desk_commit1] by (simp add: desk_db0_def)
  then show ?thesis
    by (simp add: commits_single desk_db2_def cond_holds_def create_ticket_req_def attrs_of_def)
qed

lemma desk_commit_change:
  assumes t: "tickets s k = Some it" "it ''id'' = Some (AS k)"
  shows "commits ss s [update_ticket_req k (SetStatusAndAssignee i st as now)]
    (apply_write ss (update_ticket_req k (SetStatusAndAssignee i st as now)) s)"
  using t
  by (cases as) (simp_all add: commits_single update_ticket_req_def cond_holds_def attrs_of_def
      touch_actions_def set_or_remove_def Let_def compute_ticket_markers_def)

definition desk_demo2 :: desk_sys where "desk_demo2 = \<lparr>ds_db = desk_db2, ds_free = {}\<rparr>"
definition desk_demo4 :: desk_sys where "desk_demo4 = \<lparr>ds_db = desk_db4, ds_free = {}\<rparr>"

lemma desk_demo2_reachable: "desk_reachable remdups desk_demo2"
proof -
  let ?c0 = "\<lparr>ds_db = desk_db0, ds_free = {}\<rparr>" and ?c1 = "\<lparr>ds_db = desk_db1, ds_free = {(''n1'', 1)}\<rparr>"
  have r0: "desk_reachable remdups ?c0" by (rule desk_start) (simp_all add: desk_db0_def)
  have "desk_step remdups ?c0 (?c0\<lparr>ds_db := desk_db1, ds_free := insert (''n1'', 1) (ds_free ?c0)\<rparr>)"
    by (rule allocate) (simp_all add: desk_commit1 desk_count1)
  then have r1: "desk_reachable remdups ?c1" using desk_more [OF r0] by simp
  have "desk_step remdups ?c1 (?c1\<lparr>ds_db := desk_db2, ds_free := ds_free ?c1 - {(''n1'', 1)}\<rparr>)"
    by (rule open_ticket [where k = "''T1''"]) (simp, simp only: desk_sys.select_convs, rule desk_commit2)
  then show ?thesis using desk_more [OF r1] by (simp add: desk_demo2_def)
qed

lemma desk_change_step:
  assumes "tickets s k = Some it" "ticket_row_is k it i n st as"
  shows "desk_step ss \<lparr>ds_db = s, ds_free = {}\<rparr>
    \<lparr>ds_db = apply_write ss (update_ticket_req k (SetStatusAndAssignee i st' as' now)) s, ds_free = {}\<rparr>"
proof -
  let ?c = "\<lparr>ds_db = s, ds_free = {}\<rparr>" and ?ch = "SetStatusAndAssignee i st' as' now"
  have i: "it ''id'' = Some (AS k)" "change_fits it ?ch"
    using assms(2) by (simp_all add: ticket_row_is_def change_fits_def)
  have "desk_step ss ?c (?c\<lparr>ds_db := apply_write ss (update_ticket_req k ?ch) s\<rparr>)"
    by (rule change_ticket [of ?c k it ?ch])
      (simp_all only: desk_sys.select_convs assms(1) i desk_commit_change [where s = s and k = k and it = it, OF assms(1) i(1)])
  then show ?thesis by simp
qed

lemma desk_demo_steps: "desk_steps remdups desk_demo2 desk_demo4"
proof -
  obtain it where it: "tickets desk_db3 ''T1'' = Some it" "ticket_row_is ''T1'' it ''n1'' 1 TOpen (Some ''u1'')"
    using desk_row3 by blast
  have "desk_step remdups desk_demo2 \<lparr>ds_db = desk_db3, ds_free = {}\<rparr>"
    unfolding desk_demo2_def desk_db3_def
    by (rule desk_change_step [where it = "ticket_row remdups ''T1'' 9 ''k9'' ''n1'' 1 ''printer''
          [''ann@client.test'', ''bob@client.test''] []"])
      (rule desk_row2, rule ticket_row_new)
  moreover have "desk_step remdups \<lparr>ds_db = desk_db3, ds_free = {}\<rparr> desk_demo4"
    unfolding desk_demo4_def desk_db4_def by (rule desk_change_step [where it = it]) (rule it)+
  ultimately show ?thesis by (blast intro: desk_none desk_snoc)
qed

lemma desk_steps_reachable: "desk_steps ss c d \<Longrightarrow> desk_reachable ss c \<Longrightarrow> desk_reachable ss d"
  by (induction rule: desk_steps.induct) (auto intro: desk_more)

lemma desk_demo4_reachable: "desk_reachable remdups desk_demo4"
  by (rule desk_steps_reachable [OF desk_demo_steps desk_demo2_reachable])

subsection \<open>Properties\<close>

text \<open>
  C11. Markers never go stale. In every reachable state, every ticket row has one instance,
  number, status and assignee, and the three composite attributes the listing indexes are keyed
  on are exactly the ones \<^verbatim>\<open>compute_ticket_markers\<close> gives for them: a deleted ticket is in no
  listing of visible or assigned tickets, whatever sequence of assigning, closing, deleting and
  restoring led there.
\<close>

theorem ticket_markers_consistent:
  assumes "desk_reachable ss c" "tickets (ds_db c) k = Some it"
  shows "\<exists>inst n st as. it ''instance_id'' = Some (AS inst) \<and> it ''number'' = Some (AN (int n))
    \<and> it ''status'' = Some (AS (ticket_status_str st)) \<and> it ''assignee_user_id'' = map_option AS as
    \<and> it ''instance_status'' = Some (AS (mk_instance_status (compute_ticket_markers inst st as)))
    \<and> it ''instance_visible'' = map_option AS (mk_instance_visible (compute_ticket_markers inst st as))
    \<and> it ''instance_assignee'' = map_option AS (mk_instance_assignee (compute_ticket_markers inst st as))"
  using desk_okD(1) [OF desk_reachable_ok [OF assms(1)] assms(2)] assms(2)
  unfolding is_ticket_def ticket_row_is_def markers_of_def by auto

theorem ticket_markers_consistent_witness:
  "\<exists>it. tickets desk_db4 ''T1'' = Some it \<and> it ''instance_visible'' = None \<and> it ''instance_assignee'' = None"
proof -
  obtain it where it: "tickets desk_db4 ''T1'' = Some it" "ticket_row_is ''T1'' it ''n1'' 1 TDeleted (Some ''u1'')"
    using desk_row4 by blast
  then have "tickets (ds_db desk_demo4) ''T1'' = Some it" by (simp add: desk_demo4_def)
  from ticket_markers_consistent [OF desk_demo4_reachable this] obtain inst n st as where
      m: "it ''status'' = Some (AS (ticket_status_str st))"
        "it ''instance_visible'' = map_option AS (mk_instance_visible (compute_ticket_markers inst st as))"
        "it ''instance_assignee'' = map_option AS (mk_instance_assignee (compute_ticket_markers inst st as))"
    by blast
  have "it ''status'' = Some (AS (ticket_status_str TDeleted))"
    using it(2) unfolding ticket_row_is_def by (elim conjE)
  with m(1) have "st = TDeleted" by (simp only: option.inject attr.inject status_str_inj)
  with m it(1) show ?thesis by (simp add: compute_ticket_markers_def)
qed

text \<open>
  C12. Ticket numbers are unique: two tickets of one instance never have the same number, and
  the counter has reached every number in use.
\<close>

theorem ticket_numbers_unique:
  assumes "desk_reachable ss c" "is_ticket (ds_db c) j inst n" "is_ticket (ds_db c) k inst n"
  shows "j = k \<and> int n \<le> ticket_count (ds_db c) inst"
  using desk_okD(2,3) [OF desk_reachable_ok [OF assms(1)]] assms(2,3) by blast

theorem ticket_numbers_unique_witness:
  "\<exists>k. is_ticket desk_db4 k ''n1'' 1 \<and> (\<forall>j. is_ticket desk_db4 j ''n1'' 1 \<longrightarrow> j = k)"
proof -
  have t: "is_ticket (ds_db desk_demo4) ''T1'' ''n1'' 1" using desk_row4 by (auto simp: is_ticket_def desk_demo4_def)
  from ticket_numbers_unique [OF desk_demo4_reachable _ t] t show ?thesis by (auto simp: desk_demo4_def)
qed

text \<open>
  A ticket keeps its identity: over any steps it stays in the table with the same
  instance, number, reply token, subject and creation time.
\<close>

theorem ticket_identity_kept:
  assumes "desk_reachable ss c" "desk_steps ss c d" "tickets (ds_db c) k = Some it"
  shows "\<exists>it'. tickets (ds_db d) k = Some it' \<and> same_ticket it it'"
  using desk_steps_ok [OF assms(2) desk_reachable_ok [OF assms(1)]] assms(3) unfolding tickets_kept_def by blast

theorem ticket_identity_kept_witness:
  "\<exists>it. tickets desk_db4 ''T1'' = Some it \<and> it ''reply_token'' = Some (AS ''k9'')"
proof -
  have t: "tickets (ds_db desk_demo2) ''T1'' = Some (ticket_row remdups ''T1'' 9 ''k9'' ''n1'' 1 ''printer''
      [''ann@client.test'', ''bob@client.test''] [])"
    by (simp add: desk_demo2_def desk_row2)
  from ticket_identity_kept [OF desk_demo2_reachable desk_demo_steps t] show ?thesis
    by (auto simp: same_ticket_def ticket_row_fields desk_demo4_def)
qed

end
