(* ===== verification/Outbound.thy ===== *)
theory Outbound
  imports Desk_Domain "HOL-Library.Multiset"
begin

section \<open>Outbound mail\<close>

text \<open>
  \<^verbatim>\<open>api/src/outbound.rs\<close>: everything that decides what a customer-facing message looks like.
  The MIME writer of the library \<^verbatim>\<open>mail_builder\<close> is the parameter \<open>write_mime\<close>, a function of
  the headers, bodies and recipients handed to it (\<open>mime\<close>); the random part of the message id is
  the parameter \<open>nonce\<close>.
\<close>

record built_message =
  bm_raw :: string
  bm_to :: "string list"
  bm_cc :: "string list"

record threading =
  th_in_reply_to :: "string option"
  th_references :: "string option"

definition threading_for :: "ticket_message list \<Rightarrow> threading" where
  "threading_for messages =
     (case find (\<lambda>m. msg_rfc_message_id m \<noteq> None) (rev messages) of
        None \<Rightarrow> \<lparr>th_in_reply_to = None, th_references = None\<rparr>
      | Some l \<Rightarrow>
         (let rid = the (msg_rfc_message_id l);
              references =
                (case msg_references l of
                   Some existing \<Rightarrow> if trim existing \<noteq> [] then existing @ '' '' @ rid else rid
                 | None \<Rightarrow> rid)
          in \<lparr>th_in_reply_to = Some rid, th_references = Some references\<rparr>))"

subsection \<open>Our own addresses\<close>

definition address_le :: "inbound_address \<Rightarrow> inbound_address \<Rightarrow> bool" where
  "address_le a b \<longleftrightarrow>
     ia_created_at a < ia_created_at b
     \<or> ia_created_at a = ia_created_at b \<and> ia_address a \<le> ia_address b"

text \<open>\<^verbatim>\<open>min_by\<close>: the first of the least elements.\<close>

fun earliest_address :: "inbound_address list \<Rightarrow> inbound_address option" where
  "earliest_address [] = None"
| "earliest_address (a # as) =
     (case earliest_address as of
        None \<Rightarrow> Some a
      | Some b \<Rightarrow> if address_le a b then Some a else Some b)"

definition earliest_of_kind :: "address_kind \<Rightarrow> inbound_address list \<Rightarrow> inbound_address option" where
  "earliest_of_kind kind addresses = earliest_address (filter (\<lambda>a. ia_kind a = kind) addresses)"

definition primary_inbound_address :: "inbound_address list \<Rightarrow> string option" where
  "primary_inbound_address addresses =
     (case earliest_of_kind Exact addresses of
        Some e \<Rightarrow> Some (ia_address e)
      | None \<Rightarrow>
         (case earliest_of_kind Wildcard addresses of
            None \<Rightarrow> None
          | Some w \<Rightarrow>
              map_option (\<lambda>domain. ''support@'' @ domain) (strip_prefix ''*@'' (ia_address w))))"

definition is_own_address :: "(string \<Rightarrow> string) \<Rightarrow> inbound_address list \<Rightarrow> string \<Rightarrow> bool" where
  "is_own_address lower addresses candidate =
     (let n = normalize_recipient lower candidate in
      list_ex (\<lambda>a. case ia_kind a of
                     Exact \<Rightarrow> ia_address a = nr_address n
                   | Wildcard \<Rightarrow> strip_prefix ''*@'' (ia_address a) = nr_domain n) addresses)"

datatype mail_error =
    NoAddressMissingAt string
  | NoInboundAddress string
  | NoRecipientsLeft string
  | MimeFailed string

definition reply_to_address :: "string \<Rightarrow> string \<Rightarrow> string \<Rightarrow> mail_error + string" where
  "reply_to_address from_address ticket_id reply_token =
     (case split_once (CHR ''@'') from_address of
        None \<Rightarrow> Inl (NoAddressMissingAt from_address)
      | Some (local, domain) \<Rightarrow>
          Inr (local @ ''+t'' @ ticket_id @ ''.'' @ reply_token @ ''@'' @ domain))"

subsection \<open>The subject tag\<close>

fun after_marker :: "string \<Rightarrow> string option" where
  \<comment> \<open>what follows the first \<^verbatim>\<open>[#\<close>\<close>
  "after_marker [] = None"
| "after_marker (c # s) =
     (case strip_prefix ''[#'' (c # s) of Some r \<Rightarrow> Some r | None \<Rightarrow> after_marker s)"

definition tag_at :: "string \<Rightarrow> (string \<times> nat) option" where
  "tag_at inner =
     (case split_once (CHR '']'') inner of
        None \<Rightarrow> None
      | Some (tag, _) \<Rightarrow>
         (case rsplit_once (CHR ''-'') tag of
            None \<Rightarrow> None
          | Some (slug, number) \<Rightarrow>
              if slug = [] then None else map_option (\<lambda>n. (slug, n)) (parse_u64 number)))"

lemma after_marker_shorter: "after_marker s = Some r \<Longrightarrow> length r < length s"
proof (induction s)
  case (Cons c s)
  show ?case
  proof (cases "strip_prefix ''[#'' (c # s)")
    case (Some q)
    with Cons.prems strip_prefix_Some [OF Some] show ?thesis by (metis append_Cons after_marker.simps(2)
      length_Cons length_append less_add_Suc2 list.size(3) option.inject option.simps(5) plus_nat.simps(2))
  qed (use Cons in force)
qed simp

function parse_subject_tag :: "string \<Rightarrow> (string \<times> nat) option" where
  "parse_subject_tag subject =
     (case after_marker subject of
        None \<Rightarrow> None
      | Some inner \<Rightarrow> (case tag_at inner of Some r \<Rightarrow> Some r | None \<Rightarrow> parse_subject_tag inner))"
  by pat_completeness auto
termination by (relation "measure length") (auto intro: after_marker_shorter)

declare parse_subject_tag.simps [simp del]

definition tag_subject :: "string \<Rightarrow> nat \<Rightarrow> string \<Rightarrow> string" where
  "tag_subject slug number subject =
     (if parse_subject_tag subject \<noteq> None then subject
      else ticket_subject_tag slug number @ '' '' @ subject)"

subsection \<open>Bodies\<close>

definition ACKNOWLEDGEMENT_BODY :: string where
  "ACKNOWLEDGEMENT_BODY =
     ''Thanks for reaching out. We've received your message and will follow up here.''"

definition status_notice_body :: "ticket_status \<Rightarrow> ticket_status \<Rightarrow> string option" where
  "status_notice_body old_status new_status =
     (if new_status = TClosed
      then Some ''This ticket has been marked closed. Reply to this email if you need to reopen it.''
      else if new_status = TOpen \<and> old_status \<noteq> TOpen
      then Some (''This ticket has been reopened '' @ em_dash @ '' we're back on it.'')
      else None)"

definition escape_html :: "string \<Rightarrow> string" where
  "escape_html s =
     replace_char (CHR 0x22) ''&quot;''
       (replace_char (CHR ''>'') ''&gt;'' (replace_char (CHR ''<'') ''&lt;'' (replace_char (CHR ''&'') ''&amp;'' s)))"

definition quote_mark :: string where "quote_mark = [CHR 0x22]"
definition newline :: string where "newline = [CHR 0x0A]"

definition html_lines :: "string \<Rightarrow> string" where
  "html_lines s = replace_char (CHR 0x0A) (''<br>'' @ newline) (escape_html s)"

definition render_html :: "string \<Rightarrow> string \<Rightarrow> string" where
  "render_html body signature =
     ''<!DOCTYPE html>'' @ newline @ ''<html><body style='' @ quote_mark @
     ''font-family:Arial,Helvetica,sans-serif;color:#222'' @ quote_mark @ ''>'' @ newline @
     ''<div>'' @ html_lines body @ ''</div>'' @ newline @
     (if trim signature \<noteq> []
      then ''<div style='' @ quote_mark @
        ''margin-top:1em;padding-top:0.5em;border-top:1px solid #e5e7eb;color:#555'' @ quote_mark @
        ''>'' @ html_lines signature @ ''</div>'' @ newline
      else []) @
     ''</body></html>''"

definition render_text :: "string \<Rightarrow> string \<Rightarrow> string" where
  "render_text body signature =
     (if trim signature = [] then body else body @ newline @ newline @ signature)"

subsection \<open>Building a message\<close>

record mime =
  mm_from :: "string \<times> string"
  mm_reply_to :: string
  mm_subject :: string
  mm_message_id :: string
  mm_headers :: "(string \<times> string) list"
  mm_text :: string
  mm_html :: string
  mm_to :: "string list option"
  mm_cc :: "string list option"

definition raw_header :: "string \<Rightarrow> string option \<Rightarrow> (string \<times> string) list" where
  "raw_header name v = (case v of None \<Rightarrow> [] | Some x \<Rightarrow> [(name, x)])"

definition outbound_mime ::
    "(string \<Rightarrow> string) \<Rightarrow> string \<Rightarrow> org_instance \<Rightarrow> inbound_address list \<Rightarrow> ticket \<Rightarrow> string list
     \<Rightarrow> string list \<Rightarrow> string \<Rightarrow> threading \<Rightarrow> mail_error + mime \<times> string list \<times> string list" where
  "outbound_mime lower nonce instance addresses ticket requester_emails cc_emails body threading =
     rbind (ok_or (NoInboundAddress (inst_id instance)) (primary_inbound_address addresses)) (\<lambda>from_address.
     rbind (reply_to_address from_address (tkt_id ticket) (tkt_reply_token ticket)) (\<lambda>reply_to.
     let to = filter (\<lambda>e. \<not> is_own_address lower addresses e) requester_emails;
         cc = filter (\<lambda>e. \<not> is_own_address lower addresses e) cc_emails
     in if to = [] \<and> cc = [] then Inl (NoRecipientsLeft (tkt_id ticket))
        else
          let subject = tag_subject (inst_slug instance) (tkt_number ticket) (tkt_subject ticket);
              from_domain = (case rsplit_once (CHR ''@'') from_address of
                               Some (a, d) \<Rightarrow> d | None \<Rightarrow> ''toolbox.invalid'')
          in Inr (\<lparr>mm_from = (inst_from_name instance, from_address), mm_reply_to = reply_to,
                   mm_subject = subject, mm_message_id = nonce @ ''@'' @ from_domain,
                   mm_headers = (''X-Toolbox-Loop'', ''1'')
                     # raw_header ''In-Reply-To'' (th_in_reply_to threading)
                     @ raw_header ''References'' (th_references threading),
                   mm_text = render_text body (inst_signature instance),
                   mm_html = render_html body (inst_signature instance),
                   mm_to = (if to = [] then None else Some to),
                   mm_cc = (if cc = [] then None else Some cc)\<rparr>, to, cc)))"

definition build_outbound ::
    "(mime \<Rightarrow> string + string) \<Rightarrow> (string \<Rightarrow> string) \<Rightarrow> string \<Rightarrow> org_instance \<Rightarrow> inbound_address list
     \<Rightarrow> ticket \<Rightarrow> string list \<Rightarrow> string list \<Rightarrow> string \<Rightarrow> threading \<Rightarrow> mail_error + built_message" where
  "build_outbound write_mime lower nonce instance addresses ticket requester_emails cc_emails body threading =
     rbind (outbound_mime lower nonce instance addresses ticket requester_emails cc_emails body threading)
       (\<lambda>(m, to, cc).
     rbind (map_err MimeFailed (write_mime m)) (\<lambda>raw.
     Inr \<lparr>bm_raw = raw, bm_to = to, bm_cc = cc\<rparr>))"

subsection \<open>The sender address does not depend on the order of the rows\<close>

lemma address_le_total: "address_le a b \<or> address_le b a"
  by (auto simp: address_le_def)

lemma address_le_trans: "address_le a b \<Longrightarrow> address_le b c \<Longrightarrow> address_le a c"
  by (auto simp: address_le_def)

lemma address_le_antisym: "address_le a b \<Longrightarrow> address_le b a \<Longrightarrow> ia_address a = ia_address b"
  by (auto simp: address_le_def)

lemma earliest_address_least:
  "earliest_address as = Some a \<Longrightarrow> a \<in> set as \<and> (\<forall>b \<in> set as. address_le a b)"
proof (induction as arbitrary: a)
  case (Cons x xs)
  show ?case
  proof (cases "earliest_address xs")
    case None
    then have "xs = []" by (cases xs) (auto split: option.splits if_splits)
    with Cons.prems show ?thesis using address_le_total [of a a] by simp
  next
    case (Some y)
    note y = Cons.IH [OF Some]
    show ?thesis
    proof (cases "address_le x y")
      case True
      with Cons.prems Some have "a = x" by simp
      have "address_le x b" if "b \<in> set xs" for b using address_le_trans [OF True] y that by blast
      then show ?thesis using \<open>a = x\<close> address_le_total [of x x] by simp
    next
      case False
      with Cons.prems Some have "a = y" by simp
      have "address_le y x" using False address_le_total [of x y] by simp
      then show ?thesis using \<open>a = y\<close> y by simp
    qed
  qed
qed simp

lemma earliest_address_None: "earliest_address as = None \<longleftrightarrow> as = []"
  by (cases as) (auto split: option.splits if_splits)

lemma earliest_of_kind_mset:
  assumes "mset as = mset bs"
  shows "map_option ia_address (earliest_of_kind k as) = map_option ia_address (earliest_of_kind k bs)"
proof -
  define xs ys where "xs = filter (\<lambda>a. ia_kind a = k) as" and "ys = filter (\<lambda>a. ia_kind a = k) bs"
  have m: "mset xs = mset ys" by (simp add: xs_def ys_def assms)
  then have s: "set xs = set ys" by (rule mset_eq_setD)
  have "map_option ia_address (earliest_address xs) = map_option ia_address (earliest_address ys)"
  proof (cases "earliest_address xs")
    case None
    then have "ys = []" using m by (simp add: earliest_address_None)
    with None show ?thesis by simp
  next
    case (Some a)
    then have "xs \<noteq> []" by auto
    then have "ys \<noteq> []" using s by auto
    then obtain b where b: "earliest_address ys = Some b"
      by (cases "earliest_address ys") (simp_all add: earliest_address_None)
    have "address_le a b" using earliest_address_least [OF Some] earliest_address_least [OF b] s by blast
    moreover have "address_le b a" using earliest_address_least [OF Some] earliest_address_least [OF b] s by blast
    ultimately have "ia_address a = ia_address b" by (rule address_le_antisym)
    with Some b show ?thesis by simp
  qed
  then show ?thesis by (simp add: earliest_of_kind_def xs_def ys_def)
qed

lemma primary_by_address:
  "primary_inbound_address as =
     (case map_option ia_address (earliest_of_kind Exact as) of
        Some e \<Rightarrow> Some e
      | None \<Rightarrow>
         (case map_option ia_address (earliest_of_kind Wildcard as) of
            None \<Rightarrow> None
          | Some w \<Rightarrow> map_option (\<lambda>domain. ''support@'' @ domain) (strip_prefix ''*@'' w)))"
  by (simp add: primary_inbound_address_def split: option.splits)

text \<open>
  The address mail is sent from is stable: it depends on the instance's addresses, not on
  the order the index returns them in.
\<close>

theorem primary_address_stable:
  assumes "mset as = mset bs"
  shows "primary_inbound_address as = primary_inbound_address bs"
  unfolding primary_by_address earliest_of_kind_mset [OF assms] ..

definition demo_address :: "string \<Rightarrow> nat \<Rightarrow> inbound_address" where
  "demo_address a n = \<lparr>ia_address = a, ia_instance_id = ''n1'', ia_kind = Exact, ia_created_at = n\<rparr>"

theorem primary_address_stable_witness:
  "primary_inbound_address [demo_address ''b@x'' 5, demo_address ''a@x'' 5]
    = primary_inbound_address [demo_address ''a@x'' 5, demo_address ''b@x'' 5]"
  by (rule primary_address_stable) simp

subsection \<open>Escaping\<close>

text \<open>Escaping in one pass, each character on its own.\<close>

fun html_char :: "char \<Rightarrow> string" where
  "html_char c =
     (if c = CHR ''&'' then ''&amp;'' else if c = CHR ''<'' then ''&lt;''
      else if c = CHR ''>'' then ''&gt;'' else if c = CHR 0x22 then ''&quot;'' else [c])"

text \<open>
  The four replacements that \<^verbatim>\<open>escape_html\<close> makes one after the other equal escaping
  each character once, so nothing is escaped twice, and no markup character is left.
\<close>

theorem escape_html_single_pass:
  "escape_html s = concat (map html_char s)
   \<and> set (escape_html s) \<inter> {CHR ''<'', CHR ''>'', CHR 0x22} = {}"
proof -
  have eq: "escape_html s = concat (map html_char s)" for s
    by (induction s) (simp_all add: escape_html_def)
  have "set (concat (map html_char s)) \<inter> {CHR ''<'', CHR ''>'', CHR 0x22} = {}"
    by (induction s) auto
  with eq show ?thesis by simp
qed

subsection \<open>Subject tags\<close>

lemma after_marker_skip: "CHR ''['' \<notin> set p \<Longrightarrow> after_marker (p @ s) = after_marker s"
  by (induction p) auto

lemma parse_subject_tag_skip: "CHR ''['' \<notin> set p \<Longrightarrow> parse_subject_tag (p @ s) = parse_subject_tag s"
  by (simp add: parse_subject_tag.simps [of "p @ s"] parse_subject_tag.simps [of s] after_marker_skip)

lemma tag_at_tag:
  assumes "slug \<noteq> []" "CHR '']'' \<notin> set slug" "n \<le> u64_max"
  shows "tag_at (slug @ ''-'' @ show_nat n @ '']'' @ rest) = Some (slug, n)"
proof -
  have d: "CHR '']'' \<notin> set (show_nat n)" "CHR ''-'' \<notin> set (show_nat n)"
    using show_nat_digits [of n] by (auto simp: list_all_iff is_digit_def)
  have "split_once (CHR '']'') ((slug @ ''-'' @ show_nat n) @ CHR '']'' # rest)
      = Some (slug @ ''-'' @ show_nat n, rest)"
    by (rule split_once_append) (use assms(2) d in auto)
  then show ?thesis using rsplit_once_append [OF d(2), of slug] assms
    by (simp add: tag_at_def parse_u64_show)
qed

lemma parse_subject_tag_tag:
  assumes "slug \<noteq> []" "CHR '']'' \<notin> set slug" "n \<le> u64_max"
  shows "parse_subject_tag (ticket_subject_tag slug n @ rest) = Some (slug, n)"
  using tag_at_tag [OF assms, of rest]
  by (subst parse_subject_tag.simps) (simp add: ticket_subject_tag_def)

lemma validate_slug_chars:
  assumes "validate_slug slug = Inr ()"
  shows "slug \<noteq> []" "CHR '']'' \<notin> set slug"
  using assms by (auto simp: validate_slug_def list_all_iff is_ascii_lowercase_def is_digit_def split: if_splits)

text \<open>
  The subject tag leads a reply back to its ticket: parsing the subject that goes out, with
  whatever a mail client puts before it, gives the instance's slug and the ticket's number back
  exactly when the ticket's own subject had no tag yet or had this one. A subject that arrived
  with some other tag in it, anywhere, is sent without the ticket's own.
\<close>

theorem subject_tag_round_trip:
  assumes "validate_slug slug = Inr ()" "n \<le> u64_max" "CHR ''['' \<notin> set prefix"
  shows "parse_subject_tag (prefix @ tag_subject slug n subject) = Some (slug, n) \<longleftrightarrow>
    parse_subject_tag subject = None \<or> parse_subject_tag subject = Some (slug, n)"
  using parse_subject_tag_tag [OF validate_slug_chars [OF assms(1)] assms(2), of "'' '' @ subject"]
  by (cases "parse_subject_tag subject") (simp_all add: parse_subject_tag_skip [OF assms(3)] tag_subject_def)

theorem subject_tag_round_trip_witness:
  "parse_subject_tag (''Re: '' @ tag_subject ''ridge-line'' 42 ''printer'') = Some (''ridge-line'', 42)
   \<and> tag_subject ''ridge-line'' 42 ''Fwd: [#other-7] printer'' = ''Fwd: [#other-7] printer''"
proof -
  have v: "validate_slug ''ridge-line'' = Inr ()"
    by (simp add: validate_slug_def is_ascii_lowercase_def is_digit_def starts_with_char_def ends_with_char_def)
  have none: "parse_subject_tag ''printer'' = None" by (simp add: parse_subject_tag.simps)
  have seven: "parse_u64 ''7'' = Some 7"
    by (simp add: parse_u64_def parse_nat_def is_digit_def digits_val_def digit_val_def u64_max_def)
  have "parse_subject_tag ''Fwd: [#other-7] printer'' = Some (''other'', 7)"
    by (simp add: parse_subject_tag.simps tag_at_def rsplit_once_def seven)
  with subject_tag_round_trip [OF v, of 42 "''Re: ''" "''printer''"] none show ?thesis
    by (simp add: u64_max_def tag_subject_def)
qed

subsection \<open>What is sent\<close>

lemma outbound_mimeD:
  assumes "outbound_mime lower nonce inst addrs t rs cs body th = Inr (m, to, cc)"
  shows "to = filter (\<lambda>e. \<not> is_own_address lower addrs e) rs"
    "cc = filter (\<lambda>e. \<not> is_own_address lower addrs e) cs"
    "to \<noteq> [] \<or> cc \<noteq> []"
    "primary_inbound_address addrs = Some (snd (mm_from m))"
    "reply_to_address (snd (mm_from m)) (tkt_id t) (tkt_reply_token t) = Inr (mm_reply_to m)"
    "(''X-Toolbox-Loop'', ''1'') \<in> set (mm_headers m)"
    "mm_subject m = tag_subject (inst_slug inst) (tkt_number t) (tkt_subject t)"
  using assms by (auto simp: outbound_mime_def Let_def split: if_splits)

text \<open>
  A message built for a ticket goes to exactly the participants that are not addresses of
  the instance itself, to at least one of them, is sent from the instance's primary address,
  asks for replies at that address with the ticket's tag, and carries the loop header that makes
  the inbound side drop it.
\<close>

theorem outbound_message_sound:
  assumes "build_outbound write_mime lower nonce inst addrs t rs cs body th = Inr b"
  shows "\<exists>m. write_mime m = Inr (bm_raw b)
    \<and> bm_to b = filter (\<lambda>e. \<not> is_own_address lower addrs e) rs
    \<and> bm_cc b = filter (\<lambda>e. \<not> is_own_address lower addrs e) cs
    \<and> (bm_to b \<noteq> [] \<or> bm_cc b \<noteq> [])
    \<and> primary_inbound_address addrs = Some (snd (mm_from m))
    \<and> reply_to_address (snd (mm_from m)) (tkt_id t) (tkt_reply_token t) = Inr (mm_reply_to m)
    \<and> (''X-Toolbox-Loop'', ''1'') \<in> set (mm_headers m)"
proof -
  from assms obtain m to cc raw where
      o: "outbound_mime lower nonce inst addrs t rs cs body th = Inr (m, to, cc)"
      and w: "write_mime m = Inr raw" and b: "b = \<lparr>bm_raw = raw, bm_to = to, bm_cc = cc\<rparr>"
    by (auto simp: build_outbound_def)
  show ?thesis using outbound_mimeD [OF o] w b by (intro exI [of _ m]) simp
qed

definition demo_ticket :: ticket where
  "demo_ticket =
     \<lparr>tkt_id = ''T1'', tkt_instance_id = ''n1'', tkt_number = 42, tkt_subject = ''printer'', tkt_status = TOpen,
      tkt_requester_emails = [''ann@client.test''], tkt_cc_emails = [], tkt_assignee_user_id = None,
      tkt_reply_token = ''k9'', tkt_created_at = 1, tkt_updated_at = 1, tkt_last_activity_at = 1,
      tkt_has_attachments = False\<rparr>"

definition demo_support :: org_instance where
  "demo_support =
     \<lparr>inst_id = ''n1'', inst_name = ''Acme'', inst_slug = ''acme'', inst_kind = Support,
      inst_public_submission_enabled = True, inst_from_name = ''Acme'', inst_signature = [],
      inst_created_at = 1, inst_deleted = False, inst_business_name = None, inst_business_abn = None,
      inst_business_address = None, inst_business_phone = None, inst_business_email = None,
      inst_payment_details = None, inst_gst_registered = False, inst_currency = None\<rparr>"

theorem outbound_message_sound_witness:
  "\<exists>m :: mime. mm_reply_to m = ''help+tT1.k9@acme.test''
     \<and> primary_inbound_address [demo_address ''help@acme.test'' 1] = Some (snd (mm_from m))"
proof -
  let ?as = "[demo_address ''help@acme.test'' 1]"
  have p: "primary_inbound_address ?as = Some ''help@acme.test''"
    by (simp add: primary_inbound_address_def earliest_of_kind_def demo_address_def)
  have r: "reply_to_address ''help@acme.test'' ''T1'' ''k9'' = Inr ''help+tT1.k9@acme.test''"
    by (simp add: reply_to_address_def)
  have own: "\<not> is_own_address to_ascii_lowercase ?as ''ann@client.test''"
    by (simp add: is_own_address_def demo_address_def normalize_recipient_def to_ascii_lowercase_def
        ascii_lower_def is_ascii_uppercase_def Let_def)
  obtain b where b: "build_outbound (\<lambda>m. Inr []) to_ascii_lowercase ''x'' demo_support ?as demo_ticket
      [''ann@client.test''] [] ''hi'' \<lparr>th_in_reply_to = None, th_references = None\<rparr> = Inr b"
    using p r own by (simp add: build_outbound_def outbound_mime_def demo_ticket_def Let_def)
  from outbound_message_sound [OF b] obtain m :: mime where
      m: "primary_inbound_address ?as = Some (snd (mm_from m))"
        "reply_to_address (snd (mm_from m)) (tkt_id demo_ticket) (tkt_reply_token demo_ticket) = Inr (mm_reply_to m)"
    by blast
  with p have "snd (mm_from m) = ''help@acme.test''" by simp
  with m(2) r have "mm_reply_to m = ''help+tT1.k9@acme.test''" by (simp add: demo_ticket_def)
  with m(1) show ?thesis by blast
qed

end
