(* ===== verification/Attachments.thy ===== *)
theory Attachments
  imports Mail_Routing
begin

section \<open>Attachment names and storage keys\<close>

text \<open>
  \<^verbatim>\<open>api/src/inbound/attachments.rs\<close>: an untrusted MIME file name is cut down to its last
  path segment, to a small ASCII character set and to 120 characters; storage keys are built
  from ids and that name, and a key offered by a client is accepted only under the prefix of the
  client's own instance.
\<close>

definition MAX_ATTACHMENT_BYTES :: nat where "MAX_ATTACHMENT_BYTES = 15 * 1024 * 1024"
definition MAX_FILENAME_LEN :: nat where "MAX_FILENAME_LEN = 120"

definition is_separator :: "char \<Rightarrow> bool" where
  "is_separator c \<longleftrightarrow> c = CHR ''/'' \<or> c = CHR 0x5C"

definition last_segment :: "string \<Rightarrow> string" where
  \<comment> \<open>\<^verbatim>\<open>raw.rsplit(['/', '\\']).next()\<close>\<close>
  "last_segment s = rev (takeWhile (\<lambda>c. \<not> is_separator c) (rev s))"

definition is_ascii_alphanumeric :: "char \<Rightarrow> bool" where
  "is_ascii_alphanumeric c \<longleftrightarrow> is_ascii_uppercase c \<or> is_ascii_lowercase c \<or> is_digit c"

definition name_char :: "char \<Rightarrow> bool" where
  "name_char c \<longleftrightarrow> is_ascii_alphanumeric c \<or> c \<in> {CHR ''.'', CHR ''-'', CHR ''_'', CHR '' ''}"

definition is_continuation :: "char \<Rightarrow> bool" where
  "is_continuation c \<longleftrightarrow> 128 \<le> (of_char c :: nat) \<and> (of_char c :: nat) < 192"

text \<open>One character of output per character of input; a character is counted at its first byte.\<close>

definition replace_unsafe :: "string \<Rightarrow> string" where
  "replace_unsafe s =
     concat (map (\<lambda>c. if name_char c then [c] else if is_continuation c then [] else [CHR ''_'']) s)"

definition trim_dots :: "string \<Rightarrow> string" where
  "trim_dots s = rev (dropWhile (\<lambda>c. c = CHR ''.'') (rev (dropWhile (\<lambda>c. c = CHR ''.'') s)))"

definition tidy :: "string \<Rightarrow> string" where
  "tidy s = trim (trim_dots (trim s))"

definition fallback_name :: "nat \<Rightarrow> string" where
  "fallback_name index = ''attachment-'' @ show_nat index"

definition sanitize_filename :: "string option \<Rightarrow> nat \<Rightarrow> string" where
  "sanitize_filename raw index =
     (case raw of
        None \<Rightarrow> fallback_name index
      | Some r \<Rightarrow>
         (let trimmed = tidy (replace_unsafe (last_segment r)) in
          if trimmed = [] then fallback_name index
          else
            (let truncated = tidy (take MAX_FILENAME_LEN trimmed) in
             if truncated = [] then fallback_name index else truncated)))"

definition attachment_key :: "string \<Rightarrow> string \<Rightarrow> nat \<Rightarrow> string \<Rightarrow> string" where
  "attachment_key ticket_id message_id index filename =
     ''attachments/'' @ ticket_id @ ''/'' @ message_id @ ''/'' @ show_nat index @ ''/'' @ filename"

definition pending_key :: "string \<Rightarrow> string \<Rightarrow> string \<Rightarrow> string" where
  "pending_key instance_id unique filename =
     ''pending/'' @ instance_id @ ''/'' @ unique @ ''/'' @ filename"

definition pending_prefix :: "string \<Rightarrow> string" where
  "pending_prefix instance_id = ''pending/'' @ instance_id @ ''/''"

definition content_types :: "(string \<times> string) list" where
  "content_types =
     [(''pdf'', ''application/pdf''), (''png'', ''image/png''), (''jpg'', ''image/jpeg''),
      (''jpeg'', ''image/jpeg''), (''gif'', ''image/gif''), (''webp'', ''image/webp''),
      (''svg'', ''image/svg+xml''), (''txt'', ''text/plain''), (''csv'', ''text/csv''),
      (''html'', ''text/html''), (''htm'', ''text/html''), (''json'', ''application/json''),
      (''zip'', ''application/zip''), (''doc'', ''application/msword''),
      (''docx'', ''application/vnd.openxmlformats-officedocument.wordprocessingml.document''),
      (''xls'', ''application/vnd.ms-excel''),
      (''xlsx'', ''application/vnd.openxmlformats-officedocument.spreadsheetml.sheet''),
      (''mp4'', ''video/mp4''), (''mp3'', ''audio/mpeg'')]"

definition guess_content_type :: "string \<Rightarrow> string" where
  "guess_content_type filename =
     (let ext = (case rsplit_once (CHR ''.'') filename of
                   Some (stem, ext) \<Rightarrow> to_ascii_lowercase ext | None \<Rightarrow> [])
      in unwrap_or ''application/octet-stream'' (map_of content_types ext))"

fun contains_str :: "string \<Rightarrow> string \<Rightarrow> bool" where
  "contains_str p [] = (p = [])"
| "contains_str p (c # s) = (strip_prefix p (c # s) \<noteq> None \<or> contains_str p s)"

definition is_pending_key_for_instance :: "string \<Rightarrow> string \<Rightarrow> bool" where
  "is_pending_key_for_instance key instance_id \<longleftrightarrow>
     \<not> contains_str ''..'' key \<and> strip_prefix (pending_prefix instance_id) key \<noteq> None"

subsection \<open>What a sanitised name looks like\<close>

lemma trim_dots_subset: "set (trim_dots s) \<subseteq> set s"
  unfolding trim_dots_def using set_dropWhileD by (metis set_rev subsetI)

lemma trim_subset: "set (trim s) \<subseteq> set s"
proof -
  obtain p q where "s = p @ trim s @ q" using trim_infix by blast
  then have "set s = set p \<union> set (trim s) \<union> set q" by (metis set_append sup_assoc)
  then show ?thesis by blast
qed

lemma tidy_subset: "set (tidy s) \<subseteq> set s"
  unfolding tidy_def using trim_dots_subset trim_subset by blast

lemma length_trim: "length (trim s) \<le> length s"
proof -
  obtain p q where "s = p @ trim s @ q" using trim_infix by blast
  then have "length s = length p + length (trim s) + length q" by (metis length_append add.assoc)
  then show ?thesis by simp
qed

lemma length_tidy: "length (tidy s) \<le> length s"
proof -
  have "length (trim_dots t) \<le> length t" for t
    unfolding trim_dots_def by (metis length_dropWhile_le length_rev le_trans)
  then show ?thesis unfolding tidy_def by (meson length_trim le_trans)
qed

lemma replace_unsafe_chars: "c \<in> set (replace_unsafe s) \<Longrightarrow> name_char c"
  by (auto simp: replace_unsafe_def name_char_def split: if_splits)

lemma name_char_no_separator: "name_char c \<Longrightarrow> \<not> is_separator c"
  by (auto simp: name_char_def is_separator_def is_ascii_alphanumeric_def is_ascii_uppercase_def
      is_ascii_lowercase_def is_digit_def)

lemma digit_name_char: "is_digit c \<Longrightarrow> name_char c"
  by (simp add: name_char_def is_ascii_alphanumeric_def)

lemma fallback_name_chars: "c \<in> set (fallback_name i) \<Longrightarrow> name_char c"
  using show_nat_digits [of i]
  by (auto simp: fallback_name_def list_all_iff digit_name_char)
    (auto simp: name_char_def is_ascii_alphanumeric_def is_ascii_lowercase_def)

lemma sanitize_cases:
  "sanitize_filename raw i = fallback_name i
   \<or> (\<exists>r. raw = Some r \<and> sanitize_filename raw i \<noteq> []
        \<and> sanitize_filename raw i = tidy (take MAX_FILENAME_LEN (tidy (replace_unsafe (last_segment r)))))"
  by (auto simp: sanitize_filename_def Let_def split: option.splits)

lemma sanitize_chars: "c \<in> set (sanitize_filename raw i) \<Longrightarrow> name_char c"
  using sanitize_cases [of raw i] fallback_name_chars tidy_subset replace_unsafe_chars
  by (metis in_set_takeD subsetD)

text \<open>
  Whatever name a MIME part claims, the sanitised one is never empty, has at most 120
  characters (for any index below ten to the hundredth), and consists of ASCII letters, digits,
  spaces, dots, hyphens and underscores only: no separator survives.
\<close>

theorem sanitized_name_safe:
  assumes "index < 10 ^ 100"
  shows "sanitize_filename raw index \<noteq> [] \<and> length (sanitize_filename raw index) \<le> 120
    \<and> list_all (\<lambda>c. name_char c \<and> \<not> is_separator c) (sanitize_filename raw index)"
proof -
  have "length (show_nat index) \<le> 100" by (rule length_show_nat_le [OF assms]) simp
  then have f: "length (fallback_name index) \<le> 120" "fallback_name index \<noteq> []"
    by (simp_all add: fallback_name_def)
  have "length (tidy (take MAX_FILENAME_LEN x)) \<le> 120" for x
    using length_tidy [of "take MAX_FILENAME_LEN x"] by (simp add: MAX_FILENAME_LEN_def)
  then show ?thesis using sanitize_cases [of raw index] f sanitize_chars name_char_no_separator
    by (auto simp: list_all_iff)
qed

theorem sanitized_name_safe_witness:
  "length (sanitize_filename (Some ''../../etc/passwd'') 3) \<le> 120"
  using sanitized_name_safe [of 3 "Some ''../../etc/passwd''"] by simp

lemma trim_spaced:
  assumes "s \<noteq> []" "plain_char (hd s)" "plain_char (last s)"
  shows "trim (CHR '' '' # s @ [CHR '' '']) = s"
proof -
  have a: "strip_any ws_seqs (CHR '' '' # x) = Some x" for x by (simp add: ws_seqs_def)
  have b: "strip_any (map rev ws_seqs) (CHR '' '' # x) = Some x" for x by (simp add: ws_seqs_def)
  have start: "trim_start (CHR '' '' # s @ [CHR '' '']) = s @ [CHR '' '']"
    using assms(1) plain_char_hd [OF assms(2)] unfolding trim_start_def
    by (subst trim_front.simps, simp only: a option.case) (cases s; auto intro!: trim_front_hd)
  obtain t c where s: "s = t @ [c]" using assms(1) by (meson rev_exhaust)
  have "trim_front (map rev ws_seqs) (c # rev t) = c # rev t"
    using assms(3) s plain_char_last [of c] by (intro trim_front_hd) simp
  then have "trim_end (s @ [CHR '' '']) = s"
    unfolding trim_end_def by (simp add: s trim_front.simps [of _ "CHR '' '' # _"] b)
  with start show ?thesis by (simp add: trim_def)
qed

text \<open>
  A name that is only dots and blanks is not always replaced by the fallback: each pass
  of trimming uncovers new dots, so this one comes out as the parent directory's name.
\<close>

theorem dots_slip_through: "sanitize_filename (Some ''. . .. . .'') 0 = ''..''"
proof -
  have d: "plain_char (CHR ''.'')" by (simp add: plain_char_def)
  have "replace_unsafe (last_segment ''. . .. . .'') = ''. . .. . .''"
    by (simp add: last_segment_def is_separator_def replace_unsafe_def name_char_def)
  moreover have "tidy ''. . .. . .'' = ''. .. .''"
    using trim_plain [of "''. . .. . .''"] trim_spaced [of "''. .. .''"] d by (simp add: tidy_def trim_dots_def)
  moreover have "tidy ''. .. .'' = ''..''"
    using trim_plain [of "''. .. .''"] trim_spaced [of "''..''"] d by (simp add: tidy_def trim_dots_def)
  ultimately show ?thesis by (simp add: sanitize_filename_def MAX_FILENAME_LEN_def)
qed

subsection \<open>Storage keys\<close>

lemma append_slash_inject:
  assumes "a @ CHR ''/'' # x = b @ CHR ''/'' # y" "CHR ''/'' \<notin> set a" "CHR ''/'' \<notin> set b"
  shows "a = b \<and> x = y"
proof -
  have "Some (a, x) = split_once (CHR ''/'') (a @ CHR ''/'' # x)" using split_once_append [OF assms(2)] by simp
  also have "\<dots> = Some (b, y)" unfolding assms(1) using split_once_append [OF assms(3)] by simp
  finally show ?thesis by simp
qed

lemma show_nat_no_slash: "CHR ''/'' \<notin> set (show_nat n)"
  using show_nat_digits [of n] by (auto simp: list_all_iff is_digit_def)

text \<open>
  Storage keys of different attachments never collide: with ids free of slashes, as the
  nanoid alphabet gives them, the key determines the ticket, the message, the position and the
  name.
\<close>

theorem attachment_key_injective:
  assumes "CHR ''/'' \<notin> set t" "CHR ''/'' \<notin> set m" "CHR ''/'' \<notin> set t'" "CHR ''/'' \<notin> set m'"
    and "attachment_key t m i f = attachment_key t' m' i' f'"
  shows "t = t' \<and> m = m' \<and> i = i' \<and> f = f'"
proof -
  have a: "t @ CHR ''/'' # (m @ CHR ''/'' # (show_nat i @ CHR ''/'' # f))
      = t' @ CHR ''/'' # (m' @ CHR ''/'' # (show_nat i' @ CHR ''/'' # f'))"
    using assms(5) by (simp add: attachment_key_def)
  note t = append_slash_inject [OF a assms(1,3)]
  note m = append_slash_inject [OF conjunct2 [OF t] assms(2,4)]
  note i = append_slash_inject [OF conjunct2 [OF m] show_nat_no_slash show_nat_no_slash]
  from t m i show ?thesis by simp
qed

theorem attachment_key_injective_witness:
  "attachment_key ''t1'' ''m1'' 0 ''a.png'' \<noteq> attachment_key ''t1'' ''m1'' 1 ''a.png''"
  using attachment_key_injective [of "''t1''" "''m1''" "''t1''" "''m1''" 0 "''a.png''" 1 "''a.png''"] by auto

text \<open>
  A pending upload belongs to one instance: the key made for an upload of one instance is
  accepted for that instance only, and it is accepted exactly when it has no two dots in a row.
  An upload named \<^verbatim>\<open>report..pdf\<close> is therefore given a key that the reply refuses.
\<close>

theorem pending_key_owner:
  assumes "CHR ''/'' \<notin> set i" "CHR ''/'' \<notin> set j"
  shows "is_pending_key_for_instance (pending_key i u f) j \<longleftrightarrow>
    i = j \<and> \<not> contains_str ''..'' (pending_key i u f)"
proof -
  have "strip_prefix (pending_prefix j) (pending_key i u f) \<noteq> None \<longleftrightarrow> i = j"
  proof
    assume "strip_prefix (pending_prefix j) (pending_key i u f) \<noteq> None"
    then obtain r where "pending_key i u f = pending_prefix j @ r" using strip_prefix_Some by blast
    then have "i @ CHR ''/'' # (u @ CHR ''/'' # f) = j @ CHR ''/'' # r"
      by (simp add: pending_key_def pending_prefix_def)
    from append_slash_inject [OF this assms] show "i = j" by simp
  next
    assume "i = j"
    then have "pending_key i u f = pending_prefix j @ (u @ CHR ''/'' # f)"
      by (simp add: pending_key_def pending_prefix_def)
    then show "strip_prefix (pending_prefix j) (pending_key i u f) \<noteq> None"
      by (simp only: strip_prefix_append option.distinct simp_thms)
  qed
  then show ?thesis by (auto simp: is_pending_key_for_instance_def)
qed

theorem pending_key_owner_witness:
  "\<not> is_pending_key_for_instance (pending_key ''n1'' ''u1'' ''report..pdf'') ''n1''
   \<and> \<not> is_pending_key_for_instance (pending_key ''n1'' ''u1'' ''report.pdf'') ''n2''"
  using pending_key_owner [of "''n1''" "''n1''" "''u1''" "''report..pdf''"]
    pending_key_owner [of "''n1''" "''n2''" "''u1''" "''report.pdf''"]
  by (simp add: pending_key_def)

end
