(* ===== verification/Resolution.thy ===== *)
theory Resolution
  imports Outbound Attachments "HOL-Library.Word"
begin

section \<open>Which ticket an inbound message belongs to\<close>

text \<open>
  \<^verbatim>\<open>api/src/inbound/resolution.rs\<close>: the reply tag of a recipient address, the candidate
  message ids of a thread, and the plan that \<^verbatim>\<open>inbound::pipeline\<close> walks. Tokens are compared
  on 8-bit words with exclusive or, as the source does.
\<close>

unbundle bit_operations_syntax

record reply_tag =
  rt_ticket_id :: string
  rt_reply_token :: string

definition parse_reply_tag :: "string \<Rightarrow> reply_tag option" where
  "parse_reply_tag tag =
     (case strip_prefix ''t'' tag of
        None \<Rightarrow> None
      | Some rest \<Rightarrow>
         (case split_once (CHR ''.'') rest of
            None \<Rightarrow> None
          | Some (ticket_id, reply_token) \<Rightarrow>
              if ticket_id = [] \<or> reply_token = [] then None
              else Some \<lparr>rt_ticket_id = ticket_id, rt_reply_token = reply_token\<rparr>))"

definition recipient_tag :: "(string \<Rightarrow> string) \<Rightarrow> string \<Rightarrow> reply_tag option" where
  "recipient_tag lower raw =
     (case nr_tag (normalize_recipient lower raw) of None \<Rightarrow> None | Some t \<Rightarrow> parse_reply_tag t)"

definition push_new :: "'a \<Rightarrow> 'a list \<Rightarrow> 'a list" where
  "push_new x out = (if x \<in> set out then out else out @ [x])"

fun extract_from :: "(string \<Rightarrow> string) \<Rightarrow> string list \<Rightarrow> reply_tag list \<Rightarrow> reply_tag list" where
  "extract_from lower [] out = out"
| "extract_from lower (raw # recipients) out =
     (case recipient_tag lower raw of
        None \<Rightarrow> extract_from lower recipients out
      | Some tag \<Rightarrow> extract_from lower recipients (push_new tag out))"

definition extract_reply_tags :: "(string \<Rightarrow> string) \<Rightarrow> string list \<Rightarrow> reply_tag list" where
  "extract_reply_tags lower recipients = extract_from lower recipients []"

definition byte :: "char \<Rightarrow> 8 word" where
  "byte c = word_of_nat (of_char c)"

definition constant_time_eq :: "string \<Rightarrow> string \<Rightarrow> bool" where
  "constant_time_eq a b =
     (if length a \<noteq> length b then False
      else fold (\<lambda>(x, y) diff. diff OR (byte x XOR byte y)) (zip a b) 0 = 0)"

fun push_ids :: "string list \<Rightarrow> string list \<Rightarrow> string list" where
  "push_ids [] out = out"
| "push_ids (w # ws) out =
     (let i = trim w in
      if i \<noteq> [] \<and> \<not> list_ex (\<lambda>x. x = i) out then push_ids ws (out @ [i]) else push_ids ws out)"

definition candidate_message_ids :: "string option \<Rightarrow> string option \<Rightarrow> string list" where
  "candidate_message_ids in_reply_to references =
     (let out = (case in_reply_to of
                   None \<Rightarrow> []
                 | Some irt \<Rightarrow> if trim irt \<noteq> [] then [trim irt] else [])
      in case references of
           None \<Rightarrow> out
         | Some refs \<Rightarrow> push_ids (rev (split_whitespace refs)) out)"

record resolution_plan =
  rp_reply_tags :: "reply_tag list"
  rp_message_ids :: "string list"
  rp_subject_number :: "nat option"

definition build_resolution_plan ::
    "(string \<Rightarrow> string) \<Rightarrow> string list \<Rightarrow> string option \<Rightarrow> string option \<Rightarrow> string \<Rightarrow> resolution_plan" where
  "build_resolution_plan lower recipients in_reply_to references subject =
     \<lparr>rp_reply_tags = extract_reply_tags lower recipients,
      rp_message_ids = candidate_message_ids in_reply_to references,
      rp_subject_number = map_option snd (parse_subject_tag subject)\<rparr>"

subsection \<open>Token comparison\<close>

lemma byte_inj: "byte x = byte y \<longleftrightarrow> x = y"
proof -
  have lt: "(of_char c :: nat) < 2 ^ LENGTH(8)" for c :: char by (cases c) simp
  then have "unat (byte c) = of_char c" for c using lt [of c] by (simp add: byte_def unsigned_of_nat take_bit_nat_eq_self)
  then show ?thesis by (metis of_char_eq_iff)
qed

lemma fold_diff_zero:
  "fold (\<lambda>(x, y) diff. diff OR (byte x XOR byte y)) ps d = 0 \<longleftrightarrow>
     d = 0 \<and> list_all (\<lambda>(x, y). x = y) ps"
proof (induction ps arbitrary: d)
  case (Cons p ps)
  obtain x y where p: "p = (x, y)" by (cases p)
  have "d OR (byte x XOR byte y) = 0 \<longleftrightarrow> d = 0 \<and> byte x XOR byte y = 0" by (rule or_eq_0_iff)
  moreover have "byte x XOR byte y = 0 \<longleftrightarrow> x = y" unfolding byte_inj [symmetric] by (metis xor_self_eq xor.right_neutral xor.assoc)
  ultimately show ?case by (auto simp: p Cons.IH)
qed simp

text \<open>
  The constant-time comparison is equality, for tokens of any length.
\<close>

theorem constant_time_eq_iff: "constant_time_eq a b \<longleftrightarrow> a = b"
proof -
  have "list_all (\<lambda>(x, y). x = y) (zip a b) \<longleftrightarrow> a = b" if "length a = length b"
    using that by (induction a b rule: list_induct2) auto
  then show ?thesis by (auto simp: constant_time_eq_def fold_diff_zero)
qed

subsection \<open>Candidates\<close>

lemma push_ids_prefix: "\<exists>more. push_ids ws out = out @ more"
proof (induction ws arbitrary: out)
  case (Cons w ws)
  show ?case using Cons [of out] Cons [of "out @ [trim w]"] by (auto simp: Let_def)
qed simp

lemma push_ids_props:
  assumes "distinct out" "[] \<notin> set out"
  shows "distinct (push_ids ws out)" "[] \<notin> set (push_ids ws out)"
    "set (push_ids ws out) = set out \<union> (trim ` set ws - {[]})"
  using assms by (induction ws arbitrary: out) (auto simp: Let_def list_ex_iff)

text \<open>
  The candidate message ids are distinct and not empty, the id of \<^verbatim>\<open>In-Reply-To\<close> comes
  first when there is one, and every id of \<^verbatim>\<open>References\<close> is among them.
\<close>

theorem candidate_ids_complete:
  "distinct (candidate_message_ids irt refs) \<and> [] \<notin> set (candidate_message_ids irt refs)
   \<and> (\<forall>i. irt = Some i \<longrightarrow> trim i \<noteq> [] \<longrightarrow>
        candidate_message_ids irt refs \<noteq> [] \<and> hd (candidate_message_ids irt refs) = trim i)
   \<and> set (candidate_message_ids irt refs) =
       (case irt of None \<Rightarrow> {} | Some i \<Rightarrow> {trim i} - {[]})
       \<union> (case refs of None \<Rightarrow> {} | Some r \<Rightarrow> trim ` set (split_whitespace r) - {[]})"
proof -
  define out where "out = (case irt of None \<Rightarrow> [] | Some i \<Rightarrow> if trim i \<noteq> [] then [trim i] else [])"
  have o: "distinct out" "[] \<notin> set out" "set out = (case irt of None \<Rightarrow> {} | Some i \<Rightarrow> {trim i} - {[]})"
    by (auto simp: out_def split: option.splits)
  have c: "candidate_message_ids irt refs
      = (case refs of None \<Rightarrow> out | Some r \<Rightarrow> push_ids (rev (split_whitespace r)) out)"
    unfolding candidate_message_ids_def out_def Let_def ..
  have first: "candidate_message_ids irt refs \<noteq> [] \<and> hd (candidate_message_ids irt refs) = trim i"
    if "irt = Some i" "trim i \<noteq> []" for i
  proof -
    have "out = [trim i]" using that by (simp add: out_def)
    moreover have "push_ids ws [trim i] \<noteq> [] \<and> hd (push_ids ws [trim i]) = trim i" for ws
      using push_ids_prefix [of ws "[trim i]"] by auto
    ultimately show ?thesis unfolding c by (cases refs) simp_all
  qed
  show ?thesis
    using first push_ids_props [OF o(1,2)] o unfolding c by (cases refs) simp_all
qed

text \<open>Two ids where the second repeats the first.\<close>

theorem candidate_ids_complete_witness:
  "hd (candidate_message_ids (Some ''<b@x>'') (Some ''<a@x> <b@x>'')) = ''<b@x>''"
proof -
  have "trim ''<b@x>'' = ''<b@x>''" by (rule trim_all_plain) (auto simp: plain_char_def)
  with candidate_ids_complete [of "Some ''<b@x>''" "Some ''<a@x> <b@x>''"] show ?thesis by simp
qed

subsection \<open>The reply address\<close>

lemma parse_reply_tag_tag:
  assumes "i \<noteq> []" "k \<noteq> []" "CHR ''.'' \<notin> set i"
  shows "parse_reply_tag (''t'' @ i @ ''.'' @ k) = Some \<lparr>rt_ticket_id = i, rt_reply_token = k\<rparr>"
  using assms split_once_append [OF assms(3), of k] by (simp add: parse_reply_tag_def)

lemma extract_single: "recipient_tag lower r = Some t \<Longrightarrow> extract_reply_tags lower [r] = [t]"
  by (simp add: extract_reply_tags_def push_new_def)

context lowercase begin

lemma normalize_reply_to:
  assumes "split_once (CHR ''@'') from = Some (l, d)" "CHR ''+'' \<notin> set l" "lower from = from"
    and "CHR ''@'' \<notin> set i" "CHR ''@'' \<notin> set k"
    and "reply_to_address from i k = Inr r"
  shows "normalize_recipient lower r =
    \<lparr>nr_address = from, nr_tag = Some (''t'' @ i @ ''.'' @ k), nr_domain = Some (lower d)\<rparr>"
proof -
  note a = split_once_SomeD [OF assms(1)]
  have r: "r = (l @ CHR ''+'' # (''t'' @ i @ ''.'' @ k)) @ CHR ''@'' # d"
    using assms(1,6) by (simp add: reply_to_address_def)
  have at: "split_once (CHR ''@'') r = Some (l @ CHR ''+'' # (''t'' @ i @ ''.'' @ k), d)"
    unfolding r by (rule split_once_append) (use a assms(4,5) in auto)
  have plus: "split_once (CHR ''+'') (l @ CHR ''+'' # (''t'' @ i @ ''.'' @ k)) = Some (l, ''t'' @ i @ ''.'' @ k)"
    by (rule split_once_append [OF assms(2)])
  have "lower l @ CHR ''@'' # lower d = from" using assms(3) a lower_at [of l d] by simp
  with at plus show ?thesis by (simp add: normalize_recipient_def)
qed

end

text \<open>
  C13. Replies find their ticket. The address an outbound message asks replies at is looked up
  as the instance's own address and yields exactly the tag of the ticket, for a sender address
  stored in lower case without a plus sign and for ids and tokens of the nanoid alphabet.
\<close>

theorem reply_address_round_trip:
  assumes "lowercase lower" "split_once (CHR ''@'') from = Some (l, d)" "CHR ''+'' \<notin> set l" "lower from = from"
    and "i \<noteq> []" "k \<noteq> []" "CHR ''.'' \<notin> set i" "CHR ''@'' \<notin> set i" "CHR ''@'' \<notin> set k"
  shows "\<exists>r. reply_to_address from i k = Inr r
    \<and> extract_reply_tags lower [r] = [\<lparr>rt_ticket_id = i, rt_reply_token = k\<rparr>]
    \<and> hd (lookup_keys lower r) = from"
proof -
  obtain r where r: "reply_to_address from i k = Inr r" using assms(2) by (simp add: reply_to_address_def)
  note n = lowercase.normalize_reply_to [OF assms(1-4,8,9) r]
  have "recipient_tag lower r = Some \<lparr>rt_ticket_id = i, rt_reply_token = k\<rparr>"
    using parse_reply_tag_tag [OF assms(5,6,7)] by (simp add: recipient_tag_def n)
  then have "extract_reply_tags lower [r] = [\<lparr>rt_ticket_id = i, rt_reply_token = k\<rparr>]" by (rule extract_single)
  with r n show ?thesis by (simp add: lookup_keys_def Let_def)
qed

theorem reply_address_round_trip_witness:
  "extract_reply_tags to_ascii_lowercase [''help+tT1.k9@acme.test''] = [\<lparr>rt_ticket_id = ''T1'', rt_reply_token = ''k9''\<rparr>]"
proof -
  have l: "to_ascii_lowercase ''help@acme.test'' = ''help@acme.test''"
    by (simp add: to_ascii_lowercase_def ascii_lower_def is_ascii_uppercase_def)
  have r: "reply_to_address ''help@acme.test'' ''T1'' ''k9'' = Inr ''help+tT1.k9@acme.test''"
    by (simp add: reply_to_address_def)
  have "split_once (CHR ''@'') ''help@acme.test'' = Some (''help'', ''acme.test'')" by simp
  from reply_address_round_trip [OF ascii.lowercase_axioms this _ l, of "''T1''" "''k9''"] r
  show ?thesis by simp
qed

end
