(* ===== verification/Desk_Env.thy ===== *)
theory Desk_Env
  imports Desk_System Resolution Guards
begin

section \<open>The helpdesk's request environment\<close>

text \<open>
  What a helpdesk request runs in. Its state is the \<open>world\<close>: the database, the mail sent (raw
  messages, and the plain texts of the login codes), the object-storage calls made and a tick
  that counts the request's calls to the outside. Its environment \<open>desk\<close> is the handler, the mail and storage services, the clock, the id and nonce
  generators, all indexed by the tick. Before every database call the other requests may have run
  (\<open>dk_others\<close>), and an eventually consistent read sees a lagging state (\<open>dk_view\<close>). Errors of
  a resolver are \<open>desk_error\<close>; a best-effort block that logs and swallows its errors is
  \<open>best_effort\<close>.
\<close>

datatype storage_call =
    PutBytes string string string
  | MoveObject string string

record world =
  w_db :: store
  w_n :: nat
  w_sent :: "(string \<times> string list \<times> string list) list"
  w_objects :: "storage_call list"
  w_texts :: "(string \<times> string \<times> string) list"

record desk =
  dk_db :: handler
  dk_query :: index
  dk_others :: "nat \<Rightarrow> store \<Rightarrow> store"
  dk_view :: "nat \<Rightarrow> store \<Rightarrow> store"
  dk_auth :: "auth_info option"
  dk_clock :: "nat \<Rightarrow> nat"
  dk_id :: "nat \<Rightarrow> string"
  dk_token :: "nat \<Rightarrow> string"
  dk_nonce :: "nat \<Rightarrow> string"
  dk_lower :: "string \<Rightarrow> string"
  dk_mime :: "mime \<Rightarrow> string + string"
  dk_send :: "nat \<Rightarrow> string \<Rightarrow> string list \<Rightarrow> string list \<Rightarrow> string + string"
  dk_put :: "nat \<Rightarrow> storage_call \<Rightarrow> string + unit"
  dk_size :: "nat \<Rightarrow> string \<Rightarrow> string + nat"
  dk_presign :: "string \<Rightarrow> string \<Rightarrow> string + string"
  dk_env :: "string \<Rightarrow> string option"

datatype desk_error =
    Api api_error
  | Mail mail_error
  | SendFailed string
  | StorageFailed string
  | BadEmail string
  | NoRecipientAddress
  | TooManyRecipients nat
  | OwnAddress string
  | Panic string

fun desk_classify :: "desk_error \<Rightarrow> error_code" where
  "desk_classify (Api e) = classify e"
| "desk_classify _ = Internal"

type_synonym 'a run = "world \<Rightarrow> (desk_error + 'a) \<times> world"

subsection \<open>Calls to the outside\<close>

text \<open>
  Every call is a point where the other requests may have run. \<open>db_write\<close> and \<open>db_read\<close> are
  one call of the handler, with \<^verbatim>\<open>?\<close> on its error; \<open>db_read2\<close> is an operation of two reads.
\<close>

definition call :: "desk \<Rightarrow> (nat \<Rightarrow> store \<Rightarrow> 'r \<times> store) \<Rightarrow> world \<Rightarrow> 'r \<times> world" where
  "call D m w =
     (let n = w_n w; (r, s) = m n (dk_others D n (w_db w)) in (r, w\<lparr>w_db := s, w_n := Suc n\<rparr>))"

definition db_error_of :: "db_error + 'a \<Rightarrow> desk_error + 'a" where
  "db_error_of r = map_err (\<lambda>e. Api (DbError e)) r"

definition db_write :: "desk \<Rightarrow> (nat \<Rightarrow> store \<Rightarrow> (db_error + 'a) \<times> store) \<Rightarrow> 'a run" where
  "db_write D m = call D (\<lambda>n s. let (r, s') = m n s in (db_error_of r, s'))"

definition db_read :: "desk \<Rightarrow> (store \<Rightarrow> db_error + 'a) \<Rightarrow> 'a run" where
  "db_read D f = call D (\<lambda>n s. (db_error_of (f (dk_view D n s)), s))"

definition db_read2 :: "desk \<Rightarrow> (store \<Rightarrow> store \<Rightarrow> db_error + 'a) \<Rightarrow> 'a run" where
  "db_read2 D f =
     sbind (call D (\<lambda>n s. (Inr (dk_view D n s), s))) (\<lambda>first. db_read D (f first))"

definition now_sec :: "desk \<Rightarrow> nat run" where
  "now_sec D = call D (\<lambda>n s. (Inr (dk_clock D n), s))"

definition new_id :: "desk \<Rightarrow> string run" where
  "new_id D = call D (\<lambda>n s. (Inr (dk_id D n), s))"

definition generate_nonce :: "desk \<Rightarrow> string run" where
  "generate_nonce D = call D (\<lambda>n s. (Inr (dk_nonce D n), s))"

text \<open>
  \<^verbatim>\<open>mail::Handler::send_raw\<close> and the storage calls: the logs keep what was handed to the
  service, whatever it answered.
\<close>

definition send_raw :: "desk \<Rightarrow> string \<Rightarrow> string list \<Rightarrow> string list \<Rightarrow> string run" where
  "send_raw D raw to cc w =
     call D (\<lambda>n s. (map_err SendFailed (dk_send D n raw to cc), s)) (w\<lparr>w_sent := w_sent w @ [(raw, to, cc)]\<rparr>)"

definition storage_put :: "desk \<Rightarrow> storage_call \<Rightarrow> unit run" where
  "storage_put D c w =
     call D (\<lambda>n s. (map_err StorageFailed (dk_put D n c), s)) (w\<lparr>w_objects := w_objects w @ [c]\<rparr>)"

definition object_size :: "desk \<Rightarrow> string \<Rightarrow> nat run" where
  "object_size D key = call D (\<lambda>n s. (map_err StorageFailed (dk_size D n key), s))"

text \<open>A best-effort block: whatever error ends it is logged, and its answer is \<open>None\<close>.\<close>

definition best_effort :: "'a run \<Rightarrow> 'a option run" where
  "best_effort m w = (case m w of (Inl e, w') \<Rightarrow> (Inr None, w') | (Inr x, w') \<Rightarrow> (Inr (Some x), w'))"

definition sensure_api :: "bool \<Rightarrow> api_error \<Rightarrow> unit run" where
  "sensure_api b e = sensure b (Api e)"

definition found :: "desk_error \<Rightarrow> 'a option \<Rightarrow> 'a run" where
  "found e x = slift (ok_or e x)"

subsection \<open>Reads of the handler\<close>

definition hydrate_user :: "item \<Rightarrow> string + user" where
  "hydrate_user it =
     rbind (item_id_field it) (\<lambda>i.
     rbind (need_string it ''email'' ''User missing email'') (\<lambda>email.
     rbind (string_field it ''name'') (\<lambda>name.
     rbind (bool_or it ''enabled'' False) (\<lambda>enabled.
     rbind (need_i64 it ''created_at'' ''User missing created_at'') (\<lambda>created.
     rbind (i64_field it ''access_time'') (\<lambda>access.
     rbind (bool_or it ''superuser'' False) (\<lambda>super.
     Inr \<lparr>usr_id = i, usr_email = email, usr_name = unwrap_or [] name, usr_enabled = enabled,
          usr_created_at = as_u64 created, usr_access_time = map_option as_u64 access,
          usr_superuser = super\<rparr>)))))))"

definition get_tickets :: "handler \<Rightarrow> string list \<Rightarrow> store \<Rightarrow> db_error + ticket option list" where
  "get_tickets h ids s = get_records h ''ticket'' hydrate_ticket tkt_id ids s"

definition get_instances :: "handler \<Rightarrow> string list \<Rightarrow> store \<Rightarrow> db_error + org_instance option list" where
  "get_instances h ids s = get_records h ''instance'' hydrate_instance inst_id ids s"

definition get_users :: "handler \<Rightarrow> string list \<Rightarrow> store \<Rightarrow> db_error + user option list" where
  "get_users h ids s = get_records h ''user'' hydrate_user usr_id ids s"

text \<open>\<^verbatim>\<open>get_x(&[id]).await?.into_iter().next().flatten()\<close>\<close>

definition get_ticket :: "desk \<Rightarrow> string \<Rightarrow> ticket option run" where
  "get_ticket D i = db_read D (\<lambda>s. rbind (get_tickets (dk_db D) [i] s) (\<lambda>rs. Inr (first_row rs)))"

definition get_instance :: "desk \<Rightarrow> string \<Rightarrow> org_instance option run" where
  "get_instance D i = db_read D (\<lambda>s. rbind (get_instances (dk_db D) [i] s) (\<lambda>rs. Inr (first_row rs)))"

definition inbound_addresses :: "desk \<Rightarrow> string \<Rightarrow> inbound_address list run" where
  "inbound_addresses D i = db_read D (list_inbound_addresses_by_instance (dk_query D) i)"

subsection \<open>Principals\<close>

definition guard :: "desk \<Rightarrow> auth_requirement \<Rightarrow> unit run" where
  "guard D req = slift (map_err Api (guard_check req (dk_auth D)))"

definition require_user_id :: "desk \<Rightarrow> string run" where
  "require_user_id D =
     slift (case dk_auth D of Some (User i ms su tk g) \<Rightarrow> Inr i | _ \<Rightarrow> Inl (Api must_be_user))"

definition require_ticket_member :: "desk \<Rightarrow> string \<Rightarrow> ticket run" where
  "require_ticket_member D i =
     sbind (get_ticket D i) (\<lambda>found_row.
     sbind (found (Api (not_found ''Ticket'' i)) found_row) (\<lambda>ticket.
     sbind (slift (case dk_auth D of
               Some (User u ms su tk g) \<Rightarrow> Inr ms | _ \<Rightarrow> Inl (Api must_be_user))) (\<lambda>ms.
     sbind (sensure_api (is_member ms (tkt_instance_id ticket)) (not_found ''Ticket'' i)) (\<lambda>_.
     sreturn ticket))))"

end
