(* ===== verification/Staff_Notify.thy ===== *)
theory Staff_Notify
  imports Desk_Env
begin

section \<open>Staff notifications\<close>

text \<open>
  \<^verbatim>\<open>staff_notify.rs\<close>, with the system sender of \<^verbatim>\<open>mail.rs\<close>: who of an instance's members
  hears about a ticket event and why, the notice they get, and the best-effort pipeline that sends
  one message per recipient. Environment variables are the function \<open>dk_env\<close>.
\<close>

subsection \<open>The system sender\<close>

definition FROM_FALLBACK :: string where "FROM_FALLBACK = ''no-reply@toolbox.test''"

definition set_var :: "string option \<Rightarrow> string option" where
  "set_var v = (case v of Some x \<Rightarrow> if trim x \<noteq> [] then Some x else None | None \<Rightarrow> None)"

definition system_from :: "(string \<Rightarrow> string option) \<Rightarrow> string" where
  "system_from env = unwrap_or FROM_FALLBACK (set_var (env ''MAIL_FROM''))"

definition system_reply_to :: "(string \<Rightarrow> string option) \<Rightarrow> string" where
  "system_reply_to env = unwrap_or (system_from env) (set_var (env ''MAIL_REPLY_TO''))"

definition APP_BASE_URL_FALLBACK :: string where "APP_BASE_URL_FALLBACK = ''http://localhost:5173''"

definition trim_end_slashes :: "string \<Rightarrow> string" where
  "trim_end_slashes s = rev (dropWhile (\<lambda>c. c = CHR ''/'') (rev s))"

definition normalize_base_url :: "string option \<Rightarrow> string" where
  "normalize_base_url raw =
     (case raw of
        None \<Rightarrow> APP_BASE_URL_FALLBACK
      | Some s \<Rightarrow> let u = trim_end_slashes (trim s) in if u \<noteq> [] then u else APP_BASE_URL_FALLBACK)"

definition app_base_url :: "(string \<Rightarrow> string option) \<Rightarrow> string" where
  "app_base_url env = normalize_base_url (env ''APP_BASE_URL'')"

subsection \<open>Who hears about an event\<close>

datatype actor = ActorUser string | ActorEmail string

datatype reason =
    RNewTicket | RAssignedToMe | RAssignedToMeUpdated | RUnassignedUpdated | RAssignedToOthersUpdated

fun footer_text :: "reason \<Rightarrow> string" where
  "footer_text RNewTicket =
     ''a new ticket was opened and you have notifications enabled for new tickets''"
| "footer_text RAssignedToMe = ''this ticket was assigned to you''"
| "footer_text RAssignedToMeUpdated =
     ''this ticket is (or was) assigned to you and you have notifications enabled for updates to your tickets''"
| "footer_text RUnassignedUpdated =
     ''this ticket has no assignee and you have notifications enabled for updates to unassigned tickets''"
| "footer_text RAssignedToOthersUpdated =
     ''you have notifications enabled for updates to tickets assigned to others''"

record recipient =
  rc_user_id :: string
  rc_email :: string
  rc_name :: string
  rc_reason :: reason

datatype staff_event =
    NewTicket string
  | CustomerMessage string bool
  | AgentReply
  | InternalNote
  | StatusChanged ticket_status ticket_status
  | Assigned "string option" "string option"

fun is_actor :: "user \<Rightarrow> actor \<Rightarrow> bool" where
  "is_actor u (ActorUser i) = (usr_id u = i)"
| "is_actor u (ActorEmail email) = (usr_email u = email)"

definition when_set :: "bool \<Rightarrow> reason \<Rightarrow> reason option" where
  "when_set b r = (if b then Some r else None)"

definition update_reason :: "notification_settings \<Rightarrow> user \<Rightarrow> string option \<Rightarrow> reason option" where
  "update_reason settings u assignee =
     (case assignee of
        Some a \<Rightarrow>
          if a = usr_id u then when_set (ns_assigned_to_me_updated settings) RAssignedToMeUpdated
          else when_set (ns_assigned_to_others_updated settings) RAssignedToOthersUpdated
      | None \<Rightarrow> when_set (ns_unassigned_updated settings) RUnassignedUpdated)"

fun reason_for :: "membership \<Rightarrow> user \<Rightarrow> string option \<Rightarrow> staff_event \<Rightarrow> reason option" where
  "reason_for mb u assignee (NewTicket requester) =
     when_set (ns_new_ticket (mb_notification_settings mb)) RNewTicket"
| "reason_for mb u assignee (Assigned old new) =
     (if Some (usr_id u) = new then when_set (ns_assigned_to_me (mb_notification_settings mb)) RAssignedToMe
      else if Some (usr_id u) = old
      then when_set (ns_assigned_to_me_updated (mb_notification_settings mb)) RAssignedToMeUpdated
      else None)"
| "reason_for mb u assignee (CustomerMessage email reopened) =
     update_reason (mb_notification_settings mb) u assignee"
| "reason_for mb u assignee AgentReply = update_reason (mb_notification_settings mb) u assignee"
| "reason_for mb u assignee InternalNote = update_reason (mb_notification_settings mb) u assignee"
| "reason_for mb u assignee (StatusChanged old new) =
     update_reason (mb_notification_settings mb) u assignee"

definition recipient_of :: "user \<Rightarrow> reason \<Rightarrow> recipient" where
  "recipient_of u r =
     \<lparr>rc_user_id = usr_id u, rc_email = usr_email u, rc_name = usr_name u, rc_reason = r\<rparr>"

fun to_recipients :: "(membership \<times> user) list \<Rightarrow> string option \<Rightarrow> staff_event \<Rightarrow> recipient list" where
  "to_recipients [] assignee event = []"
| "to_recipients ((mb, u) # cs) assignee event =
     (case reason_for mb u assignee event of
        None \<Rightarrow> to_recipients cs assignee event
      | Some r \<Rightarrow> recipient_of u r # to_recipients cs assignee event)"

definition select_recipients ::
    "(membership \<times> user) list \<Rightarrow> ticket_status \<Rightarrow> string option \<Rightarrow> actor \<Rightarrow> staff_event \<Rightarrow> recipient list" where
  "select_recipients candidates status assignee actor event =
     (if status = TDeleted then []
      else to_recipients
             (filter (\<lambda>(mb, u). \<not> is_actor u actor) (filter (\<lambda>(mb, u). usr_enabled u) candidates))
             assignee event)"

subsection \<open>The notice\<close>

definition MAX_EXCERPT_CHARS :: nat where "MAX_EXCERPT_CHARS = 4000"

definition ellipsis :: string where
  "ellipsis = [char_of (226 :: nat), char_of (128 :: nat), char_of (166 :: nat)]"

fun take_chars :: "nat \<Rightarrow> string \<Rightarrow> string" where
  "take_chars n [] = []"
| "take_chars n (c # s) =
     (if is_continuation c then c # take_chars n s
      else case n of 0 \<Rightarrow> [] | Suc m \<Rightarrow> c # take_chars m s)"

definition truncate_excerpt :: "string \<Rightarrow> string" where
  "truncate_excerpt s =
     (if char_count s \<le> MAX_EXCERPT_CHARS then s else take_chars MAX_EXCERPT_CHARS s @ ellipsis)"

definition excerpt_line :: "string option \<Rightarrow> string option" where
  "excerpt_line body =
     map_option (\<lambda>b. if trim b = [] then ''(no message body)'' else truncate_excerpt (trim b)) body"

fun headline :: "staff_event \<Rightarrow> string \<Rightarrow> reason \<Rightarrow> string option \<Rightarrow> string" where
  "headline (NewTicket requester) actor_name r new_name = ''New ticket from '' @ requester"
| "headline (CustomerMessage email reopened) actor_name r new_name =
     (if reopened then email @ '' replied and reopened the ticket'' else email @ '' replied'')"
| "headline AgentReply actor_name r new_name = actor_name @ '' replied to the customer''"
| "headline InternalNote actor_name r new_name = actor_name @ '' added an internal note''"
| "headline (StatusChanged old new) actor_name r new_name =
     (case new of
        TClosed \<Rightarrow> actor_name @ '' closed this ticket''
      | TOpen \<Rightarrow> if old = TDeleted then actor_name @ '' restored this ticket''
                else actor_name @ '' reopened this ticket''
      | TDeleted \<Rightarrow> actor_name @ '' deleted this ticket'')"
| "headline (Assigned old new) actor_name r new_name =
     (if r = RAssignedToMe then actor_name @ '' assigned this ticket to you''
      else case new_name of
             Some name \<Rightarrow> actor_name @ '' reassigned this ticket to '' @ name
           | None \<Rightarrow> actor_name @ '' unassigned this ticket from you'')"

definition staff_html :: "string \<Rightarrow> string" where
  "staff_html body =
     ''<!DOCTYPE html>'' @ newline @ ''<html><body style='' @ quote_mark @
     ''font-family:Arial,Helvetica,sans-serif;color:#222'' @ quote_mark @ ''>'' @ newline @
     ''<div>'' @ html_lines body @ ''</div>'' @ newline @ ''</body></html>''"

definition staff_subject :: "org_instance \<Rightarrow> ticket \<Rightarrow> string" where
  "staff_subject instance ticket =
     ''['' @ inst_name instance @ '' #'' @ show_nat (tkt_number ticket) @ ''] '' @ tkt_subject ticket"

definition staff_body :: "ticket \<Rightarrow> recipient \<Rightarrow> string \<Rightarrow> string option \<Rightarrow> string \<Rightarrow> string" where
  "staff_body ticket rc headline_text excerpt base_url =
     headline_text @ newline
     @ (case excerpt of Some e \<Rightarrow> newline @ e @ newline | None \<Rightarrow> [])
     @ newline @ ''View ticket: '' @ base_url @ ''/app/tickets/'' @ tkt_id ticket @ newline @ newline
     @ ''You're receiving this because '' @ footer_text (rc_reason rc)
     @ ''. Change your notification settings: '' @ base_url @ ''/app/settings'' @ newline
     @ ''Replies to this email are not delivered to the customer.''"

definition staff_mime ::
    "(string \<Rightarrow> string option) \<Rightarrow> string \<Rightarrow> org_instance \<Rightarrow> ticket \<Rightarrow> recipient \<Rightarrow> string \<Rightarrow> string option
     \<Rightarrow> string \<Rightarrow> mime" where
  "staff_mime env nonce instance ticket rc headline_text excerpt base_url =
     (let from = system_from env;
          from_domain = (case rsplit_once (CHR ''@'') from of
                           Some (a, d) \<Rightarrow> d | None \<Rightarrow> ''toolbox.invalid'');
          body = staff_body ticket rc headline_text excerpt base_url
      in \<lparr>mm_from = (inst_name instance, from), mm_reply_to = system_reply_to env,
          mm_subject = staff_subject instance ticket, mm_message_id = nonce @ ''@'' @ from_domain,
          mm_headers = [(''Auto-Submitted'', ''auto-generated''), (''X-Toolbox-Loop'', ''1''),
            (''References'', ''<ticket-'' @ tkt_id ticket @ ''@'' @ from_domain @ ''>'')],
          mm_text = body, mm_html = staff_html body, mm_to = Some [rc_email rc], mm_cc = None\<rparr>)"

definition build_staff_mime ::
    "desk \<Rightarrow> org_instance \<Rightarrow> ticket \<Rightarrow> recipient \<Rightarrow> string \<Rightarrow> string option \<Rightarrow> string \<Rightarrow> (string \<times> string) run" where
  "build_staff_mime D instance ticket rc headline_text excerpt base_url =
     sbind (generate_nonce D) (\<lambda>nonce.
     sbind (slift (map_err (\<lambda>e. Mail (MimeFailed e))
       (dk_mime D (staff_mime (dk_env D) nonce instance ticket rc headline_text excerpt base_url)))) (\<lambda>raw.
     sreturn (raw, rc_email rc)))"

subsection \<open>Names\<close>

definition display_name :: "user \<Rightarrow> string" where
  "display_name u = (if trim (usr_name u) = [] then usr_email u else usr_name u)"

fun candidate_name :: "(membership \<times> user) list \<Rightarrow> string \<Rightarrow> string option" where
  "candidate_name [] i = None"
| "candidate_name ((mb, u) # cs) i = (if usr_id u = i then Some (display_name u) else candidate_name cs i)"

fun actor_display_name :: "(membership \<times> user) list \<Rightarrow> actor \<Rightarrow> string" where
  "actor_display_name candidates (ActorEmail email) = email"
| "actor_display_name candidates (ActorUser i) = unwrap_or i (candidate_name candidates i)"

fun new_assignee_name :: "(membership \<times> user) list \<Rightarrow> staff_event \<Rightarrow> string option" where
  "new_assignee_name candidates (Assigned old (Some i)) = candidate_name candidates i"
| "new_assignee_name candidates _ = None"

subsection \<open>Sending\<close>

fun join_users :: "membership list \<Rightarrow> user option list \<Rightarrow> (membership \<times> user) list" where
  "join_users (mb # mbs) (Some u # us) = (mb, u) # join_users mbs us"
| "join_users (mb # mbs) (None # us) = join_users mbs us"
| "join_users _ _ = []"

fun send_notices ::
    "desk \<Rightarrow> org_instance \<Rightarrow> ticket \<Rightarrow> staff_event \<Rightarrow> string \<Rightarrow> string option \<Rightarrow> string option \<Rightarrow> recipient list \<Rightarrow> unit run" where
  "send_notices D instance ticket event actor_name new_name excerpt [] = sreturn ()"
| "send_notices D instance ticket event actor_name new_name excerpt (rc # rcs) =
     sbind (best_effort
       (sbind (build_staff_mime D instance ticket rc (headline event actor_name (rc_reason rc) new_name)
                 excerpt (app_base_url (dk_env D))) (\<lambda>(raw, to).
        send_raw D raw [to] []))) (\<lambda>_.
     send_notices D instance ticket event actor_name new_name excerpt rcs)"

text \<open>Every failure before the loop ends the function; inside it, the next recipient follows.\<close>

definition notify_members ::
    "desk \<Rightarrow> ticket \<Rightarrow> string option \<Rightarrow> staff_event \<Rightarrow> actor \<Rightarrow> string option \<Rightarrow> unit run" where
  "notify_members D ticket assignee event actor body =
     sbind (get_instance D (tkt_instance_id ticket)) (\<lambda>found_instance.
     sbind (found (Api (not_found ''Instance'' (tkt_instance_id ticket))) found_instance) (\<lambda>instance.
     sbind (db_read D (list_memberships_by_instance (dk_query D) (tkt_instance_id ticket))) (\<lambda>members.
     if members = [] then sreturn () else
     sbind (db_read D (get_users (dk_db D) (map mb_user_id members))) (\<lambda>users.
     let candidates = join_users members users;
         recipients = select_recipients candidates (tkt_status ticket) assignee actor event
     in send_notices D instance ticket event (actor_display_name candidates actor)
          (new_assignee_name candidates event) (excerpt_line body) recipients))))"

definition notify_staff ::
    "desk \<Rightarrow> ticket \<Rightarrow> string option \<Rightarrow> staff_event \<Rightarrow> actor \<Rightarrow> string option \<Rightarrow> unit run" where
  "notify_staff D ticket assignee event actor body =
     (if tkt_status ticket = TDeleted then sreturn ()
      else sbind (best_effort (notify_members D ticket assignee event actor body)) (\<lambda>_. sreturn ()))"

subsection \<open>Who is told, and why\<close>

fun setting_on :: "notification_settings \<Rightarrow> reason \<Rightarrow> bool" where
  "setting_on s RNewTicket = ns_new_ticket s"
| "setting_on s RAssignedToMe = ns_assigned_to_me s"
| "setting_on s RAssignedToMeUpdated = ns_assigned_to_me_updated s"
| "setting_on s RUnassignedUpdated = ns_unassigned_updated s"
| "setting_on s RAssignedToOthersUpdated = ns_assigned_to_others_updated s"

definition concerns_update :: "string option \<Rightarrow> string \<Rightarrow> reason \<Rightarrow> bool" where
  "concerns_update assignee i r \<longleftrightarrow>
     r = RAssignedToMeUpdated \<and> assignee = Some i
     \<or> r = RAssignedToOthersUpdated \<and> assignee \<noteq> None \<and> assignee \<noteq> Some i
     \<or> r = RUnassignedUpdated \<and> assignee = None"

fun concerns :: "staff_event \<Rightarrow> string option \<Rightarrow> string \<Rightarrow> reason \<Rightarrow> bool" where
  "concerns (NewTicket requester) assignee i r \<longleftrightarrow> r = RNewTicket"
| "concerns (Assigned old new) assignee i r \<longleftrightarrow>
     r = RAssignedToMe \<and> new = Some i \<or> r = RAssignedToMeUpdated \<and> new \<noteq> Some i \<and> old = Some i"
| "concerns _ assignee i r \<longleftrightarrow> concerns_update assignee i r"

lemma update_reason_iff:
  "update_reason s u a = Some r \<longleftrightarrow> setting_on s r \<and> concerns_update a (usr_id u) r"
  by (cases r) (auto simp: update_reason_def when_set_def concerns_update_def split: option.splits)

lemma reason_for_iff:
  "reason_for mb u a ev = Some r \<longleftrightarrow> setting_on (mb_notification_settings mb) r \<and> concerns ev a (usr_id u) r"
  by (cases ev; cases r) (auto simp: update_reason_iff when_set_def split: if_splits)

lemma to_recipients_iff:
  "rc \<in> set (to_recipients cs a ev) \<longleftrightarrow>
     (\<exists>(mb, u) \<in> set cs. reason_for mb u a ev = Some (rc_reason rc) \<and> rc = recipient_of u (rc_reason rc))"
  by (induction cs a ev rule: to_recipients.induct) (auto simp: recipient_of_def split: option.splits)

lemma rc_of [simp]: "rc_reason (recipient_of u r) = r" "rc_email (recipient_of u r) = usr_email u"
  by (simp_all add: recipient_of_def)

lemma recipients_iff:
  "rc \<in> set (select_recipients candidates status assignee act ev) \<longleftrightarrow>
     status \<noteq> TDeleted \<and>
     (\<exists>(mb, u) \<in> set candidates. usr_enabled u \<and> \<not> is_actor u act
        \<and> rc = recipient_of u (rc_reason rc) \<and> setting_on (mb_notification_settings mb) (rc_reason rc) \<and> concerns ev assignee (usr_id u) (rc_reason rc))"
  unfolding select_recipients_def by (simp add: to_recipients_iff reason_for_iff) fast

text \<open>
  C19. Who hears about an event. A notice goes out exactly for the enabled users among the instance's
  members who did not cause the event, with a setting switched on for a reason that
  concerns them: for a new ticket the new-ticket setting, for an assignment only the new and
  the former assignee, for any other event the setting chosen by whose ticket it is. Nobody
  hears about a deleted ticket.
\<close>

theorem staff_recipients_exact:
  "rc \<in> set (select_recipients candidates status assignee act ev) \<longleftrightarrow>
     status \<noteq> TDeleted \<and>
     (\<exists>(mb, u) \<in> set candidates. usr_enabled u \<and> \<not> is_actor u act
        \<and> rc = recipient_of u (rc_reason rc) \<and> setting_on (mb_notification_settings mb) (rc_reason rc) \<and> concerns ev assignee (usr_id u) (rc_reason rc))"
  by (rule recipients_iff)

text \<open>
  What keeps a notice's subject out of the customer thread. Its bracket is no reply tag as long as
  the instance's name has no opening bracket and does not begin with a hash sign; but the ticket's own subject
  follows it, so the notice parses as a tag exactly when the ticket's subject does.
\<close>

theorem staff_subject_tag:
  assumes "CHR ''['' \<notin> set (inst_name instance)" "take 1 (inst_name instance) \<noteq> ''#''"
  shows "parse_subject_tag (staff_subject instance ticket) = parse_subject_tag (tkt_subject ticket)"
proof -
  let ?p = "inst_name instance @ '' #'' @ show_nat (tkt_number ticket) @ ''] ''"
  have "CHR ''['' \<notin> set (show_nat (tkt_number ticket))"
    using show_nat_digits [of "tkt_number ticket"] by (auto simp: list_all_iff is_digit_def)
  then have p: "CHR ''['' \<notin> set ?p" using assms(1) by simp
  have "after_marker (staff_subject instance ticket) = after_marker (?p @ tkt_subject ticket)"
  proof (cases "inst_name instance")
    case (Cons c cs)
    with assms(2) have "c \<noteq> CHR ''#''" by simp
    with Cons show ?thesis by (simp add: staff_subject_def)
  qed (simp add: staff_subject_def)
  also have "\<dots> = after_marker (tkt_subject ticket)" by (rule after_marker_skip [OF p])
  finally show ?thesis
    by (simp add: parse_subject_tag.simps [of "staff_subject instance ticket"] parse_subject_tag.simps [of "tkt_subject ticket"])
qed

theorem staff_subject_tag_witness:
  "parse_subject_tag (staff_subject demo_support
     (demo_ticket\<lparr>tkt_subject := ''Re: '' @ ticket_subject_tag ''acme'' 7 @ '' printer''\<rparr>)) = Some (''acme'', 7)"
proof -
  have "CHR ''['' \<notin> set (inst_name demo_support)" "take 1 (inst_name demo_support) \<noteq> ''#''"
    by (simp_all add: demo_support_def)
  note s = staff_subject_tag [OF this]
  have "parse_subject_tag (''Re: '' @ ticket_subject_tag ''acme'' 7 @ '' printer'') = Some (''acme'', 7)"
    using parse_subject_tag_skip [of "''Re: ''"] parse_subject_tag_tag [of "''acme''" 7] by (simp add: u64_max_def)
  with s show ?thesis by simp
qed

end
