(* ===== verification/Ticket_Mutations.thy ===== *)
theory Ticket_Mutations
  imports Staff_Notify
begin

section \<open>The ticket mutations\<close>

text \<open>
  The helpdesk resolvers of \<^verbatim>\<open>graphql/mutations.rs\<close> and the helpers they share, each in the
  order of the source: guard, the ticket's own instance, validation, writes, mail, staff notice.
  \<open>send_system_notification\<close> and the staff notice are best effort; \<^verbatim>\<open>replyToTicket\<close>'s send is not.
\<close>

definition MAX_VERIFIED_TICKET_RECIPIENTS :: nat where "MAX_VERIFIED_TICKET_RECIPIENTS = 20"

subsection \<open>Addresses\<close>

definition normalize_ticket_email :: "(string \<Rightarrow> string) \<Rightarrow> string \<Rightarrow> desk_error + string" where
  "normalize_ticket_email lower raw =
     (case split_once (CHR ''@'') (lower (trim raw)) of
        None \<Rightarrow> Inl (BadEmail raw)
      | Some (local, domain) \<Rightarrow>
          if local = [] \<or> domain = [] \<or> CHR ''@'' \<in> set domain then Inl (BadEmail raw)
          else Inr (lower (trim raw)))"

text \<open>One list: the new addresses in first-seen order; \<open>seen\<close> holds the ones before it.\<close>

fun new_emails :: "(string \<Rightarrow> string) \<Rightarrow> string list \<Rightarrow> string list \<Rightarrow> desk_error + string list" where
  "new_emails lower seen [] = Inr []"
| "new_emails lower seen (raw # raws) =
     rbind (normalize_ticket_email lower raw) (\<lambda>email.
     if email \<in> set seen then new_emails lower seen raws
     else rbind (new_emails lower (email # seen) raws) (\<lambda>es. Inr (email # es)))"

definition normalize_verified_recipients ::
    "(string \<Rightarrow> string) \<Rightarrow> string list \<Rightarrow> string list \<Rightarrow> desk_error + string list \<times> string list" where
  "normalize_verified_recipients lower to cc =
     rbind (new_emails lower [] to) (\<lambda>to_norm.
     if to_norm = [] then Inl NoRecipientAddress else
     rbind (new_emails lower to_norm cc) (\<lambda>cc_norm.
     if length to_norm + length cc_norm > MAX_VERIFIED_TICKET_RECIPIENTS
     then Inl (TooManyRecipients (length to_norm + length cc_norm))
     else Inr (to_norm, cc_norm)))"

subsection \<open>The writes of a handler\<close>

definition write_ticket :: "desk \<Rightarrow> string \<Rightarrow> ticket_update \<Rightarrow> unit run" where
  "write_ticket D i change = db_write D (\<lambda>n. update_ticket (dk_db D) i change)"

definition write_message :: "desk \<Rightarrow> string \<Rightarrow> message_update \<Rightarrow> unit run" where
  "write_message D i change = db_write D (\<lambda>n. update_ticket_message (dk_db D) i change)"

definition new_message ::
    "desk \<Rightarrow> string \<Rightarrow> message_kind \<Rightarrow> string option \<Rightarrow> string option \<Rightarrow> string list \<Rightarrow> string list
     \<Rightarrow> string option \<Rightarrow> string option \<Rightarrow> string option \<Rightarrow> string option \<Rightarrow> ticket_message run" where
  "new_message D ticket_id kind author from_email to cc text html in_reply_to references =
     db_write D (\<lambda>n. create_ticket_message (dk_db D) (dk_id D n) (dk_clock D n) ticket_id kind author
       from_email to cc text html in_reply_to references)"

definition next_ticket_number :: "desk \<Rightarrow> string \<Rightarrow> nat run" where
  "next_ticket_number D instance_id = db_write D (\<lambda>n. increment_ticket_counter (dk_db D) instance_id)"

definition new_ticket ::
    "desk \<Rightarrow> string \<Rightarrow> nat \<Rightarrow> string \<Rightarrow> string list \<Rightarrow> string list \<Rightarrow> ticket run" where
  "new_ticket D instance_id number subject requesters ccs =
     db_write D (\<lambda>n. create_ticket (dk_db D) (dk_id D n) (dk_clock D n) (dk_token D n) instance_id number
       subject requesters ccs)"

definition messages_of :: "desk \<Rightarrow> string \<Rightarrow> ticket_message list run" where
  "messages_of D i = db_read D (list_ticket_messages (dk_query D) i)"

subsection \<open>Shared helpers\<close>

definition last_part :: "string \<Rightarrow> string" where
  "last_part key = rev (takeWhile (\<lambda>c. c \<noteq> CHR ''/'') (rev key))"

fun move_attachments :: "desk \<Rightarrow> ticket \<Rightarrow> string \<Rightarrow> nat \<Rightarrow> string list \<Rightarrow> attachment list run" where
  "move_attachments D ticket message_id index [] = sreturn []"
| "move_attachments D ticket message_id index (key # keys) =
     sbind (sensure_api (is_pending_key_for_instance key (tkt_instance_id ticket))
       (forbidden (''attachment key '' @ quote_mark @ key @ quote_mark @ '' is not a pending upload for this ticket's instance''))) (\<lambda>_.
     let filename = last_part key;
         final_key = attachment_key (tkt_id ticket) message_id index filename
     in sbind (storage_put D (MoveObject key final_key)) (\<lambda>_.
        sbind (best_effort (object_size D final_key)) (\<lambda>size.
        sbind (move_attachments D ticket message_id (Suc index) keys) (\<lambda>rest.
        sreturn (\<lparr>at_s3_key = final_key, at_filename = filename,
          at_content_type = guess_content_type filename, at_size = unwrap_or 0 size\<rparr> # rest)))))"

definition load_instance_and_addresses :: "desk \<Rightarrow> string \<Rightarrow> (org_instance \<times> inbound_address list) run" where
  "load_instance_and_addresses D instance_id =
     sbind (get_instance D instance_id) (\<lambda>row.
     sbind (found (Api (not_found ''Instance'' instance_id)) row) (\<lambda>instance.
     sbind (inbound_addresses D (inst_id instance)) (\<lambda>addresses.
     sreturn (instance, addresses))))"

definition outbound_message ::
    "desk \<Rightarrow> org_instance \<Rightarrow> inbound_address list \<Rightarrow> ticket \<Rightarrow> string list \<Rightarrow> string list \<Rightarrow> string \<Rightarrow> threading
     \<Rightarrow> built_message run" where
  "outbound_message D instance addresses ticket to cc body th =
     sbind (generate_nonce D) (\<lambda>nonce.
     slift (map_err Mail (build_outbound (dk_mime D) (dk_lower D) nonce instance addresses ticket to cc body th)))"

definition system_notification ::
    "desk \<Rightarrow> ticket \<Rightarrow> string list \<Rightarrow> string list \<Rightarrow> string \<Rightarrow> unit run" where
  "system_notification D ticket to cc body =
     sbind (load_instance_and_addresses D (tkt_instance_id ticket)) (\<lambda>(instance, addresses).
     sbind (outbound_message D instance addresses ticket to cc body \<lparr>th_in_reply_to = None, th_references = None\<rparr>) (\<lambda>built.
     sbind (send_raw D (bm_raw built) (bm_to built) (bm_cc built)) (\<lambda>rid.
     sbind (new_message D (tkt_id ticket) System None None (bm_to built) (bm_cc built) (Some body)
              None None None) (\<lambda>msg.
     write_message D (msg_id msg) (SetRfcMessageId rid)))))"

definition send_system_notification ::
    "desk \<Rightarrow> ticket \<Rightarrow> string list \<Rightarrow> string list \<Rightarrow> string \<Rightarrow> unit run" where
  "send_system_notification D ticket to cc body =
     sbind (best_effort (system_notification D ticket to cc body)) (\<lambda>_. sreturn ())"

text \<open>\<^verbatim>\<open>&requester_emails[0]\<close> panics on an empty slice.\<close>

definition first_requester :: "string list \<Rightarrow> desk_error + string" where
  "first_requester es = (case es of [] \<Rightarrow> Inl (Panic ''index out of bounds'') | e # _ \<Rightarrow> Inr e)"

definition open_submitted_ticket ::
    "desk \<Rightarrow> org_instance \<Rightarrow> string \<Rightarrow> string \<Rightarrow> string list \<Rightarrow> string list \<Rightarrow> ticket run" where
  "open_submitted_ticket D instance subject body requesters ccs =
     sbind (next_ticket_number D (inst_id instance)) (\<lambda>number.
     sbind (new_ticket D (inst_id instance) number subject requesters ccs) (\<lambda>ticket.
     sbind (slift (first_requester requesters)) (\<lambda>from_email.
     sbind (new_message D (tkt_id ticket) Inbound None (Some from_email) [] [] (Some body) None None None) (\<lambda>_.
     sreturn ticket))))"

text \<open>A live helpdesk instance, as the submit mutations load theirs.\<close>

definition support_instance :: "desk \<Rightarrow> string \<Rightarrow> org_instance run" where
  "support_instance D i =
     sbind (get_instance D i) (\<lambda>row.
     found (Api (not_found ''Instance'' i))
       (case row of
          Some inst \<Rightarrow> if \<not> inst_deleted inst \<and> inst_kind inst = Support then Some inst else None
        | None \<Rightarrow> None))"

definition required_text :: "string \<Rightarrow> string \<Rightarrow> string run" where
  "required_text what raw =
     sbind (sensure_api (trim raw \<noteq> []) (Anyhow (what @ '' cannot be empty''))) (\<lambda>_. sreturn (trim raw))"

subsection \<open>Opening a ticket\<close>

definition m_submit_ticket :: "desk \<Rightarrow> string \<Rightarrow> string \<Rightarrow> ticket run" where
  "m_submit_ticket D subject body =
     sbind (guard D RequireRequester) (\<lambda>_.
     sbind (slift (case dk_auth D of
               Some (Requester e i) \<Rightarrow> Inr (e, i)
             | _ \<Rightarrow> Inl (Api (forbidden ''Must hold a requester submit token'')))) (\<lambda>(email, instance_id).
     sbind (required_text ''subject'' subject) (\<lambda>subject.
     sbind (required_text ''body'' body) (\<lambda>body.
     sbind (support_instance D instance_id) (\<lambda>instance.
     sbind (open_submitted_ticket D instance subject body [email] []) (\<lambda>ticket.
     sbind (send_system_notification D ticket [email] [] ACKNOWLEDGEMENT_BODY) (\<lambda>_.
     sbind (notify_staff D ticket None (NewTicket email) (ActorEmail email) (Some body)) (\<lambda>_.
     sreturn ticket))))))))"

record submitted_ticket =
  st_id :: string
  st_number :: int
  st_subject_tag :: string

definition m_submit_verified_ticket ::
    "desk \<Rightarrow> string \<Rightarrow> string \<Rightarrow> string list \<Rightarrow> string list \<Rightarrow> submitted_ticket run" where
  "m_submit_verified_ticket D subject body to cc =
     sbind (guard D RequireApiToken) (\<lambda>_.
     sbind (slift (case dk_auth D of
               Some (ApiToken t i) \<Rightarrow> Inr i
             | _ \<Rightarrow> Inl (Api (forbidden ''Must present a valid API token'')))) (\<lambda>instance_id.
     sbind (required_text ''subject'' subject) (\<lambda>subject.
     sbind (required_text ''body'' body) (\<lambda>body.
     sbind (slift (normalize_verified_recipients (dk_lower D) to cc)) (\<lambda>(to, cc).
     sbind (support_instance D instance_id) (\<lambda>instance.
     sbind (inbound_addresses D (inst_id instance)) (\<lambda>addresses.
     sbind (slift (case find (is_own_address (dk_lower D) addresses) (to @ cc) of
               Some own \<Rightarrow> Inl (OwnAddress own) | None \<Rightarrow> Inr ())) (\<lambda>_.
     sbind (open_submitted_ticket D instance subject body to cc) (\<lambda>ticket.
     sbind (send_system_notification D ticket to cc ACKNOWLEDGEMENT_BODY) (\<lambda>_.
     sbind (slift (first_requester to)) (\<lambda>requester.
     sbind (notify_staff D ticket None (NewTicket requester) (ActorEmail requester) (Some body)) (\<lambda>_.
     sreturn \<lparr>st_id = tkt_id ticket, st_number = wrap_i64 (int (tkt_number ticket)),
       st_subject_tag = ticket_subject_tag (inst_slug instance) (tkt_number ticket)\<rparr>))))))))))))"

definition m_create_attachment_upload :: "desk \<Rightarrow> string \<Rightarrow> string \<Rightarrow> string \<Rightarrow> (string \<times> string) run" where
  "m_create_attachment_upload D ticket_id filename content_type =
     sbind (guard D RequireAuthenticated) (\<lambda>_.
     sbind (require_ticket_member D ticket_id) (\<lambda>ticket.
     sbind (new_id D) (\<lambda>unique.
     let key = pending_key (tkt_instance_id ticket) unique (sanitize_filename (Some filename) 0)
     in sbind (slift (map_err StorageFailed (dk_presign D key content_type))) (\<lambda>url. sreturn (key, url)))))"

subsection \<open>Messages on a ticket\<close>

definition m_reply_to_ticket :: "desk \<Rightarrow> string \<Rightarrow> string \<Rightarrow> string list option \<Rightarrow> ticket_message run" where
  "m_reply_to_ticket D ticket_id body attachment_keys =
     sbind (guard D RequireAuthenticated) (\<lambda>_.
     sbind (require_ticket_member D ticket_id) (\<lambda>ticket.
     sbind (require_user_id D) (\<lambda>user_id.
     sbind (required_text ''body'' body) (\<lambda>body.
     sbind (messages_of D (tkt_id ticket)) (\<lambda>prior.
     let th = threading_for prior in
     sbind (get_instance D (tkt_instance_id ticket)) (\<lambda>row.
     sbind (found (Api (not_found ''Instance'' (tkt_instance_id ticket))) row) (\<lambda>instance.
     sbind (inbound_addresses D (inst_id instance)) (\<lambda>addresses.
     sbind (outbound_message D instance addresses ticket (tkt_requester_emails ticket)
              (tkt_cc_emails ticket) body th) (\<lambda>built.
     sbind (new_message D (tkt_id ticket) Reply (Some user_id) None (bm_to built) (bm_cc built) (Some body)
              None (th_in_reply_to th) (th_references th)) (\<lambda>msg.
     sbind (now_sec D) (\<lambda>now.
     sbind (write_ticket D (tkt_id ticket) (Touch now)) (\<lambda>_.
     sbind (move_attachments D ticket (msg_id msg) 0 (unwrap_or [] attachment_keys)) (\<lambda>stored.
     sbind (if stored = [] then sreturn ()
            else sbind (write_message D (msg_id msg) (SetAttachments stored)) (\<lambda>_.
                 write_ticket D (tkt_id ticket) MarkHasAttachments)) (\<lambda>_.
     sbind (send_raw D (bm_raw built) (bm_to built) (bm_cc built)) (\<lambda>rid.
     sbind (write_message D (msg_id msg) (SetRfcMessageId rid)) (\<lambda>_.
     sbind (notify_staff D ticket (tkt_assignee_user_id ticket) AgentReply (ActorUser user_id) (Some body)) (\<lambda>_.
     sreturn (msg\<lparr>msg_rfc_message_id := Some rid, msg_attachments := stored\<rparr>))))))))))))))))))"

definition m_add_internal_note :: "desk \<Rightarrow> string \<Rightarrow> string \<Rightarrow> ticket_message run" where
  "m_add_internal_note D ticket_id body =
     sbind (guard D RequireAuthenticated) (\<lambda>_.
     sbind (require_ticket_member D ticket_id) (\<lambda>ticket.
     sbind (require_user_id D) (\<lambda>user_id.
     sbind (required_text ''body'' body) (\<lambda>body.
     sbind (new_message D (tkt_id ticket) Note (Some user_id) None [] [] (Some body) None None None) (\<lambda>msg.
     sbind (now_sec D) (\<lambda>now.
     sbind (write_ticket D (tkt_id ticket) (Touch now)) (\<lambda>_.
     sbind (notify_staff D ticket (tkt_assignee_user_id ticket) InternalNote (ActorUser user_id) (Some body)) (\<lambda>_.
     sreturn msg))))))))"

subsection \<open>Status and assignment\<close>

definition touched_ticket :: "nat \<Rightarrow> ticket \<Rightarrow> ticket" where
  "touched_ticket now t = t\<lparr>tkt_updated_at := now, tkt_last_activity_at := now\<rparr>"

definition status_mail :: "desk \<Rightarrow> ticket \<Rightarrow> ticket_status \<Rightarrow> unit run" where
  "status_mail D ticket status =
     (case status_notice_body (tkt_status ticket) status of
        None \<Rightarrow> sreturn ()
      | Some notice \<Rightarrow>
          send_system_notification D ticket (tkt_requester_emails ticket) (tkt_cc_emails ticket) notice)"

definition m_set_ticket_status :: "desk \<Rightarrow> string \<Rightarrow> ticket_status \<Rightarrow> ticket run" where
  "m_set_ticket_status D ticket_id status =
     sbind (guard D RequireAuthenticated) (\<lambda>_.
     sbind (require_ticket_member D ticket_id) (\<lambda>ticket.
     sbind (require_user_id D) (\<lambda>user_id.
     if status = tkt_status ticket then sreturn ticket else
     sbind (now_sec D) (\<lambda>now.
     sbind (write_ticket D (tkt_id ticket) (SetStatusAndAssignee (tkt_instance_id ticket) status
              (tkt_assignee_user_id ticket) now)) (\<lambda>_.
     sbind (status_mail D ticket status) (\<lambda>_.
     sbind (if status = TDeleted then sreturn ()
            else notify_staff D (ticket\<lparr>tkt_status := status\<rparr>) (tkt_assignee_user_id ticket)
                   (StatusChanged (tkt_status ticket) status) (ActorUser user_id) None) (\<lambda>_.
     sreturn (touched_ticket now (ticket\<lparr>tkt_status := status\<rparr>)))))))))"

definition check_assignee :: "desk \<Rightarrow> ticket \<Rightarrow> string option \<Rightarrow> unit run" where
  "check_assignee D ticket assignee =
     (case assignee of
        None \<Rightarrow> sreturn ()
      | Some uid \<Rightarrow>
          sbind (db_read D (list_memberships_by_user (dk_query D) uid)) (\<lambda>members.
          sensure_api (list_ex (\<lambda>mb. mb_instance_id mb = tkt_instance_id ticket) members)
            (forbidden ''Assignee must be a member of this instance'')))"

definition m_assign_ticket :: "desk \<Rightarrow> string \<Rightarrow> string option \<Rightarrow> ticket run" where
  "m_assign_ticket D ticket_id assignee =
     sbind (guard D RequireAuthenticated) (\<lambda>_.
     sbind (require_ticket_member D ticket_id) (\<lambda>ticket.
     sbind (require_user_id D) (\<lambda>actor_id.
     sbind (check_assignee D ticket assignee) (\<lambda>_.
     sbind (now_sec D) (\<lambda>now.
     sbind (write_ticket D (tkt_id ticket) (SetStatusAndAssignee (tkt_instance_id ticket) (tkt_status ticket)
              assignee now)) (\<lambda>_.
     sbind (if tkt_assignee_user_id ticket = assignee then sreturn ()
            else notify_staff D ticket assignee (Assigned (tkt_assignee_user_id ticket) assignee)
                   (ActorUser actor_id) None) (\<lambda>_.
     sreturn (touched_ticket now (ticket\<lparr>tkt_assignee_user_id := assignee\<rparr>)))))))))"

subsection \<open>Requesters and CCs\<close>

definition m_add_ticket_requester :: "desk \<Rightarrow> string \<Rightarrow> string \<Rightarrow> ticket run" where
  "m_add_ticket_requester D ticket_id raw =
     sbind (guard D RequireAuthenticated) (\<lambda>_.
     sbind (require_ticket_member D ticket_id) (\<lambda>ticket.
     sbind (slift (normalize_ticket_email (dk_lower D) raw)) (\<lambda>email.
     sbind (now_sec D) (\<lambda>now.
     sbind (write_ticket D (tkt_id ticket) (AddRequester email now)) (\<lambda>_.
     sreturn (touched_ticket now (ticket\<lparr>tkt_requester_emails := push_new email (tkt_requester_emails ticket)\<rparr>)))))))"

definition m_remove_ticket_requester :: "desk \<Rightarrow> string \<Rightarrow> string \<Rightarrow> ticket run" where
  "m_remove_ticket_requester D ticket_id raw =
     sbind (guard D RequireAuthenticated) (\<lambda>_.
     sbind (require_ticket_member D ticket_id) (\<lambda>ticket.
     sbind (slift (normalize_ticket_email (dk_lower D) raw)) (\<lambda>email.
     sbind (sensure_api (\<not> (length (tkt_requester_emails ticket) \<le> 1 \<and> email \<in> set (tkt_requester_emails ticket)))
              (conflict ''A ticket must keep at least one requester'')) (\<lambda>_.
     sbind (now_sec D) (\<lambda>now.
     sbind (write_ticket D (tkt_id ticket) (RemoveRequester email now)) (\<lambda>_.
     sreturn (touched_ticket now (ticket\<lparr>tkt_requester_emails := filter (\<lambda>e. e \<noteq> email) (tkt_requester_emails ticket)\<rparr>))))))))"

definition m_add_ticket_cc :: "desk \<Rightarrow> string \<Rightarrow> string \<Rightarrow> ticket run" where
  "m_add_ticket_cc D ticket_id raw =
     sbind (guard D RequireAuthenticated) (\<lambda>_.
     sbind (require_ticket_member D ticket_id) (\<lambda>ticket.
     sbind (slift (normalize_ticket_email (dk_lower D) raw)) (\<lambda>email.
     sbind (now_sec D) (\<lambda>now.
     sbind (write_ticket D (tkt_id ticket) (AddCc email now)) (\<lambda>_.
     sreturn (touched_ticket now (ticket\<lparr>tkt_cc_emails := push_new email (tkt_cc_emails ticket)\<rparr>)))))))"

definition m_remove_ticket_cc :: "desk \<Rightarrow> string \<Rightarrow> string \<Rightarrow> ticket run" where
  "m_remove_ticket_cc D ticket_id raw =
     sbind (guard D RequireAuthenticated) (\<lambda>_.
     sbind (require_ticket_member D ticket_id) (\<lambda>ticket.
     sbind (slift (normalize_ticket_email (dk_lower D) raw)) (\<lambda>email.
     sbind (now_sec D) (\<lambda>now.
     sbind (write_ticket D (tkt_id ticket) (RemoveCc email now)) (\<lambda>_.
     sreturn (touched_ticket now (ticket\<lparr>tkt_cc_emails := filter (\<lambda>e. e \<noteq> email) (tkt_cc_emails ticket)\<rparr>)))))))"

subsection \<open>A member's own settings\<close>

record membership_info =
  mi_user_id :: string
  mi_instance :: org_instance
  mi_role :: membership_role
  mi_settings :: notification_settings

definition m_update_notification_settings ::
    "desk \<Rightarrow> string \<Rightarrow> notification_patch \<Rightarrow> membership_info run" where
  "m_update_notification_settings D instance_id patch =
     sbind (guard D (RequireMember instance_id)) (\<lambda>_.
     sbind (require_user_id D) (\<lambda>user_id.
     sbind (db_read D (list_memberships_by_user (dk_query D) user_id)) (\<lambda>members.
     sbind (found (Api (not_found ''Membership'' instance_id))
              (find (\<lambda>mb. mb_instance_id mb = instance_id) members)) (\<lambda>mb.
     sbind (if patch_is_empty patch then sreturn ()
            else db_write D (\<lambda>n. update_membership_notification_settings (dk_db D) (mb_id mb) patch)) (\<lambda>_.
     sbind (get_instance D instance_id) (\<lambda>row.
     sbind (found (Api (not_found ''Instance'' instance_id)) row) (\<lambda>instance.
     sreturn \<lparr>mi_user_id = user_id, mi_instance = instance, mi_role = mb_role mb,
       mi_settings = merged_onto patch (mb_notification_settings mb)\<rparr>)))))))"

subsection \<open>Recipients of a verified submission\<close>

lemma new_emails_spec:
  "new_emails lower seen raws = Inr es \<Longrightarrow>
     distinct es \<and> set es \<inter> set seen = {}
     \<and> set es = {e. \<exists>raw \<in> set raws. normalize_ticket_email lower raw = Inr e} - set seen
     \<and> (\<forall>raw \<in> set raws. \<exists>e. normalize_ticket_email lower raw = Inr e)"
proof (induction raws arbitrary: seen es)
  case (Cons raw raws)
  from Cons.prems obtain e where e: "normalize_ticket_email lower raw = Inr e" by auto
  show ?case
  proof (cases "e \<in> set seen")
    case True
    with Cons.prems e have "new_emails lower seen raws = Inr es" by simp
    from Cons.IH [OF this] e True show ?thesis by auto
  next
    case False
    with Cons.prems e obtain fs where fs: "new_emails lower (e # seen) raws = Inr fs" "es = e # fs" by auto
    from Cons.IH [OF fs(1)] fs(2) e False show ?thesis by auto
  qed
qed simp

lemma normalize_ticket_email_shape:
  "normalize_ticket_email lower raw = Inr e \<Longrightarrow>
     \<exists>local domain. e = local @ ''@'' @ domain \<and> local \<noteq> [] \<and> domain \<noteq> []
       \<and> CHR ''@'' \<notin> set local \<and> CHR ''@'' \<notin> set domain"
  by (auto simp: normalize_ticket_email_def split: option.splits prod.splits if_splits dest!: split_once_SomeD)

text \<open>
  Who a verified submission is opened for. When the two lists of \<^verbatim>\<open>submitVerifiedTicket\<close> are
  accepted, the requesters and CCs are exactly the normalised forms of what was asked for, no
  address occurs twice, neither within a list nor in both, a requester stays a requester, there is
  at least one requester (so the handler never indexes an empty list) and at most twenty
  addresses, and each is a non-empty local part, one at sign and a non-empty domain.
\<close>

theorem recipients_normalized:
  assumes "normalize_verified_recipients lower to cc = Inr (rs, cs)"
  shows "set rs = {e. \<exists>raw \<in> set to. normalize_ticket_email lower raw = Inr e}
    \<and> set cs = {e. \<exists>raw \<in> set cc. normalize_ticket_email lower raw = Inr e} - set rs
    \<and> distinct (rs @ cs) \<and> rs \<noteq> [] \<and> length (rs @ cs) \<le> 20
    \<and> (\<forall>e \<in> set (rs @ cs). \<exists>local domain. e = local @ ''@'' @ domain \<and> local \<noteq> [] \<and> domain \<noteq> []
         \<and> CHR ''@'' \<notin> set local \<and> CHR ''@'' \<notin> set domain)"
proof -
  from assms have r: "new_emails lower [] to = Inr rs" "rs \<noteq> []" "new_emails lower rs cc = Inr cs" "length (rs @ cs) \<le> 20"
    by (auto simp: normalize_verified_recipients_def MAX_VERIFIED_TICKET_RECIPIENTS_def split: if_splits)
  note a = new_emails_spec [OF r(1)] new_emails_spec [OF r(3)]
  have "\<exists>raw. normalize_ticket_email lower raw = Inr e" if "e \<in> set (rs @ cs)" for e using that a by auto
  then have "\<forall>e \<in> set (rs @ cs). \<exists>local domain. e = local @ ''@'' @ domain \<and> local \<noteq> [] \<and> domain \<noteq> []
      \<and> CHR ''@'' \<notin> set local \<and> CHR ''@'' \<notin> set domain" using normalize_ticket_email_shape by blast
  with a r(2,4) show ?thesis by auto
qed

theorem recipients_normalized_witness:
  "normalize_verified_recipients (\<lambda>s. s) [''a@x'', '' a@x''] [''a@x'', ''b@y''] = Inr ([''a@x''], [''b@y''])
    \<and> distinct ([''a@x''] @ [''b@y''])"
proof -
  have n: "normalize_verified_recipients (\<lambda>s. s) [''a@x'', '' a@x''] [''a@x'', ''b@y''] = Inr ([''a@x''], [''b@y''])"
    by code_simp
  from recipients_normalized [OF n] n show ?thesis by blast
qed

end
