(* ===== verification/Inbound_Pipeline.thy ===== *)
theory Inbound_Pipeline
  imports Ticket_Mutations
begin

section \<open>The inbound pipeline\<close>

text \<open>
  \<^verbatim>\<open>inbound/pipeline.rs\<close>: one raw message from claim to notification. The MIME parser is the
  parameter \<open>parse\<close>; \<open>parsed_mail\<close> has what the pipeline asks of a parsed message through the
  parser's accessors.
\<close>

subsection \<open>A parsed message\<close>

record header_value =
  hv_text :: "string option"
  hv_text_list :: "string list option"

record mail_part =
  pt_contents :: string
  pt_name :: "string option"
  pt_content_type :: "(string \<times> string option) option"

record parsed_mail =
  pm_from :: "string option option"
  pm_to :: "string option list option"
  pm_cc :: "string option list option"
  pm_subject :: "string option"
  pm_message_id :: "string option"
  pm_in_reply_to :: header_value
  pm_references :: header_value
  pm_auto_submitted :: "string option"
  pm_precedence :: "string option"
  pm_loop_header :: bool
  pm_body_text :: "string option"
  pm_body_html :: "string option"
  pm_attachments :: "mail_part list"

definition first_address :: "string option option \<Rightarrow> string option" where
  "first_address a = (case a of Some x \<Rightarrow> x | None \<Rightarrow> None)"

fun all_addresses :: "string option list option \<Rightarrow> string list" where
  "all_addresses None = []"
| "all_addresses (Some as) = concat (map (\<lambda>a. case a of Some x \<Rightarrow> [x] | None \<Rightarrow> []) as)"

fun join_spaced :: "string list \<Rightarrow> string" where
  "join_spaced [] = []"
| "join_spaced [x] = x"
| "join_spaced (x # y # xs) = x @ '' '' @ join_spaced (y # xs)"

definition bracketed :: "string \<Rightarrow> string" where "bracketed i = ''<'' @ i @ ''>''"

definition header_value_string :: "header_value \<Rightarrow> string option" where
  "header_value_string hv =
     (case hv_text hv of
        Some t \<Rightarrow> Some (bracketed t)
      | None \<Rightarrow>
         (case hv_text_list hv of
            Some l \<Rightarrow> if l \<noteq> [] then Some (join_spaced (map bracketed l)) else None
          | None \<Rightarrow> None))"

fun strip_from ::
    "(string \<Rightarrow> string) \<Rightarrow> inbound_address list \<Rightarrow> string \<Rightarrow> string list \<Rightarrow> string list \<Rightarrow> string list" where
  "strip_from lower addresses from_normalized [] out = out"
| "strip_from lower addresses from_normalized (raw # raws) out =
     (let normalized = nr_address (normalize_recipient lower raw)
      in if normalized = from_normalized \<or> is_own_address lower addresses raw \<or> normalized \<in> set out
         then strip_from lower addresses from_normalized raws out
         else strip_from lower addresses from_normalized raws (out @ [normalized]))"

definition strip_own_addresses ::
    "(string \<Rightarrow> string) \<Rightarrow> inbound_address list \<Rightarrow> string list \<Rightarrow> string list \<Rightarrow> string \<Rightarrow> string list" where
  "strip_own_addresses lower addresses to cc from_normalized =
     strip_from lower addresses from_normalized (to @ cc) []"

subsection \<open>Which instance, which ticket\<close>

fun first_known :: "desk \<Rightarrow> string list \<Rightarrow> string option run" where
  "first_known D [] = sreturn None"
| "first_known D (key # keys) =
     sbind (db_read D (get_inbound_address (dk_db D) key)) (\<lambda>row.
       case row of Some a \<Rightarrow> sreturn (Some (ia_instance_id a)) | None \<Rightarrow> first_known D keys)"

fun resolve_instance_id :: "desk \<Rightarrow> string list \<Rightarrow> string option run" where
  "resolve_instance_id D [] = sreturn None"
| "resolve_instance_id D (recipient # recipients) =
     sbind (first_known D (lookup_keys (dk_lower D) recipient)) (\<lambda>hit.
       case hit of Some i \<Rightarrow> sreturn (Some i) | None \<Rightarrow> resolve_instance_id D recipients)"

datatype ticket_lookup = FoundTicket ticket | NoTicket | CrossTenant

definition in_instance :: "string \<Rightarrow> ticket \<Rightarrow> ticket_lookup" where
  "in_instance instance_id t =
     (if tkt_instance_id t \<noteq> instance_id then CrossTenant else FoundTicket t)"

text \<open>The stages in order; \<open>NoTicket\<close> falls through to the next candidate.\<close>

fun try_tags :: "desk \<Rightarrow> string \<Rightarrow> reply_tag list \<Rightarrow> ticket_lookup run" where
  "try_tags D instance_id [] = sreturn NoTicket"
| "try_tags D instance_id (tag # tags) =
     sbind (get_ticket D (rt_ticket_id tag)) (\<lambda>row.
       case row of
         None \<Rightarrow> try_tags D instance_id tags
       | Some t \<Rightarrow>
           if \<not> constant_time_eq (tkt_reply_token t) (rt_reply_token tag) then try_tags D instance_id tags
           else sreturn (in_instance instance_id t))"

fun try_message_ids :: "desk \<Rightarrow> string \<Rightarrow> string list \<Rightarrow> ticket_lookup run" where
  "try_message_ids D instance_id [] = sreturn NoTicket"
| "try_message_ids D instance_id (mid # mids) =
     sbind (db_read2 D (get_ticket_id_by_rfc_message_id (dk_db D) (dk_query D) mid)) (\<lambda>hit.
       case hit of
         None \<Rightarrow> try_message_ids D instance_id mids
       | Some ticket_id \<Rightarrow>
           sbind (get_ticket D ticket_id) (\<lambda>row.
             case row of
               None \<Rightarrow> try_message_ids D instance_id mids
             | Some t \<Rightarrow> sreturn (in_instance instance_id t)))"

definition try_number :: "desk \<Rightarrow> string \<Rightarrow> nat option \<Rightarrow> ticket_lookup run" where
  "try_number D instance_id number =
     (case number of
        None \<Rightarrow> sreturn NoTicket
      | Some n \<Rightarrow>
          sbind (db_read D (get_ticket_id_by_instance_number (dk_query D) instance_id n)) (\<lambda>hit.
            case hit of
              None \<Rightarrow> sreturn NoTicket
            | Some ticket_id \<Rightarrow>
                sbind (get_ticket D ticket_id) (\<lambda>row.
                  case row of None \<Rightarrow> sreturn NoTicket | Some t \<Rightarrow> sreturn (FoundTicket t))))"

definition resolve_ticket :: "desk \<Rightarrow> resolution_plan \<Rightarrow> string \<Rightarrow> ticket_lookup run" where
  "resolve_ticket D plan instance_id =
     sbind (try_tags D instance_id (rp_reply_tags plan)) (\<lambda>by_tag.
     if by_tag \<noteq> NoTicket then sreturn by_tag else
     sbind (try_message_ids D instance_id (rp_message_ids plan)) (\<lambda>by_id.
     if by_id \<noteq> NoTicket then sreturn by_id else
     try_number D instance_id (rp_subject_number plan)))"

subsection \<open>Attachments\<close>

definition part_content_type :: "mail_part \<Rightarrow> string" where
  "part_content_type part =
     (case pt_content_type part of
        Some (ctype, Some sub) \<Rightarrow> ctype @ ''/'' @ sub
      | Some (ctype, None) \<Rightarrow> ctype
      | None \<Rightarrow> ''application/octet-stream'')"

fun store_attachments :: "desk \<Rightarrow> string \<Rightarrow> string \<Rightarrow> nat \<Rightarrow> mail_part list \<Rightarrow> attachment list run" where
  "store_attachments D ticket_id message_id index [] = sreturn []"
| "store_attachments D ticket_id message_id index (part # parts) =
     (if length (pt_contents part) > MAX_ATTACHMENT_BYTES
      then store_attachments D ticket_id message_id (Suc index) parts
      else
        let filename = sanitize_filename (pt_name part) index;
            content_type = part_content_type part;
            key = attachment_key ticket_id message_id index filename
        in sbind (storage_put D (PutBytes key (pt_contents part) content_type)) (\<lambda>_.
           sbind (store_attachments D ticket_id message_id (Suc index) parts) (\<lambda>rest.
           sreturn (\<lparr>at_s3_key = key, at_filename = filename, at_content_type = content_type,
             at_size = length (pt_contents part)\<rparr> # rest))))"

subsection \<open>Relaying to the other participants\<close>

definition relay ::
    "desk \<Rightarrow> ticket \<Rightarrow> string list \<Rightarrow> string \<Rightarrow> string run" where
  "relay D ticket recipients body =
     sbind (load_instance_and_addresses D (tkt_instance_id ticket)) (\<lambda>(instance, addresses).
     sbind (messages_of D (tkt_id ticket)) (\<lambda>prior.
     let th = threading_for prior in
     sbind (outbound_message D instance addresses ticket recipients [] body th) (\<lambda>built.
     sbind (send_raw D (bm_raw built) (bm_to built) (bm_cc built)) (\<lambda>rid.
     sbind (new_message D (tkt_id ticket) System None None (bm_to built) (bm_cc built) (Some body) None
              (th_in_reply_to th) (th_references th)) (\<lambda>msg.
     sbind (best_effort (write_message D (msg_id msg) (SetRfcMessageId rid))) (\<lambda>_.
     sreturn rid))))))"

definition notify_others :: "desk \<Rightarrow> ticket \<Rightarrow> string list \<Rightarrow> string \<Rightarrow> string option run" where
  "notify_others D ticket recipients body = best_effort (relay D ticket recipients body)"

subsection \<open>The stages of the pipeline\<close>

definition PROCESSED_MESSAGE_RETENTION_SECS :: nat where
  "PROCESSED_MESSAGE_RETENTION_SECS = 60 * 60 * 24 * 14"

definition NO_SUBJECT_PLACEHOLDER :: string where "NO_SUBJECT_PLACEHOLDER = ''(no subject)''"

record outcome_record =
  oc_dropped_reason :: "string option"
  oc_ticket_id :: "string option"
  oc_message_id :: "string option"
  oc_created_new_ticket :: bool
  oc_reopened :: bool
  oc_added_sender_as_cc :: bool
  oc_attachment_count :: nat

definition dropped :: "string \<Rightarrow> outcome_record" where
  "dropped why =
     \<lparr>oc_dropped_reason = Some why, oc_ticket_id = None, oc_message_id = None,
      oc_created_new_ticket = False, oc_reopened = False, oc_added_sender_as_cc = False,
      oc_attachment_count = 0\<rparr>"

definition mail_recipients :: "parsed_mail \<Rightarrow> string list" where
  "mail_recipients msg = all_addresses (pm_to msg) @ all_addresses (pm_cc msg)"

definition mail_subject :: "parsed_mail \<Rightarrow> string" where
  "mail_subject msg = unwrap_or [] (pm_subject msg)"

definition mail_loop_headers :: "parsed_mail \<Rightarrow> loop_headers" where
  "mail_loop_headers msg =
     \<lparr>lh_auto_submitted = map_option trim (pm_auto_submitted msg),
      lh_precedence = map_option trim (pm_precedence msg),
      lh_loop_header_present = pm_loop_header msg\<rparr>"

definition live_support :: "org_instance option \<Rightarrow> bool" where
  "live_support row =
     (case row of Some i \<Rightarrow> \<not> (inst_deleted i \<or> inst_kind i \<noteq> Support) | None \<Rightarrow> False)"

text \<open>Steps 3 and 4: the reason to drop the message, or the instance and the sender.\<close>

definition route_mail :: "desk \<Rightarrow> parsed_mail \<Rightarrow> (string + string \<times> string) run" where
  "route_mail D msg =
     (case check_structural (dk_lower D) (mail_loop_headers msg) of
        Some reason \<Rightarrow> sreturn (Inl (drop_reason_str reason))
      | None \<Rightarrow>
          sbind (resolve_instance_id D (mail_recipients msg)) (\<lambda>hit.
          case hit of
            None \<Rightarrow> sreturn (Inl ''no recipient matched a known inbound address'')
          | Some instance_id \<Rightarrow>
              sbind (get_instance D instance_id) (\<lambda>row.
              if \<not> live_support row
              then sreturn (Inl ''resolved instance is deleted or not a support instance'')
              else
                case first_address (pm_from msg) of
                  None \<Rightarrow> sreturn (Inl ''no From address'')
                | Some from_raw \<Rightarrow>
                    sbind (resolve_instance_id D [from_raw]) (\<lambda>own.
                    if own \<noteq> None
                    then sreturn (Inl (drop_reason_str (FromOwnAddress from_raw)))
                    else sreturn (Inr (instance_id, nr_address (normalize_recipient (dk_lower D) from_raw)))))))"

text \<open>Steps 6 and 7: append to the ticket found, or open one; the flags are created, CC added, reopened.\<close>

definition append_to :: "desk \<Rightarrow> nat \<Rightarrow> string \<Rightarrow> string \<Rightarrow> ticket \<Rightarrow> (ticket \<times> bool \<times> bool \<times> bool) run" where
  "append_to D now instance_id sender ticket =
     (let added_as_cc = sender \<notin> set (tkt_requester_emails ticket) \<and> sender \<notin> set (tkt_cc_emails ticket);
          was_closed = (tkt_status ticket = TClosed)
      in sbind (if added_as_cc then write_ticket D (tkt_id ticket) (AddCc sender now) else sreturn ()) (\<lambda>_.
         sbind (if was_closed
                then write_ticket D (tkt_id ticket)
                       (SetStatusAndAssignee instance_id TOpen (tkt_assignee_user_id ticket) now)
                else write_ticket D (tkt_id ticket) (Touch now)) (\<lambda>_.
         sreturn (ticket, False, added_as_cc, was_closed))))"

definition open_from_mail ::
    "desk \<Rightarrow> string \<Rightarrow> inbound_address list \<Rightarrow> parsed_mail \<Rightarrow> string \<Rightarrow> (ticket \<times> bool \<times> bool \<times> bool) run" where
  "open_from_mail D instance_id addresses msg sender =
     (let subject = (if trim (mail_subject msg) = [] then NO_SUBJECT_PLACEHOLDER else mail_subject msg);
          ccs = strip_own_addresses (dk_lower D) addresses (all_addresses (pm_to msg)) (all_addresses (pm_cc msg)) sender
      in sbind (next_ticket_number D instance_id) (\<lambda>number.
         sbind (new_ticket D instance_id number subject [sender] ccs) (\<lambda>ticket.
         sreturn (ticket, True, False, False))))"

definition refetch :: "desk \<Rightarrow> bool \<Rightarrow> ticket \<Rightarrow> ticket run" where
  "refetch D created ticket =
     (if created then sreturn ticket
      else sbind (get_ticket D (tkt_id ticket)) (\<lambda>row. sreturn (unwrap_or ticket row)))"

text \<open>The message row, its stamps and its attachments.\<close>

definition store_mail ::
    "desk \<Rightarrow> parsed_mail \<Rightarrow> string option \<Rightarrow> string \<Rightarrow> ticket \<Rightarrow> (ticket_message \<times> attachment list) run" where
  "store_mail D msg raw_s3_key sender ticket =
     sbind (new_message D (tkt_id ticket) Inbound None (Some sender) (all_addresses (pm_to msg))
              (all_addresses (pm_cc msg)) (pm_body_text msg) (pm_body_html msg)
              (header_value_string (pm_in_reply_to msg)) (header_value_string (pm_references msg))) (\<lambda>message.
     sbind (case pm_message_id msg of
              Some mid \<Rightarrow> write_message D (msg_id message) (SetRfcMessageId (bracketed mid))
            | None \<Rightarrow> sreturn ()) (\<lambda>_.
     sbind (case raw_s3_key of
              Some key \<Rightarrow> write_message D (msg_id message) (SetRawS3Key key)
            | None \<Rightarrow> sreturn ()) (\<lambda>_.
     sbind (store_attachments D (tkt_id ticket) (msg_id message) 0 (pm_attachments msg)) (\<lambda>stored.
     sbind (if stored = [] then sreturn ()
            else sbind (write_message D (msg_id message) (SetAttachments stored)) (\<lambda>_.
                 write_ticket D (tkt_id ticket) MarkHasAttachments)) (\<lambda>_.
     sreturn (message, stored))))))"

text \<open>Steps 9 and 10: the other participants, then the staff.\<close>

definition relay_body :: "string option \<Rightarrow> string" where
  "relay_body text =
     (case text of Some b \<Rightarrow> if trim b \<noteq> [] then b else ''(no message body)'' | None \<Rightarrow> ''(no message body)'')"

definition announce :: "desk \<Rightarrow> parsed_mail \<Rightarrow> string \<Rightarrow> ticket \<Rightarrow> bool \<Rightarrow> bool \<Rightarrow> unit run" where
  "announce D msg sender ticket created reopened =
     (let others = filter (\<lambda>e. e \<noteq> sender) (tkt_requester_emails ticket @ tkt_cc_emails ticket)
      in sbind (if others = [] then sreturn None
                else notify_others D ticket others (relay_body (pm_body_text msg))) (\<lambda>_.
         notify_staff D ticket (tkt_assignee_user_id ticket)
           (if created then NewTicket sender else CustomerMessage sender reopened) (ActorEmail sender)
           (Some (unwrap_or [] (pm_body_text msg)))))"

definition file_mail ::
    "desk \<Rightarrow> nat \<Rightarrow> parsed_mail \<Rightarrow> string option \<Rightarrow> string \<Rightarrow> string \<Rightarrow> ticket option \<Rightarrow> outcome_record run" where
  "file_mail D now msg raw_s3_key instance_id sender resolved =
     sbind (inbound_addresses D instance_id) (\<lambda>addresses.
     sbind (case resolved of
              Some t \<Rightarrow> append_to D now instance_id sender t
            | None \<Rightarrow> open_from_mail D instance_id addresses msg sender) (\<lambda>(ticket0, created, added_as_cc, reopened).
     sbind (refetch D created ticket0) (\<lambda>ticket.
     sbind (store_mail D msg raw_s3_key sender ticket) (\<lambda>(message, stored).
     sbind (announce D msg sender ticket created reopened) (\<lambda>_.
     sreturn \<lparr>oc_dropped_reason = None, oc_ticket_id = Some (tkt_id ticket),
       oc_message_id = Some (msg_id message), oc_created_new_ticket = created, oc_reopened = reopened,
       oc_added_sender_as_cc = added_as_cc, oc_attachment_count = length stored\<rparr>)))))"

definition handle_mail :: "desk \<Rightarrow> nat \<Rightarrow> parsed_mail \<Rightarrow> string option \<Rightarrow> outcome_record run" where
  "handle_mail D now msg raw_s3_key =
     sbind (route_mail D msg) (\<lambda>routed.
     case routed of
       Inl why \<Rightarrow> sreturn (dropped why)
     | Inr (instance_id, sender) \<Rightarrow>
         let plan = build_resolution_plan (dk_lower D) (mail_recipients msg)
                      (header_value_string (pm_in_reply_to msg)) (header_value_string (pm_references msg))
                      (mail_subject msg)
         in sbind (resolve_ticket D plan instance_id) (\<lambda>lookup.
            case lookup of
              CrossTenant \<Rightarrow>
                sreturn (dropped ''resolved ticket belongs to a different instance (cross-tenant reject)'')
            | FoundTicket t \<Rightarrow> file_mail D now msg raw_s3_key instance_id sender (Some t)
            | NoTicket \<Rightarrow> file_mail D now msg raw_s3_key instance_id sender None))"

definition process_raw_message ::
    "desk \<Rightarrow> (string \<Rightarrow> parsed_mail option) \<Rightarrow> string \<Rightarrow> string \<Rightarrow> string option \<Rightarrow> outcome_record run" where
  "process_raw_message D parse ses_message_id raw raw_s3_key =
     sbind (now_sec D) (\<lambda>now.
     sbind (db_write D (\<lambda>n. claim_processed_message (dk_db D) ses_message_id now
              (now + PROCESSED_MESSAGE_RETENTION_SECS))) (\<lambda>claimed.
     if \<not> claimed then sreturn (dropped ''duplicate SES message id'')
     else case parse raw of
            None \<Rightarrow> sreturn (dropped ''failed to parse as RFC 5322'')
          | Some msg \<Rightarrow> handle_mail D now msg raw_s3_key))"

end
