(* ===== verification/Desk_Runs.thy ===== *)
theory Desk_Runs
  imports Inbound_Pipeline
begin

section \<open>Helpdesk requests run as steps of the desk\<close>

text \<open>
  A run of a helpdesk handler, with other requests running between any two of its calls, with
  lagging reads and whatever its services answer, is a sequence of steps of \<open>Desk_System\<close>. The
  rules below go through a handler statement by statement: \<open>desk_run K m G\<close> says that \<open>m\<close>,
  started where the tickets in \<open>K\<close> are known to belong to their instances, takes the desk through
  steps and ends knowing \<open>G x\<close> besides. Such knowledge cannot go stale, because a ticket
  never changes its instance.
\<close>

named_theorems run_intros \<open>rules of the run judgement, one per program construct\<close>

subsection \<open>The environment's laws\<close>

definition knows :: "store \<Rightarrow> string \<Rightarrow> string \<Rightarrow> bool" where
  "knows s k i \<longleftrightarrow> (\<exists>it. tickets s k = Some it \<and> it ''instance_id'' = Some (AS i))"

text \<open>
  The other requests take steps of the desk. At tick \<open>n\<close> they hold the numbers \<open>held n\<close>; they
  use up none that is not theirs. A view shows every ticket it has as a ticket of the current state.
\<close>

definition others_step ::
    "(string list \<Rightarrow> string list) \<Rightarrow> (string \<times> nat) set \<Rightarrow> desk_sys \<Rightarrow> (string \<times> nat) set \<Rightarrow> store \<Rightarrow> bool" where
  "others_step ss H c H' s' \<longleftrightarrow>
     (\<exists>c'. desk_steps ss c c' \<and> ds_db c' = s' \<and> ds_free c - H \<subseteq> ds_free c' - H' \<and> H' \<subseteq> ds_free c')"

locale desk_client = dynamo_handler d h + ix: index_service q for d h q +
  fixes D :: desk and held :: "nat \<Rightarrow> (string \<times> nat) set"
  assumes handler: "dk_db D = h"
    and query: "dk_query D = q"
    and others: "desk_ok c \<Longrightarrow> held n \<subseteq> ds_free c \<Longrightarrow>
      others_step (dy_ss d) (held n) c (held (Suc n)) (dk_others D n (ds_db c))"
    and view: "desk_ok c \<Longrightarrow> tickets_kept (dk_view D n (ds_db c)) (ds_db c)"

text \<open>A request alone on the desk, reading the current state.\<close>

definition quiet_desk :: desk where
  "quiet_desk =
     \<lparr>dk_db = ref_handler, dk_query = ref_index, dk_others = (\<lambda>n s. s), dk_view = (\<lambda>n s. s),
      dk_auth = None, dk_clock = (\<lambda>n. 100 + n), dk_id = (\<lambda>n. ''id'' @ show_nat n),
      dk_token = (\<lambda>n. ''token'' @ show_nat n), dk_nonce = (\<lambda>n. ''nonce'' @ show_nat n),
      dk_lower = to_ascii_lowercase, dk_mime = (\<lambda>m. Inr (mm_text m)),
      dk_send = (\<lambda>n raw to cc. Inr (''<sent'' @ show_nat n @ ''>'')), dk_put = (\<lambda>n c. Inr ()),
      dk_size = (\<lambda>n k. Inr 1), dk_presign = (\<lambda>k ct. Inr k), dk_env = (\<lambda>v. None)\<rparr>"

interpretation quiet: desk_client ref_dynamo ref_handler ref_index quiet_desk "\<lambda>n. {}"
  by unfold_locales (auto simp: quiet_desk_def others_step_def intro: desk_none)

subsection \<open>The judgement\<close>

definition fits :: "(nat \<Rightarrow> (string \<times> nat) set) \<Rightarrow> desk_sys \<Rightarrow> world \<Rightarrow> bool" where
  "fits held c w \<longleftrightarrow> desk_ok c \<and> ds_db c = w_db w \<and> held (w_n w) \<subseteq> ds_free c"

definition all_known :: "(string \<times> string) set \<Rightarrow> desk_sys \<Rightarrow> bool" where
  "all_known K c \<longleftrightarrow> (\<forall>(k, i) \<in> K. knows (ds_db c) k i)"

definition desk_run ::
    "(string list \<Rightarrow> string list) \<Rightarrow> (nat \<Rightarrow> (string \<times> nat) set) \<Rightarrow> (string \<times> string) set \<Rightarrow> 'a run
     \<Rightarrow> ('a \<Rightarrow> (string \<times> string) set) \<Rightarrow> bool" where
  "desk_run ss held K m G \<longleftrightarrow>
     (\<forall>c w r w'. fits held c w \<longrightarrow> all_known K c \<longrightarrow> m w = (r, w') \<longrightarrow>
        (\<exists>c'. desk_steps ss c c' \<and> fits held c' w' \<and> (\<forall>x. r = Inr x \<longrightarrow> all_known (G x) c')))"

lemma desk_runI:
  assumes "\<And>c w r w'. fits held c w \<Longrightarrow> all_known K c \<Longrightarrow> m w = (r, w') \<Longrightarrow>
      \<exists>c'. desk_steps ss c c' \<and> fits held c' w' \<and> (\<forall>x. r = Inr x \<longrightarrow> all_known (G x) c')"
  shows "desk_run ss held K m G"
  using assms unfolding desk_run_def by blast

lemma desk_runD:
  assumes "desk_run ss held K m G" "fits held c w" "all_known K c" "m w = (r, w')"
  shows "\<exists>c'. desk_steps ss c c' \<and> fits held c' w' \<and> (\<forall>x. r = Inr x \<longrightarrow> all_known (G x) c')"
  by (rule assms(1) [unfolded desk_run_def, rule_format, OF assms(2-4)])

lemma desk_steps_append: "desk_steps ss d e \<Longrightarrow> desk_steps ss c d \<Longrightarrow> desk_steps ss c e"
  by (induction rule: desk_steps.induct) (auto intro: desk_snoc)

lemma desk_steps_one: "desk_step ss c d \<Longrightarrow> desk_steps ss c d"
  using desk_snoc [OF desk_none] .

lemma knows_kept: "tickets_kept s s' \<Longrightarrow> knows s k i \<Longrightarrow> knows s' k i"
proof -
  assume kept: "tickets_kept s s'" and "knows s k i"
  then obtain it where it: "tickets s k = Some it" "it ''instance_id'' = Some (AS i)" by (auto simp: knows_def)
  from tickets_keptD [OF kept it(1)] obtain it' where "tickets s' k = Some it'" "same_ticket it it'" by blast
  with it(2) show ?thesis by (auto simp: knows_def same_ticket_def)
qed

lemma all_known_steps:
  assumes "all_known K c" "desk_steps ss c c'" "desk_ok c"
  shows "all_known K c'"
  using assms knows_kept [OF conjunct2 [OF desk_steps_ok [OF assms(2,3)]]]
  unfolding all_known_def by blast

lemma all_known_Un [simp]: "all_known (K \<union> L) c \<longleftrightarrow> all_known K c \<and> all_known L c"
  unfolding all_known_def by blast

lemma all_known_mono: "all_known K c \<Longrightarrow> L \<subseteq> K \<Longrightarrow> all_known L c"
  unfolding all_known_def by fast

lemma all_known_empty [simp]: "all_known {} c"
  by (simp add: all_known_def)

subsection \<open>Structural rules\<close>

lemma run_weaken:
  assumes "desk_run ss held K m G" "\<And>x. H x \<subseteq> G x \<union> K"
  shows "desk_run ss held K m H"
proof (rule desk_runI)
  fix c w r w' assume a: "fits held c w" "all_known K c" "m w = (r, w')"
  from desk_runD [OF assms(1) a] obtain c' where c': "desk_steps ss c c'" "fits held c' w'"
    "\<forall>x. r = Inr x \<longrightarrow> all_known (G x) c'" by blast
  have K: "all_known K c'" using all_known_steps [OF a(2) c'(1)] a(1) by (simp add: fits_def)
  show "\<exists>c'. desk_steps ss c c' \<and> fits held c' w' \<and> (\<forall>x. r = Inr x \<longrightarrow> all_known (H x) c')"
  proof (intro exI conjI allI impI)
    fix x assume "r = Inr x"
    with c'(3) K have "all_known (G x \<union> K) c'" by simp
    then show "all_known (H x) c'" by (rule all_known_mono [OF _ assms(2)])
  qed (rule c')+
qed

lemma run_forget: "desk_run ss held K m G \<Longrightarrow> desk_run ss held K m (\<lambda>_. {})"
  by (rule run_weaken) auto

lemma run_bind:
  assumes "desk_run ss held K m G" "\<And>x. desk_run ss held (K \<union> G x) (k x) H"
  shows "desk_run ss held K (sbind m k) H"
proof (rule desk_runI)
  fix c w r w' assume a: "fits held c w" "all_known K c" "sbind m k w = (r, w')"
  obtain r1 w1 where m: "m w = (r1, w1)" by (cases "m w")
  from desk_runD [OF assms(1) a(1,2) m] obtain c1 where c1: "desk_steps ss c c1" "fits held c1 w1"
    "\<forall>x. r1 = Inr x \<longrightarrow> all_known (G x) c1" by blast
  have K: "all_known K c1" using all_known_steps [OF a(2) c1(1)] a(1) by (simp add: fits_def)
  show "\<exists>c'. desk_steps ss c c' \<and> fits held c' w' \<and> (\<forall>x. r = Inr x \<longrightarrow> all_known (H x) c')"
  proof (cases r1)
    case (Inl e)
    with a(3) m have "r = Inl e" "w' = w1" by (simp_all add: sbind_def)
    with c1(1,2) show ?thesis by blast
  next
    case (Inr x)
    with a(3) m have k: "k x w1 = (r, w')" by (simp add: sbind_def)
    have "all_known (K \<union> G x) c1" using K c1(3) Inr by simp
    from desk_runD [OF assms(2) c1(2) this k] show ?thesis using desk_steps_append c1(1) by blast
  qed
qed

text \<open>A statement that touches neither the database nor the tick.\<close>

lemma run_pure:
  assumes "\<And>w. snd (m w) = w"
  shows "desk_run ss held K m (\<lambda>_. {})"
proof (rule desk_runI)
  fix c w r w' assume "fits held c w" "m w = (r, w')"
  then show "\<exists>c'. desk_steps ss c c' \<and> fits held c' w' \<and> (\<forall>x. r = Inr x \<longrightarrow> all_known {} c')"
    using assms [of w] desk_none by fastforce
qed

lemma run_return [run_intros]: "desk_run ss held K (sreturn x) (\<lambda>_. {})"
  by (rule run_pure) (simp add: sreturn_def)

lemma run_return_knowing:
  fixes x :: 'a assumes "G x \<subseteq> K"
  shows "desk_run ss held K (sreturn x) G"
proof (rule desk_runI)
  fix c w and r :: "desk_error + 'a" and w' assume "fits held c w" "all_known K c" "sreturn x w = (r, w')"
  then show "\<exists>c'. desk_steps ss c c' \<and> fits held c' w' \<and> (\<forall>y. r = Inr y \<longrightarrow> all_known (G y) c')"
    using desk_none all_known_mono [OF _ assms] by (intro exI [of _ c]) auto
qed

lemma run_fail:
  fixes G :: "'a \<Rightarrow> (string \<times> string) set"
  shows "desk_run ss held K (slift (Inl e)) G"
proof (rule desk_runI)
  fix c w and r :: "desk_error + 'a" and w' assume "fits held c w" "slift (Inl e) w = (r, w')"
  then show "\<exists>c'. desk_steps ss c c' \<and> fits held c' w' \<and> (\<forall>y. r = Inr y \<longrightarrow> all_known (G y) c')"
    using desk_none by (intro exI [of _ c]) auto
qed

lemma run_lift [run_intros]: "desk_run ss held K (slift x) (\<lambda>_. {})"
  by (rule run_pure) (simp add: slift_def)

lemma run_ensure [run_intros]: "desk_run ss held K (sensure_api b e) (\<lambda>_. {})"
  by (rule run_pure) (simp add: sensure_api_def sensure_def)

lemma run_found [run_intros]: "desk_run ss held K (found e x) (\<lambda>_. {})"
  unfolding found_def by (rule run_lift)

lemma run_guard [run_intros]: "desk_run ss held K (guard D req) (\<lambda>_. {})"
  unfolding guard_def by (rule run_lift)

lemma run_user_id [run_intros]: "desk_run ss held K (require_user_id D) (\<lambda>_. {})"
  unfolding require_user_id_def by (rule run_lift)

lemma run_if [run_intros]:
  "(b \<Longrightarrow> desk_run ss held K m G) \<Longrightarrow> (\<not> b \<Longrightarrow> desk_run ss held K m' G) \<Longrightarrow>
     desk_run ss held K (if b then m else m') G"
  by simp

lemma run_option [run_intros]:
  "(x = None \<Longrightarrow> desk_run ss held K m G) \<Longrightarrow> (\<And>y. x = Some y \<Longrightarrow> desk_run ss held K (f y) G) \<Longrightarrow>
     desk_run ss held K (case x of None \<Rightarrow> m | Some y \<Rightarrow> f y) G"
  by (cases x) simp_all

lemma run_prod [run_intros]:
  "(\<And>a b. x = (a, b) \<Longrightarrow> desk_run ss held K (f a b) G) \<Longrightarrow> desk_run ss held K (case x of (a, b) \<Rightarrow> f a b) G"
  by (cases x) simp

lemma run_sum [run_intros]:
  "(\<And>a. x = Inl a \<Longrightarrow> desk_run ss held K (f a) G) \<Longrightarrow> (\<And>b. x = Inr b \<Longrightarrow> desk_run ss held K (g b) G) \<Longrightarrow>
     desk_run ss held K (case x of Inl a \<Rightarrow> f a | Inr b \<Rightarrow> g b) G"
  by (cases x) simp_all

lemma run_let [run_intros]:
  "(\<And>x. x = a \<Longrightarrow> desk_run ss held K (f x) G) \<Longrightarrow> desk_run ss held K (Let a f) G"
  by simp

lemma run_best_effort [run_intros]:
  assumes "desk_run ss held K m G"
  shows "desk_run ss held K (best_effort m) (\<lambda>_. {})"
proof (rule desk_runI)
  fix c w r w' assume a: "fits held c w" "all_known K c" "best_effort m w = (r, w')"
  obtain r1 w1 where m: "m w = (r1, w1)" by (cases "m w")
  have "w' = w1" using a(3) m by (auto simp: best_effort_def split: sum.splits)
  with desk_runD [OF assms a(1,2) m]
  show "\<exists>c'. desk_steps ss c c' \<and> fits held c' w' \<and> (\<forall>x. r = Inr x \<longrightarrow> all_known {} c')" by fastforce
qed

subsection \<open>Calls\<close>

lemma hydrate_ticketD:
  assumes "hydrate_ticket it = Inr t"
  shows "it ''id'' = Some (AS (tkt_id t)) \<and> it ''instance_id'' = Some (AS (tkt_instance_id t))"
  using assms
  by (auto simp: hydrate_ticket_def item_id_field_def need_string_def string_field_def
      split: option.splits attr.splits)

lemma id_hydrate_ticket: "id_hydrate hydrate_ticket tkt_id"
  unfolding id_hydrate_def by (auto simp: hydrate_ticket_def)

lemma desk_ok_keyed: "desk_ok c \<Longrightarrow> tickets_kept s (ds_db c) \<Longrightarrow> keyed s ''ticket''"
  unfolding keyed_def
proof (intro allI impI)
  fix k it assume ok: "desk_ok c" and kept: "tickets_kept s (ds_db c)" and it: "tickets s k = Some it"
  from tickets_keptD [OF kept it] obtain it' where it': "tickets (ds_db c) k = Some it'" "same_ticket it it'" by blast
  with desk_okD(1) [OF ok it'(1)] show "it ''id'' = Some (AS k)"
    by (auto simp: is_ticket_def ticket_row_is_def same_ticket_def)
qed

lemma single_write_elsewhere:
  assumes "s' = s \<or> commits ss s [w] s'" "fst (target w) \<notin> {''ticket'', ''counter''}"
  shows "desk_frame s s'"
  using assms write_elsewhere [of ss s "[w]" s'] by (auto simp: desk_frame_def)

context desk_client begin

lemma others_before:
  assumes "fits held c w"
  obtains c' where "desk_steps (dy_ss d) c c'" "desk_ok c'" "ds_db c' = dk_others D (w_n w) (w_db w)"
    "held (Suc (w_n w)) \<subseteq> ds_free c'" "ds_free c - held (w_n w) \<subseteq> ds_free c' - held (Suc (w_n w))"
proof -
  have "others_step (dy_ss d) (held (w_n w)) c (held (Suc (w_n w))) (dk_others D (w_n w) (w_db w))"
    using others [of c "w_n w"] assms by (simp add: fits_def)
  then obtain c' where c': "desk_steps (dy_ss d) c c'" "ds_db c' = dk_others D (w_n w) (w_db w)"
    "ds_free c - held (w_n w) \<subseteq> ds_free c' - held (Suc (w_n w))" "held (Suc (w_n w)) \<subseteq> ds_free c'"
    unfolding others_step_def by blast
  have "desk_ok c'" using desk_steps_ok [OF c'(1)] assms by (simp add: fits_def)
  with c' show ?thesis using that by simp
qed

lemma run_call:
  assumes "\<And>n c r s'. desk_ok c \<Longrightarrow> all_known K c \<Longrightarrow> m n (ds_db c) = (r, s') \<Longrightarrow>
      \<exists>c'. desk_steps (dy_ss d) c c' \<and> ds_db c' = s' \<and> ds_free c \<subseteq> ds_free c'
        \<and> (\<forall>x. r = Inr x \<longrightarrow> all_known (G x) c')"
  shows "desk_run (dy_ss d) held K (call D m) G"
proof (rule desk_runI)
  fix c w r w' assume a: "fits held c w" "all_known K c" "call D m w = (r, w')"
  obtain c1 where c1: "desk_steps (dy_ss d) c c1" "desk_ok c1"
    "ds_db c1 = dk_others D (w_n w) (w_db w)" "held (Suc (w_n w)) \<subseteq> ds_free c1"
    "ds_free c - held (w_n w) \<subseteq> ds_free c1 - held (Suc (w_n w))" by (rule others_before [OF a(1)])
  have K: "all_known K c1" using all_known_steps [OF a(2) c1(1)] a(1) by (simp add: fits_def)
  obtain s' where m: "m (w_n w) (ds_db c1) = (r, s')" and w': "w' = w\<lparr>w_db := s', w_n := Suc (w_n w)\<rparr>"
    using a(3) by (auto simp: call_def Let_def c1(3) split: prod.splits)
  from assms [OF c1(2) K m] obtain c' where c': "desk_steps (dy_ss d) c1 c'" "ds_db c' = s'"
    "ds_free c1 \<subseteq> ds_free c'" "\<forall>x. r = Inr x \<longrightarrow> all_known (G x) c'" by blast
  have "fits held c' w'" using desk_steps_ok [OF c'(1) c1(2)] c'(2,3) c1(4) by (auto simp: fits_def w')
  with c' desk_steps_append [OF c'(1) c1(1)]
  show "\<exists>c'. desk_steps (dy_ss d) c c' \<and> fits held c' w' \<and> (\<forall>x. r = Inr x \<longrightarrow> all_known (G x) c')" by blast
qed

lemma run_quiet_call: "desk_run (dy_ss d) held K (call D (\<lambda>n s. (f n s, s))) (\<lambda>_. {})"
  by (rule run_call) (auto intro: desk_none)

lemma run_read_knowing:
  assumes "\<And>n c x. desk_ok c \<Longrightarrow> all_known K c \<Longrightarrow> f (dk_view D n (ds_db c)) = Inr x \<Longrightarrow> all_known (G x) c"
  shows "desk_run (dy_ss d) held K (db_read D f) G"
  unfolding db_read_def
  by (rule run_call) (use assms in \<open>auto simp: db_error_of_def intro: desk_none\<close>)

lemma run_read [run_intros]: "desk_run (dy_ss d) held K (db_read D f) (\<lambda>_. {})"
  by (rule run_read_knowing) simp

lemma run_read2 [run_intros]: "desk_run (dy_ss d) held K (db_read2 D f) (\<lambda>_. {})"
  unfolding db_read2_def by (rule run_bind [OF run_quiet_call run_read])

lemma run_ticks [run_intros]:
  "desk_run (dy_ss d) held K (now_sec D) (\<lambda>_. {})"
  "desk_run (dy_ss d) held K (new_id D) (\<lambda>_. {})"
  "desk_run (dy_ss d) held K (generate_nonce D) (\<lambda>_. {})"
  "desk_run (dy_ss d) held K (object_size D key) (\<lambda>_. {})"
  unfolding now_sec_def new_id_def generate_nonce_def object_size_def by (rule run_quiet_call)+

lemma run_logged:
  assumes "desk_run (dy_ss d) held K m G" "\<And>w. w_db (g w) = w_db w" "\<And>w. w_n (g w) = w_n w"
  shows "desk_run (dy_ss d) held K (\<lambda>w. m (g w)) G"
proof (rule desk_runI)
  fix c w r w' assume "fits held c w" "all_known K c" "m (g w) = (r, w')"
  then show "\<exists>c'. desk_steps (dy_ss d) c c' \<and> fits held c' w' \<and> (\<forall>x. r = Inr x \<longrightarrow> all_known (G x) c')"
    by (intro desk_runD [OF assms(1), of c "g w"]) (simp_all add: fits_def assms(2,3))
qed

lemma run_send [run_intros]: "desk_run (dy_ss d) held K (send_raw D raw to cc) (\<lambda>_. {})"
  unfolding send_raw_def [abs_def] by (rule run_logged [OF run_quiet_call]) simp_all

lemma run_storage [run_intros]: "desk_run (dy_ss d) held K (storage_put D sc) (\<lambda>_. {})"
  unfolding storage_put_def [abs_def] by (rule run_logged [OF run_quiet_call]) simp_all

lemma run_write_elsewhere:
  assumes "\<And>n s r s'. m n s = (r, s') \<Longrightarrow> desk_frame s s'"
  shows "desk_run (dy_ss d) held K (db_write D m) (\<lambda>_. {})"
  unfolding db_write_def
proof (rule run_call)
  fix n and c :: desk_sys and r s'
  assume "(let (r, s') = m n (ds_db c) in (db_error_of r, s')) = (r, s')"
  then obtain r1 where "m n (ds_db c) = (r1, s')" by (auto split: prod.splits)
  then have "desk_step (dy_ss d) c (c\<lparr>ds_db := s'\<rparr>)" using assms by (intro elsewhere) blast
  then show "\<exists>c'. desk_steps (dy_ss d) c c' \<and> ds_db c' = s' \<and> ds_free c \<subseteq> ds_free c'
      \<and> (\<forall>x. r = Inr x \<longrightarrow> all_known {} c')"
    using desk_steps_one by (intro exI [of _ "c\<lparr>ds_db := s'\<rparr>"]) simp
qed

lemma run_change:
  assumes "\<And>i. change_instance ch = Some i \<Longrightarrow> (k, i) \<in> K"
  shows "desk_run (dy_ss d) held K (write_ticket D k ch) (\<lambda>_. {})"
  unfolding write_ticket_def db_write_def
proof (rule run_call)
  fix n and c :: desk_sys and r s'
  assume a: "desk_ok c" "all_known K c"
    "(let (r, s') = update_ticket (dk_db D) k ch (ds_db c) in (db_error_of r, s')) = (r, s')"
  then obtain r1 where "send_existing h (''Ticket '' @ k) (update_ticket_req k ch) (ds_db c) = (r1, s')"
    by (auto simp: update_ticket_def handler split: prod.splits)
  from existing_any [OF this]
  show "\<exists>c'. desk_steps (dy_ss d) c c' \<and> ds_db c' = s' \<and> ds_free c \<subseteq> ds_free c'
      \<and> (\<forall>x. r = Inr x \<longrightarrow> all_known {} c')"
  proof
    assume "s' = ds_db c"
    then show ?thesis using desk_none by (intro exI [of _ c]) simp
  next
    assume u: "commits (dy_ss d) (ds_db c) [update_ticket_req k ch] s'"
    then obtain it where it: "tickets (ds_db c) k = Some it" using update_ticket_effect by blast
    have "change_fits it ch"
      unfolding change_fits_def
    proof (intro allI impI)
      fix i assume "change_instance ch = Some i"
      then have "knows (ds_db c) k i" using assms a(2) unfolding all_known_def by blast
      with it show "it ''instance_id'' = Some (AS i)" by (simp add: knows_def)
    qed
    from change_ticket [OF it this u] show ?thesis
      using desk_steps_one by (intro exI [of _ "c\<lparr>ds_db := s'\<rparr>"]) simp
  qed
qed

end

subsection \<open>Operations of the handler\<close>

definition known :: "ticket \<Rightarrow> (string \<times> string) set" where
  "known t = {(tkt_id t, tkt_instance_id t)}"

lemma all_known_known [simp]: "all_known (known t) c \<longleftrightarrow> knows (ds_db c) (tkt_id t) (tkt_instance_id t)"
  by (simp add: all_known_def known_def)

definition known_row :: "ticket option \<Rightarrow> (string \<times> string) set" where
  "known_row row = (case row of None \<Rightarrow> {} | Some t \<Rightarrow> known t)"

lemma known_row_simps [simp]: "known_row None = {}" "known_row (Some t) = known t"
  by (simp_all add: known_row_def)

lemma single_row: "list_all2 P [i] rs \<Longrightarrow> first_row rs = Some x \<Longrightarrow> P i (Some x)"
  by (auto simp: list_all2_Cons1 first_row_def)

context desk_client begin

lemma view_ticket:
  assumes "desk_ok c" "get_tickets h [i] (dk_view D n (ds_db c)) = Inr rs" "first_row rs = Some t"
  shows "tkt_id t = i \<and> knows (ds_db c) i (tkt_instance_id t)"
proof -
  let ?s = "dk_view D n (ds_db c)"
  have k: "keyed ?s ''ticket''" by (rule desk_ok_keyed [OF assms(1) view [OF assms(1)]])
  have "list_all2 (\<lambda>i r. hydrated hydrate_ticket (?s ''ticket'' i) = Inr r) [i] rs"
    by (rule get_records_spec [OF assms(2) [unfolded get_tickets_def] svc id_hydrate_ticket k]) simp
  from single_row [OF this assms(3)] obtain it where it: "?s ''ticket'' i = Some it" "hydrate_ticket it = Inr t"
    by (auto simp: hydrated_def split: option.splits)
  have "knows ?s i (tkt_instance_id t)" using it hydrate_ticketD [OF it(2)] by (simp add: knows_def)
  moreover have "tkt_id t = i" using keyedD [OF k it(1)] hydrate_ticketD [OF it(2)] by simp
  ultimately show ?thesis using knows_kept [OF view [OF assms(1)]] by blast
qed

lemma run_get_ticket [run_intros]: "desk_run (dy_ss d) held K (get_ticket D i) known_row"
  unfolding get_ticket_def
proof (rule run_read_knowing)
  fix n c x
  assume a: "desk_ok c" "rbind (get_tickets (dk_db D) [i] (dk_view D n (ds_db c))) (\<lambda>rs. Inr (first_row rs)) = Inr x"
  then obtain rs where "get_tickets h [i] (dk_view D n (ds_db c)) = Inr rs" "first_row rs = x"
    by (auto simp: handler)
  with view_ticket [OF a(1)] show "all_known (known_row x) c" by (cases x) auto
qed

lemma run_get_instance [run_intros]: "desk_run (dy_ss d) held K (get_instance D i) (\<lambda>_. {})"
  unfolding get_instance_def by (rule run_read)

lemma run_addresses [run_intros]: "desk_run (dy_ss d) held K (inbound_addresses D i) (\<lambda>_. {})"
  unfolding inbound_addresses_def by (rule run_read)

lemma run_messages_of [run_intros]: "desk_run (dy_ss d) held K (messages_of D i) (\<lambda>_. {})"
  unfolding messages_of_def by (rule run_read)

lemma run_new_message [run_intros]:
  "desk_run (dy_ss d) held K (new_message D i kind author from_email to cc text html irt refs) (\<lambda>_. {})"
  unfolding new_message_def
proof (rule run_write_elsewhere)
  fix n s r s'
  assume "create_ticket_message (dk_db D) (dk_id D n) (dk_clock D n) i kind author from_email to cc text html irt refs s = (r, s')"
  then obtain r1 where "send_plain h (Put ''ticket_message'' (dk_id D n) (message_row (dy_ss (h_svc h)) (dk_id D n)
      (dk_clock D n) i kind author from_email to cc text html irt refs) (CNotExists ''id'')) s = (r1, s')"
    by (auto simp: create_ticket_message_def handler Let_def split: prod.splits)
  from single_write_elsewhere [OF plain_any [OF this]] show "desk_frame s s'" by simp
qed

lemma run_write_message [run_intros]: "desk_run (dy_ss d) held K (write_message D i ch) (\<lambda>_. {})"
  unfolding write_message_def
proof (rule run_write_elsewhere)
  fix n s r s' assume "update_ticket_message (dk_db D) i ch s = (r, s')"
  from existing_any [OF this [unfolded update_ticket_message_def handler]]
  show "desk_frame s s'" by (rule single_write_elsewhere) simp
qed

lemma run_claim [run_intros]:
  "desk_run (dy_ss d) held K (db_write D (\<lambda>n. claim_processed_message (dk_db D) i now until)) (\<lambda>_. {})"
proof (rule run_write_elsewhere)
  fix n s r s' assume "claim_processed_message (dk_db D) i now until s = (r, s')"
  from single.op_any [OF this [unfolded claim_processed_message_def handler]]
  show "desk_frame s s'" by (rule single_write_elsewhere) simp
qed

lemma run_settings [run_intros]:
  "desk_run (dy_ss d) held K (db_write D (\<lambda>n. update_membership_notification_settings (dk_db D) i p)) (\<lambda>_. {})"
proof (rule run_write_elsewhere)
  fix n s r s' assume "update_membership_notification_settings (dk_db D) i p s = (r, s')"
  then have "s' = s \<or> send_existing h (''Membership '' @ i)
      (Update ''membership'' ''id'' i (settings_actions p) (CExists ''id'')) s = (r, s')"
    by (auto simp: update_membership_notification_settings_def handler split: sum.splits if_splits)
  then have "s' = s \<or> commits (dy_ss d) s [Update ''membership'' ''id'' i (settings_actions p) (CExists ''id'')] s'"
    using existing_any by blast
  then show "desk_frame s s'" by (rule single_write_elsewhere) simp
qed

end

subsection \<open>Opening a ticket\<close>

text \<open>
  The number allocated is this run's until the ticket is put under it: whatever the others do in
  between, it stays free.
\<close>

context desk_client begin

lemma allocate_run:
  assumes "fits held c w" "next_ticket_number D i w = (r, w')"
  shows "\<exists>c'. desk_steps (dy_ss d) c c' \<and> fits held c' w'
    \<and> (\<forall>n. r = Inr n \<longrightarrow> (i, n) \<in> ds_free c' - held (w_n w'))"
proof -
  obtain c1 where c1: "desk_steps (dy_ss d) c c1" "desk_ok c1"
    "ds_db c1 = dk_others D (w_n w) (w_db w)" "held (Suc (w_n w)) \<subseteq> ds_free c1"
    "ds_free c - held (w_n w) \<subseteq> ds_free c1 - held (Suc (w_n w))" by (rule others_before [OF assms(1)])
  obtain r0 s' where sp: "send_plain h (increment_ticket_counter_req i) (ds_db c1) = (r0, s')"
      and w': "w' = w\<lparr>w_db := s', w_n := Suc (w_n w)\<rparr>"
      and r: "r = db_error_of (rbind r0 (\<lambda>_. ok_or (Infrastructure ''counter update missing next_ticket_number'')
            (u64_attr (s' ''counter'' i) ''next_ticket_number'')))"
    using assms(2)
    by (auto simp: next_ticket_number_def db_write_def call_def Let_def increment_ticket_counter_def handler c1(3)
        split: prod.splits)
  show ?thesis
  proof (cases "\<exists>n. r = Inr n")
    case False
    have "s' = ds_db c1 \<or> commits (dy_ss d) (ds_db c1) [increment_ticket_counter_req i] s'" by (rule plain_any [OF sp])
    then have "desk_steps (dy_ss d) c1 (c1\<lparr>ds_db := s'\<rparr>)"
    proof
      assume "s' = ds_db c1"
      then show ?thesis using desk_none by simp
    qed (rule desk_steps_one [OF allocate_lost])
    moreover from desk_steps_ok [OF this c1(2)] have "fits held (c1\<lparr>ds_db := s'\<rparr>) w'"
      using c1(4) by (simp add: fits_def w')
    ultimately show ?thesis using desk_steps_append c1(1) False by blast
  next
    case True
    then obtain n where n: "r = Inr n" "u64_attr (s' ''counter'' i) ''next_ticket_number'' = Some n" "r0 = Inr ()"
      by (auto simp: r db_error_of_def)
    have u: "commits (dy_ss d) (ds_db c1) [increment_ticket_counter_req i] s'" using plain_ok sp n(3) by blast
    let ?c2 = "c1\<lparr>ds_db := s', ds_free := insert (i, n) (ds_free c1)\<rparr>"
    have st: "desk_steps (dy_ss d) c1 ?c2" by (rule desk_steps_one [OF allocate [OF u n(2)]])
    have "int n = ticket_count (ds_db c1) i + 1"
      using n(2) increment_ticket_effect [OF u] by (auto simp: u64_attr_def split: if_splits)
    then have "(i, n) \<notin> ds_free c1" using desk_okD(4) [OF c1(2)] by fastforce
    then have "(i, n) \<in> ds_free ?c2 - held (w_n w')" using c1(4) by (auto simp: w')
    moreover have "fits held ?c2 w'" using desk_steps_ok [OF st c1(2)] c1(4) by (auto simp: fits_def w')
    ultimately show ?thesis using desk_steps_append [OF st c1(1)] n(1)
      by (intro exI [of _ ?c2] conjI allI impI) simp_all
  qed
qed

lemma put_ticket_run:
  assumes "fits held c w" "(i, n) \<in> ds_free c - held (w_n w)" "new_ticket D i n subject rs cs w = (r, w')"
  shows "\<exists>c'. desk_steps (dy_ss d) c c' \<and> fits held c' w'
    \<and> (\<forall>t. r = Inr t \<longrightarrow> tkt_instance_id t = i \<and> knows (ds_db c') (tkt_id t) i)"
proof -
  obtain c1 where c1: "desk_steps (dy_ss d) c c1" "desk_ok c1"
    "ds_db c1 = dk_others D (w_n w) (w_db w)" "held (Suc (w_n w)) \<subseteq> ds_free c1"
    "ds_free c - held (w_n w) \<subseteq> ds_free c1 - held (Suc (w_n w))" by (rule others_before [OF assms(1)])
  have free: "(i, n) \<in> ds_free c1" "(i, n) \<notin> held (Suc (w_n w))" using assms(2) c1(5) by auto
  let ?k = "dk_id D (w_n w)"
  let ?req = "create_ticket_req (dy_ss d) ?k (dk_clock D (w_n w)) (dk_token D (w_n w)) i n subject rs cs"
  obtain r0 s' where sp: "send_plain h ?req (ds_db c1) = (r0, s')"
      and w': "w' = w\<lparr>w_db := s', w_n := Suc (w_n w)\<rparr>"
      and r: "\<And>t. r = Inr t \<Longrightarrow> r0 = Inr () \<and> tkt_id t = ?k \<and> tkt_instance_id t = i"
    using assms(3)
    by (auto simp: new_ticket_def db_write_def call_def Let_def create_ticket_def handler svc c1(3) db_error_of_def
        split: prod.splits)
  show ?thesis
  proof (cases "s' = ds_db c1 \<and> (\<forall>t. r \<noteq> Inr t)")
    case True
    then have "fits held c1 w'" using c1(2,4) by (simp add: fits_def w')
    with True c1(1) show ?thesis by blast
  next
    case False
    have u: "commits (dy_ss d) (ds_db c1) [?req] s'"
      using False plain_any [OF sp] plain_ok [of ?req "ds_db c1"] sp r by blast
    let ?c2 = "c1\<lparr>ds_db := s', ds_free := ds_free c1 - {(i, n)}\<rparr>"
    have st: "desk_steps (dy_ss d) c1 ?c2" by (rule desk_steps_one [OF open_ticket [OF free(1) u]])
    have "fits held ?c2 w'" using desk_steps_ok [OF st c1(2)] c1(4) free(2) by (auto simp: fits_def w')
    moreover have "knows s' ?k i" using create_ticket_effect [OF u] by (simp add: knows_def ticket_row_fields)
    ultimately show ?thesis using desk_steps_append [OF st c1(1)] r
      by (intro exI [of _ ?c2] conjI allI impI) simp_all
  qed
qed

lemma run_open:
  assumes "\<And>n t. desk_run (dy_ss d) held (K \<union> known t) (k n t) G"
  shows "desk_run (dy_ss d) held K
    (sbind (next_ticket_number D i) (\<lambda>n. sbind (new_ticket D i n subject rs cs) (k n))) G"
proof (rule desk_runI)
  fix c w r w'
  assume a: "fits held c w" "all_known K c"
    "sbind (next_ticket_number D i) (\<lambda>n. sbind (new_ticket D i n subject rs cs) (k n)) w = (r, w')"
  obtain r1 w1 where m1: "next_ticket_number D i w = (r1, w1)" by (cases "next_ticket_number D i w")
  from allocate_run [OF a(1) m1] obtain c1 where c1: "desk_steps (dy_ss d) c c1" "fits held c1 w1"
    "\<forall>n. r1 = Inr n \<longrightarrow> (i, n) \<in> ds_free c1 - held (w_n w1)" by blast
  show "\<exists>c'. desk_steps (dy_ss d) c c' \<and> fits held c' w' \<and> (\<forall>x. r = Inr x \<longrightarrow> all_known (G x) c')"
  proof (cases r1)
    case (Inl e)
    with a(3) m1 have "r = Inl e" "w' = w1" by (simp_all add: sbind_def)
    with c1(1,2) show ?thesis by blast
  next
    case (Inr n)
    obtain r2 w2 where m2: "new_ticket D i n subject rs cs w1 = (r2, w2)" by (cases "new_ticket D i n subject rs cs w1")
    from put_ticket_run [OF c1(2) _ m2] c1(3) Inr obtain c2 where c2: "desk_steps (dy_ss d) c1 c2" "fits held c2 w2"
      "\<forall>t. r2 = Inr t \<longrightarrow> tkt_instance_id t = i \<and> knows (ds_db c2) (tkt_id t) i" by blast
    have s: "desk_steps (dy_ss d) c c2" by (rule desk_steps_append [OF c2(1) c1(1)])
    show ?thesis
    proof (cases r2)
      case (Inl e)
      with a(3) m1 m2 Inr have "r = Inl e" "w' = w2" by (simp_all add: sbind_def)
      with s c2(2) show ?thesis by blast
    next
      case (Inr t)
      with a(3) m1 m2 \<open>r1 = Inr n\<close> have m3: "k n t w2 = (r, w')" by (simp add: sbind_def)
      have "all_known K c2" using all_known_steps [OF a(2) s] a(1) by (simp add: fits_def)
      then have "all_known (K \<union> known t) c2" using c2(3) Inr by simp
      from desk_runD [OF assms c2(2) this m3] show ?thesis using desk_steps_append s by blast
    qed
  qed
qed

end

end
