(* ===== verification/Desk_Handlers.thy ===== *)
theory Desk_Handlers
  imports Desk_Runs
begin

section \<open>Every helpdesk handler is a run of the desk\<close>

text \<open>
  The handlers of \<open>Ticket_Mutations\<close> and \<open>Inbound_Pipeline\<close>, one rule each, by the rules of
  \<open>Desk_Runs\<close>; \<open>ticket_request\<close> names the mutations with their arguments.
\<close>

context desk_client begin

lemma run_bind_found:
  assumes "\<And>x. row = Some x \<Longrightarrow> desk_run (dy_ss d) held K (k x) G"
  shows "desk_run (dy_ss d) held K (sbind (found e row) k) G"
proof (cases row)
  case None
  then have "sbind (found e row) k = slift (Inl e)" by (intro ext) (simp add: found_def sbind_def slift_def)
  then show ?thesis using run_fail by simp
next
  case (Some x)
  then have "sbind (found e row) k = k x" by (intro ext) (simp add: found_def sbind_def slift_def)
  with assms Some show ?thesis by simp
qed

lemma run_member [run_intros]: "desk_run (dy_ss d) held K (require_ticket_member D i) known"
  unfolding require_ticket_member_def
  by (rule run_bind [OF run_get_ticket], rule run_bind_found, rule run_bind [OF run_lift],
      rule run_bind [OF run_ensure], rule run_return_knowing) auto

lemma run_support_instance [run_intros]: "desk_run (dy_ss d) held K (support_instance D i) (\<lambda>_. {})"
  unfolding support_instance_def by (rule run_intros run_bind)+

lemma run_required [run_intros]: "desk_run (dy_ss d) held K (required_text a b) (\<lambda>_. {})"
  unfolding required_text_def by (rule run_intros run_bind)+

lemma run_instance_addresses [run_intros]:
  "desk_run (dy_ss d) held K (load_instance_and_addresses D i) (\<lambda>_. {})"
  unfolding load_instance_and_addresses_def by (rule run_intros run_bind)+

lemma run_outbound [run_intros]:
  "desk_run (dy_ss d) held K (outbound_message D instance addresses t to cc body th) (\<lambda>_. {})"
  unfolding outbound_message_def by (rule run_intros run_bind)+

lemma run_system_notification [run_intros]:
  "desk_run (dy_ss d) held K (send_system_notification D t to cc body) (\<lambda>_. {})"
  unfolding send_system_notification_def system_notification_def by (rule run_intros run_bind)+

lemma run_notices [run_intros]:
  "desk_run (dy_ss d) held K (send_notices D instance t event actor new excerpt rcs) (\<lambda>_. {})"
proof (induction rcs arbitrary: K)
  case (Cons rc rcs)
  show ?case unfolding send_notices.simps build_staff_mime_def by (rule run_intros run_bind Cons.IH)+
qed (simp add: run_return)

lemma run_notify_staff [run_intros]:
  "desk_run (dy_ss d) held K (notify_staff D t assignee event actor body) (\<lambda>_. {})"
  unfolding notify_staff_def notify_members_def by (rule run_intros run_bind)+

lemma run_move [run_intros]: "desk_run (dy_ss d) held K (move_attachments D t m n keys) (\<lambda>_. {})"
proof (induction keys arbitrary: K n)
  case (Cons key keys)
  show ?case unfolding move_attachments.simps by (rule run_intros run_bind Cons.IH)+
qed (simp add: run_return)

lemma run_status_mail [run_intros]: "desk_run (dy_ss d) held K (status_mail D t st) (\<lambda>_. {})"
  unfolding status_mail_def by (rule run_intros run_bind)+

lemma run_check_assignee [run_intros]: "desk_run (dy_ss d) held K (check_assignee D t a) (\<lambda>_. {})"
  unfolding check_assignee_def by (rule run_intros run_bind)+

lemma run_touch [run_intros]:
  "desk_run (dy_ss d) held K (write_ticket D i (Touch now)) (\<lambda>_. {})"
  "desk_run (dy_ss d) held K (write_ticket D i MarkHasAttachments) (\<lambda>_. {})"
  "desk_run (dy_ss d) held K (write_ticket D i (AddCc e now)) (\<lambda>_. {})"
  "desk_run (dy_ss d) held K (write_ticket D i (RemoveCc e now)) (\<lambda>_. {})"
  "desk_run (dy_ss d) held K (write_ticket D i (AddRequester e now)) (\<lambda>_. {})"
  "desk_run (dy_ss d) held K (write_ticket D i (RemoveRequester e now)) (\<lambda>_. {})"
  by (rule run_change, simp)+

lemma run_open_submitted [run_intros]:
  "desk_run (dy_ss d) held K (open_submitted_ticket D inst subject body rs cs) (\<lambda>_. {})"
  unfolding open_submitted_ticket_def by (rule run_open) (rule run_intros run_bind)+

lemma run_set_status:
  assumes "(k, i) \<in> K"
  shows "desk_run (dy_ss d) held K (write_ticket D k (SetStatusAndAssignee i st a now)) (\<lambda>_. {})"
  by (rule run_change) (use assms in simp)

lemma known_in: "(tkt_id t, tkt_instance_id t) \<in> known t"
  by (simp add: known_def)

lemma run_mutations:
  "desk_run (dy_ss d) held K (m_submit_ticket D subject body) (\<lambda>_. {})"
  "desk_run (dy_ss d) held K (m_submit_verified_ticket D subject body to cc) (\<lambda>_. {})"
  "desk_run (dy_ss d) held K (m_create_attachment_upload D i name ct) (\<lambda>_. {})"
  "desk_run (dy_ss d) held K (m_reply_to_ticket D i body keys) (\<lambda>_. {})"
  "desk_run (dy_ss d) held K (m_add_internal_note D i body) (\<lambda>_. {})"
  "desk_run (dy_ss d) held K (m_add_ticket_requester D i email) (\<lambda>_. {})"
  "desk_run (dy_ss d) held K (m_remove_ticket_requester D i email) (\<lambda>_. {})"
  "desk_run (dy_ss d) held K (m_add_ticket_cc D i email) (\<lambda>_. {})"
  "desk_run (dy_ss d) held K (m_remove_ticket_cc D i email) (\<lambda>_. {})"
  "desk_run (dy_ss d) held K (m_update_notification_settings D i p) (\<lambda>_. {})"
  unfolding m_submit_ticket_def m_submit_verified_ticket_def m_create_attachment_upload_def
    m_reply_to_ticket_def m_add_internal_note_def m_add_ticket_requester_def m_remove_ticket_requester_def
    m_add_ticket_cc_def m_remove_ticket_cc_def m_update_notification_settings_def
  by (rule run_intros run_bind)+

lemma run_status_mutations:
  "desk_run (dy_ss d) held K (m_set_ticket_status D i st) (\<lambda>_. {})"
  "desk_run (dy_ss d) held K (m_assign_ticket D i a) (\<lambda>_. {})"
  unfolding m_set_ticket_status_def m_assign_ticket_def
  by (rule run_intros run_bind run_set_status UnI1 known_in UnI2)+

end

subsection \<open>The inbound pipeline\<close>

lemma instance_number_inj: "instance_number i n = instance_number j m \<Longrightarrow> i = j \<and> n = m"
proof -
  assume a: "instance_number i n = instance_number j m"
  have d: "CHR ''#'' \<notin> set (show_nat k)" for k
    using show_nat_digits [of k] by (auto simp: list_all_iff is_digit_def)
  have "rsplit_once (CHR ''#'') (instance_number i n) = Some (i, show_nat n)"
    "rsplit_once (CHR ''#'') (instance_number j m) = Some (j, show_nat m)"
    unfolding instance_number_def by (simp_all add: rsplit_once_append d)
  then have "Some (i, show_nat n) = Some (j, show_nat m)" by (simp only: a)
  then show ?thesis by simp
qed

lemma at_most_one_single: "at_most_one xs m = Inr (Some x) \<longleftrightarrow> xs = [x]"
  by (cases xs) (auto simp: at_most_one_def)

definition hit_known :: "string \<Rightarrow> ticket_lookup \<Rightarrow> (string \<times> string) set" where
  "hit_known i l = (case l of FoundTicket t \<Rightarrow> {(tkt_id t, i)} | NoTicket \<Rightarrow> {} | CrossTenant \<Rightarrow> {})"

lemma hit_known_simps [simp]:
  "hit_known i (FoundTicket t) = {(tkt_id t, i)}" "hit_known i NoTicket = {}" "hit_known i CrossTenant = {}"
  by (simp_all add: hit_known_def)

lemma run_contradiction:
  assumes "(k, i) \<in> K" "(k, j) \<in> K" "i \<noteq> j"
  shows "desk_run ss held K m G"
proof (rule desk_runI)
  fix c w assume "fits held c w" "all_known K c"
  with assms(1,2) have "knows (ds_db c) k i" "knows (ds_db c) k j" unfolding all_known_def by blast+
  with assms(3) have False by (auto simp: knows_def)
  then show "\<exists>c'. desk_steps ss c c' \<and> fits held c' w' \<and> (\<forall>x. r = Inr x \<longrightarrow> all_known (G x) c')" for w' r by blast
qed

text \<open>The ticket the number index finds is one of the instance asked for.\<close>

context index_service begin

lemma number_owner:
  assumes "desk_ok c" "tickets_kept v (ds_db c)" "get_ticket_id_by_instance_number q i n v = Inr (Some tid)"
  shows "knows (ds_db c) tid i"
proof -
  obtain its where its: "q v ''ticket'' ''instance_number'' (instance_number i n) = Inr its"
      and ids: "mapM item_id_field its = Inr [tid]"
    using assms(3)
    by (auto simp: get_ticket_id_by_instance_number_def query_ids_def at_most_one_single Let_def)
  from ids obtain it where it: "its = [it]" "item_id_field it = Inr tid"
    by (auto simp: mapM_Inr_iff list_all2_Cons2)
  from query_row [OF its] it(1) obtain k where k: "v ''ticket'' k = Some it"
    "it ''instance_number'' = Some (AS (instance_number i n))" by auto
  have "it ''id'' = Some (AS k)" by (rule keyedD [OF desk_ok_keyed [OF assms(1,2)] k(1)])
  with it(2) have tid: "k = tid" by (auto simp: item_id_field_def split: option.splits attr.splits)
  from tickets_keptD [OF assms(2) k(1)] obtain it' where it': "tickets (ds_db c) k = Some it'"
    "same_ticket it it'" by blast
  from desk_okD(1) [OF assms(1) it'(1)] obtain inst m where "is_ticket (ds_db c) k inst m" by blast
  with it' k(2) have "it' ''instance_id'' = Some (AS inst)" "instance_number inst m = instance_number i n"
    by (auto simp: is_ticket_def ticket_row_is_def same_ticket_def)
  with instance_number_inj it'(1) tid show ?thesis by (auto simp: knows_def)
qed

end

context desk_client begin

lemmas number_index = ix.number_owner [OF _ view]

lemma run_first_known [run_intros]: "desk_run (dy_ss d) held K (first_known D keys) (\<lambda>_. {})"
proof (induction keys arbitrary: K)
  case (Cons key keys)
  show ?case unfolding first_known.simps by (rule run_intros run_bind Cons.IH)+
qed (simp add: run_return)

lemma run_resolve_instance [run_intros]: "desk_run (dy_ss d) held K (resolve_instance_id D rs) (\<lambda>_. {})"
proof (induction rs arbitrary: K)
  case (Cons r rs)
  show ?case unfolding resolve_instance_id.simps by (rule run_intros run_bind Cons.IH)+
qed (simp add: run_return)

text \<open>A ticket read by its id has that id.\<close>

lemma run_bind_ticket:
  assumes "\<And>t. tkt_id t = i \<Longrightarrow> desk_run (dy_ss d) held (K \<union> known t) (k (Some t)) G"
    and "desk_run (dy_ss d) held K (k None) G"
  shows "desk_run (dy_ss d) held K (sbind (get_ticket D i) k) G"
proof -
  let ?G = "\<lambda>row. case row of None \<Rightarrow> {} | Some t \<Rightarrow> if tkt_id t = i then known t else UNIV"
  have "desk_run (dy_ss d) held K (get_ticket D i) ?G"
    unfolding get_ticket_def
  proof (rule run_read_knowing)
    fix n c x
    assume a: "desk_ok c" "rbind (get_tickets (dk_db D) [i] (dk_view D n (ds_db c))) (\<lambda>rs. Inr (first_row rs)) = Inr x"
    then obtain rs where "get_tickets h [i] (dk_view D n (ds_db c)) = Inr rs" "first_row rs = x"
      by (auto simp: handler)
    with view_ticket [OF a(1)] show "all_known (?G x) c" by (cases x) auto
  qed
  moreover have "desk_run (dy_ss d) held (K \<union> ?G row) (k row) G" for row
  proof (cases row)
    case (Some t)
    then show ?thesis using assms(1) [of t] run_contradiction [of "[]" "[]" UNIV "[CHR ''x'']"]
      by (cases "tkt_id t = i") simp_all
  qed (use assms(2) in simp)
  ultimately show ?thesis by (rule run_bind)
qed

lemma run_in_instance:
  "tkt_id t = k \<Longrightarrow> known t \<subseteq> K \<Longrightarrow> desk_run (dy_ss d) held K (sreturn (in_instance i t)) (hit_known i)"
  by (rule run_return_knowing) (auto simp: in_instance_def known_def)

lemma run_tags: "desk_run (dy_ss d) held K (try_tags D i tags) (hit_known i)"
proof (induction tags arbitrary: K)
  case (Cons tag tags)
  show ?case unfolding try_tags.simps
    by (rule run_bind_ticket) (simp_all add: Cons.IH run_in_instance)
qed (simp add: run_return_knowing)

lemma run_message_ids: "desk_run (dy_ss d) held K (try_message_ids D i mids) (hit_known i)"
proof (induction mids arbitrary: K)
  case (Cons mid mids)
  show ?case unfolding try_message_ids.simps
    by (rule run_bind [OF run_read2], rule run_option, simp add: Cons.IH, rule run_bind_ticket)
      (simp_all add: Cons.IH run_in_instance)
qed (simp add: run_return_knowing)

lemma run_number: "desk_run (dy_ss d) held K (try_number D i number) (hit_known i)"
proof (cases number)
  case (Some n)
  let ?G = "\<lambda>hit. case hit of None \<Rightarrow> {} | Some tid \<Rightarrow> {(tid, i)}"
  have r: "desk_run (dy_ss d) held K (db_read D (get_ticket_id_by_instance_number (dk_query D) i n)) ?G"
    by (rule run_read_knowing) (auto simp: query all_known_def dest: number_index split: option.splits)
  show ?thesis unfolding try_number_def Some option.case
    by (rule run_bind [OF r], rule run_option, simp add: run_return_knowing, rule run_bind_ticket)
      (auto intro!: run_return_knowing)
qed (simp add: try_number_def run_return_knowing)

lemma run_resolve_ticket: "desk_run (dy_ss d) held K (resolve_ticket D plan i) (hit_known i)"
  unfolding resolve_ticket_def
  by (rule run_bind [OF run_tags], rule run_if, rule run_return_knowing, simp, rule run_bind [OF run_message_ids],
      rule run_if, rule run_return_knowing, simp, rule run_number)

end

subsection \<open>Filing a message\<close>

context desk_client begin

lemma run_store_attachments [run_intros]:
  "desk_run (dy_ss d) held K (store_attachments D tid mid n parts) (\<lambda>_. {})"
proof (induction parts arbitrary: K n)
  case (Cons part parts)
  show ?case unfolding store_attachments.simps by (rule run_intros run_bind Cons.IH)+
qed (simp add: run_return)

lemma run_notify_others [run_intros]: "desk_run (dy_ss d) held K (notify_others D t rs body) (\<lambda>_. {})"
  unfolding notify_others_def relay_def by (rule run_intros run_bind)+

lemma run_route [run_intros]: "desk_run (dy_ss d) held K (route_mail D msg) (\<lambda>_. {})"
  unfolding route_mail_def by (rule run_intros run_bind)+

lemma run_refetch [run_intros]: "desk_run (dy_ss d) held K (refetch D created t) (\<lambda>_. {})"
  unfolding refetch_def by (rule run_intros run_bind)+

lemma run_store_mail [run_intros]: "desk_run (dy_ss d) held K (store_mail D msg key sender t) (\<lambda>_. {})"
  unfolding store_mail_def by (rule run_intros run_bind)+

lemma run_announce [run_intros]: "desk_run (dy_ss d) held K (announce D msg sender t created reopened) (\<lambda>_. {})"
  unfolding announce_def by (rule run_intros run_bind)+

lemma run_append: "(tkt_id t, i) \<in> K \<Longrightarrow> desk_run (dy_ss d) held K (append_to D now i sender t) (\<lambda>_. {})"
  unfolding append_to_def by (rule run_intros run_bind run_set_status UnI1 | assumption)+

lemma run_open_mail: "desk_run (dy_ss d) held K (open_from_mail D i addresses msg sender) (\<lambda>_. {})"
  unfolding open_from_mail_def Let_def by (rule run_open) (rule run_return)

lemma run_file:
  assumes "\<And>t. resolved = Some t \<Longrightarrow> (tkt_id t, i) \<in> K"
  shows "desk_run (dy_ss d) held K (file_mail D now msg key i sender resolved) (\<lambda>_. {})"
  unfolding file_mail_def
proof (rule run_bind [OF run_addresses])
  fix addresses
  have "desk_run (dy_ss d) held (K \<union> {}) (case resolved of Some t \<Rightarrow> append_to D now i sender t
      | None \<Rightarrow> open_from_mail D i addresses msg sender) (\<lambda>_. {})"
    by (rule run_option) (use assms in \<open>auto intro: run_append run_open_mail\<close>)
  then show "desk_run (dy_ss d) held (K \<union> {}) (sbind (case resolved of Some t \<Rightarrow> append_to D now i sender t
      | None \<Rightarrow> open_from_mail D i addresses msg sender) (\<lambda>(ticket0, created, added_as_cc, reopened).
     sbind (refetch D created ticket0) (\<lambda>ticket.
     sbind (store_mail D msg key sender ticket) (\<lambda>(message, stored).
     sbind (announce D msg sender ticket created reopened) (\<lambda>_.
     sreturn \<lparr>oc_dropped_reason = None, oc_ticket_id = Some (tkt_id ticket),
       oc_message_id = Some (msg_id message), oc_created_new_ticket = created, oc_reopened = reopened,
       oc_added_sender_as_cc = added_as_cc, oc_attachment_count = length stored\<rparr>))))) (\<lambda>_. {})"
    by (rule run_bind) (rule run_intros run_bind)+
qed

lemma run_handle: "desk_run (dy_ss d) held K (handle_mail D now msg key) (\<lambda>_. {})"
  unfolding handle_mail_def
proof (rule run_bind [OF run_route], rule run_sum, rule run_return, rule run_prod, rule run_let,
    rule run_bind [OF run_resolve_ticket])
  fix i lookup and L :: "(string \<times> string) set" and sender
  show "desk_run (dy_ss d) held (L \<union> hit_known i lookup)
      (case lookup of FoundTicket t \<Rightarrow> file_mail D now msg key i sender (Some t)
       | NoTicket \<Rightarrow> file_mail D now msg key i sender None
       | CrossTenant \<Rightarrow> sreturn (dropped ''resolved ticket belongs to a different instance (cross-tenant reject)''))
      (\<lambda>_. {})"
    by (cases lookup) (auto intro: run_file run_return)
qed

lemma run_process: "desk_run (dy_ss d) held K (process_raw_message D parse sid raw key) (\<lambda>_. {})"
  unfolding process_raw_message_def
  by (rule run_bind [OF run_ticks(1)], rule run_bind [OF run_claim], rule run_if, rule run_return, rule run_option,
      rule run_return, rule run_handle)

end

text \<open>The requests of the helpdesk, with their arguments.\<close>

datatype desk_request =
    SubmitTicket string string
  | SubmitVerifiedTicket string string "string list" "string list"
  | CreateAttachmentUpload string string string
  | ReplyToTicket string string "string list option"
  | AddInternalNote string string
  | SetTicketStatus string ticket_status
  | AssignTicket string "string option"
  | AddTicketRequester string string
  | RemoveTicketRequester string string
  | AddTicketCc string string
  | RemoveTicketCc string string
  | UpdateNotificationSettings string notification_patch
  | InboundMail string string "string option"

definition answered :: "'a run \<Rightarrow> unit run" where
  "answered m = sbind m (\<lambda>_. sreturn ())"

fun run_request :: "desk \<Rightarrow> (string \<Rightarrow> parsed_mail option) \<Rightarrow> desk_request \<Rightarrow> unit run" where
  "run_request D parse (SubmitTicket subject body) = answered (m_submit_ticket D subject body)"
| "run_request D parse (SubmitVerifiedTicket subject body to cc) = answered (m_submit_verified_ticket D subject body to cc)"
| "run_request D parse (CreateAttachmentUpload i name ct) = answered (m_create_attachment_upload D i name ct)"
| "run_request D parse (ReplyToTicket i body keys) = answered (m_reply_to_ticket D i body keys)"
| "run_request D parse (AddInternalNote i body) = answered (m_add_internal_note D i body)"
| "run_request D parse (SetTicketStatus i st) = answered (m_set_ticket_status D i st)"
| "run_request D parse (AssignTicket i a) = answered (m_assign_ticket D i a)"
| "run_request D parse (AddTicketRequester i e) = answered (m_add_ticket_requester D i e)"
| "run_request D parse (RemoveTicketRequester i e) = answered (m_remove_ticket_requester D i e)"
| "run_request D parse (AddTicketCc i e) = answered (m_add_ticket_cc D i e)"
| "run_request D parse (RemoveTicketCc i e) = answered (m_remove_ticket_cc D i e)"
| "run_request D parse (UpdateNotificationSettings i p) = answered (m_update_notification_settings D i p)"
| "run_request D parse (InboundMail sid raw key) = answered (process_raw_message D parse sid raw key)"

context desk_client begin

lemma run_answered: "desk_run (dy_ss d) held K m G \<Longrightarrow> desk_run (dy_ss d) held K (answered m) (\<lambda>_. {})"
  unfolding answered_def by (rule run_bind [OF _ run_return])

lemma run_any_request: "desk_run (dy_ss d) held K (run_request D parse req) (\<lambda>_. {})"
  by (cases req) (simp_all add: run_answered [OF run_process] run_answered [OF run_mutations(1)]
    run_answered [OF run_mutations(2)] run_answered [OF run_mutations(3)] run_answered [OF run_mutations(4)]
    run_answered [OF run_mutations(5)] run_answered [OF run_mutations(6)] run_answered [OF run_mutations(7)]
    run_answered [OF run_mutations(8)] run_answered [OF run_mutations(9)] run_answered [OF run_mutations(10)]
    run_answered [OF run_status_mutations(1)] run_answered [OF run_status_mutations(2)])

end

text \<open>
  C14. The helpdesk refines the desk. A run of any helpdesk request, from a reachable state, with
  other requests at work between any two of its calls, with reads that lag behind, and with
  services that fail whenever they like, takes the desk through steps of \<open>Desk_System\<close>: the state
  it leaves is reachable, so its markers are consistent, its numbers unique, and every ticket that
  was there is there still with its instance, number, token and subject.
\<close>

theorem desk_requests_are_steps:
  assumes "desk_client d h q D held" "desk_reachable (dy_ss d) c" "ds_db c = w_db w" "held (w_n w) \<subseteq> ds_free c"
    and "run_request D parse req w = (r, w')"
  shows "\<exists>c'. desk_steps (dy_ss d) c c' \<and> desk_reachable (dy_ss d) c' \<and> ds_db c' = w_db w'
    \<and> tickets_kept (w_db w) (w_db w')"
proof -
  have f: "fits held c w" using desk_reachable_ok [OF assms(2)] assms(3,4) by (simp add: fits_def)
  have "all_known {} c" by simp
  from desk_runD [OF desk_client.run_any_request [OF assms(1)] f this assms(5)]
  obtain c' where c': "desk_steps (dy_ss d) c c'" "fits held c' w'" by blast
  moreover have "tickets_kept (ds_db c) (ds_db c')"
    using desk_steps_ok [OF c'(1) desk_reachable_ok [OF assms(2)]] by blast
  ultimately show ?thesis using desk_steps_reachable [OF c'(1) assms(2)] assms(3) by (auto simp: fits_def)
qed

definition quiet_world :: world where
  "quiet_world = \<lparr>w_db = desk_db4, w_n = 0, w_sent = [], w_objects = [], w_texts = []\<rparr>"

theorem desk_requests_are_steps_witness:
  "\<exists>c'. desk_reachable remdups c' \<and> ds_db c' = w_db (snd (run_request
     (quiet_desk\<lparr>dk_auth := Some (User ''u1'' [\<lparr>am_instance_id = ''n1'', am_is_owner = False\<rparr>] False None None)\<rparr>)
     (\<lambda>raw. None) (SetTicketStatus ''T1'' TOpen) quiet_world))"
proof -
  let ?D = "quiet_desk\<lparr>dk_auth := Some (User ''u1'' [\<lparr>am_instance_id = ''n1'', am_is_owner = False\<rparr>] False None None)\<rparr>"
  let ?run = "run_request ?D (\<lambda>raw. None) (SetTicketStatus ''T1'' TOpen) quiet_world"
  have cl: "desk_client ref_dynamo ref_handler ref_index ?D (\<lambda>n. {})"
    by unfold_locales (auto simp: quiet_desk_def others_step_def intro: desk_none)
  have ss: "dy_ss ref_dynamo = remdups" by (simp add: ref_dynamo_def)
  have db: "ds_db desk_demo4 = w_db quiet_world" by (simp add: desk_demo4_def quiet_world_def)
  from desk_requests_are_steps [where parse = "\<lambda>raw. None" and req = "SetTicketStatus ''T1'' TOpen",
      OF cl _ db _ prod.collapse [symmetric], unfolded ss, OF desk_demo4_reachable]
  show ?thesis by (auto simp del: run_request.simps)
qed

end
