(* ===== verification/Desk_Isolation.thy ===== *)
theory Desk_Isolation
  imports Desk_Handlers
begin

section \<open>Tenants are isolated\<close>

text \<open>
  What a request that is alone on the desk changes. \<open>within s0 M C i s\<close> says how far \<open>s\<close> may
  differ from \<open>s0\<close>: tickets in \<open>M\<close>, counters in \<open>C\<close>, bookkeeping of processed messages, new
  tickets of instance \<open>i\<close>, new messages on tickets in \<open>M\<close>; every other row is as it was.
  \<open>confined\<close> is the judgement that a run stays within, with a fact about its answer.
\<close>

named_theorems confined_intros \<open>rules of the confinement judgement\<close>

definition new_row :: "(string \<Rightarrow> bool) \<Rightarrow> (string \<Rightarrow> bool) \<Rightarrow> string \<Rightarrow> string \<Rightarrow> string \<Rightarrow> item \<Rightarrow> bool" where
  "new_row M C i t j it \<longleftrightarrow>
     t = ''ticket'' \<and> M j \<and> it ''instance_id'' = Some (AS i)
     \<or> t = ''ticket_message'' \<and> (\<exists>k. it ''ticket_id'' = Some (AS k) \<and> M k)
     \<or> t = ''counter'' \<and> C j \<or> t = ''processed_message''"

definition may_change :: "(string \<Rightarrow> bool) \<Rightarrow> (string \<Rightarrow> bool) \<Rightarrow> string \<Rightarrow> string \<Rightarrow> bool" where
  "may_change M C t j \<longleftrightarrow> t = ''ticket'' \<and> M j \<or> t = ''counter'' \<and> C j \<or> t = ''processed_message''"

definition within ::
    "store \<Rightarrow> (string \<Rightarrow> bool) \<Rightarrow> (string \<Rightarrow> bool) \<Rightarrow> string \<Rightarrow> store \<Rightarrow> bool" where
  "within s0 M C i s \<longleftrightarrow>
     tickets_kept s0 s \<and> keyed s ''ticket''
     \<and> (\<forall>t j. s0 t j \<noteq> None \<longrightarrow> \<not> may_change M C t j \<longrightarrow> s t j = s0 t j)
     \<and> (\<forall>t j it. s0 t j = None \<longrightarrow> s t j = Some it \<longrightarrow> new_row M C i t j it)"

lemma withinD:
  assumes "within s0 M C i s"
  shows "tickets_kept s0 s" "keyed s ''ticket''"
    "s0 t j \<noteq> None \<Longrightarrow> \<not> may_change M C t j \<Longrightarrow> s t j = s0 t j"
    "s0 t j = None \<Longrightarrow> s t j = Some it \<Longrightarrow> new_row M C i t j it"
  using assms unfolding within_def by blast+

lemma within_refl: "keyed s ''ticket'' \<Longrightarrow> within s M C i s"
  by (simp add: within_def)

lemma within_mono:
  assumes "within s0 (\<lambda>_. False) (\<lambda>_. False) i s"
  shows "within s0 M C j s"
  unfolding within_def
proof (intro conjI allI impI)
  note w = withinD [OF assms]
  show "tickets_kept s0 s" "keyed s ''ticket''" by (rule w)+
  show "s t k = s0 t k" if "s0 t k \<noteq> None" "\<not> may_change M C t k" for t k
    using w(3) that by (simp add: may_change_def)
  show "new_row M C j t k it" if "s0 t k = None" "s t k = Some it" for t k it
    using w(4) [OF that] by (simp add: new_row_def)
qed

text \<open>One row written: what is left to show of it.\<close>

lemma within_write:
  assumes w: "within s0 M C i s" and other: "\<And>t j. (t, j) \<noteq> (t', j') \<Longrightarrow> s' t j = s t j"
    and old: "s0 t' j' \<noteq> None \<Longrightarrow> may_change M C t' j'"
    and new: "\<And>it. s0 t' j' = None \<Longrightarrow> s' t' j' = Some it \<Longrightarrow> new_row M C i t' j' it"
    and kept: "\<And>it. t' = ''ticket'' \<Longrightarrow> s t' j' = Some it \<Longrightarrow> \<exists>it'. s' t' j' = Some it' \<and> same_ticket it it'"
    and key: "\<And>it. t' = ''ticket'' \<Longrightarrow> s' t' j' = Some it \<Longrightarrow> it ''id'' = Some (AS j')"
  shows "within s0 M C i s'"
  unfolding within_def
proof (intro conjI allI impI)
  have "tickets_kept s s'"
    unfolding tickets_kept_def
  proof (intro allI impI)
    fix k it assume "tickets s k = Some it"
    then show "\<exists>it'. tickets s' k = Some it' \<and> same_ticket it it'"
      using kept other [of "''ticket''" k] by (cases "(''ticket'', k) = (t', j')") auto
  qed
  then show "tickets_kept s0 s'" by (rule tickets_kept_trans [OF withinD(1) [OF w]])
  show "keyed s' ''ticket''"
    unfolding keyed_def
  proof (intro allI impI)
    fix k it assume "s' ''ticket'' k = Some it"
    then show "it ''id'' = Some (AS k)"
      using key keyedD [OF withinD(2) [OF w]] other [of "''ticket''" k] by (cases "(''ticket'', k) = (t', j')") auto
  qed
next
  fix t j assume "s0 t j \<noteq> None" "\<not> may_change M C t j"
  then show "s' t j = s0 t j" using old other [of t j] withinD(3) [OF w] by (cases "(t, j) = (t', j')") auto
next
  fix t j it assume "s0 t j = None" "s' t j = Some it"
  then show "new_row M C i t j it"
    using new other [of t j] withinD(4) [OF w] by (cases "(t, j) = (t', j')") auto
qed

definition confined ::
    "store \<Rightarrow> (string \<Rightarrow> bool) \<Rightarrow> (string \<Rightarrow> bool) \<Rightarrow> string \<Rightarrow> 'a run \<Rightarrow> ('a \<Rightarrow> bool) \<Rightarrow> bool" where
  "confined s0 M C i m Q \<longleftrightarrow>
     (\<forall>w r w'. within s0 M C i (w_db w) \<longrightarrow> m w = (r, w') \<longrightarrow>
        within s0 M C i (w_db w') \<and> (\<forall>x. r = Inr x \<longrightarrow> Q x))"

lemma confinedI:
  assumes "\<And>w r w'. within s0 M C i (w_db w) \<Longrightarrow> m w = (r, w') \<Longrightarrow>
      within s0 M C i (w_db w') \<and> (\<forall>x. r = Inr x \<longrightarrow> Q x)"
  shows "confined s0 M C i m Q"
  using assms unfolding confined_def by blast

lemma confinedD:
  assumes "confined s0 M C i m Q" "within s0 M C i (w_db w)" "m w = (r, w')"
  shows "within s0 M C i (w_db w') \<and> (\<forall>x. r = Inr x \<longrightarrow> Q x)"
  by (rule assms(1) [unfolded confined_def, rule_format, OF assms(2,3)])

subsection \<open>Structural rules\<close>

lemma conf_bind:
  assumes "confined s0 M C i m Q" "\<And>x. Q x \<Longrightarrow> confined s0 M C i (k x) R"
  shows "confined s0 M C i (sbind m k) R"
proof (rule confinedI)
  fix w r w' assume a: "within s0 M C i (w_db w)" "sbind m k w = (r, w')"
  obtain r1 w1 where m: "m w = (r1, w1)" by (cases "m w")
  note q = confinedD [OF assms(1) a(1) m]
  show "within s0 M C i (w_db w') \<and> (\<forall>x. r = Inr x \<longrightarrow> R x)"
  proof (cases r1)
    case (Inl e)
    with a(2) m q show ?thesis by (auto simp: sbind_def)
  next
    case (Inr x)
    with a(2) m have "k x w1 = (r, w')" by (simp add: sbind_def)
    with confinedD [OF assms(2)] q Inr show ?thesis by blast
  qed
qed

lemma conf_weaken: "confined s0 M C i m Q \<Longrightarrow> (\<And>x. Q x \<Longrightarrow> R x) \<Longrightarrow> confined s0 M C i m R"
  unfolding confined_def by blast

lemma conf_pure:
  assumes "\<And>w. w_db (snd (m w)) = w_db w" "\<And>w x. fst (m w) = Inr x \<Longrightarrow> Q x"
  shows "confined s0 M C i m Q"
proof (rule confinedI)
  fix w r w' assume "within s0 M C i (w_db w)" "m w = (r, w')"
  with assms(1) [of w] assms(2) [of w] show "within s0 M C i (w_db w') \<and> (\<forall>x. r = Inr x \<longrightarrow> Q x)" by simp
qed

lemma conf_return: "Q x \<Longrightarrow> confined s0 M C i (sreturn x) Q"
  by (rule conf_pure) (auto simp: sreturn_def)

lemma conf_end: "confined s0 M C i (sreturn x) (\<lambda>_. True)"
  by (rule conf_return) simp

lemma conf_returned [confined_intros]: "confined s0 M C i (sreturn x) (\<lambda>y. y = x)"
  by (rule conf_return) simp

lemma conf_lift [confined_intros]: "confined s0 M C i (slift x) (\<lambda>y. x = Inr y)"
  by (rule conf_pure) (auto simp: slift_def)

lemma conf_ensure [confined_intros]: "confined s0 M C i (sensure_api b e) (\<lambda>_. b)"
  by (rule conf_pure) (auto simp: sensure_api_def sensure_def split: if_splits)

lemma conf_found [confined_intros]: "confined s0 M C i (found e x) (\<lambda>y. x = Some y)"
  by (rule conf_pure) (auto simp: found_def slift_def)

lemma conf_guard [confined_intros]: "confined s0 M C i (guard D req) (\<lambda>_. True)"
  by (rule conf_pure) (auto simp: guard_def slift_def)

lemma conf_user_id [confined_intros]: "confined s0 M C i (require_user_id D) (\<lambda>_. True)"
  by (rule conf_pure) (auto simp: require_user_id_def slift_def)

lemma conf_if:
  "(b \<Longrightarrow> confined s0 M C i m Q) \<Longrightarrow> (\<not> b \<Longrightarrow> confined s0 M C i m' Q) \<Longrightarrow>
     confined s0 M C i (if b then m else m') Q"
  by simp

lemma conf_option:
  "(x = None \<Longrightarrow> confined s0 M C i m Q) \<Longrightarrow> (\<And>y. x = Some y \<Longrightarrow> confined s0 M C i (f y) Q) \<Longrightarrow>
     confined s0 M C i (case x of None \<Rightarrow> m | Some y \<Rightarrow> f y) Q"
  by (cases x) simp_all

lemma conf_prod:
  "(\<And>a b. x = (a, b) \<Longrightarrow> confined s0 M C i (f a b) Q) \<Longrightarrow> confined s0 M C i (case x of (a, b) \<Rightarrow> f a b) Q"
  by (cases x) simp

lemma conf_let: "(\<And>x. x = a \<Longrightarrow> confined s0 M C i (f x) Q) \<Longrightarrow> confined s0 M C i (Let a f) Q"
  by simp

lemma conf_best_effort:
  assumes "confined s0 M C i m Q"
  shows "confined s0 M C i (best_effort m) (\<lambda>_. True)"
proof (rule confinedI)
  fix w r w' assume a: "within s0 M C i (w_db w)" "best_effort m w = (r, w')"
  obtain r1 w1 where m: "m w = (r1, w1)" by (cases "m w")
  have "w' = w1" using a(2) m by (auto simp: best_effort_def split: sum.splits)
  with confinedD [OF assms a(1) m] show "within s0 M C i (w_db w') \<and> (\<forall>x. r = Inr x \<longrightarrow> True)" by simp
qed

subsection \<open>Calls of a request alone on the desk\<close>

locale solo_desk = dynamo_handler d h + ix: index_service q for d h q +
  fixes D :: desk
  assumes handler: "dk_db D = h"
    and query: "dk_query D = q"
    and alone: "dk_others D n s = s"
    and recent: "tickets_kept (dk_view D n s) s"

interpretation solo: solo_desk ref_dynamo ref_handler ref_index quiet_desk
  by unfold_locales (simp_all add: quiet_desk_def)

definition of_instance :: "store \<Rightarrow> string \<Rightarrow> string \<Rightarrow> bool" where
  "of_instance s k i \<longleftrightarrow> (\<forall>it. tickets s k = Some it \<longrightarrow> it ''instance_id'' = Some (AS i))"

lemma keyed_kept:
  assumes "tickets_kept v s" "keyed s ''ticket''"
  shows "keyed v ''ticket''"
  unfolding keyed_def
proof (intro allI impI)
  fix k it assume "tickets v k = Some it"
  from tickets_keptD [OF assms(1) this] obtain it' where "tickets s k = Some it'" "same_ticket it it'" by blast
  with keyedD [OF assms(2) this(1)] show "it ''id'' = Some (AS k)" by (simp add: same_ticket_def)
qed

lemma kept_of_instance:
  assumes "tickets_kept s0 s" "knows s k i"
  shows "of_instance s0 k i"
  unfolding of_instance_def
proof (intro allI impI)
  fix it assume "tickets s0 k = Some it"
  from tickets_keptD [OF assms(1) this] obtain it' where "tickets s k = Some it'" "same_ticket it it'" by blast
  with assms(2) show "it ''instance_id'' = Some (AS i)" by (auto simp: knows_def same_ticket_def)
qed

context solo_desk begin

lemma conf_call:
  assumes "\<And>n s r s'. within s0 M C i s \<Longrightarrow> m n s = (r, s') \<Longrightarrow>
      within s0 M C i s' \<and> (\<forall>x. r = Inr x \<longrightarrow> Q x)"
  shows "confined s0 M C i (call D m) Q"
proof (rule confinedI)
  fix w r w' assume w: "within s0 M C i (w_db w)" and run: "call D m w = (r, w')"
  from run obtain s' where m: "m (w_n w) (w_db w) = (r, s')" and w': "w' = w\<lparr>w_db := s', w_n := Suc (w_n w)\<rparr>"
    by (auto simp: call_def Let_def alone split: prod.splits)
  from assms [OF w m] show "within s0 M C i (w_db w') \<and> (\<forall>x. r = Inr x \<longrightarrow> Q x)" by (simp add: w')
qed

lemma conf_read_knowing:
  assumes "\<And>n s x. within s0 M C i s \<Longrightarrow> f (dk_view D n s) = Inr x \<Longrightarrow> Q x"
  shows "confined s0 M C i (db_read D f) Q"
  unfolding db_read_def by (rule conf_call) (use assms in \<open>auto simp: db_error_of_def\<close>)

lemma conf_read [confined_intros]: "confined s0 M C i (db_read D f) (\<lambda>_. True)"
  by (rule conf_read_knowing) simp

lemma conf_quiet: "confined s0 M C i (call D (\<lambda>n s. (f n s, s))) (\<lambda>_. True)"
  by (rule conf_call) simp

lemma conf_read2 [confined_intros]: "confined s0 M C i (db_read2 D f) (\<lambda>_. True)"
  unfolding db_read2_def by (rule conf_bind [OF conf_quiet conf_read])

lemma conf_ticks [confined_intros]:
  "confined s0 M C i (now_sec D) (\<lambda>_. True)"
  "confined s0 M C i (new_id D) (\<lambda>_. True)"
  "confined s0 M C i (generate_nonce D) (\<lambda>_. True)"
  "confined s0 M C i (object_size D key) (\<lambda>_. True)"
  unfolding now_sec_def new_id_def generate_nonce_def object_size_def by (rule conf_quiet)+

lemma conf_logged:
  assumes "confined s0 M C i m Q" "\<And>w. w_db (g w) = w_db w"
  shows "confined s0 M C i (\<lambda>w. m (g w)) Q"
  by (rule confinedI, rule confinedD [OF assms(1)]) (simp_all add: assms(2))

lemma conf_send [confined_intros]: "confined s0 M C i (send_raw D raw to cc) (\<lambda>_. True)"
  unfolding send_raw_def [abs_def] by (rule conf_logged [OF conf_quiet]) simp

lemma conf_storage [confined_intros]: "confined s0 M C i (storage_put D sc) (\<lambda>_. True)"
  unfolding storage_put_def [abs_def] by (rule conf_logged [OF conf_quiet]) simp

lemma conf_reads [confined_intros]:
  "confined s0 M C i (get_instance D j) (\<lambda>_. True)"
  "confined s0 M C i (inbound_addresses D j) (\<lambda>_. True)"
  "confined s0 M C i (messages_of D j) (\<lambda>_. True)"
  unfolding get_instance_def inbound_addresses_def messages_of_def by (rule conf_read)+

lemma read_ticket:
  assumes "keyed s ''ticket''" "get_tickets h [k] (dk_view D n s) = Inr rs" "first_row rs = Some t"
  shows "tkt_id t = k \<and> knows s k (tkt_instance_id t)"
proof -
  let ?v = "dk_view D n s"
  have kv: "keyed ?v ''ticket''" by (rule keyed_kept [OF recent assms(1)])
  have "list_all2 (\<lambda>i r. hydrated hydrate_ticket (?v ''ticket'' i) = Inr r) [k] rs"
    by (rule get_records_spec [OF assms(2) [unfolded get_tickets_def] svc id_hydrate_ticket kv]) simp
  from single_row [OF this assms(3)] obtain it where it: "?v ''ticket'' k = Some it" "hydrate_ticket it = Inr t"
    by (auto simp: hydrated_def split: option.splits)
  have "knows ?v k (tkt_instance_id t)" using it hydrate_ticketD [OF it(2)] by (simp add: knows_def)
  moreover have "tkt_id t = k" using keyedD [OF kv it(1)] hydrate_ticketD [OF it(2)] by simp
  ultimately show ?thesis using knows_kept [OF recent] by blast
qed

lemma conf_get_ticket [confined_intros]:
  "confined s0 M C i (get_ticket D k)
     (\<lambda>row. \<forall>t. row = Some t \<longrightarrow> tkt_id t = k \<and> of_instance s0 k (tkt_instance_id t))"
  unfolding get_ticket_def
proof (rule conf_read_knowing, intro allI impI)
  fix n s x t
  assume a: "within s0 M C i s" "rbind (get_tickets (dk_db D) [k] (dk_view D n s)) (\<lambda>rs. Inr (first_row rs)) = Inr x"
    "x = Some t"
  then obtain rs where "get_tickets h [k] (dk_view D n s) = Inr rs" "first_row rs = Some t"
    by (auto simp: handler)
  from read_ticket [OF withinD(2) [OF a(1)] this] kept_of_instance [OF withinD(1) [OF a(1)]]
  show "tkt_id t = k \<and> of_instance s0 k (tkt_instance_id t)" by blast
qed

end

subsection \<open>Writes of a request alone on the desk\<close>

lemma message_actions_keep: "(fold (apply_action ss) (message_actions ch) it) ''ticket_id'' = it ''ticket_id''"
  by (cases ch) simp_all

lemma opt_attr_other: "b \<noteq> a \<Longrightarrow> opt_attr a v it b = it b"
  by (simp add: opt_attr_def split: option.splits)

lemma set_attr_other: "b \<noteq> a \<Longrightarrow> set_attr ss a xs it b = it b"
  by (simp add: set_attr_def)

lemma message_row_ticket:
  "message_row ss j now k kind author from_email to cc text html irt refs ''ticket_id'' = Some (AS k)"
  by (simp add: message_row_def opt_attr_other set_attr_other)

lemma put_fresh:
  assumes "commits ss s [Put t j row (CNotExists a)] s'"
  shows "attrs_of (s t j) a = None" "s' t j = Some row" "(t', j') \<noteq> (t, j) \<Longrightarrow> s' t' j' = s t' j'"
  using assms by (auto simp: commits_single cond_holds_def apply_write_def set_row_def)

lemma update_existing:
  assumes "commits ss s [Update t a j acts (CExists b)] s'"
  obtains it where "s t j = Some it" "s' t j = Some (fold (apply_action ss) acts it)"
    "\<forall>t' j'. (t', j') \<noteq> (t, j) \<longrightarrow> s' t' j' = s t' j'"
proof -
  from assms have c: "attrs_of (s t j) b \<noteq> None" and s': "s' = apply_write ss (Update t a j acts (CExists b)) s"
    by (auto simp: commits_single cond_holds_def)
  then obtain it where "s t j = Some it" by (cases "s t j") (auto simp: attrs_of_def)
  with s' show ?thesis using that by (auto simp: apply_write_def set_row_def update_base_def)
qed

context solo_desk begin

lemma conf_write:
  assumes "\<And>n s r s'. within s0 M C i s \<Longrightarrow> m n s = (r, s') \<Longrightarrow>
      within s0 M C i s' \<and> (\<forall>x. r = Inr x \<longrightarrow> Q x)"
  shows "confined s0 M C i (db_write D m) Q"
  unfolding db_write_def
proof (rule conf_call)
  fix n s r s' assume a: "within s0 M C i s" "(let (r, s') = m n s in (db_error_of r, s')) = (r, s')"
  then obtain r1 where "m n s = (r1, s')" "r = db_error_of r1" by (auto split: prod.splits)
  with assms [OF a(1)] show "within s0 M C i s' \<and> (\<forall>x. r = Inr x \<longrightarrow> Q x)" by (auto simp: db_error_of_def)
qed

lemma conf_new_message:
  assumes "M k" "keyed s0 ''ticket_message''"
  shows "confined s0 M C i (new_message D k kind author from_email to cc text html irt refs)
    (\<lambda>msg. s0 ''ticket_message'' (msg_id msg) = None)"
  unfolding new_message_def
proof (rule conf_write)
  fix n s r s'
  assume w: "within s0 M C i s" and run: "create_ticket_message (dk_db D) (dk_id D n) (dk_clock D n) k kind author
      from_email to cc text html irt refs s = (r, s')"
  let ?j = "dk_id D n"
  let ?row = "message_row (dy_ss (h_svc h)) ?j (dk_clock D n) k kind author from_email to cc text html irt refs"
  let ?req = "Put ''ticket_message'' ?j ?row (CNotExists ''id'')"
  from run obtain r1 where sp: "send_plain h ?req s = (r1, s')"
    and r: "\<And>x. r = Inr x \<Longrightarrow> r1 = Inr () \<and> msg_id x = ?j"
    by (auto simp: create_ticket_message_def handler Let_def split: prod.splits)
  have put: "within s0 M C i s' \<and> s0 ''ticket_message'' ?j = None" if u: "commits (dy_ss d) s [?req] s'"
  proof -
    note p = put_fresh [OF u]
    have free: "s0 ''ticket_message'' ?j = None"
    proof (rule ccontr)
      assume a: "s0 ''ticket_message'' ?j \<noteq> None"
      then have "s ''ticket_message'' ?j = s0 ''ticket_message'' ?j"
        by (intro withinD(3) [OF w]) (simp_all add: may_change_def)
      with a obtain it where "s ''ticket_message'' ?j = Some it" "s0 ''ticket_message'' ?j = Some it" by auto
      with p(1) keyedD [OF assms(2) this(2)] show False by (simp add: attrs_of_def)
    qed
    have "within s0 M C i s'"
      by (rule within_write [OF w, where t' = "''ticket_message''" and j' = ?j])
        (use free p(2,3) assms(1) message_row_ticket in \<open>auto simp: new_row_def\<close>)
    with free show ?thesis by simp
  qed
  show "within s0 M C i s' \<and> (\<forall>x. r = Inr x \<longrightarrow> s0 ''ticket_message'' (msg_id x) = None)"
  proof (cases "s' = s \<and> (\<forall>x. r \<noteq> Inr x)")
    case False
    then have "commits (dy_ss d) s [?req] s'" using plain_any [OF sp] plain_ok [of ?req s] sp r by blast
    with put r show ?thesis by auto
  qed (use w in simp)
qed

lemma conf_write_message:
  assumes "s0 ''ticket_message'' j = None"
  shows "confined s0 M C i (write_message D j ch) (\<lambda>_. True)"
  unfolding write_message_def
proof (rule conf_write)
  fix n s r s'
  assume w: "within s0 M C i s" and run: "update_ticket_message (dk_db D) j ch s = (r, s')"
  from existing_any [OF run [unfolded update_ticket_message_def handler]]
  show "within s0 M C i s' \<and> (\<forall>x. r = Inr x \<longrightarrow> True)"
  proof
    assume u: "commits (dy_ss d) s [Update ''ticket_message'' ''id'' j (message_actions ch) (CExists ''id'')] s'"
    obtain it where it: "s ''ticket_message'' j = Some it"
      "s' ''ticket_message'' j = Some (fold (apply_action (dy_ss d)) (message_actions ch) it)"
      "\<forall>t' j'. (t', j') \<noteq> (''ticket_message'', j) \<longrightarrow> s' t' j' = s t' j'" by (rule update_existing [OF u])
    have "new_row M C i ''ticket_message'' j it" by (rule withinD(4) [OF w assms it(1)])
    then have "within s0 M C i s'"
      by (intro within_write [OF w, where t' = "''ticket_message''" and j' = j])
        (use assms it in \<open>auto simp: new_row_def message_actions_keep\<close>)
    then show ?thesis by simp
  qed (use w in simp)
qed

lemma conf_write_ticket:
  assumes "M k"
  shows "confined s0 M C i (write_ticket D k ch) (\<lambda>_. True)"
  unfolding write_ticket_def
proof (rule conf_write)
  fix n s r s'
  assume w: "within s0 M C i s" and run: "update_ticket (dk_db D) k ch s = (r, s')"
  from existing_any [OF run [unfolded update_ticket_def handler]]
  show "within s0 M C i s' \<and> (\<forall>x. r = Inr x \<longrightarrow> True)"
  proof
    assume u: "commits (dy_ss d) s [update_ticket_req k ch] s'"
    then obtain it where it: "tickets s k = Some it"
      "s' = s(''ticket'' := (tickets s)(k \<mapsto> changed_row (dy_ss d) ch it))" using update_ticket_effect by blast
    have same: "same_ticket it (changed_row (dy_ss d) ch it)" by (rule changed_row_same)
    have key: "it ''id'' = Some (AS k)" by (rule keyedD [OF withinD(2) [OF w] it(1)])
    have "s0 ''ticket'' k = None \<Longrightarrow> new_row M C i ''ticket'' k it" using withinD(4) [OF w] it(1) by blast
    then have "within s0 M C i s'"
      by (intro within_write [OF w, where t' = "''ticket''" and j' = k])
        (use assms it same key in \<open>auto simp: new_row_def may_change_def same_ticket_def\<close>)
    then show ?thesis by simp
  qed (use w in simp)
qed

lemma conf_claim [confined_intros]:
  "confined s0 M C i (db_write D (\<lambda>n. claim_processed_message (dk_db D) sid now until)) (\<lambda>_. True)"
proof (rule conf_write)
  fix n s r s'
  assume w: "within s0 M C i s" and run: "claim_processed_message (dk_db D) sid now until s = (r, s')"
  from single.op_any [OF run [unfolded claim_processed_message_def handler]]
  show "within s0 M C i s' \<and> (\<forall>x. r = Inr x \<longrightarrow> True)"
  proof
    assume u: "commits (dy_ss d) s [Put ''processed_message'' sid
        [''ses_message_id'' \<mapsto> AS sid, ''processed_at'' \<mapsto> AN (int now), ''expires_at'' \<mapsto> AN (int until)]
        (CNotExists ''ses_message_id'')] s'"
    then have "within s0 M C i s'"
      by (intro within_write [OF w, where t' = "''processed_message''" and j' = sid])
        (use put_fresh(3) [OF u] in \<open>auto simp: new_row_def may_change_def\<close>)
    then show ?thesis by simp
  qed (use w in simp)
qed

lemma conf_number:
  assumes "C k"
  shows "confined s0 M C i (next_ticket_number D k) (\<lambda>_. True)"
  unfolding next_ticket_number_def
proof (rule conf_write)
  fix n s r s'
  assume w: "within s0 M C i s" and run: "increment_ticket_counter (dk_db D) k s = (r, s')"
  then obtain r1 where "send_plain h (increment_ticket_counter_req k) s = (r1, s')"
    by (auto simp: increment_ticket_counter_def handler Let_def split: prod.splits)
  from plain_any [OF this] show "within s0 M C i s' \<and> (\<forall>x. r = Inr x \<longrightarrow> True)"
  proof
    assume u: "commits (dy_ss d) s [increment_ticket_counter_req k] s'"
    have other: "s' t j = s t j" if "(t, j) \<noteq> (''counter'', k)" for t j
      using commits_other [OF u, of t j] that by (auto simp: increment_ticket_counter_req_def)
    have "within s0 M C i s'"
      by (rule within_write [OF w, where t' = "''counter''" and j' = k])
        (use assms other in \<open>auto simp: new_row_def may_change_def\<close>)
    then show ?thesis by simp
  qed (use w in simp)
qed

lemma conf_new_ticket:
  assumes "\<And>k. s0 ''ticket'' k = None \<Longrightarrow> M k"
  shows "confined s0 M C i (new_ticket D i n subject rs cs)
    (\<lambda>t. s0 ''ticket'' (tkt_id t) = None \<and> tkt_instance_id t = i)"
  unfolding new_ticket_def
proof (rule conf_write)
  fix m s r s'
  let ?k = "dk_id D m"
  let ?row = "ticket_row (dy_ss (h_svc h)) ?k (dk_clock D m) (dk_token D m) i n subject rs cs"
  assume w: "within s0 M C i s" and run: "create_ticket (dk_db D) ?k (dk_clock D m) (dk_token D m) i n subject rs cs s = (r, s')"
  then obtain r1 where sp: "send_plain h (Put ''ticket'' ?k ?row (CNotExists ''id'')) s = (r1, s')"
    and r: "\<And>t. r = Inr t \<Longrightarrow> r1 = Inr () \<and> tkt_id t = ?k \<and> tkt_instance_id t = i"
    by (auto simp: create_ticket_def create_ticket_req_def handler Let_def split: prod.splits)
  have put: "within s0 M C i s' \<and> s0 ''ticket'' ?k = None"
    if u: "commits (dy_ss d) s [Put ''ticket'' ?k ?row (CNotExists ''id'')] s'"
  proof -
    note p = put_fresh [OF u]
    have new: "s ''ticket'' ?k = None"
    proof (cases "s ''ticket'' ?k")
      case (Some it)
      with p(1) keyedD [OF withinD(2) [OF w] Some] show ?thesis by (simp add: attrs_of_def)
    qed
    have free: "s0 ''ticket'' ?k = None"
    proof (cases "s0 ''ticket'' ?k")
      case (Some it)
      with tickets_keptD [OF withinD(1) [OF w] Some] new show ?thesis by simp
    qed
    have "within s0 M C i s'"
      by (rule within_write [OF w, where t' = "''ticket''" and j' = ?k])
        (use free new p(2,3) assms in \<open>auto simp: new_row_def ticket_row_fields\<close>)
    with free show ?thesis by simp
  qed
  show "within s0 M C i s' \<and> (\<forall>t. r = Inr t \<longrightarrow> s0 ''ticket'' (tkt_id t) = None \<and> tkt_instance_id t = i)"
  proof (cases "s' = s \<and> (\<forall>t. r \<noteq> Inr t)")
    case False
    then have "commits (dy_ss d) s [Put ''ticket'' ?k ?row (CNotExists ''id'')] s'"
      using plain_any [OF sp] plain_ok [of "Put ''ticket'' ?k ?row (CNotExists ''id'')" s] sp r by blast
    with put r show ?thesis by auto
  qed (use w in simp)
qed

end

subsection \<open>The ticket mutations\<close>

context solo_desk begin

lemma conf_required [confined_intros]: "confined s0 M C i (required_text a b) (\<lambda>_. True)"
  unfolding required_text_def by (rule conf_end confined_intros conf_bind)+

lemma conf_instance_addresses [confined_intros]: "confined s0 M C i (load_instance_and_addresses D j) (\<lambda>_. True)"
  unfolding load_instance_and_addresses_def by (rule conf_end confined_intros conf_bind)+

lemma conf_outbound [confined_intros]:
  "confined s0 M C i (outbound_message D instance addresses t to cc body th) (\<lambda>_. True)"
  unfolding outbound_message_def
  by (rule conf_bind [OF conf_ticks(3)], rule conf_weaken [OF conf_lift]) simp

lemma conf_done: "confined s0 M C i m Q \<Longrightarrow> confined s0 M C i m (\<lambda>_. True)"
  by (rule conf_weaken) simp_all

lemma conf_system_notification:
  assumes "M (tkt_id t)" "keyed s0 ''ticket_message''"
  shows "confined s0 M C i (send_system_notification D t to cc body) (\<lambda>_. True)"
  unfolding send_system_notification_def system_notification_def
  by (rule conf_end conf_best_effort confined_intros conf_prod conf_write_message
      conf_new_message [where M = M and k = "tkt_id t", OF assms] conf_bind | assumption)+

lemma conf_notices: "confined s0 M C i (send_notices D instance t event actor new excerpt rcs) (\<lambda>_. True)"
proof (induction rcs)
  case (Cons rc rcs)
  show ?case unfolding send_notices.simps build_staff_mime_def
    by (rule Cons.IH conf_end conf_best_effort confined_intros conf_prod conf_bind)+
qed (simp add: conf_end)

lemma conf_notify_staff [confined_intros]:
  "confined s0 M C i (notify_staff D t assignee event actor body) (\<lambda>_. True)"
  unfolding notify_staff_def notify_members_def
  by (rule conf_if conf_let conf_notices conf_end conf_best_effort confined_intros conf_prod conf_bind)+

lemma conf_move [confined_intros]: "confined s0 M C i (move_attachments D t m n keys) (\<lambda>_. True)"
proof (induction keys arbitrary: n)
  case (Cons key keys)
  show ?case unfolding move_attachments.simps
    by (rule Cons.IH conf_let conf_end conf_best_effort confined_intros conf_bind)+
qed (simp add: conf_end)

lemma conf_check_assignee [confined_intros]: "confined s0 M C i (check_assignee D t a) (\<lambda>_. True)"
  unfolding check_assignee_def
  by (rule conf_option conf_end conf_read conf_done [OF conf_ensure] conf_bind)+

lemma conf_status_mail:
  assumes "M (tkt_id t)" "keyed s0 ''ticket_message''"
  shows "confined s0 M C i (status_mail D t st) (\<lambda>_. True)"
  unfolding status_mail_def by (rule conf_option conf_end conf_system_notification [where M = M and t = t, OF assms])+

end

text \<open>What the member check establishes.\<close>

definition member_of :: "desk \<Rightarrow> string \<Rightarrow> bool" where
  "member_of D i \<longleftrightarrow>
     (case dk_auth D of Some (User u ms su tk g) \<Rightarrow> is_member ms i | _ \<Rightarrow> False)"

context solo_desk begin

lemma member_read:
  assumes "require_ticket_member D k w = (r, w')" "keyed (w_db w) ''ticket''"
  shows "w_db w' = w_db w
    \<and> (\<forall>t. r = Inr t \<longrightarrow> tkt_id t = k \<and> knows (w_db w) k (tkt_instance_id t) \<and> member_of D (tkt_instance_id t))"
proof -
  let ?v = "dk_view D (w_n w) (w_db w)"
  have g: "get_ticket D k w = (db_error_of (rbind (get_tickets h [k] ?v) (\<lambda>rs. Inr (first_row rs))),
      w\<lparr>w_n := Suc (w_n w)\<rparr>)"
    by (simp add: get_ticket_def db_read_def call_def Let_def alone handler)
  show ?thesis
  proof (cases "get_tickets h [k] ?v")
    case (Inl e)
    then show ?thesis using assms(1) g by (auto simp: require_ticket_member_def sbind_def db_error_of_def)
  next
    case (Inr rs)
    then have g': "get_ticket D k w = (Inr (first_row rs), w\<lparr>w_n := Suc (w_n w)\<rparr>)" using g by (simp add: db_error_of_def)
    show ?thesis
    proof (cases "first_row rs")
      case None
      then show ?thesis using assms(1) g' by (auto simp: require_ticket_member_def sbind_def found_def slift_def)
    next
      case (Some t)
      note rt = read_ticket [OF assms(2) Inr Some]
      have "w_db w' = w_db w \<and> (\<forall>x. r = Inr x \<longrightarrow> x = t \<and> member_of D (tkt_instance_id t))"
        using assms(1) g' Some
        by (auto simp: require_ticket_member_def sbind_def found_def slift_def sensure_api_def sensure_def
            sreturn_def member_of_def split: option.splits auth_info.splits sum.splits if_splits)
      with rt show ?thesis by auto
    qed
  qed
qed

lemma member_guarded:
  assumes "\<And>t. tkt_id t = k \<Longrightarrow> confined (w_db w) (\<lambda>j. j = k) (\<lambda>_. False) (tkt_instance_id t) (rest t) (\<lambda>_. True)"
    and "sbind (guard D req) (\<lambda>_. sbind (require_ticket_member D k) rest) w = (r, w')" "keyed (w_db w) ''ticket''"
  shows "w_db w' = w_db w
    \<or> (\<exists>i. member_of D i \<and> knows (w_db w) k i \<and> within (w_db w) (\<lambda>j. j = k) (\<lambda>_. False) i (w_db w'))"
proof -
  obtain r1 w1 where m: "require_ticket_member D k w = (r1, w1)" by (cases "require_ticket_member D k w")
  note q = member_read [OF m assms(3)]
  show ?thesis
  proof (cases "\<exists>t. r1 = Inr t \<and> rest t w1 = (r, w')")
    case True
    then obtain t where t: "r1 = Inr t" "rest t w1 = (r, w')" by blast
    have "within (w_db w) (\<lambda>j. j = k) (\<lambda>_. False) (tkt_instance_id t) (w_db w1)"
      using q within_refl [OF assms(3)] by simp
    from confinedD [OF assms(1) this t(2)] q t(1) show ?thesis by blast
  next
    case False
    then have "w' = w \<or> w' = w1"
      using assms(2) m by (auto simp: sbind_def guard_def slift_def split: sum.splits prod.splits)
    with q show ?thesis by auto
  qed
qed

text \<open>The bodies of the mutations after the member check.\<close>

lemma conf_updates:
  assumes "tkt_id t = k"
  shows "confined s0 (\<lambda>j. j = k) C i (sbind (now_sec D) (\<lambda>now. sbind (write_ticket D (tkt_id t) (ch now)) (\<lambda>_. sreturn (f now)))) (\<lambda>_. True)"
  by (rule conf_bind [OF conf_ticks(1)], rule conf_bind [OF conf_write_ticket]) (simp_all add: assms conf_end)

lemma conf_edit:
  assumes "tkt_id t = k"
  shows "confined s0 (\<lambda>j. j = k) C i (sbind (slift e) (\<lambda>x. sbind (now_sec D) (\<lambda>now.
      sbind (write_ticket D (tkt_id t) (ch x now)) (\<lambda>_. sreturn (f x now))))) (\<lambda>_. True)"
  by (rule conf_bind [OF conf_lift conf_updates]) (rule assms)

lemma conf_remove:
  assumes "tkt_id t = k"
  shows "confined s0 (\<lambda>j. j = k) C i (sbind (slift e) (\<lambda>x. sbind (sensure_api (b x) err) (\<lambda>_. sbind (now_sec D) (\<lambda>now.
      sbind (write_ticket D (tkt_id t) (ch x now)) (\<lambda>_. sreturn (f x now)))))) (\<lambda>_. True)"
  by (rule conf_bind [OF conf_lift], rule conf_bind [OF conf_ensure conf_updates]) (rule assms)

end

definition isolated :: "desk \<Rightarrow> string \<Rightarrow> store \<Rightarrow> store \<Rightarrow> bool" where
  "isolated D k s s' \<longleftrightarrow>
     s' = s \<or> (\<exists>i. member_of D i \<and> knows s k i \<and> within s (\<lambda>j. j = k) (\<lambda>_. False) i s')"

context solo_desk begin

lemma conf_reply:
  assumes t: "tkt_id t = k" and key: "keyed s0 ''ticket_message''"
  shows "confined s0 (\<lambda>j. j = k) C i (sbind (new_message D (tkt_id t) Reply u None to cc body None irt refs) (\<lambda>msg.
     sbind (now_sec D) (\<lambda>now.
     sbind (write_ticket D (tkt_id t) (Touch now)) (\<lambda>_.
     sbind (move_attachments D t (msg_id msg) 0 keys) (\<lambda>stored.
     sbind (if stored = [] then sreturn ()
            else sbind (write_message D (msg_id msg) (SetAttachments stored)) (\<lambda>_.
                 write_ticket D (tkt_id t) MarkHasAttachments)) (\<lambda>_.
     sbind (send_raw D raw to cc) (\<lambda>rid.
     sbind (write_message D (msg_id msg) (SetRfcMessageId rid)) (\<lambda>_.
     sbind (notify_staff D t a AgentReply actor note) (\<lambda>_.
     sreturn (f msg rid stored)))))))))) (\<lambda>_. True)"
  by (rule conf_bind [OF conf_new_message [where M = "\<lambda>j. j = k" and k = "tkt_id t", OF t key]])
    (rule conf_end conf_if confined_intros conf_write_message conf_write_ticket conf_bind t | assumption)+

lemma conf_note:
  assumes t: "tkt_id t = k" and key: "keyed s0 ''ticket_message''"
  shows "confined s0 (\<lambda>j. j = k) C i (sbind (new_message D (tkt_id t) Note u None [] [] body None None None) (\<lambda>msg.
     sbind (now_sec D) (\<lambda>now.
     sbind (write_ticket D (tkt_id t) (Touch now)) (\<lambda>_.
     sbind (notify_staff D t a InternalNote actor note) (\<lambda>_.
     sreturn msg))))) (\<lambda>_. True)"
  by (rule conf_bind [OF conf_new_message [where M = "\<lambda>j. j = k" and k = "tkt_id t", OF t key]])
    (rule conf_end confined_intros conf_write_ticket conf_bind t)+

lemma conf_status:
  assumes t: "tkt_id t = k" and key: "keyed s0 ''ticket_message''"
  shows "confined s0 (\<lambda>j. j = k) C i (sbind (now_sec D) (\<lambda>now.
     sbind (write_ticket D (tkt_id t) (SetStatusAndAssignee j st a now)) (\<lambda>_.
     sbind (status_mail D t st) (\<lambda>_.
     sbind (if b then sreturn () else notify_staff D t' a' event actor note) (\<lambda>_.
     sreturn (f now)))))) (\<lambda>_. True)"
  by (rule conf_end conf_if confined_intros conf_write_ticket
      conf_status_mail [where M = "\<lambda>j. j = k" and t = t, OF t key] conf_bind t)+

lemma conf_assign:
  assumes t: "tkt_id t = k"
  shows "confined s0 (\<lambda>j. j = k) C i (sbind (check_assignee D t a) (\<lambda>_. sbind (now_sec D) (\<lambda>now.
     sbind (write_ticket D (tkt_id t) (SetStatusAndAssignee j st a now)) (\<lambda>_.
     sbind (if b then sreturn () else notify_staff D t a event actor note) (\<lambda>_.
     sreturn (f now)))))) (\<lambda>_. True)"
  by (rule conf_end conf_if confined_intros conf_write_ticket conf_bind t)+

lemma conf_upload:
  "confined s0 M C i (sbind (new_id D) (\<lambda>unique. let key = g unique in
     sbind (slift (p key)) (\<lambda>url. sreturn (key, url)))) (\<lambda>_. True)"
  by (rule conf_end conf_let confined_intros conf_bind)+

text \<open>Each mutation on a ticket is isolated.\<close>

lemma isolated_mutations:
  assumes key: "keyed (w_db w) ''ticket''" "keyed (w_db w) ''ticket_message''"
  shows
  "m_create_attachment_upload D k name ct w = (r1, w') \<Longrightarrow> isolated D k (w_db w) (w_db w')"
  "m_reply_to_ticket D k body keys w = (r2, w') \<Longrightarrow> isolated D k (w_db w) (w_db w')"
  "m_add_internal_note D k body w = (r2, w') \<Longrightarrow> isolated D k (w_db w) (w_db w')"
  "m_set_ticket_status D k st w = (r3, w') \<Longrightarrow> isolated D k (w_db w) (w_db w')"
  "m_assign_ticket D k a w = (r3, w') \<Longrightarrow> isolated D k (w_db w) (w_db w')"
  "m_add_ticket_requester D k email w = (r3, w') \<Longrightarrow> isolated D k (w_db w) (w_db w')"
  "m_remove_ticket_requester D k email w = (r3, w') \<Longrightarrow> isolated D k (w_db w) (w_db w')"
  "m_add_ticket_cc D k email w = (r3, w') \<Longrightarrow> isolated D k (w_db w) (w_db w')"
  "m_remove_ticket_cc D k email w = (r3, w') \<Longrightarrow> isolated D k (w_db w) (w_db w')"
  unfolding isolated_def m_create_attachment_upload_def m_reply_to_ticket_def m_add_internal_note_def
    m_set_ticket_status_def m_assign_ticket_def m_add_ticket_requester_def m_remove_ticket_requester_def
    m_add_ticket_cc_def m_remove_ticket_cc_def
  by (erule member_guarded [rotated, OF _ key(1)],
      (rule conf_upload conf_edit conf_remove conf_assign conf_status [OF _ key(2)] conf_note [OF _ key(2)]
        conf_reply [OF _ key(2)] conf_let conf_if conf_end confined_intros conf_bind | assumption)+)+

end

subsection \<open>The property\<close>

fun ticket_of :: "desk_request \<Rightarrow> string option" where
  "ticket_of (CreateAttachmentUpload k name ct) = Some k"
| "ticket_of (ReplyToTicket k body keys) = Some k"
| "ticket_of (AddInternalNote k body) = Some k"
| "ticket_of (SetTicketStatus k st) = Some k"
| "ticket_of (AssignTicket k a) = Some k"
| "ticket_of (AddTicketRequester k e) = Some k"
| "ticket_of (RemoveTicketRequester k e) = Some k"
| "ticket_of (AddTicketCc k e) = Some k"
| "ticket_of (RemoveTicketCc k e) = Some k"
| "ticket_of _ = None"

lemma answered_ran: "answered m w = (r, w') \<Longrightarrow> \<exists>r1. m w = (r1, w')"
  by (auto simp: answered_def sbind_def sreturn_def split: prod.splits sum.splits)

context solo_desk begin

lemma isolated_request:
  assumes "keyed (w_db w) ''ticket''" "keyed (w_db w) ''ticket_message''" "ticket_of req = Some k"
    and "run_request D parse req w = (r, w')"
  shows "isolated D k (w_db w) (w_db w')"
proof -
  note iso = isolated_mutations [OF assms(1,2)]
  note run = assms(4) and at = assms(3)
  show ?thesis
    by (cases req; insert run at; simp; drule answered_ran; elim exE; drule iso; assumption)
qed

end

text \<open>
  C15. A request on a ticket touches that ticket only, and only for a member of its instance. A
  ticket mutation that runs alone on the desk leaves the database as it was, or its caller is a
  user with a membership of the instance the ticket belongs to and the only rows that differ
  are the ticket itself, which keeps its identity, and new messages on it (or bookkeeping of
  processed mail): no other ticket, message, counter or row of any table changes or appears.
\<close>

theorem ticket_requests_isolated:
  assumes "solo_desk d h q D" "keyed (w_db w) ''ticket''" "keyed (w_db w) ''ticket_message''"
    and "ticket_of req = Some k" "run_request D parse req w = (r, w')"
  shows "w_db w' = w_db w
    \<or> (\<exists>i. member_of D i \<and> knows (w_db w) k i \<and> within (w_db w) (\<lambda>j. j = k) (\<lambda>_. False) i (w_db w'))"
  using solo_desk.isolated_request [OF assms] unfolding isolated_def .

definition member_desk :: desk where
  "member_desk =
     quiet_desk\<lparr>dk_auth := Some (User ''u1'' [\<lparr>am_instance_id = ''n1'', am_is_owner = False\<rparr>] False None None)\<rparr>"

lemma member_desk_solo: "solo_desk ref_dynamo ref_handler ref_index member_desk"
  by unfold_locales (simp_all add: member_desk_def quiet_desk_def)

lemma no_messages_yet: "keyed desk_db4 ''ticket_message''"
  by (simp add: keyed_def desk_db4_def desk_db3_def desk_db2_def desk_db1_def desk_db0_def apply_write_def set_row_def
      update_ticket_req_def create_ticket_req_def increment_ticket_counter_req_def)

theorem ticket_requests_isolated_witness:
  "w_db (snd (run_request member_desk (\<lambda>raw. None) (SetTicketStatus ''T1'' TOpen) quiet_world)) ''counter'' ''n1''
     = desk_db4 ''counter'' ''n1''"
proof -
  let ?run = "run_request member_desk (\<lambda>raw. None) (SetTicketStatus ''T1'' TOpen) quiet_world"
  have "keyed (w_db quiet_world) ''ticket''"
    using desk_ok_keyed [OF desk_reachable_ok [OF desk_demo4_reachable]] by (simp add: quiet_world_def desk_demo4_def tickets_kept_def)
  moreover have "keyed (w_db quiet_world) ''ticket_message''" using no_messages_yet by (simp add: quiet_world_def)
  moreover have "ticket_of (SetTicketStatus ''T1'' TOpen) = Some ''T1''" by simp
  ultimately have "w_db (snd ?run) = w_db quiet_world
      \<or> (\<exists>i. member_of member_desk i \<and> knows (w_db quiet_world) ''T1'' i
           \<and> within (w_db quiet_world) (\<lambda>j. j = ''T1'') (\<lambda>_. False) i (w_db (snd ?run)))"
    by (rule ticket_requests_isolated [OF member_desk_solo _ _ _ prod.collapse [symmetric]])
  moreover have "w_db quiet_world ''counter'' ''n1'' \<noteq> None"
    by (simp add: quiet_world_def desk_db4_def desk_db3_def desk_db2_def desk_db1_def desk_db0_def apply_write_def set_row_def
      update_ticket_req_def create_ticket_req_def increment_ticket_counter_req_def)
  ultimately show ?thesis using withinD(3) [of "w_db quiet_world" _ _ _ _ "''counter''" "''n1''"]
    by (auto simp: may_change_def quiet_world_def simp del: run_request.simps)
qed

end
