(* ===== verification/Inbound_Isolation.thy ===== *)
theory Inbound_Isolation
  imports Desk_Isolation
begin

section \<open>Inbound mail reaches one instance only\<close>

text \<open>
  The inbound pipeline alone on the desk. Up to the choice of the ticket it writes nothing but the
  claim of the message (\<open>untouched\<close>); the ticket found belongs to the instance a recipient
  address was registered for; what is filed after that stays within that instance.
\<close>

abbreviation nowhere :: "string \<Rightarrow> bool" where "nowhere \<equiv> \<lambda>_. False"

definition owned :: "store \<Rightarrow> string \<Rightarrow> ticket_lookup \<Rightarrow> bool" where
  "owned s0 i l = (case l of FoundTicket t \<Rightarrow> of_instance s0 (tkt_id t) i | _ \<Rightarrow> True)"

lemma owned_simps [simp]:
  "owned s0 i (FoundTicket t) = of_instance s0 (tkt_id t) i" "owned s0 i NoTicket" "owned s0 i CrossTenant"
  by (simp_all add: owned_def)

lemma owned_in_instance: "tkt_id t = k \<Longrightarrow> of_instance s0 k (tkt_instance_id t) \<Longrightarrow> owned s0 i (in_instance i t)"
  by (auto simp: in_instance_def)

context solo_desk begin

lemma conf_sum:
  "(\<And>a. x = Inl a \<Longrightarrow> confined s0 M C i (f a) Q) \<Longrightarrow> (\<And>b. x = Inr b \<Longrightarrow> confined s0 M C i (g b) Q) \<Longrightarrow>
     confined s0 M C i (case x of Inl a \<Rightarrow> f a | Inr b \<Rightarrow> g b) Q"
  by (cases x) simp_all

lemma conf_bind_ticket:
  assumes "\<And>t. tkt_id t = k \<Longrightarrow> of_instance s0 k (tkt_instance_id t) \<Longrightarrow> confined s0 M C i (f (Some t)) Q"
    and "confined s0 M C i (f None) Q"
  shows "confined s0 M C i (sbind (get_ticket D k) f) Q"
proof (rule conf_bind [OF conf_get_ticket])
  fix row :: "ticket option"
  assume "\<forall>t. row = Some t \<longrightarrow> tkt_id t = k \<and> of_instance s0 k (tkt_instance_id t)"
  with assms show "confined s0 M C i (f row) Q" by (cases row) simp_all
qed

lemma conf_tags: "confined s0 M C j (try_tags D i tags) (owned s0 i)"
proof (induction tags)
  case (Cons tag tags)
  show ?case unfolding try_tags.simps
    by (rule conf_bind_ticket) (simp_all add: Cons.IH conf_return owned_in_instance)
qed (simp add: conf_return)

lemma conf_message_ids: "confined s0 M C j (try_message_ids D i mids) (owned s0 i)"
proof (induction mids)
  case (Cons mid mids)
  show ?case unfolding try_message_ids.simps
    by (rule conf_bind [OF conf_read2], rule conf_option, simp add: Cons.IH, rule conf_bind_ticket)
      (simp_all add: Cons.IH conf_return owned_in_instance)
qed (simp add: conf_return)

lemma still_table:
  assumes "within s0 nowhere nowhere j s" "t \<noteq> ''processed_message''"
  shows "s t = s0 t"
proof
  fix k show "s t k = s0 t k"
  proof (cases "s0 t k")
    case None
    then show ?thesis using withinD(4) [OF assms(1) None] assms(2) by (cases "s t k") (auto simp: new_row_def)
  next
    case (Some it)
    then show ?thesis using withinD(3) [OF assms(1), of t k] assms(2) by (simp add: may_change_def)
  qed
qed

lemma conf_by_number:
  assumes "desk_ok c" "ds_db c = s0"
  shows "confined s0 nowhere nowhere j (try_number D i number) (owned s0 i)"
proof (cases number)
  case (Some n)
  have r: "confined s0 nowhere nowhere j (db_read D (get_ticket_id_by_instance_number (dk_query D) i n))
      (\<lambda>hit. \<forall>tid. hit = Some tid \<longrightarrow> of_instance s0 tid i)"
  proof (rule conf_read_knowing, intro allI impI)
    fix m s hit tid
    assume w: "within s0 nowhere nowhere j s"
      and run: "get_ticket_id_by_instance_number (dk_query D) i n (dk_view D m s) = Inr hit" and hit: "hit = Some tid"
    have "tickets_kept (dk_view D m s) (ds_db c)"
      using recent [of m s] still_table [OF w] assms(2) by (simp add: tickets_kept_def)
    from ix.number_owner [OF assms(1) this run [unfolded query hit]] show "of_instance s0 tid i"
      using assms(2) by (auto simp: of_instance_def knows_def)
  qed
  show ?thesis unfolding try_number_def Some option.case
    by (rule conf_bind [OF r], rule conf_option, simp add: conf_return, rule conf_bind_ticket)
      (auto intro!: conf_return)
qed (simp add: try_number_def conf_return)

lemma conf_resolve_ticket:
  assumes "desk_ok c" "ds_db c = s0"
  shows "confined s0 nowhere nowhere j (resolve_ticket D plan i) (owned s0 i)"
  unfolding resolve_ticket_def
  by (rule conf_bind [OF conf_tags], rule conf_if, rule conf_return, simp, rule conf_bind [OF conf_message_ids],
      rule conf_if, rule conf_return, simp, rule conf_by_number [OF assms])

end

subsection \<open>Routing\<close>

text \<open>A recipient reaches an instance by an address registered for it.\<close>

definition registered :: "desk \<Rightarrow> store \<Rightarrow> string list \<Rightarrow> string \<Rightarrow> bool" where
  "registered D s recipients i \<longleftrightarrow>
     (\<exists>r \<in> set recipients. \<exists>key \<in> set (lookup_keys (dk_lower D) r). \<exists>n s' a.
        s' ''inbound_address'' = s ''inbound_address''
        \<and> get_inbound_address (dk_db D) key (dk_view D n s') = Inr (Some a) \<and> ia_instance_id a = i)"

context solo_desk begin

lemma conf_first_known:
  assumes "set keys \<subseteq> set (lookup_keys (dk_lower D) r)"
  shows "confined s0 nowhere nowhere j (first_known D keys)
     (\<lambda>hit. \<forall>i. hit = Some i \<longrightarrow> registered D s0 [r] i)"
  using assms
proof (induction keys)
  case (Cons key keys)
  have read: "confined s0 nowhere nowhere j (db_read D (get_inbound_address (dk_db D) key))
      (\<lambda>row. \<forall>a. row = Some a \<longrightarrow> registered D s0 [r] (ia_instance_id a))"
  proof (rule conf_read_knowing, intro allI impI)
    fix n s x a
    assume "within s0 nowhere nowhere j s" "get_inbound_address (dk_db D) key (dk_view D n s) = Inr x" "x = Some a"
    then show "registered D s0 [r] (ia_instance_id a)"
      using still_table [of s0 j s "''inbound_address''"] Cons.prems
      unfolding registered_def by (intro bexI [of _ r] bexI [of _ key] exI [of _ n] exI [of _ s] exI [of _ a]) auto
  qed
  show ?case unfolding first_known.simps
    by (rule conf_bind [OF read], rule conf_option) (use Cons in \<open>auto intro: conf_return\<close>)
qed (simp add: conf_return)

lemma registered_mono: "registered D s rs i \<Longrightarrow> set rs \<subseteq> set rs' \<Longrightarrow> registered D s rs' i"
  unfolding registered_def by blast

lemma conf_resolve_instance:
  "confined s0 nowhere nowhere j (resolve_instance_id D rs) (\<lambda>hit. \<forall>i. hit = Some i \<longrightarrow> registered D s0 rs i)"
proof (induction rs)
  case (Cons r rs)
  have one: "registered D s0 [r] i \<Longrightarrow> registered D s0 (r # rs) i" for i by (erule registered_mono) simp
  have rest: "registered D s0 rs i \<Longrightarrow> registered D s0 (r # rs) i" for i by (erule registered_mono) auto
  show ?case unfolding resolve_instance_id.simps
    by (rule conf_bind [OF conf_first_known [OF subset_refl]], rule conf_option, rule conf_weaken [OF Cons.IH])
      (auto intro: conf_return one rest)
qed (simp add: conf_return)

lemma conf_route:
  "confined s0 nowhere nowhere j (route_mail D msg)
     (\<lambda>routed. \<forall>i sender. routed = Inr (i, sender) \<longrightarrow> registered D s0 (mail_recipients msg) i)"
  unfolding route_mail_def
  by (rule conf_option, rule conf_bind [OF conf_resolve_instance], rule conf_option, rule conf_return, simp,
      rule conf_bind [OF conf_reads(1)], rule conf_if, rule conf_return, simp, rule conf_option, rule conf_return, simp,
      rule conf_bind [OF conf_resolve_instance], rule conf_if; rule conf_return; simp)

end

subsection \<open>Filing\<close>

definition its_tickets :: "store \<Rightarrow> string \<Rightarrow> string \<Rightarrow> bool" where
  "its_tickets s0 i k \<longleftrightarrow> of_instance s0 k i"

lemma its_tickets_new: "s0 ''ticket'' k = None \<Longrightarrow> its_tickets s0 i k"
  by (simp add: its_tickets_def of_instance_def)

context solo_desk begin

lemma conf_store_attachments [confined_intros]:
  "confined s0 M C i (store_attachments D tid mid n parts) (\<lambda>_. True)"
proof (induction parts arbitrary: n)
  case (Cons part parts)
  show ?case unfolding store_attachments.simps
    by (rule Cons.IH conf_if conf_let conf_end confined_intros conf_bind)+
qed (simp add: conf_end)

lemma conf_notify_others:
  assumes "M (tkt_id t)" "keyed s0 ''ticket_message''"
  shows "confined s0 M C i (notify_others D t rs body) (\<lambda>_. True)"
  unfolding notify_others_def relay_def
  by (rule conf_end conf_best_effort confined_intros conf_prod conf_let conf_write_message
      conf_new_message [where M = M and k = "tkt_id t", OF assms] conf_bind | assumption)+

lemma conf_refetch:
  "confined s0 M C i (refetch D created t) (\<lambda>t'. tkt_id t' = tkt_id t)"
proof -
  have same: "tkt_id (unwrap_or t row) = tkt_id t"
    if "\<forall>t'. row = Some t' \<longrightarrow> tkt_id t' = tkt_id t \<and> of_instance s0 (tkt_id t) (tkt_instance_id t')" for row
    using that by (cases row) simp_all
  show ?thesis unfolding refetch_def
    by (rule conf_if, rule conf_return, simp, rule conf_bind [OF conf_get_ticket], rule conf_return, rule same)
qed

lemma conf_store_mail:
  assumes "M (tkt_id t)" "keyed s0 ''ticket_message''"
  shows "confined s0 M C i (store_mail D msg key sender t) (\<lambda>_. True)"
  unfolding store_mail_def
  by (rule conf_bind [OF conf_new_message [where M = M and k = "tkt_id t", OF assms]])
    (rule conf_end conf_if conf_option confined_intros conf_write_message conf_write_ticket assms(1) conf_bind | assumption)+

lemma conf_announce:
  assumes "M (tkt_id t)" "keyed s0 ''ticket_message''"
  shows "confined s0 M C i (announce D msg sender t created reopened) (\<lambda>_. True)"
  unfolding announce_def
  by (rule conf_end conf_if conf_let confined_intros conf_notify_others [where M = M and t = t, OF assms] conf_bind)+

lemma conf_append:
  assumes "M (tkt_id t)"
  shows "confined s0 M C i (append_to D now j sender t) (\<lambda>(t', _). M (tkt_id t'))"
proof -
  note w = conf_write_ticket [where M = M, OF assms]
  show ?thesis unfolding append_to_def Let_def
    by (rule conf_bind [OF conf_if [OF w conf_end]], rule conf_bind [OF conf_if [OF w w]], rule conf_return)
      (simp add: assms)
qed

lemma conf_open_mail:
  "confined s0 (its_tickets s0 i) (\<lambda>j. j = i) i (open_from_mail D i addresses msg sender)
     (\<lambda>(t', _). its_tickets s0 i (tkt_id t'))"
  unfolding open_from_mail_def Let_def
  by (rule conf_bind [OF conf_number [OF refl]], rule conf_bind [OF conf_new_ticket [OF its_tickets_new]],
      assumption, rule conf_return) (simp add: its_tickets_new)

lemma conf_file:
  assumes "keyed s0 ''ticket_message''" "\<And>t. resolved = Some t \<Longrightarrow> its_tickets s0 i (tkt_id t)"
  shows "confined s0 (its_tickets s0 i) (\<lambda>j. j = i) i (file_mail D now msg key i sender resolved) (\<lambda>_. True)"
proof -
  let ?M = "its_tickets s0 i"
  have pick: "confined s0 ?M (\<lambda>j. j = i) i
      (case resolved of Some t \<Rightarrow> append_to D now i sender t | None \<Rightarrow> open_from_mail D i addresses msg sender)
      (\<lambda>(t', _). ?M (tkt_id t'))" for addresses
    by (rule conf_option, rule conf_open_mail, rule conf_append, rule assms(2))
  show ?thesis unfolding file_mail_def
  proof (rule conf_bind [OF conf_reads(2)], rule conf_bind [OF pick], rule conf_prod, rule conf_prod, rule conf_prod,
      rule conf_bind [OF conf_refetch])
    fix picked :: "ticket \<times> bool \<times> bool \<times> bool" and t0 rest created rest2 added reopened and t :: ticket
    assume "case picked of (t', x) \<Rightarrow> ?M (tkt_id t')" "picked = (t0, rest)" "tkt_id t = tkt_id t0"
    then have t: "?M (tkt_id t)" by simp
    show "confined s0 ?M (\<lambda>j. j = i) i (sbind (store_mail D msg key sender t) (\<lambda>(message, stored).
       sbind (announce D msg sender t created reopened) (\<lambda>_.
       sreturn \<lparr>oc_dropped_reason = None, oc_ticket_id = Some (tkt_id t),
         oc_message_id = Some (msg_id message), oc_created_new_ticket = created, oc_reopened = reopened,
         oc_added_sender_as_cc = added, oc_attachment_count = length stored\<rparr>))) (\<lambda>_. True)"
      by (rule conf_bind [OF conf_store_mail [where M = ?M and t = t, OF t assms(1)]], rule conf_prod,
          rule conf_bind [OF conf_announce [where M = ?M and t = t, OF t assms(1)]], rule conf_end)
  qed
qed

end

subsection \<open>The whole pipeline\<close>

definition mail_effect :: "desk \<Rightarrow> store \<Rightarrow> string list \<Rightarrow> store \<Rightarrow> bool" where
  "mail_effect D s0 recipients s \<longleftrightarrow>
     within s0 nowhere nowhere [] s
     \<or> (\<exists>i. registered D s0 recipients i \<and> within s0 (its_tickets s0 i) (\<lambda>j. j = i) i s)"

lemma sbind_run:
  assumes "sbind m k w = (r, w')" "m w = (r1, w1)"
  shows "(\<exists>e. r1 = Inl e \<and> w' = w1) \<or> (\<exists>x. r1 = Inr x \<and> k x w1 = (r, w'))"
  using assms by (auto simp: sbind_def split: sum.splits)

context solo_desk begin

lemma mail_filed:
  assumes "desk_ok c" "ds_db c = s0" "keyed s0 ''ticket_message''"
    and "within s0 nowhere nowhere [] (w_db w)" "registered D s0 rs i"
    and "sbind (resolve_ticket D plan i) (\<lambda>lookup. case lookup of CrossTenant \<Rightarrow> sreturn (dropped why)
            | FoundTicket t \<Rightarrow> file_mail D now msg key i sender (Some t)
            | NoTicket \<Rightarrow> file_mail D now msg key i sender None) w = (r, w')"
  shows "mail_effect D s0 rs (w_db w')"
proof -
  obtain r1 w1 where m: "resolve_ticket D plan i w = (r1, w1)" by (cases "resolve_ticket D plan i w")
  note q = confinedD [OF conf_resolve_ticket [OF assms(1,2)] assms(4) m]
  note stay = within_mono [OF conjunct1 [OF q], of "its_tickets s0 i" "\<lambda>j. j = i" i]
  from sbind_run [OF assms(6) m] show ?thesis
  proof (elim disjE exE conjE)
    fix lookup assume l: "r1 = Inr lookup" and run: "(case lookup of CrossTenant \<Rightarrow> sreturn (dropped why)
            | FoundTicket t \<Rightarrow> file_mail D now msg key i sender (Some t)
            | NoTicket \<Rightarrow> file_mail D now msg key i sender None) w1 = (r, w')"
    show ?thesis
    proof (cases "lookup = CrossTenant")
      case True
      with run q show ?thesis by (simp add: sreturn_def mail_effect_def)
    next
      case False
      then obtain resolved where f: "file_mail D now msg key i sender resolved w1 = (r, w')"
        and t: "\<And>t. resolved = Some t \<Longrightarrow> lookup = FoundTicket t" using run by (cases lookup) auto
      have "\<And>t. resolved = Some t \<Longrightarrow> its_tickets s0 i (tkt_id t)" using q l t by (auto simp: its_tickets_def)
      from confinedD [OF conf_file [OF assms(3) this] stay f] assms(5)
      show ?thesis unfolding mail_effect_def by blast
    qed
  qed (use q in \<open>simp add: mail_effect_def\<close>)
qed

lemma mail_handled:
  assumes "desk_ok c" "ds_db c = s0" "keyed s0 ''ticket_message''"
    and "within s0 nowhere nowhere [] (w_db w)" "handle_mail D now msg key w = (r, w')"
  shows "mail_effect D s0 (mail_recipients msg) (w_db w')"
proof -
  obtain r1 w1 where m: "route_mail D msg w = (r1, w1)" by (cases "route_mail D msg w")
  note q = confinedD [OF conf_route assms(4) m]
  from sbind_run [OF assms(5) [unfolded handle_mail_def] m] show ?thesis
  proof (elim disjE exE conjE)
    fix routed assume l: "r1 = Inr routed" and run: "(case routed of Inl why \<Rightarrow> sreturn (dropped why)
       | Inr (instance_id, sender) \<Rightarrow>
         let plan = build_resolution_plan (dk_lower D) (mail_recipients msg)
                      (header_value_string (pm_in_reply_to msg)) (header_value_string (pm_references msg))
                      (mail_subject msg)
         in sbind (resolve_ticket D plan instance_id) (\<lambda>lookup. case lookup of
              CrossTenant \<Rightarrow> sreturn (dropped ''resolved ticket belongs to a different instance (cross-tenant reject)'')
            | FoundTicket t \<Rightarrow> file_mail D now msg key instance_id sender (Some t)
            | NoTicket \<Rightarrow> file_mail D now msg key instance_id sender None)) w1 = (r, w')"
    show ?thesis
    proof (cases routed)
      case (Inl why)
      with run q show ?thesis by (simp add: sreturn_def mail_effect_def)
    next
      case (Inr x)
      obtain i sender where x: "x = (i, sender)" by (cases x)
      from q l Inr x have "within s0 nowhere nowhere [] (w_db w1)" "registered D s0 (mail_recipients msg) i" by auto
      from mail_filed [OF assms(1-3) this run [unfolded Inr x sum.case prod.case Let_def]] show ?thesis .
    qed
  qed (use q in \<open>simp add: mail_effect_def\<close>)
qed

lemma mail_processed:
  assumes "desk_ok c" "ds_db c = w_db w" "keyed (w_db w) ''ticket_message''"
    and "process_raw_message D parse sid raw key w = (r, w')"
  shows "within (w_db w) nowhere nowhere [] (w_db w')
    \<or> (\<exists>msg. parse raw = Some msg \<and> mail_effect D (w_db w) (mail_recipients msg) (w_db w'))"
proof -
  let ?s = "w_db w"
  have k: "keyed ?s ''ticket''"
    using desk_ok_keyed [OF assms(1), of ?s] assms(2) by (simp add: tickets_kept_def)
  obtain r1 w1 where m1: "now_sec D w = (r1, w1)" by (cases "now_sec D w")
  note q1 = confinedD [OF conf_ticks(1) within_refl [OF k] m1, of nowhere nowhere "[]"]
  from sbind_run [OF assms(4) [unfolded process_raw_message_def] m1] show ?thesis
  proof (elim disjE exE conjE)
    fix now assume run: "sbind (db_write D (\<lambda>n. claim_processed_message (dk_db D) sid now
              (now + PROCESSED_MESSAGE_RETENTION_SECS))) (\<lambda>claimed.
       if \<not> claimed then sreturn (dropped ''duplicate SES message id'')
       else case parse raw of None \<Rightarrow> sreturn (dropped ''failed to parse as RFC 5322'')
          | Some msg \<Rightarrow> handle_mail D now msg key) w1 = (r, w')"
    obtain r2 w2 where m2: "db_write D (\<lambda>n. claim_processed_message (dk_db D) sid now
              (now + PROCESSED_MESSAGE_RETENTION_SECS)) w1 = (r2, w2)" by fastforce
    note q2 = confinedD [OF conf_claim conjunct1 [OF q1] m2]
    from sbind_run [OF run m2] show ?thesis
    proof (elim disjE exE conjE)
      fix claimed assume rest: "(if \<not> claimed then sreturn (dropped ''duplicate SES message id'')
       else case parse raw of None \<Rightarrow> sreturn (dropped ''failed to parse as RFC 5322'')
          | Some msg \<Rightarrow> handle_mail D now msg key) w2 = (r, w')"
      show ?thesis
      proof (cases "claimed \<and> parse raw \<noteq> None")
        case True
        then obtain msg where "parse raw = Some msg" "handle_mail D now msg key w2 = (r, w')" using rest by auto
        with mail_handled [OF assms(1,2,3) conjunct1 [OF q2]] show ?thesis by blast
      next
        case False
        then have "w' = w2" using rest by (auto simp: sreturn_def split: if_splits option.splits)
        with q2 show ?thesis by blast
      qed
    qed (use q2 in blast)
  qed (use q1 in blast)
qed

end

subsection \<open>The property\<close>

text \<open>
  C16. Mail reaches the instance it was addressed to and no other. The pipeline, alone on the desk,
  from a reachable state: either nothing is written but the claim of the message, or one of the
  message's recipients has a lookup key registered as an inbound address of an instance, and all
  that differs afterwards are tickets of that instance (changed or new), new messages on them and
  that instance's ticket counter: no ticket, message or counter of another instance changes,
  whatever reply tags, message ids or ticket numbers the message carries.
\<close>

theorem inbound_mail_isolated:
  assumes "solo_desk d h q D" "desk_reachable (dy_ss d) c" "ds_db c = w_db w" "keyed (w_db w) ''ticket_message''"
    and "process_raw_message D parse sid raw key w = (r, w')"
  shows "within (w_db w) nowhere nowhere [] (w_db w')
    \<or> (\<exists>msg i. parse raw = Some msg \<and> registered D (w_db w) (mail_recipients msg) i
         \<and> within (w_db w) (\<lambda>k. of_instance (w_db w) k i) (\<lambda>j. j = i) i (w_db w'))"
proof -
  have "its_tickets (w_db w) i = (\<lambda>k. of_instance (w_db w) k i)" for i by (rule ext) (simp add: its_tickets_def)
  with solo_desk.mail_processed [OF assms(1) desk_reachable_ok [OF assms(2)] assms(3-5)]
  show ?thesis unfolding mail_effect_def by auto
qed

definition stray_mail :: parsed_mail where
  "stray_mail =
     \<lparr>pm_from = Some (Some ''eve@client.test''), pm_to = Some [Some ''help+T1.k9@desk.test''], pm_cc = None,
      pm_subject = Some ''[acme #1] printer'', pm_message_id = None,
      pm_in_reply_to = \<lparr>hv_text = None, hv_text_list = None\<rparr>,
      pm_references = \<lparr>hv_text = None, hv_text_list = None\<rparr>, pm_auto_submitted = None, pm_precedence = None,
      pm_loop_header = False, pm_body_text = Some ''hello'', pm_body_html = None, pm_attachments = []\<rparr>"

lemma not_registered: "\<not> registered quiet_desk desk_db4 rs i"
  by (auto simp: registered_def quiet_desk_def get_inbound_address_def ref_handler_def ref_dynamo_def hydrated_def
      desk_db4_def desk_db3_def desk_db2_def desk_db1_def desk_db0_def apply_write_def set_row_def
      update_ticket_req_def create_ticket_req_def increment_ticket_counter_req_def)

theorem inbound_mail_isolated_witness:
  "w_db (snd (process_raw_message quiet_desk (\<lambda>raw. Some stray_mail) ''s1'' ''raw'' None quiet_world)) ''ticket'' ''T1''
     = desk_db4 ''ticket'' ''T1''"
proof -
  let ?run = "process_raw_message quiet_desk (\<lambda>raw. Some stray_mail) ''s1'' ''raw'' None quiet_world"
  have "dy_ss ref_dynamo = remdups" by (simp add: ref_dynamo_def)
  then have "within (w_db quiet_world) nowhere nowhere [] (w_db (snd ?run))
    \<or> (\<exists>msg i. Some stray_mail = Some msg \<and> registered quiet_desk (w_db quiet_world) (mail_recipients msg) i
         \<and> within (w_db quiet_world) (\<lambda>k. of_instance (w_db quiet_world) k i) (\<lambda>j. j = i) i (w_db (snd ?run)))"
    using inbound_mail_isolated [OF solo.solo_desk_axioms _ _ _ prod.collapse [symmetric],
      of desk_demo4 quiet_world "\<lambda>raw. Some stray_mail" "''s1''" "''raw''" None] desk_demo4_reachable no_messages_yet
    by (simp add: quiet_world_def desk_demo4_def)
  then have w: "within desk_db4 nowhere nowhere [] (w_db (snd ?run))"
    using not_registered by (auto simp: quiet_world_def)
  have "desk_db4 ''ticket'' ''T1'' \<noteq> None" using desk_row4 by auto
  with withinD(3) [OF w] show ?thesis by (simp add: may_change_def)
qed

subsection \<open>A message is filed once\<close>

context solo_desk begin

lemma claim_held:
  assumes "s ''processed_message'' sid = Some it" "it ''ses_message_id'' \<noteq> None"
    and "claim_processed_message h sid now until s = (r, s')"
  shows "s' = s \<and> r \<noteq> Inr True"
proof -
  note run = assms(3) [unfolded claim_processed_message_def]
  have no: "\<not> commits (dy_ss d) s [Put ''processed_message'' sid
        [''ses_message_id'' \<mapsto> AS sid, ''processed_at'' \<mapsto> AN (int now), ''expires_at'' \<mapsto> AN (int until)]
        (CNotExists ''ses_message_id'')] s'"
    using assms(1,2) by (auto simp: commits_single cond_holds_def attrs_of_def)
  from single.op_any [OF run] no have "s' = s" by blast
  moreover have "r \<noteq> Inr True" using single.op_true run no by blast
  ultimately show ?thesis by blast
qed

end

text \<open>
  A message already claimed is dropped. When the table of processed messages holds the SES
  message id, the pipeline, alone on the desk, changes no row, sends no mail and stores no object;
  it answers that the message is a duplicate or fails.
\<close>

theorem duplicate_mail_dropped:
  assumes "solo_desk d h q D" "w_db w ''processed_message'' sid = Some it" "it ''ses_message_id'' \<noteq> None"
    and "process_raw_message D parse sid raw key w = (r, w')"
  shows "w_db w' = w_db w \<and> w_sent w' = w_sent w \<and> w_objects w' = w_objects w
    \<and> (\<forall>x. r = Inr x \<longrightarrow> x = dropped ''duplicate SES message id'')"
proof -
  let ?until = "\<lambda>now. now + PROCESSED_MESSAGE_RETENTION_SECS"
  let ?w1 = "w\<lparr>w_n := Suc (w_n w)\<rparr>"
  have D: "dk_others D n s = s" "dk_db D = h" for n s
    using solo_desk.alone [OF assms(1)] solo_desk.handler [OF assms(1)] by auto
  have now: "now_sec D w = (Inr (dk_clock D (w_n w)), ?w1)"
    by (simp add: now_sec_def call_def Let_def D)
  obtain r1 s' where claim: "claim_processed_message h sid (dk_clock D (w_n w)) (?until (dk_clock D (w_n w))) (w_db w) = (r1, s')"
    by fastforce
  note c = solo_desk.claim_held [OF assms(1-3) claim]
  have step: "db_write D (\<lambda>n. claim_processed_message (dk_db D) sid (dk_clock D (w_n w)) (?until (dk_clock D (w_n w)))) ?w1
      = (db_error_of r1, ?w1\<lparr>w_n := Suc (w_n ?w1)\<rparr>)"
    using claim c by (simp add: db_write_def call_def Let_def D)
  show ?thesis
  proof (cases r1)
    case (Inl e)
    with assms(4) now step show ?thesis by (auto simp: process_raw_message_def sbind_def db_error_of_def)
  next
    case (Inr b)
    with c have "b = False" by simp
    with assms(4) now step Inr show ?thesis by (auto simp: process_raw_message_def sbind_def db_error_of_def sreturn_def)
  qed
qed

theorem duplicate_mail_dropped_witness:
  "w_sent (snd (process_raw_message quiet_desk (\<lambda>raw. Some stray_mail) ''s1'' ''raw'' None
     (quiet_world\<lparr>w_db := (\<lambda>t. if t = ''processed_message'' then [''s1'' \<mapsto> [''ses_message_id'' \<mapsto> AS ''s1'']]
                               else Map.empty)\<rparr>))) = []"
proof -
  let ?w = "quiet_world\<lparr>w_db := (\<lambda>t. if t = ''processed_message'' then [''s1'' \<mapsto> [''ses_message_id'' \<mapsto> AS ''s1'']]
                               else Map.empty)\<rparr>"
  have "w_db ?w ''processed_message'' ''s1'' = Some [''ses_message_id'' \<mapsto> AS ''s1'']" by simp
  from duplicate_mail_dropped [OF solo.solo_desk_axioms this _ prod.collapse [symmetric]]
  show ?thesis by (simp add: quiet_world_def)
qed

end
