(* ===== verification/Best_Effort.thy ===== *)
theory Best_Effort
  imports Inbound_Isolation
begin

section \<open>Mail of a mutation\<close>

text \<open>
  What the mail a mutation sends can and cannot do. \<open>harmless\<close> says that a step always ends
  well, \<open>same_answer\<close> that two runs answer the same, \<open>sends\<close> what is handed to the mail
  service.
\<close>

named_theorems send_intros \<open>rules of the judgement on the mail sent\<close>

definition harmless :: "unit run \<Rightarrow> bool" where
  "harmless m \<longleftrightarrow> (\<forall>w. fst (m w) = Inr ())"

definition same_answer :: "'a run \<Rightarrow> 'a run \<Rightarrow> bool" where
  "same_answer m m' \<longleftrightarrow> (\<forall>w. fst (m w) = fst (m' w))"

lemma same_bind: "(\<And>x. same_answer (k x) (k' x)) \<Longrightarrow> same_answer (sbind m k) (sbind m k')"
  by (simp add: same_answer_def sbind_def split: prod.splits sum.splits)

lemma same_refl: "same_answer m m"
  by (simp add: same_answer_def)

lemma same_if: "same_answer m n \<Longrightarrow> same_answer m' n' \<Longrightarrow> same_answer (if b then m else m') (if b then n else n')"
  by simp

lemma same_prod:
  "(\<And>a b. same_answer (f a b) (g a b)) \<Longrightarrow> same_answer (case x of (a, b) \<Rightarrow> f a b) (case x of (a, b) \<Rightarrow> g a b)"
  by (cases x) simp

lemma harmless_step:
  assumes "harmless m"
  shows "sbind m k w = k () (snd (m w))"
proof -
  obtain r w1 where m: "m w = (r, w1)" by (cases "m w")
  have "fst (m w) = Inr ()" using assms unfolding harmless_def by blast
  with m show ?thesis by (simp add: sbind_def)
qed

lemma harmless_return: "harmless (sreturn ())"
  by (simp add: harmless_def sreturn_def)

lemma harmless_best_effort: "harmless (sbind (best_effort m) (\<lambda>_. sreturn ()))"
  by (auto simp: harmless_def sbind_def best_effort_def sreturn_def split: prod.splits sum.splits)

lemma harmless_notify: "harmless (notify_staff D t a ev act body)"
  by (simp add: notify_staff_def harmless_return harmless_best_effort)

lemma harmless_notification: "harmless (send_system_notification D t to cc body)"
  by (simp add: send_system_notification_def harmless_best_effort)

lemma harmless_status_mail: "harmless (status_mail D t st)"
  by (simp add: status_mail_def harmless_return harmless_notification split: option.splits)

lemma harmless_if: "harmless m \<Longrightarrow> harmless (if b then sreturn () else m)"
  by (simp add: harmless_return)

lemmas harmless_intros = harmless_notify harmless_notification harmless_status_mail harmless_if

lemma same_end: "harmless m \<Longrightarrow> harmless m' \<Longrightarrow> same_answer (sbind m (\<lambda>_. sreturn x)) (sbind m' (\<lambda>_. sreturn x))"
  by (simp add: same_answer_def harmless_step sreturn_def)

lemma same_tail:
  "harmless m \<Longrightarrow> harmless m' \<Longrightarrow> harmless n \<Longrightarrow> harmless n' \<Longrightarrow>
     same_answer (sbind m (\<lambda>_. sbind n (\<lambda>_. sreturn x))) (sbind m' (\<lambda>_. sbind n' (\<lambda>_. sreturn x)))"
  by (simp add: same_answer_def harmless_step sreturn_def)

subsection \<open>Mail that fails changes no answer\<close>

definition with_mail ::
    "desk \<Rightarrow> (nat \<Rightarrow> string \<Rightarrow> string list \<Rightarrow> string list \<Rightarrow> string + string) \<Rightarrow> (mime \<Rightarrow> string + string) \<Rightarrow> desk" where
  "with_mail D send mime = D\<lparr>dk_send := send, dk_mime := mime\<rparr>"

lemma with_mail_fields [simp]:
  "dk_db (with_mail D f g) = dk_db D" "dk_query (with_mail D f g) = dk_query D"
  "dk_others (with_mail D f g) = dk_others D" "dk_view (with_mail D f g) = dk_view D"
  "dk_auth (with_mail D f g) = dk_auth D" "dk_clock (with_mail D f g) = dk_clock D"
  "dk_id (with_mail D f g) = dk_id D" "dk_token (with_mail D f g) = dk_token D"
  "dk_lower (with_mail D f g) = dk_lower D"
  by (simp_all add: with_mail_def)

lemma with_mail_call [simp]: "call (with_mail D f g) m = call D m"
  by (rule ext) (simp add: call_def)

lemma with_mail_calls [simp]:
  "db_write (with_mail D f g) m = db_write D m" "db_read (with_mail D f g) p = db_read D p"
  "guard (with_mail D f g) req = guard D req" "require_user_id (with_mail D f g) = require_user_id D"
  "now_sec (with_mail D f g) = now_sec D"
  by (simp_all add: db_write_def db_read_def guard_def require_user_id_def now_sec_def)

lemma with_mail_steps [simp]:
  "get_ticket (with_mail D f g) i = get_ticket D i" "get_instance (with_mail D f g) i = get_instance D i"
  "require_ticket_member (with_mail D f g) i = require_ticket_member D i"
  "write_ticket (with_mail D f g) i ch = write_ticket D i ch"
  "next_ticket_number (with_mail D f g) i = next_ticket_number D i"
  "new_ticket (with_mail D f g) i n subject rs cs = new_ticket D i n subject rs cs"
  "new_message (with_mail D f g) i kind author from_email to cc text html irt refs
     = new_message D i kind author from_email to cc text html irt refs"
  "check_assignee (with_mail D f g) t a = check_assignee D t a"
  "support_instance (with_mail D f g) i = support_instance D i"
  by (simp_all add: get_ticket_def get_instance_def require_ticket_member_def write_ticket_def next_ticket_number_def
      new_ticket_def new_message_def check_assignee_def support_instance_def split: option.splits)

lemma with_mail_open [simp]:
  "open_submitted_ticket (with_mail D f g) i subject body rs cs = open_submitted_ticket D i subject body rs cs"
  by (simp add: open_submitted_ticket_def)

lemma same_mutations:
  "same_answer (m_submit_ticket (with_mail D f g) subject body) (m_submit_ticket D subject body)"
  "same_answer (m_add_internal_note (with_mail D f g) i text) (m_add_internal_note D i text)"
  "same_answer (m_set_ticket_status (with_mail D f g) i st) (m_set_ticket_status D i st)"
  "same_answer (m_assign_ticket (with_mail D f g) i a) (m_assign_ticket D i a)"
  unfolding m_submit_ticket_def m_add_internal_note_def m_set_ticket_status_def m_assign_ticket_def
    with_mail_calls with_mail_steps with_mail_open with_mail_fields
  by (rule same_refl same_bind same_if same_prod same_tail same_end harmless_intros)+

text \<open>
  C17. Mail is best effort. The answers of \<^verbatim>\<open>submitTicket\<close>, \<^verbatim>\<open>addInternalNote\<close>,
  \<^verbatim>\<open>setTicketStatus\<close> and \<^verbatim>\<open>assignTicket\<close> do not depend on what the mail service or the
  MIME writer do: with any other outcome of every send and every build the same request from
  the same state answers the same, error or value.
\<close>

theorem mail_failure_harmless:
  "fst (m_submit_ticket (with_mail D send mime) subject body w) = fst (m_submit_ticket D subject body w)
    \<and> fst (m_add_internal_note (with_mail D send mime) i text w) = fst (m_add_internal_note D i text w)
    \<and> fst (m_set_ticket_status (with_mail D send mime) i st w) = fst (m_set_ticket_status D i st w)
    \<and> fst (m_assign_ticket (with_mail D send mime) i a w) = fst (m_assign_ticket D i a w)"
  using same_mutations by (simp add: same_answer_def)

subsection \<open>What is sent\<close>

definition sends :: "(string \<times> string list \<times> string list \<Rightarrow> bool) \<Rightarrow> 'a run \<Rightarrow> bool" where
  "sends P m \<longleftrightarrow>
     (\<forall>w r w'. m w = (r, w') \<longrightarrow> (\<exists>sent. w_sent w' = w_sent w @ sent \<and> (\<forall>x \<in> set sent. P x)))"

lemma sendsI:
  "(\<And>w r w'. m w = (r, w') \<Longrightarrow> \<exists>sent. w_sent w' = w_sent w @ sent \<and> (\<forall>x \<in> set sent. P x)) \<Longrightarrow> sends P m"
  unfolding sends_def by blast

lemma sendsD:
  "sends P m \<Longrightarrow> m w = (r, w') \<Longrightarrow> \<exists>sent. w_sent w' = w_sent w @ sent \<and> (\<forall>x \<in> set sent. P x)"
  unfolding sends_def by blast

lemma sends_none: "(\<And>w. w_sent (snd (m w)) = w_sent w) \<Longrightarrow> sends P m"
  by (rule sendsI) (metis append_Nil2 empty_iff empty_set snd_conv)

lemma sends_bind:
  assumes "sends P m" "\<And>x. sends P (k x)"
  shows "sends P (sbind m k)"
proof (rule sendsI)
  fix w r w' assume run: "sbind m k w = (r, w')"
  obtain r1 w1 where m: "m w = (r1, w1)" by (cases "m w")
  from sendsD [OF assms(1) m] obtain s1 where s1: "w_sent w1 = w_sent w @ s1" "\<forall>x \<in> set s1. P x" by blast
  show "\<exists>sent. w_sent w' = w_sent w @ sent \<and> (\<forall>x \<in> set sent. P x)"
  proof (cases r1)
    case (Inl e)
    with run m s1 show ?thesis by (auto simp: sbind_def)
  next
    case (Inr x)
    with run m have "k x w1 = (r, w')" by (simp add: sbind_def)
    from sendsD [OF assms(2) this] obtain s2 where "w_sent w' = w_sent w1 @ s2" "\<forall>x \<in> set s2. P x" by blast
    with s1 show ?thesis by (intro exI [of _ "s1 @ s2"]) auto
  qed
qed

lemma sends_best_effort:
  assumes "sends P m"
  shows "sends P (best_effort m)"
proof (rule sendsI)
  fix w r w' assume run: "best_effort m w = (r, w')"
  obtain r1 w1 where m: "m w = (r1, w1)" by (cases "m w")
  with run have "w' = w1" by (auto simp: best_effort_def split: sum.splits)
  with sendsD [OF assms m] show "\<exists>sent. w_sent w' = w_sent w @ sent \<and> (\<forall>x \<in> set sent. P x)" by simp
qed

lemma sends_if: "sends P m \<Longrightarrow> sends P m' \<Longrightarrow> sends P (if b then m else m')"
  by simp

lemma sends_option: "sends P m \<Longrightarrow> (\<And>y. sends P (f y)) \<Longrightarrow> sends P (case x of None \<Rightarrow> m | Some y \<Rightarrow> f y)"
  by (cases x) simp_all

lemma sends_prod: "(\<And>a b. sends P (f a b)) \<Longrightarrow> sends P (case x of (a, b) \<Rightarrow> f a b)"
  by (cases x) simp

lemma sends_let: "sends P (f a) \<Longrightarrow> sends P (Let a f)"
  by simp

lemma sends_call [send_intros]: "sends P (call D m)"
  by (rule sends_none) (simp add: call_def Let_def split: prod.splits)

lemma sends_lift [send_intros]:
  "sends P (slift x)" "sends P (sreturn y)" "sends P (sensure_api b e)" "sends P (found e' z)"
  "sends P (guard D req)" "sends P (require_user_id D)"
  by (rule sends_none, simp add: slift_def sreturn_def sensure_api_def sensure_def found_def guard_def require_user_id_def)+

lemma sends_calls [send_intros]:
  "sends P (db_write D f)" "sends P (db_read D p)" "sends P (now_sec D)" "sends P (generate_nonce D)"
  unfolding db_write_def db_read_def now_sec_def generate_nonce_def by (rule sends_call)+

lemma sends_reads [send_intros]:
  "sends P (get_ticket D i)" "sends P (get_instance D i)" "sends P (write_ticket D i ch)"
  "sends P (new_message D i kind author from_email to cc text html irt refs)"
  unfolding get_ticket_def get_instance_def write_ticket_def new_message_def by (rule sends_calls)+

lemma sends_raw: "P (raw, to, cc) \<Longrightarrow> sends P (send_raw D raw to cc)"
  by (rule sendsI) (auto simp: send_raw_def call_def Let_def intro!: exI [of _ "[(raw, to, cc)]"])

lemma sends_member [send_intros]: "sends P (require_ticket_member D i)"
  unfolding require_ticket_member_def by (rule sends_bind send_intros)+

lemma sends_required [send_intros]: "sends P (required_text a b)"
  unfolding required_text_def by (rule sends_bind send_intros)+

lemma staff_mime_to: "mm_to (staff_mime env nonce inst t rc h e b) = Some [rc_email rc]"
  by (simp add: staff_mime_def Let_def)

lemma sbind_assoc: "sbind (sbind m f) g = sbind m (\<lambda>x. sbind (f x) g)"
  by (rule ext) (simp add: sbind_def split: prod.splits sum.splits)

lemma sbind_return: "sbind (sreturn x) f = f x"
  by (rule ext) (simp add: sbind_def sreturn_def)

text \<open>Notices go to their recipients, one mail each.\<close>

lemma sends_one_notice:
  assumes "\<And>raw. P (raw, [rc_email rc], [])"
  shows "sends P (sbind (build_staff_mime D inst t rc h e b) (\<lambda>(raw, to). send_raw D raw [to] []))"
proof -
  have "sbind (build_staff_mime D inst t rc h e b) (\<lambda>(raw, to). send_raw D raw [to] [])
    = sbind (generate_nonce D) (\<lambda>nonce. sbind (slift (map_err (\<lambda>e. Mail (MimeFailed e))
        (dk_mime D (staff_mime (dk_env D) nonce inst t rc h e b)))) (\<lambda>raw. send_raw D raw [rc_email rc] []))"
    by (simp add: build_staff_mime_def sbind_assoc sbind_return)
  then show ?thesis using assms by (simp add: sends_bind send_intros sends_raw)
qed

lemma sends_notices:
  assumes "\<And>rc raw. rc \<in> set rcs \<Longrightarrow> P (raw, [rc_email rc], [])"
  shows "sends P (send_notices D inst t ev name new e rcs)"
  using assms
  by (induction rcs) (auto simp: send_intros intro!: sends_bind sends_best_effort sends_one_notice)

end
