(* ===== verification/Auth_Rows.thy ===== *)
theory Auth_Rows
  imports Desk_Env
begin

section \<open>Credentials in the store\<close>

text \<open>
  The tables of credentials: \<^verbatim>\<open>login_code\<close>, \<^verbatim>\<open>user_token\<close>, \<^verbatim>\<open>api_token\<close>,
  \<^verbatim>\<open>oauth_grant\<close> and \<^verbatim>\<open>ephemeral_state\<close>, with the users they name, as \<^verbatim>\<open>db.rs\<close> declares
  the rows and \<^verbatim>\<open>dynamodb.rs\<close> reads and writes them. Ids and the clock are arguments.
\<close>

subsection \<open>Rows\<close>

record login_code =
  lc_email :: string
  lc_code_hash :: string
  lc_expires_at :: nat
  lc_attempts :: nat
  lc_last_sent_at :: nat

record user_token =
  ut_id :: string
  ut_token_hash :: string
  ut_user_id :: string
  ut_created_at :: nat
  ut_expires_at :: nat
  ut_last_used_at :: "nat option"

record oauth_grant =
  og_id :: string
  og_user_id :: string
  og_client_id :: string
  og_client_name :: string
  og_redirect_uri :: string
  og_resource :: string
  og_scope :: string
  og_access_token_hash :: string
  og_access_expires_at :: nat
  og_refresh_token_hash :: string
  og_refresh_expires_at :: nat
  og_expires_at :: nat
  og_created_at :: nat
  og_last_used_at :: "nat option"

datatype oauth_grant_update =
    Rotate string string nat string nat
  | TouchGrant

record api_token =
  tk_id :: string
  tk_instance_id :: string
  tk_name :: string
  tk_token_hash :: string
  tk_enabled :: bool
  tk_created_at :: nat
  tk_created_by_user_id :: string
  tk_last_used_at :: "nat option"

datatype api_token_update = TokenFields string bool | TouchToken

record ephemeral_state =
  es_id :: string
  es_kind :: string
  es_payload :: string
  es_expires_at :: nat

datatype user_update =
    UserFields string bool
  | AccessTime
  | SetSuperuser bool
  | SetEmail string

subsection \<open>Hydration\<close>

definition hydrate_login_code :: "item \<Rightarrow> string + login_code" where
  "hydrate_login_code it =
     rbind (need_string it ''email'' ''LoginCode missing email'') (\<lambda>email.
     rbind (need_string it ''code_hash'' ''LoginCode missing code_hash'') (\<lambda>hash.
     rbind (need_i64 it ''expires_at'' ''LoginCode missing expires_at'') (\<lambda>expires.
     rbind (i64_field it ''attempts'') (\<lambda>attempts.
     rbind (need_i64 it ''last_sent_at'' ''LoginCode missing last_sent_at'') (\<lambda>sent.
     Inr \<lparr>lc_email = email, lc_code_hash = hash, lc_expires_at = as_u64 expires,
          lc_attempts = as_u64 (unwrap_or 0 attempts), lc_last_sent_at = as_u64 sent\<rparr>)))))"

definition hydrate_user_token :: "item \<Rightarrow> string + user_token" where
  "hydrate_user_token it =
     rbind (item_id_field it) (\<lambda>i.
     rbind (need_string it ''token_hash'' ''UserToken missing token_hash'') (\<lambda>hash.
     rbind (need_string it ''user_id'' ''UserToken missing user_id'') (\<lambda>uid.
     rbind (need_i64 it ''created_at'' ''UserToken missing created_at'') (\<lambda>created.
     rbind (need_i64 it ''expires_at'' ''UserToken missing expires_at'') (\<lambda>expires.
     rbind (i64_field it ''last_used_at'') (\<lambda>used.
     Inr \<lparr>ut_id = i, ut_token_hash = hash, ut_user_id = uid, ut_created_at = as_u64 created,
          ut_expires_at = as_u64 expires, ut_last_used_at = map_option as_u64 used\<rparr>))))))"

definition hydrate_oauth_grant :: "item \<Rightarrow> string + oauth_grant" where
  "hydrate_oauth_grant it =
     rbind (item_id_field it) (\<lambda>i.
     rbind (need_string it ''user_id'' ''OAuthGrant missing user_id'') (\<lambda>uid.
     rbind (need_string it ''client_id'' ''OAuthGrant missing client_id'') (\<lambda>cid.
     rbind (string_field it ''client_name'') (\<lambda>cname.
     rbind (need_string it ''redirect_uri'' ''OAuthGrant missing redirect_uri'') (\<lambda>uri.
     rbind (need_string it ''resource'' ''OAuthGrant missing resource'') (\<lambda>resource.
     rbind (need_string it ''scope'' ''OAuthGrant missing scope'') (\<lambda>scope.
     rbind (need_string it ''access_token_hash'' ''OAuthGrant missing access_token_hash'') (\<lambda>ahash.
     rbind (need_i64 it ''access_expires_at'' ''OAuthGrant missing access_expires_at'') (\<lambda>aexp.
     rbind (need_string it ''refresh_token_hash'' ''OAuthGrant missing refresh_token_hash'') (\<lambda>rhash.
     rbind (need_i64 it ''refresh_expires_at'' ''OAuthGrant missing refresh_expires_at'') (\<lambda>rexp.
     rbind (need_i64 it ''expires_at'' ''OAuthGrant missing expires_at'') (\<lambda>expires.
     rbind (need_i64 it ''created_at'' ''OAuthGrant missing created_at'') (\<lambda>created.
     rbind (i64_field it ''last_used_at'') (\<lambda>used.
     Inr \<lparr>og_id = i, og_user_id = uid, og_client_id = cid, og_client_name = unwrap_or [] cname,
          og_redirect_uri = uri, og_resource = resource, og_scope = scope,
          og_access_token_hash = ahash, og_access_expires_at = as_u64 aexp,
          og_refresh_token_hash = rhash, og_refresh_expires_at = as_u64 rexp,
          og_expires_at = as_u64 expires, og_created_at = as_u64 created,
          og_last_used_at = map_option as_u64 used\<rparr>))))))))))))))"

definition hydrate_api_token :: "item \<Rightarrow> string + api_token" where
  "hydrate_api_token it =
     rbind (item_id_field it) (\<lambda>i.
     rbind (need_string it ''instance_id'' ''ApiToken missing instance_id'') (\<lambda>inst.
     rbind (need_string it ''name'' ''ApiToken missing name'') (\<lambda>name.
     rbind (need_string it ''token_hash'' ''ApiToken missing token_hash'') (\<lambda>hash.
     rbind (rbind (bool_field it ''enabled'') (ok_or ''ApiToken missing enabled'')) (\<lambda>enabled.
     rbind (need_i64 it ''created_at'' ''ApiToken missing created_at'') (\<lambda>created.
     rbind (need_string it ''created_by_user_id'' ''ApiToken missing created_by_user_id'') (\<lambda>creator.
     rbind (i64_field it ''last_used_at'') (\<lambda>used.
     Inr \<lparr>tk_id = i, tk_instance_id = inst, tk_name = name, tk_token_hash = hash, tk_enabled = enabled,
          tk_created_at = as_u64 created, tk_created_by_user_id = creator,
          tk_last_used_at = map_option as_u64 used\<rparr>))))))))"

definition hydrate_ephemeral_state :: "item \<Rightarrow> string + ephemeral_state" where
  "hydrate_ephemeral_state it =
     rbind (item_id_field it) (\<lambda>i.
     rbind (need_string it ''kind'' ''EphemeralState missing kind'') (\<lambda>kind.
     rbind (need_string it ''payload'' ''EphemeralState missing payload'') (\<lambda>payload.
     rbind (need_i64 it ''expires_at'' ''EphemeralState missing expires_at'') (\<lambda>expires.
     Inr \<lparr>es_id = i, es_kind = kind, es_payload = payload, es_expires_at = as_u64 expires\<rparr>))))"

text \<open>One row by its key: \<^verbatim>\<open>get_item\<close>, then \<^verbatim>\<open>hydrate_item\<close>.\<close>

definition get_row :: "handler \<Rightarrow> string \<Rightarrow> (item \<Rightarrow> string + 'r) \<Rightarrow> string \<Rightarrow> store \<Rightarrow> db_error + 'r option" where
  "get_row h t f k s = rbind (map_err Infrastructure (dy_get (h_svc h) s t k)) (hydrated f)"

subsection \<open>Users\<close>

definition user_row :: "string \<Rightarrow> nat \<Rightarrow> string \<Rightarrow> string \<Rightarrow> item" where
  "user_row i now email name =
     [''id'' \<mapsto> AS i, ''email'' \<mapsto> AS email, ''name'' \<mapsto> AS name, ''enabled'' \<mapsto> ABool True,
      ''created_at'' \<mapsto> AN (int now)]"

definition create_user ::
    "handler \<Rightarrow> string \<Rightarrow> nat \<Rightarrow> string \<Rightarrow> string \<Rightarrow> store \<Rightarrow> (db_error + user) \<times> store" where
  "create_user h i now email name s =
     (let (r, s') = send_plain h (Put ''user'' i (user_row i now email name) CTrue) s
      in (rbind r (\<lambda>_. Inr \<lparr>usr_id = i, usr_email = email, usr_name = name, usr_enabled = True,
            usr_created_at = now, usr_access_time = None, usr_superuser = False\<rparr>), s'))"

fun user_actions :: "nat \<Rightarrow> user_update \<Rightarrow> action list" where
  "user_actions now (UserFields name enabled) = [ASet ''name'' (AS name), ASet ''enabled'' (ABool enabled)]"
| "user_actions now AccessTime = [ASet ''access_time'' (AN (int now))]"
| "user_actions now (SetSuperuser superuser) =
     (if superuser then [ASet ''superuser'' (ABool True)] else [ARemove ''superuser''])"
| "user_actions now (SetEmail email) = [ASet ''email'' (AS email)]"

definition update_user ::
    "handler \<Rightarrow> nat \<Rightarrow> string \<Rightarrow> user_update \<Rightarrow> store \<Rightarrow> (db_error + unit) \<times> store" where
  "update_user h now i change s =
     send_existing h (''User '' @ i) (Update ''user'' ''id'' i (user_actions now change) (CExists ''id'')) s"

definition get_user_id_by_email :: "index \<Rightarrow> string \<Rightarrow> store \<Rightarrow> db_error + string option" where
  "get_user_id_by_email q email s =
     rbind (query_ids q ''user'' ''email'' email s) (\<lambda>ids.
       at_most_one ids (''Multiple users share email '' @ email))"

definition get_instance_id_by_slug :: "index \<Rightarrow> string \<Rightarrow> store \<Rightarrow> db_error + string option" where
  "get_instance_id_by_slug q slug s =
     rbind (query_ids q ''instance'' ''slug'' slug s) (\<lambda>ids. at_most_one ids (''Multiple instances share slug '' @ slug))"

subsection \<open>Login codes\<close>

definition login_code_row :: "string \<Rightarrow> string \<Rightarrow> nat \<Rightarrow> nat \<Rightarrow> item" where
  "login_code_row email code_hash expires_at now =
     [''email'' \<mapsto> AS email, ''code_hash'' \<mapsto> AS code_hash, ''expires_at'' \<mapsto> AN (int expires_at),
      ''attempts'' \<mapsto> AN 0, ''last_sent_at'' \<mapsto> AN (int now)]"

definition put_login_code ::
    "handler \<Rightarrow> string \<Rightarrow> string \<Rightarrow> nat \<Rightarrow> nat \<Rightarrow> store \<Rightarrow> (db_error + unit) \<times> store" where
  "put_login_code h email code_hash expires_at now s =
     send_plain h (Put ''login_code'' email (login_code_row email code_hash expires_at now) CTrue) s"

definition get_login_code :: "handler \<Rightarrow> string \<Rightarrow> store \<Rightarrow> db_error + login_code option" where
  "get_login_code h email s = get_row h ''login_code'' hydrate_login_code email s"

definition delete_login_code :: "handler \<Rightarrow> string \<Rightarrow> store \<Rightarrow> (db_error + unit) \<times> store" where
  "delete_login_code h email s = send_plain h (Delete ''login_code'' email CTrue) s"

definition increment_login_code_attempts :: "handler \<Rightarrow> string \<Rightarrow> store \<Rightarrow> (db_error + unit) \<times> store" where
  "increment_login_code_attempts h email s =
     send_plain h (Update ''login_code'' ''email'' email [AAddN ''attempts'' 1] CTrue) s"

subsection \<open>User tokens\<close>

definition USER_TOKEN_EXPIRE_S :: nat where "USER_TOKEN_EXPIRE_S = 60 * 60 * 8"

definition user_token_row :: "string \<Rightarrow> nat \<Rightarrow> string \<Rightarrow> string \<Rightarrow> nat \<Rightarrow> item" where
  "user_token_row i now token_hash uid expires_at =
     [''id'' \<mapsto> AS i, ''token_hash'' \<mapsto> AS token_hash, ''user_id'' \<mapsto> AS uid,
      ''created_at'' \<mapsto> AN (int now), ''expires_at'' \<mapsto> AN (int expires_at)]"

definition create_user_token ::
    "handler \<Rightarrow> string \<Rightarrow> nat \<Rightarrow> string \<Rightarrow> string \<Rightarrow> nat \<Rightarrow> store \<Rightarrow> (db_error + user_token) \<times> store" where
  "create_user_token h i now token_hash uid expires_at s =
     (let (r, s') = send_plain h (Put ''user_token'' i (user_token_row i now token_hash uid expires_at) CTrue) s
      in (rbind r (\<lambda>_. Inr \<lparr>ut_id = i, ut_token_hash = token_hash, ut_user_id = uid, ut_created_at = now,
            ut_expires_at = expires_at, ut_last_used_at = None\<rparr>), s'))"

text \<open>A query of the index for the id, then the row by its id: \<open>s\<close> and \<open>s'\<close> are the states the two see.\<close>

definition get_user_token_by_hash ::
    "handler \<Rightarrow> index \<Rightarrow> string \<Rightarrow> store \<Rightarrow> store \<Rightarrow> db_error + user_token option" where
  "get_user_token_by_hash h q token_hash s s' =
     rbind (query_ids q ''user_token'' ''token_hash'' token_hash s) (\<lambda>ids.
     rbind (at_most_one ids ''Multiple user tokens share the same hash'') (\<lambda>hit.
     case hit of
       None \<Rightarrow> Inr None
     | Some i \<Rightarrow> get_row h ''user_token'' hydrate_user_token i s'))"

definition touch_user_token :: "handler \<Rightarrow> nat \<Rightarrow> string \<Rightarrow> store \<Rightarrow> (db_error + unit) \<times> store" where
  "touch_user_token h now i s =
     send_existing h (''UserToken '' @ i)
       (Update ''user_token'' ''id'' i
          [ASet ''last_used_at'' (AN (int now)), ASet ''expires_at'' (AN (int (now + USER_TOKEN_EXPIRE_S)))]
          (CExists ''id'')) s"

definition delete_user_token :: "handler \<Rightarrow> string \<Rightarrow> store \<Rightarrow> (db_error + unit) \<times> store" where
  "delete_user_token h i s = send_plain h (Delete ''user_token'' i CTrue) s"

subsection \<open>OAuth grants\<close>

definition oauth_grant_row :: "oauth_grant \<Rightarrow> item" where
  "oauth_grant_row g =
     (let it = [''id'' \<mapsto> AS (og_id g), ''user_id'' \<mapsto> AS (og_user_id g), ''client_id'' \<mapsto> AS (og_client_id g),
        ''client_name'' \<mapsto> AS (og_client_name g), ''redirect_uri'' \<mapsto> AS (og_redirect_uri g),
        ''resource'' \<mapsto> AS (og_resource g), ''scope'' \<mapsto> AS (og_scope g),
        ''access_token_hash'' \<mapsto> AS (og_access_token_hash g),
        ''access_expires_at'' \<mapsto> AN (int (og_access_expires_at g)),
        ''refresh_token_hash'' \<mapsto> AS (og_refresh_token_hash g),
        ''refresh_expires_at'' \<mapsto> AN (int (og_refresh_expires_at g)),
        ''expires_at'' \<mapsto> AN (int (og_expires_at g)), ''created_at'' \<mapsto> AN (int (og_created_at g))]
      in case og_last_used_at g of None \<Rightarrow> it | Some u \<Rightarrow> it(''last_used_at'' \<mapsto> AN (int u)))"

definition create_oauth_grant :: "handler \<Rightarrow> oauth_grant \<Rightarrow> store \<Rightarrow> (db_error + unit) \<times> store" where
  "create_oauth_grant h g s = send_plain h (Put ''oauth_grant'' (og_id g) (oauth_grant_row g) (CNotExists ''id'')) s"

definition get_oauth_grant :: "handler \<Rightarrow> string \<Rightarrow> store \<Rightarrow> db_error + oauth_grant option" where
  "get_oauth_grant h i s = get_row h ''oauth_grant'' hydrate_oauth_grant i s"

fun oauth_grant_req :: "nat \<Rightarrow> string \<Rightarrow> oauth_grant_update \<Rightarrow> wreq" where
  "oauth_grant_req now i (Rotate expected access_hash access_expires refresh_hash refresh_expires) =
     Update ''oauth_grant'' ''id'' i
       [ASet ''access_token_hash'' (AS access_hash), ASet ''access_expires_at'' (AN (int access_expires)),
        ASet ''refresh_token_hash'' (AS refresh_hash), ASet ''refresh_expires_at'' (AN (int refresh_expires))]
       (CAnd (CExists ''id'') (CEq ''refresh_token_hash'' (AS expected)))"
| "oauth_grant_req now i TouchGrant =
     Update ''oauth_grant'' ''id'' i [ASet ''last_used_at'' (AN (int now))] (CExists ''id'')"

definition update_oauth_grant ::
    "handler \<Rightarrow> nat \<Rightarrow> string \<Rightarrow> oauth_grant_update \<Rightarrow> store \<Rightarrow> (db_error + unit) \<times> store" where
  "update_oauth_grant h now i change s = send_existing h (''OAuthGrant '' @ i) (oauth_grant_req now i change) s"

definition delete_oauth_grant :: "handler \<Rightarrow> string \<Rightarrow> store \<Rightarrow> (db_error + unit) \<times> store" where
  "delete_oauth_grant h i s = send_plain h (Delete ''oauth_grant'' i CTrue) s"

definition list_oauth_grants_by_user :: "index \<Rightarrow> string \<Rightarrow> store \<Rightarrow> db_error + oauth_grant list" where
  "list_oauth_grants_by_user q uid s = query_all q hydrate_oauth_grant ''oauth_grant'' ''user_id'' uid s"

subsection \<open>API tokens\<close>

definition api_token_row :: "string \<Rightarrow> nat \<Rightarrow> string \<Rightarrow> string \<Rightarrow> string \<Rightarrow> string \<Rightarrow> item" where
  "api_token_row i now instance_id name token_hash creator =
     [''id'' \<mapsto> AS i, ''instance_id'' \<mapsto> AS instance_id, ''name'' \<mapsto> AS name, ''token_hash'' \<mapsto> AS token_hash,
      ''enabled'' \<mapsto> ABool True, ''created_at'' \<mapsto> AN (int now), ''created_by_user_id'' \<mapsto> AS creator]"

definition create_api_token ::
    "handler \<Rightarrow> nat \<Rightarrow> string \<Rightarrow> string \<Rightarrow> string \<Rightarrow> string \<Rightarrow> string \<Rightarrow> store \<Rightarrow> (db_error + api_token) \<times> store" where
  "create_api_token h now i instance_id name token_hash creator s =
     (let (r, s') = send_plain h
            (Put ''api_token'' i (api_token_row i now instance_id name token_hash creator) (CNotExists ''id'')) s
      in (rbind r (\<lambda>_. Inr \<lparr>tk_id = i, tk_instance_id = instance_id, tk_name = name, tk_token_hash = token_hash,
            tk_enabled = True, tk_created_at = now, tk_created_by_user_id = creator, tk_last_used_at = None\<rparr>), s'))"

definition get_api_token :: "handler \<Rightarrow> string \<Rightarrow> store \<Rightarrow> db_error + api_token option" where
  "get_api_token h i s = get_row h ''api_token'' hydrate_api_token i s"

definition list_api_tokens_by_instance :: "index \<Rightarrow> string \<Rightarrow> store \<Rightarrow> db_error + api_token list" where
  "list_api_tokens_by_instance q instance_id s =
     query_all q hydrate_api_token ''api_token'' ''instance_id'' instance_id s"

fun api_token_actions :: "nat \<Rightarrow> api_token_update \<Rightarrow> action list" where
  "api_token_actions now (TokenFields name enabled) = [ASet ''name'' (AS name), ASet ''enabled'' (ABool enabled)]"
| "api_token_actions now TouchToken = [ASet ''last_used_at'' (AN (int now))]"

definition update_api_token ::
    "handler \<Rightarrow> nat \<Rightarrow> string \<Rightarrow> api_token_update \<Rightarrow> store \<Rightarrow> (db_error + unit) \<times> store" where
  "update_api_token h now i change s =
     send_existing h (''ApiToken '' @ i) (Update ''api_token'' ''id'' i (api_token_actions now change) (CExists ''id'')) s"

definition delete_api_token :: "handler \<Rightarrow> string \<Rightarrow> store \<Rightarrow> (db_error + unit) \<times> store" where
  "delete_api_token h i s = send_plain h (Delete ''api_token'' i CTrue) s"

subsection \<open>Ephemeral state\<close>

definition ephemeral_row :: "string \<Rightarrow> string \<Rightarrow> string \<Rightarrow> nat \<Rightarrow> item" where
  "ephemeral_row i kind payload expires_at =
     [''id'' \<mapsto> AS i, ''kind'' \<mapsto> AS kind, ''payload'' \<mapsto> AS payload, ''expires_at'' \<mapsto> AN (int expires_at)]"

definition put_ephemeral_state ::
    "handler \<Rightarrow> string \<Rightarrow> string \<Rightarrow> string \<Rightarrow> nat \<Rightarrow> store \<Rightarrow> (db_error + unit) \<times> store" where
  "put_ephemeral_state h i kind payload expires_at s =
     send_plain h (Put ''ephemeral_state'' i (ephemeral_row i kind payload expires_at) CTrue) s"

definition get_ephemeral_state :: "handler \<Rightarrow> string \<Rightarrow> store \<Rightarrow> db_error + ephemeral_state option" where
  "get_ephemeral_state h i s = get_row h ''ephemeral_state'' hydrate_ephemeral_state i s"

definition delete_ephemeral_state :: "handler \<Rightarrow> string \<Rightarrow> store \<Rightarrow> (db_error + unit) \<times> store" where
  "delete_ephemeral_state h i s = send_plain h (Delete ''ephemeral_state'' i CTrue) s"

end
