(* ===== verification/Sessions.thy ===== *)
theory Sessions
  imports Auth_Rows
begin

section \<open>Sessions and tokens\<close>

text \<open>
  \<^verbatim>\<open>auth.rs\<close>, \<^verbatim>\<open>expire.rs\<close>, \<^verbatim>\<open>nonce.rs\<close> and \<^verbatim>\<open>turnstile.rs\<close>: how a bearer token becomes a
  principal, and how tokens are issued. The environment \<open>auth_env\<close> holds what these modules take
  from outside: the SHA-256 hex digest, the random number generator, the Turnstile service, the
  plain-text mail service and the JSON codecs of the two payloads.
\<close>

subsection \<open>Environment\<close>

record submit_code_payload =
  sc_code_hash :: string
  sc_attempts :: nat
  sc_last_sent_at :: nat

record submit_token_payload =
  sp_email :: string
  sp_instance_id :: string

record auth_env =
  ae_hash :: "string \<Rightarrow> string"
  ae_rand :: "nat \<Rightarrow> nat \<Rightarrow> nat"
  ae_siteverify :: "nat \<Rightarrow> string \<Rightarrow> string \<Rightarrow> string option \<Rightarrow> string + bool"
  ae_text_mail :: "nat \<Rightarrow> string \<Rightarrow> string \<Rightarrow> string \<Rightarrow> string + unit"
  ae_code_json :: "submit_code_payload \<Rightarrow> string + string"
  ae_code_of_json :: "string \<Rightarrow> string + submit_code_payload"
  ae_token_json :: "submit_token_payload \<Rightarrow> string + string"
  ae_token_of_json :: "string \<Rightarrow> string + submit_token_payload"

subsection \<open>Errors\<close>

datatype auth_error = Permanent string | Transient string

type_synonym 'a auth_run = "world \<Rightarrow> (auth_error + 'a) \<times> world"

text \<open>The \<^verbatim>\<open>Display\<close> of a \<^verbatim>\<open>db::Error\<close>.\<close>

fun db_error_text :: "db_error \<Rightarrow> string" where
  "db_error_text (NotFound m) = ''Record not found: '' @ m"
| "db_error_text (Hydration m) = ''Hydration error: '' @ m"
| "db_error_text (Infrastructure m) = ''Infrastructure error: '' @ m"
| "db_error_text (Integrity m) = ''Data integrity error: '' @ m"
| "db_error_text (TypeConversion m) = ''Data type conversion error: '' @ m"
| "db_error_text MutationDisabled = ''Mutation disabled''"

definition classify_db_err :: "string \<Rightarrow> db_error \<Rightarrow> auth_error" where
  "classify_db_err msg e =
     (case e of NotFound m \<Rightarrow> Permanent (msg @ '': '' @ db_error_text e)
      | _ \<Rightarrow> Transient (msg @ '': '' @ db_error_text e))"

text \<open>Reads of the handler with \<^verbatim>\<open>map_err(classify_db_err)\<close>: eventually consistent, of an
  operation of two reads, and strongly consistent.\<close>

definition auth_read :: "desk \<Rightarrow> string \<Rightarrow> (store \<Rightarrow> db_error + 'a) \<Rightarrow> 'a auth_run" where
  "auth_read D msg f = call D (\<lambda>n s. (map_err (classify_db_err msg) (f (dk_view D n s)), s))"

definition auth_read2 :: "desk \<Rightarrow> string \<Rightarrow> (store \<Rightarrow> store \<Rightarrow> db_error + 'a) \<Rightarrow> 'a auth_run" where
  "auth_read2 D msg f = sbind (call D (\<lambda>n s. (Inr (dk_view D n s), s))) (\<lambda>first. auth_read D msg (f first))"

definition auth_read_now :: "desk \<Rightarrow> string \<Rightarrow> (store \<Rightarrow> db_error + 'a) \<Rightarrow> 'a auth_run" where
  "auth_read_now D msg f = call D (\<lambda>n s. (map_err (classify_db_err msg) (f s), s))"

definition auth_clock :: "desk \<Rightarrow> nat auth_run" where
  "auth_clock D = call D (\<lambda>n s. (Inr (dk_clock D n), s))"

text \<open>A throttled touch: with mutations disabled it is skipped, any other error is transient.\<close>

fun touch_result :: "db_error + unit \<Rightarrow> auth_error + unit" where
  "touch_result (Inr u) = Inr u"
| "touch_result (Inl MutationDisabled) = Inr ()"
| "touch_result (Inl e) = Inl (Transient (db_error_text e))"

definition touch :: "desk \<Rightarrow> (nat \<Rightarrow> store \<Rightarrow> (db_error + unit) \<times> store) \<Rightarrow> unit auth_run" where
  "touch D m = call D (\<lambda>n s. let (r, s') = m n s in (touch_result r, s'))"

definition stale :: "nat \<Rightarrow> nat option \<Rightarrow> nat \<Rightarrow> bool" where
  "stale now seen secs = (case seen of None \<Rightarrow> True | Some t \<Rightarrow> now > t + secs)"

definition touch_if_stale ::
    "desk \<Rightarrow> nat \<Rightarrow> nat option \<Rightarrow> nat \<Rightarrow> (nat \<Rightarrow> store \<Rightarrow> (db_error + unit) \<times> store) \<Rightarrow> unit auth_run" where
  "touch_if_stale D now seen secs m = (if stale now seen secs then touch D m else sreturn ())"

subsection \<open>Expiry policies\<close>

definition LOGIN_CODE_EXPIRE_S :: nat where "LOGIN_CODE_EXPIRE_S = 60 * 10"

definition SUBMIT_CODE_EXPIRE_S :: nat where "SUBMIT_CODE_EXPIRE_S = 60 * 10"

definition REQUESTER_SUBMIT_TOKEN_EXPIRE_S :: nat where "REQUESTER_SUBMIT_TOKEN_EXPIRE_S = 60 * 15"

definition WEBAUTHN_CHALLENGE_EXPIRE_S :: nat where "WEBAUTHN_CHALLENGE_EXPIRE_S = 60 * 5"

datatype expire_policy =
    LoginCode
  | UserToken
  | SubmitCode
  | RequesterSubmitToken
  | WebauthnChallenge
  | TimeSec nat

fun expires_at :: "expire_policy \<Rightarrow> nat \<Rightarrow> nat" where
  "expires_at LoginCode now = now + LOGIN_CODE_EXPIRE_S"
| "expires_at UserToken now = now + USER_TOKEN_EXPIRE_S"
| "expires_at SubmitCode now = now + SUBMIT_CODE_EXPIRE_S"
| "expires_at RequesterSubmitToken now = now + REQUESTER_SUBMIT_TOKEN_EXPIRE_S"
| "expires_at WebauthnChallenge now = now + WEBAUTHN_CHALLENGE_EXPIRE_S"
| "expires_at (TimeSec sec) now = now + sec"

definition from_now :: "desk \<Rightarrow> expire_policy \<Rightarrow> nat run" where
  "from_now D p = sbind (now_sec D) (\<lambda>now. sreturn (expires_at p now))"

subsection \<open>Secrets\<close>

definition pad_zeros :: "nat \<Rightarrow> string \<Rightarrow> string" where
  "pad_zeros n s = replicate (n - length s) CHR ''0'' @ s"

text \<open>
  \<^verbatim>\<open>generate_code\<close>: \<open>rnd bound\<close> is the random number below \<open>bound\<close>, \<open>None\<close> the panic of
  the assertion on the length. \<^verbatim>\<open>10u32.pow(len)\<close> is below \<open>2 ^ 32\<close> for the lengths it admits.
\<close>

definition generate_code :: "(nat \<Rightarrow> nat) \<Rightarrow> nat \<Rightarrow> string option" where
  "generate_code rnd len =
     (if 0 < len \<and> len < 10 then Some (pad_zeros len (show_nat (rnd (10 ^ len)))) else None)"

definition hash_token :: "auth_env \<Rightarrow> string \<Rightarrow> string" where
  "hash_token A secret = ae_hash A secret"

definition USER_TOKEN_PREFIX :: string where "USER_TOKEN_PREFIX = ''mtu_''"

definition REQUESTER_TOKEN_PREFIX :: string where "REQUESTER_TOKEN_PREFIX = ''mts_''"

definition API_TOKEN_PREFIX :: string where "API_TOKEN_PREFIX = ''mta_''"

definition SUBMIT_TOKEN_STATE_KIND :: string where "SUBMIT_TOKEN_STATE_KIND = ''submit_token''"

definition SUBMIT_CODE_STATE_KIND :: string where "SUBMIT_CODE_STATE_KIND = ''submit_code''"

definition submit_code_state_id :: "auth_env \<Rightarrow> string \<Rightarrow> string \<Rightarrow> string" where
  "submit_code_state_id A instance_id email =
     SUBMIT_CODE_STATE_KIND @ ''_'' @ hash_token A (instance_id @ '':'' @ email)"

definition submit_token_state_id :: "string \<Rightarrow> string" where
  "submit_token_state_id token_hash = SUBMIT_TOKEN_STATE_KIND @ ''_'' @ token_hash"

subsection \<open>Issuing tokens\<close>

definition issue_submit_token :: "auth_env \<Rightarrow> desk \<Rightarrow> string \<Rightarrow> string \<Rightarrow> string run" where
  "issue_submit_token A D email instance_id =
     sbind (generate_nonce D) (\<lambda>nonce.
     let secret = REQUESTER_TOKEN_PREFIX @ nonce; hash = hash_token A secret in
     sbind (from_now D RequesterSubmitToken) (\<lambda>expires.
     sbind (slift (map_err (\<lambda>e. Api (Anyhow e))
              (ae_token_json A \<lparr>sp_email = email, sp_instance_id = instance_id\<rparr>))) (\<lambda>payload.
     sbind (db_write D (\<lambda>n. put_ephemeral_state (dk_db D) (submit_token_state_id hash)
              SUBMIT_TOKEN_STATE_KIND payload expires)) (\<lambda>_.
     sreturn secret))))"

definition issue_user_token :: "auth_env \<Rightarrow> desk \<Rightarrow> string \<Rightarrow> string run" where
  "issue_user_token A D uid =
     sbind (generate_nonce D) (\<lambda>nonce.
     let secret = USER_TOKEN_PREFIX @ nonce; hash = hash_token A secret in
     sbind (from_now D UserToken) (\<lambda>expires.
     sbind (db_write D (\<lambda>n. create_user_token (dk_db D) (dk_id D n) (dk_clock D n) hash uid expires)) (\<lambda>_.
     sreturn secret)))"

definition issue_api_token :: "auth_env \<Rightarrow> desk \<Rightarrow> string \<Rightarrow> string \<Rightarrow> string \<Rightarrow> (api_token \<times> string) run" where
  "issue_api_token A D instance_id name creator =
     sbind (new_id D) (\<lambda>i.
     sbind (generate_nonce D) (\<lambda>nonce.
     let full_token = API_TOKEN_PREFIX @ i @ ''.'' @ nonce; hash = hash_token A full_token in
     sbind (db_write D (\<lambda>n. create_api_token (dk_db D) (dk_clock D n) i instance_id name hash creator)) (\<lambda>token.
     sreturn (token, full_token))))"

subsection \<open>From a user id to a principal\<close>

definition membership_of :: "membership \<Rightarrow> auth_membership" where
  "membership_of m = \<lparr>am_instance_id = mb_instance_id m, am_is_owner = (mb_role m = Owner)\<rparr>"

definition load_principal :: "desk \<Rightarrow> string \<Rightarrow> user \<Rightarrow> auth_info auth_run" where
  "load_principal D uid u =
     sbind (auth_clock D) (\<lambda>now.
     sbind (touch_if_stale D now (usr_access_time u) 60
              (\<lambda>n. update_user (dk_db D) (dk_clock D n) uid AccessTime)) (\<lambda>_.
     sbind (auth_read D ''fetch user memberships'' (list_memberships_by_user (dk_query D) uid)) (\<lambda>ms.
     sreturn (User uid (map membership_of ms) (usr_superuser u) None None))))"

definition fetch_update_user_auth_info :: "desk \<Rightarrow> string \<Rightarrow> auth_info auth_run" where
  "fetch_update_user_auth_info D uid =
     sbind (auth_read D ''fetch user from db'' (\<lambda>s.
              rbind (get_users (dk_db D) [uid] s) (\<lambda>us. Inr (first_row us)))) (\<lambda>row.
     sbind (slift (ok_or (Permanent ''User not found'') row)) (\<lambda>u.
     sbind (sensure (usr_enabled u) (Permanent ''User account is disabled'')) (\<lambda>_.
     load_principal D uid u)))"

text \<open>The principal of a token or of a grant carries its id.\<close>

fun with_credential :: "string option \<Rightarrow> string option \<Rightarrow> auth_info \<Rightarrow> auth_info" where
  "with_credential t g (User i ms su t' g') = User i ms su t g"
| "with_credential t g other = other"

subsection \<open>Verifying tokens\<close>

definition verify_token_with_user_token :: "auth_env \<Rightarrow> desk \<Rightarrow> string \<Rightarrow> auth_info auth_run" where
  "verify_token_with_user_token A D token =
     (let token_hash = hash_token A token in
      sbind (auth_read2 D ''fetch user token by hash''
               (get_user_token_by_hash (dk_db D) (dk_query D) token_hash)) (\<lambda>row.
      sbind (slift (ok_or (Permanent ''Invalid user token'') row)) (\<lambda>ut.
      sbind (auth_clock D) (\<lambda>now.
      sbind (sensure (\<not> ut_expires_at ut \<le> now) (Permanent ''User token has expired'')) (\<lambda>_.
      sbind (touch_if_stale D now (ut_last_used_at ut) 60
               (\<lambda>n. touch_user_token (dk_db D) (dk_clock D n) (ut_id ut))) (\<lambda>_.
      sbind (fetch_update_user_auth_info D (ut_user_id ut)) (\<lambda>auth.
      sreturn (with_credential (Some (ut_id ut)) None auth))))))))"

definition verify_token_with_requester_token :: "auth_env \<Rightarrow> desk \<Rightarrow> string \<Rightarrow> auth_info auth_run" where
  "verify_token_with_requester_token A D token =
     (let hash = hash_token A token in
      sbind (auth_read D ''fetch submit token'' (get_ephemeral_state (dk_db D) (submit_token_state_id hash))) (\<lambda>row.
      sbind (slift (ok_or (Permanent ''Invalid submit token'')
               (case row of None \<Rightarrow> None | Some st \<Rightarrow>
                  if es_kind st = SUBMIT_TOKEN_STATE_KIND then Some st else None))) (\<lambda>st.
      sbind (auth_clock D) (\<lambda>now.
      sbind (sensure (\<not> es_expires_at st \<le> now) (Permanent ''Submit token has expired'')) (\<lambda>_.
      sbind (slift (map_err (\<lambda>e. Permanent (''Corrupt submit token payload: '' @ e))
               (ae_token_of_json A (es_payload st)))) (\<lambda>payload.
      sreturn (Requester (sp_email payload) (sp_instance_id payload))))))))"

definition parse_api_token :: "string \<Rightarrow> (string \<times> string) option" where
  "parse_api_token token =
     (case strip_prefix API_TOKEN_PREFIX token of
        None \<Rightarrow> None
      | Some rest \<Rightarrow>
          (case split_once CHR ''.'' rest of
             None \<Rightarrow> None
           | Some (i, secret) \<Rightarrow> if i = [] \<or> secret = [] then None else Some (i, secret)))"

definition verify_token_with_api_token :: "auth_env \<Rightarrow> desk \<Rightarrow> string \<Rightarrow> auth_info auth_run" where
  "verify_token_with_api_token A D token =
     (case parse_api_token token of
        None \<Rightarrow> slift (Inl (Permanent ''Invalid API token''))
      | Some (i, secret) \<Rightarrow>
          sbind (auth_read_now D ''fetch api token'' (get_api_token (dk_db D) i)) (\<lambda>row.
          sbind (slift (ok_or (Permanent ''Invalid API token'') row)) (\<lambda>tk.
          sbind (sensure (constant_time_eq (hash_token A token) (tk_token_hash tk))
                   (Permanent ''Invalid API token'')) (\<lambda>_.
          sbind (sensure (tk_enabled tk) (Permanent ''API token is disabled'')) (\<lambda>_.
          sbind (auth_clock D) (\<lambda>now.
          sbind (touch_if_stale D now (tk_last_used_at tk) 60
                   (\<lambda>n. update_api_token (dk_db D) (dk_clock D n) (tk_id tk) TouchToken)) (\<lambda>_.
          sreturn (ApiToken (tk_id tk) (tk_instance_id tk)))))))))"

definition starts_with :: "string \<Rightarrow> string \<Rightarrow> bool" where
  "starts_with p s \<longleftrightarrow> strip_prefix p s \<noteq> None"

definition verify_token :: "auth_env \<Rightarrow> desk \<Rightarrow> string \<Rightarrow> auth_info auth_run" where
  "verify_token A D token =
     (if starts_with USER_TOKEN_PREFIX token then verify_token_with_user_token A D token
      else if starts_with REQUESTER_TOKEN_PREFIX token then verify_token_with_requester_token A D token
      else if starts_with API_TOKEN_PREFIX token then verify_token_with_api_token A D token
      else slift (Inl (Permanent ''Unrecognized token'')))"

text \<open>\<open>None\<close> is the absence of a recognised header: the request goes on without a principal.\<close>

definition verify_authorization_header ::
    "auth_env \<Rightarrow> desk \<Rightarrow> string option \<Rightarrow> world \<Rightarrow> (auth_error + auth_info) option \<times> world" where
  "verify_authorization_header A D header w =
     (case header of
        None \<Rightarrow> (None, w)
      | Some value \<Rightarrow>
          (case strip_prefix ''Bearer '' value of
             None \<Rightarrow> (None, w)
           | Some token \<Rightarrow> let (r, w') = verify_token A D token w in (Some r, w')))"

subsection \<open>The development override\<close>

fun email_error_text :: "email_error \<Rightarrow> string" where
  "email_error_text (EmailMissingAt raw) =
     CHR 0x22 # raw @ CHR 0x22 # '' is not a valid email address (missing '' @ [CHR 0x27, CHR ''@'', CHR 0x27] @ '')''"
| "email_error_text (EmailMalformed raw) = CHR 0x22 # raw @ CHR 0x22 # '' is not a valid email address''"

definition resolve_dev_auth :: "desk \<Rightarrow> string \<Rightarrow> auth_info auth_run" where
  "resolve_dev_auth D id_or_email =
     sbind (if CHR ''@'' \<in> set id_or_email
            then sbind (slift (map_err (\<lambda>e. Permanent (''Dev auth: invalid email '' @
                          CHR 0x22 # id_or_email @ CHR 0x22 # '': '' @ email_error_text e))
                          (normalize_user_email (dk_lower D) id_or_email))) (\<lambda>email.
                 sbind (auth_read D ''dev auth: fetch user by email''
                          (get_user_id_by_email (dk_query D) email)) (\<lambda>row.
                 slift (ok_or (Permanent (''Dev auth user not found: '' @ email)) row)))
            else sreturn id_or_email) (\<lambda>uid.
     fetch_update_user_auth_info D uid)"

subsection \<open>Telemetry\<close>

datatype caller_type = CallerUser | CallerRequester | CallerApiToken | Unauthenticated_caller

fun caller_type_str :: "caller_type \<Rightarrow> string" where
  "caller_type_str CallerUser = ''user''"
| "caller_type_str CallerRequester = ''requester''"
| "caller_type_str CallerApiToken = ''api_token''"
| "caller_type_str Unauthenticated_caller = ''unauthenticated''"

fun caller_info :: "auth_info option \<Rightarrow> caller_type \<times> string" where
  "caller_info None = (Unauthenticated_caller, ''unknown'')"
| "caller_info (Some (User i ms su t g)) = (CallerUser, i)"
| "caller_info (Some (Requester email i)) = (CallerRequester, email)"
| "caller_info (Some (ApiToken t i)) = (CallerApiToken, t)"

subsection \<open>Turnstile\<close>

definition turnstile_enabled :: "(string \<Rightarrow> string option) \<Rightarrow> bool" where
  "turnstile_enabled env =
     (if env ''TURNSTILE_DISABLED'' = Some ''1'' then False
      else (case env ''TURNSTILE_SECRET_KEY'' of None \<Rightarrow> False | Some v \<Rightarrow> trim v \<noteq> []))"

definition turnstile_verify :: "auth_env \<Rightarrow> desk \<Rightarrow> string option \<Rightarrow> string option \<Rightarrow> bool run" where
  "turnstile_verify A D token remote_ip =
     (if \<not> turnstile_enabled (dk_env D) then sreturn True
      else (case token of
        None \<Rightarrow> sreturn False
      | Some response \<Rightarrow>
          sbind (found (Api (Anyhow ''TURNSTILE_SECRET_KEY not set despite Turnstile being enabled''))
                   (dk_env D ''TURNSTILE_SECRET_KEY'')) (\<lambda>secret.
          call D (\<lambda>n s. (map_err (\<lambda>e. Api (Anyhow e)) (ae_siteverify A n secret response remote_ip), s)))))"

end
