(* ===== verification/Logins.thy ===== *)
theory Logins
  imports Sessions Ticket_Mutations
begin

section \<open>Login codes, submit codes and token management\<close>

text \<open>
  The mutations of \<^verbatim>\<open>graphql/mutations.rs\<close> that give out and take back credentials: the e-mail
  login code, the code of the public submit form, API tokens, logout and the revocation of an OAuth
  grant. A mutation that answers the same on every early return is its body, whose early returns
  are errors, under \<open>answering\<close>.
\<close>

subsection \<open>Bodies with early returns\<close>

text \<open>
  Any error but a panic is answered by \<open>b\<close>, a result by \<open>f\<close>. \<open>early\<close> is an early return, with
  the reason the code logs.
\<close>

definition answering :: "'b \<Rightarrow> ('a \<Rightarrow> 'b) \<Rightarrow> 'a run \<Rightarrow> 'b run" where
  "answering b f m w =
     (case m w of
        (Inl (Panic p), w') \<Rightarrow> (Inl (Panic p), w')
      | (Inl e, w') \<Rightarrow> (Inr b, w')
      | (Inr x, w') \<Rightarrow> (Inr (f x), w'))"

definition early :: "string \<Rightarrow> 'a run" where
  "early reason = slift (Inl (Api (Anyhow reason)))"

definition go_on :: "bool \<Rightarrow> string \<Rightarrow> unit run" where
  "go_on b reason = (if b then sreturn () else early reason)"

definition some_or :: "string \<Rightarrow> 'a option \<Rightarrow> 'a run" where
  "some_or reason x = (case x of Some y \<Rightarrow> sreturn y | None \<Rightarrow> early reason)"

definition LOGIN_CODE_RATE_LIMIT_S :: nat where "LOGIN_CODE_RATE_LIMIT_S = 30"

definition LOGIN_CODE_MAX_ATTEMPTS :: nat where "LOGIN_CODE_MAX_ATTEMPTS = 5"

definition LOGIN_CODE_DIGITS :: nat where "LOGIN_CODE_DIGITS = 6"

definition MAX_API_TOKEN_NAME_LEN :: nat where "MAX_API_TOKEN_NAME_LEN = 100"

definition new_code :: "auth_env \<Rightarrow> desk \<Rightarrow> string run" where
  "new_code A D =
     sbind (call D (\<lambda>n s. (Inr (generate_code (ae_rand A n) LOGIN_CODE_DIGITS), s))) (\<lambda>code.
     found (Panic ''assertion failed: len > 0 && len < 10'') code)"

definition code_text :: "string \<Rightarrow> string \<Rightarrow> string" where
  "code_text what code =
     ''Your '' @ what @ '' code is: '' @ code @ [CHR 10, CHR 10] @
     ''This code expires in 10 minutes. Do not share it.'' @ [CHR 10, CHR 10] @
     ''If you did not request this code, you can ignore this email.''"

definition send_plain_text :: "auth_env \<Rightarrow> desk \<Rightarrow> string \<Rightarrow> string \<Rightarrow> string \<Rightarrow> unit run" where
  "send_plain_text A D to subject body w =
     call D (\<lambda>n s. (map_err SendFailed (ae_text_mail A n to subject body), s))
       (w\<lparr>w_texts := w_texts w @ [(to, subject, body)]\<rparr>)"

text \<open>A user who may log in: the row exists and is enabled.\<close>

definition enabled_user :: "desk \<Rightarrow> string \<Rightarrow> unit run" where
  "enabled_user D uid =
     sbind (db_read D (\<lambda>s. rbind (get_users (dk_db D) [uid] s) (\<lambda>us. Inr (first_row us)))) (\<lambda>row.
     go_on (case row of Some u \<Rightarrow> usr_enabled u | None \<Rightarrow> False) ''user disabled or missing'')"

definition normalized_or_early :: "desk \<Rightarrow> string \<Rightarrow> string run" where
  "normalized_or_early D email =
     (case normalize_user_email (dk_lower D) email of Inl e \<Rightarrow> early ''malformed email'' | Inr e \<Rightarrow> sreturn e)"

subsection \<open>The e-mail login code\<close>

definition request_auth_code :: "auth_env \<Rightarrow> desk \<Rightarrow> string option \<Rightarrow> string \<Rightarrow> string option \<Rightarrow> unit run" where
  "request_auth_code A D remote_ip email turnstile_token =
     sbind (normalized_or_early D email) (\<lambda>email.
     sbind (turnstile_verify A D turnstile_token remote_ip) (\<lambda>passed.
     sbind (go_on passed ''Turnstile challenge failed'') (\<lambda>_.
     sbind (db_read D (get_user_id_by_email (dk_query D) email)) (\<lambda>row.
     sbind (some_or ''no such user'' row) (\<lambda>uid.
     sbind (enabled_user D uid) (\<lambda>_.
     sbind (now_sec D) (\<lambda>now.
     sbind (best_effort (db_read D (get_login_code (dk_db D) email))) (\<lambda>existing.
     sbind (go_on (case existing of
                Some (Some lc) \<Rightarrow> \<not> now < lc_last_sent_at lc + LOGIN_CODE_RATE_LIMIT_S
              | _ \<Rightarrow> True) ''Rate limit hit'') (\<lambda>_.
     sbind (new_code A D) (\<lambda>code.
     sbind (db_write D (\<lambda>n. put_login_code (dk_db D) email (hash_token A code)
              (expires_at LoginCode now) now)) (\<lambda>_.
     sbind (best_effort (send_plain_text A D email ''Your Toolbox login code'' (code_text ''login'' code))) (\<lambda>_.
     sreturn ()))))))))))))"

definition m_request_auth_code :: "auth_env \<Rightarrow> desk \<Rightarrow> string option \<Rightarrow> string \<Rightarrow> string option \<Rightarrow> bool run" where
  "m_request_auth_code A D remote_ip email turnstile_token =
     answering True (\<lambda>_. True) (request_auth_code A D remote_ip email turnstile_token)"

text \<open>What follows a match, a refused code and a compared one.\<close>

definition finish_login :: "auth_env \<Rightarrow> desk \<Rightarrow> string \<Rightarrow> string run" where
  "finish_login A D email =
     sbind (best_effort (db_write D (\<lambda>n. delete_login_code (dk_db D) email))) (\<lambda>_.
     sbind (db_read D (get_user_id_by_email (dk_query D) email)) (\<lambda>owner.
     sbind (some_or ''user not found'' owner) (\<lambda>uid.
     sbind (enabled_user D uid) (\<lambda>_.
     issue_user_token A D uid))))"

definition drop_login_code :: "desk \<Rightarrow> string \<Rightarrow> string \<Rightarrow> 'a run" where
  "drop_login_code D email reason =
     sbind (best_effort (db_write D (\<lambda>n. delete_login_code (dk_db D) email))) (\<lambda>_. early reason)"

definition compare_login_code :: "auth_env \<Rightarrow> desk \<Rightarrow> string \<Rightarrow> login_code \<Rightarrow> string \<Rightarrow> string run" where
  "compare_login_code A D email lc code =
     sbind (best_effort (db_write D (\<lambda>n. increment_login_code_attempts (dk_db D) email))) (\<lambda>_.
     sbind (go_on (lc_code_hash lc = hash_token A code) ''wrong code'') (\<lambda>_.
     finish_login A D email))"

definition verify_auth_code :: "auth_env \<Rightarrow> desk \<Rightarrow> string \<Rightarrow> string \<Rightarrow> string run" where
  "verify_auth_code A D email code =
     sbind (normalized_or_early D email) (\<lambda>email.
     sbind (now_sec D) (\<lambda>now.
     sbind (db_read D (get_login_code (dk_db D) email)) (\<lambda>row.
     sbind (some_or ''no code'' row) (\<lambda>lc.
     if lc_expires_at lc \<le> now then drop_login_code D email ''expired code''
     else if LOGIN_CODE_MAX_ATTEMPTS \<le> lc_attempts lc then drop_login_code D email ''too many attempts''
     else compare_login_code A D email lc code))))"

definition m_verify_auth_code :: "auth_env \<Rightarrow> desk \<Rightarrow> string \<Rightarrow> string \<Rightarrow> string option run" where
  "m_verify_auth_code A D email code = answering None Some (verify_auth_code A D email code)"

subsection \<open>The code of the public submit form\<close>

text \<open>The instance a slug names, when the public form is open there.\<close>

definition open_form :: "org_instance option \<Rightarrow> org_instance option" where
  "open_form row =
     (case row of
        Some i \<Rightarrow> if inst_public_submission_enabled i \<and> \<not> inst_deleted i \<and> inst_kind i = Support
                   then Some i else None
      | None \<Rightarrow> None)"

text \<open>The payload that limits the rate: a readable row of the right kind with a readable payload.\<close>

definition code_payload :: "auth_env \<Rightarrow> ephemeral_state option option \<Rightarrow> submit_code_payload option" where
  "code_payload A row =
     (case row of
        Some (Some st) \<Rightarrow>
          if es_kind st = SUBMIT_CODE_STATE_KIND
          then (case ae_code_of_json A (es_payload st) of Inr p \<Rightarrow> Some p | Inl e \<Rightarrow> None) else None
      | _ \<Rightarrow> None)"

definition request_submit_code ::
    "auth_env \<Rightarrow> desk \<Rightarrow> string option \<Rightarrow> string \<Rightarrow> string \<Rightarrow> string option \<Rightarrow> unit run" where
  "request_submit_code A D remote_ip slug email turnstile_token =
     sbind (turnstile_verify A D turnstile_token remote_ip) (\<lambda>passed.
     sbind (go_on passed ''Turnstile challenge failed'') (\<lambda>_.
     sbind (db_read D (get_instance_id_by_slug (dk_query D) slug)) (\<lambda>hit.
     sbind (some_or ''no such instance'' hit) (\<lambda>instance_id.
     sbind (get_instance D instance_id) (\<lambda>row.
     sbind (some_or ''instance not public or missing'' (open_form row)) (\<lambda>inst.
     sbind (now_sec D) (\<lambda>now.
     let state_id = submit_code_state_id A instance_id email in
     sbind (best_effort (db_read D (get_ephemeral_state (dk_db D) state_id))) (\<lambda>existing.
     sbind (go_on (case code_payload A existing of
                Some p \<Rightarrow> \<not> now < sc_last_sent_at p + LOGIN_CODE_RATE_LIMIT_S
              | None \<Rightarrow> True) ''Rate limit hit'') (\<lambda>_.
     sbind (new_code A D) (\<lambda>code.
     sbind (slift (map_err (\<lambda>e. Api (Anyhow e)) (ae_code_json A
              \<lparr>sc_code_hash = hash_token A code, sc_attempts = 0, sc_last_sent_at = now\<rparr>))) (\<lambda>payload.
     sbind (db_write D (\<lambda>n. put_ephemeral_state (dk_db D) state_id SUBMIT_CODE_STATE_KIND payload
              (expires_at SubmitCode now))) (\<lambda>_.
     sbind (best_effort (send_plain_text A D email (''Your '' @ inst_name inst @ '' verification code'')
              (code_text ''verification'' code))) (\<lambda>_.
     sreturn ())))))))))))))"

definition m_request_submit_code ::
    "auth_env \<Rightarrow> desk \<Rightarrow> string option \<Rightarrow> string \<Rightarrow> string \<Rightarrow> string option \<Rightarrow> bool run" where
  "m_request_submit_code A D remote_ip slug email turnstile_token =
     answering True (\<lambda>_. True) (request_submit_code A D remote_ip slug email turnstile_token)"

text \<open>The attempt is counted by writing the payload back, when it can be written.\<close>

definition count_attempt ::
    "auth_env \<Rightarrow> desk \<Rightarrow> string \<Rightarrow> ephemeral_state \<Rightarrow> submit_code_payload \<Rightarrow> unit run" where
  "count_attempt A D state_id st p =
     (case ae_code_json A (p\<lparr>sc_attempts := sc_attempts p + 1\<rparr>) of
        Inl e \<Rightarrow> sreturn ()
      | Inr updated \<Rightarrow>
          sbind (best_effort (db_write D (\<lambda>n. put_ephemeral_state (dk_db D) state_id SUBMIT_CODE_STATE_KIND
                   updated (es_expires_at st)))) (\<lambda>_. sreturn ()))"

definition verify_submit_code :: "auth_env \<Rightarrow> desk \<Rightarrow> string \<Rightarrow> string \<Rightarrow> string \<Rightarrow> string run" where
  "verify_submit_code A D slug email code =
     sbind (db_read D (get_instance_id_by_slug (dk_query D) slug)) (\<lambda>hit.
     sbind (some_or ''unknown slug'' hit) (\<lambda>instance_id.
     sbind (now_sec D) (\<lambda>now.
     let state_id = submit_code_state_id A instance_id email in
     sbind (db_read D (get_ephemeral_state (dk_db D) state_id)) (\<lambda>row.
     sbind (some_or ''no submit code'' (case row of
                Some st \<Rightarrow> if es_kind st = SUBMIT_CODE_STATE_KIND then Some st else None
              | None \<Rightarrow> None)) (\<lambda>st.
     if es_expires_at st \<le> now
     then sbind (best_effort (db_write D (\<lambda>n. delete_ephemeral_state (dk_db D) state_id))) (\<lambda>_. early ''expired code'')
     else
     sbind (case ae_code_of_json A (es_payload st) of Inl e \<Rightarrow> early ''corrupt payload'' | Inr p \<Rightarrow> sreturn p) (\<lambda>p.
     if LOGIN_CODE_MAX_ATTEMPTS \<le> sc_attempts p
     then sbind (best_effort (db_write D (\<lambda>n. delete_ephemeral_state (dk_db D) state_id))) (\<lambda>_. early ''too many attempts'')
     else
     sbind (count_attempt A D state_id st p) (\<lambda>_.
     sbind (go_on (sc_code_hash p = hash_token A code) ''wrong code'') (\<lambda>_.
     sbind (best_effort (db_write D (\<lambda>n. delete_ephemeral_state (dk_db D) state_id))) (\<lambda>_.
     issue_submit_token A D email instance_id)))))))))"

definition m_verify_submit_code :: "auth_env \<Rightarrow> desk \<Rightarrow> string \<Rightarrow> string \<Rightarrow> string \<Rightarrow> string option run" where
  "m_verify_submit_code A D slug email code = answering None Some (verify_submit_code A D slug email code)"

subsection \<open>API tokens\<close>

definition token_name :: "string \<Rightarrow> string run" where
  "token_name name =
     sbind (sensure_api (trim name \<noteq> []) (Anyhow ''name cannot be empty'')) (\<lambda>_.
     sbind (sensure_api (\<not> char_count (trim name) > MAX_API_TOKEN_NAME_LEN)
              (Anyhow ''name cannot be longer than 100 characters'')) (\<lambda>_.
     sreturn (trim name)))"

definition require_api_token_manager :: "desk \<Rightarrow> string \<Rightarrow> api_token run" where
  "require_api_token_manager D i =
     (case dk_auth D of
        Some (User u ms su tk g) \<Rightarrow>
          sbind (call D (\<lambda>n s. (db_error_of (get_api_token (dk_db D) i s), s))) (\<lambda>row.
          sbind (found (Api (not_found ''ApiToken'' i)) row) (\<lambda>token.
          sbind (sensure_api (\<not> (\<not> su \<and> \<not> is_owner ms (tk_instance_id token))) (not_found ''ApiToken'' i)) (\<lambda>_.
          sreturn token)))
      | _ \<Rightarrow> slift (Inl (Api must_be_user)))"

definition m_create_api_token :: "auth_env \<Rightarrow> desk \<Rightarrow> string \<Rightarrow> string \<Rightarrow> (api_token \<times> string) run" where
  "m_create_api_token A D instance_id name =
     sbind (guard D (RequireInstanceOwnerOrSuperuser instance_id)) (\<lambda>_.
     sbind (require_user_id D) (\<lambda>uid.
     sbind (token_name name) (\<lambda>name.
     sbind (support_instance D instance_id) (\<lambda>_.
     issue_api_token A D instance_id name uid))))"

definition m_update_api_token :: "desk \<Rightarrow> string \<Rightarrow> string \<Rightarrow> bool \<Rightarrow> api_token run" where
  "m_update_api_token D i name enabled =
     sbind (require_api_token_manager D i) (\<lambda>existing.
     sbind (token_name name) (\<lambda>name.
     sbind (db_write D (\<lambda>n. update_api_token (dk_db D) (dk_clock D n) (tk_id existing)
              (TokenFields name enabled))) (\<lambda>_.
     sreturn (existing\<lparr>tk_name := name, tk_enabled := enabled\<rparr>))))"

definition m_delete_api_token :: "desk \<Rightarrow> string \<Rightarrow> bool run" where
  "m_delete_api_token D i =
     sbind (require_api_token_manager D i) (\<lambda>existing.
     sbind (db_write D (\<lambda>n. delete_api_token (dk_db D) (tk_id existing))) (\<lambda>_.
     sreturn True))"

subsection \<open>Logout and revocation\<close>

definition m_logout :: "desk \<Rightarrow> bool run" where
  "m_logout D =
     sbind (guard D RequireAuthenticated) (\<lambda>_.
     sbind (case dk_auth D of
              Some (User u ms su (Some tk) g) \<Rightarrow> db_write D (\<lambda>n. delete_user_token (dk_db D) tk)
            | _ \<Rightarrow> sreturn ()) (\<lambda>_.
     sreturn True))"

definition m_revoke_oauth_grant :: "desk \<Rightarrow> string \<Rightarrow> bool run" where
  "m_revoke_oauth_grant D i =
     sbind (guard D RequireAuthenticated) (\<lambda>_.
     sbind (require_user_id D) (\<lambda>uid.
     sbind (call D (\<lambda>n s. (db_error_of (get_oauth_grant (dk_db D) i s), s))) (\<lambda>row.
     sbind (found (Api (Anyhow ''OAuth grant not found'')) row) (\<lambda>grant.
     sbind (sensure_api (og_user_id grant = uid) (Anyhow ''OAuth grant not found'')) (\<lambda>_.
     sbind (db_write D (\<lambda>n. delete_oauth_grant (dk_db D) i)) (\<lambda>_.
     sreturn True))))))"

end
