(* ===== verification/Auth_Rules.thy ===== *)
theory Auth_Rules
  imports Logins Desk_Isolation
begin

section \<open>Credential requests alone on the desk\<close>

text \<open>
  Triples for runs: from a state with \<open>P\<close> a run ends in a result and a state with \<open>Q\<close>, or in an
  error and a state with \<open>E\<close>. The locale \<open>current_desk\<close> is a request alone on the desk whose
  reads see the current state; \<open>obliging_desk\<close> adds that the service answers every read and
  carries out every write whose condition holds.
\<close>

definition triple ::
    "(store \<Rightarrow> bool) \<Rightarrow> (world \<Rightarrow> ('e + 'a) \<times> world) \<Rightarrow> ('a \<Rightarrow> store \<Rightarrow> bool) \<Rightarrow> (store \<Rightarrow> bool) \<Rightarrow> bool" where
  "triple P m Q E \<longleftrightarrow>
     (\<forall>w r w'. P (w_db w) \<longrightarrow> m w = (r, w') \<longrightarrow> (case r of Inl e \<Rightarrow> E (w_db w') | Inr x \<Rightarrow> Q x (w_db w')))"

lemma tripleI:
  "(\<And>w r w'. P (w_db w) \<Longrightarrow> m w = (r, w') \<Longrightarrow> case r of Inl e \<Rightarrow> E (w_db w') | Inr x \<Rightarrow> Q x (w_db w'))
     \<Longrightarrow> triple P m Q E"
  unfolding triple_def by blast

lemma tripleD:
  "triple P m Q E \<Longrightarrow> P (w_db w) \<Longrightarrow> m w = (r, w') \<Longrightarrow>
     (case r of Inl e \<Rightarrow> E (w_db w') | Inr x \<Rightarrow> Q x (w_db w'))"
  unfolding triple_def by blast

lemma triple_bind:
  assumes "triple P m R E" "\<And>x. triple (R x) (k x) Q E"
  shows "triple P (sbind m k) Q E"
proof (rule tripleI)
  fix w r w' assume P: "P (w_db w)" and run: "sbind m k w = (r, w')"
  obtain r1 w1 where m: "m w = (r1, w1)" by (cases "m w")
  note first = tripleD [OF assms(1) P m]
  show "case r of Inl e \<Rightarrow> E (w_db w') | Inr x \<Rightarrow> Q x (w_db w')"
  proof (cases r1)
    case (Inl e)
    with run m first show ?thesis by (auto simp: sbind_def)
  next
    case (Inr x)
    with run m have "k x w1 = (r, w')" by (simp add: sbind_def)
    with first Inr tripleD [OF assms(2)] show ?thesis by fastforce
  qed
qed

lemma triple_fact: "(F \<Longrightarrow> triple P m Q E) \<Longrightarrow> triple (\<lambda>s. F \<and> P s) m Q E"
  unfolding triple_def by blast

lemma triple_pre: "triple P m Q E \<Longrightarrow> (\<And>s. P' s \<Longrightarrow> P s) \<Longrightarrow> triple P' m Q E"
  unfolding triple_def by blast

lemma triple_post:
  "triple P m Q E \<Longrightarrow> (\<And>x s. Q x s \<Longrightarrow> Q' x s) \<Longrightarrow> (\<And>s. E s \<Longrightarrow> E' s) \<Longrightarrow> triple P m Q' E'"
  unfolding triple_def by (fastforce split: sum.splits)

lemma triple_return: "(\<And>s. P s \<Longrightarrow> Q x s) \<Longrightarrow> triple P (sreturn x) Q E"
  by (simp add: triple_def sreturn_def)

lemma triple_return_bind: "triple P (k x) Q E \<Longrightarrow> triple P (sbind (sreturn x) k) Q E"
  by (simp add: triple_def sbind_def sreturn_def)

lemma triple_lift:
  "(\<And>x s. P s \<Longrightarrow> r = Inr x \<Longrightarrow> Q x s) \<Longrightarrow> (\<And>s e. P s \<Longrightarrow> r = Inl e \<Longrightarrow> E s) \<Longrightarrow> triple P (slift r) Q E"
  by (auto simp: triple_def slift_def split: sum.splits)

lemma triple_ensure:
  "(\<And>s. P s \<Longrightarrow> b \<Longrightarrow> Q () s) \<Longrightarrow> (\<And>s. P s \<Longrightarrow> \<not> b \<Longrightarrow> E s) \<Longrightarrow> triple P (sensure b e) Q E"
  by (auto simp: triple_def sensure_def)

lemma triple_if:
  "(b \<Longrightarrow> triple P m Q E) \<Longrightarrow> (\<not> b \<Longrightarrow> triple P m' Q E) \<Longrightarrow> triple P (if b then m else m') Q E"
  by simp

lemma triple_early: "(\<And>s. P s \<Longrightarrow> E s) \<Longrightarrow> triple P (early reason) Q E"
  unfolding early_def by (rule triple_lift) auto

lemma triple_go_on:
  "(\<And>s. P s \<Longrightarrow> b \<Longrightarrow> Q () s) \<Longrightarrow> (\<And>s. P s \<Longrightarrow> \<not> b \<Longrightarrow> E s) \<Longrightarrow> triple P (go_on b reason) Q E"
  unfolding go_on_def by (cases b) (auto intro: triple_return triple_early)

lemma triple_some_or:
  "(\<And>x s. P s \<Longrightarrow> y = Some x \<Longrightarrow> Q x s) \<Longrightarrow> (\<And>s. P s \<Longrightarrow> y = None \<Longrightarrow> E s) \<Longrightarrow> triple P (some_or reason y) Q E"
  unfolding some_or_def by (cases y) (auto intro: triple_return triple_early)

lemma triple_best_effort:
  assumes "triple P m (\<lambda>_. Q) Q"
  shows "triple P (best_effort m) (\<lambda>_. Q) E"
proof (rule tripleI)
  fix w r w' assume P: "P (w_db w)" and run: "best_effort m w = (r, w')"
  obtain r1 w1 where m: "m w = (r1, w1)" by (cases "m w")
  from tripleD [OF assms P m] have "Q (w_db w1)" by (cases r1) simp_all
  with run m show "case r of Inl e \<Rightarrow> E (w_db w') | Inr x \<Rightarrow> Q (w_db w')"
    by (auto simp: best_effort_def split: sum.splits)
qed

lemma triple_let: "triple P (f a) Q E \<Longrightarrow> triple P (Let a f) Q E"
  by simp

subsection \<open>Desks\<close>

locale current_desk = solo_desk +
  assumes current: "dk_view D n s = s"

locale obliging_desk = current_desk +
  assumes writable: "\<not> h_read_only h"
    and obeys: "cond_holds s w \<Longrightarrow> actions_ok s w \<Longrightarrow> dy_write d s w = (Done, apply_write (dy_ss d) w s)"
    and reads: "dy_get d s t k = Inr (s t k)"

text \<open>An environment of the credential code with a trivial digest and codecs, for witnesses.\<close>

definition plain_auth :: auth_env where
  "plain_auth =
     \<lparr>ae_hash = (\<lambda>s. ''#'' @ s), ae_rand = (\<lambda>n bound. n), ae_siteverify = (\<lambda>n secret response ip. Inr True),
      ae_text_mail = (\<lambda>n to subject body. Inr ()), ae_code_json = (\<lambda>p. Inr (sc_code_hash p)),
      ae_code_of_json = (\<lambda>s. Inl ''no JSON''), ae_token_json = (\<lambda>p. Inr (sp_email p @ '' '' @ sp_instance_id p)),
      ae_token_of_json = (\<lambda>s. case split_once CHR '' '' s of None \<Rightarrow> Inl ''no JSON''
         | Some (e, i) \<Rightarrow> Inr \<lparr>sp_email = e, sp_instance_id = i\<rparr>)\<rparr>"

interpretation obliging: obliging_desk ref_dynamo ref_handler ref_index quiet_desk
  by unfold_locales (simp_all add: quiet_desk_def ref_handler_def ref_dynamo_def)

lemma found_Inr: "found e row w = (Inr x, w1) \<longleftrightarrow> row = Some x \<and> w1 = w"
  by (auto simp: found_def ok_or_def split: option.splits)

lemma ensure_api_Inr: "sensure_api b e w = (Inr u, w1) \<longleftrightarrow> b \<and> w1 = w"
  by (auto simp: sensure_api_def)

context solo_desk begin

lemma triple_call:
  assumes "\<And>n s r s'. P s \<Longrightarrow> m n s = (r, s') \<Longrightarrow> (case r of Inl e \<Rightarrow> E s' | Inr x \<Rightarrow> Q x s')"
  shows "triple P (call D m) Q E"
proof (rule tripleI)
  fix w r w' assume P: "P (w_db w)" and run: "call D m w = (r, w')"
  from run obtain s' where m: "m (w_n w) (w_db w) = (r, s')" and w': "w_db w' = s'"
    by (auto simp: call_def Let_def alone split: prod.splits)
  show "case r of Inl e \<Rightarrow> E (w_db w') | Inr x \<Rightarrow> Q x (w_db w')" unfolding w' by (rule assms [OF P m])
qed

lemma call_step: "call D (\<lambda>n s. (f n s, s)) w = (f (w_n w) (w_db w), w\<lparr>w_n := Suc (w_n w)\<rparr>)"
  by (simp add: call_def alone Let_def)

lemma tick_steps:
  "now_sec D w = (Inr (dk_clock D (w_n w)), w\<lparr>w_n := Suc (w_n w)\<rparr>)"
  "new_id D w = (Inr (dk_id D (w_n w)), w\<lparr>w_n := Suc (w_n w)\<rparr>)"
  "generate_nonce D w = (Inr (dk_nonce D (w_n w)), w\<lparr>w_n := Suc (w_n w)\<rparr>)"
  unfolding now_sec_def new_id_def generate_nonce_def call_step by simp_all

lemma write_Inr:
  "db_write D m w = (Inr x, w1) \<longleftrightarrow>
     (\<exists>s'. m (w_n w) (w_db w) = (Inr x, s') \<and> w1 = w\<lparr>w_db := s', w_n := Suc (w_n w)\<rparr>)"
  by (auto simp: db_write_def call_def alone Let_def db_error_of_def map_err_def split: prod.splits sum.splits)

lemma get_row_spec:
  assumes "get_row (dk_db D) t f k s = Inr row"
  shows "case row of None \<Rightarrow> s t k = None | Some r \<Rightarrow> \<exists>it. s t k = Some it \<and> f it = Inr r"
proof -
  from assms obtain it where it: "dy_get d s t k = Inr it" "hydrated f it = Inr row"
    by (auto simp: get_row_def handler svc)
  from get_consistent [OF it(1)] it(2) show ?thesis by (auto simp: hydrated_def split: option.splits)
qed

lemma triple_quiet: "(\<And>n s x. P s \<Longrightarrow> f n = Inr x \<Longrightarrow> Q x s) \<Longrightarrow> (\<And>s. P s \<Longrightarrow> E s) \<Longrightarrow>
    triple P (call D (\<lambda>n s. (f n, s))) Q E"
  by (rule triple_call) (auto split: sum.splits)

lemma triple_ticks:
  "triple P (now_sec D) (\<lambda>_. P) E" "triple P (new_id D) (\<lambda>_. P) E" "triple P (generate_nonce D) (\<lambda>_. P) E"
  unfolding now_sec_def new_id_def generate_nonce_def by (rule triple_call, fastforce)+

lemma triple_from_now: "triple P (from_now D p) (\<lambda>_. P) E"
  unfolding from_now_def by (rule triple_bind [OF triple_ticks(1) triple_return])

lemma triple_clock: "(\<And>now s. P s \<Longrightarrow> (\<exists>n. now = dk_clock D n) \<Longrightarrow> Q now s) \<Longrightarrow> triple P (auth_clock D) Q E"
  unfolding auth_clock_def by (rule triple_call) fastforce

lemma triple_write:
  assumes "\<And>n s r s'. P s \<Longrightarrow> m n s = (r, s') \<Longrightarrow> (case r of Inl e \<Rightarrow> E s' | Inr x \<Rightarrow> Q x s')"
  shows "triple P (db_write D m) Q E"
  unfolding db_write_def
proof (rule triple_call)
  fix n s r s' assume P: "P s" and run: "(let (r, s') = m n s in (db_error_of r, s')) = (r, s')"
  then obtain r1 where "m n s = (r1, s')" "r = db_error_of r1" by (auto split: prod.splits)
  with assms [OF P] show "case r of Inl e \<Rightarrow> E s' | Inr x \<Rightarrow> Q x s'"
    by (fastforce simp: db_error_of_def map_err_def split: sum.splits)
qed

end

context current_desk begin

lemma triple_read:
  assumes "\<And>s e. P s \<Longrightarrow> f s = Inl e \<Longrightarrow> E s" "\<And>s x. P s \<Longrightarrow> f s = Inr x \<Longrightarrow> Q x s"
  shows "triple P (db_read D f) Q E"
  unfolding db_read_def
  by (rule triple_call) (use assms in \<open>auto simp: current db_error_of_def map_err_def split: sum.splits\<close>)

lemma triple_auth_read:
  assumes "\<And>s e. P s \<Longrightarrow> f s = Inl e \<Longrightarrow> E s" "\<And>s x. P s \<Longrightarrow> f s = Inr x \<Longrightarrow> Q x s"
  shows "triple P (auth_read D msg f) Q E"
  unfolding auth_read_def
  by (rule triple_call) (use assms in \<open>auto simp: current map_err_def split: sum.splits\<close>)

end

context obliging_desk begin

lemma plain_done:
  "cond_holds s w \<Longrightarrow> actions_ok s w \<Longrightarrow> send_plain (dk_db D) w s = (Inr (), apply_write (dy_ss d) w s)"
  by (simp add: send_defs handler svc writable obeys)

lemma row_read: "get_row (dk_db D) t f k s = hydrated f (s t k)"
  by (simp add: get_row_def handler svc reads map_err_def)

end

end
