(* ===== verification/Login_Safety.thy ===== *)
theory Login_Safety
  imports Auth_Rules
begin

section \<open>Login codes: five guesses, one success\<close>

text \<open>
  A login code is worth five guesses, of which at most one succeeds. \<open>code_row\<close> is the row
  \<^verbatim>\<open>requestAuthCode\<close> stored after \<open>n\<close> guesses, \<open>spent k\<close> says that the code is gone or that at
  least \<open>k\<close> guesses were counted.
\<close>

definition code_row :: "string \<Rightarrow> string \<Rightarrow> nat \<Rightarrow> nat \<Rightarrow> nat \<Rightarrow> item" where
  "code_row e code_hash expires sent n = (login_code_row e code_hash expires sent)(''attempts'' \<mapsto> AN (int n))"

definition spent :: "string \<Rightarrow> string \<Rightarrow> nat \<Rightarrow> nat \<Rightarrow> nat \<Rightarrow> store \<Rightarrow> bool" where
  "spent e code_hash expires sent k s \<longleftrightarrow>
     (case s ''login_code'' e of
        None \<Rightarrow> True
      | Some it \<Rightarrow> \<exists>n. k \<le> n \<and> n \<le> LOGIN_CODE_MAX_ATTEMPTS \<and> it = code_row e code_hash expires sent n)"

definition gone :: "string \<Rightarrow> store \<Rightarrow> bool" where
  "gone e s \<longleftrightarrow> s ''login_code'' e = None"

lemma gone_spent: "gone e s \<Longrightarrow> spent e h x t k s"
  by (simp add: gone_def spent_def)

text \<open>\<open>verify_auth_code\<close> run with each of a list of guesses, spelled in any way that normalises to \<open>e\<close>.\<close>

fun guess_all :: "auth_env \<Rightarrow> desk \<Rightarrow> (string \<times> string) list \<Rightarrow> world \<Rightarrow> (desk_error + string option) list \<times> world" where
  "guess_all A D [] w = ([], w)"
| "guess_all A D ((email, code) # gs) w =
     (let (r, w1) = m_verify_auth_code A D email code w; (rs, w2) = guess_all A D gs w1 in (r # rs, w2))"

fun logged_in :: "desk_error + string option \<Rightarrow> bool" where
  "logged_in (Inr (Some token)) = True"
| "logged_in _ = False"

subsection \<open>The row\<close>

lemma in_i64_small: "n < 2 ^ 63 \<Longrightarrow> in_i64 (int n)"
  by (simp add: in_i64_def i64_min_def i64_max_def)

lemma hydrate_code_row:
  assumes "expires < 2 ^ 63" "sent < 2 ^ 63" "n \<le> LOGIN_CODE_MAX_ATTEMPTS"
  shows "hydrate_login_code (code_row e h expires sent n) =
     Inr \<lparr>lc_email = e, lc_code_hash = h, lc_expires_at = expires, lc_attempts = n, lc_last_sent_at = sent\<rparr>"
  using assms in_i64_small [of n] in_i64_small [OF assms(1)] in_i64_small [OF assms(2)]
  by (simp add: hydrate_login_code_def code_row_def login_code_row_def row_simps LOGIN_CODE_MAX_ATTEMPTS_def
      unwrap_or_def as_u64_def)

context obliging_desk begin

lemma triple_done:
  assumes "\<And>s. P s \<Longrightarrow> cond_holds s req \<and> actions_ok s req"
    and "\<And>s. P s \<Longrightarrow> Q (apply_write (dy_ss d) req s)"
  shows "triple P (db_write D (\<lambda>n. send_plain (dk_db D) req)) (\<lambda>_. Q) E"
  by (rule triple_write) (use assms plain_done in \<open>fastforce split: sum.splits\<close>)

lemma triple_deleted:
  "triple P (best_effort (db_write D (\<lambda>n. delete_login_code (dk_db D) e))) (\<lambda>_. gone e) E"
  unfolding delete_login_code_def
  by (rule triple_best_effort, rule triple_done)
    (simp_all add: cond_holds_def gone_def apply_write_row)

lemma triple_counted:
  assumes "n < LOGIN_CODE_MAX_ATTEMPTS"
  shows "triple (\<lambda>s. s ''login_code'' e = Some (code_row e ch x t n))
     (best_effort (db_write D (\<lambda>k. increment_login_code_attempts (dk_db D) e)))
     (\<lambda>_. spent e ch x t (Suc n)) E"
  unfolding increment_login_code_attempts_def
proof (rule triple_best_effort, rule triple_done)
  fix s :: store assume row: "s ''login_code'' e = Some (code_row e ch x t n)"
  let ?req = "Update ''login_code'' ''email'' e [AAddN ''attempts'' 1] CTrue"
  show "cond_holds s ?req \<and> actions_ok s ?req"
    using row by (simp add: cond_holds_def update_base_def code_row_def)
  have "apply_write (dy_ss d) ?req s ''login_code'' e = Some (code_row e ch x t (Suc n))"
    using row by (simp add: apply_write_row update_base_def code_row_def add.commute)
  then show "spent e ch x t (Suc n) (apply_write (dy_ss d) ?req s)"
    using assms by (auto simp: spent_def)
qed

text \<open>Nothing after the code's deletion writes the table of codes.\<close>

lemma triple_gone_read: "triple (gone e) (db_read D f) (\<lambda>_. gone e) (gone e)"
  by (rule triple_read)

lemma triple_issue_gone: "triple (gone e) (issue_user_token A D uid) (\<lambda>_. gone e) (gone e)"
proof -
  have stored: "triple (gone e) (db_write D (\<lambda>n. create_user_token (dk_db D) (dk_id D n) (dk_clock D n) hash uid expires))
      (\<lambda>_. gone e) (gone e)" for hash expires
  proof (rule triple_write)
    fix n s r s' assume s: "gone e s"
      and run: "create_user_token (dk_db D) (dk_id D n) (dk_clock D n) hash uid expires s = (r, s')"
    from run obtain r1 where sent: "send_plain h (Put ''user_token'' (dk_id D n)
        (user_token_row (dk_id D n) (dk_clock D n) hash uid expires) CTrue) s = (r1, s')"
      by (auto simp: create_user_token_def handler Let_def split: prod.splits)
    have "gone e s'"
      using plain_any [OF sent] s commits_other [of "dy_ss d" s _ s' "''login_code''" e]
      by (auto simp: gone_def)
    then show "case r of Inl e' \<Rightarrow> gone e s' | Inr x \<Rightarrow> gone e s'" by (simp split: sum.splits)
  qed
  show ?thesis
    unfolding issue_user_token_def
    by (rule triple_bind [OF triple_ticks(3)], unfold Let_def,
        rule triple_bind [OF triple_from_now], rule triple_bind [OF stored], rule triple_return)
qed

lemma triple_enabled_gone: "triple (gone e) (enabled_user D uid) (\<lambda>_. gone e) (gone e)"
  unfolding enabled_user_def by (rule triple_bind [OF triple_gone_read], rule triple_go_on)

text \<open>One guess.\<close>

lemma triple_finish: "triple P (finish_login A D e) (\<lambda>t. gone e) (gone e)"
  unfolding finish_login_def
  by (rule triple_bind [OF triple_deleted], rule triple_bind [OF triple_gone_read],
      rule triple_bind [where R = "\<lambda>_. gone e"], rule triple_some_or, assumption+,
      rule triple_bind [OF triple_enabled_gone], rule triple_issue_gone)

lemma triple_drop: "triple P (drop_login_code D e reason) Q (gone e)"
  unfolding drop_login_code_def by (rule triple_bind [OF triple_deleted], rule triple_early)

lemma triple_compare:
  assumes "n < LOGIN_CODE_MAX_ATTEMPTS"
  shows "triple (\<lambda>s. s ''login_code'' e = Some (code_row e ch x t n)) (compare_login_code A D e lc code)
     (\<lambda>_. gone e) (spent e ch x t (Suc n))"
  unfolding compare_login_code_def
  by (rule triple_bind [OF triple_counted [OF assms]], rule triple_bind [where R = "\<lambda>_ _. True"],
      rule triple_go_on, rule TrueI, assumption, rule triple_post [OF triple_finish])
    (assumption | rule gone_spent)+

lemma triple_guess:
  assumes "expires < 2 ^ 63" "sent < 2 ^ 63"
  shows "triple (spent e ch expires sent k) (db_read D (get_login_code (dk_db D) e))
     (\<lambda>row s. case row of None \<Rightarrow> gone e s
        | Some lc \<Rightarrow> k \<le> lc_attempts lc \<and> s ''login_code'' e = Some (code_row e ch expires sent (lc_attempts lc)))
     E"
  using hydrate_code_row [OF assms]
  by (intro triple_read)
    (auto simp: get_login_code_def row_read hydrated_def spent_def gone_def map_err_def split: option.splits)

lemma spent_mono: "spent e ch x t m s \<Longrightarrow> k \<le> m \<Longrightarrow> spent e ch x t k s"
  by (cases "s ''login_code'' e") (auto simp: spent_def, use le_trans in blast)

lemma one_guess:
  assumes email: "normalize_user_email (dk_lower D) email = Inr e" and i64: "expires < 2 ^ 63" "sent < 2 ^ 63"
  shows "triple (spent e ch expires sent k) (verify_auth_code A D email code)
     (\<lambda>t s. k < LOGIN_CODE_MAX_ATTEMPTS \<and> gone e s) (spent e ch expires sent (Suc k))"
proof -
  let ?after = "spent e ch expires sent (Suc k)"
  have found: "triple (\<lambda>s. case Some lc of None \<Rightarrow> gone e s
        | Some lc \<Rightarrow> k \<le> lc_attempts lc \<and> s ''login_code'' e = Some (code_row e ch expires sent (lc_attempts lc)))
     (if lc_expires_at lc \<le> now then drop_login_code D e ''expired code''
      else if LOGIN_CODE_MAX_ATTEMPTS \<le> lc_attempts lc then drop_login_code D e ''too many attempts''
      else compare_login_code A D e lc code)
     (\<lambda>t s. k < LOGIN_CODE_MAX_ATTEMPTS \<and> gone e s) ?after" for lc now
    unfolding option.case
  proof (rule triple_fact, intro triple_if)
    assume k: "k \<le> lc_attempts lc" and n: "\<not> LOGIN_CODE_MAX_ATTEMPTS \<le> lc_attempts lc"
    then have "lc_attempts lc < LOGIN_CODE_MAX_ATTEMPTS" by simp
    from triple_compare [OF this]
    show "triple (\<lambda>s. s ''login_code'' e = Some (code_row e ch expires sent (lc_attempts lc)))
       (compare_login_code A D e lc code) (\<lambda>t s. k < LOGIN_CODE_MAX_ATTEMPTS \<and> gone e s) ?after"
      by (rule triple_post) (use k n in \<open>auto intro: spent_mono\<close>)
  qed (rule triple_post [OF triple_drop]; (assumption | rule gone_spent, assumption))+
  have miss: "triple (\<lambda>s. case None of None \<Rightarrow> gone e s
        | Some lc \<Rightarrow> k \<le> lc_attempts lc \<and> s ''login_code'' e = Some (code_row e ch expires sent (lc_attempts lc)))
     (sbind (some_or ''no code'' None) f) Q ?after" for f :: "login_code \<Rightarrow> string run" and Q
    by (rule triple_bind, rule triple_some_or) (auto intro: gone_spent simp: triple_def)
  show ?thesis
    unfolding verify_auth_code_def normalized_or_early_def email sum.case
  proof (rule triple_bind [OF triple_return [where Q = "\<lambda>e' s. e' = e \<and> spent e ch expires sent k s"]])
    show "triple (\<lambda>s. email' = e \<and> spent e ch expires sent k s)
       (sbind (now_sec D) (\<lambda>now.
        sbind (db_read D (get_login_code (dk_db D) email')) (\<lambda>row.
        sbind (some_or ''no code'' row) (\<lambda>lc.
          if lc_expires_at lc \<le> now then drop_login_code D email' ''expired code''
          else if LOGIN_CODE_MAX_ATTEMPTS \<le> lc_attempts lc then drop_login_code D email' ''too many attempts''
          else compare_login_code A D email' lc code))))
       (\<lambda>t s. k < LOGIN_CODE_MAX_ATTEMPTS \<and> gone e s) ?after" for email'
    proof (rule triple_fact, simp only:, rule triple_bind [OF triple_ticks(1)],
        rule triple_bind [OF triple_guess [OF i64]])
      fix now row
      show "triple (\<lambda>s. case row of None \<Rightarrow> gone e s
        | Some lc \<Rightarrow> k \<le> lc_attempts lc \<and> s ''login_code'' e = Some (code_row e ch expires sent (lc_attempts lc)))
       (sbind (some_or ''no code'' row) (\<lambda>lc.
          if lc_expires_at lc \<le> now then drop_login_code D e ''expired code''
          else if LOGIN_CODE_MAX_ATTEMPTS \<le> lc_attempts lc then drop_login_code D e ''too many attempts''
          else compare_login_code A D e lc code))
       (\<lambda>t s. k < LOGIN_CODE_MAX_ATTEMPTS \<and> gone e s) ?after"
        by (cases row) (simp_all only: miss, simp add: some_or_def triple_return_bind found [unfolded option.case])
    qed
  qed simp
qed

lemma many_guesses:
  assumes i64: "expires < 2 ^ 63" "sent < 2 ^ 63"
    and "\<forall>(email, code) \<in> set gs. normalize_user_email (dk_lower D) email = Inr e"
    and "spent e ch expires sent k (w_db w)" "guess_all A D gs w = (rs, w')"
  shows "(\<forall>i < length rs. LOGIN_CODE_MAX_ATTEMPTS \<le> i + k \<longrightarrow> \<not> logged_in (rs ! i))
    \<and> length (filter logged_in rs) \<le> 1"
  using assms(3-)
proof (induction gs arbitrary: k w rs w')
  case (Cons g gs)
  obtain email code where g: "g = (email, code)" by (cases g)
  have email: "normalize_user_email (dk_lower D) email = Inr e"
    and rest: "\<forall>(email, code) \<in> set gs. normalize_user_email (dk_lower D) email = Inr e"
    using Cons.prems(1) by (simp_all add: g)
  obtain v w1 where v: "verify_auth_code A D email code w = (v, w1)" by (cases "verify_auth_code A D email code w")
  obtain r where r: "m_verify_auth_code A D email code w = (r, w1)" and won: "logged_in r \<longleftrightarrow> (\<exists>t. v = Inr t)"
    using v by (cases v rule: sum.exhaust; cases "projl v") (auto simp: m_verify_auth_code_def answering_def)
  obtain rs1 w2 where rs1: "guess_all A D gs w1 = (rs1, w2)" by (cases "guess_all A D gs w1")
  with Cons.prems(3) r g have rs: "rs = r # rs1" by simp
  note one = tripleD [OF one_guess [OF email i64, where ch = ch and k = k] Cons.prems(2) v]
  show ?case
  proof (cases v)
    case (Inl e1)
    with one have "spent e ch expires sent (Suc k) (w_db w1)" by simp
    from Cons.IH [OF rest this rs1] Inl won show ?thesis by (auto simp: rs nth_Cons split: nat.splits)
  next
    case (Inr t)
    with one have k: "k < LOGIN_CODE_MAX_ATTEMPTS" and "gone e (w_db w1)" by simp_all
    from Cons.IH [OF rest gone_spent [OF this(2), where t = sent and x = expires and h = ch and k = LOGIN_CODE_MAX_ATTEMPTS] rs1]
    have none: "\<forall>i < length rs1. \<not> logged_in (rs1 ! i)" by simp
    then have "filter logged_in rs1 = []" by (auto simp: filter_empty_conv in_set_conv_nth)
    with none k show ?thesis by (auto simp: rs nth_Cons split: nat.splits)
  qed
qed simp

end

text \<open>
  C20. A login code is worth five guesses and one success. From the row \<^verbatim>\<open>requestAuthCode\<close> stores,
  whatever codes are tried, in whatever spelling of the address, at most one try logs in, and none
  after the fifth does. This is for one client alone and a database that answers: the count is
  kept by a best-effort write.
\<close>

theorem login_guesses_bounded:
  assumes "obliging_desk d h q D"
    and "\<forall>(email, code) \<in> set gs. normalize_user_email (dk_lower D) email = Inr e"
    and "w_db w ''login_code'' e = Some (login_code_row e code_hash expires sent)"
    and "expires < 2 ^ 63" "sent < 2 ^ 63"
    and "guess_all A D gs w = (rs, w')"
  shows "length (filter logged_in rs) \<le> 1
    \<and> (\<forall>i < length rs. LOGIN_CODE_MAX_ATTEMPTS \<le> i \<longrightarrow> \<not> logged_in (rs ! i))"
proof -
  have "login_code_row e code_hash expires sent = code_row e code_hash expires sent 0"
    by (auto simp: code_row_def login_code_row_def)
  then have "spent e code_hash expires sent 0 (w_db w)"
    using assms(3) by (auto simp: spent_def LOGIN_CODE_MAX_ATTEMPTS_def)
  from obliging_desk.many_guesses [OF assms(1,4,5,2) this assms(6)] show ?thesis by simp
qed

definition coded_world :: world where
  "coded_world =
     \<lparr>w_db = (\<lambda>t. if t = ''login_code'' then [''a@b'' \<mapsto> login_code_row ''a@b'' ''#123456'' 700 100] else Map.empty),
      w_n = 0, w_sent = [], w_objects = [], w_texts = []\<rparr>"

theorem login_guesses_bounded_witness:
  "let rs = fst (guess_all plain_auth quiet_desk (replicate 6 ('' A@b'', ''000000'')) coded_world) in
     length rs = 6 \<and> length (filter logged_in rs) \<le> 1 \<and> \<not> logged_in (rs ! 5)"
proof -
  let ?gs = "replicate 6 ('' A@b'', ''000000'')"
  obtain rs w' where run: "guess_all plain_auth quiet_desk ?gs coded_world = (rs, w')"
    by (cases "guess_all plain_auth quiet_desk ?gs coded_world")
  have lower: "dk_lower quiet_desk = to_ascii_lowercase" by (simp add: quiet_desk_def)
  have email: "normalize_user_email to_ascii_lowercase '' A@b'' = Inr ''a@b''" by code_simp
  have len: "length (fst (guess_all A D gs w)) = length gs" for A D gs w
    by (induction A D gs w rule: guess_all.induct) (auto split: prod.splits)
  from login_guesses_bounded [OF obliging.obliging_desk_axioms _ _ _ _ run, of "''a@b''" "''#123456''" 700 100]
  have "length (filter logged_in rs) \<le> 1 \<and> (\<forall>i < length rs. LOGIN_CODE_MAX_ATTEMPTS \<le> i \<longrightarrow> \<not> logged_in (rs ! i))"
    by (simp add: lower email coded_world_def)
  with len [of plain_auth quiet_desk ?gs coded_world] run show ?thesis
    by (simp add: LOGIN_CODE_MAX_ATTEMPTS_def)
qed

end
