(* ===== verification/Token_Safety.thy ===== *)
theory Token_Safety
  imports Auth_Rules
begin

section \<open>What a verified token proves\<close>

text \<open>
  A principal that \<^verbatim>\<open>verify_token\<close> answers is backed by rows of the database: the session row
  whose hash is the token's, the enabled user it names and that user's memberships. A fresh API
  token verifies until it is disabled.
\<close>

lemma id_hydrate_user: "id_hydrate hydrate_user usr_id"
  by (auto simp: id_hydrate_def hydrate_user_def)

lemma hydrate_userD: "hydrate_user it = Inr u \<Longrightarrow> it ''id'' = Some (AS (usr_id u))"
  using id_hydrate_user by (auto simp: id_hydrate_def)

lemma hydrate_user_tokenD:
  "hydrate_user_token it = Inr ut \<Longrightarrow>
     it ''id'' = Some (AS (ut_id ut)) \<and> it ''token_hash'' = Some (AS (ut_token_hash ut))
     \<and> it ''user_id'' = Some (AS (ut_user_id ut))"
  by (auto simp: hydrate_user_token_def)

lemma hydrate_membershipD:
  "hydrate_membership it = Inr m \<Longrightarrow>
     it ''user_id'' = Some (AS (mb_user_id m)) \<and> it ''instance_id'' = Some (AS (mb_instance_id m))
     \<and> it ''id'' = Some (AS (mb_id m))"
  by (auto simp: hydrate_membership_def Let_def)

lemma mapM_Inr: "mapM f xs = Inr ys \<longleftrightarrow> list_all2 (\<lambda>x y. f x = Inr y) xs ys"
proof (induction xs arbitrary: ys)
  case (Cons x xs)
  show ?case by (cases "f x"; cases "mapM f xs") (use Cons in \<open>auto simp: list_all2_Cons1\<close>)
qed auto

lemma all2_right: "list_all2 P xs ys \<Longrightarrow> y \<in> set ys \<Longrightarrow> \<exists>x \<in> set xs. P x y"
  by (induction rule: list_all2_induct) auto

lemma all2_left: "list_all2 P xs ys \<Longrightarrow> x \<in> set xs \<Longrightarrow> \<exists>y \<in> set ys. P x y"
  by (induction rule: list_all2_induct) auto

subsection \<open>The rows behind a user\<close>

text \<open>\<open>backed s i ms su\<close>: \<open>i\<close> is an enabled user of \<open>s\<close>, \<open>ms\<close> its memberships, \<open>su\<close> its superuser flag.\<close>

definition backed :: "store \<Rightarrow> string \<Rightarrow> auth_membership list \<Rightarrow> bool \<Rightarrow> bool" where
  "backed s i ms su \<longleftrightarrow>
     (\<exists>it u. s ''user'' i = Some it \<and> hydrate_user it = Inr u \<and> usr_enabled u \<and> su = usr_superuser u)
     \<and> (\<forall>m. m \<in> set ms \<longleftrightarrow>
          (\<exists>k it mb. s ''membership'' k = Some it \<and> hydrate_membership it = Inr mb \<and> mb_user_id mb = i
             \<and> m = membership_of mb))"

text \<open>A live session row of the token: its hash is the token's and it had not expired at some reading of the clock.\<close>

definition live_session :: "auth_env \<Rightarrow> desk \<Rightarrow> store \<Rightarrow> string \<Rightarrow> string \<Rightarrow> string \<Rightarrow> bool" where
  "live_session A D s token tid i \<longleftrightarrow>
     (\<exists>it ut. s ''user_token'' tid = Some it \<and> hydrate_user_token it = Inr ut
        \<and> ut_token_hash ut = hash_token A token \<and> ut_user_id ut = i
        \<and> (\<exists>n. dk_clock D n < ut_expires_at ut))"

definition live_submit_token :: "auth_env \<Rightarrow> desk \<Rightarrow> store \<Rightarrow> string \<Rightarrow> string \<Rightarrow> string \<Rightarrow> bool" where
  "live_submit_token A D s token email i \<longleftrightarrow>
     (\<exists>it st. s ''ephemeral_state'' (submit_token_state_id (hash_token A token)) = Some it
        \<and> hydrate_ephemeral_state it = Inr st \<and> es_kind st = SUBMIT_TOKEN_STATE_KIND
        \<and> (\<exists>n. dk_clock D n < es_expires_at st)
        \<and> ae_token_of_json A (es_payload st) = Inr \<lparr>sp_email = email, sp_instance_id = i\<rparr>)"

definition live_api_token :: "auth_env \<Rightarrow> store \<Rightarrow> string \<Rightarrow> string \<Rightarrow> string \<Rightarrow> bool" where
  "live_api_token A s token tid i \<longleftrightarrow>
     (\<exists>it tk row. s ''api_token'' row = Some it \<and> hydrate_api_token it = Inr tk \<and> tk_id tk = tid
        \<and> tk_token_hash tk = hash_token A token \<and> tk_enabled tk \<and> tk_instance_id tk = i)"

text \<open>What each kind of principal stands on, and the prefix its token must have.\<close>

fun stands_on :: "auth_env \<Rightarrow> desk \<Rightarrow> store \<Rightarrow> string \<Rightarrow> auth_info \<Rightarrow> bool" where
  "stands_on A D s token (User i ms su t g) \<longleftrightarrow>
     starts_with ''mtu_'' token \<and> g = None \<and> (\<exists>tid. t = Some tid \<and> live_session A D s token tid i) \<and> backed s i ms su"
| "stands_on A D s token (Requester email i) \<longleftrightarrow>
     starts_with ''mts_'' token \<and> live_submit_token A D s token email i"
| "stands_on A D s token (ApiToken tid i) \<longleftrightarrow> starts_with ''mta_'' token \<and> live_api_token A s token tid i"

subsection \<open>Verification, statement by statement\<close>

text \<open>The tables a verification only reads stay as they were.\<close>

definition as_before :: "string set \<Rightarrow> store \<Rightarrow> store \<Rightarrow> bool" where
  "as_before T s0 s \<longleftrightarrow> (\<forall>t \<in> T. s t = s0 t)"

lemma as_before_mono: "as_before T s0 s \<Longrightarrow> T' \<subseteq> T \<Longrightarrow> as_before T' s0 s"
  by (auto simp: as_before_def)

context current_desk begin

lemma triple_touch_keep:
  assumes "\<And>n s r s'. m n s = (r, s') \<Longrightarrow> s' = s \<or> (\<exists>req. commits (dy_ss d) s [req] s' \<and> fst (target req) \<notin> T)"
  shows "triple (as_before T s0) (touch_if_stale D now seen secs m) (\<lambda>_. as_before T s0) (as_before T s0)"
  unfolding touch_if_stale_def
proof (rule triple_if)
  show "triple (as_before T s0) (touch D m) (\<lambda>_. as_before T s0) (as_before T s0)"
    unfolding touch_def
  proof (rule triple_call)
    fix n s r s' assume s: "as_before T s0 s" and run: "(let (r, s') = m n s in (touch_result r, s')) = (r, s')"
    then obtain r1 where "m n s = (r1, s')" by (auto split: prod.splits)
    from assms [OF this] s have "as_before T s0 s'"
    proof (elim disjE exE conjE)
      fix req assume req: "commits (dy_ss d) s [req] s'" "fst (target req) \<notin> T"
      have "s' t k = s t k" if "t \<in> T" for t k
        by (rule commits_other [OF req(1)]) (use that req(2) in \<open>auto simp: prod_eq_iff\<close>)
      with s show ?thesis by (auto simp: as_before_def fun_eq_iff)
    qed simp
    then show "case r of Inl e \<Rightarrow> as_before T s0 s' | Inr x \<Rightarrow> as_before T s0 s'" by (simp split: sum.splits)
  qed
qed (rule triple_return)

lemma triple_touch:
  assumes "\<And>n s r s'. m n s = (r, s') \<Longrightarrow> s' = s \<or> (\<exists>req. commits (dy_ss d) s [req] s' \<and> fst (target req) \<notin> T)"
  shows "triple (as_before T s0) (touch_if_stale D now seen secs m) (\<lambda>_. as_before T s0) (\<lambda>_. True)"
  by (rule triple_post [OF triple_touch_keep [OF assms]]) (assumption | rule TrueI)+

lemma triple_first_user:
  assumes "keyed s0 ''user''"
  shows "triple (as_before {''user'', ''membership''} s0)
     (auth_read D msg (\<lambda>s. rbind (get_users (dk_db D) [uid] s) (\<lambda>us. Inr (first_row us))))
     (\<lambda>row s. (\<forall>u. row = Some u \<longrightarrow> (\<exists>it. s0 ''user'' uid = Some it \<and> hydrate_user it = Inr u))
        \<and> as_before {''user'', ''membership''} s0 s) (\<lambda>_. True)"
proof (rule triple_auth_read, simp, intro conjI allI impI)
  fix s row u assume s: "as_before {''user'', ''membership''} s0 s"
    and got: "rbind (get_users (dk_db D) [uid] s) (\<lambda>us. Inr (first_row us)) = Inr row" and row: "row = Some u"
  then obtain us where us: "get_users h [uid] s = Inr us" "first_row us = Some u" by (auto simp: handler)
  have k: "keyed s ''user''" using assms s by (simp add: as_before_def keyed_def)
  have "list_all2 (\<lambda>i r. hydrated hydrate_user (s ''user'' i) = Inr r) [uid] us"
    by (rule get_records_spec [OF us(1) [unfolded get_users_def] svc id_hydrate_user k]) simp
  from single_row [OF this us(2)] s show "\<exists>it. s0 ''user'' uid = Some it \<and> hydrate_user it = Inr u"
    by (auto simp: hydrated_def as_before_def split: option.splits)
qed assumption

lemma triple_memberships:
  "triple (as_before {''membership''} s0) (auth_read D msg (list_memberships_by_user (dk_query D) uid))
     (\<lambda>ms s. \<forall>m. m \<in> set ms \<longleftrightarrow>
        (\<exists>k it. s0 ''membership'' k = Some it \<and> hydrate_membership it = Inr m \<and> mb_user_id m = uid)) (\<lambda>_. True)"
proof (rule triple_auth_read, simp)
  fix s ms assume s: "as_before {''membership''} s0 s"
    and got: "list_memberships_by_user (dk_query D) uid s = Inr ms"
  then obtain its where q: "q s ''membership'' ''user_id'' uid = Inr its"
    and all: "list_all2 (\<lambda>it m. hydrate_membership it = Inr m) its ms"
    by (auto simp: list_memberships_by_user_def query_all_def query mapM_Inr)
  from ix.query_rows [OF q] obtain ks where ks: "set ks = rows_with s ''membership'' ''user_id'' uid"
    "its = map (\<lambda>k. attrs_of (s ''membership'' k)) ks" by blast
  have row: "k \<in> set ks \<longleftrightarrow> (\<exists>it. s0 ''membership'' k = Some it \<and> it ''user_id'' = Some (AS uid))" for k
    using ks(1) s by (auto simp: rows_with_def as_before_def attrs_of_def split: option.splits)
  show "\<forall>m. m \<in> set ms \<longleftrightarrow>
      (\<exists>k it. s0 ''membership'' k = Some it \<and> hydrate_membership it = Inr m \<and> mb_user_id m = uid)"
  proof (intro allI iffI)
    fix m assume "m \<in> set ms"
    with all2_right [OF all] obtain it where "it \<in> set its" "hydrate_membership it = Inr m" by blast
    with ks(2) row s hydrate_membershipD show
      "\<exists>k it. s0 ''membership'' k = Some it \<and> hydrate_membership it = Inr m \<and> mb_user_id m = uid"
      by (fastforce simp: as_before_def attrs_of_def)
  next
    fix m assume "\<exists>k it. s0 ''membership'' k = Some it \<and> hydrate_membership it = Inr m \<and> mb_user_id m = uid"
    then obtain k it where k: "s0 ''membership'' k = Some it" "hydrate_membership it = Inr m" "mb_user_id m = uid"
      by blast
    with hydrate_membershipD have "k \<in> set ks" by (auto simp: row)
    then have "it \<in> set its" using ks(2) k(1) s by (force simp: as_before_def attrs_of_def)
    from all2_left [OF all this] k(2) show "m \<in> set ms" by auto
  qed
qed

lemma user_touch_table:
  assumes "update_user (dk_db D) now i ch s = (r, s')"
  shows "s' = s \<or> (\<exists>req. commits (dy_ss d) s [req] s' \<and> fst (target req) = ''user'')"
  using existing_any [of "''User '' @ i"] assms by (fastforce simp: update_user_def handler)

lemma triple_load:
  assumes "s0 ''user'' uid = Some it" "hydrate_user it = Inr u" "usr_enabled u"
  shows "triple (as_before {''user'', ''membership''} s0) (load_principal D uid u)
     (\<lambda>a s. \<exists>ms su. a = User uid ms su None None \<and> backed s0 uid ms su) (\<lambda>_. True)"
proof -
  let ?m = "\<lambda>n. update_user (dk_db D) (dk_clock D n) uid AccessTime"
  have table: "s' = s \<or> (\<exists>req. commits (dy_ss d) s [req] s' \<and> fst (target req) \<notin> {''membership''})"
    if "?m n s = (r, s')" for n s r s'
    using user_touch_table [OF that] by auto
  have touch: "triple (as_before {''user'', ''membership''} s0) (touch_if_stale D now seen 60 ?m)
     (\<lambda>_. as_before {''membership''} s0) (\<lambda>_. True)" for now seen
    by (rule triple_pre [OF triple_touch [OF table]], assumption, erule as_before_mono, simp)
  have result: "\<exists>ms' su. User uid (map membership_of ms) (usr_superuser u) None None = User uid ms' su None None
        \<and> backed s0 uid ms' su"
    if "\<forall>m. m \<in> set ms \<longleftrightarrow>
      (\<exists>k it. s0 ''membership'' k = Some it \<and> hydrate_membership it = Inr m \<and> mb_user_id m = uid)" for ms
  proof -
    have "m \<in> set (map membership_of ms) \<longleftrightarrow> (\<exists>k it mb. s0 ''membership'' k = Some it
        \<and> hydrate_membership it = Inr mb \<and> mb_user_id mb = uid \<and> m = membership_of mb)" for m
      unfolding set_map image_iff Bex_def that [rule_format] by blast
    with assms show ?thesis unfolding backed_def by blast
  qed
  show ?thesis
    unfolding load_principal_def
    by (rule triple_bind [OF triple_clock], assumption, rule triple_bind [OF touch],
        rule triple_bind [OF triple_memberships], rule triple_return) (rule result)
qed

lemma triple_user:
  assumes "keyed s0 ''user''"
  shows "triple (as_before {''user'', ''membership''} s0) (fetch_update_user_auth_info D uid)
     (\<lambda>a s. \<exists>ms su. a = User uid ms su None None \<and> backed s0 uid ms su) (\<lambda>_. True)"
proof -
  let ?T = "as_before {''user'', ''membership''} s0"
  have enabled: "triple (\<lambda>s. (\<exists>it. s0 ''user'' uid = Some it \<and> hydrate_user it = Inr u) \<and> ?T s)
     (sbind (sensure (usr_enabled u) (Permanent ''User account is disabled'')) (\<lambda>_. load_principal D uid u))
     (\<lambda>a s. \<exists>ms su. a = User uid ms su None None \<and> backed s0 uid ms su) (\<lambda>_. True)" for u
  proof (rule triple_fact, rule triple_bind [where R = "\<lambda>_ s. usr_enabled u \<and> ?T s"], rule triple_ensure)
    assume "\<exists>it. s0 ''user'' uid = Some it \<and> hydrate_user it = Inr u"
    then show "triple (\<lambda>s. usr_enabled u \<and> ?T s) (load_principal D uid u)
       (\<lambda>a s. \<exists>ms su. a = User uid ms su None None \<and> backed s0 uid ms su) (\<lambda>_. True)" for x :: unit
      by (elim exE conjE) (rule triple_fact, rule triple_load)
  qed simp_all
  show ?thesis
    unfolding fetch_update_user_auth_info_def
    by (rule triple_bind [OF triple_first_user [OF assms]], rule triple_fact, rule triple_bind [OF _ enabled],
        rule triple_lift) (auto simp: ok_or_def split: option.splits)
qed

lemma triple_auth_read2:
  assumes "\<And>x. f s0 s0 = Inr x \<Longrightarrow> Q x s0"
  shows "triple (\<lambda>s. s = s0) (auth_read2 D msg f) Q (\<lambda>_. True)"
  unfolding auth_read2_def
proof (rule triple_bind [where R = "\<lambda>first s. first = s0 \<and> s = s0"])
  show "triple (\<lambda>s. s = s0) (call D (\<lambda>n s. (Inr (dk_view D n s), s))) (\<lambda>first s. first = s0 \<and> s = s0) (\<lambda>_. True)"
    by (rule triple_call) (auto simp: current)
  show "triple (\<lambda>s. first = s0 \<and> s = s0) (auth_read D msg (f first)) Q (\<lambda>_. True)" for first
    by (rule triple_auth_read) (use assms in auto)
qed

lemma session_row:
  assumes "keyed s0 ''user_token''" "get_user_token_by_hash (dk_db D) (dk_query D) hash s0 s0 = Inr (Some ut)"
  shows "\<exists>it. s0 ''user_token'' (ut_id ut) = Some it \<and> hydrate_user_token it = Inr ut \<and> ut_token_hash ut = hash"
proof -
  from assms(2) obtain its i where q: "q s0 ''user_token'' ''token_hash'' hash = Inr its"
    and ids: "mapM item_id_field its = Inr [i]" and got: "get_row h ''user_token'' hydrate_user_token i s0 = Inr (Some ut)"
    by (auto simp: get_user_token_by_hash_def query_ids_def handler query at_most_one_single split: option.splits)
  from ids obtain it where its: "its = [it]" "it ''id'' = Some (AS i)" by (auto simp: mapM_Inr list_all2_Cons2)
  from ix.query_row [OF q, of it] its obtain k where k: "s0 ''user_token'' k = Some it"
    "it ''token_hash'' = Some (AS hash)" by auto
  from keyedD [OF assms(1) k(1)] its(2) have "k = i" by simp
  from got obtain it' where it': "dy_get d s0 ''user_token'' i = Inr (Some it')" "hydrate_user_token it' = Inr ut"
    by (auto simp: get_row_def svc hydrated_def split: option.splits)
  from get_consistent [OF it'(1)] k(1) \<open>k = i\<close> have "it' = it" by simp
  with it'(2) k \<open>k = i\<close> its(2) hydrate_user_tokenD [OF it'(2)] show ?thesis by auto
qed

lemma token_touch_table:
  "touch_user_token (dk_db D) now i s = (r, s') \<Longrightarrow> s' = s \<or> (\<exists>req. commits (dy_ss d) s [req] s' \<and> fst (target req) = ''user_token'')"
  "update_api_token (dk_db D) now i ch s = (r, s') \<Longrightarrow> s' = s \<or> (\<exists>req. commits (dy_ss d) s [req] s' \<and> fst (target req) = ''api_token'')"
  "update_oauth_grant (dk_db D) now i TouchGrant s = (r, s') \<Longrightarrow> s' = s \<or> (\<exists>req. commits (dy_ss d) s [req] s' \<and> fst (target req) = ''oauth_grant'')"
  using existing_any by (fastforce simp: touch_user_token_def update_api_token_def update_oauth_grant_def handler)+

lemma triple_session:
  assumes "keyed s0 ''user_token''" "keyed s0 ''user''" "starts_with ''mtu_'' token"
  shows "triple (\<lambda>s. s = s0) (verify_token_with_user_token A D token) (\<lambda>a _. stands_on A D s0 token a) (\<lambda>_. True)"
proof -
  let ?T = "as_before {''user'', ''membership''} s0"
  let ?row = "\<lambda>ut. \<exists>it. s0 ''user_token'' (ut_id ut) = Some it \<and> hydrate_user_token it = Inr ut
      \<and> ut_token_hash ut = hash_token A token"
  have table: "s' = s \<or> (\<exists>req. commits (dy_ss d) s [req] s' \<and> fst (target req) \<notin> {''user'', ''membership''})"
    if "touch_user_token (dk_db D) (dk_clock D n) (ut_id ut) s = (r, s')" for n s r s' ut
    using token_touch_table(1) [OF that] by auto
  have row: "triple (\<lambda>s. s = s0) (auth_read2 D msg
      (get_user_token_by_hash (dk_db D) (dk_query D) (hash_token A token)))
      (\<lambda>row s. (\<forall>ut. row = Some ut \<longrightarrow> ?row ut) \<and> ?T s) (\<lambda>_. True)" for msg
    by (rule triple_auth_read2) (use session_row [OF assms(1)] in \<open>auto simp: as_before_def\<close>)
  have unwrap: "triple (\<lambda>s. (\<forall>ut. row = Some ut \<longrightarrow> ?row ut) \<and> ?T s) (slift (ok_or e row))
      (\<lambda>ut s. ?row ut \<and> ?T s) (\<lambda>_. True)" for row :: "user_token option" and e :: auth_error
    by (rule triple_lift) (auto simp: ok_or_def split: option.splits)
  have clock: "triple ?T (auth_clock D) (\<lambda>now s. (\<exists>n. now = dk_clock D n) \<and> ?T s) (\<lambda>_. True)"
    by (rule triple_clock) simp
  have live: "triple ?T (sensure (\<not> ut_expires_at ut \<le> now) e) (\<lambda>_ s. now < ut_expires_at ut \<and> ?T s) (\<lambda>_. True)"
    for ut now and e :: auth_error
    by (rule triple_ensure) auto
  have result: "stands_on A D s0 token (with_credential (Some (ut_id ut)) None a)"
    if "?row ut" "\<exists>n. now = dk_clock D n" "now < ut_expires_at ut"
      "\<exists>ms su. a = User (ut_user_id ut) ms su None None \<and> backed s0 (ut_user_id ut) ms su" for ut now a
    using that assms(3) by (auto simp: live_session_def)
  show ?thesis
    unfolding verify_token_with_user_token_def Let_def
    by (rule triple_bind [OF row], rule triple_bind [OF unwrap], rule triple_fact,
        rule triple_bind [OF clock], rule triple_fact, rule triple_bind [OF live], rule triple_fact,
        rule triple_bind [OF triple_touch [OF table]], assumption,
        rule triple_bind [OF triple_user [OF assms(2)]], rule triple_return) (rule result)
qed

lemma triple_submit_token:
  assumes "starts_with ''mts_'' token"
  shows "triple (\<lambda>s. s = s0) (verify_token_with_requester_token A D token) (\<lambda>a _. stands_on A D s0 token a) (\<lambda>_. True)"
proof -
  let ?row = "\<lambda>st. \<exists>it. s0 ''ephemeral_state'' (submit_token_state_id (hash_token A token)) = Some it
      \<and> hydrate_ephemeral_state it = Inr st \<and> es_kind st = SUBMIT_TOKEN_STATE_KIND"
  have row: "triple (\<lambda>s. s = s0) (auth_read D msg (get_ephemeral_state (dk_db D) (submit_token_state_id (hash_token A token))))
      (\<lambda>row s. \<forall>st. row = Some st \<longrightarrow> es_kind st = SUBMIT_TOKEN_STATE_KIND \<longrightarrow> ?row st) (\<lambda>_. True)" for msg
    by (rule triple_auth_read) (auto simp: get_ephemeral_state_def dest!: get_row_spec)
  have unwrap: "triple (\<lambda>s. \<forall>st. row = Some st \<longrightarrow> es_kind st = SUBMIT_TOKEN_STATE_KIND \<longrightarrow> ?row st)
      (slift (ok_or e (case row of None \<Rightarrow> None | Some st \<Rightarrow> if es_kind st = SUBMIT_TOKEN_STATE_KIND then Some st else None)))
      (\<lambda>st s. ?row st \<and> True) (\<lambda>_. True)" for row and e :: auth_error
    by (rule triple_lift) (auto simp: ok_or_def split: option.splits if_splits)
  have clock: "triple (\<lambda>_. True) (auth_clock D) (\<lambda>now s. (\<exists>n. now = dk_clock D n) \<and> True) (\<lambda>_. True)"
    by (rule triple_clock) simp
  have live: "triple (\<lambda>_. True) (sensure (\<not> es_expires_at st \<le> now) e) (\<lambda>_ s. now < es_expires_at st \<and> True) (\<lambda>_. True)"
    for st now and e :: auth_error
    by (rule triple_ensure) auto
  have decode: "triple (\<lambda>_. True) (slift (map_err g (ae_token_of_json A x)))
      (\<lambda>p _. ae_token_of_json A x = Inr p) (\<lambda>_. True)" for g :: "string \<Rightarrow> auth_error" and x
    by (rule triple_lift) (auto simp: map_err_def split: sum.splits)
  have result: "stands_on A D s0 token (Requester (sp_email p) (sp_instance_id p))"
    if "?row st" "\<exists>n. now = dk_clock D n" "now < es_expires_at st" "ae_token_of_json A (es_payload st) = Inr p" for st now p
    using that assms by (auto simp: live_submit_token_def)
  show ?thesis
    unfolding verify_token_with_requester_token_def Let_def
    by (rule triple_bind [OF row], rule triple_bind [OF unwrap], rule triple_fact,
        rule triple_bind [OF clock], rule triple_fact, rule triple_bind [OF live], rule triple_fact,
        rule triple_bind [OF decode], rule triple_return) (rule result)
qed

lemma triple_api_token:
  assumes "starts_with ''mta_'' token"
  shows "triple (\<lambda>s. s = s0) (verify_token_with_api_token A D token) (\<lambda>a _. stands_on A D s0 token a) (\<lambda>_. True)"
proof (cases "parse_api_token token")
  case None
  then show ?thesis unfolding verify_token_with_api_token_def by (simp add: triple_def slift_def)
next
  case (Some p)
  obtain i secret where p: "p = (i, secret)" by (cases p)
  let ?row = "\<lambda>tk. \<exists>it. s0 ''api_token'' i = Some it \<and> hydrate_api_token it = Inr tk"
  have row: "triple (\<lambda>s. s = s0) (auth_read_now D msg (get_api_token (dk_db D) i))
      (\<lambda>row s. \<forall>tk. row = Some tk \<longrightarrow> ?row tk) (\<lambda>_. True)" for msg
    unfolding auth_read_now_def
    by (rule triple_call) (auto simp: get_api_token_def map_err_def dest!: get_row_spec split: sum.splits)
  have unwrap: "triple (\<lambda>s. \<forall>tk. row = Some tk \<longrightarrow> ?row tk) (slift (ok_or e row)) (\<lambda>tk s. ?row tk \<and> True) (\<lambda>_. True)"
    for row and e :: auth_error
    by (rule triple_lift) (auto simp: ok_or_def split: option.splits)
  have check: "triple (\<lambda>_. True) (sensure b e) (\<lambda>_ s. b \<and> True) (\<lambda>_. True)" for b and e :: auth_error
    by (rule triple_ensure) auto
  have any: "triple (\<lambda>_. True) m (\<lambda>_ _. True) (\<lambda>_. True)" for m :: "'x auth_run"
    by (simp add: triple_def split: sum.splits)
  have result: "stands_on A D s0 token (ApiToken (tk_id tk) (tk_instance_id tk))"
    if "?row tk" "constant_time_eq (hash_token A token) (tk_token_hash tk)" "tk_enabled tk" for tk
    using that assms by (auto simp: live_api_token_def constant_time_eq_iff)
  show ?thesis
    unfolding verify_token_with_api_token_def Some p option.case prod.case
    by (rule triple_bind [OF row], rule triple_bind [OF unwrap], rule triple_fact,
        rule triple_bind [OF check], rule triple_fact, rule triple_bind [OF check], rule triple_fact,
        rule triple_bind [OF any], rule triple_bind [OF any], rule triple_return) (rule result)
qed

lemma triple_verify:
  assumes "keyed s0 ''user_token''" "keyed s0 ''user''"
  shows "triple (\<lambda>s. s = s0) (verify_token A D token) (\<lambda>a _. stands_on A D s0 token a) (\<lambda>_. True)"
  unfolding verify_token_def USER_TOKEN_PREFIX_def REQUESTER_TOKEN_PREFIX_def API_TOKEN_PREFIX_def
  by (intro triple_if) (assumption | rule triple_session [OF assms] triple_submit_token triple_api_token triple_lift
      | simp)+

end

text \<open>
  C21. No principal without its rows. When \<^verbatim>\<open>verify_token\<close> answers a principal, the token has the
  prefix of its kind and the database the rows that kind stands on: a session row with the token's
  hash that had not expired, its user enabled, with exactly that user's memberships and superuser
  flag; an unexpired submit token of the address and instance; or an enabled API token of the
  instance. A session principal always carries the id of its token, never a grant's.
\<close>

theorem principals_backed:
  assumes "current_desk d h q D" "keyed (w_db w) ''user_token''" "keyed (w_db w) ''user''"
    and "verify_token A D token w = (Inr a, w')"
  shows "stands_on A D (w_db w) token a"
  using tripleD [OF current_desk.triple_verify [OF assms(1-3)] refl assms(4)] by simp

definition token_world :: world where
  "token_world =
     \<lparr>w_db = (\<lambda>t. if t = ''api_token''
        then [''k1'' \<mapsto> (api_token_row ''k1'' 50 ''i1'' ''crm'' ''#mta_k1.s'' ''u1'')(''last_used_at'' \<mapsto> AN 90)]
        else Map.empty),
      w_n = 0, w_sent = [], w_objects = [], w_texts = []\<rparr>"

theorem principals_backed_witness:
  "fst (verify_token plain_auth quiet_desk ''mta_k1.s'' token_world) = Inr (ApiToken ''k1'' ''i1'')
    \<and> stands_on plain_auth quiet_desk (w_db token_world) ''mta_k1.s'' (ApiToken ''k1'' ''i1'')"
proof -
  have run: "fst (verify_token plain_auth quiet_desk ''mta_k1.s'' token_world) = Inr (ApiToken ''k1'' ''i1'')"
    by (simp add: verify_token_def starts_with_def USER_TOKEN_PREFIX_def REQUESTER_TOKEN_PREFIX_def
        API_TOKEN_PREFIX_def verify_token_with_api_token_def parse_api_token_def sbind_def auth_read_now_def call_def
        get_api_token_def obliging.row_read hydrated_def slift_def ok_or_def sensure_def constant_time_eq_iff
        auth_clock_def sreturn_def token_world_def plain_auth_def hash_token_def hydrate_api_token_def
        api_token_row_def row_simps in_i64_def i64_min_def i64_max_def solo.alone map_err_def
        touch_if_stale_def stale_def as_u64_def) (simp add: quiet_desk_def)
  obtain w' where "verify_token plain_auth quiet_desk ''mta_k1.s'' token_world = (Inr (ApiToken ''k1'' ''i1''), w')"
    using run by (cases "verify_token plain_auth quiet_desk ''mta_k1.s'' token_world") simp
  from principals_backed [OF obliging.current_desk_axioms _ _ this] run show ?thesis
    by (simp add: token_world_def keyed_def)
qed

subsection \<open>API tokens from issue to revocation\<close>

lemma touch_result_cases: "touch_result r = Inr () \<or> (\<exists>m. touch_result r = Inl (Transient m))"
  by (cases r rule: touch_result.cases) auto

lemma touched: "fst (touch_if_stale D now seen secs m v) = Inr ()
    \<or> (\<exists>x. fst (touch_if_stale D now seen secs m v) = Inl (Transient x))"
  using touch_result_cases
  by (auto simp: touch_if_stale_def touch_def call_def sreturn_def Let_def split: prod.splits)

text \<open>What follows the read of an API token's row.\<close>

definition token_verdict :: "auth_env \<Rightarrow> string \<Rightarrow> api_token \<Rightarrow> auth_error + auth_info" where
  "token_verdict A token tk =
     (if hash_token A token \<noteq> tk_token_hash tk then Inl (Permanent ''Invalid API token'')
      else if \<not> tk_enabled tk then Inl (Permanent ''API token is disabled'')
      else Inr (ApiToken (tk_id tk) (tk_instance_id tk)))"

definition row_verdict :: "auth_env \<Rightarrow> string \<Rightarrow> item option \<Rightarrow> auth_error + auth_info \<Rightarrow> bool" where
  "row_verdict A token row r \<longleftrightarrow>
     (\<exists>m. r = Inl (Transient m)) \<or>
     (case row of
        None \<Rightarrow> r = Inl (Permanent ''Invalid API token'')
      | Some it \<Rightarrow> (\<exists>tk. hydrate_api_token it = Inr tk \<and> r = token_verdict A token tk))"

context solo_desk begin

lemma read_now_step:
  "auth_read_now D msg f w = (map_err (classify_db_err msg) (f (w_db w)), w\<lparr>w_n := Suc (w_n w)\<rparr>)"
  by (simp add: auth_read_now_def call_def alone)

lemma clock_touch:
  assumes "sbind (auth_clock D) (\<lambda>now. sbind (touch_if_stale D now seen secs m) (\<lambda>_. sreturn x)) v = (r, v')"
  shows "r = Inr x \<or> (\<exists>m. r = Inl (Transient m))"
proof -
  let ?v = "v\<lparr>w_n := Suc (w_n v)\<rparr>" and ?now = "dk_clock D (w_n v)"
  obtain t v1 where t: "touch_if_stale D ?now seen secs m ?v = (t, v1)" by (cases "touch_if_stale D ?now seen secs m ?v")
  with assms have "r = (case t of Inl e \<Rightarrow> Inl e | Inr u \<Rightarrow> Inr x)"
    by (auto simp: sbind_def auth_clock_def call_def alone sreturn_def Let_def split: sum.splits)
  with touched [of D ?now seen secs m ?v] t show ?thesis by auto
qed

lemma api_token_answer:
  assumes "parse_api_token token = Some (i, secret)" "verify_token_with_api_token A D token w = (r, w')"
  shows "row_verdict A token (w_db w ''api_token'' i) r"
proof -
  let ?w1 = "w\<lparr>w_n := Suc (w_n w)\<rparr>"
  show ?thesis
  proof (cases "get_api_token (dk_db D) i (w_db w)")
    case (Inl e)
    have "\<exists>m. classify_db_err ''fetch api token'' e = Transient m"
      using Inl by (auto simp: get_api_token_def get_row_def hydrated_def classify_db_err_def map_err_def
          split: option.splits sum.splits db_error.splits)
    then show ?thesis
      using assms Inl by (auto simp: verify_token_with_api_token_def sbind_def read_now_step row_verdict_def)
  next
    case (Inr row)
    note spec = get_row_spec [OF Inr [unfolded get_api_token_def]]
    show ?thesis
    proof (cases row)
      case None
      with assms Inr spec show ?thesis
        by (simp add: verify_token_with_api_token_def sbind_def read_now_step row_verdict_def slift_def ok_or_def)
    next
      case (Some tk)
      with spec obtain it where it: "w_db w ''api_token'' i = Some it" "hydrate_api_token it = Inr tk" by auto
      have run: "verify_token_with_api_token A D token w =
         sbind (sensure (hash_token A token = tk_token_hash tk) (Permanent ''Invalid API token'')) (\<lambda>_.
         sbind (sensure (tk_enabled tk) (Permanent ''API token is disabled'')) (\<lambda>_.
         sbind (auth_clock D) (\<lambda>now.
         sbind (touch_if_stale D now (tk_last_used_at tk) 60
                  (\<lambda>n. update_api_token (dk_db D) (dk_clock D n) (tk_id tk) TouchToken)) (\<lambda>_.
         sreturn (ApiToken (tk_id tk) (tk_instance_id tk)))))) ?w1"
        unfolding verify_token_with_api_token_def assms(1) option.case prod.case sbind_def [of "auth_read_now D _ _"]
        by (simp add: read_now_step Inr Some slift_def ok_or_def sbind_def constant_time_eq_iff)
      show ?thesis
      proof (cases "hash_token A token = tk_token_hash tk \<and> tk_enabled tk")
        case True
        with assms(2) [unfolded run] have "r = Inr (ApiToken (tk_id tk) (tk_instance_id tk)) \<or> (\<exists>m. r = Inl (Transient m))"
          by (auto simp: sbind_def [of "sensure _ _"] sensure_def dest!: clock_touch)
        with it True show ?thesis by (auto simp: row_verdict_def token_verdict_def)
      next
        case False
        with run assms(2) it show ?thesis
          by (auto simp: row_verdict_def token_verdict_def sbind_def [of "sensure _ _"] sensure_def)
      qed
    qed
  qed
qed

lemma issued_row:
  assumes "issue_api_token A D instance_id name creator w = (Inr (tk, token), w1)"
  obtains n m k where "tk_id tk = dk_id D n" "token = ''mta_'' @ dk_id D n @ ''.'' @ dk_nonce D m"
    "w_db w1 ''api_token'' (dk_id D n)
       = Some (api_token_row (dk_id D n) (dk_clock D k) instance_id name (hash_token A token) creator)"
proof -
  let ?i = "dk_id D (w_n w)" and ?nonce = "dk_nonce D (Suc (w_n w))" and ?now = "dk_clock D (Suc (Suc (w_n w)))"
  let ?token = "''mta_'' @ ?i @ ''.'' @ ?nonce"
  let ?row = "api_token_row ?i ?now instance_id name (hash_token A ?token) creator"
  from assms obtain s' where sent: "send_plain h (Put ''api_token'' ?i ?row (CNotExists ''id'')) (w_db w) = (Inr (), s')"
    and tk: "tk_id tk = ?i" and token: "token = ?token" and w1: "w_db w1 = s'"
    by (auto simp: issue_api_token_def tick_steps write_Inr Let_def API_TOKEN_PREFIX_def create_api_token_def handler
        split: prod.splits sum.splits)
  from put_fresh(2) [OF plain_ok [OF sent]] have "w_db w1 ''api_token'' ?i = Some ?row" by (simp add: w1)
  with tk token show thesis by (intro that) simp_all
qed

lemma fresh_answer:
  assumes "issue_api_token A D instance_id name creator w = (Inr (tk, token), w1)"
    and "\<forall>n. dk_id D n \<noteq> [] \<and> CHR ''.'' \<notin> set (dk_id D n) \<and> dk_nonce D n \<noteq> [] \<and> dk_clock D n < 2 ^ 63"
    and "w_db w2 ''api_token'' (tk_id tk) = w_db w1 ''api_token'' (tk_id tk)"
    and "verify_token A D token w2 = (r, w3)"
  shows "r = Inr (ApiToken (tk_id tk) instance_id) \<or> (\<exists>m. r = Inl (Transient m))"
proof -
  from issued_row [OF assms(1)] obtain n m k where tk: "tk_id tk = dk_id D n"
    and token: "token = ''mta_'' @ dk_id D n @ ''.'' @ dk_nonce D m"
    and row: "w_db w1 ''api_token'' (dk_id D n)
       = Some (api_token_row (dk_id D n) (dk_clock D k) instance_id name (hash_token A token) creator)" by blast
  have strip: "strip_prefix ''mta_'' (''mta_'' @ x) = Some x" for x by simp
  have parsed: "parse_api_token token = Some (dk_id D n, dk_nonce D m)"
    using assms(2) split_once_append [of "CHR ''.''" "dk_id D n" "dk_nonce D m"]
    unfolding parse_api_token_def token API_TOKEN_PREFIX_def strip by simp
  have "verify_token_with_api_token A D token w2 = (r, w3)"
    using assms(4) by (simp add: verify_token_def starts_with_def USER_TOKEN_PREFIX_def REQUESTER_TOKEN_PREFIX_def
        API_TOKEN_PREFIX_def token)
  from api_token_answer [OF parsed this] have "row_verdict A token (w_db w2 ''api_token'' (dk_id D n)) r" .
  moreover have "in_i64 (int (dk_clock D k))"
    using assms(2) [rule_format, of k] by (simp add: in_i64_def i64_min_def i64_max_def)
  ultimately show ?thesis
    using assms(3) row by (auto simp: tk row_verdict_def token_verdict_def hydrate_api_token_def api_token_row_def row_simps)
qed

lemma revoked_row:
  assumes "keyed (w_db w) ''api_token''"
    and "m_update_api_token D i name False w = (Inr tk, w1) \<or> m_delete_api_token D i w = (Inr b, w1)"
    and "w_db w1 ''api_token'' i = Some it" "hydrate_api_token it = Inr tk'"
  shows "\<not> tk_enabled tk'"
proof -
  have manager: "w_db v = w_db w \<and> tk_id t = i" if "require_api_token_manager D i w = (Inr t, v)" for t v
  proof -
    from that have "get_row (dk_db D) ''api_token'' hydrate_api_token i (w_db w) = Inr (Some t)" "w_db v = w_db w"
      by (auto simp: require_api_token_manager_def call_step found_Inr ensure_api_Inr db_error_of_def map_err_def
          get_api_token_def split: option.splits auth_info.splits sum.splits)
    with get_row_spec [OF this(1)] keyedD [OF assms(1)] show ?thesis
      by (fastforce simp: hydrate_api_token_def)
  qed
  from assms(2) show ?thesis
  proof
    assume "m_update_api_token D i name False w = (Inr tk, w1)"
    then obtain t v nm where v: "require_api_token_manager D i w = (Inr t, v)"
      and sent: "update_api_token h (dk_clock D (w_n v)) (tk_id t) (TokenFields nm False) (w_db v) = (Inr (), w_db w1)"
      by (auto simp: m_update_api_token_def token_name_def ensure_api_Inr write_Inr handler)
    from sent manager [OF v] have "commits (dy_ss d) (w_db w)
        [Update ''api_token'' ''id'' i [ASet ''name'' (AS nm), ASet ''enabled'' (ABool False)] (CExists ''id'')] (w_db w1)"
      using send_existing_ok [OF svc] by (fastforce simp: update_api_token_def)
    then obtain it0 where "w_db w1 ''api_token'' i = Some (it0(''name'' \<mapsto> AS nm, ''enabled'' \<mapsto> ABool False))"
      by (auto elim: update_existing)
    with assms(3,4) show ?thesis by (auto simp: hydrate_api_token_def bool_field_def ok_or_def)
  next
    assume "m_delete_api_token D i w = (Inr b, w1)"
    then obtain t v where v: "require_api_token_manager D i w = (Inr t, v)"
      and sent: "send_plain h (Delete ''api_token'' (tk_id t) CTrue) (w_db v) = (Inr (), w_db w1)"
      by (auto simp: m_delete_api_token_def write_Inr handler delete_api_token_def)
    from plain_ok [OF sent] manager [OF v] have "w_db w1 ''api_token'' i = None"
      by (auto simp: commits_single apply_write_row)
    with assms(3) show ?thesis by simp
  qed
qed

end

text \<open>
  C22. A fresh API token verifies. Whoever presents the token \<^verbatim>\<open>createApiToken\<close> handed out, at any
  later time while its row is untouched, is its instance's \<^verbatim>\<open>ApiToken\<close> principal, unless the
  database fails: it is never refused as invalid. The read is by key and strongly consistent, so
  this needs no lag to pass.
\<close>

theorem fresh_api_token_verifies:
  assumes "solo_desk d h q D" "issue_api_token A D instance_id name creator w = (Inr (tk, token), w1)"
    and "\<forall>n. dk_id D n \<noteq> [] \<and> CHR ''.'' \<notin> set (dk_id D n) \<and> dk_nonce D n \<noteq> [] \<and> dk_clock D n < 2 ^ 63"
    and "w_db w2 ''api_token'' (tk_id tk) = w_db w1 ''api_token'' (tk_id tk)"
    and "verify_token A D token w2 = (r, w3)"
  shows "r = Inr (ApiToken (tk_id tk) instance_id) \<or> (\<exists>m. r = Inl (Transient m))"
  by (rule solo_desk.fresh_answer [OF assms])

text \<open>
  C23. Revocation is immediate. After \<^verbatim>\<open>updateApiToken\<close> disabled a token, or \<^verbatim>\<open>deleteApiToken\<close>
  deleted it, no token of that id verifies while the row stays so, whatever its secret.
\<close>

theorem api_token_revocation_immediate:
  assumes "solo_desk d h q D" "keyed (w_db w) ''api_token''"
    and "m_update_api_token D i name False w = (Inr tk, w1) \<or> m_delete_api_token D i w = (Inr b, w1)"
    and "w_db w2 ''api_token'' i = w_db w1 ''api_token'' i"
    and "parse_api_token token = Some (i, secret)"
    and "verify_token A D token w2 = (r, w3)"
  shows "r \<noteq> Inr a"
proof
  assume r: "r = Inr a"
  obtain rest where "strip_prefix ''mta_'' token = Some rest"
    using assms(5) by (auto simp: parse_api_token_def API_TOKEN_PREFIX_def split: option.splits)
  then have "token = ''mta_'' @ rest" by (rule strip_prefix_Some)
  then have "verify_token_with_api_token A D token w2 = (Inr a, w3)"
    using assms(6) r by (simp add: verify_token_def starts_with_def USER_TOKEN_PREFIX_def REQUESTER_TOKEN_PREFIX_def
        API_TOKEN_PREFIX_def)
  from solo_desk.api_token_answer [OF assms(1,5) this] assms(4)
  obtain it tk' where "w_db w1 ''api_token'' i = Some it" "hydrate_api_token it = Inr tk'" "Inr a = token_verdict A token tk'"
    by (auto simp: row_verdict_def split: option.splits)
  with solo_desk.revoked_row [OF assms(1-3)] show False by (auto simp: token_verdict_def split: if_splits)
qed

definition timed_desk :: desk where
  "timed_desk = quiet_desk\<lparr>dk_clock := (\<lambda>n. 100), dk_id := (\<lambda>n. ''k1''), dk_auth := Some (User ''u1'' [] True None None)\<rparr>"

lemma timed_fields [simp]:
  "dk_db timed_desk = ref_handler" "dk_auth timed_desk = Some (User ''u1'' [] True None None)"
  "dk_clock timed_desk n = 100" "dk_id timed_desk n = ''k1''" "dk_nonce timed_desk n = ''nonce'' @ show_nat n"
  by (simp_all add: timed_desk_def quiet_desk_def)

lemma ref_plain: "send_plain ref_handler w s =
    (if \<not> cond_holds s w then (Inl (Infrastructure ''ConditionalCheckFailedException''), s)
     else if \<not> actions_ok s w then (Inl (Infrastructure ''ValidationException''), s)
     else (Inr (), apply_write remdups w s))"
  by (simp add: send_defs ref_handler_def ref_dynamo_def)

lemma timed_solo: "solo_desk ref_dynamo ref_handler ref_index timed_desk"
  by unfold_locales (simp_all add: timed_desk_def quiet_desk_def)

definition empty_world :: world where
  "empty_world = \<lparr>w_db = (\<lambda>t k. None), w_n = 0, w_sent = [], w_objects = [], w_texts = []\<rparr>"

theorem fresh_api_token_verifies_witness:
  "\<exists>tk token w1. issue_api_token plain_auth timed_desk ''i1'' ''crm'' ''u1'' empty_world = (Inr (tk, token), w1)
     \<and> (fst (verify_token plain_auth timed_desk token w1) = Inr (ApiToken (tk_id tk) ''i1'')
        \<or> (\<exists>m. fst (verify_token plain_auth timed_desk token w1) = Inl (Transient m)))"
proof -
  have "\<exists>tk token w1. issue_api_token plain_auth timed_desk ''i1'' ''crm'' ''u1'' empty_world = (Inr (tk, token), w1)"
    by (simp add: issue_api_token_def solo_desk.tick_steps [OF timed_solo] solo_desk.write_Inr [OF timed_solo] Let_def
        create_api_token_def empty_world_def ref_plain cond_holds_def attrs_of_def)
  then obtain tk token w1 where
    issued: "issue_api_token plain_auth timed_desk ''i1'' ''crm'' ''u1'' empty_world = (Inr (tk, token), w1)" by blast
  obtain r w3 where verified: "verify_token plain_auth timed_desk token w1 = (r, w3)"
    by (cases "verify_token plain_auth timed_desk token w1")
  have "\<forall>n. dk_id timed_desk n \<noteq> [] \<and> CHR ''.'' \<notin> set (dk_id timed_desk n) \<and> dk_nonce timed_desk n \<noteq> []
      \<and> dk_clock timed_desk n < 2 ^ 63"
    by (simp add: timed_desk_def quiet_desk_def)
  from fresh_api_token_verifies [OF timed_solo issued this refl verified] issued verified show ?thesis by auto
qed

theorem api_token_revocation_immediate_witness:
  "\<exists>b w1. m_delete_api_token timed_desk ''k1'' token_world = (Inr b, w1)
     \<and> fst (verify_token plain_auth timed_desk ''mta_k1.s'' w1) \<noteq> Inr (ApiToken ''k1'' ''i1'')"
proof -
  have row: "get_api_token ref_handler ''k1'' (w_db token_world)
      = Inr (Some \<lparr>tk_id = ''k1'', tk_instance_id = ''i1'', tk_name = ''crm'', tk_token_hash = ''#mta_k1.s'', tk_enabled = True,
          tk_created_at = 50, tk_created_by_user_id = ''u1'', tk_last_used_at = Some 90\<rparr>)"
    by (simp add: get_api_token_def get_row_def ref_handler_def ref_dynamo_def token_world_def hydrated_def map_err_def
        hydrate_api_token_def api_token_row_def row_simps in_i64_def i64_min_def i64_max_def as_u64_def ok_or_def)
  have "\<exists>b w1. m_delete_api_token timed_desk ''k1'' token_world = (Inr b, w1)"
    by (simp add: m_delete_api_token_def solo_desk.write_Inr [OF timed_solo] require_api_token_manager_def
        solo_desk.call_step [OF timed_solo] found_Inr ensure_api_Inr db_error_of_def map_err_def row
        delete_api_token_def ref_plain cond_holds_def) (rule exI [of _ True], simp)
  then obtain b w1 where deleted: "m_delete_api_token timed_desk ''k1'' token_world = (Inr b, w1)" by blast
  obtain r w3 where verified: "verify_token plain_auth timed_desk ''mta_k1.s'' w1 = (r, w3)"
    by (cases "verify_token plain_auth timed_desk ''mta_k1.s'' w1")
  have "keyed (w_db token_world) ''api_token''" by (simp add: keyed_def token_world_def api_token_row_def)
  moreover have "parse_api_token ''mta_k1.s'' = Some (''k1'', ''s'')" by code_simp
  ultimately have "r \<noteq> Inr (ApiToken ''k1'' ''i1'')"
    using api_token_revocation_immediate [OF timed_solo _ disjI2 [OF deleted] refl _ verified] by blast
  with deleted verified show ?thesis by auto
qed

end
