(* ===== verification/OAuth.thy ===== *)
theory OAuth
  imports Logins
begin

section \<open>The OAuth authorization server\<close>

text \<open>
  \<^verbatim>\<open>oauth.rs\<close>, \<^verbatim>\<open>oauth_http.rs\<close>, \<^verbatim>\<open>base_url.rs\<close> and the two OAuth fields of the GraphQL
  schema: grants and their tokens, self-verifying client ids, redirect URIs and PKCE, dynamic
  registration, authorization codes, the token endpoint and the access tokens of the MCP endpoint.
  HMAC, SHA-256, base64url, JSON, the URL parser and the form parser are libraries: \<open>oauth_env\<close>
  holds them. A reply's body is the value that is serialised.
\<close>

subsection \<open>Environment\<close>

record client_registration =
  cr_client_name :: string
  cr_redirect_uris :: "string list"
  cr_iat :: nat

record register_request =
  rr_client_name :: "string option"
  rr_redirect_uris :: "string list"
  rr_token_endpoint_auth_method :: "string option"

record auth_code_payload =
  ac_user_id :: string
  ac_client_id :: string
  ac_client_name :: string
  ac_redirect_uri :: string
  ac_code_challenge :: string
  ac_scope :: "string option"
  ac_resource :: "string option"

record url =
  url_scheme :: string
  url_host :: "string option"
  url_fragment :: "string option"

record oauth_env =
  oe_hmac :: "string \<Rightarrow> string \<Rightarrow> string"
  oe_sha256 :: "string \<Rightarrow> string"
  oe_b64 :: "string \<Rightarrow> string"
  oe_unb64 :: "string \<Rightarrow> string option"
  oe_client_json :: "client_registration \<Rightarrow> string"
  oe_client_of_json :: "string \<Rightarrow> client_registration option"
  oe_register_of_json :: "string \<Rightarrow> register_request option"
  oe_code_json :: "auth_code_payload \<Rightarrow> string + string"
  oe_code_of_json :: "string \<Rightarrow> auth_code_payload option"
  oe_url :: "string \<Rightarrow> url option"
  oe_append_pairs :: "string \<Rightarrow> (string \<times> string) list \<Rightarrow> string"
  oe_form :: "string \<Rightarrow> (string \<times> string) list"

subsection \<open>Base URLs\<close>

definition web_base_url :: "(string \<Rightarrow> string option) \<Rightarrow> string" where
  "web_base_url env = app_base_url env"

definition api_base_url :: "(string \<Rightarrow> string option) \<Rightarrow> string option \<Rightarrow> string" where
  "api_base_url env host_header =
     (case env ''API_BASE_URL'' of
        Some base \<Rightarrow> if trim base \<noteq> [] then trim_end_slashes (trim base) else
          (let host = trim (unwrap_or ''localhost:8000'' host_header) in
           (if starts_with ''localhost'' host \<or> starts_with ''127.0.0.1'' host then ''http'' else ''https'') @ ''://'' @ host)
      | None \<Rightarrow>
          (let host = trim (unwrap_or ''localhost:8000'' host_header) in
           (if starts_with ''localhost'' host \<or> starts_with ''127.0.0.1'' host then ''http'' else ''https'') @ ''://'' @ host))"

subsection \<open>Tokens and grants\<close>

definition ACCESS_TOKEN_PREFIX :: string where "ACCESS_TOKEN_PREFIX = ''mtoa_''"

definition REFRESH_TOKEN_PREFIX :: string where "REFRESH_TOKEN_PREFIX = ''mtor_''"

definition DEFAULT_SCOPE :: string where "DEFAULT_SCOPE = ''toolbox''"

definition ACCESS_TOKEN_LIFETIME_S :: nat where "ACCESS_TOKEN_LIFETIME_S = 60 * 60"

definition REFRESH_TOKEN_LIFETIME_S :: nat where "REFRESH_TOKEN_LIFETIME_S = 60 * 60 * 24 * 30"

definition GRANT_ABSOLUTE_LIFETIME_S :: nat where "GRANT_ABSOLUTE_LIFETIME_S = 60 * 60 * 24 * 90"

definition LAST_USED_REFRESH_SECS :: nat where "LAST_USED_REFRESH_SECS = 5 * 60"

definition bytes_eq :: "string \<Rightarrow> string \<Rightarrow> bool" where
  "bytes_eq a b \<longleftrightarrow> length a = length b \<and> list_all (\<lambda>(x, y). x = y) (zip a b)"

definition parse_token :: "string \<Rightarrow> string \<Rightarrow> (string \<times> string) option" where
  "parse_token token prefix =
     (case strip_prefix prefix token of
        None \<Rightarrow> None
      | Some rest \<Rightarrow>
          (case split_once CHR ''.'' rest of
             None \<Rightarrow> None
           | Some (grant_id, secret) \<Rightarrow> if grant_id = [] \<or> secret = [] then None else Some (grant_id, secret)))"

definition parse_access_token :: "string \<Rightarrow> (string \<times> string) option" where
  "parse_access_token token = map_option (\<lambda>(grant_id, secret). (grant_id, token)) (parse_token token ACCESS_TOKEN_PREFIX)"

definition parse_refresh_token :: "string \<Rightarrow> (string \<times> string) option" where
  "parse_refresh_token token = map_option (\<lambda>(grant_id, secret). (grant_id, token)) (parse_token token REFRESH_TOKEN_PREFIX)"

text \<open>\<open>nonce1\<close> and \<open>nonce2\<close> are the two nonces drawn.\<close>

type_synonym nonce = string

definition mint_tokens :: "string \<Rightarrow> nonce \<Rightarrow> nonce \<Rightarrow> string \<times> string" where
  "mint_tokens grant_id nonce1 nonce2 =
     (ACCESS_TOKEN_PREFIX @ grant_id @ ''.'' @ nonce1, REFRESH_TOKEN_PREFIX @ grant_id @ ''.'' @ nonce2)"

definition mint_grant ::
    "auth_env \<Rightarrow> string \<Rightarrow> nonce \<Rightarrow> nonce \<Rightarrow> string \<Rightarrow> string \<Rightarrow> string \<Rightarrow> string \<Rightarrow> string \<Rightarrow> string \<Rightarrow> nat
      \<Rightarrow> oauth_grant \<times> string \<times> string" where
  "mint_grant A i nonce1 nonce2 uid client_id client_name redirect_uri resource scope now =
     (let (access_token, refresh_token) = mint_tokens i nonce1 nonce2;
          expires = now + GRANT_ABSOLUTE_LIFETIME_S
      in (\<lparr>og_id = i, og_user_id = uid, og_client_id = client_id, og_client_name = client_name,
           og_redirect_uri = redirect_uri, og_resource = resource, og_scope = scope,
           og_access_token_hash = hash_token A access_token,
           og_access_expires_at = now + ACCESS_TOKEN_LIFETIME_S,
           og_refresh_token_hash = hash_token A refresh_token,
           og_refresh_expires_at = min (now + REFRESH_TOKEN_LIFETIME_S) expires,
           og_expires_at = expires, og_created_at = now, og_last_used_at = None\<rparr>, access_token, refresh_token))"

definition rotate_grant ::
    "auth_env \<Rightarrow> string \<Rightarrow> string \<Rightarrow> oauth_grant \<Rightarrow> nat \<Rightarrow> oauth_grant_update \<times> string \<times> string" where
  "rotate_grant A nonce1 nonce2 g now =
     (let (access_token, refresh_token) = mint_tokens (og_id g) nonce1 nonce2
      in (Rotate (og_refresh_token_hash g) (hash_token A access_token) (now + ACCESS_TOKEN_LIFETIME_S)
            (hash_token A refresh_token) (min (now + REFRESH_TOKEN_LIFETIME_S) (og_expires_at g)),
          access_token, refresh_token))"

definition verify_access_token :: "auth_env \<Rightarrow> desk \<Rightarrow> string \<Rightarrow> string \<Rightarrow> auth_info auth_run" where
  "verify_access_token A D token expected_resource =
     sbind (slift (ok_or (Permanent ''Malformed OAuth access token'') (parse_access_token token))) (\<lambda>(grant_id, full).
     sbind (auth_read_now D ''fetch oauth grant'' (get_oauth_grant (dk_db D) grant_id)) (\<lambda>row.
     sbind (slift (ok_or (Permanent ''OAuth grant not found'') row)) (\<lambda>grant.
     sbind (sensure (bytes_eq (hash_token A full) (og_access_token_hash grant))
              (Permanent ''Invalid OAuth access token'')) (\<lambda>_.
     sbind (auth_clock D) (\<lambda>now.
     sbind (sensure (\<not> og_access_expires_at grant \<le> now) (Permanent ''OAuth access token has expired'')) (\<lambda>_.
     sbind (sensure (\<not> og_expires_at grant \<le> now) (Permanent ''OAuth grant has expired'')) (\<lambda>_.
     sbind (sensure (og_resource grant = expected_resource)
              (Permanent ''OAuth access token is not valid for this resource'')) (\<lambda>_.
     sbind (touch_if_stale D now (og_last_used_at grant) LAST_USED_REFRESH_SECS
              (\<lambda>n. update_oauth_grant (dk_db D) (dk_clock D n) (og_id grant) TouchGrant)) (\<lambda>_.
     sbind (fetch_update_user_auth_info D (og_user_id grant)) (\<lambda>auth.
     sreturn (with_credential None (Some (og_id grant)) auth)))))))))))"

subsection \<open>Clients\<close>

definition OAUTH_CLIENT_ID_LABEL :: string where "OAUTH_CLIENT_ID_LABEL = ''toolbox-oauth-client-id-v1''"

definition derive_client_id_key :: "oauth_env \<Rightarrow> string \<Rightarrow> string option" where
  "derive_client_id_key E secret = (if secret = [] then None else Some (oe_hmac E secret OAUTH_CLIENT_ID_LABEL))"

definition client_id_key_from_env :: "oauth_env \<Rightarrow> (string \<Rightarrow> string option) \<Rightarrow> string option" where
  "client_id_key_from_env E env = derive_client_id_key E (unwrap_or [] (env ''OAUTH_CLIENT_ID_SECRET''))"

definition encode_client_id :: "oauth_env \<Rightarrow> string \<Rightarrow> client_registration \<Rightarrow> string" where
  "encode_client_id E key registration =
     (let payload_b64 = oe_b64 E (oe_client_json E registration)
      in payload_b64 @ ''.'' @ oe_b64 E (oe_hmac E key payload_b64))"

definition decode_client_id :: "oauth_env \<Rightarrow> string \<Rightarrow> string \<Rightarrow> client_registration option" where
  "decode_client_id E key client_id =
     (case split_once CHR ''.'' client_id of
        None \<Rightarrow> None
      | Some (payload_b64, sig_b64) \<Rightarrow>
          (case oe_unb64 E sig_b64 of
             None \<Rightarrow> None
           | Some given_sig \<Rightarrow>
               if \<not> bytes_eq (oe_hmac E key payload_b64) given_sig then None
               else (case oe_unb64 E payload_b64 of
                       None \<Rightarrow> None
                     | Some payload \<Rightarrow> oe_client_of_json E payload)))"

definition validate_redirect_uri :: "oauth_env \<Rightarrow> string \<Rightarrow> string + unit" where
  "validate_redirect_uri E uri =
     (case oe_url E uri of
        None \<Rightarrow> Inl ''redirect_uri is not a valid URL''
      | Some u \<Rightarrow>
          if url_fragment u \<noteq> None then Inl ''redirect_uri must not contain a fragment''
          else (case url_host u of
                  None \<Rightarrow> Inl ''redirect_uri must have a host''
                | Some host \<Rightarrow>
                    if url_scheme u = ''https'' then Inr ()
                    else if url_scheme u = ''http'' \<and> host \<in> {''localhost'', ''127.0.0.1'', ''[::1]''} then Inr ()
                    else Inl ''redirect_uri must be https://, or http:// on localhost/127.0.0.1/[::1]''))"

definition is_valid_pkce_verifier :: "string \<Rightarrow> bool" where
  "is_valid_pkce_verifier verifier \<longleftrightarrow>
     43 \<le> length verifier \<and> length verifier \<le> 128
     \<and> list_all (\<lambda>b. is_ascii_alphanumeric b \<or> b \<in> {CHR ''-'', CHR ''.'', CHR ''_'', CHR ''~''}) verifier"

definition verify_pkce_s256 :: "oauth_env \<Rightarrow> string \<Rightarrow> string \<Rightarrow> bool" where
  "verify_pkce_s256 E verifier challenge =
     (if \<not> is_valid_pkce_verifier verifier then False
      else bytes_eq (oe_b64 E (oe_sha256 E verifier)) challenge)"

subsection \<open>Replies\<close>

datatype reply_body =
    ErrorBody string string
  | TokenBody string string string
  | RegisterBody string string "string list" nat
  | MetadataBody string string string string
  | ResourceBody string "string list"
  | NoBody

record http_reply =
  hr_status :: nat
  hr_headers :: "(string \<times> string) list"
  hr_body :: reply_body

definition json_reply :: "nat \<Rightarrow> reply_body \<Rightarrow> http_reply" where
  "json_reply status body =
     \<lparr>hr_status = status, hr_headers = [(''Content-Type'', ''application/json'')], hr_body = body\<rparr>"

definition no_store :: "http_reply \<Rightarrow> http_reply" where
  "no_store r = r\<lparr>hr_headers := hr_headers r @ [(''Cache-Control'', ''no-store'')]\<rparr>"

definition is_cors_preflight_path :: "string \<Rightarrow> bool" where
  "is_cors_preflight_path path \<longleftrightarrow>
     path \<in> {''/.well-known/oauth-authorization-server'', ''/.well-known/oauth-protected-resource'',
       ''/.well-known/oauth-protected-resource/mcp'', ''/oauth/register'', ''/oauth/token'', ''/mcp''}"

definition cors_preflight :: http_reply where
  "cors_preflight = \<lparr>hr_status = 204, hr_headers = [], hr_body = NoBody\<rparr>"

definition error_reply :: "nat \<Rightarrow> string \<Rightarrow> string \<Rightarrow> http_reply" where
  "error_reply status e description = no_store (json_reply status (ErrorBody e description))"

definition server_error :: http_reply where
  "server_error = error_reply 500 ''server_error'' ''Internal error''"

definition invalid_grant :: "string \<Rightarrow> http_reply" where
  "invalid_grant description = error_reply 400 ''invalid_grant'' description"

definition metadata :: "(string \<Rightarrow> string option) \<Rightarrow> string option \<Rightarrow> http_reply" where
  "metadata env host =
     (let api_base = api_base_url env host in
      json_reply 200 (MetadataBody api_base (web_base_url env @ ''/app/oauth/authorize'')
        (api_base @ ''/oauth/token'') (api_base @ ''/oauth/register'')))"

definition protected_resource_metadata :: "(string \<Rightarrow> string option) \<Rightarrow> string option \<Rightarrow> http_reply" where
  "protected_resource_metadata env host =
     (let api_base = api_base_url env host in json_reply 200 (ResourceBody (api_base @ ''/mcp'') [api_base]))"

subsection \<open>Dynamic registration\<close>

definition MAX_CLIENT_NAME_LEN :: nat where "MAX_CLIENT_NAME_LEN = 100"

definition MAX_REDIRECT_URIS :: nat where "MAX_REDIRECT_URIS = 10"

definition MAX_REDIRECT_URI_LEN :: nat where "MAX_REDIRECT_URI_LEN = 2000"

definition DEFAULT_CLIENT_NAME :: string where "DEFAULT_CLIENT_NAME = ''Unnamed client''"

fun check_uris :: "oauth_env \<Rightarrow> string list \<Rightarrow> http_reply + unit" where
  "check_uris E [] = Inr ()"
| "check_uris E (uri # uris) =
     (if length uri > MAX_REDIRECT_URI_LEN
      then Inl (error_reply 400 ''invalid_client_metadata'' ''redirect_uri is too long'')
      else (case validate_redirect_uri E uri of
              Inl msg \<Rightarrow> Inl (error_reply 400 ''invalid_redirect_uri'' msg)
            | Inr u \<Rightarrow> check_uris E uris))"

definition client_name_or_default :: "string option \<Rightarrow> string" where
  "client_name_or_default name =
     (case name of Some n \<Rightarrow> if trim n \<noteq> [] then trim n else DEFAULT_CLIENT_NAME | None \<Rightarrow> DEFAULT_CLIENT_NAME)"

definition register :: "oauth_env \<Rightarrow> string option \<Rightarrow> nat \<Rightarrow> string \<Rightarrow> http_reply" where
  "register E client_id_key now body =
     (case client_id_key of
        None \<Rightarrow> error_reply 503 ''temporarily_unavailable''
                 ''Dynamic client registration is not configured on this server''
      | Some key \<Rightarrow>
     (case oe_register_of_json E body of
        None \<Rightarrow> error_reply 400 ''invalid_client_metadata'' ''Malformed JSON body''
      | Some req \<Rightarrow>
     if (case rr_token_endpoint_auth_method req of Some m \<Rightarrow> m \<noteq> ''none'' | None \<Rightarrow> False)
     then error_reply 400 ''invalid_client_metadata''
            ''Only public clients (token_endpoint_auth_method \"none\") are supported''
     else if rr_redirect_uris req = []
     then error_reply 400 ''invalid_client_metadata'' ''At least one redirect_uri is required''
     else if length (rr_redirect_uris req) > MAX_REDIRECT_URIS
     then error_reply 400 ''invalid_client_metadata'' ''Too many redirect_uris''
     else (case check_uris E (rr_redirect_uris req) of
        Inl reply \<Rightarrow> reply
      | Inr u \<Rightarrow>
          (let client_name = client_name_or_default (rr_client_name req) in
           if char_count client_name > MAX_CLIENT_NAME_LEN
           then error_reply 400 ''invalid_client_metadata'' ''client_name is too long''
           else
             (let client_id = encode_client_id E key
                \<lparr>cr_client_name = client_name, cr_redirect_uris = rr_redirect_uris req, cr_iat = now\<rparr>
              in json_reply 201 (RegisterBody client_id client_name (rr_redirect_uris req) now))))))"

subsection \<open>Authorization codes\<close>

definition OAUTH_CODE_STATE_KIND :: string where "OAUTH_CODE_STATE_KIND = ''oauth_code''"

definition OAUTH_CODE_TTL_S :: nat where "OAUTH_CODE_TTL_S = 5 * 60"

definition oauth_code_state_id :: "string \<Rightarrow> string" where
  "oauth_code_state_id code_hash = OAUTH_CODE_STATE_KIND @ ''_'' @ code_hash"

definition default_resource :: "(string \<Rightarrow> string option) \<Rightarrow> string option \<Rightarrow> string" where
  "default_resource env host = api_base_url env host @ ''/mcp''"

definition registered_client :: "oauth_env \<Rightarrow> desk \<Rightarrow> string \<Rightarrow> string \<Rightarrow> client_registration run" where
  "registered_client E D client_id redirect_uri =
     sbind (found (Api (Anyhow ''Unknown or invalid client''))
              (case client_id_key_from_env E (dk_env D) of
                 None \<Rightarrow> None | Some key \<Rightarrow> decode_client_id E key client_id)) (\<lambda>registration.
     sbind (sensure_api (list_ex (\<lambda>u. u = redirect_uri) (cr_redirect_uris registration))
              (Anyhow ''redirect_uri is not registered for this client'')) (\<lambda>_.
     sreturn registration))"

definition is_s256_challenge :: "string \<Rightarrow> bool" where
  "is_s256_challenge challenge \<longleftrightarrow>
     length challenge = 43
     \<and> list_all (\<lambda>b. is_ascii_alphanumeric b \<or> b \<in> {CHR ''-'', CHR ''_''}) challenge"

definition m_approve_oauth_authorization ::
    "auth_env \<Rightarrow> oauth_env \<Rightarrow> desk \<Rightarrow> string \<Rightarrow> string \<Rightarrow> string \<Rightarrow> string \<Rightarrow> string option \<Rightarrow> string option
      \<Rightarrow> string option \<Rightarrow> string run" where
  "m_approve_oauth_authorization A E D client_id redirect_uri code_challenge method scope resource state =
     sbind (guard D RequireAuthenticated) (\<lambda>_.
     sbind (require_user_id D) (\<lambda>uid.
     sbind (registered_client E D client_id redirect_uri) (\<lambda>registration.
     sbind (sensure_api (method = ''S256'') (Anyhow ''code_challenge_method must be S256'')) (\<lambda>_.
     sbind (sensure_api (is_s256_challenge code_challenge)
              (Anyhow ''code_challenge does not look like a valid S256 challenge'')) (\<lambda>_.
     sbind (slift (case scope of
              Some s \<Rightarrow> if s \<noteq> DEFAULT_SCOPE
                then Inl (Api (Anyhow (''Unsupported scope: '' @ CHR 0x22 # s @ [CHR 0x22]))) else Inr ()
            | None \<Rightarrow> Inr ())) (\<lambda>_.
     sbind (now_sec D) (\<lambda>now.
     sbind (generate_nonce D) (\<lambda>code.
     sbind (slift (map_err (\<lambda>e. Api (Anyhow e)) (oe_code_json E
              \<lparr>ac_user_id = uid, ac_client_id = client_id, ac_client_name = cr_client_name registration,
               ac_redirect_uri = redirect_uri, ac_code_challenge = code_challenge, ac_scope = scope,
               ac_resource = resource\<rparr>))) (\<lambda>payload.
     sbind (db_write D (\<lambda>n. put_ephemeral_state (dk_db D) (oauth_code_state_id (hash_token A code))
              OAUTH_CODE_STATE_KIND payload (now + OAUTH_CODE_TTL_S))) (\<lambda>_.
     sbind (sensure_api (oe_url E redirect_uri \<noteq> None) (Anyhow ''redirect_uri is not a valid URL'')) (\<lambda>_.
     sreturn (oe_append_pairs E redirect_uri
       ((''code'', code) # (case state of Some s \<Rightarrow> [(''state'', s)] | None \<Rightarrow> []))))))))))))))"

text \<open>The consent page's question: the name and the redirect host of a client.\<close>

definition q_oauth_authorization_request :: "oauth_env \<Rightarrow> desk \<Rightarrow> string \<Rightarrow> string \<Rightarrow> (string \<times> string) run" where
  "q_oauth_authorization_request E D client_id redirect_uri =
     sbind (guard D RequireAuthenticated) (\<lambda>_.
     sbind (require_user_id D) (\<lambda>_.
     sbind (registered_client E D client_id redirect_uri) (\<lambda>registration.
     sbind (found (Api (Anyhow ''redirect_uri has no host''))
              (case oe_url E redirect_uri of None \<Rightarrow> None | Some u \<Rightarrow> url_host u)) (\<lambda>host.
     sreturn (cr_client_name registration, host)))))"

subsection \<open>The token endpoint\<close>

text \<open>A handler of the endpoint: an early reply is an error, and either way there is a reply.\<close>

type_synonym 'a http_run = "world \<Rightarrow> (http_reply + 'a) \<times> world"

definition replied :: "http_reply http_run \<Rightarrow> world \<Rightarrow> http_reply \<times> world" where
  "replied m w = (case m w of (Inl reply, w') \<Rightarrow> (reply, w') | (Inr reply, w') \<Rightarrow> (reply, w'))"

definition http_db :: "desk \<Rightarrow> (nat \<Rightarrow> store \<Rightarrow> (db_error + 'a) \<times> store) \<Rightarrow> 'a http_run" where
  "http_db D m = call D (\<lambda>n s. let (r, s') = m n s in (map_err (\<lambda>e. server_error) r, s'))"

definition http_tick :: "desk \<Rightarrow> (nat \<Rightarrow> 'a) \<Rightarrow> 'a http_run" where
  "http_tick D f = call D (\<lambda>n s. (Inr (f n), s))"

definition token_response :: "string \<Rightarrow> string \<Rightarrow> string \<Rightarrow> http_reply" where
  "token_response access_token refresh_token scope = no_store (json_reply 200 (TokenBody access_token refresh_token scope))"

definition must :: "bool \<Rightarrow> http_reply \<Rightarrow> unit http_run" where
  "must b reply = sensure b reply"

text \<open>The code's row is loaded and deleted before anything about it is checked.\<close>

definition take_code :: "auth_env \<Rightarrow> desk \<Rightarrow> string \<Rightarrow> ephemeral_state http_run" where
  "take_code A D code =
     (let state_id = oauth_code_state_id (hash_token A code) in
      sbind (http_db D (\<lambda>n s. (get_ephemeral_state (dk_db D) state_id (dk_view D n s), s))) (\<lambda>row.
      sbind (if row \<noteq> None then http_db D (\<lambda>n. delete_ephemeral_state (dk_db D) state_id) else sreturn ()) (\<lambda>_.
      slift (ok_or (invalid_grant ''Unknown or already-used authorization code'')
        (case row of Some st \<Rightarrow> if es_kind st = OAUTH_CODE_STATE_KIND then Some st else None | None \<Rightarrow> None)))))"

definition check_code ::
    "oauth_env \<Rightarrow> string option \<Rightarrow> string \<Rightarrow> string \<Rightarrow> string \<Rightarrow> auth_code_payload \<Rightarrow> unit http_run" where
  "check_code E client_id_key client_id redirect_uri code_verifier p =
     sbind (must (case client_id_key of Some key \<Rightarrow> decode_client_id E key client_id \<noteq> None | None \<Rightarrow> False)
              (error_reply 401 ''invalid_client'' ''Unknown client'')) (\<lambda>_.
     sbind (must (ac_client_id p = client_id) (invalid_grant ''client_id does not match the authorization code'')) (\<lambda>_.
     sbind (must (ac_redirect_uri p = redirect_uri) (invalid_grant ''redirect_uri does not match the authorization code'')) (\<lambda>_.
     must (verify_pkce_s256 E code_verifier (ac_code_challenge p))
       (invalid_grant ''code_verifier does not match code_challenge''))))"

definition grant_tokens :: "auth_env \<Rightarrow> desk \<Rightarrow> auth_code_payload \<Rightarrow> string \<Rightarrow> string \<Rightarrow> http_reply http_run" where
  "grant_tokens A D p resource scope =
     sbind (http_tick D (dk_clock D)) (\<lambda>now.
     sbind (http_tick D (dk_id D)) (\<lambda>i.
     sbind (http_tick D (dk_nonce D)) (\<lambda>nonce1.
     sbind (http_tick D (dk_nonce D)) (\<lambda>nonce2.
     let (grant, access_token, refresh_token) = mint_grant A i nonce1 nonce2
       (ac_user_id p) (ac_client_id p) (ac_client_name p) (ac_redirect_uri p) resource scope now in
     sbind (http_db D (\<lambda>n. create_oauth_grant (dk_db D) grant)) (\<lambda>_.
     sreturn (token_response access_token refresh_token scope))))))"

definition token_authorization_code ::
    "auth_env \<Rightarrow> oauth_env \<Rightarrow> desk \<Rightarrow> string option \<Rightarrow> string option \<Rightarrow> (string \<Rightarrow> string option) \<Rightarrow> http_reply http_run" where
  "token_authorization_code A E D client_id_key host params =
     (case (params ''code'', params ''client_id'', params ''redirect_uri'', params ''code_verifier'') of
        (Some code, Some client_id, Some redirect_uri, Some code_verifier) \<Rightarrow>
     sbind (take_code A D code) (\<lambda>st.
     sbind (http_tick D (dk_clock D)) (\<lambda>now.
     sbind (must (\<not> es_expires_at st \<le> now) (invalid_grant ''Authorization code has expired'')) (\<lambda>_.
     sbind (slift (ok_or (invalid_grant ''Malformed authorization code'') (oe_code_of_json E (es_payload st)))) (\<lambda>p.
     sbind (check_code E client_id_key client_id redirect_uri code_verifier p) (\<lambda>_.
     let resource = unwrap_or (default_resource (dk_env D) host) (ac_resource p) in
     sbind (must (case params ''resource'' of Some requested \<Rightarrow> requested = resource | None \<Rightarrow> True)
              (error_reply 400 ''invalid_target'' ''resource does not match the authorization request'')) (\<lambda>_.
     let scope = unwrap_or DEFAULT_SCOPE (ac_scope p) in
     grant_tokens A D p resource scope))))))
      | _ \<Rightarrow> slift (Inl (error_reply 400 ''invalid_request''
               ''code, client_id, redirect_uri and code_verifier are required'')))"

text \<open>A refresh token that is not the grant's current one revokes the grant.\<close>

definition current_or_revoke :: "auth_env \<Rightarrow> desk \<Rightarrow> oauth_grant \<Rightarrow> string \<Rightarrow> unit http_run" where
  "current_or_revoke A D grant full =
     (if \<not> bytes_eq (hash_token A full) (og_refresh_token_hash grant)
      then sbind (http_db D (\<lambda>n. delete_oauth_grant (dk_db D) (og_id grant))) (\<lambda>_.
           slift (Inl (invalid_grant ''Refresh token has already been used'')))
      else sreturn ())"

definition user_available :: "desk \<Rightarrow> string \<Rightarrow> unit http_run" where
  "user_available D uid w =
     (case fetch_update_user_auth_info D uid w of
        (Inr a, w') \<Rightarrow> (Inr (), w')
      | (Inl (Permanent m), w') \<Rightarrow> (Inl (invalid_grant ''User account is no longer available''), w')
      | (Inl (Transient m), w') \<Rightarrow> (Inl server_error, w'))"

fun rotated :: "db_error + unit \<Rightarrow> http_reply + unit" where
  "rotated (Inr u) = Inr ()"
| "rotated (Inl (NotFound m)) = Inl (invalid_grant ''Refresh token has already been used'')"
| "rotated (Inl e) = Inl server_error"

definition rotate_tokens :: "auth_env \<Rightarrow> desk \<Rightarrow> oauth_grant \<Rightarrow> nat \<Rightarrow> http_reply http_run" where
  "rotate_tokens A D grant now =
     sbind (http_tick D (dk_nonce D)) (\<lambda>nonce1.
     sbind (http_tick D (dk_nonce D)) (\<lambda>nonce2.
     let (shape, access_token, new_refresh_token) = rotate_grant A nonce1 nonce2 grant now in
     sbind (call D (\<lambda>n s. let (r, s') = update_oauth_grant (dk_db D) (dk_clock D n) (og_id grant) shape s
                           in (rotated r, s'))) (\<lambda>_.
     sreturn (token_response access_token new_refresh_token (og_scope grant)))))"

definition token_refresh :: "auth_env \<Rightarrow> desk \<Rightarrow> (string \<Rightarrow> string option) \<Rightarrow> http_reply http_run" where
  "token_refresh A D params =
     (case (params ''refresh_token'', params ''client_id'') of
        (Some refresh_token, Some client_id) \<Rightarrow>
     sbind (slift (ok_or (invalid_grant ''Malformed refresh token'') (parse_refresh_token refresh_token))) (\<lambda>(grant_id, full).
     sbind (http_db D (\<lambda>n s. (get_oauth_grant (dk_db D) grant_id s, s))) (\<lambda>row.
     sbind (slift (ok_or (invalid_grant ''Unknown refresh token'') row)) (\<lambda>grant.
     sbind (current_or_revoke A D grant full) (\<lambda>_.
     sbind (http_tick D (dk_clock D)) (\<lambda>now.
     sbind (must (\<not> (og_refresh_expires_at grant \<le> now \<or> og_expires_at grant \<le> now))
              (invalid_grant ''Refresh token has expired'')) (\<lambda>_.
     sbind (must (og_client_id grant = client_id) (invalid_grant ''client_id does not match this refresh token'')) (\<lambda>_.
     sbind (must (case params ''resource'' of Some requested \<Rightarrow> requested = og_resource grant | None \<Rightarrow> True)
              (error_reply 400 ''invalid_target'' ''resource does not match this grant'')) (\<lambda>_.
     sbind (user_available D (og_user_id grant)) (\<lambda>_.
     rotate_tokens A D grant now)))))))))
      | _ \<Rightarrow> slift (Inl (error_reply 400 ''invalid_request'' ''refresh_token and client_id are required'')))"

text \<open>The parameters of the form: a later pair of the same name wins, as in a \<^verbatim>\<open>HashMap\<close>.\<close>

definition token_endpoint ::
    "auth_env \<Rightarrow> oauth_env \<Rightarrow> desk \<Rightarrow> string option \<Rightarrow> string option \<Rightarrow> string \<Rightarrow> world \<Rightarrow> http_reply \<times> world" where
  "token_endpoint A E D client_id_key host body =
     (let params = map_of (rev (oe_form E body)) in
      replied (case params ''grant_type'' of
        Some t \<Rightarrow>
          if t = ''authorization_code'' then token_authorization_code A E D client_id_key host params
          else if t = ''refresh_token'' then token_refresh A D params
          else slift (Inl (error_reply 400 ''unsupported_grant_type''
                 ''Only authorization_code and refresh_token are supported''))
      | None \<Rightarrow> slift (Inl (error_reply 400 ''invalid_request'' ''grant_type is required''))))"

end
