(* ===== verification/OAuth_Safety.thy ===== *)
theory OAuth_Safety
  imports Token_Safety OAuth
begin

section \<open>What the authorization server guarantees\<close>

lemma bytes_eq_iff: "bytes_eq a b \<longleftrightarrow> a = b"
proof -
  have "list_all (\<lambda>(x, y). x = y) (zip a b) \<longleftrightarrow> a = b" if "length a = length b"
    using that by (induction a b rule: list_induct2) auto
  then show ?thesis by (auto simp: bytes_eq_def)
qed

lemma Inr_ok_or: "Inr y = ok_or e x \<longleftrightarrow> x = Some y"
  using ok_or_eq_Inr [of e x y] by (simp add: eq_commute [of "Inr y"])

lemma parse_token_minted:
  assumes "i \<noteq> []" "CHR ''.'' \<notin> set i" "nonce \<noteq> []"
  shows "parse_token (prefix @ i @ ''.'' @ nonce) prefix = Some (i, nonce)"
  using assms split_once_append [of "CHR ''.''" i nonce] by (simp add: parse_token_def)

lemma parse_refresh_token_D:
  assumes "parse_refresh_token token = Some (i, full)"
  obtains secret where "token = ''mtor_'' @ i @ ''.'' @ secret" "full = token" "i \<noteq> []" "secret \<noteq> []" "CHR ''.'' \<notin> set i"
  using assms strip_prefix_Some split_once_SomeD
  by (fastforce simp: parse_refresh_token_def parse_token_def REFRESH_TOKEN_PREFIX_def split: option.splits if_splits)

subsection \<open>Client ids\<close>

definition codec_ok :: "oauth_env \<Rightarrow> bool" where
  "codec_ok E \<longleftrightarrow> (\<forall>x. oe_unb64 E (oe_b64 E x) = Some x \<and> CHR ''.'' \<notin> set (oe_b64 E x))"

text \<open>
  A client id carries its registration. What \<^verbatim>\<open>encode_client_id\<close> signs with a key,
  \<^verbatim>\<open>decode_client_id\<close> with that key reads back; and whatever id decodes has, after its first dot,
  the key's signature of what stands before it: no registration is read from an unsigned payload.
\<close>

theorem client_id_self_verifying:
  assumes "codec_ok E" "oe_client_of_json E (oe_client_json E registration) = Some registration"
  shows "decode_client_id E key (encode_client_id E key registration) = Some registration
    \<and> (\<forall>client_id r. decode_client_id E key client_id = Some r \<longrightarrow>
         (\<exists>payload sig. client_id = payload @ ''.'' @ sig \<and> oe_unb64 E sig = Some (oe_hmac E key payload)
            \<and> Option.bind (oe_unb64 E payload) (oe_client_of_json E) = Some r))"
proof (intro conjI allI impI)
  let ?p = "oe_b64 E (oe_client_json E registration)"
  have "split_once CHR ''.'' (?p @ CHR ''.'' # oe_b64 E (oe_hmac E key ?p)) = Some (?p, oe_b64 E (oe_hmac E key ?p))"
    using assms(1) by (intro split_once_append) (simp add: codec_ok_def)
  with assms show "decode_client_id E key (encode_client_id E key registration) = Some registration"
    by (simp add: decode_client_id_def encode_client_id_def Let_def codec_ok_def bytes_eq_iff)
next
  fix client_id r assume "decode_client_id E key client_id = Some r"
  then show "\<exists>payload sig. client_id = payload @ ''.'' @ sig \<and> oe_unb64 E sig = Some (oe_hmac E key payload)
      \<and> Option.bind (oe_unb64 E payload) (oe_client_of_json E) = Some r"
    using split_once_SomeD
    by (fastforce simp: decode_client_id_def bytes_eq_iff split: option.splits if_splits)
qed

fun unpair :: "string \<Rightarrow> string" where
  "unpair (x # y # r) = (if x = CHR ''1'' then CHR ''.'' else y) # unpair r"
| "unpair _ = []"

definition pair_code :: "string \<Rightarrow> string" where
  "pair_code s = concat (map (\<lambda>c. if c = CHR ''.'' then ''1p'' else [CHR ''0'', c]) s)"

lemma unpair_code: "unpair (pair_code s) = s" "CHR ''.'' \<notin> set (pair_code s)"
  unfolding pair_code_def by (induction s) auto

definition plain_oauth :: oauth_env where
  "plain_oauth =
     \<lparr>oe_hmac = (\<lambda>key msg. key @ ''/'' @ msg), oe_sha256 = (\<lambda>s. s), oe_b64 = pair_code,
      oe_unb64 = (\<lambda>s. Some (unpair s)), oe_client_json = cr_client_name,
      oe_client_of_json = (\<lambda>s. Some \<lparr>cr_client_name = s, cr_redirect_uris = [], cr_iat = 0\<rparr>),
      oe_register_of_json = (\<lambda>s. None), oe_code_json = (\<lambda>p. Inr (ac_client_id p)),
      oe_code_of_json = (\<lambda>s. Some \<lparr>ac_user_id = ''u1'', ac_client_id = s, ac_client_name = ''app'',
        ac_redirect_uri = ''https://app/cb'', ac_code_challenge = pair_code (replicate 43 CHR ''v''), ac_scope = None,
        ac_resource = None\<rparr>),
      oe_url = (\<lambda>s. None), oe_append_pairs = (\<lambda>u ps. u), oe_form = (\<lambda>s. [])\<rparr>"

theorem client_id_self_verifying_witness:
  "let r = \<lparr>cr_client_name = ''app v1.0'', cr_redirect_uris = [], cr_iat = 0\<rparr> in
     decode_client_id plain_oauth ''key'' (encode_client_id plain_oauth ''key'' r) = Some r"
proof -
  have "codec_ok plain_oauth" by (simp add: codec_ok_def plain_oauth_def unpair_code)
  from client_id_self_verifying [OF this] show ?thesis by (simp add: plain_oauth_def)
qed

subsection \<open>Access tokens\<close>

text \<open>The grant an access token stands on, for the resource asked for.\<close>

definition live_grant :: "auth_env \<Rightarrow> desk \<Rightarrow> store \<Rightarrow> string \<Rightarrow> string \<Rightarrow> string \<Rightarrow> string \<Rightarrow> bool" where
  "live_grant A D s token resource gid uid \<longleftrightarrow>
     (\<exists>row it g. s ''oauth_grant'' row = Some it \<and> hydrate_oauth_grant it = Inr g \<and> og_id g = gid
        \<and> og_access_token_hash g = hash_token A token \<and> og_resource g = resource \<and> og_user_id g = uid
        \<and> (\<exists>n. dk_clock D n < og_access_expires_at g \<and> dk_clock D n < og_expires_at g))"

context current_desk begin

lemma triple_access_token:
  assumes "keyed s0 ''user''"
  shows "triple (\<lambda>s. s = s0) (verify_access_token A D token resource)
     (\<lambda>a _. \<exists>i ms su gid. a = User i ms su None (Some gid) \<and> live_grant A D s0 token resource gid i \<and> backed s0 i ms su)
     (\<lambda>_. True)"
proof -
  let ?T = "as_before {''user'', ''membership''} s0"
  let ?row = "\<lambda>g. \<exists>row it. s0 ''oauth_grant'' row = Some it \<and> hydrate_oauth_grant it = Inr g"
  have parse: "triple (\<lambda>s. s = s0) (slift (ok_or e (parse_access_token token)))
      (\<lambda>p s. snd p = token \<and> s = s0) (\<lambda>_. True)" for e :: auth_error
    by (rule triple_lift) (auto simp: ok_or_def parse_access_token_def split: option.splits)
  have row: "triple (\<lambda>s. s = s0) (auth_read_now D msg (get_oauth_grant (dk_db D) i))
      (\<lambda>row s. (\<forall>g. row = Some g \<longrightarrow> ?row g) \<and> ?T s) (\<lambda>_. True)" for msg i
    unfolding auth_read_now_def
    by (rule triple_call)
      (auto simp: get_oauth_grant_def map_err_def as_before_def dest!: get_row_spec split: sum.splits)
  have unwrap: "triple (\<lambda>s. (\<forall>g. row = Some g \<longrightarrow> ?row g) \<and> ?T s) (slift (ok_or e row)) (\<lambda>g s. ?row g \<and> ?T s) (\<lambda>_. True)"
    for row and e :: auth_error
    by (rule triple_lift) (auto simp: ok_or_def split: option.splits)
  have check: "triple ?T (sensure b e) (\<lambda>_ s. b \<and> ?T s) (\<lambda>_. True)" for b and e :: auth_error
    by (rule triple_ensure) auto
  have clock: "triple ?T (auth_clock D) (\<lambda>now s. (\<exists>n. now = dk_clock D n) \<and> ?T s) (\<lambda>_. True)"
    by (rule triple_clock) simp
  have table: "s' = s \<or> (\<exists>req. commits (dy_ss d) s [req] s' \<and> fst (target req) \<notin> {''user'', ''membership''})"
    if "update_oauth_grant (dk_db D) (dk_clock D n) i TouchGrant s = (r, s')" for n s r s' i
    using token_touch_table(3) [OF that] by auto
  have result: "\<exists>i ms su gid. with_credential None (Some (og_id g)) a = User i ms su None (Some gid)
        \<and> live_grant A D s0 token resource gid i \<and> backed s0 i ms su"
    if "?row g" "bytes_eq (hash_token A token) (og_access_token_hash g)" "\<exists>n. now = dk_clock D n"
      "\<not> og_access_expires_at g \<le> now" "\<not> og_expires_at g \<le> now" "og_resource g = resource"
      "\<exists>ms su. a = User (og_user_id g) ms su None None \<and> backed s0 (og_user_id g) ms su" for g now a
  proof -
    from that(1,3) obtain row it n where it: "s0 ''oauth_grant'' row = Some it" "hydrate_oauth_grant it = Inr g"
      and n: "now = dk_clock D n" by blast
    have "live_grant A D s0 token resource (og_id g) (og_user_id g)"
      unfolding live_grant_def
      by (rule exI [of _ row], rule exI [of _ it], rule exI [of _ g])
        (use it n that(2,4-6) in \<open>auto simp: bytes_eq_iff not_le\<close>)
    with that(7) show ?thesis by auto
  qed
  show ?thesis
    unfolding verify_access_token_def
    by (rule triple_bind [OF parse], rule triple_fact, simp only: split_beta,
        rule triple_bind [OF row], rule triple_bind [OF unwrap], rule triple_fact,
        rule triple_bind [OF check], rule triple_fact, rule triple_bind [OF clock], rule triple_fact,
        rule triple_bind [OF check], rule triple_fact, rule triple_bind [OF check], rule triple_fact,
        rule triple_bind [OF check], rule triple_fact, rule triple_bind [OF triple_touch [OF table]], assumption,
        rule triple_bind [OF triple_user [OF assms]], rule triple_return) (rule result)
qed

end

text \<open>
  C24. An access token opens one resource for as long as its grant lasts. When
  \<^verbatim>\<open>verify_access_token\<close> answers a principal, the database holds a grant with the token's hash, for
  exactly the resource asked for, whose access token and whose absolute lifetime had both not run
  out, and the principal is the grant's enabled user with that user's memberships; it carries the
  grant's id and no session token, so it cannot log a session out.
\<close>

theorem access_token_audience:
  assumes "current_desk d h q D" "keyed (w_db w) ''user''"
    and "verify_access_token A D token resource w = (Inr a, w')"
  shows "\<exists>i ms su gid. a = User i ms su None (Some gid)
    \<and> live_grant A D (w_db w) token resource gid i \<and> backed (w_db w) i ms su"
  using tripleD [OF current_desk.triple_access_token [OF assms(1,2)] refl assms(3)] by simp

subsection \<open>Refresh\<close>

context current_desk begin

text \<open>The user's check before a refresh writes the table of users only.\<close>

lemma user_keeps_grants: "triple (as_before {''oauth_grant''} s0) (fetch_update_user_auth_info D uid)
    (\<lambda>_. as_before {''oauth_grant''} s0) (as_before {''oauth_grant''} s0)"
proof -
  let ?T = "as_before {''oauth_grant''} s0"
  have table: "s' = s \<or> (\<exists>req. commits (dy_ss d) s [req] s' \<and> fst (target req) \<notin> {''oauth_grant''})"
    if "update_user (dk_db D) (dk_clock D n) uid AccessTime s = (r, s')" for n s r s'
    using user_touch_table [OF that] by auto
  have read: "triple ?T (auth_read D msg f) (\<lambda>_. ?T) ?T" for msg and f :: "store \<Rightarrow> db_error + 'x"
    by (rule triple_auth_read)
  show ?thesis
    unfolding fetch_update_user_auth_info_def load_principal_def
    by (rule triple_bind [OF read], rule triple_bind [where R = "\<lambda>_. ?T"], rule triple_lift, assumption+,
        rule triple_bind [where R = "\<lambda>_. ?T"], rule triple_ensure, assumption+,
        rule triple_bind [OF triple_clock], assumption,
        rule triple_bind [OF triple_touch_keep [OF table]], assumption,
        rule triple_bind [OF read], rule triple_return)
qed

lemma user_available_grants:
  "user_available D uid w = (r, w') \<Longrightarrow> w_db w' ''oauth_grant'' = w_db w ''oauth_grant''"
proof -
  assume run: "user_available D uid w = (r, w')"
  obtain r1 w1 where f: "fetch_update_user_auth_info D uid w = (r1, w1)" by (cases "fetch_update_user_auth_info D uid w")
  have "as_before {''oauth_grant''} (w_db w) (w_db w)" by (simp add: as_before_def)
  from tripleD [OF user_keeps_grants this f] have "as_before {''oauth_grant''} (w_db w) (w_db w1)"
    by (simp split: sum.splits)
  with run f show ?thesis
    by (auto simp: user_available_def as_before_def split: sum.splits auth_error.splits)
qed

end

context solo_desk begin

lemma http_read: "http_db D (\<lambda>n s. (f n s, s)) w
    = (map_err (\<lambda>e. server_error) (f (w_n w) (w_db w)), w\<lparr>w_n := Suc (w_n w)\<rparr>)"
  by (simp add: http_db_def call_def alone Let_def)

lemma http_tick_step: "http_tick D f w = (Inr (f (w_n w)), w\<lparr>w_n := Suc (w_n w)\<rparr>)"
  by (simp add: http_tick_def call_step)

lemma must_Inr: "must b e w = (Inr u, w1) \<longleftrightarrow> b \<and> w1 = w"
  by (auto simp: must_def)

text \<open>A refresh that succeeds, step by step.\<close>

lemma refreshed:
  assumes "token_refresh A D params w = (Inr reply, w1)"
  obtains token gid g n1 n2 k it v where
    "params ''refresh_token'' = Some token" "parse_refresh_token token = Some (gid, token)"
    "w_db w ''oauth_grant'' gid = Some it" "hydrate_oauth_grant it = Inr g"
    "og_refresh_token_hash g = hash_token A token" "dk_clock D k < og_refresh_expires_at g" "dk_clock D k < og_expires_at g"
    "params ''client_id'' = Some (og_client_id g)"
    "user_available D (og_user_id g) (w\<lparr>w_n := Suc (Suc (w_n w))\<rparr>) = (Inr (), v)"
    "update_oauth_grant (dk_db D) (dk_clock D (Suc (Suc (w_n v)))) (og_id g)
       (Rotate (hash_token A token) (hash_token A (''mtoa_'' @ og_id g @ ''.'' @ dk_nonce D n1)) (dk_clock D k + ACCESS_TOKEN_LIFETIME_S)
          (hash_token A (''mtor_'' @ og_id g @ ''.'' @ dk_nonce D n2)) (min (dk_clock D k + REFRESH_TOKEN_LIFETIME_S) (og_expires_at g)))
       (w_db v) = (Inr (), w_db w1)"
proof -
  from assms obtain token client_id where params: "params ''refresh_token'' = Some token" "params ''client_id'' = Some client_id"
    by (auto simp: token_refresh_def split: option.splits)
  obtain gid full where parsed: "parse_refresh_token token = Some (gid, full)"
    using assms params by (auto simp: token_refresh_def ok_or_def split: option.splits)
  then have full: "full = token" by (auto simp: parse_refresh_token_def)
  obtain g where got: "get_row (dk_db D) ''oauth_grant'' hydrate_oauth_grant gid (w_db w) = Inr (Some g)"
    using assms params parsed
    by (auto simp: token_refresh_def http_read ok_or_def map_err_def get_oauth_grant_def split: option.splits sum.splits)
  from get_row_spec [OF got] obtain it where it: "w_db w ''oauth_grant'' gid = Some it" "hydrate_oauth_grant it = Inr g" by auto
  let ?now = "dk_clock D (Suc (w_n w))"
  from assms params parsed got obtain v where
    facts: "og_refresh_token_hash g = hash_token A token" "?now < og_refresh_expires_at g" "?now < og_expires_at g"
      "og_client_id g = client_id" "user_available D (og_user_id g) (w\<lparr>w_n := Suc (Suc (w_n w))\<rparr>) = (Inr (), v)"
    and rest: "rotate_tokens A D g ?now v = (Inr reply, w1)"
    by (auto simp: token_refresh_def http_read http_tick_step must_Inr ok_or_def map_err_def get_oauth_grant_def
        current_or_revoke_def bytes_eq_iff full not_le split: if_splits)
  from rest have "update_oauth_grant (dk_db D) (dk_clock D (Suc (Suc (w_n v)))) (og_id g)
       (Rotate (og_refresh_token_hash g) (hash_token A (''mtoa_'' @ og_id g @ ''.'' @ dk_nonce D (w_n v))) (?now + ACCESS_TOKEN_LIFETIME_S)
          (hash_token A (''mtor_'' @ og_id g @ ''.'' @ dk_nonce D (Suc (w_n v)))) (min (?now + REFRESH_TOKEN_LIFETIME_S) (og_expires_at g)))
       (w_db v) = (Inr (), w_db w1)"
    by (auto simp: rotate_tokens_def http_tick_step rotate_grant_def mint_tokens_def ACCESS_TOKEN_PREFIX_def
        REFRESH_TOKEN_PREFIX_def call_def alone Let_def split: prod.splits elim!: rotated.elims)
  with facts params parsed full it show thesis by (intro that) auto
qed

end

text \<open>A grant whose tokens were exchanged.\<close>

definition rotated_grant :: "oauth_grant \<Rightarrow> string \<Rightarrow> nat \<Rightarrow> string \<Rightarrow> nat \<Rightarrow> oauth_grant" where
  "rotated_grant g access_hash access_expires refresh_hash refresh_expires =
     g\<lparr>og_access_token_hash := access_hash, og_access_expires_at := access_expires,
       og_refresh_token_hash := refresh_hash, og_refresh_expires_at := refresh_expires\<rparr>"

lemma hydrate_rotated:
  assumes "hydrate_oauth_grant it = Inr g" "ae < 2 ^ 63" "re < 2 ^ 63"
  shows "hydrate_oauth_grant (it(''access_token_hash'' \<mapsto> AS ah, ''access_expires_at'' \<mapsto> AN (int ae),
      ''refresh_token_hash'' \<mapsto> AS rh, ''refresh_expires_at'' \<mapsto> AN (int re))) = Inr (rotated_grant g ah ae rh re)"
proof -
  have i64: "in_i64 (int ae)" "in_i64 (int re)" using assms(2,3) by (simp_all add: in_i64_def i64_min_def i64_max_def)
  have u64: "as_u64 (int ae) = ae" "as_u64 (int re) = re" using assms(2,3) by (simp_all add: as_u64_def)
  have other: "string_field (it(a \<mapsto> v)) b = string_field it b" "i64_field (it(a \<mapsto> v)) b = i64_field it b"
    if "a \<noteq> b" for a b v and it :: item
    using that by (simp_all add: string_field_def i64_field_def)
  from assms(1) show ?thesis
    by (auto simp: hydrate_oauth_grant_def row_simps other i64 u64 rotated_grant_def split: sum.splits)
qed

context current_desk begin

lemma refreshed_row:
  assumes "keyed (w_db w) ''oauth_grant''" "\<forall>n. dk_clock D n < 2 ^ 62" "token_refresh A D params w = (Inr reply, w1)"
  obtains token gid g n k it it' ah ae where
    "params ''refresh_token'' = Some token" "parse_refresh_token token = Some (gid, token)"
    "w_db w ''oauth_grant'' gid = Some it" "hydrate_oauth_grant it = Inr g" "og_id g = gid"
    "dk_clock D k < og_refresh_expires_at g" "dk_clock D k < og_expires_at g"
    "w_db w1 ''oauth_grant'' gid = Some it'"
    "hydrate_oauth_grant it' = Inr (rotated_grant g ah ae (hash_token A (''mtor_'' @ gid @ ''.'' @ dk_nonce D n))
       (min (dk_clock D k + REFRESH_TOKEN_LIFETIME_S) (og_expires_at g)))"
proof (rule refreshed [OF assms(3)])
  fix token gid n1 n2 k it v and g :: oauth_grant
  let ?ah = "hash_token A (''mtoa_'' @ og_id g @ ''.'' @ dk_nonce D n1)" and ?ae = "dk_clock D k + ACCESS_TOKEN_LIFETIME_S"
  let ?rh = "hash_token A (''mtor_'' @ og_id g @ ''.'' @ dk_nonce D n2)"
    and ?re = "min (dk_clock D k + REFRESH_TOKEN_LIFETIME_S) (og_expires_at g)"
  assume params: "params ''refresh_token'' = Some token" "parse_refresh_token token = Some (gid, token)"
    and it: "w_db w ''oauth_grant'' gid = Some it" "hydrate_oauth_grant it = Inr g"
    and live: "dk_clock D k < og_refresh_expires_at g" "dk_clock D k < og_expires_at g"
    and user: "user_available D (og_user_id g) (w\<lparr>w_n := Suc (Suc (w_n w))\<rparr>) = (Inr (), v)"
    and sent: "update_oauth_grant (dk_db D) (dk_clock D (Suc (Suc (w_n v)))) (og_id g)
       (Rotate (hash_token A token) ?ah ?ae ?rh ?re) (w_db v) = (Inr (), w_db w1)"
  have gid: "og_id g = gid" using keyedD [OF assms(1) it(1)] it(2) by (auto simp: hydrate_oauth_grant_def)
  have "w_db v ''oauth_grant'' = w_db w ''oauth_grant''" using user_available_grants [OF user] by simp
  moreover have "commits (dy_ss d) (w_db v) [oauth_grant_req (dk_clock D (Suc (Suc (w_n v)))) (og_id g)
       (Rotate (hash_token A token) ?ah ?ae ?rh ?re)] (w_db w1)"
    using send_existing_ok [OF svc] sent by (fastforce simp: update_oauth_grant_def handler)
  ultimately have row: "w_db w1 ''oauth_grant'' gid = Some (it(''access_token_hash'' \<mapsto> AS ?ah, ''access_expires_at'' \<mapsto> AN (int ?ae),
      ''refresh_token_hash'' \<mapsto> AS ?rh, ''refresh_expires_at'' \<mapsto> AN (int ?re)))"
    using it(1) by (simp add: commits_single apply_write_row gid update_base_def)
  have "?ae < 2 ^ 63" "?re < 2 ^ 63"
    using assms(2) [rule_format, of k] by (simp_all add: ACCESS_TOKEN_LIFETIME_S_def REFRESH_TOKEN_LIFETIME_S_def min_def)
  from that [OF params it gid live row [unfolded gid] hydrate_rotated [OF it(2) this]] show thesis .
qed

end

text \<open>
  No refresh extends a grant. A grant is minted with an absolute end ninety days ahead, and its
  refresh token never outlives that; a refresh that succeeds was made before both ends, leaves
  the grant's user, client, resource, scope and absolute end alone, and caps the new refresh token
  at that end.
\<close>

theorem refresh_never_extends_grant:
  assumes "current_desk d h q D" "keyed (w_db w) ''oauth_grant''" "\<forall>n. dk_clock D n < 2 ^ 62"
    and "token_refresh A D params w = (Inr reply, w1)"
  shows "\<exists>gid it it' g g' n. w_db w ''oauth_grant'' gid = Some it \<and> hydrate_oauth_grant it = Inr g
    \<and> w_db w1 ''oauth_grant'' gid = Some it' \<and> hydrate_oauth_grant it' = Inr g'
    \<and> dk_clock D n < og_refresh_expires_at g \<and> dk_clock D n < og_expires_at g
    \<and> og_refresh_expires_at g' = min (dk_clock D n + REFRESH_TOKEN_LIFETIME_S) (og_expires_at g')
    \<and> og_expires_at g' = og_expires_at g \<and> og_user_id g' = og_user_id g \<and> og_client_id g' = og_client_id g
    \<and> og_resource g' = og_resource g \<and> og_scope g' = og_scope g"
proof (rule current_desk.refreshed_row [OF assms])
  fix token gid n k it it' ah ae and g :: oauth_grant
  assume "w_db w ''oauth_grant'' gid = Some it" "hydrate_oauth_grant it = Inr g"
    "dk_clock D k < og_refresh_expires_at g" "dk_clock D k < og_expires_at g" "w_db w1 ''oauth_grant'' gid = Some it'"
    "hydrate_oauth_grant it' = Inr (rotated_grant g ah ae (hash_token A (''mtor_'' @ gid @ ''.'' @ dk_nonce D n))
       (min (dk_clock D k + REFRESH_TOKEN_LIFETIME_S) (og_expires_at g)))"
  then show ?thesis by (intro exI conjI) (assumption | simp add: rotated_grant_def)+
qed

context obliging_desk begin

lemma http_done:
  assumes "cond_holds (w_db w) req" "actions_ok (w_db w) req"
  shows "http_db D (\<lambda>n. send_plain (dk_db D) req) w
    = (Inr (), w\<lparr>w_db := apply_write (dy_ss d) req (w_db w), w_n := Suc (w_n w)\<rparr>)"
  using plain_done [OF assms] by (simp add: http_db_def call_def alone Let_def map_err_def)

lemma reused:
  assumes "params ''refresh_token'' = Some token" "params ''client_id'' = Some client_id"
    and "parse_refresh_token token = Some (gid, token)"
    and "w_db w ''oauth_grant'' gid = Some it" "hydrate_oauth_grant it = Inr g" "og_id g = gid"
    and "og_refresh_token_hash g \<noteq> hash_token A token"
  shows "\<exists>w1. token_refresh A D params w = (Inl (invalid_grant ''Refresh token has already been used''), w1)
    \<and> w_db w1 ''oauth_grant'' gid = None"
proof -
  let ?w = "w\<lparr>w_n := Suc (w_n w)\<rparr>"
  let ?req = "Delete ''oauth_grant'' gid CTrue"
  have read: "get_oauth_grant (dk_db D) gid (w_db w) = Inr (Some g)"
    using assms(4,5) by (simp add: get_oauth_grant_def row_read hydrated_def map_err_def)
  have "http_db D (\<lambda>n. delete_oauth_grant (dk_db D) (og_id g)) ?w
      = (Inr (), ?w\<lparr>w_db := apply_write (dy_ss d) ?req (w_db w), w_n := Suc (w_n ?w)\<rparr>)"
    using http_done [of ?w ?req] by (simp add: delete_oauth_grant_def [abs_def] assms(6) cond_holds_def)
  then have "token_refresh A D params w = (Inl (invalid_grant ''Refresh token has already been used''),
      ?w\<lparr>w_db := apply_write (dy_ss d) ?req (w_db w), w_n := Suc (w_n ?w)\<rparr>)"
    using assms by (simp add: token_refresh_def sbind_def slift_def ok_or_def http_read read map_err_def
        current_or_revoke_def bytes_eq_iff)
  then show ?thesis by (simp add: apply_write_row)
qed

lemma grant_gone:
  assumes "w_db w ''oauth_grant'' gid = None" "parse_access_token access = Some (gid, access)"
  shows "fst (verify_access_token A D access resource w) = Inl (Permanent ''OAuth grant not found'')"
  using assms by (simp add: verify_access_token_def sbind_def slift_def ok_or_def read_now_step get_oauth_grant_def
      row_read hydrated_def map_err_def)

end

text \<open>
  C25. A refresh token works once, and using it again ends the grant. After a refresh that
  succeeded, presenting the same refresh token again, with whatever other parameters, is refused and
  deletes the grant, so that none of the grant's access tokens verifies any more. This supposes that
  the digests of the newly drawn refresh tokens differ from the old one's.
\<close>

theorem refresh_token_reuse_revokes:
  assumes "obliging_desk d h q D" "keyed (w_db w) ''oauth_grant''" "\<forall>n. dk_clock D n < 2 ^ 62"
    and "token_refresh A D params w = (Inr reply, w1)" "params ''refresh_token'' = Some token"
    and "w_db w2 ''oauth_grant'' = w_db w1 ''oauth_grant''"
    and "params' ''refresh_token'' = Some token" "params' ''client_id'' = Some client_id"
    and "\<forall>i n. hash_token A (''mtor_'' @ i @ ''.'' @ dk_nonce D n) \<noteq> hash_token A token"
  shows "\<exists>gid w3. parse_refresh_token token = Some (gid, token)
    \<and> token_refresh A D params' w2 = (Inl (invalid_grant ''Refresh token has already been used''), w3)
    \<and> w_db w3 ''oauth_grant'' gid = None
    \<and> (\<forall>access resource. parse_access_token access = Some (gid, access) \<longrightarrow>
         fst (verify_access_token A D access resource w3) = Inl (Permanent ''OAuth grant not found''))"
proof -
  have cur: "current_desk d h q D" using assms(1) by (simp add: obliging_desk_def)
  show ?thesis
  proof (rule current_desk.refreshed_row [OF cur assms(2-4)])
    fix token' gid n k it it' ah ae and g :: oauth_grant
    let ?g = "rotated_grant g ah ae (hash_token A (''mtor_'' @ gid @ ''.'' @ dk_nonce D n))
       (min (dk_clock D k + REFRESH_TOKEN_LIFETIME_S) (og_expires_at g))"
    assume a: "params ''refresh_token'' = Some token'" "parse_refresh_token token' = Some (gid, token')" "og_id g = gid"
      "w_db w1 ''oauth_grant'' gid = Some it'" "hydrate_oauth_grant it' = Inr ?g"
    have token: "parse_refresh_token token = Some (gid, token)" using a(1,2) assms(5) by simp
    have row: "w_db w2 ''oauth_grant'' gid = Some it'" using a(4) assms(6) by simp
    have "og_id ?g = gid" "og_refresh_token_hash ?g \<noteq> hash_token A token"
      using a(3) assms(9) by (simp_all add: rotated_grant_def)
    from obliging_desk.reused [OF assms(1,7,8) token row a(5) this] obtain w3 where
      "token_refresh A D params' w2 = (Inl (invalid_grant ''Refresh token has already been used''), w3)"
      "w_db w3 ''oauth_grant'' gid = None" by blast
    with token obliging_desk.grant_gone [OF assms(1) this(2)] show ?thesis by blast
  qed
qed

subsection \<open>Authorization codes\<close>

context obliging_desk begin

lemma took_code:
  assumes "take_code A D code w = (Inr st, w1)"
  shows "(\<exists>it. w_db w ''ephemeral_state'' (oauth_code_state_id (hash_token A code)) = Some it
      \<and> hydrate_ephemeral_state it = Inr st)
    \<and> w_db w1 ''ephemeral_state'' (oauth_code_state_id (hash_token A code)) = None"
proof -
  let ?i = "oauth_code_state_id (hash_token A code)" and ?w = "w\<lparr>w_n := Suc (w_n w)\<rparr>"
  from assms obtain row v where read: "get_ephemeral_state (dk_db D) ?i (w_db w) = Inr row"
    and del: "(if row \<noteq> None then http_db D (\<lambda>n. delete_ephemeral_state (dk_db D) ?i) else sreturn ()) ?w = (Inr (), v)"
    and st: "row = Some st" "w1 = v"
    by (auto simp: take_code_def Let_def http_read current map_err_def ok_or_def split: option.splits sum.splits if_splits)
  have "w_db v ''ephemeral_state'' ?i = None"
    using del st http_done [of ?w "Delete ''ephemeral_state'' ?i CTrue"]
    by (auto simp: delete_ephemeral_state_def [abs_def] cond_holds_def apply_write_row)
  with get_row_spec [OF read [unfolded get_ephemeral_state_def]] st show ?thesis by auto
qed

lemma granted:
  assumes "grant_tokens A D p resource scope w = (Inr reply, w1)"
  shows "w_db w1 ''ephemeral_state'' = w_db w ''ephemeral_state''"
proof -
  obtain g a b where m: "mint_grant A (dk_id D (Suc (w_n w))) (dk_nonce D (Suc (Suc (w_n w)))) (dk_nonce D (Suc (Suc (Suc (w_n w)))))
      (ac_user_id p) (ac_client_id p) (ac_client_name p) (ac_redirect_uri p) resource scope (dk_clock D (w_n w)) = (g, a, b)"
    by (metis prod_cases3)
  with assms have "create_oauth_grant (dk_db D) g (w_db w) = (Inr (), w_db w1)"
    by (auto simp: grant_tokens_def http_tick_step Let_def http_db_def call_def alone map_err_def
        split: prod.splits sum.splits)
  then have "commits (dy_ss d) (w_db w) [Put ''oauth_grant'' (og_id g) (oauth_grant_row g) (CNotExists ''id'')] (w_db w1)"
    by (intro plain_ok) (simp add: create_oauth_grant_def handler)
  from commits_other [OF this] show ?thesis by (simp add: fun_eq_iff)
qed

lemma redeemed:
  assumes "token_authorization_code A E D key host params w = (Inr reply, w1)" "params ''code'' = Some code"
  shows "(\<exists>it st p v n. w_db w ''ephemeral_state'' (oauth_code_state_id (hash_token A code)) = Some it
      \<and> hydrate_ephemeral_state it = Inr st \<and> dk_clock D n < es_expires_at st
      \<and> oe_code_of_json E (es_payload st) = Some p \<and> params ''client_id'' = Some (ac_client_id p)
      \<and> params ''redirect_uri'' = Some (ac_redirect_uri p) \<and> params ''code_verifier'' = Some v
      \<and> oe_b64 E (oe_sha256 E v) = ac_code_challenge p)
    \<and> w_db w1 ''ephemeral_state'' (oauth_code_state_id (hash_token A code)) = None"
proof -
  from assms obtain client_id redirect_uri verifier where params: "params ''client_id'' = Some client_id"
    "params ''redirect_uri'' = Some redirect_uri" "params ''code_verifier'' = Some verifier"
    by (auto simp: token_authorization_code_def split: option.splits)
  from assms params obtain st wt p resource scope v where taken: "take_code A D code w = (Inr st, wt)"
    and live: "dk_clock D (w_n wt) < es_expires_at st" and p: "oe_code_of_json E (es_payload st) = Some p"
    and checked: "ac_client_id p = client_id" "ac_redirect_uri p = redirect_uri"
      "verify_pkce_s256 E verifier (ac_code_challenge p)"
    and rest: "grant_tokens A D p resource scope v = (Inr reply, w1)" "w_db v = w_db wt"
    by (auto simp: token_authorization_code_def http_tick_step must_Inr check_code_def Let_def not_le Inr_ok_or)
  from granted [OF rest(1)] rest(2) have "w_db w1 ''ephemeral_state'' = w_db wt ''ephemeral_state''" by simp
  with took_code [OF taken] params live p checked show ?thesis
    by (auto simp: verify_pkce_s256_def bytes_eq_iff split: if_splits)
qed

end

text \<open>
  C26. An authorization code is bound and single use. A code is redeemed only by the client it was
  issued to, with the redirect URI of the request and a verifier whose digest is the request's
  challenge, before it expired; redeeming it deletes it, and no later request redeems it again. This is for
  requests one after another: two at once may both read the code before either deletes it.
\<close>

theorem authorization_code_single_use:
  assumes "obliging_desk d h q D" "token_authorization_code A E D key host params w = (Inr reply, w1)"
    and "params ''code'' = Some code" "params' ''code'' = Some code"
    and "w_db w2 ''ephemeral_state'' = w_db w1 ''ephemeral_state''"
    and "token_authorization_code A E D key' host' params' w2 = (r, w3)"
  shows "(\<exists>it st p v n. w_db w ''ephemeral_state'' (oauth_code_state_id (hash_token A code)) = Some it
      \<and> hydrate_ephemeral_state it = Inr st \<and> dk_clock D n < es_expires_at st
      \<and> oe_code_of_json E (es_payload st) = Some p \<and> params ''client_id'' = Some (ac_client_id p)
      \<and> params ''redirect_uri'' = Some (ac_redirect_uri p) \<and> params ''code_verifier'' = Some v
      \<and> oe_b64 E (oe_sha256 E v) = ac_code_challenge p)
    \<and> (\<forall>reply'. r \<noteq> Inr reply')"
proof -
  note first = obliging_desk.redeemed [OF assms(1-3)]
  have "r \<noteq> Inr reply'" for reply'
  proof
    assume "r = Inr reply'"
    with assms(6) have "token_authorization_code A E D key' host' params' w2 = (Inr reply', w3)" by simp
    from obliging_desk.redeemed [OF assms(1) this assms(4)] first assms(5) show False by auto
  qed
  with first show ?thesis by blast
qed

end
