(* ===== verification/OAuth_Demo.thy ===== *)
theory OAuth_Demo
  imports OAuth_Safety
begin

section \<open>The authorization server on a concrete state\<close>

text \<open>One user, one grant and one authorization code, on which the properties of \<open>OAuth_Safety\<close> apply.\<close>

definition demo_client :: string where
  "demo_client = encode_client_id plain_oauth ''key'' \<lparr>cr_client_name = ''app'', cr_redirect_uris = [], cr_iat = 0\<rparr>"

definition demo_user :: item where
  "demo_user = (user_row ''u1'' 10 ''a@b'' ''Ann'')(''access_time'' \<mapsto> AN 95)"

definition demo_grant :: oauth_grant where
  "demo_grant =
     \<lparr>og_id = ''g1'', og_user_id = ''u1'', og_client_id = ''c1'', og_client_name = ''app'', og_redirect_uri = ''https://app/cb'',
      og_resource = ''https://api/mcp'', og_scope = ''toolbox'', og_access_token_hash = ''#mtoa_g1.s'',
      og_access_expires_at = 3600, og_refresh_token_hash = ''#mtor_g1.r'', og_refresh_expires_at = 5000,
      og_expires_at = 5000, og_created_at = 50, og_last_used_at = Some 90\<rparr>"

definition demo_db :: store where
  "demo_db t =
     (if t = ''user'' then [''u1'' \<mapsto> demo_user]
      else if t = ''oauth_grant'' then [''g1'' \<mapsto> oauth_grant_row demo_grant]
      else if t = ''ephemeral_state''
      then [''oauth_code_#c'' \<mapsto> ephemeral_row ''oauth_code_#c'' ''oauth_code'' demo_client 400]
      else Map.empty)"

definition demo_world :: world where
  "demo_world = \<lparr>w_db = demo_db, w_n = 0, w_sent = [], w_objects = [], w_texts = []\<rparr>"

lemma timed_obliging: "obliging_desk ref_dynamo ref_handler ref_index timed_desk"
  by unfold_locales (simp_all add: timed_desk_def quiet_desk_def ref_handler_def ref_dynamo_def)

interpretation timed: obliging_desk ref_dynamo ref_handler ref_index timed_desk
  by (rule timed_obliging)

lemma demo_keyed: "keyed demo_db ''user''" "keyed demo_db ''oauth_grant''"
  by (simp_all add: keyed_def demo_db_def demo_user_def user_row_def oauth_grant_row_def demo_grant_def)

lemma demo_user_read: "get_users ref_handler [''u1''] demo_db
    = Inr [Some \<lparr>usr_id = ''u1'', usr_email = ''a@b'', usr_name = ''Ann'', usr_enabled = True, usr_created_at = 10,
        usr_access_time = Some 95, usr_superuser = False\<rparr>]"
  by code_simp

lemma no_memberships: "list_memberships_by_user ref_index ''u1'' demo_db = Inr []"
proof -
  have "rows_with demo_db ''membership'' ''user_id'' ''u1'' = {}" by (simp add: rows_with_def demo_db_def attrs_of_def)
  then show ?thesis by (simp add: list_memberships_by_user_def query_all_def ref_index_def map_err_def)
qed

lemma demo_fetch:
  assumes "w_db w = demo_db"
  shows "fetch_update_user_auth_info timed_desk ''u1'' w
    = (Inr (User ''u1'' [] False None None), w\<lparr>w_n := Suc (Suc (Suc (w_n w)))\<rparr>)"
proof -
  have read: "auth_read timed_desk msg f v = (map_err (classify_db_err msg) (f (w_db v)), v\<lparr>w_n := Suc (w_n v)\<rparr>)"
    for msg and f :: "store \<Rightarrow> db_error + 'x" and v
    unfolding auth_read_def timed.current by (rule timed.call_step)
  have q: "dk_query timed_desk = ref_index" by (simp add: timed_desk_def quiet_desk_def)
  show ?thesis
    using assms demo_user_read no_memberships
    by (simp add: fetch_update_user_auth_info_def load_principal_def sbind_def read first_row_def map_err_def slift_def
        sensure_def auth_clock_def timed.call_step touch_if_stale_def stale_def sreturn_def q)
qed

lemma demo_grant_read: "get_oauth_grant ref_handler ''g1'' demo_db = Inr (Some demo_grant)"
  by code_simp

text \<open>An access token verifies.\<close>

theorem access_token_audience_witness:
  "\<exists>w'. verify_access_token plain_auth timed_desk ''mtoa_g1.s'' ''https://api/mcp'' demo_world
      = (Inr (User ''u1'' [] False None (Some ''g1'')), w')
    \<and> live_grant plain_auth timed_desk demo_db ''mtoa_g1.s'' ''https://api/mcp'' ''g1'' ''u1''"
proof -
  have parsed: "parse_access_token ''mtoa_g1.s'' = Some (''g1'', ''mtoa_g1.s'')" by code_simp
  have g: "og_access_token_hash demo_grant = ''#mtoa_g1.s''" "og_access_expires_at demo_grant = 3600"
    "og_expires_at demo_grant = 5000" "og_resource demo_grant = ''https://api/mcp''" "og_last_used_at demo_grant = Some 90"
    "og_user_id demo_grant = ''u1''" "og_id demo_grant = ''g1''"
    by (simp_all add: demo_grant_def)
  have "\<exists>w'. verify_access_token plain_auth timed_desk ''mtoa_g1.s'' ''https://api/mcp'' demo_world
      = (Inr (User ''u1'' [] False None (Some ''g1'')), w')"
    by (simp add: verify_access_token_def sbind_def slift_def parsed timed.read_now_step demo_world_def demo_grant_read
        map_err_def sensure_def bytes_eq_iff g hash_token_def plain_auth_def auth_clock_def timed.call_step
        touch_if_stale_def stale_def LAST_USED_REFRESH_SECS_def sreturn_def demo_fetch)
  then obtain w' where run: "verify_access_token plain_auth timed_desk ''mtoa_g1.s'' ''https://api/mcp'' demo_world
      = (Inr (User ''u1'' [] False None (Some ''g1'')), w')" by blast
  have "keyed (w_db demo_world) ''user''" by (simp add: demo_world_def demo_keyed)
  from access_token_audience [OF timed.current_desk_axioms this run] run show ?thesis
    by (auto simp: demo_world_def)
qed

subsection \<open>Refresh\<close>

definition refresh_params :: "string \<Rightarrow> string option" where
  "refresh_params = [''refresh_token'' \<mapsto> ''mtor_g1.r'', ''client_id'' \<mapsto> ''c1'']"

lemma demo_refreshed: "\<exists>reply w1. token_refresh plain_auth timed_desk refresh_params demo_world = (Inr reply, w1)"
proof -
  have parsed: "parse_refresh_token ''mtor_g1.r'' = Some (''g1'', ''mtor_g1.r'')" by code_simp
  have user: "user_available timed_desk ''u1'' w = (Inr (), w\<lparr>w_n := Suc (Suc (Suc (w_n w)))\<rparr>)" if "w_db w = demo_db" for w
    using that by (simp add: user_available_def demo_fetch)
  have g: "og_refresh_token_hash demo_grant = ''#mtor_g1.r''" "og_refresh_expires_at demo_grant = 5000"
    "og_expires_at demo_grant = 5000" "og_client_id demo_grant = ''c1''" "og_user_id demo_grant = ''u1''" "og_id demo_grant = ''g1''"
    by (simp_all add: demo_grant_def)
  have row: "demo_db ''oauth_grant'' ''g1'' = Some (oauth_grant_row demo_grant)" by (simp add: demo_db_def)
  have attrs: "oauth_grant_row demo_grant ''id'' = Some (AS ''g1'')"
    "oauth_grant_row demo_grant ''refresh_token_hash'' = Some (AS ''#mtor_g1.r'')"
    by (simp_all add: oauth_grant_row_def demo_grant_def)
  have sent: "\<exists>s'. update_oauth_grant ref_handler now ''g1'' (Rotate ''#mtor_g1.r'' ah ae rh re) demo_db = (Inr (), s')"
    for now ah ae rh re
    using attrs by (simp add: update_oauth_grant_def send_defs ref_handler_def ref_dynamo_def cond_holds_def attrs_of_def row)
  have rotate: "\<exists>reply w1. rotate_tokens plain_auth timed_desk demo_grant 100 w = (Inr reply, w1)" if "w_db w = demo_db" for w
    using that by (auto simp: rotate_tokens_def timed.http_tick_step rotate_grant_def mint_tokens_def Let_def call_def
        timed.alone g split: prod.splits) (metis sent prod.exhaust rotated.simps(1) prod.inject)
  show ?thesis
    using rotate
    by (simp add: token_refresh_def refresh_params_def sbind_def slift_def parsed timed.http_read demo_world_def demo_grant_read
        map_err_def current_or_revoke_def bytes_eq_iff g hash_token_def plain_auth_def timed.http_tick_step must_def sensure_def
        user sreturn_def)
qed

lemma demo_nonces: "hash_token plain_auth (''mtor_'' @ i @ ''.'' @ dk_nonce timed_desk n) \<noteq> hash_token plain_auth ''mtor_g1.r''"
proof
  assume "hash_token plain_auth (''mtor_'' @ i @ ''.'' @ dk_nonce timed_desk n) = hash_token plain_auth ''mtor_g1.r''"
  then have "length (i @ ''.nonce'' @ show_nat n) = length ''g1.r''" by (simp add: hash_token_def plain_auth_def)
  then show False by simp
qed

theorem refresh_never_extends_grant_witness:
  "\<exists>reply w1 it' g'. token_refresh plain_auth timed_desk refresh_params demo_world = (Inr reply, w1)
    \<and> w_db w1 ''oauth_grant'' ''g1'' = Some it' \<and> hydrate_oauth_grant it' = Inr g' \<and> og_expires_at g' = 5000"
proof -
  obtain reply w1 where run: "token_refresh plain_auth timed_desk refresh_params demo_world = (Inr reply, w1)"
    using demo_refreshed by blast
  have "keyed (w_db demo_world) ''oauth_grant''" "\<forall>n. dk_clock timed_desk n < 2 ^ 62"
    by (simp_all add: demo_world_def demo_keyed)
  from refresh_never_extends_grant [OF timed.current_desk_axioms this run]
  obtain gid it it' g g' where g: "w_db demo_world ''oauth_grant'' gid = Some it" "hydrate_oauth_grant it = Inr g"
    "w_db w1 ''oauth_grant'' gid = Some it'" "hydrate_oauth_grant it' = Inr g'" "og_expires_at g' = og_expires_at g" by blast
  from g(1) have gid: "gid = ''g1''" "it = oauth_grant_row demo_grant"
    by (auto simp: demo_world_def demo_db_def split: if_splits)
  have "hydrate_oauth_grant (oauth_grant_row demo_grant) = Inr demo_grant" by code_simp
  with g gid have "g = demo_grant" by simp
  then have "og_expires_at g = 5000" by (simp add: demo_grant_def)
  with run g gid show ?thesis by auto
qed

theorem refresh_token_reuse_revokes_witness:
  "\<exists>reply w1 w3. token_refresh plain_auth timed_desk refresh_params demo_world = (Inr reply, w1)
    \<and> token_refresh plain_auth timed_desk refresh_params w1
        = (Inl (invalid_grant ''Refresh token has already been used''), w3)"
proof -
  obtain reply w1 where run: "token_refresh plain_auth timed_desk refresh_params demo_world = (Inr reply, w1)"
    using demo_refreshed by blast
  have k: "keyed (w_db demo_world) ''oauth_grant''" "\<forall>n. dk_clock timed_desk n < 2 ^ 62"
    by (simp_all add: demo_world_def demo_keyed)
  have p: "refresh_params ''refresh_token'' = Some ''mtor_g1.r''" "refresh_params ''client_id'' = Some ''c1''"
    by (simp_all add: refresh_params_def)
  from refresh_token_reuse_revokes [OF timed_obliging k run p(1) refl p] demo_nonces run show ?thesis by blast
qed

subsection \<open>The authorization code\<close>

definition code_params :: "string \<Rightarrow> string option" where
  "code_params = [''code'' \<mapsto> ''c'', ''client_id'' \<mapsto> demo_client, ''redirect_uri'' \<mapsto> ''https://app/cb'',
     ''code_verifier'' \<mapsto> replicate 43 CHR ''v'']"

lemma demo_redeemed:
  "\<exists>reply w1. token_authorization_code plain_auth plain_oauth timed_desk (Some ''key'') None code_params demo_world = (Inr reply, w1)"
proof -
  have state: "oauth_code_state_id (hash_token plain_auth ''c'') = ''oauth_code_#c''" by code_simp
  have read: "get_ephemeral_state ref_handler ''oauth_code_#c'' demo_db
      = Inr (Some \<lparr>es_id = ''oauth_code_#c'', es_kind = ''oauth_code'', es_payload = demo_client, es_expires_at = 400\<rparr>)"
    by code_simp
  have del: "http_db timed_desk (\<lambda>n. delete_ephemeral_state ref_handler i) w
      = (Inr (), w\<lparr>w_db := apply_write remdups (Delete ''ephemeral_state'' i CTrue) (w_db w), w_n := Suc (w_n w)\<rparr>)" for i w
    using timed.http_done [of w "Delete ''ephemeral_state'' i CTrue"]
    by (simp add: delete_ephemeral_state_def [abs_def] cond_holds_def ref_dynamo_def)
  have client: "decode_client_id plain_oauth ''key'' demo_client \<noteq> None" by code_simp
  have pkce: "verify_pkce_s256 plain_oauth (replicate 43 CHR ''v'') (pair_code (replicate 43 CHR ''v''))" by code_simp
  have payload: "oe_code_of_json plain_oauth s = Some \<lparr>ac_user_id = ''u1'', ac_client_id = s, ac_client_name = ''app'',
      ac_redirect_uri = ''https://app/cb'', ac_code_challenge = pair_code (replicate 43 CHR ''v''), ac_scope = None,
      ac_resource = None\<rparr>" for s
    by (simp add: plain_oauth_def)
  have granted: "\<exists>reply w1. grant_tokens plain_auth timed_desk p resource scope w = (Inr reply, w1)"
    if "w_db w ''oauth_grant'' ''k1'' = None" for p resource scope w
    using that by (auto simp: grant_tokens_def timed.http_tick_step mint_grant_def mint_tokens_def Let_def http_db_def call_def
        timed.alone create_oauth_grant_def ref_plain cond_holds_def attrs_of_def map_err_def)
  have fresh: "apply_write remdups (Delete ''ephemeral_state'' i CTrue) demo_db ''oauth_grant'' ''k1'' = None" for i
    by (simp add: apply_write_row demo_db_def)
  show ?thesis
    using granted fresh
    by (simp add: token_authorization_code_def code_params_def take_code_def state Let_def sbind_def timed.http_read
        timed.current demo_world_def read map_err_def del slift_def OAUTH_CODE_STATE_KIND_def timed.http_tick_step must_def
        sensure_def check_code_def client pkce payload)
qed

theorem authorization_code_single_use_witness:
  "\<exists>reply w1. token_authorization_code plain_auth plain_oauth timed_desk (Some ''key'') None code_params demo_world = (Inr reply, w1)
    \<and> (\<forall>reply'. fst (token_authorization_code plain_auth plain_oauth timed_desk (Some ''key'') None code_params w1) \<noteq> Inr reply')"
proof -
  obtain reply w1 where run: "token_authorization_code plain_auth plain_oauth timed_desk (Some ''key'') None code_params demo_world
      = (Inr reply, w1)"
    using demo_redeemed by blast
  obtain r w3 where again: "token_authorization_code plain_auth plain_oauth timed_desk (Some ''key'') None code_params w1 = (r, w3)"
    by (cases "token_authorization_code plain_auth plain_oauth timed_desk (Some ''key'') None code_params w1")
  have "code_params ''code'' = Some ''c''" by (simp add: code_params_def)
  from authorization_code_single_use [OF timed_obliging run this this refl again] run again show ?thesis by auto
qed

end
