(* ===== verification/Paging.thy ===== *)
theory Paging
  imports Auth_Rules
begin

section \<open>Reading a table page by page\<close>

text \<open>
  A \<^verbatim>\<open>Query\<close> or \<^verbatim>\<open>Scan\<close> of DynamoDB answers one page and a continuation key. The service
  is the parameter \<open>pager\<close>; the loops of \<^verbatim>\<open>dynamodb.rs\<close> that follow the key are
  \<open>partial_function (option)\<close>s, so that a walk that never ends would be \<open>None\<close>. The locale
  \<open>paged_service\<close> states what DynamoDB documents: a page is a stretch of the rows of the index
  partition in key order, beyond the start key, the filter applied after the limit; the
  continuation key names the last row examined, and no key means that no row is left. Under these
  laws every walk ends and misses nothing.
\<close>

record list_query =
  lq_table :: string
  lq_hash :: string
  lq_key :: "(string \<times> string) option"
  lq_sort :: "string option"
  lq_forward :: bool
  lq_filter :: cond
  lq_limit :: "nat option"

type_synonym pager = "nat \<Rightarrow> store \<Rightarrow> list_query \<Rightarrow> item option \<Rightarrow> string + (item list \<times> item option)"

text \<open>
  A continuation key: the table's key and both keys of the index, read off a row. \<open>indexed\<close> says
  that the index holds a row; an index is sparse, a row without its sort key is not in it.
\<close>

definition key_of :: "list_query \<Rightarrow> item \<Rightarrow> item" where
  "key_of q it a =
     (if a = lq_hash q \<or> Some a = map_option fst (lq_key q) \<or> Some a = lq_sort q then it a else None)"

definition indexed :: "list_query \<Rightarrow> item \<Rightarrow> bool" where
  "indexed q it \<longleftrightarrow>
     (case lq_key q of None \<Rightarrow> True | Some (a, v) \<Rightarrow> it a = Some (AS v))
     \<and> (case lq_sort q of None \<Rightarrow> True | Some a \<Rightarrow> it a \<noteq> None)"

definition indexed_keys :: "store \<Rightarrow> list_query \<Rightarrow> string set" where
  "indexed_keys s q = {k. \<exists>it. s (lq_table q) k = Some it \<and> indexed q it}"

definition row :: "store \<Rightarrow> list_query \<Rightarrow> string \<Rightarrow> item" where
  "row s q k = attrs_of (s (lq_table q) k)"

subsection \<open>The loops\<close>

text \<open>
  An \<^verbatim>\<open>await\<close> chain around such a loop: \<open>None\<close> when the loop does not end.
\<close>

type_synonym 'a loop_run = "world \<Rightarrow> ((desk_error + 'a) \<times> world) option"

definition once :: "'a run \<Rightarrow> 'a loop_run" where
  "once m w = Some (m w)"

definition obind :: "'a loop_run \<Rightarrow> ('a \<Rightarrow> 'b loop_run) \<Rightarrow> 'b loop_run" where
  "obind m k w =
     (case m w of
        None \<Rightarrow> None
      | Some (Inl e, w') \<Rightarrow> Some (Inl e, w')
      | Some (Inr x, w') \<Rightarrow> k x w')"

text \<open>One page: the request and the hydration of its rows, up to the first bad one.\<close>

definition read_page :: "pager \<Rightarrow> desk \<Rightarrow> list_query \<Rightarrow> item option \<Rightarrow> (item list \<times> item option) run" where
  "read_page P D q start =
     call D (\<lambda>n s. (db_error_of (map_err Infrastructure (P n (dk_view D n s) q start)), s))"

definition hydrate_items :: "(item \<Rightarrow> string + 'r) \<Rightarrow> item list \<Rightarrow> desk_error + 'r list" where
  "hydrate_items f its = db_error_of (map_err Hydration (mapM (hydrate_item f) its))"

definition read_rows ::
    "pager \<Rightarrow> desk \<Rightarrow> (item \<Rightarrow> string + 'r) \<Rightarrow> list_query \<Rightarrow> item option \<Rightarrow> ('r list \<times> item option) run" where
  "read_rows P D f q start =
     sbind (read_page P D q start) (\<lambda>(its, nxt).
     sbind (slift (hydrate_items f its)) (\<lambda>rows.
     sreturn (rows, nxt)))"

text \<open>
  \<open>page_loop\<close> is the loop of \<^verbatim>\<open>list_tickets\<close>, \<^verbatim>\<open>list_billable_items\<close> and
  \<^verbatim>\<open>list_invoices\<close>: until the wanted number of rows is there or no row is left. \<open>walk\<close> is the one
  of \<^verbatim>\<open>query_all_items\<close> and \<^verbatim>\<open>scan_all_items\<close>: until no row is left.
\<close>

partial_function (option) page_loop ::
    "pager \<Rightarrow> desk \<Rightarrow> (item \<Rightarrow> string + 'r) \<Rightarrow> list_query \<Rightarrow> nat \<Rightarrow> item option \<Rightarrow> 'r list
      \<Rightarrow> world \<Rightarrow> ((desk_error + 'r list) \<times> world) option" where
  "page_loop P D f q want start acc w =
     (case read_rows P D f q start w of
        (Inl e, w') \<Rightarrow> Some (Inl e, w')
      | (Inr (rows, nxt), w') \<Rightarrow>
          if want \<le> length (acc @ rows) \<or> nxt = None then Some (Inr (acc @ rows), w')
          else page_loop P D f q want nxt (acc @ rows) w')"

partial_function (option) walk ::
    "pager \<Rightarrow> desk \<Rightarrow> list_query \<Rightarrow> item option \<Rightarrow> item list \<Rightarrow> world \<Rightarrow> ((desk_error + item list) \<times> world) option" where
  "walk P D q start acc w =
     (case read_page P D q start w of
        (Inl e, w') \<Rightarrow> Some (Inl e, w')
      | (Inr (its, nxt), w') \<Rightarrow>
          if nxt = None then Some (Inr (acc @ its), w')
          else walk P D q nxt (acc @ its) w')"

definition query_of :: "string \<Rightarrow> string \<Rightarrow> string \<Rightarrow> string \<Rightarrow> list_query" where
  "query_of t h a v =
     \<lparr>lq_table = t, lq_hash = h, lq_key = Some (a, v), lq_sort = None, lq_forward = True, lq_filter = CTrue,
      lq_limit = None\<rparr>"

definition scan_of :: "string \<Rightarrow> list_query" where
  "scan_of t =
     \<lparr>lq_table = t, lq_hash = ''id'', lq_key = None, lq_sort = None, lq_forward = True, lq_filter = CTrue,
      lq_limit = None\<rparr>"

definition query_all_items :: "pager \<Rightarrow> desk \<Rightarrow> list_query \<Rightarrow> item list loop_run" where
  "query_all_items P D q = walk P D q None []"

definition query_all_rows :: "pager \<Rightarrow> desk \<Rightarrow> (item \<Rightarrow> string + 'r) \<Rightarrow> list_query \<Rightarrow> 'r list loop_run" where
  "query_all_rows P D f q =
     obind (query_all_items P D q) (\<lambda>its. once (slift (hydrate_items f its)))"

definition scan_all_items :: "pager \<Rightarrow> desk \<Rightarrow> string \<Rightarrow> item list loop_run" where
  "scan_all_items P D t = walk P D (scan_of t) None []"

definition scan_all :: "pager \<Rightarrow> desk \<Rightarrow> (item \<Rightarrow> string + 'r) \<Rightarrow> string \<Rightarrow> 'r list loop_run" where
  "scan_all P D f t =
     obind (scan_all_items P D t) (\<lambda>its. once (slift (hydrate_items f its)))"

text \<open>One page of a scan, each row hydrated on its own (\<^verbatim>\<open>scan_page\<close>).\<close>

record scan_cursor =
  sc_last_id :: string

record 'r scan_page =
  sp_rows :: "(db_error + 'r) list"
  sp_next :: "scan_cursor option"

definition scan_cursor_from_key :: "item option \<Rightarrow> scan_cursor option" where
  "scan_cursor_from_key key =
     (case key of
        None \<Rightarrow> None
      | Some it \<Rightarrow> (case it ''id'' of Some (AS i) \<Rightarrow> Some \<lparr>sc_last_id = i\<rparr> | _ \<Rightarrow> None))"

definition hydrate_items_lenient :: "(item \<Rightarrow> string + 'r) \<Rightarrow> item list \<Rightarrow> (string + 'r) list" where
  "hydrate_items_lenient f its = map (hydrate_item f) its"

definition scan_page ::
    "pager \<Rightarrow> desk \<Rightarrow> (item \<Rightarrow> string + 'r) \<Rightarrow> string \<Rightarrow> scan_cursor option \<Rightarrow> nat \<Rightarrow> 'r scan_page run" where
  "scan_page P D f t cursor limit =
     sbind (read_page P D (scan_of t\<lparr>lq_limit := Some limit\<rparr>)
              (map_option (\<lambda>c. [''id'' \<mapsto> AS (sc_last_id c)]) cursor)) (\<lambda>(its, nxt).
     sreturn \<lparr>sp_rows = map (map_err Hydration) (hydrate_items_lenient f its), sp_next = scan_cursor_from_key nxt\<rparr>)"

subsection \<open>What the service promises\<close>

text \<open>
  \<open>beyond\<close>: a key that comes after another in the direction of the query. \<open>listing s q start ks\<close>:
  \<open>ks\<close> are the keys of the rows of the partition beyond the start key, in the order of the query;
  there is at most one such list.
\<close>

type_synonym key_order = "string \<Rightarrow> (string \<times> string) option \<Rightarrow> string option \<Rightarrow> item \<Rightarrow> item \<Rightarrow> bool"

definition beyond :: "key_order \<Rightarrow> list_query \<Rightarrow> item \<Rightarrow> item \<Rightarrow> bool" where
  "beyond ord q x y =
     (if lq_forward q then ord (lq_table q) (lq_key q) (lq_sort q) x y
      else ord (lq_table q) (lq_key q) (lq_sort q) y x)"

definition past :: "key_order \<Rightarrow> list_query \<Rightarrow> item option \<Rightarrow> item \<Rightarrow> bool" where
  "past ord q start x \<longleftrightarrow> (case start of None \<Rightarrow> True | Some k \<Rightarrow> beyond ord q k x)"

definition listing :: "key_order \<Rightarrow> store \<Rightarrow> list_query \<Rightarrow> item option \<Rightarrow> string list \<Rightarrow> bool" where
  "listing ord s q start ks \<longleftrightarrow>
     distinct ks
     \<and> set ks = {k \<in> indexed_keys s q. past ord q start (key_of q (row s q k))}
     \<and> sorted_wrt (\<lambda>j k. beyond ord q (key_of q (row s q j)) (key_of q (row s q k))) ks"

definition matching :: "store \<Rightarrow> list_query \<Rightarrow> string list \<Rightarrow> item list" where
  "matching s q ks = filter (holds (lq_filter q)) (map (row s q) ks)"

locale paged_service =
  fixes pg :: pager and ord :: key_order
  assumes ord_irrefl: "\<not> ord t a b x x"
    and ord_trans: "ord t a b x y \<Longrightarrow> ord t a b y z \<Longrightarrow> ord t a b x z"
    and ord_number: "x c = Some (AN j) \<Longrightarrow> y c = Some (AN k) \<Longrightarrow> j < k \<Longrightarrow> ord t a (Some c) x y"
    and ord_text: "x c = Some (AS u) \<Longrightarrow> y c = Some (AS v) \<Longrightarrow> u < v \<Longrightarrow> ord t a (Some c) x y"
    and page: "pg n s q start = Inr (its, nxt) \<Longrightarrow> lq_limit q \<noteq> Some 0 \<Longrightarrow>
      \<exists>ks m. listing ord s q start ks \<and> m \<le> length ks \<and> its = matching s q (take m ks)
        \<and> (nxt = None \<longrightarrow> m = length ks)
        \<and> (\<forall>k. nxt = Some k \<longrightarrow> 0 < m \<and> k = key_of q (row s q (ks ! (m - 1))))"
begin

lemma beyond_irrefl: "\<not> beyond ord q x x"
  by (simp add: beyond_def ord_irrefl)

lemma beyond_trans: "beyond ord q x y \<Longrightarrow> beyond ord q y z \<Longrightarrow> beyond ord q x z"
  by (auto simp: beyond_def intro: ord_trans split: if_splits)

lemma listing_unique:
  assumes "listing ord s q start ks" "listing ord s q start ks'"
  shows "ks = ks'"
proof -
  let ?R = "\<lambda>j k. beyond ord q (key_of q (row s q j)) (key_of q (row s q k))"
  have anti: "\<not> (?R j k \<and> ?R k j)" for j k using beyond_irrefl beyond_trans by blast
  have "sorted_wrt ?R xs \<Longrightarrow> sorted_wrt ?R ys \<Longrightarrow> distinct xs \<Longrightarrow> distinct ys \<Longrightarrow> set xs = set ys \<Longrightarrow> xs = ys" for xs ys
  proof (induction xs arbitrary: ys)
    case (Cons x xs)
    from Cons.prems(5) obtain y zs where ys: "ys = y # zs" by (cases ys) auto
    have "x = y"
    proof (rule ccontr)
      assume "x \<noteq> y"
      with Cons.prems ys have "?R x y" "?R y x" by auto
      with anti show False by blast
    qed
    with Cons.prems ys have "set xs = set zs" by auto
    with Cons \<open>x = y\<close> ys show ?case by simp
  qed simp
  with assms show ?thesis by (auto simp: listing_def)
qed

text \<open>What is left after a page that stopped at its \<open>m\<close>-th row.\<close>

lemma listing_drop:
  assumes "listing ord s q start ks" "0 < m" "m \<le> length ks"
  shows "listing ord s q (Some (key_of q (row s q (ks ! (m - 1))))) (drop m ks)"
proof -
  let ?key = "\<lambda>k. key_of q (row s q k)"
  let ?R = "\<lambda>j k. beyond ord q (?key j) (?key k)"
  have l: "distinct ks" "sorted_wrt ?R ks" "set ks = {k \<in> indexed_keys s q. past ord q start (?key k)}"
    using assms(1) by (simp_all add: listing_def)
  have split: "ks = take (m - 1) ks @ ks ! (m - 1) # drop m ks"
    using assms(2,3) id_take_nth_drop [of "m - 1" ks] by simp
  have "sorted_wrt ?R (take (m - 1) ks @ ks ! (m - 1) # drop m ks)" using l(2) split by simp
  then have sorted: "\<forall>k \<in> set (drop m ks). ?R (ks ! (m - 1)) k" "\<forall>k \<in> set (take (m - 1) ks). ?R k (ks ! (m - 1))"
      "sorted_wrt ?R (drop m ks)"
    by (auto simp: sorted_wrt_append)
  have last: "ks ! (m - 1) \<in> set ks" using assms(2,3) by simp
  have "set (drop m ks) = {k \<in> indexed_keys s q. past ord q (Some (?key (ks ! (m - 1)))) (?key k)}"
  proof (intro set_eqI iffI)
    fix k assume k: "k \<in> set (drop m ks)"
    then have "k \<in> set ks" by (rule in_set_dropD)
    with l(3) sorted(1) k show "k \<in> {k \<in> indexed_keys s q. past ord q (Some (?key (ks ! (m - 1)))) (?key k)}"
      by (auto simp: past_def)
  next
    fix k assume "k \<in> {k \<in> indexed_keys s q. past ord q (Some (?key (ks ! (m - 1)))) (?key k)}"
    then have k: "k \<in> indexed_keys s q" "?R (ks ! (m - 1)) k" by (simp_all add: past_def)
    have "past ord q start (?key k)"
      using last l(3) k(2) beyond_trans by (cases start) (auto simp: past_def)
    with k(1) l(3) have "k \<in> set ks" by blast
    moreover have "k \<noteq> ks ! (m - 1)" using k(2) beyond_irrefl by auto
    moreover have "k \<notin> set (take (m - 1) ks)" using sorted(2) k(2) beyond_trans beyond_irrefl by blast
    ultimately show "k \<in> set (drop m ks)" by (subst (asm) split) auto
  qed
  with l(1) sorted(3) show ?thesis by (simp add: listing_def)
qed

end

subsection \<open>The walks end and miss nothing\<close>

lemma matching_split: "matching s q (take m ks) @ matching s q (take j (drop m ks)) = matching s q (take (m + j) ks)"
  by (simp add: matching_def take_add flip: filter_append map_append)

lemma mapM_append: "mapM f (xs @ ys) = rbind (mapM f xs) (\<lambda>as. rbind (mapM f ys) (\<lambda>bs. Inr (as @ bs)))"
  by (induction xs) (auto simp: rbind_def split: sum.splits)

text \<open>What a loop that wants \<open>want\<close> rows answers: the rows of a stretch, all of them or enough.\<close>

definition stretch ::
    "(item \<Rightarrow> string + 'r) \<Rightarrow> store \<Rightarrow> list_query \<Rightarrow> string list \<Rightarrow> nat \<Rightarrow> nat \<Rightarrow> 'r list \<Rightarrow> bool" where
  "stretch f s q ks have_rows want xs \<longleftrightarrow>
     (\<exists>m \<le> length ks. mapM f (matching s q (take m ks)) = Inr xs \<and> (m = length ks \<or> want \<le> have_rows + length xs))"

lemma stretch_more:
  assumes "mapM f (matching s q (take m ks)) = Inr rows" "m \<le> length ks"
    and "stretch f s q (drop m ks) (have_rows + length rows) want xs"
  shows "stretch f s q ks have_rows want (rows @ xs)"
proof -
  from assms(3) obtain j where j: "j \<le> length ks - m" "mapM f (matching s q (take j (drop m ks))) = Inr xs"
      "j = length ks - m \<or> want \<le> have_rows + length rows + length xs"
    by (auto simp: stretch_def)
  have "mapM f (matching s q (take (m + j) ks)) = Inr (rows @ xs)"
    using assms(1) j(2) by (simp add: mapM_append flip: matching_split)
  with j assms(2) show ?thesis unfolding stretch_def by (intro exI [of _ "m + j"]) auto
qed

text \<open>A desk on which nothing else runs, whose reads see the current state.\<close>

locale still_desk =
  fixes D :: desk
  assumes alone: "dk_others D n s = s"
    and current: "dk_view D n s = s"

locale paged_desk = paged_service + still_desk
begin

lemma read_page_step:
  "read_page pg D q start w = (db_error_of (map_err Infrastructure (pg (w_n w) (w_db w) q start)), w\<lparr>w_n := Suc (w_n w)\<rparr>)"
  by (simp add: read_page_def call_def alone current Let_def)

text \<open>A page read where the listing is known: a stretch of it, and where the nxt one starts.\<close>

lemma read_page_cases:
  assumes "lq_limit q \<noteq> Some 0"
  obtains e where "read_page pg D q start w = (Inl e, w\<lparr>w_n := Suc (w_n w)\<rparr>)"
  | its nxt ks m where "read_page pg D q start w = (Inr (its, nxt), w\<lparr>w_n := Suc (w_n w)\<rparr>)"
      "listing ord (w_db w) q start ks" "m \<le> length ks" "its = matching (w_db w) q (take m ks)"
      "nxt = None \<Longrightarrow> m = length ks"
      "nxt \<noteq> None \<Longrightarrow> 0 < m \<and> listing ord (w_db w) q nxt (drop m ks)"
proof (cases "pg (w_n w) (w_db w) q start")
  case (Inl e)
  then show ?thesis using that(1) by (simp add: read_page_step db_error_of_def)
next
  case (Inr p)
  obtain its nxt where p: "p = (its, nxt)" by (cases p)
  from page [OF Inr [unfolded p] assms] obtain ks m where k: "listing ord (w_db w) q start ks" "m \<le> length ks"
      "its = matching (w_db w) q (take m ks)" "nxt = None \<longrightarrow> m = length ks"
      "\<forall>k. nxt = Some k \<longrightarrow> 0 < m \<and> k = key_of q (row (w_db w) q (ks ! (m - 1)))"
    by blast
  have "0 < m \<and> listing ord (w_db w) q nxt (drop m ks)" if "nxt \<noteq> None"
    using that k(5) listing_drop [OF k(1) _ k(2)] by auto
  with k(1-4) Inr p show ?thesis
    by (intro that(2) [of its nxt ks m]) (simp_all add: read_page_step db_error_of_def)
qed

lemma walk_from:
  assumes "listing ord (w_db w) q start ks" "lq_limit q \<noteq> Some 0"
  shows "\<exists>r n. walk pg D q start acc w = Some (r, w\<lparr>w_n := n\<rparr>)
    \<and> (\<forall>its. r = Inr its \<longrightarrow> its = acc @ matching (w_db w) q ks)"
  using assms(1)
proof (induction "length ks" arbitrary: ks start acc w rule: less_induct)
  case less
  show ?case
  proof (cases rule: read_page_cases [OF assms(2), of start w])
    case (1 e)
    then show ?thesis by (intro exI [of _ "Inl e"] exI [of _ "Suc (w_n w)"]) (simp add: walk.simps)
  next
    case (2 its nxt ks' m)
    then have k: "ks' = ks" using less(2) listing_unique by blast
    let ?w = "w\<lparr>w_n := Suc (w_n w)\<rparr>"
    show ?thesis
    proof (cases "nxt = None")
      case True
      with 2 k show ?thesis
        by (intro exI [of _ "Inr (acc @ its)"] exI [of _ "Suc (w_n w)"]) (simp add: walk.simps)
    next
      case False
      with 2 k have l: "listing ord (w_db ?w) q nxt (drop m ks)" "length (drop m ks) < length ks" by auto
      from less(1) [OF l(2) l(1)] obtain r n where
        r: "walk pg D q nxt (acc @ its) ?w = Some (r, w\<lparr>w_n := n\<rparr>)"
          "\<forall>its'. r = Inr its' \<longrightarrow> its' = (acc @ its) @ matching (w_db w) q (drop m ks)"
        by fastforce
      have "its @ matching (w_db w) q (drop m ks) = matching (w_db w) q ks"
        using 2(3,4) k matching_split [of "w_db w" q m ks "length ks"] by simp
      with r 2(1) False show ?thesis
        by (intro exI [of _ r] exI [of _ n]) (auto simp: walk.simps [of pg D q start])
    qed
  qed
qed

lemma read_rows_step:
  "read_rows pg D f q start w =
     (case read_page pg D q start w of
        (Inl e, w') \<Rightarrow> (Inl e, w')
      | (Inr (its, nxt), w') \<Rightarrow>
          (case hydrate_items f its of Inl e \<Rightarrow> (Inl e, w') | Inr rows \<Rightarrow> (Inr (rows, nxt), w')))"
  by (auto simp: read_rows_def sbind_def slift_def sreturn_def split: prod.splits sum.splits)

lemma page_loop_from:
  assumes "listing ord (w_db w) q start ks" "lq_limit q \<noteq> Some 0"
  shows "\<exists>r n. page_loop pg D f q want start acc w = Some (r, w\<lparr>w_n := n\<rparr>)
    \<and> (\<forall>rows. r = Inr rows \<longrightarrow> (\<exists>xs. rows = acc @ xs \<and> stretch f (w_db w) q ks (length acc) want xs))"
  using assms(1)
proof (induction "length ks" arbitrary: ks start acc w rule: less_induct)
  case less
  show ?case
  proof (cases rule: read_page_cases [OF assms(2), of start w])
    case (1 e)
    then show ?thesis
      by (intro exI [of _ "Inl e"] exI [of _ "Suc (w_n w)"]) (simp add: page_loop.simps read_rows_step)
  next
    case (2 its nxt ks' m)
    then have k: "ks' = ks" using less(2) listing_unique by blast
    let ?w = "w\<lparr>w_n := Suc (w_n w)\<rparr>"
    show ?thesis
    proof (cases "hydrate_items f its")
      case (Inl e)
      with 2 show ?thesis
        by (intro exI [of _ "Inl e"] exI [of _ "Suc (w_n w)"]) (simp add: page_loop.simps read_rows_step)
    next
      case (Inr rows)
      then have rows: "mapM f (matching (w_db w) q (take m ks)) = Inr rows"
        using 2(4) k by (simp add: hydrate_items_def db_error_of_def)
      have step: "page_loop pg D f q want start acc w =
          (if want \<le> length (acc @ rows) \<or> nxt = None then Some (Inr (acc @ rows), ?w)
           else page_loop pg D f q want nxt (acc @ rows) ?w)"
        using 2(1) Inr by (simp add: page_loop.simps [of pg D f q want start] read_rows_step)
      show ?thesis
      proof (cases "want \<le> length (acc @ rows) \<or> nxt = None")
        case True
        then have "stretch f (w_db w) q ks (length acc) want rows"
          unfolding stretch_def using rows 2(3,5) k by (intro exI [of _ m]) auto
        with True step show ?thesis by (intro exI [of _ "Inr (acc @ rows)"] exI [of _ "Suc (w_n w)"]) simp
      next
        case False
        with 2 k have l: "listing ord (w_db ?w) q nxt (drop m ks)" "length (drop m ks) < length ks" by auto
        from less(1) [OF l(2) l(1), of "acc @ rows"] obtain r n where
          r: "page_loop pg D f q want nxt (acc @ rows) ?w = Some (r, w\<lparr>w_n := n\<rparr>)"
            "\<And>rows'. r = Inr rows' \<Longrightarrow>
               \<exists>xs. rows' = (acc @ rows) @ xs \<and> stretch f (w_db w) q (drop m ks) (length acc + length rows) want xs"
          by fastforce
        have "\<exists>xs. rows' = acc @ xs \<and> stretch f (w_db w) q ks (length acc) want xs" if "r = Inr rows'" for rows'
          using r(2) [OF that] stretch_more [OF rows] 2(3) k by (metis append.assoc)
        moreover have "page_loop pg D f q want start acc w = Some (r, w\<lparr>w_n := n\<rparr>)"
          using False by (simp only: step r(1) if_False)
        ultimately show ?thesis by blast
      qed
    qed
  qed
qed

text \<open>Without knowing the listing: a walk ends, and what it answers is the whole partition.\<close>

lemma walk_ends:
  assumes "lq_limit q \<noteq> Some 0"
  shows "\<exists>r n. walk pg D q start [] w = Some (r, w\<lparr>w_n := n\<rparr>)
    \<and> (\<forall>its. r = Inr its \<longrightarrow> (\<exists>ks. listing ord (w_db w) q start ks \<and> its = matching (w_db w) q ks))"
proof (cases rule: read_page_cases [OF assms, of start w])
  case (1 e)
  then show ?thesis by (intro exI [of _ "Inl e"] exI [of _ "Suc (w_n w)"]) (simp add: walk.simps)
next
  case (2 its nxt ks m)
  from walk_from [OF 2(2) assms, of "[]"] 2(2) show ?thesis by auto
qed

lemma page_loop_ends:
  assumes "lq_limit q \<noteq> Some 0"
  shows "\<exists>r n. page_loop pg D f q want start [] w = Some (r, w\<lparr>w_n := n\<rparr>)
    \<and> (\<forall>rows. r = Inr rows \<longrightarrow> (\<exists>ks. listing ord (w_db w) q start ks \<and> stretch f (w_db w) q ks 0 want rows))"
proof (cases rule: read_page_cases [OF assms, of start w])
  case (1 e)
  then show ?thesis
    by (intro exI [of _ "Inl e"] exI [of _ "Suc (w_n w)"]) (simp add: page_loop.simps read_rows_step)
next
  case (2 its nxt ks m)
  from page_loop_from [OF 2(2) assms, of f want "[]"] 2(2) show ?thesis by fastforce
qed

end

text \<open>
  The index a walk amounts to: what \<open>index_service\<close> asks of a query follows from the laws of its
  pages.
\<close>

definition walked_index :: "pager \<Rightarrow> desk \<Rightarrow> string \<Rightarrow> world \<Rightarrow> index" where
  "walked_index P D h w s t a v =
     (case query_all_items P D (query_of t h a v) (w\<lparr>w_db := s\<rparr>) of
        Some (Inr its, w') \<Rightarrow> Inr its
      | _ \<Rightarrow> Inl ''query failed'')"

sublocale paged_desk \<subseteq> walked: index_service "walked_index pg D h w" for h w
proof
  fix s t a v its assume "walked_index pg D h w s t a v = Inr its"
  then obtain w' where run: "walk pg D (query_of t h a v) None [] (w\<lparr>w_db := s\<rparr>) = Some (Inr its, w')"
    by (auto simp: walked_index_def query_all_items_def split: option.splits sum.splits)
  have "lq_limit (query_of t h a v) \<noteq> Some 0" by (simp add: query_of_def)
  from walk_ends [OF this, of None "w\<lparr>w_db := s\<rparr>"] run
  obtain ks where "listing ord s (query_of t h a v) None ks" "its = matching s (query_of t h a v) ks" by auto
  moreover have "indexed_keys s (query_of t h a v) = rows_with s t a v"
    by (auto simp: indexed_keys_def rows_with_def indexed_def query_of_def attrs_of_def split: option.splits)
  ultimately show "\<exists>ks. distinct ks \<and> set ks = rows_with s t a v \<and> its = map (\<lambda>k. attrs_of (s t k)) ks"
    by (intro exI [of _ ks]) (simp add: listing_def past_def matching_def query_of_def row_def comp_def)
qed

sublocale current_desk \<subseteq> still: still_desk D
  by unfold_locales (simp_all add: alone current)

subsection \<open>A reference pager\<close>

text \<open>
  A service that orders a partition by the sort key, then by the table's key, and cuts a page only
  at the limit.
\<close>

definition attr_rank :: "attr option \<Rightarrow> int \<times> string" where
  "attr_rank a = (case a of Some (AN n) \<Rightarrow> (n, []) | Some (AS t) \<Rightarrow> (0, t) | _ \<Rightarrow> (0, []))"

definition key_rank :: "string option \<Rightarrow> item \<Rightarrow> (int \<times> string) \<times> (int \<times> string) \<times> (int \<times> string)" where
  "key_rank b x =
     (case b of None \<Rightarrow> (0, []) | Some a \<Rightarrow> attr_rank (x a), attr_rank (x ''id''), attr_rank (x ''address''))"

definition ref_ord :: key_order where
  "ref_ord t a b x y \<longleftrightarrow> key_rank b x < key_rank b y"

definition ref_listing :: "store \<Rightarrow> list_query \<Rightarrow> item option \<Rightarrow> string list" where
  "ref_listing s q start =
     (let ks = sort_key (\<lambda>k. key_rank (lq_sort q) (key_of q (row s q k)))
                 (sorted_list_of_set {k \<in> indexed_keys s q. past ref_ord q start (key_of q (row s q k))})
      in if lq_forward q then ks else rev ks)"

definition cut_page :: "store \<Rightarrow> list_query \<Rightarrow> string list \<Rightarrow> item list \<times> item option" where
  "cut_page s q ks =
     (case lq_limit q of
        None \<Rightarrow> (matching s q ks, None)
      | Some l \<Rightarrow>
          if l < length ks then (matching s q (take l ks), Some (key_of q (row s q (ks ! (l - 1)))))
          else (matching s q ks, None))"

definition ref_pager :: pager where
  "ref_pager n s q start =
     (if listing ref_ord s q start (ref_listing s q start) then Inr (cut_page s q (ref_listing s q start))
      else Inl ''ValidationException'')"

interpretation ref_pages: paged_service ref_pager ref_ord
proof
  fix t a b x y z
  show "\<not> ref_ord t a b x x" by (simp add: ref_ord_def)
  show "ref_ord t a b x y \<Longrightarrow> ref_ord t a b y z \<Longrightarrow> ref_ord t a b x z" by (simp add: ref_ord_def)
next
  fix t a b and x y :: item and m n assume "x b = Some (AN m)" "y b = Some (AN n)" "m < n"
  then show "ref_ord t a (Some b) x y" by (simp add: ref_ord_def key_rank_def attr_rank_def)
next
  fix t a b and x y :: item and u v assume "x b = Some (AS u)" "y b = Some (AS v)" "u < v"
  then show "ref_ord t a (Some b) x y" by (simp add: ref_ord_def key_rank_def attr_rank_def)
next
  fix n s q start its nxt assume run: "ref_pager n s q start = Inr (its, nxt)" and l: "lq_limit q \<noteq> Some 0"
  let ?ks = "ref_listing s q start"
  have "listing ref_ord s q start ?ks" "cut_page s q ?ks = (its, nxt)"
    using run by (auto simp: ref_pager_def split: if_splits)
  with l show "\<exists>ks m. listing ref_ord s q start ks \<and> m \<le> length ks \<and> its = matching s q (take m ks)
        \<and> (nxt = None \<longrightarrow> m = length ks)
        \<and> (\<forall>k. nxt = Some k \<longrightarrow> 0 < m \<and> k = key_of q (row s q (ks ! (m - 1))))"
    by (intro exI [of _ ?ks] exI [of _ "case lq_limit q of None \<Rightarrow> length ?ks | Some l \<Rightarrow> min l (length ?ks)"])
      (auto simp: cut_page_def split: option.splits if_splits)
qed

interpretation paged: paged_desk ref_pager ref_ord quiet_desk
  by unfold_locales (simp_all add: quiet_desk_def)

text \<open>On a partition that can be listed it answers, with the page its limit cuts.\<close>

lemma ref_pager_page:
  assumes "listing ref_ord s q start ks"
  shows "ref_pager n s q start = Inr (cut_page s q ks)"
proof -
  let ?r = "\<lambda>k. key_rank (lq_sort q) (key_of q (row s q k))"
  let ?S = "{k \<in> indexed_keys s q. past ref_ord q start (key_of q (row s q k))}"
  let ?R = "\<lambda>j k. beyond ref_ord q (key_of q (row s q j)) (key_of q (row s q k))"
  let ?L = "sort_key ?r (sorted_list_of_set ?S)"
  have ks: "distinct ks" "set ks = ?S" "sorted_wrt ?R ks" using assms by (simp_all add: listing_def)
  have fin: "finite ?S" using ks(2) by (metis List.finite_set)
  have L: "distinct ?L" "set ?L = ?S" using fin by simp_all
  have "inj_on ?r (set ?L)"
  proof (rule inj_onI, rule ccontr)
    fix j k assume jk: "j \<in> set ?L" "k \<in> set ?L" "?r j = ?r k" "j \<noteq> k"
    then have "j \<in> set ks" "k \<in> set ks" using L(2) ks(2) by simp_all
    then obtain a b where "a < length ks" "b < length ks" "ks ! a = j" "ks ! b = k" by (auto simp: in_set_conv_nth)
    moreover from this jk(4) have "a < b \<or> b < a" by (metis linorder_neqE_nat)
    ultimately have "?R j k \<or> ?R k j" using sorted_wrt_nth_less [OF ks(3)] by blast
    with jk(3) show False by (auto simp: beyond_def ref_ord_def split: if_splits)
  qed
  with L(1) have "distinct (map ?r ?L)" by (simp add: distinct_map)
  then have "sorted_wrt (<) (map ?r ?L)" by (simp add: strict_sorted_iff)
  then have "sorted_wrt ?R (ref_listing s q start)"
    by (simp add: ref_listing_def Let_def sorted_wrt_map sorted_wrt_rev beyond_def ref_ord_def)
  with L have "listing ref_ord s q start (ref_listing s q start)"
    by (simp add: listing_def ref_listing_def Let_def)
  with ref_pages.listing_unique [OF assms this] show ?thesis by (simp add: ref_pager_def)
qed

end
