(* ===== verification/Listing.thy ===== *)
theory Listing
  imports Paging Invoice_Mutations
begin

section \<open>Paginated listings\<close>

text \<open>
  The Relay connections of the API: \<^verbatim>\<open>graphql/pagination.rs\<close>, the cursors and the queries
  \<^verbatim>\<open>tickets\<close>, \<^verbatim>\<open>billableItems\<close> and \<^verbatim>\<open>invoices\<close> of \<^verbatim>\<open>graphql/query.rs\<close>, and the listing
  operations of \<^verbatim>\<open>dynamodb.rs\<close> under them.
\<close>

subsection \<open>Pages and connections\<close>

definition pagination_args :: "int option \<Rightarrow> int option \<Rightarrow> nat \<Rightarrow> nat \<Rightarrow> api_error + nat \<times> bool" where
  "pagination_args first_arg last_arg default_size max_size =
     (case (first_arg, last_arg) of
        (Some f, Some l) \<Rightarrow> Inl (Anyhow ''Cannot specify both first and last'')
      | (Some v, None) \<Rightarrow>
          if v < 0 then Inl (Anyhow ''first must be non-negative'')
          else if nat v > max_size then Inl (Anyhow (''first must be less than or equal to '' @ show_nat max_size))
          else Inr (nat v, False)
      | (None, Some v) \<Rightarrow>
          if v < 0 then Inl (Anyhow ''last must be non-negative'')
          else if nat v > max_size then Inl (Anyhow (''last must be less than or equal to '' @ show_nat max_size))
          else Inr (nat v, True)
      | (None, None) \<Rightarrow> Inr (default_size, False))"

record 'n connection =
  cn_edges :: "(string \<times> 'n) list"
  cn_has_previous :: bool
  cn_has_next :: bool

definition build_connection ::
    "'r list \<Rightarrow> nat \<Rightarrow> bool \<Rightarrow> bool \<Rightarrow> bool \<Rightarrow> ('r \<Rightarrow> string \<times> 'n) \<Rightarrow> 'n connection" where
  "build_connection rows page_size is_last_mode has_after has_before to_edge =
     (let fetched_extra = length rows > page_size;
          kept = (if fetched_extra then take page_size rows else rows);
          shown = (if is_last_mode then rev kept else kept)
      in \<lparr>cn_edges = map to_edge shown,
          cn_has_previous = (if is_last_mode then fetched_extra \<or> has_after else has_after),
          cn_has_next = (if is_last_mode then has_before else fetched_extra)\<rparr>)"

definition page_scan_direction :: "bool \<Rightarrow> bool \<Rightarrow> bool \<Rightarrow> bool \<times> bool" where
  "page_scan_direction has_after has_before descending =
     ((if has_after then \<not> descending else if has_before then descending else \<not> descending),
      has_before \<and> \<not> has_after)"

text \<open>\<^verbatim>\<open>page_size.saturating_add(1)\<close> into an \<^verbatim>\<open>i32\<close>.\<close>

definition fetch_limit :: "nat \<Rightarrow> api_error + nat" where
  "fetch_limit page_size =
     (if page_size + 1 \<le> 2147483647 then Inr (page_size + 1) else Inl (Anyhow ''Requested page is too large''))"

subsection \<open>Cursors\<close>

record ticket_cursor =
  tc_last_activity_at :: nat
  tc_id :: string

record billable_item_cursor =
  bc_date :: string
  bc_id :: string

record invoice_cursor =
  ic_created_at :: nat
  ic_id :: string

definition encode_ticket_cursor :: "ticket \<Rightarrow> string" where
  "encode_ticket_cursor t = show_nat (tkt_last_activity_at t) @ '':'' @ tkt_id t"

text \<open>\<^verbatim>\<open>splitn(2, ':')\<close>: without a separator the whole text is the first part and there is no second.\<close>

definition time_cursor :: "string \<Rightarrow> api_error + nat \<times> string" where
  "time_cursor cursor =
     (let (stamp, rest) = (case split_once (CHR '':'') cursor of None \<Rightarrow> (cursor, None) | Some (a, b) \<Rightarrow> (a, Some b))
      in rbind (ok_or (Anyhow ''Invalid cursor'') (parse_u64 stamp)) (\<lambda>n.
         rbind (ok_or (Anyhow ''Invalid cursor'') rest) (\<lambda>i.
         if i = [] then Inl (Anyhow ''Invalid cursor'') else Inr (n, i))))"

definition decode_ticket_cursor :: "string \<Rightarrow> api_error + ticket_cursor" where
  "decode_ticket_cursor cursor =
     rbind (time_cursor cursor) (\<lambda>(n, i). Inr \<lparr>tc_last_activity_at = n, tc_id = i\<rparr>)"

definition encode_billable_item_cursor :: "billable_item \<Rightarrow> string" where
  "encode_billable_item_cursor i = item_date i @ '':'' @ item_id i"

text \<open>\<open>canon\<close> is the calendar parse and format of \<^verbatim>\<open>validate_item_date\<close>.\<close>

definition decode_billable_item_cursor :: "(string \<Rightarrow> string option) \<Rightarrow> string \<Rightarrow> api_error + billable_item_cursor" where
  "decode_billable_item_cursor canon cursor =
     rbind (ok_or (Anyhow ''Invalid cursor'') (split_once (CHR '':'') cursor)) (\<lambda>(date, i).
     rbind (map_err (\<lambda>_. Anyhow ''Invalid cursor'') (validate_item_date canon date)) (\<lambda>date.
     if i = [] then Inl (Anyhow ''Invalid cursor'') else Inr \<lparr>bc_date = date, bc_id = i\<rparr>))"

definition encode_invoice_cursor :: "invoice \<Rightarrow> string" where
  "encode_invoice_cursor i = show_nat (inv_created_at i) @ '':'' @ inv_id i"

definition decode_invoice_cursor :: "string \<Rightarrow> api_error + invoice_cursor" where
  "decode_invoice_cursor cursor =
     rbind (time_cursor cursor) (\<lambda>(n, i). Inr \<lparr>ic_created_at = n, ic_id = i\<rparr>)"

definition decode_opt :: "(string \<Rightarrow> api_error + 'c) \<Rightarrow> string option \<Rightarrow> api_error + 'c option" where
  "decode_opt f c = (case c of None \<Rightarrow> Inr None | Some x \<Rightarrow> rbind (f x) (\<lambda>y. Inr (Some y)))"

subsection \<open>Tickets\<close>

datatype ticket_list_filter =
    ByStatus ticket_status
  | Visible
  | AssignedTo string "ticket_status option"

record list_tickets_page =
  tp_after :: "ticket_cursor option"
  tp_before :: "ticket_cursor option"
  tp_limit :: nat
  tp_descending :: bool

text \<open>The attribute of the listing index, its value, and the status to filter by.\<close>

fun ticket_index :: "string \<Rightarrow> ticket_list_filter \<Rightarrow> string \<times> string \<times> ticket_status option" where
  "ticket_index i (ByStatus status) = (''instance_status'', i @ ''#'' @ ticket_status_str status, None)"
| "ticket_index i Visible = (''instance_visible'', i, None)"
| "ticket_index i (AssignedTo u status) = (''instance_assignee'', i @ ''#'' @ u, status)"

definition tickets_query :: "string \<Rightarrow> ticket_list_filter \<Rightarrow> nat \<Rightarrow> bool \<Rightarrow> list_query" where
  "tickets_query i filt limit forward =
     (let (attr, v, status) = ticket_index i filt
      in \<lparr>lq_table = ''ticket'', lq_hash = ''id'', lq_key = Some (attr, v), lq_sort = Some ''last_activity_at'',
          lq_forward = forward,
          lq_filter = (case status of None \<Rightarrow> CTrue | Some st \<Rightarrow> CEq ''status'' (AS (ticket_status_str st))),
          lq_limit = Some limit\<rparr>)"

definition ticket_start :: "string \<Rightarrow> ticket_list_filter \<Rightarrow> ticket_cursor \<Rightarrow> item" where
  "ticket_start i filt c =
     (let (attr, v, status) = ticket_index i filt
      in [''id'' \<mapsto> AS (tc_id c), attr \<mapsto> AS v, ''last_activity_at'' \<mapsto> AN (int (tc_last_activity_at c))])"

definition or_else :: "'a option \<Rightarrow> 'a option \<Rightarrow> 'a option" where
  "or_else a b = (case a of None \<Rightarrow> b | Some x \<Rightarrow> Some x)"

definition list_tickets ::
    "pager \<Rightarrow> desk \<Rightarrow> string \<Rightarrow> ticket_list_filter \<Rightarrow> list_tickets_page \<Rightarrow> ticket list loop_run" where
  "list_tickets P D i filt page =
     (let (scan_forward, reverse_output) =
            page_scan_direction (tp_after page \<noteq> None) (tp_before page \<noteq> None) (tp_descending page)
      in obind (page_loop P D hydrate_ticket (tickets_query i filt (tp_limit page) scan_forward) (tp_limit page)
                  (map_option (ticket_start i filt) (or_else (tp_after page) (tp_before page))) [])
           (\<lambda>tickets. once (sreturn (if reverse_output then rev tickets else tickets))))"

datatype ticket_status_filter = FilterOpen | FilterClosed | FilterAll | FilterDeleted

fun filter_status :: "ticket_status_filter \<Rightarrow> ticket_status option" where
  "filter_status FilterOpen = Some TOpen"
| "filter_status FilterClosed = Some TClosed"
| "filter_status FilterAll = None"
| "filter_status FilterDeleted = Some TDeleted"

definition ticket_filter :: "ticket_status_filter \<Rightarrow> string option \<Rightarrow> ticket_list_filter" where
  "ticket_filter status assigned_to =
     (case assigned_to of
        Some u \<Rightarrow> AssignedTo u (filter_status status)
      | None \<Rightarrow> (case filter_status status of Some st \<Rightarrow> ByStatus st | None \<Rightarrow> Visible))"

definition DEFAULT_TICKET_PAGE_SIZE :: nat where "DEFAULT_TICKET_PAGE_SIZE = 25"
definition MAX_TICKET_PAGE_SIZE :: nat where "MAX_TICKET_PAGE_SIZE = 100"

record page_args =
  pa_after :: "string option"
  pa_before :: "string option"
  pa_first :: "int option"
  pa_last :: "int option"

definition user_memberships :: "desk \<Rightarrow> auth_membership list run" where
  "user_memberships D =
     slift (case dk_auth D of Some (User i ms su tk g) \<Rightarrow> Inr ms | _ \<Rightarrow> Inl (Api must_be_user))"

definition lift_api :: "api_error + 'a \<Rightarrow> 'a run" where
  "lift_api r = slift (map_err Api r)"

text \<open>What the resolver decides before it reads: the page it asks for.\<close>

record ticket_request =
  tr_page :: list_tickets_page
  tr_size :: nat
  tr_last_mode :: bool

definition ticket_page_request :: "page_args \<Rightarrow> api_error + ticket_request" where
  "ticket_page_request args =
     rbind (decode_opt decode_ticket_cursor (pa_after args)) (\<lambda>after_c.
     rbind (decode_opt decode_ticket_cursor (pa_before args)) (\<lambda>before_c.
     rbind (pagination_args (pa_first args) (pa_last args) DEFAULT_TICKET_PAGE_SIZE MAX_TICKET_PAGE_SIZE)
       (\<lambda>(size, last_mode).
     rbind (fetch_limit size) (\<lambda>limit.
     Inr \<lparr>tr_page = \<lparr>tp_after = after_c, tp_before = before_c, tp_limit = limit, tp_descending = \<not> last_mode\<rparr>,
          tr_size = size, tr_last_mode = last_mode\<rparr>))))"

definition q_tickets ::
    "pager \<Rightarrow> desk \<Rightarrow> string \<Rightarrow> ticket_status_filter \<Rightarrow> string option \<Rightarrow> page_args \<Rightarrow> ticket connection loop_run" where
  "q_tickets P D i status assigned_to args =
     obind (once (guard D (RequireMember i))) (\<lambda>_.
     obind (once (user_memberships D)) (\<lambda>ms.
     obind (once (sensure_api (\<not> (status = FilterDeleted \<and> \<not> is_owner ms i))
              (forbidden ''Only an owner can list deleted tickets''))) (\<lambda>_.
     obind (once (lift_api (ticket_page_request args))) (\<lambda>rq.
     obind (list_tickets P D i (ticket_filter status assigned_to) (tr_page rq)) (\<lambda>tickets.
     once (sreturn (build_connection tickets (tr_size rq) (tr_last_mode rq)
       (tp_after (tr_page rq) \<noteq> None) (tp_before (tr_page rq) \<noteq> None) (\<lambda>t. (encode_ticket_cursor t, t)))))))))"

subsection \<open>Billable items and invoices\<close>

datatype list_scope = InstanceScope string | ProjectScope string

fun scope_key :: "list_scope \<Rightarrow> string \<times> string" where
  "scope_key (InstanceScope i) = (''instance_id'', i)"
| "scope_key (ProjectScope p) = (''project_id'', p)"

datatype billable_item_filter = AllItems | UnbilledItems | BilledItems

fun item_filter_cond :: "billable_item_filter \<Rightarrow> cond option" where
  "item_filter_cond AllItems = None"
| "item_filter_cond UnbilledItems = Some (CNotExists ''invoice_id'')"
| "item_filter_cond BilledItems = Some (CExists ''invoice_id'')"

datatype invoice_list_filter = AllInvoices | DraftInvoices | UnpaidInvoices | PaidInvoices

fun invoice_filter_cond :: "invoice_list_filter \<Rightarrow> cond option" where
  "invoice_filter_cond AllInvoices = None"
| "invoice_filter_cond DraftInvoices = Some (CEq ''status'' (AS ''draft''))"
| "invoice_filter_cond UnpaidInvoices = Some (CAnd (CEq ''status'' (AS ''finalized'')) (CNotExists ''paid_date''))"
| "invoice_filter_cond PaidInvoices = Some (CAnd (CEq ''status'' (AS ''finalized'')) (CExists ''paid_date''))"

text \<open>Filtered, the page is left to the service's size cap; unfiltered, the limit is exact.\<close>

definition newest_query :: "string \<Rightarrow> string \<Rightarrow> list_scope \<Rightarrow> cond option \<Rightarrow> nat \<Rightarrow> list_query" where
  "newest_query t sorted_by scope filt limit =
     \<lparr>lq_table = t, lq_hash = ''id'', lq_key = Some (scope_key scope), lq_sort = Some sorted_by, lq_forward = False,
      lq_filter = unwrap_or CTrue filt, lq_limit = (if filt = None then Some limit else None)\<rparr>"

record list_items_page =
  ip_after :: "billable_item_cursor option"
  ip_limit :: int

record list_invoices_page =
  vp_after :: "invoice_cursor option"
  vp_limit :: int

definition list_billable_items ::
    "pager \<Rightarrow> desk \<Rightarrow> list_scope \<Rightarrow> billable_item_filter \<Rightarrow> list_items_page \<Rightarrow> billable_item list loop_run" where
  "list_billable_items P D scope filt page =
     (let limit = nat (ip_limit page); (attr, v) = scope_key scope in
      if limit = 0 then once (sreturn [])
      else obind (page_loop P D hydrate_billable_item
                    (newest_query ''billable_item'' ''date'' scope (item_filter_cond filt) limit) limit
                    (map_option (\<lambda>c. [''id'' \<mapsto> AS (bc_id c), attr \<mapsto> AS v, ''date'' \<mapsto> AS (bc_date c)]) (ip_after page)) [])
             (\<lambda>rows. once (sreturn (take limit rows))))"

definition list_invoices ::
    "pager \<Rightarrow> desk \<Rightarrow> list_scope \<Rightarrow> invoice_list_filter \<Rightarrow> list_invoices_page \<Rightarrow> invoice list loop_run" where
  "list_invoices P D scope filt page =
     (let limit = nat (vp_limit page); (attr, v) = scope_key scope in
      if limit = 0 then once (sreturn [])
      else obind (page_loop P D hydrate_invoice
                    (newest_query ''invoice'' ''created_at'' scope (invoice_filter_cond filt) limit) limit
                    (map_option (\<lambda>c. [''id'' \<mapsto> AS (ic_id c), attr \<mapsto> AS v, ''created_at'' \<mapsto> AN (int (ic_created_at c))])
                       (vp_after page)) [])
             (\<lambda>rows. once (sreturn (take limit rows))))"

text \<open>The instance must be an invoicing one, and a project given must be one of its projects.\<close>

definition invoicing_instance :: "desk \<Rightarrow> string \<Rightarrow> org_instance run" where
  "invoicing_instance D i =
     sbind (get_instance D i) (\<lambda>found_row.
     sbind (found (Api (not_found ''Instance'' i)) found_row) (\<lambda>inst.
     sbind (slift (map_err (\<lambda>e. Api (BadKind e)) (require_instance_kind inst Invoicing))) (\<lambda>_.
     sreturn inst)))"

definition get_project :: "desk \<Rightarrow> string \<Rightarrow> project option run" where
  "get_project D i =
     db_read D (\<lambda>s. rbind (get_records (dk_db D) ''project'' hydrate_project proj_id [i] s) (\<lambda>rs. Inr (first_row rs)))"

definition list_scope_of :: "desk \<Rightarrow> org_instance \<Rightarrow> string \<Rightarrow> string option \<Rightarrow> list_scope run" where
  "list_scope_of D inst i project_id =
     (case project_id of
        None \<Rightarrow> sreturn (InstanceScope i)
      | Some p \<Rightarrow>
          sbind (get_project D p) (\<lambda>found_row.
          sbind (found (Api (not_found ''Project'' p))
                   (case found_row of Some r \<Rightarrow> if proj_instance_id r = inst_id inst then Some r else None | None \<Rightarrow> None)) (\<lambda>_.
          sreturn (ProjectScope p))))"

definition DEFAULT_BILLABLE_ITEM_PAGE_SIZE :: nat where "DEFAULT_BILLABLE_ITEM_PAGE_SIZE = 25"
definition MAX_BILLABLE_ITEM_PAGE_SIZE :: nat where "MAX_BILLABLE_ITEM_PAGE_SIZE = 100"
definition DEFAULT_INVOICE_PAGE_SIZE :: nat where "DEFAULT_INVOICE_PAGE_SIZE = 25"
definition MAX_INVOICE_PAGE_SIZE :: nat where "MAX_INVOICE_PAGE_SIZE = 100"

definition q_billable_items ::
    "pager \<Rightarrow> desk \<Rightarrow> (string \<Rightarrow> string option) \<Rightarrow> string \<Rightarrow> string option \<Rightarrow> billable_item_filter
      \<Rightarrow> int option \<Rightarrow> string option \<Rightarrow> billable_item connection loop_run" where
  "q_billable_items P D canon i project_id filt first_arg after_arg =
     obind (once (guard D (RequireMember i))) (\<lambda>_.
     obind (once (invoicing_instance D i)) (\<lambda>inst.
     obind (once (list_scope_of D inst i project_id)) (\<lambda>scope.
     obind (once (lift_api (decode_opt (decode_billable_item_cursor canon) after_arg))) (\<lambda>after_c.
     obind (once (lift_api (pagination_args first_arg None DEFAULT_BILLABLE_ITEM_PAGE_SIZE
              MAX_BILLABLE_ITEM_PAGE_SIZE))) (\<lambda>(size, last_mode).
     obind (once (lift_api (fetch_limit size))) (\<lambda>limit.
     obind (list_billable_items P D scope filt \<lparr>ip_after = after_c, ip_limit = int limit\<rparr>) (\<lambda>rows.
     once (sreturn (build_connection rows size False (after_c \<noteq> None) False
       (\<lambda>r. (encode_billable_item_cursor r, r)))))))))))"

definition q_invoices ::
    "pager \<Rightarrow> desk \<Rightarrow> string \<Rightarrow> string option \<Rightarrow> invoice_list_filter
      \<Rightarrow> int option \<Rightarrow> string option \<Rightarrow> invoice connection loop_run" where
  "q_invoices P D i project_id filt first_arg after_arg =
     obind (once (guard D (RequireMember i))) (\<lambda>_.
     obind (once (invoicing_instance D i)) (\<lambda>inst.
     obind (once (list_scope_of D inst i project_id)) (\<lambda>scope.
     obind (once (lift_api (decode_opt decode_invoice_cursor after_arg))) (\<lambda>after_c.
     obind (once (lift_api (pagination_args first_arg None DEFAULT_INVOICE_PAGE_SIZE MAX_INVOICE_PAGE_SIZE)))
       (\<lambda>(size, last_mode).
     obind (once (lift_api (fetch_limit size))) (\<lambda>limit.
     obind (list_invoices P D scope filt \<lparr>vp_after = after_c, vp_limit = int limit\<rparr>) (\<lambda>rows.
     once (sreturn (build_connection rows size False (after_c \<noteq> None) False
       (\<lambda>r. (encode_invoice_cursor r, r)))))))))))"

end
