(* ===== verification/Listing_Safety.thy ===== *)
theory Listing_Safety
  imports Listing
begin

section \<open>What a page of a listing holds\<close>

text \<open>
  On a quiet desk over a service that keeps the laws of \<open>Paging\<close>: the pages a client gets by
  following \<^verbatim>\<open>endCursor\<close> with \<^verbatim>\<open>first\<close> and \<^verbatim>\<open>after\<close> are consecutive slices of the list of all
  matching tickets, newest first; a walk of an index ends and misses no row; a page asked for with
  \<^verbatim>\<open>last\<close> and \<^verbatim>\<open>before\<close> comes from the wrong side of its cursor.
\<close>

subsection \<open>Cursors\<close>

lemma colon_no_digit: "CHR '':'' \<notin> set (show_nat n)"
proof
  assume "CHR '':'' \<in> set (show_nat n)"
  with show_nat_digits [of n] have "is_digit (CHR '':'')" by (auto simp: list_all_iff)
  then show False by (simp add: is_digit_def)
qed

lemma time_cursor_round_trip: "n \<le> u64_max \<Longrightarrow> i \<noteq> [] \<Longrightarrow> time_cursor (show_nat n @ CHR '':'' # i) = Inr (n, i)"
  using split_once_append [OF colon_no_digit, of n i] by (simp add: time_cursor_def parse_u64_show)

lemma ticket_cursor_round_trip:
  "tkt_last_activity_at t \<le> u64_max \<Longrightarrow> tkt_id t \<noteq> [] \<Longrightarrow>
     decode_ticket_cursor (encode_ticket_cursor t)
       = Inr \<lparr>tc_last_activity_at = tkt_last_activity_at t, tc_id = tkt_id t\<rparr>"
  by (simp add: decode_ticket_cursor_def encode_ticket_cursor_def time_cursor_round_trip)

lemma invoice_cursor_round_trip:
  "inv_created_at v \<le> u64_max \<Longrightarrow> inv_id v \<noteq> [] \<Longrightarrow>
     decode_invoice_cursor (encode_invoice_cursor v) = Inr \<lparr>ic_created_at = inv_created_at v, ic_id = inv_id v\<rparr>"
  by (simp add: decode_invoice_cursor_def encode_invoice_cursor_def time_cursor_round_trip)

subsection \<open>The list the pages cut\<close>

text \<open>
  \<open>ticket_list\<close>: all tickets of a view, newest activity first. \<open>stamped\<close>: ids and activity times
  are as the handler writes them.
\<close>

definition newest_first :: "string \<Rightarrow> ticket_list_filter \<Rightarrow> list_query" where
  "newest_first i filt = tickets_query i filt 1 False"

definition ticket_list :: "key_order \<Rightarrow> store \<Rightarrow> string \<Rightarrow> ticket_list_filter \<Rightarrow> ticket list \<Rightarrow> bool" where
  "ticket_list ord s i filt ts \<longleftrightarrow>
     (\<exists>ks. listing ord s (newest_first i filt) None ks
        \<and> mapM hydrate_ticket (matching s (newest_first i filt) ks) = Inr ts)"

definition stamped :: "store \<Rightarrow> bool" where
  "stamped s \<longleftrightarrow> (\<forall>k it. s ''ticket'' k = Some it \<longrightarrow>
     it ''id'' \<noteq> Some (AS []) \<and> (\<exists>n. it ''last_activity_at'' = Some (AN (int n))))"

lemma tickets_query_limit: "tickets_query i filt l False = newest_first i filt\<lparr>lq_limit := Some l\<rparr>"
  by (simp add: newest_first_def tickets_query_def split: prod.splits)

lemma limit_free_basic [simp]:
  "key_of (q\<lparr>lq_limit := l\<rparr>) = key_of q"
  "row s (q\<lparr>lq_limit := l\<rparr>) = row s q"
  "indexed (q\<lparr>lq_limit := l\<rparr>) = indexed q"
  "beyond ord (q\<lparr>lq_limit := l\<rparr>) = beyond ord q"
  by (rule ext, simp add: key_of_def row_def indexed_def beyond_def fun_eq_iff)+

lemma limit_free [simp]:
  "past ord (q\<lparr>lq_limit := l\<rparr>) = past ord q"
  "indexed_keys s (q\<lparr>lq_limit := l\<rparr>) = indexed_keys s q"
  "matching s (q\<lparr>lq_limit := l\<rparr>) = matching s q"
  by (rule ext | simp add: past_def indexed_keys_def matching_def split: option.split)+

lemma limit_free_listing [simp]:
  "listing ord s (q\<lparr>lq_limit := l\<rparr>) = listing ord s q"
  "stretch f s (q\<lparr>lq_limit := l\<rparr>) = stretch f s q"
  by (rule ext | simp add: listing_def stretch_def)+

text \<open>The row a list of matching rows stops at.\<close>

lemma filter_upto:
  assumes "0 < k" "k \<le> length (filter P (map f xs))"
  shows "\<exists>m. 0 < m \<and> m \<le> length xs \<and> filter P (map f (take m xs)) = take k (filter P (map f xs))
    \<and> filter P (map f (drop m xs)) = drop k (filter P (map f xs)) \<and> f (xs ! (m - 1)) = filter P (map f xs) ! (k - 1)"
  using assms
proof (induction xs arbitrary: k)
  case (Cons x xs)
  show ?case
  proof (cases "P (f x) \<and> k = 1")
    case True
    then show ?thesis by (intro exI [of _ 1]) simp
  next
    case False
    define j where "j = (if P (f x) then k - 1 else k)"
    have "0 < j" "j \<le> length (filter P (map f xs))" using False Cons.prems by (auto simp: j_def)
    from Cons.IH [OF this] obtain m where "0 < m" "m \<le> length xs"
        "filter P (map f (take m xs)) = take j (filter P (map f xs))"
        "filter P (map f (drop m xs)) = drop j (filter P (map f xs))"
        "f (xs ! (m - 1)) = filter P (map f xs) ! (j - 1)"
      by blast
    with False Cons.prems(1) show ?thesis
      by (intro exI [of _ "Suc m"]) (auto simp: j_def take_Cons' drop_Cons' nth_Cons')
  qed
qed simp

definition cursor_of :: "ticket \<Rightarrow> ticket_cursor" where
  "cursor_of t = \<lparr>tc_last_activity_at = tkt_last_activity_at t, tc_id = tkt_id t\<rparr>"

definition start_after :: "string \<Rightarrow> ticket_list_filter \<Rightarrow> ticket list \<Rightarrow> nat \<Rightarrow> item option" where
  "start_after i filt ts k = (if k = 0 then None else Some (ticket_start i filt (cursor_of (ts ! (k - 1)))))"

lemma hydrated_stamp:
  assumes "hydrate_ticket it = Inr t" "it ''last_activity_at'' = Some (AN (int n))"
  shows "tkt_last_activity_at t = n \<and> n < 2 ^ 63"
proof -
  from assms have "in_i64 (int n)" "tkt_last_activity_at t = as_u64 (int n)"
    by (auto simp: hydrate_ticket_def need_i64_def i64_field_def split: if_splits)
  moreover from this(1) have "n < 9223372036854775808" by (simp add: in_i64_def i64_max_def)
  ultimately show ?thesis by (simp add: as_u64_of_nat)
qed

lemma ticket_start_key:
  assumes "hydrate_ticket it = Inr t" "it ''last_activity_at'' = Some (AN (int n))" "indexed (newest_first i filt) it"
  shows "ticket_start i filt (cursor_of t) = key_of (newest_first i filt) it"
  using assms hydrate_ticketD [OF assms(1)] hydrated_stamp [OF assms(1,2)]
  by (cases filt) (auto simp: fun_eq_iff ticket_start_def cursor_of_def key_of_def newest_first_def tickets_query_def indexed_def)

lemma listed_row:
  assumes "listing ord s q start ks" "k \<in> set ks"
  shows "\<exists>it. s (lq_table q) k = Some it \<and> row s q k = it \<and> indexed q it"
  using assms by (auto simp: listing_def indexed_keys_def row_def attrs_of_def)

lemma mapM_take: "mapM f xs = Inr ys \<Longrightarrow> mapM f (take m xs) = Inr (take m ys)"
  by (auto simp: mapM_Inr_iff intro: list_all2_takeI)

lemma mapM_nth: "mapM f xs = Inr ys \<Longrightarrow> j < length ys \<Longrightarrow> f (xs ! j) = Inr (ys ! j) \<and> xs ! j \<in> set xs"
  by (auto simp: mapM_Inr_iff list_all2_conv_all_nth)

lemma mapM_drop: "mapM f xs = Inr ys \<Longrightarrow> mapM f (drop m xs) = Inr (drop m ys)"
  by (auto simp: mapM_Inr_iff intro: list_all2_dropI)

subsection \<open>One page\<close>

lemma obind_Some_Inr:
  "obind m k w = Some (Inr y, w') \<longleftrightarrow> (\<exists>x w1. m w = Some (Inr x, w1) \<and> k x w1 = Some (Inr y, w'))"
  by (auto simp: obind_def split: option.splits sum.splits)

lemma once_Some: "once m w = Some p \<longleftrightarrow> m w = p"
  by (simp add: once_def)

lemma obind_ends:
  assumes "\<exists>r w1. m w = Some (r, w1)" "\<And>x w1. m w = Some (Inr x, w1) \<Longrightarrow> \<exists>r w'. k x w1 = Some (r, w')"
  shows "\<exists>r w'. obind m k w = Some (r, w')"
proof -
  from assms(1) obtain r w1 where m: "m w = Some (r, w1)" by blast
  with assms(2) show ?thesis by (cases r) (auto simp: obind_def)
qed

lemma once_ends: "\<exists>r w1. once m w = Some (r, w1)"
  by (cases "m w") (simp add: once_def)

lemma pure_steps:
  "guard D req w = (r, w1) \<Longrightarrow> w1 = w"
  "user_memberships D w = (r', w1) \<Longrightarrow> w1 = w"
  "lift_api x w = (r'', w1) \<Longrightarrow> w1 = w"
  "sensure_api b e w = (r3, w1) \<Longrightarrow> w1 = w"
  by (auto simp: guard_def user_memberships_def lift_api_def sensure_api_def)

lemma first_page: "pagination_args (Some n) None d m = Inr (sz, mode) \<Longrightarrow> sz = nat n \<and> \<not> mode"
  "pagination_args None (Some n) d m = Inr (sz, mode) \<Longrightarrow> sz = nat n \<and> mode"
  by (auto simp: pagination_args_def split: if_splits)

lemma matching_append: "matching s q (xs @ ys) = matching s q xs @ matching s q ys"
  by (simp add: matching_def)

text \<open>The checks before the listing change nothing: they refuse, or the page is read.\<close>

lemma obind_once: "obind (once m) k w = (case m w of (Inl e, w') \<Rightarrow> Some (Inl e, w') | (Inr x, w') \<Rightarrow> k x w')"
  by (simp add: obind_def once_def split: prod.splits sum.splits)

lemma q_tickets_cases:
  obtains e where "q_tickets P D i status who args w = Some (Inl e, w)"
  | rq where "ticket_page_request args = Inr rq"
      "q_tickets P D i status who args w =
         obind (list_tickets P D i (ticket_filter status who) (tr_page rq)) (\<lambda>tickets.
         once (sreturn (build_connection tickets (tr_size rq) (tr_last_mode rq)
           (tp_after (tr_page rq) \<noteq> None) (tp_before (tr_page rq) \<noteq> None) (\<lambda>t. (encode_ticket_cursor t, t))))) w"
proof -
  obtain r1 where 1: "guard D (RequireMember i) w = (r1, w)" by (simp add: guard_def)
  obtain r2 where 2: "user_memberships D w = (r2, w)" by (simp add: user_memberships_def)
  note run = q_tickets_def obind_once 1 2 sensure_api_def sensure_def lift_api_def slift_def
  show ?thesis
  proof (cases r1)
    case (Inl e)
    then show ?thesis by (intro that(1) [of e]) (simp add: run)
  next
    case r1: (Inr u)
    show ?thesis
    proof (cases r2)
      case (Inl e)
      with r1 show ?thesis by (intro that(1) [of e]) (simp add: run)
    next
      case r2: (Inr ms)
      show ?thesis
      proof (cases "status = FilterDeleted \<and> \<not> is_owner ms i")
        case True
        with r1 r2 show ?thesis
          by (intro that(1) [of "Api (forbidden ''Only an owner can list deleted tickets'')"]) (simp add: run)
      next
        case False
        show ?thesis
        proof (cases "ticket_page_request args")
          case (Inl e)
          with r1 r2 False show ?thesis by (intro that(1) [of "Api e"]) (auto simp: run)
        next
          case (Inr rq)
          with r1 r2 False show ?thesis by (intro that(2) [of rq]) (auto simp: run)
        qed
      qed
    qed
  qed
qed

text \<open>What the cursor of the \<open>k\<close>-th ticket decodes to.\<close>

definition nth_cursor :: "ticket list \<Rightarrow> nat \<Rightarrow> string option" where
  "nth_cursor ts k = (if k = 0 then None else Some (encode_ticket_cursor (ts ! (k - 1))))"

lemma nth_cursor_decodes:
  assumes "ticket_list ord s i filt ts" "stamped s" "k \<le> length ts"
  shows "decode_opt decode_ticket_cursor (nth_cursor ts k) = Inr (if k = 0 then None else Some (cursor_of (ts ! (k - 1))))"
proof (cases "k = 0")
  case False
  from assms(1) obtain ks where ks: "listing ord s (newest_first i filt) None ks"
      "mapM hydrate_ticket (matching s (newest_first i filt) ks) = Inr ts" by (auto simp: ticket_list_def)
  obtain it where it: "it \<in> set (matching s (newest_first i filt) ks)" "hydrate_ticket it = Inr (ts ! (k - 1))"
    using mapM_nth [OF ks(2), of "k - 1"] False assms(3) by fastforce
  then obtain j where "s ''ticket'' j = Some it"
    using listed_row [OF ks(1)] by (fastforce simp: matching_def newest_first_def tickets_query_def split: prod.splits)
  with assms(2) obtain n where n: "it ''id'' \<noteq> Some (AS [])" "it ''last_activity_at'' = Some (AN (int n))"
    by (auto simp: stamped_def)
  with hydrate_ticketD [OF it(2)] hydrated_stamp [OF it(2) n(2)]
  have "tkt_id (ts ! (k - 1)) \<noteq> []" "tkt_last_activity_at (ts ! (k - 1)) \<le> u64_max" by (auto simp: u64_max_def)
  then show ?thesis using False by (simp add: decode_opt_def nth_cursor_def ticket_cursor_round_trip cursor_of_def)
qed (simp add: decode_opt_def nth_cursor_def)

context paged_desk begin

text \<open>The rows a page newest first reads after the first \<open>k\<close> tickets.\<close>

lemma tickets_after:
  assumes list: "ticket_list ord (w_db w) i filt ts" and "stamped (w_db w)" "k \<le> length ts" "0 < want"
  shows "\<exists>r n. page_loop pg D hydrate_ticket (tickets_query i filt want False) want (start_after i filt ts k) [] w
      = Some (r, w\<lparr>w_n := n\<rparr>)
    \<and> (\<forall>rows. r = Inr rows \<longrightarrow> (\<exists>j. rows = take j (drop k ts) \<and> (rows = drop k ts \<or> want \<le> length rows)))"
proof -
  let ?q = "newest_first i filt" and ?s = "w_db w"
  from list obtain ks where ks: "listing ord ?s ?q None ks" "mapM hydrate_ticket (matching ?s ?q ks) = Inr ts"
    by (auto simp: ticket_list_def)
  note len = mapM_length [OF ks(2)]
  have "\<exists>m. m \<le> length ks \<and> listing ord ?s ?q (start_after i filt ts k) (drop m ks)
      \<and> matching ?s ?q (drop m ks) = drop k (matching ?s ?q ks)"
  proof (cases "k = 0")
    case True
    with ks show ?thesis by (intro exI [of _ 0]) (simp add: start_after_def)
  next
    case False
    then obtain m where m: "0 < m" "m \<le> length ks" "matching ?s ?q (drop m ks) = drop k (matching ?s ?q ks)"
        "row ?s ?q (ks ! (m - 1)) = matching ?s ?q ks ! (k - 1)"
      using filter_upto [of k "holds (lq_filter ?q)" "row ?s ?q" ks] assms(3) len by (auto simp: matching_def)
    obtain it where it: "?s ''ticket'' (ks ! (m - 1)) = Some it" "row ?s ?q (ks ! (m - 1)) = it" "indexed ?q it"
      using listed_row [OF ks(1), of "ks ! (m - 1)"] m(1,2)
      by (auto simp: newest_first_def tickets_query_def split: prod.splits)
    then obtain n where n: "it ''last_activity_at'' = Some (AN (int n))" using assms(2) by (auto simp: stamped_def)
    have "hydrate_ticket it = Inr (ts ! (k - 1))"
      using mapM_nth [OF ks(2), of "k - 1"] m(4) it(2) False assms(3) by simp
    from ticket_start_key [OF this n it(3)]
    have "start_after i filt ts k = Some (key_of ?q (row ?s ?q (ks ! (m - 1))))" using False it(2) by (simp add: start_after_def)
    with listing_drop [OF ks(1) m(1,2)] m(2,3) show ?thesis by (intro exI [of _ m]) simp
  qed
  then obtain m where m: "listing ord ?s ?q (start_after i filt ts k) (drop m ks)"
      "matching ?s ?q (drop m ks) = drop k (matching ?s ?q ks)" by blast
  have "\<exists>j. rows = take j (drop k ts) \<and> (rows = drop k ts \<or> want \<le> length rows)"
    if "stretch hydrate_ticket ?s ?q (drop m ks) 0 want rows" for rows
  proof -
    from that obtain j where j: "mapM hydrate_ticket (matching ?s ?q (take j (drop m ks))) = Inr rows"
        "j \<le> length (drop m ks)" "j = length (drop m ks) \<or> want \<le> length rows"
      by (auto simp: stretch_def)
    have all: "mapM hydrate_ticket (matching ?s ?q (drop m ks)) = Inr (drop k ts)"
      unfolding m(2) by (rule mapM_drop [OF ks(2)])
    have "matching ?s ?q (drop m ks) = matching ?s ?q (take j (drop m ks)) @ matching ?s ?q (drop j (drop m ks))"
      unfolding matching_append [symmetric] append_take_drop_id ..
    with all j(1) have "\<exists>rest. drop k ts = rows @ rest" by (auto simp: mapM_append dest: sym)
    then obtain rest where "drop k ts = rows @ rest" ..
    moreover have "rows = drop k ts" if "j = length (drop m ks)" using that all j(1) by simp
    ultimately show ?thesis using j(3) by (intro exI [of _ "length rows"]) auto
  qed
  moreover have "lq_limit (tickets_query i filt want False) \<noteq> Some 0"
    using assms(4) by (simp add: tickets_query_limit)
  ultimately show ?thesis
    using page_loop_from [of w "tickets_query i filt want False" "start_after i filt ts k" "drop m ks" hydrate_ticket want "[]"] m(1)
    by (fastforce simp: tickets_query_limit)
qed

end

text \<open>One entry more than the page is enough to see whether there is another page.\<close>

lemma slice_page:
  assumes "rows = take j xs" "rows = xs \<or> Suc m \<le> length rows"
  shows "take m rows = take m xs" "m < length rows \<longleftrightarrow> m < length xs" "\<not> m < length rows \<Longrightarrow> rows = take m rows"
  using assms by (auto simp: min_def split: if_splits)

lemma tickets_requested:
  assumes "ticket_list ord s i f ts" "stamped s" "k \<le> length ts"
    and "ticket_page_request \<lparr>pa_after = nth_cursor ts k, pa_before = None, pa_first = Some n, pa_last = None\<rparr> = Inr rq"
  shows "tr_page rq = \<lparr>tp_after = (if k = 0 then None else Some (cursor_of (ts ! (k - 1)))), tp_before = None,
      tp_limit = Suc (nat n), tp_descending = True\<rparr> \<and> tr_size rq = nat n \<and> \<not> tr_last_mode rq"
  using assms(4) nth_cursor_decodes [OF assms(1-3)] first_page(1)
  by (fastforce simp: ticket_page_request_def decode_opt_def fetch_limit_def split: if_splits)

text \<open>
  C27. Pages are slices. Let \<open>ts\<close> be all tickets of a view, newest activity first. The page asked for
  with \<^verbatim>\<open>first: n\<close> after the cursor of the \<open>k\<close>-th of them is answered, if no call fails, with the
  next \<open>n\<close> tickets in that order, says that there is a next page exactly when tickets remain, and a
  previous one exactly when a cursor was given; and the listing always ends. So following
  \<^verbatim>\<open>endCursor\<close> while \<^verbatim>\<open>hasNextPage\<close> holds shows every ticket exactly once, also for the view
  whose status filter the service applies after it has cut its own pages.
\<close>

theorem ticket_page_is_slice:
  assumes "paged_desk pg ord D" "ticket_list ord (w_db w) i (ticket_filter status who) ts" "stamped (w_db w)"
    and "k \<le> length ts"
  shows "\<exists>r w'. q_tickets pg D i status who \<lparr>pa_after = nth_cursor ts k, pa_before = None, pa_first = Some n, pa_last = None\<rparr> w
      = Some (r, w')
    \<and> (\<forall>conn. r = Inr conn \<longrightarrow>
         cn_edges conn = map (\<lambda>t. (encode_ticket_cursor t, t)) (take (nat n) (drop k ts))
         \<and> (cn_has_next conn \<longleftrightarrow> k + nat n < length ts) \<and> (cn_has_previous conn \<longleftrightarrow> 0 < k))"
proof -
  let ?args = "\<lparr>pa_after = nth_cursor ts k, pa_before = None, pa_first = Some n, pa_last = None\<rparr>"
  let ?filt = "ticket_filter status who"
  note rq = tickets_requested [OF assms(2-4)]
  have start: "map_option (ticket_start i ?filt) (or_else (if k = 0 then None else Some (cursor_of (ts ! (k - 1)))) None)
      = start_after i ?filt ts k"
    by (simp add: start_after_def or_else_def)
  have loop: "\<exists>r m. page_loop pg D hydrate_ticket (tickets_query i ?filt (Suc (nat n)) False) (Suc (nat n)) (start_after i ?filt ts k) [] w
      = Some (r, w\<lparr>w_n := m\<rparr>)
    \<and> (\<forall>rows. r = Inr rows \<longrightarrow> (\<exists>j. rows = take j (drop k ts) \<and> (rows = drop k ts \<or> Suc (nat n) \<le> length rows)))"
    by (rule paged_desk.tickets_after [OF assms]) simp
  have list: "list_tickets pg D i ?filt (tr_page rq) w
      = obind (page_loop pg D hydrate_ticket (tickets_query i ?filt (Suc (nat n)) False) (Suc (nat n)) (start_after i ?filt ts k) [])
          (\<lambda>tickets. once (sreturn tickets)) w"
    if "ticket_page_request ?args = Inr rq" for rq
    using rq [OF that] start by (simp add: list_tickets_def page_scan_direction_def or_else_def)
  show ?thesis
  proof (cases rule: q_tickets_cases [of pg D i status who ?args w])
    case (1 e)
    then show ?thesis by simp
  next
    case (2 rq)
    note run = 2(2) obind_def list [OF 2(1)] and rq = rq [OF 2(1)]
    from loop obtain r m where r: "page_loop pg D hydrate_ticket (tickets_query i ?filt (Suc (nat n)) False) (Suc (nat n))
        (start_after i ?filt ts k) [] w = Some (r, w\<lparr>w_n := m\<rparr>)"
      "\<And>rows. r = Inr rows \<Longrightarrow> \<exists>j. rows = take j (drop k ts) \<and> (rows = drop k ts \<or> Suc (nat n) \<le> length rows)" by blast
    show ?thesis
    proof (cases r)
      case (Inl e)
      then show ?thesis by (simp add: run r(1))
    next
      case (Inr rows)
      from r(2) [OF this] obtain j where j: "rows = take j (drop k ts)" "rows = drop k ts \<or> Suc (nat n) \<le> length rows" by blast
      note slice = slice_page [OF j]
      have more: "nat n < length rows \<longleftrightarrow> k + nat n < length ts" using slice(2) assms(4) by auto
      have page: "let conn = build_connection rows (tr_size rq) (tr_last_mode rq) (tp_after (tr_page rq) \<noteq> None)
            (tp_before (tr_page rq) \<noteq> None) (\<lambda>t. (encode_ticket_cursor t, t))
          in cn_edges conn = map (\<lambda>t. (encode_ticket_cursor t, t)) (take (nat n) (drop k ts))
            \<and> (cn_has_next conn \<longleftrightarrow> k + nat n < length ts) \<and> (cn_has_previous conn \<longleftrightarrow> 0 < k)"
        using rq slice more by (simp add: build_connection_def Let_def)
      have "list_tickets pg D i ?filt (tr_page rq) w = Some (Inr rows, w\<lparr>w_n := m\<rparr>)"
        by (simp add: list [OF 2(1)] obind_def r(1) Inr once_def sreturn_def)
      then show ?thesis using page by (simp add: 2(2) obind_def once_def sreturn_def Let_def)
    qed
  qed
qed

text \<open>
  C29. Backwards pages. A page asked for with \<^verbatim>\<open>last: n\<close> before the cursor of the \<open>k\<close>-th ticket, which by
  the Relay rules is made of tickets that come before it in the list, holds only tickets that come
  after it, if any: in this mode the resolver asks for the ascending order, and
  \<^verbatim>\<open>page_scan_direction\<close> turns an ascending listing with a \<^verbatim>\<open>before\<close> cursor into a descending scan.
  The page also always claims a next page.
\<close>

theorem last_before_wrong_side:
  assumes "paged_desk pg ord D" "ticket_list ord (w_db w) i (ticket_filter status who) ts" "stamped (w_db w)"
    and "0 < k" "k \<le> length ts"
    and "q_tickets pg D i status who \<lparr>pa_after = None, pa_before = nth_cursor ts k, pa_first = None, pa_last = Some n\<rparr> w
      = Some (Inr conn, w')"
  shows "set (map snd (cn_edges conn)) \<subseteq> set (drop k ts) \<and> cn_has_next conn"
proof -
  let ?args = "\<lparr>pa_after = None, pa_before = nth_cursor ts k, pa_first = None, pa_last = Some n\<rparr>"
  let ?filt = "ticket_filter status who"
  note before_c = nth_cursor_decodes [OF assms(2,3,5)]
  from assms(6) obtain rq where req: "ticket_page_request ?args = Inr rq"
    and run: "obind (list_tickets pg D i ?filt (tr_page rq)) (\<lambda>tickets.
         once (sreturn (build_connection tickets (tr_size rq) (tr_last_mode rq)
           (tp_after (tr_page rq) \<noteq> None) (tp_before (tr_page rq) \<noteq> None) (\<lambda>t. (encode_ticket_cursor t, t))))) w
       = Some (Inr conn, w')"
    by (cases rule: q_tickets_cases [of pg D i status who ?args w]) auto
  have rq: "tr_page rq = \<lparr>tp_after = None, tp_before = Some (cursor_of (ts ! (k - 1))), tp_limit = Suc (nat n),
      tp_descending = False\<rparr>" "tr_size rq = nat n" "tr_last_mode rq"
    using req before_c assms(4) first_page(2)
    by (fastforce simp: ticket_page_request_def decode_opt_def fetch_limit_def split: if_splits)+
  have start: "map_option (ticket_start i ?filt) (or_else None (Some (cursor_of (ts ! (k - 1))))) = start_after i ?filt ts k"
    using assms(4) by (simp add: start_after_def or_else_def)
  have "list_tickets pg D i ?filt (tr_page rq)
      = obind (page_loop pg D hydrate_ticket (tickets_query i ?filt (Suc (nat n)) False) (Suc (nat n)) (start_after i ?filt ts k) [])
          (\<lambda>tickets. once (sreturn (rev tickets)))"
    using start by (simp add: rq list_tickets_def page_scan_direction_def)
  with run obtain rows w1 where loop: "page_loop pg D hydrate_ticket (tickets_query i ?filt (Suc (nat n)) False) (Suc (nat n))
      (start_after i ?filt ts k) [] w = Some (Inr rows, w1)"
    and conn: "conn = build_connection (rev rows) (nat n) True False True (\<lambda>t. (encode_ticket_cursor t, t))"
    by (auto simp: obind_Some_Inr once_Some rq)
  from paged_desk.tickets_after [OF assms(1-3,5), of "Suc (nat n)"] loop
  obtain j where "rows = take j (drop k ts)" by auto
  then have "set rows \<subseteq> set (drop k ts)" by (simp add: set_take_subset)
  moreover have "set (take (nat n) (rev rows)) \<subseteq> set rows" using set_take_subset [of "nat n" "rev rows"] by simp
  ultimately show ?thesis by (auto simp: conn build_connection_def Let_def)
qed

text \<open>
  C28. A walk misses nothing. Following the continuation key of a query ends, and what
  \<^verbatim>\<open>query_all_items\<close> answers, if no call fails, are the rows whose attribute has the value, each
  exactly once, whatever pages the service cuts.
\<close>

theorem query_walk_complete:
  assumes "paged_desk pg ord D"
  shows "\<exists>r w'. query_all_items pg D (query_of t h a v) w = Some (r, w') \<and> w_db w' = w_db w
    \<and> (\<forall>its. r = Inr its \<longrightarrow> (\<exists>ks. distinct ks \<and> its = map (\<lambda>k. attrs_of (w_db w t k)) ks
         \<and> set ks = {k. \<exists>it. w_db w t k = Some it \<and> it a = Some (AS v)}))"
proof -
  let ?q = "query_of t h a v"
  have "lq_limit ?q \<noteq> Some 0" by (simp add: query_of_def)
  from paged_desk.walk_ends [OF assms this, of None w] obtain r n where
    r: "walk pg D ?q None [] w = Some (r, w\<lparr>w_n := n\<rparr>)"
      "\<And>its. r = Inr its \<Longrightarrow> \<exists>ks. listing ord (w_db w) ?q None ks \<and> its = matching (w_db w) ?q ks" by blast
  have "\<exists>ks. distinct ks \<and> its = map (\<lambda>k. attrs_of (w_db w t k)) ks
      \<and> set ks = {k. \<exists>it. w_db w t k = Some it \<and> it a = Some (AS v)}" if "r = Inr its" for its
    using r(2) [OF that]
    by (auto simp: listing_def past_def matching_def query_of_def row_def comp_def indexed_keys_def indexed_def)
  with r(1) show ?thesis by (intro exI [of _ r] exI [of _ "w\<lparr>w_n := n\<rparr>"]) (simp add: query_all_items_def)
qed

end
