(* ===== verification/Listing_Demo.thy ===== *)
theory Listing_Demo
  imports Listing_Safety
begin

section \<open>A listing of two tickets\<close>

text \<open>
  A store with an open ticket active at 20 and one active at 10, and the pages of its listing: the
  witnesses of \<open>Listing_Safety\<close>.
\<close>

definition listed_db :: store where
  "listed_db t k =
     (if t = ''ticket'' \<and> k = ''T1'' then Some (ticket_row remdups ''T1'' 20 ''tok1'' ''n1'' 1 ''Printer'' [''a@b.c''] [])
      else if t = ''ticket'' \<and> k = ''T2'' then Some (ticket_row remdups ''T2'' 10 ''tok2'' ''n1'' 2 ''Scanner'' [''a@b.c''] [])
      else None)"

definition listed_world :: world where
  "listed_world = quiet_world\<lparr>w_db := listed_db\<rparr>"

definition listed_ticket :: "string \<Rightarrow> nat \<Rightarrow> string \<Rightarrow> nat \<Rightarrow> string \<Rightarrow> ticket" where
  "listed_ticket i now token number subject =
     \<lparr>tkt_id = i, tkt_instance_id = ''n1'', tkt_number = number, tkt_subject = subject, tkt_status = TOpen,
      tkt_requester_emails = [''a@b.c''], tkt_cc_emails = [], tkt_assignee_user_id = None, tkt_reply_token = token,
      tkt_created_at = now, tkt_updated_at = now, tkt_last_activity_at = now, tkt_has_attachments = False\<rparr>"

definition listed_tickets :: "ticket list" where
  "listed_tickets = [listed_ticket ''T1'' 20 ''tok1'' 1 ''Printer'', listed_ticket ''T2'' 10 ''tok2'' 2 ''Scanner'']"

definition open_tickets :: list_query where
  "open_tickets = newest_first ''n1'' (ByStatus TOpen)"

lemma open_tickets_fields [simp]:
  "lq_table open_tickets = ''ticket''" "lq_hash open_tickets = ''id''"
  "lq_key open_tickets = Some (''instance_status'', ''n1#open'')" "lq_sort open_tickets = Some ''last_activity_at''"
  "lq_forward open_tickets = False" "lq_filter open_tickets = CTrue" "lq_limit open_tickets = Some 1"
  by (simp_all add: open_tickets_def newest_first_def tickets_query_def)

lemma listed_rows [simp]:
  "row listed_db open_tickets ''T1'' = ticket_row remdups ''T1'' 20 ''tok1'' ''n1'' 1 ''Printer'' [''a@b.c''] []"
  "row listed_db open_tickets ''T2'' = ticket_row remdups ''T2'' 10 ''tok2'' ''n1'' 2 ''Scanner'' [''a@b.c''] []"
  by (simp_all add: row_def listed_db_def attrs_of_def)

lemma listed_keys: "indexed_keys listed_db open_tickets = {''T1'', ''T2''}"
  by (auto simp: indexed_keys_def listed_db_def indexed_def ticket_row_fields split: if_splits)

lemma listed_order: "listing ref_ord listed_db open_tickets None [''T1'', ''T2'']"
  by (auto simp: listing_def listed_keys past_def beyond_def ref_ord_def key_rank_def attr_rank_def key_of_def ticket_row_fields)

lemma listed_hydrate:
  "mapM hydrate_ticket (matching listed_db open_tickets [''T1'', ''T2'']) = Inr listed_tickets"
  by (simp add: matching_def hydrate_ticket_def ticket_row_fields row_simps parse_ticket_status_def in_i64_def i64_min_def
      i64_max_def as_u64_def bool_or_def listed_tickets_def listed_ticket_def)

lemma listed_list: "ticket_list ref_ord listed_db ''n1'' (ByStatus TOpen) listed_tickets"
  unfolding ticket_list_def open_tickets_def [symmetric] using listed_order listed_hydrate by blast

lemma listed_stamped: "stamped listed_db"
  by (auto simp: stamped_def listed_db_def ticket_row_fields split: if_splits)

interpretation member: paged_desk ref_pager ref_ord member_desk
  by unfold_locales (simp_all add: member_desk_def quiet_desk_def)

text \<open>The page after the first ticket, and the one before it.\<close>

lemma listed_after: "listing ref_ord listed_db open_tickets (Some (key_of open_tickets (row listed_db open_tickets ''T1''))) [''T2'']"
  using ref_pages.listing_drop [OF listed_order, of 1] by simp

lemma listed_cursor: "nth_cursor listed_tickets 1 = Some ''20:T1''"
proof -
  have "show_nat 20 = ''20''" by code_simp
  then show ?thesis by (simp add: nth_cursor_def listed_tickets_def listed_ticket_def encode_ticket_cursor_def)
qed

lemma listed_start:
  "ticket_start ''n1'' (ByStatus TOpen) \<lparr>tc_last_activity_at = 20, tc_id = ''T1''\<rparr>
     = key_of open_tickets (row listed_db open_tickets ''T1'')"
  by (auto simp: fun_eq_iff ticket_start_def key_of_def ticket_row_fields)

lemma listed_second: "mapM hydrate_ticket (matching listed_db open_tickets [''T2'']) = Inr [listed_tickets ! 1]"
  using mapM_drop [OF listed_hydrate, of 1] by (simp add: matching_def listed_tickets_def)

lemma listed_page:
  "page_loop ref_pager member_desk hydrate_ticket (open_tickets\<lparr>lq_limit := Some 2\<rparr>) 2
     (Some (key_of open_tickets (row listed_db open_tickets ''T1''))) [] listed_world
   = Some (Inr [listed_tickets ! 1], listed_world\<lparr>w_n := 1\<rparr>)"
proof -
  have "ref_pager n listed_db (open_tickets\<lparr>lq_limit := Some 2\<rparr>) (Some (key_of open_tickets (row listed_db open_tickets ''T1'')))
      = Inr (matching listed_db open_tickets [''T2''], None)" for n
    using ref_pager_page [of listed_db "open_tickets\<lparr>lq_limit := Some 2\<rparr>" _ "[''T2'']" n] listed_after
    by (simp add: cut_page_def)
  then have "read_page ref_pager member_desk (open_tickets\<lparr>lq_limit := Some 2\<rparr>)
      (Some (key_of open_tickets (row listed_db open_tickets ''T1''))) listed_world
      = (Inr (matching listed_db open_tickets [''T2''], None), listed_world\<lparr>w_n := 1\<rparr>)"
    by (simp add: member.read_page_step listed_world_def quiet_world_def db_error_of_def)
  then show ?thesis
    by (simp add: page_loop.simps member.read_rows_step hydrate_items_def
        iffD2 [OF mapM_hydrate_item listed_second] db_error_of_def)
qed

text \<open>The request itself, forwards with \<^verbatim>\<open>first: 1\<close> and backwards with \<^verbatim>\<open>last: 1\<close>.\<close>

lemma listed_query: "tickets_query ''n1'' (ByStatus TOpen) 2 False = open_tickets\<lparr>lq_limit := Some 2\<rparr>"
  by (simp add: open_tickets_def tickets_query_limit)

lemma listed_decode: "decode_ticket_cursor ''20:T1'' = Inr \<lparr>tc_last_activity_at = 20, tc_id = ''T1''\<rparr>"
proof -
  have "encode_ticket_cursor (listed_tickets ! 0) = ''20:T1''" using listed_cursor by (simp add: nth_cursor_def)
  with ticket_cursor_round_trip [of "listed_tickets ! 0"] show ?thesis
    by (simp add: listed_tickets_def listed_ticket_def u64_max_def)
qed

lemma obind_step: "m w = (Inr x, w1) \<Longrightarrow> obind (once m) k w = k x w1"
  by (simp add: obind_once)

lemma member_tickets:
  assumes "ticket_page_request args = Inr rq" "list_tickets P member_desk ''n1'' (ByStatus TOpen) (tr_page rq) w = Some (Inr ts, w')"
  shows "q_tickets P member_desk ''n1'' FilterOpen None args w =
     Some (Inr (build_connection ts (tr_size rq) (tr_last_mode rq)
       (tp_after (tr_page rq) \<noteq> None) (tp_before (tr_page rq) \<noteq> None) (\<lambda>t. (encode_ticket_cursor t, t))), w')"
proof -
  have "guard member_desk (RequireMember ''n1'') w = (Inr (), w)"
      "user_memberships member_desk w = (Inr [\<lparr>am_instance_id = ''n1'', am_is_owner = False\<rparr>], w)"
    by (simp_all add: guard_def user_memberships_def slift_def member_desk_def is_member_def)
  note gates = this
  have lift: "lift_api (ticket_page_request args) w = (Inr rq, w)"
    by (simp add: lift_api_def assms(1))
  have ensure: "sensure_api (\<not> (FilterOpen = FilterDeleted \<and> \<not> is_owner ms ''n1'')) e w = (Inr (), w)" for ms e
    by (simp add: sensure_api_def)
  have filt: "ticket_filter FilterOpen None = ByStatus TOpen" by (simp add: ticket_filter_def)
  show ?thesis
    unfolding q_tickets_def obind_step [where m = "guard member_desk (RequireMember ''n1'')" and w = w, OF gates(1)]
      obind_step [where m = "user_memberships member_desk" and w = w, OF gates(2)]
      obind_step [where m = "sensure_api b e" and w = w for b e, OF ensure]
      obind_step [where m = "lift_api (ticket_page_request args)" and w = w, OF lift] filt
    by (simp add: obind_def assms(2) once_def sreturn_def)
qed

lemma listed_list_page:
  assumes "page_scan_direction (a \<noteq> None) (b \<noteq> None) d = (False, turned)"
    and "or_else a b = Some \<lparr>tc_last_activity_at = 20, tc_id = ''T1''\<rparr>"
  shows "list_tickets ref_pager member_desk ''n1'' (ByStatus TOpen)
     \<lparr>tp_after = a, tp_before = b, tp_limit = 2, tp_descending = d\<rparr> listed_world
   = Some (Inr [listed_tickets ! 1], listed_world\<lparr>w_n := 1\<rparr>)"
  unfolding list_tickets_def list_tickets_page.simps assms Let_def prod.case option.map listed_start listed_query obind_def listed_page
  by (simp add: once_def sreturn_def)

lemma listed_requests:
  "ticket_page_request \<lparr>pa_after = Some ''20:T1'', pa_before = None, pa_first = Some 1, pa_last = None\<rparr> =
     Inr \<lparr>tr_page = \<lparr>tp_after = Some \<lparr>tc_last_activity_at = 20, tc_id = ''T1''\<rparr>, tp_before = None, tp_limit = 2,
       tp_descending = True\<rparr>, tr_size = 1, tr_last_mode = False\<rparr>"
  "ticket_page_request \<lparr>pa_after = None, pa_before = Some ''20:T1'', pa_first = None, pa_last = Some 1\<rparr> =
     Inr \<lparr>tr_page = \<lparr>tp_after = None, tp_before = Some \<lparr>tc_last_activity_at = 20, tc_id = ''T1''\<rparr>, tp_limit = 2,
       tp_descending = False\<rparr>, tr_size = 1, tr_last_mode = True\<rparr>"
  by (simp_all add: ticket_page_request_def decode_opt_def listed_decode pagination_args_def MAX_TICKET_PAGE_SIZE_def
      fetch_limit_def)

theorem ticket_page_is_slice_witness:
  "\<exists>conn w'. q_tickets ref_pager member_desk ''n1'' FilterOpen None
     \<lparr>pa_after = nth_cursor listed_tickets 1, pa_before = None, pa_first = Some 1, pa_last = None\<rparr> listed_world
       = Some (Inr conn, w')
   \<and> map snd (cn_edges conn) = [listed_tickets ! 1] \<and> \<not> cn_has_next conn"
proof -
  have "\<exists>conn w'. q_tickets ref_pager member_desk ''n1'' FilterOpen None
     \<lparr>pa_after = nth_cursor listed_tickets 1, pa_before = None, pa_first = Some 1, pa_last = None\<rparr> listed_world
       = Some (Inr conn, w')"
    unfolding listed_cursor
    by (intro exI, rule member_tickets [OF listed_requests(1)], simp only: ticket_request.simps,
        rule listed_list_page [where turned = False]) (simp_all add: page_scan_direction_def or_else_def)
  moreover have "ticket_list ref_ord (w_db listed_world) ''n1'' (ticket_filter FilterOpen None) listed_tickets"
      "stamped (w_db listed_world)" "1 \<le> length listed_tickets"
    using listed_list listed_stamped by (simp_all add: listed_world_def ticket_filter_def listed_tickets_def)
  note ticket_page_is_slice [OF member.paged_desk_axioms this, of 1]
  ultimately show ?thesis by (fastforce simp: listed_tickets_def)
qed

text \<open>Nothing comes before the first ticket; the page holds the one after it.\<close>

theorem last_before_wrong_side_witness:
  "\<exists>conn w'. q_tickets ref_pager member_desk ''n1'' FilterOpen None
     \<lparr>pa_after = None, pa_before = nth_cursor listed_tickets 1, pa_first = None, pa_last = Some 1\<rparr> listed_world
       = Some (Inr conn, w')
   \<and> map snd (cn_edges conn) = [listed_tickets ! 1] \<and> cn_has_next conn"
proof -
  have page: "list_tickets ref_pager member_desk ''n1'' (ByStatus TOpen)
     \<lparr>tp_after = None, tp_before = Some \<lparr>tc_last_activity_at = 20, tc_id = ''T1''\<rparr>, tp_limit = 2, tp_descending = False\<rparr>
     listed_world = Some (Inr [listed_tickets ! 1], listed_world\<lparr>w_n := 1\<rparr>)"
    by (rule listed_list_page [where turned = True]) (simp_all add: page_scan_direction_def or_else_def)
  obtain conn w' where run: "q_tickets ref_pager member_desk ''n1'' FilterOpen None
     \<lparr>pa_after = None, pa_before = nth_cursor listed_tickets 1, pa_first = None, pa_last = Some 1\<rparr> listed_world
       = Some (Inr conn, w')" and one: "length (cn_edges conn) = 1"
    unfolding listed_cursor using member_tickets [OF listed_requests(2)] page by (fastforce simp: build_connection_def)
  have hyps: "ticket_list ref_ord (w_db listed_world) ''n1'' (ticket_filter FilterOpen None) listed_tickets"
      "stamped (w_db listed_world)" "1 \<le> length listed_tickets"
    using listed_list listed_stamped by (simp_all add: listed_world_def ticket_filter_def listed_tickets_def)
  from last_before_wrong_side [OF member.paged_desk_axioms hyps(1,2) _ hyps(3) run]
  have "set (map snd (cn_edges conn)) \<subseteq> {listed_tickets ! 1}" "cn_has_next conn" by (auto simp: listed_tickets_def)
  with one have "map snd (cn_edges conn) = [listed_tickets ! 1]" by (cases "cn_edges conn") auto
  with run \<open>cn_has_next conn\<close> show ?thesis by (intro exI conjI)
qed

theorem query_walk_complete_witness:
  "\<exists>its w'. query_all_items ref_pager member_desk (query_of ''ticket'' ''id'' ''instance_id'' ''n1'') listed_world = Some (Inr its, w')
     \<and> length its = 2"
proof -
  let ?q = "query_of ''ticket'' ''id'' ''instance_id'' ''n1''"
  have keys: "indexed_keys listed_db ?q = {''T1'', ''T2''}"
    by (auto simp: indexed_keys_def listed_db_def indexed_def query_of_def ticket_row_fields split: if_splits)
  have "listing ref_ord listed_db ?q None [''T1'', ''T2'']"
    unfolding listing_def keys
    by (auto simp: past_def beyond_def ref_ord_def key_rank_def attr_rank_def key_of_def query_of_def row_def
        listed_db_def attrs_of_def ticket_row_fields)
  from ref_pager_page [OF this] have "ref_pager n listed_db ?q None = Inr (matching listed_db ?q [''T1'', ''T2''], None)" for n
    by (simp add: cut_page_def query_of_def)
  then have "\<exists>its w'. query_all_items ref_pager member_desk ?q listed_world = Some (Inr its, w')"
    by (simp add: query_all_items_def walk.simps member.read_page_step listed_world_def db_error_of_def)
  then obtain its w' where run: "query_all_items ref_pager member_desk ?q listed_world = Some (Inr its, w')" by blast
  with query_walk_complete [OF member.paged_desk_axioms, of "''ticket''" "''id''" "''instance_id''" "''n1''" listed_world]
  obtain ks where ks: "distinct ks" "length its = length ks"
      "set ks = {k. \<exists>it. listed_db ''ticket'' k = Some it \<and> it ''instance_id'' = Some (AS ''n1'')}"
    by (auto simp: listed_world_def)
  have "set ks = {''T1'', ''T2''}" unfolding ks(3) by (auto simp: listed_db_def ticket_row_fields split: if_splits)
  with distinct_card [OF ks(1)] ks(2) have "length its = 2" by simp
  with run show ?thesis by (intro exI conjI)
qed

end
