(* ===== verification/Invoice_Layout.thy ===== *)
theory Invoice_Layout
  imports Complex_Main Rust_Str
begin

section \<open>Wrapping text into lines\<close>

text \<open>
  The first half of \<^verbatim>\<open>invoicing/pdf.rs\<close>: how the text of an invoice is cut into lines that fit a
  column. Widths come from the embedded font; the definitions take the function \<open>W\<close> that
  \<^verbatim>\<open>Metrics::width\<close> is (text, size, bold), and the lemmas hold for every such function, so also for the
  one with \<^verbatim>\<open>f32\<close> rounding. \<open>metrics_width\<close> is that function in exact arithmetic, with the font
  file's tables as the parameter \<open>face\<close>.
\<close>

type_synonym metrics = "string \<Rightarrow> rat \<Rightarrow> bool \<Rightarrow> rat"

subsection \<open>Characters, lines\<close>

text \<open>\<^verbatim>\<open>chars()\<close>: the bytes of each character, whose number the first byte says.\<close>

definition char_bytes :: "char \<Rightarrow> nat" where
  "char_bytes c =
     (let n = (of_char c :: nat) in if n < 192 then 1 else if n < 224 then 2 else if n < 240 then 3 else 4)"

function utf8_chars :: "string \<Rightarrow> string list" where
  "utf8_chars [] = []"
| "utf8_chars (c # s) = (c # take (char_bytes c - 1) s) # utf8_chars (drop (char_bytes c - 1) s)"
  by pat_completeness auto
termination
  by (relation "measure length") auto

text \<open>\<^verbatim>\<open>split\<close> at a character and \<^verbatim>\<open>lines()\<close>, which also takes a carriage return before the line feed.\<close>

function split_on :: "char \<Rightarrow> string \<Rightarrow> string list" where
  "split_on c s = (case split_once c s of None \<Rightarrow> [s] | Some (a, b) \<Rightarrow> a # split_on c b)"
  by pat_completeness auto
termination
  by (relation "measure (\<lambda>(c, s). length s)") (auto dest!: split_once_SomeD sym [of "Some _"])

definition strip_cr :: "string \<Rightarrow> string" where
  "strip_cr s = (if ends_with_char (CHR 0x0D) s then butlast s else s)"

function str_lines :: "string \<Rightarrow> string list" where
  "str_lines s =
     (case split_once (CHR 0x0A) s of
        None \<Rightarrow> if s = [] then [] else [s]
      | Some (a, b) \<Rightarrow> strip_cr a # str_lines b)"
  by pat_completeness auto
termination
  by (relation "measure length") (auto dest!: split_once_SomeD sym [of "Some _"])

declare split_on.simps [simp del] str_lines.simps [simp del]

subsection \<open>Widths\<close>

record face =
  fc_units_per_em :: rat
  fc_advance :: "string \<Rightarrow> rat option"

definition metrics_width :: "face \<Rightarrow> face \<Rightarrow> metrics" where
  "metrics_width regular bold_face txt sz bold =
     (let face = (if bold then bold_face else regular)
      in sum_list (map (\<lambda>c. case fc_advance face c of
                              Some advance \<Rightarrow> advance / fc_units_per_em face * sz
                            | None \<Rightarrow> sz * 0.5) (utf8_chars txt)))"

subsection \<open>Wrapping\<close>

fun break_chars :: "metrics \<Rightarrow> rat \<Rightarrow> rat \<Rightarrow> string list \<Rightarrow> string \<Rightarrow> string list \<Rightarrow> string list" where
  "break_chars W max_width sz [] current chunks = (if current = [] then chunks else chunks @ [current])"
| "break_chars W max_width sz (ch # chs) current chunks =
     (if current = [] \<or> W (current @ ch) sz False \<le> max_width
      then break_chars W max_width sz chs (current @ ch) chunks
      else break_chars W max_width sz chs ch (chunks @ [current]))"

definition break_word :: "metrics \<Rightarrow> string \<Rightarrow> rat \<Rightarrow> rat \<Rightarrow> string list" where
  "break_word W word max_width sz = break_chars W max_width sz (utf8_chars word) [] []"

fun wrap_words :: "metrics \<Rightarrow> rat \<Rightarrow> rat \<Rightarrow> string list \<Rightarrow> string \<Rightarrow> string list \<Rightarrow> string list" where
  "wrap_words W max_width sz [] current lines =
     (if current \<noteq> [] \<or> lines = [] then lines @ [current] else lines)"
| "wrap_words W max_width sz (word # ws) current lines =
     (if W word sz False > max_width then
        wrap_words W max_width sz ws []
          ((if current = [] then lines else lines @ [current]) @ break_word W word max_width sz)
      else
        (let candidate = (if current = [] then word else current @ '' '' @ word)
         in if current = [] \<or> W candidate sz False \<le> max_width
            then wrap_words W max_width sz ws candidate lines
            else wrap_words W max_width sz ws word (lines @ [current])))"

definition wrap_line :: "metrics \<Rightarrow> string \<Rightarrow> rat \<Rightarrow> rat \<Rightarrow> string list" where
  "wrap_line W txt max_width sz = wrap_words W max_width sz (split_whitespace txt) [] []"

definition wrap_text_lines :: "metrics \<Rightarrow> string \<Rightarrow> rat \<Rightarrow> rat \<Rightarrow> string list" where
  "wrap_text_lines W txt max_width sz = concat (map (\<lambda>line. wrap_line W line max_width sz) (str_lines txt))"

subsection \<open>Descriptions\<close>

definition BODY_FONT_SIZE :: rat where "BODY_FONT_SIZE = 10"
definition BULLET_INDENT :: rat where "BULLET_INDENT = 12"

record desc_line =
  dl_text :: string
  dl_indent :: rat
  dl_bullet_start :: bool

definition strip_bullet :: "string \<Rightarrow> string option" where
  "strip_bullet raw_line =
     (case strip_prefix ''* '' raw_line of Some rest \<Rightarrow> Some rest | None \<Rightarrow> strip_prefix ''- '' raw_line)"

definition layout_line :: "metrics \<Rightarrow> rat \<Rightarrow> string \<Rightarrow> desc_line list" where
  "layout_line W max_width raw_line =
     (let (bullet, content, indent) =
            (case strip_bullet raw_line of Some rest \<Rightarrow> (True, rest, BULLET_INDENT) | None \<Rightarrow> (False, raw_line, 0));
          available = max (max_width - indent) 10
      in map (\<lambda>(i, txt). \<lparr>dl_text = txt, dl_indent = indent, dl_bullet_start = bullet \<and> i = 0\<rparr>)
           (enumerate 0 (wrap_line W content available BODY_FONT_SIZE)))"

definition layout_description :: "metrics \<Rightarrow> string \<Rightarrow> rat \<Rightarrow> desc_line list" where
  "layout_description W description max_width = concat (map (layout_line W max_width) (split_on (CHR 0x0A) description))"

subsection \<open>Nothing is lost, every line fits\<close>

lemma concat_utf8_chars [simp]: "concat (utf8_chars s) = s"
  by (induction s rule: utf8_chars.induct) auto

lemma utf8_chars_single: "c \<in> set (utf8_chars s) \<Longrightarrow> utf8_chars c = [c]"
  by (induction s rule: utf8_chars.induct) auto

lemma utf8_chars_ne: "[] \<notin> set (utf8_chars s)"
  by (induction s rule: utf8_chars.induct) auto

definition fits :: "metrics \<Rightarrow> rat \<Rightarrow> rat \<Rightarrow> string \<Rightarrow> bool" where
  "fits W max_width sz line \<longleftrightarrow> line = [] \<or> W line sz False \<le> max_width \<or> length (utf8_chars line) = 1"

lemma fits_Nil [simp]: "fits W m sz []"
  by (simp add: fits_def)

lemma concat_break_chars: "concat (break_chars W m sz chs cur chunks) = concat chunks @ cur @ concat chs"
  by (induction W m sz chs cur chunks rule: break_chars.induct) auto

lemma concat_break_word [simp]: "concat (break_word W word m sz) = word"
  by (simp add: break_word_def concat_break_chars)

lemma break_chars_fit:
  assumes "fits W m sz cur" "list_all (fits W m sz) chunks" "list_all (\<lambda>c. utf8_chars c = [c]) chs"
  shows "list_all (fits W m sz) (break_chars W m sz chs cur chunks)"
  using assms by (induction W m sz chs cur chunks rule: break_chars.induct) (auto simp: fits_def)

lemma break_word_fits: "list_all (fits W m sz) (break_word W word m sz)"
  unfolding break_word_def
  by (rule break_chars_fit) (auto simp: list_all_iff utf8_chars_single)

lemma break_word_ne: "word \<noteq> [] \<Longrightarrow> break_word W word m sz \<noteq> []"
  using concat_break_word [of W word m sz] by fastforce

text \<open>
  A line is some pieces joined by single spaces; the pieces of the lines, in order, are the words of
  the text, a word that is too wide cut into its chunks.
\<close>

fun unwords :: "string list \<Rightarrow> string" where
  "unwords [] = []"
| "unwords [w] = w"
| "unwords (w # v # ws) = w @ '' '' @ unwords (v # ws)"

definition pieces :: "metrics \<Rightarrow> rat \<Rightarrow> rat \<Rightarrow> string list \<Rightarrow> string list" where
  "pieces W m sz ws = concat (map (\<lambda>w. if W w sz False > m then break_word W w m sz else [w]) ws)"

lemma pieces_simps [simp]:
  "pieces W m sz [] = []"
  "pieces W m sz (w # ws) = (if W w sz False > m then break_word W w m sz else [w]) @ pieces W m sz ws"
  by (simp_all add: pieces_def)

lemma unwords_snoc: "g \<noteq> [] \<Longrightarrow> unwords (g @ [w]) = unwords g @ '' '' @ w"
  by (induction g rule: unwords.induct) auto

lemma unwords_ne: "g \<noteq> [] \<Longrightarrow> [] \<notin> set g \<Longrightarrow> unwords g \<noteq> []"
  by (cases g rule: unwords.cases) auto

lemma map_unwords_single [simp]: "map (unwords \<circ> (\<lambda>w. [w])) xs = xs"
  by (induction xs) auto

lemma wrap_words_groups:
  assumes "[] \<notin> set ws" "[] \<notin> set g" "cur = unwords g" "lines = map unwords gs"
  shows "\<exists>gs'. wrap_words W m sz ws cur lines = map unwords gs' \<and> concat gs' = concat gs @ g @ pieces W m sz ws"
  using assms
proof (induction ws arbitrary: g gs cur lines)
  case Nil
  show ?case
  proof (cases "cur \<noteq> [] \<or> lines = []")
    case True
    with Nil show ?thesis by (intro exI [of _ "gs @ [g]"]) auto
  next
    case False
    with Nil unwords_ne [of g] have "g = []" by auto
    with Nil False show ?thesis by (intro exI [of _ gs]) auto
  qed
next
  case (Cons w ws)
  have w: "w \<noteq> []" "[] \<notin> set ws" using Cons.prems by auto
  have cur: "cur = [] \<longleftrightarrow> g = []" using Cons.prems unwords_ne [of g] by auto
  show ?case
  proof (cases "W w sz False > m")
    case True
    let ?bs = "break_word W w m sz"
    let ?gs = "(if g = [] then gs else gs @ [g]) @ map (\<lambda>b. [b]) ?bs"
    have "(if cur = [] then lines else lines @ [cur]) @ ?bs = map unwords ?gs"
      using Cons.prems cur by auto
    from Cons.IH [OF w(2) _ _ this, of "[]" "[]"] obtain gs' where
      "wrap_words W m sz ws [] ((if cur = [] then lines else lines @ [cur]) @ ?bs) = map unwords gs'"
      "concat gs' = concat ?gs @ pieces W m sz ws" by auto
    with True show ?thesis by (intro exI [of _ gs']) (auto simp: concat_map_singleton)
  next
    case False
    let ?cand = "if cur = [] then w else cur @ '' '' @ w"
    show ?thesis
    proof (cases "cur = [] \<or> W ?cand sz False \<le> m")
      case True
      have "?cand = unwords (g @ [w])" using Cons.prems cur unwords_snoc [of g w] by auto
      from Cons.IH [OF w(2) _ this Cons.prems(4)] Cons.prems w(1) False True show ?thesis
        by (auto simp: Let_def)
    next
      case F: False
      have "lines @ [cur] = map unwords (gs @ [g])" using Cons.prems by simp
      from Cons.IH [OF w(2) _ _ this, of "[w]" w] w(1) False F show ?thesis
        by (auto simp: Let_def)
    qed
  qed
qed

lemma wrap_words_fit:
  assumes "fits W m sz cur" "list_all (fits W m sz) lines"
  shows "list_all (fits W m sz) (wrap_words W m sz ws cur lines)"
  using assms
proof (induction ws arbitrary: cur lines)
  case (Cons w ws)
  show ?case
  proof (cases "W w sz False > m")
    case True
    with Cons.prems have "list_all (fits W m sz) ((if cur = [] then lines else lines @ [cur]) @ break_word W w m sz)"
      using break_word_fits [of W m sz w] by auto
    from Cons.IH [OF _ this, of "[]"] True show ?thesis by simp
  next
    case False
    then have "fits W m sz w" by (auto simp: fits_def)
    moreover have "list_all (fits W m sz) (lines @ [cur])" using Cons.prems by simp
    moreover have "fits W m sz (cur @ '' '' @ w)" if "W (cur @ '' '' @ w) sz False \<le> m"
      using that by (simp add: fits_def)
    ultimately show ?thesis using False Cons by (auto simp: Let_def)
  qed
qed auto

lemma split_whitespace_ne: "[] \<notin> set (split_whitespace s)"
  by (simp add: split_whitespace_def words_from_ne)

lemma wrap_words_ne: "lines \<noteq> [] \<or> [] \<notin> set ws \<Longrightarrow> wrap_words W m sz ws cur lines \<noteq> []"
  by (induction W m sz ws cur lines rule: wrap_words.induct) (auto simp: Let_def break_word_ne)

lemma wrap_line_ne: "wrap_line W txt m sz \<noteq> []"
  by (simp add: wrap_line_def wrap_words_ne split_whitespace_ne)

end
