(* ===== verification/Invoice_Pdf.thy ===== *)
theory Invoice_Pdf
  imports Invoice_Layout Snapshot
begin

section \<open>Drawing an invoice\<close>

text \<open>
  The second half of \<^verbatim>\<open>invoicing/pdf.rs\<close>: the header block, the table, the totals and the payment
  details, drawn from top to bottom with page breaks. A \<open>canvas\<close> is the document so far: the page
  that is drawn on and the calls made to \<^verbatim>\<open>printpdf\<close>, each with its page. Coordinates are points
  from the bottom of the page, as exact rationals; the source has \<^verbatim>\<open>f32\<close>, and every number that
  decides on a page break is an integer, which \<^verbatim>\<open>f32\<close> holds exactly. The embedding of the fonts
  and the writing of the file are \<^verbatim>\<open>printpdf\<close>'s, the parameter \<open>pdf_lib\<close>.
\<close>

subsection \<open>Geometry\<close>

definition PAGE_W_PT :: rat where "PAGE_W_PT = 595.28"
definition PAGE_H_PT :: rat where "PAGE_H_PT = 841.89"
definition MARGIN_LEFT :: rat where "MARGIN_LEFT = 57"
definition MARGIN_RIGHT :: rat where "MARGIN_RIGHT = 538"
definition BOTTOM_MARGIN :: rat where "BOTTOM_MARGIN = 50"
definition CONTINUATION_TOP :: rat where "CONTINUATION_TOP = 780"
definition TITLE_Y :: rat where "TITLE_Y = 755"
definition TITLE_SIZE :: rat where "TITLE_SIZE = 30"
definition COLUMNS_TOP :: rat where "COLUMNS_TOP = 705"
definition COLUMN_FONT_SIZE :: rat where "COLUMN_FONT_SIZE = 14"
definition COLUMN_LINE_HEIGHT :: rat where "COLUMN_LINE_HEIGHT = 16"
definition TABLE_TOP_GAP :: rat where "TABLE_TOP_GAP = 28"
definition PAGE_MID :: rat where "PAGE_MID = PAGE_W_PT / 2"
definition COLUMN_GUTTER :: rat where "COLUMN_GUTTER = 12"
definition LEFT_COLUMN_MAX_WIDTH :: rat where "LEFT_COLUMN_MAX_WIDTH = PAGE_MID - COLUMN_GUTTER - MARGIN_LEFT"
definition RIGHT_COLUMN_MAX_WIDTH :: rat where "RIGHT_COLUMN_MAX_WIDTH = MARGIN_RIGHT - (PAGE_MID + COLUMN_GUTTER)"
definition PAYMENT_CONTENT_WIDTH :: rat where "PAYMENT_CONTENT_WIDTH = MARGIN_RIGHT - MARGIN_LEFT"
definition COL_DESC_X0 :: rat where "COL_DESC_X0 = MARGIN_LEFT"
definition COL_DESC_X1 :: rat where "COL_DESC_X1 = 342"
definition COL_QTY_X1 :: rat where "COL_QTY_X1 = 408"
definition COL_PRICE_X1 :: rat where "COL_PRICE_X1 = 473"
definition COL_TOTAL_X1 :: rat where "COL_TOTAL_X1 = MARGIN_RIGHT"
definition CELL_PAD :: rat where "CELL_PAD = 6"
definition HEADER_ROW_HEIGHT :: rat where "HEADER_ROW_HEIGHT = 22"
definition HEADER_FONT_SIZE :: rat where "HEADER_FONT_SIZE = 12"
definition BODY_LINE_HEIGHT :: rat where "BODY_LINE_HEIGHT = 13"
definition ROW_V_PAD :: rat where "ROW_V_PAD = 8"
definition TOTALS_FONT_SIZE :: rat where "TOTALS_FONT_SIZE = 12"
definition TOTALS_LINE_HEIGHT :: rat where "TOTALS_LINE_HEIGHT = 16"
definition NOTE_FONT_SIZE :: rat where "NOTE_FONT_SIZE = 14"
definition PAYMENT_FONT_SIZE :: rat where "PAYMENT_FONT_SIZE = 12"
definition PAYMENT_LINE_HEIGHT :: rat where "PAYMENT_LINE_HEIGHT = 14"

type_synonym colour = "rat \<times> rat \<times> rat"

definition HEADER_FILL :: colour where "HEADER_FILL = (0.74, 0.75, 0.75)"
definition BODY_FILL :: colour where "BODY_FILL = (0.86, 0.86, 0.86)"
definition black :: colour where "black = (0, 0, 0)"

lemmas page_geometry =
  BOTTOM_MARGIN_def CONTINUATION_TOP_def TITLE_Y_def COLUMNS_TOP_def COLUMN_LINE_HEIGHT_def TABLE_TOP_GAP_def
  HEADER_ROW_HEIGHT_def HEADER_FONT_SIZE_def BODY_LINE_HEIGHT_def ROW_V_PAD_def TOTALS_LINE_HEIGHT_def
  PAYMENT_LINE_HEIGHT_def BODY_FONT_SIZE_def

subsection \<open>The canvas\<close>

datatype draw_op =
    SetFill colour
  | FillRect rat rat rat rat
  | UseText (op_text: string) (op_size: rat) (op_x: rat) (op_y: rat) (op_bold: bool)

record canvas =
  cv_page :: nat
  cv_ops :: "(nat \<times> draw_op) list"

definition emit :: "draw_op \<Rightarrow> canvas \<Rightarrow> canvas" where
  "emit d cv = cv\<lparr>cv_ops := cv_ops cv @ [(cv_page cv, d)]\<rparr>"

definition draw_left :: "bool \<Rightarrow> string \<Rightarrow> rat \<Rightarrow> rat \<Rightarrow> rat \<Rightarrow> canvas \<Rightarrow> canvas" where
  "draw_left bold txt sz x y cv = (if txt = [] then cv else emit (UseText txt sz x y bold) cv)"

definition draw_right :: "metrics \<Rightarrow> bool \<Rightarrow> string \<Rightarrow> rat \<Rightarrow> rat \<Rightarrow> rat \<Rightarrow> canvas \<Rightarrow> canvas" where
  "draw_right W bold txt sz right_x y cv =
     (if txt = [] then cv else emit (UseText txt sz (right_x - W txt sz bold) y bold) cv)"

definition fill_rect :: "rat \<Rightarrow> rat \<Rightarrow> rat \<Rightarrow> rat \<Rightarrow> colour \<Rightarrow> canvas \<Rightarrow> canvas" where
  "fill_rect x0 y0 x1 y1 col cv = emit (FillRect x0 y0 x1 y1) (emit (SetFill col) cv)"

text \<open>A new page, and the check before it: what comes next is \<open>h\<close> high.\<close>

definition add_page :: "canvas \<Rightarrow> canvas \<times> rat" where
  "add_page cv = (cv\<lparr>cv_page := cv_page cv + 1\<rparr>, CONTINUATION_TOP)"

definition page_break :: "rat \<Rightarrow> canvas \<times> rat \<Rightarrow> canvas \<times> rat" where
  "page_break h = (\<lambda>(cv, y). if y - h < BOTTOM_MARGIN then add_page cv else (cv, y))"

subsection \<open>The table\<close>

definition row_height :: "nat \<Rightarrow> rat" where
  "row_height desc_lines = of_nat (max desc_lines 1) * BODY_LINE_HEIGHT + ROW_V_PAD"

definition draw_table_header :: "metrics \<Rightarrow> string \<Rightarrow> canvas \<times> rat \<Rightarrow> canvas \<times> rat" where
  "draw_table_header W currency = (\<lambda>(cv, y).
     (let text_y = y - HEADER_ROW_HEIGHT / 2 - HEADER_FONT_SIZE * 0.36;
          cv = fill_rect MARGIN_LEFT (y - HEADER_ROW_HEIGHT) MARGIN_RIGHT y HEADER_FILL cv;
          cv = emit (SetFill black) cv;
          cv = draw_left True ''Description'' HEADER_FONT_SIZE (COL_DESC_X0 + CELL_PAD) text_y cv
      in (fold (\<lambda>(label, right_x). draw_right W True label HEADER_FONT_SIZE (right_x - CELL_PAD) text_y)
            [(''Quantity'', COL_QTY_X1), (''Unit Price'', COL_PRICE_X1), (currency, COL_TOTAL_X1)] cv,
          y - HEADER_ROW_HEIGHT)))"

definition bullet_glyph :: string where "bullet_glyph = [CHR 0xE2, CHR 0x80, CHR 0xA2]"

definition draw_desc_line :: "desc_line \<Rightarrow> canvas \<times> rat \<Rightarrow> canvas \<times> rat" where
  "draw_desc_line dl = (\<lambda>(cv, line_y).
     (let base_x = COL_DESC_X0 + CELL_PAD + dl_indent dl;
          cv = (if dl_bullet_start dl
                then draw_left False bullet_glyph BODY_FONT_SIZE (base_x - BULLET_INDENT * 0.6) line_y cv else cv)
      in (draw_left False (dl_text dl) BODY_FONT_SIZE base_x line_y cv, line_y - BODY_LINE_HEIGHT)))"

definition first_baseline :: "rat \<Rightarrow> rat" where
  "first_baseline y = y - ROW_V_PAD / 2 - BODY_FONT_SIZE * 0.36"

definition draw_table_row :: "metrics \<Rightarrow> snapshot_line \<Rightarrow> desc_line list \<Rightarrow> canvas \<times> rat \<Rightarrow> canvas \<times> rat" where
  "draw_table_row W line desc_lines = (\<lambda>(cv, y).
     (let row_bottom = y - row_height (length desc_lines);
          cv = emit (SetFill black) (fill_rect MARGIN_LEFT row_bottom MARGIN_RIGHT y BODY_FILL cv);
          first_line_y = first_baseline y;
          (cv, line_y) = fold draw_desc_line desc_lines (cv, first_line_y);
          cv = draw_right W False (line_quantity line) BODY_FONT_SIZE (COL_QTY_X1 - CELL_PAD) first_line_y cv;
          cv = draw_right W False (format_cents (line_unit_price_cents line)) BODY_FONT_SIZE
                 (COL_PRICE_X1 - CELL_PAD) first_line_y cv;
          cv = draw_right W False (format_cents (line_amount line)) BODY_FONT_SIZE
                 (COL_TOTAL_X1 - CELL_PAD) first_line_y cv
      in (cv, row_bottom)))"

subsection \<open>The header block\<close>

definition format_ddmmyyyy :: "string \<Rightarrow> string" where
  "format_ddmmyyyy iso_date = (case split_on (CHR ''-'') iso_date of [y, m, d] \<Rightarrow> d @ ''/'' @ m @ ''/'' @ y | _ \<Rightarrow> iso_date)"

text \<open>A row of a column: nothing, or a text and whether it is bold.\<close>

type_synonym header_row = "(string \<times> bool) option"

definition plain_rows :: "metrics \<Rightarrow> string \<Rightarrow> rat \<Rightarrow> header_row list" where
  "plain_rows W txt max_width = map (\<lambda>line. Some (line, False)) (wrap_text_lines W txt max_width COLUMN_FONT_SIZE)"

definition nonempty :: "string option \<Rightarrow> string option" where
  "nonempty t = (case t of Some [] \<Rightarrow> None | _ \<Rightarrow> t)"

definition rows_of :: "string option \<Rightarrow> (string \<Rightarrow> header_row list) \<Rightarrow> header_row list" where
  "rows_of t f = (case nonempty t of None \<Rightarrow> [] | Some s \<Rightarrow> f s)"

definition build_left_column_rows :: "metrics \<Rightarrow> invoice_snapshot \<Rightarrow> rat \<Rightarrow> header_row list" where
  "build_left_column_rows W snap max_width =
     [Some (''Invoice date: '' @ format_ddmmyyyy (unwrap_or [] (snap_issue_date snap)), False),
      Some (''Invoice number: '' @ unwrap_or ''Draft'' (snap_display_number snap), False),
      None,
      Some (''Invoice to'', True)]
     @ plain_rows W (bill_name (snap_bill_to snap)) max_width
     @ rows_of (bill_abn (snap_bill_to snap)) (\<lambda>abn. plain_rows W (''ABN: '' @ abn) max_width)
     @ rows_of (bill_address (snap_bill_to snap)) (\<lambda>address. plain_rows W address max_width)
     @ rows_of (snap_reference snap) (\<lambda>reference.
         [None, Some (''Reference'', True)] @ plain_rows W reference max_width)"

definition build_right_column_rows :: "metrics \<Rightarrow> invoice_snapshot \<Rightarrow> rat \<Rightarrow> header_row list" where
  "build_right_column_rows W snap max_width =
     (let seller = snap_seller snap in
      rows_of (sel_name seller) (\<lambda>name. plain_rows W name max_width)
      @ rows_of (sel_address seller) (\<lambda>address. plain_rows W address max_width)
      @ (if nonempty (sel_phone seller) \<noteq> None \<or> nonempty (sel_email seller) \<noteq> None
         then [None, Some (''Contact'', True)]
           @ rows_of (sel_phone seller) (\<lambda>phone. plain_rows W phone max_width)
           @ rows_of (sel_email seller) (\<lambda>email. plain_rows W email max_width)
         else [])
      @ rows_of (sel_abn seller) (\<lambda>abn. [None, Some (''ABN'', True)] @ plain_rows W abn max_width))"

text \<open>\<^verbatim>\<open>rows.get(i)\<close>: no row and an empty row draw nothing.\<close>

definition row_at :: "header_row list \<Rightarrow> nat \<Rightarrow> header_row" where
  "row_at rows i = (if i < length rows then rows ! i else None)"

definition draw_header_row ::
    "metrics \<Rightarrow> header_row list \<Rightarrow> header_row list \<Rightarrow> nat \<Rightarrow> canvas \<times> rat \<Rightarrow> canvas \<times> rat" where
  "draw_header_row W left_rows right_rows i st =
     (let (cv, y) = page_break COLUMN_LINE_HEIGHT st;
          cv = emit (SetFill black) cv;
          cv = (case row_at left_rows i of None \<Rightarrow> cv
                | Some (txt, bold) \<Rightarrow> draw_left bold txt COLUMN_FONT_SIZE MARGIN_LEFT y cv);
          cv = (case row_at right_rows i of None \<Rightarrow> cv
                | Some (txt, bold) \<Rightarrow> draw_right W bold txt COLUMN_FONT_SIZE MARGIN_RIGHT y cv)
      in (cv, y - COLUMN_LINE_HEIGHT))"

definition draw_header_block :: "metrics \<Rightarrow> invoice_snapshot \<Rightarrow> canvas \<Rightarrow> canvas \<times> rat" where
  "draw_header_block W snap cv =
     (let cv = draw_left True (snap_title snap) TITLE_SIZE MARGIN_LEFT TITLE_Y (emit (SetFill black) cv);
          left_rows = build_left_column_rows W snap LEFT_COLUMN_MAX_WIDTH;
          right_rows = build_right_column_rows W snap RIGHT_COLUMN_MAX_WIDTH;
          (cv, y) = fold (draw_header_row W left_rows right_rows) [0 ..< max (length left_rows) (length right_rows)]
                      (cv, COLUMNS_TOP)
      in (cv, y - TABLE_TOP_GAP))"

subsection \<open>Totals, notes, payment details\<close>

definition draw_total_line :: "metrics \<Rightarrow> bool \<times> string \<Rightarrow> canvas \<times> rat \<Rightarrow> canvas \<times> rat" where
  "draw_total_line W = (\<lambda>(bold, txt) st.
     (let (cv, y) = page_break TOTALS_LINE_HEIGHT st
      in (draw_right W bold txt TOTALS_FONT_SIZE MARGIN_RIGHT y (emit (SetFill black) cv), y - TOTALS_LINE_HEIGHT)))"

definition total_lines :: "invoice_snapshot \<Rightarrow> (bool \<times> string) list" where
  "total_lines snap =
     (if snap_gst_registered snap
      then [(False, ''Subtotal '' @ snap_currency snap @ ''   '' @ format_cents (snap_subtotal_cents snap)),
            (False, ''GST (10%)   '' @ format_cents (snap_gst_cents snap))]
      else [])
     @ [(True, ''Total '' @ snap_currency snap @ ''   '' @ format_cents (snap_total_cents snap))]"

definition draw_totals :: "metrics \<Rightarrow> invoice_snapshot \<Rightarrow> canvas \<times> rat \<Rightarrow> canvas \<times> rat" where
  "draw_totals W snap = fold (draw_total_line W) (total_lines snap)"

text \<open>One text line at the left margin, on the next page if it does not fit.\<close>

definition draw_note_line :: "rat \<Rightarrow> rat \<Rightarrow> string \<Rightarrow> canvas \<times> rat \<Rightarrow> canvas \<times> rat" where
  "draw_note_line height sz txt st =
     (let (cv, y) = page_break height st
      in (draw_left False txt sz MARGIN_LEFT y (emit (SetFill black) cv), y - height))"

definition draw_notes_and_payment :: "metrics \<Rightarrow> invoice_snapshot \<Rightarrow> canvas \<times> rat \<Rightarrow> canvas \<times> rat" where
  "draw_notes_and_payment W snap = (\<lambda>(cv, y).
     (let st = (emit (SetFill black) cv, y);
          st = (if snap_no_gst_note snap
                then draw_note_line COLUMN_LINE_HEIGHT NOTE_FONT_SIZE ''No GST has been charged.'' (fst st, snd st - 8)
                else st)
      in (case nonempty (snap_payment_details snap) of
            None \<Rightarrow> st
          | Some details \<Rightarrow>
              fold (draw_note_line PAYMENT_LINE_HEIGHT PAYMENT_FONT_SIZE)
                (wrap_text_lines W details PAYMENT_CONTENT_WIDTH PAYMENT_FONT_SIZE) (fst st, snd st - 12))))"

subsection \<open>The document\<close>

definition desc_width :: rat where "desc_width = COL_DESC_X1 - COL_DESC_X0 - 2 * CELL_PAD"

definition draw_line :: "metrics \<Rightarrow> string \<Rightarrow> snapshot_line \<Rightarrow> canvas \<times> rat \<Rightarrow> canvas \<times> rat" where
  "draw_line W currency line = (\<lambda>(cv, y).
     (let desc_lines = layout_description W (line_description line) desc_width;
          needed = row_height (length desc_lines);
          st = (if y - needed < BOTTOM_MARGIN then draw_table_header W currency (add_page cv) else (cv, y))
      in draw_table_row W line desc_lines st))"

definition draw_invoice :: "metrics \<Rightarrow> invoice_snapshot \<Rightarrow> canvas" where
  "draw_invoice W snap =
     (let st = draw_header_block W snap \<lparr>cv_page = 1, cv_ops = []\<rparr>;
          st = draw_table_header W (snap_currency snap) (page_break HEADER_ROW_HEIGHT st);
          st = fold (draw_line W (snap_currency snap)) (snap_lines snap) st;
          st = draw_totals W snap (fst st, snd st - 10)
      in fst (draw_notes_and_payment W snap st))"

subsection \<open>The date stamped on the file\<close>

definition days_from_civil :: "int \<Rightarrow> int \<Rightarrow> int \<Rightarrow> int" where
  "days_from_civil y m d =
     (let y = (if m \<le> 2 then wrap_i64 (y - 1) else y);
          era = quot (if y \<ge> 0 then y else wrap_i64 (y - 399)) 400;
          yoe = y - era * 400;
          mp = (m + 9) mod 12;
          doy = quot (153 * mp + 2) 5 + d - 1;
          doe = yoe * 365 + quot yoe 4 - quot yoe 100 + doy
      in wrap_i64 (wrap_i64 (wrap_i64 (era * 146097) + doe) - 719468))"

text \<open>\<^verbatim>\<open>parse::<i64>\<close> and \<^verbatim>\<open>parse::<u32>\<close>.\<close>

definition parse_i64 :: "string \<Rightarrow> int option" where
  "parse_i64 s =
     (case (case strip_prefix ''-'' s of
              Some r \<Rightarrow> map_option (\<lambda>n. - int n) (parse_nat r)
            | None \<Rightarrow> map_option int (parse_nat (unwrap_or s (strip_prefix ''+'' s)))) of
        Some n \<Rightarrow> if in_i64 n then Some n else None
      | None \<Rightarrow> None)"

definition parse_u32 :: "string \<Rightarrow> nat option" where
  "parse_u32 s =
     (case parse_nat (unwrap_or s (strip_prefix ''+'' s)) of
        Some n \<Rightarrow> if n \<le> u32_max then Some n else None
      | None \<Rightarrow> None)"

definition midnight_utc_unix_timestamp :: "string \<Rightarrow> int option" where
  "midnight_utc_unix_timestamp iso_date =
     (case split_on (CHR ''-'') iso_date of
        [y, m, d] \<Rightarrow>
          (case (parse_i64 y, parse_u32 m, parse_u32 d) of
             (Some year, Some month, Some day) \<Rightarrow>
               Some (wrap_i64 (days_from_civil year (int month) (int day) * 86400))
           | _ \<Rightarrow> None)
      | _ \<Rightarrow> None)"

text \<open>\<open>in_range\<close> is the range of \<^verbatim>\<open>OffsetDateTime::from_unix_timestamp\<close>.\<close>

definition document_datetime :: "(int \<Rightarrow> bool) \<Rightarrow> invoice_snapshot \<Rightarrow> int" where
  "document_datetime in_range snap =
     (let timestamp = unwrap_or 0 (Option.bind (snap_issue_date snap) midnight_utc_unix_timestamp)
      in if in_range timestamp then timestamp else 0)"

record pdf_lib =
  pl_regular :: "string + face"
  pl_bold :: "string + face"
  pl_embed :: "bool \<Rightarrow> string + unit"
  pl_in_range :: "int \<Rightarrow> bool"
  pl_save :: "string \<Rightarrow> int \<Rightarrow> canvas \<Rightarrow> string + string"

definition render_invoice_pdf :: "pdf_lib \<Rightarrow> invoice_snapshot \<Rightarrow> string + string" where
  "render_invoice_pdf L snap =
     rbind (map_err (\<lambda>e. ''parsing embedded Liberation Sans Regular: '' @ e) (pl_regular L)) (\<lambda>regular.
     rbind (map_err (\<lambda>e. ''parsing embedded Liberation Sans Bold: '' @ e) (pl_bold L)) (\<lambda>bold_face.
     rbind (map_err (\<lambda>e. ''embedding Liberation Sans Regular: '' @ e) (pl_embed L False)) (\<lambda>_.
     rbind (map_err (\<lambda>e. ''embedding Liberation Sans Bold: '' @ e) (pl_embed L True)) (\<lambda>_.
     map_err (\<lambda>e. ''saving rendered invoice PDF: '' @ e)
       (pl_save L (snap_title snap) (document_datetime (pl_in_range L) snap)
          (draw_invoice (metrics_width regular bold_face) snap))))))"

end
