(* ===== verification/Pdf_Safety.thy ===== *)
theory Pdf_Safety
  imports Invoice_Pdf
begin

section \<open>What an invoice's pages hold\<close>

text \<open>
  The claims of the head comment of \<^verbatim>\<open>invoicing/pdf.rs\<close>: text is wrapped without losing any, every
  line of every block is drawn, in order, and nothing is drawn below the bottom margin. The last one
  holds only while no single table row is taller than a page.
\<close>

subsection \<open>The texts drawn\<close>

definition texts :: "canvas \<Rightarrow> string list" where
  "texts cv = concat (map (\<lambda>(p, d). case d of UseText t sz x y b \<Rightarrow> [t] | _ \<Rightarrow> []) (cv_ops cv))"

definition shown :: "string \<Rightarrow> string list" where
  "shown t = (if t = [] then [] else [t])"

lemma texts_simps [simp]:
  "texts (emit (SetFill c) cv) = texts cv"
  "texts (emit (UseText t sz x y b) cv) = texts cv @ [t]"
  "texts (draw_left b t sz x y cv) = texts cv @ shown t"
  "texts (draw_right W b t sz x y cv) = texts cv @ shown t"
  "texts (fill_rect x0 y0 x1 y1 c cv) = texts cv"
  "texts (fst (add_page cv)) = texts cv"
  "texts \<lparr>cv_page = n, cv_ops = []\<rparr> = []"
  by (simp_all add: texts_def emit_def draw_left_def draw_right_def fill_rect_def add_page_def shown_def)

lemma texts_page_break [simp]: "texts (fst (page_break h st)) = texts (fst st)"
  by (cases st) (simp add: page_break_def)

subsection \<open>Where they are drawn\<close>

definition on_page :: "draw_op \<Rightarrow> bool" where
  "on_page d = (case d of UseText t sz x y b \<Rightarrow> BOTTOM_MARGIN \<le> y \<and> y \<le> CONTINUATION_TOP
                | FillRect x0 y0 x1 y1 \<Rightarrow> BOTTOM_MARGIN \<le> y0 \<and> y1 \<le> CONTINUATION_TOP
                | SetFill c \<Rightarrow> True)"

definition placed :: "canvas \<Rightarrow> bool" where
  "placed cv \<longleftrightarrow> list_all (\<lambda>(p, d). on_page d) (cv_ops cv)"

lemma placed_emit [simp]: "placed (emit d cv) \<longleftrightarrow> placed cv \<and> on_page d"
  by (auto simp: placed_def emit_def)

lemma placed_draw:
  "placed (draw_left b t sz x y cv) \<longleftrightarrow> placed cv \<and> (t = [] \<or> BOTTOM_MARGIN \<le> y \<and> y \<le> CONTINUATION_TOP)"
  "placed (draw_right W b t sz x y cv) \<longleftrightarrow> placed cv \<and> (t = [] \<or> BOTTOM_MARGIN \<le> y \<and> y \<le> CONTINUATION_TOP)"
  "placed (fill_rect x0 y0 x1 y1 c cv) \<longleftrightarrow> placed cv \<and> BOTTOM_MARGIN \<le> y0 \<and> y1 \<le> CONTINUATION_TOP"
  by (auto simp: draw_left_def draw_right_def fill_rect_def on_page_def)

text \<open>The cursor after a page break: there is room for what was asked.\<close>

definition in_flow :: "canvas \<times> rat \<Rightarrow> bool" where
  "in_flow st \<longleftrightarrow> placed (fst st) \<and> snd st \<le> CONTINUATION_TOP"

lemma flow_page_break:
  assumes "in_flow st" "h \<le> 730"
  shows "in_flow (page_break h st)" "BOTTOM_MARGIN \<le> snd (page_break h st) - h"
  using assms by (auto simp: in_flow_def page_break_def add_page_def placed_def page_geometry split: prod.splits)

lemma fold_keeps:
  assumes "\<And>x st. x \<in> set xs \<Longrightarrow> P st \<Longrightarrow> P (f x st)"
  shows "P st \<Longrightarrow> P (fold f xs st)"
  using assms by (induction xs arbitrary: st) auto

lemma fold_texts:
  assumes "\<And>x st. texts (fst (f x st)) = texts (fst st) @ g x"
  shows "texts (fst (fold f xs st)) = texts (fst st) @ concat (map g xs)"
  using assms by (induction xs arbitrary: st) auto

subsection \<open>The blocks\<close>

definition header_labels :: "string \<Rightarrow> string list" where
  "header_labels currency = [''Description'', ''Quantity'', ''Unit Price''] @ shown currency"

lemma table_header:
  "texts (fst (draw_table_header W currency st)) = texts (fst st) @ header_labels currency"
  "snd (draw_table_header W currency st) = snd st - 22"
  "in_flow st \<Longrightarrow> 72 \<le> snd st \<Longrightarrow> in_flow (draw_table_header W currency st)"
  by (auto simp: draw_table_header_def header_labels_def in_flow_def placed_draw on_page_def page_geometry Let_def shown_def
           split: prod.splits)

definition desc_texts :: "desc_line \<Rightarrow> string list" where
  "desc_texts dl = (if dl_bullet_start dl then [bullet_glyph] else []) @ shown (dl_text dl)"

lemma desc_line_texts: "texts (fst (draw_desc_line dl st)) = texts (fst st) @ desc_texts dl"
  by (auto simp: draw_desc_line_def desc_texts_def Let_def bullet_glyph_def shown_def split: prod.splits)

lemma desc_line_y: "snd (draw_desc_line dl st) = snd st - 13"
  by (auto simp: draw_desc_line_def page_geometry Let_def split: prod.splits)

lemma desc_line_placed:
  "placed (fst st) \<Longrightarrow> BOTTOM_MARGIN \<le> snd st \<Longrightarrow> snd st \<le> CONTINUATION_TOP \<Longrightarrow> placed (fst (draw_desc_line dl st))"
  by (auto simp: draw_desc_line_def placed_draw Let_def split: prod.splits)

lemma desc_lines_y: "snd (fold draw_desc_line dls st) = snd st - 13 * of_nat (length dls)"
  by (induction dls arbitrary: st) (auto simp: desc_line_y algebra_simps)

lemma desc_lines_placed:
  assumes "placed (fst st)" "BOTTOM_MARGIN \<le> snd st - 13 * of_nat (length dls) + 13" "snd st \<le> CONTINUATION_TOP"
  shows "placed (fst (fold draw_desc_line dls st))"
  using assms
proof (induction dls arbitrary: st)
  case (Cons dl dls)
  have "(0 :: rat) \<le> of_nat (length dls)" by simp
  with Cons.prems have "placed (fst (draw_desc_line dl st))"
    by (intro desc_line_placed) (auto simp: algebra_simps)
  with Cons.prems show ?case
    by (auto intro!: Cons.IH simp: desc_line_y algebra_simps)
qed simp

definition row_texts :: "snapshot_line \<Rightarrow> desc_line list \<Rightarrow> string list" where
  "row_texts line dls = concat (map desc_texts dls) @ shown (line_quantity line)
     @ [format_cents (line_unit_price_cents line), format_cents (line_amount line)]"

lemma format_cents_ne [simp]: "format_cents n \<noteq> []"
  by (simp add: format_cents_def Let_def)

lemma row_height_alt: "row_height n = 13 * of_nat (max n 1) + 8"
  by (simp add: row_height_def page_geometry)

lemma table_row:
  "texts (fst (draw_table_row W line dls st)) = texts (fst st) @ row_texts line dls"
  "snd (draw_table_row W line dls st) = snd st - row_height (length dls)"
  "in_flow st \<Longrightarrow> BOTTOM_MARGIN \<le> snd st - row_height (length dls) \<Longrightarrow> in_flow (draw_table_row W line dls st)"
proof -
  obtain cv y where st: "st = (cv, y)" by (cases st)
  let ?cv = "emit (SetFill black) (fill_rect MARGIN_LEFT (y - row_height (length dls)) MARGIN_RIGHT y BODY_FILL cv)"
  let ?y = "first_baseline y"
  obtain cv' y' where f: "fold draw_desc_line dls (?cv, ?y) = (cv', y')" by (cases "fold draw_desc_line dls (?cv, ?y)")
  have "texts cv' = texts cv @ concat (map desc_texts dls)"
    using fold_texts [of draw_desc_line desc_texts dls "(?cv, ?y)"] f by (simp add: desc_line_texts)
  then show "texts (fst (draw_table_row W line dls st)) = texts (fst st) @ row_texts line dls"
    by (simp add: st draw_table_row_def Let_def f row_texts_def shown_def)
  show "snd (draw_table_row W line dls st) = snd st - row_height (length dls)"
    by (simp add: st draw_table_row_def Let_def f)
  assume a: "in_flow st" "BOTTOM_MARGIN \<le> snd st - row_height (length dls)"
  have h: "13 * of_nat (length dls) + 8 \<le> row_height (length dls)" "21 \<le> row_height (length dls)"
    unfolding row_height_alt by simp_all
  have "placed cv'"
    using desc_lines_placed [of "(?cv, ?y)" dls] a h f
    by (simp add: st in_flow_def placed_draw on_page_def first_baseline_def page_geometry algebra_simps)
  moreover have "BOTTOM_MARGIN \<le> first_baseline y" "first_baseline y \<le> CONTINUATION_TOP" "snd st - row_height (length dls) \<le> CONTINUATION_TOP"
    using a h by (simp_all add: st in_flow_def first_baseline_def page_geometry)
  ultimately show "in_flow (draw_table_row W line dls st)"
    by (simp add: st draw_table_row_def Let_def f in_flow_def placed_draw)
qed

definition row_shown :: "header_row \<Rightarrow> string list" where
  "row_shown r = (case r of None \<Rightarrow> [] | Some (t, b) \<Rightarrow> shown t)"

lemma header_row:
  "texts (fst (draw_header_row W ls rs i st)) = texts (fst st) @ row_shown (row_at ls i) @ row_shown (row_at rs i)"
  by (auto simp: draw_header_row_def row_shown_def split: prod.splits option.splits dest!: arg_cong [of "page_break _ _" _ "\<lambda>s. texts (fst s)"])

lemma header_row_flow: "in_flow st \<Longrightarrow> in_flow (draw_header_row W ls rs i st)"
proof -
  assume "in_flow st"
  from flow_page_break [OF this, of 16] show ?thesis
    by (cases "page_break 16 st")
      (auto simp: draw_header_row_def Let_def in_flow_def placed_draw on_page_def COLUMN_LINE_HEIGHT_def
        split: prod.splits option.splits)
qed

definition header_rows :: "metrics \<Rightarrow> invoice_snapshot \<Rightarrow> header_row list \<times> header_row list" where
  "header_rows W snap = (build_left_column_rows W snap LEFT_COLUMN_MAX_WIDTH, build_right_column_rows W snap RIGHT_COLUMN_MAX_WIDTH)"

definition header_texts :: "header_row list \<times> header_row list \<Rightarrow> string list" where
  "header_texts = (\<lambda>(ls, rs). concat (map (\<lambda>i. row_shown (row_at ls i) @ row_shown (row_at rs i))
     [0 ..< max (length ls) (length rs)]))"

definition start_canvas :: canvas where "start_canvas = \<lparr>cv_page = 1, cv_ops = []\<rparr>"

lemma header_block:
  "texts (fst (draw_header_block W snap start_canvas)) = shown (snap_title snap) @ header_texts (header_rows W snap)"
  "in_flow (draw_header_block W snap start_canvas)"
proof -
  let ?ls = "build_left_column_rows W snap LEFT_COLUMN_MAX_WIDTH"
  let ?rs = "build_right_column_rows W snap RIGHT_COLUMN_MAX_WIDTH"
  let ?cv = "draw_left True (snap_title snap) TITLE_SIZE MARGIN_LEFT TITLE_Y (emit (SetFill black) start_canvas)"
  let ?xs = "[0 ..< max (length ?ls) (length ?rs)]"
  obtain cv y where f: "fold (draw_header_row W ?ls ?rs) ?xs (?cv, COLUMNS_TOP) = (cv, y)"
    by (cases "fold (draw_header_row W ?ls ?rs) ?xs (?cv, COLUMNS_TOP)")
  have "texts ?cv = shown (snap_title snap)" by (simp add: start_canvas_def)
  with fold_texts [of "draw_header_row W ?ls ?rs", OF header_row, of ?xs "(?cv, COLUMNS_TOP)"] f
  show "texts (fst (draw_header_block W snap start_canvas)) = shown (snap_title snap) @ header_texts (header_rows W snap)"
    by (simp add: draw_header_block_def Let_def header_texts_def header_rows_def)
  have "placed start_canvas" by (simp add: placed_def start_canvas_def)
  then have "in_flow (?cv, COLUMNS_TOP)"
    by (simp add: in_flow_def placed_draw on_page_def page_geometry)
  with fold_keeps [of ?xs in_flow "draw_header_row W ?ls ?rs", OF header_row_flow] f have "in_flow (cv, y)" by force
  with f show "in_flow (draw_header_block W snap start_canvas)"
    by (simp add: draw_header_block_def Let_def in_flow_def TABLE_TOP_GAP_def)
qed

lemma total_line:
  "texts (fst (draw_total_line W bt st)) = texts (fst st) @ shown (snd bt)"
  "in_flow st \<Longrightarrow> in_flow (draw_total_line W bt st)"
proof -
  obtain cv y where p: "page_break TOTALS_LINE_HEIGHT st = (cv, y)" by (cases "page_break TOTALS_LINE_HEIGHT st")
  then show "texts (fst (draw_total_line W bt st)) = texts (fst st) @ shown (snd bt)"
    using texts_page_break [of TOTALS_LINE_HEIGHT st] by (cases bt) (simp add: draw_total_line_def)
  assume "in_flow st"
  from flow_page_break [OF this, of TOTALS_LINE_HEIGHT] p show "in_flow (draw_total_line W bt st)"
    by (cases bt) (simp add: draw_total_line_def in_flow_def placed_draw on_page_def page_geometry)
qed

lemma note_line:
  "texts (fst (draw_note_line h sz t st)) = texts (fst st) @ shown t"
  "in_flow st \<Longrightarrow> 0 \<le> h \<Longrightarrow> h \<le> 730 \<Longrightarrow> in_flow (draw_note_line h sz t st)"
proof -
  obtain cv y where p: "page_break h st = (cv, y)" by (cases "page_break h st")
  then show "texts (fst (draw_note_line h sz t st)) = texts (fst st) @ shown t"
    using texts_page_break [of h st] by (simp add: draw_note_line_def)
  assume "in_flow st" "0 \<le> h" "h \<le> 730"
  with flow_page_break [OF this(1,3)] p show "in_flow (draw_note_line h sz t st)"
    by (auto simp: draw_note_line_def in_flow_def placed_draw on_page_def)
qed

definition payment_lines :: "metrics \<Rightarrow> invoice_snapshot \<Rightarrow> string list" where
  "payment_lines W snap =
     (case nonempty (snap_payment_details snap) of None \<Rightarrow> []
      | Some details \<Rightarrow> wrap_text_lines W details PAYMENT_CONTENT_WIDTH PAYMENT_FONT_SIZE)"

definition note_texts :: "metrics \<Rightarrow> invoice_snapshot \<Rightarrow> string list" where
  "note_texts W snap = (if snap_no_gst_note snap then [''No GST has been charged.''] else [])
     @ concat (map shown (payment_lines W snap))"

lemma in_flow_down: "in_flow (cv, y) \<Longrightarrow> 0 \<le> d \<Longrightarrow> in_flow (cv, y - d)"
  by (simp add: in_flow_def)

lemma notes_and_payment:
  "texts (fst (draw_notes_and_payment W snap st)) = texts (fst st) @ note_texts W snap"
  "in_flow st \<Longrightarrow> in_flow (draw_notes_and_payment W snap st)"
proof -
  obtain cv y where st: "st = (cv, y)" by (cases st)
  let ?st = "(emit (SetFill black) cv, y)"
  let ?f = "draw_note_line PAYMENT_LINE_HEIGHT PAYMENT_FONT_SIZE"
  define s' where "s' = (if snap_no_gst_note snap
     then draw_note_line COLUMN_LINE_HEIGHT NOTE_FONT_SIZE ''No GST has been charged.'' (fst ?st, snd ?st - 8) else ?st)"
  have t: "texts (fst s') = texts cv @ (if snap_no_gst_note snap then [''No GST has been charged.''] else [])"
    by (simp add: s'_def note_line shown_def)
  have eq: "draw_notes_and_payment W snap st =
      (case nonempty (snap_payment_details snap) of None \<Rightarrow> s'
       | Some details \<Rightarrow> fold ?f (wrap_text_lines W details PAYMENT_CONTENT_WIDTH PAYMENT_FONT_SIZE) (fst s', snd s' - 12))"
    by (auto simp: draw_notes_and_payment_def st Let_def s'_def split: option.splits)
  show "texts (fst (draw_notes_and_payment W snap st)) = texts (fst st) @ note_texts W snap"
    unfolding eq using t by (simp add: note_texts_def payment_lines_def st fold_texts [of ?f, OF note_line(1)] split: option.splits)
  assume "in_flow st"
  then have b: "in_flow (emit (SetFill black) cv, z)" if "z \<le> y" for z
    using that by (simp add: st in_flow_def on_page_def)
  have f1: "in_flow s'"
    using note_line(2) [OF b, of "y - 8" COLUMN_LINE_HEIGHT NOTE_FONT_SIZE] b [of y]
    by (simp add: s'_def COLUMN_LINE_HEIGHT_def)
  then have "in_flow (fst s', snd s' - 12)" by (simp add: in_flow_def)
  then have "in_flow (fold ?f xs (fst s', snd s' - 12))" for xs
    by (rule fold_keeps [rotated]) (auto intro!: note_line(2) simp: PAYMENT_LINE_HEIGHT_def)
  with f1 show "in_flow (draw_notes_and_payment W snap st)" unfolding eq by (simp split: option.splits)
qed

subsection \<open>The whole document\<close>

definition line_layout :: "metrics \<Rightarrow> snapshot_line \<Rightarrow> desc_line list" where
  "line_layout W line = layout_description W (line_description line) desc_width"

text \<open>A row fits a page below a repeated table header if it has at most 53 description lines.\<close>

lemma short_row: "n \<le> 53 \<Longrightarrow> row_height n \<le> 708"
  unfolding row_height_alt by (simp add: max_def del: of_nat_max)

lemma line_flow:
  assumes "in_flow st" "length (line_layout W line) \<le> 53"
  shows "in_flow (draw_line W currency line st)"
proof -
  obtain cv y where st: "st = (cv, y)" by (cases st)
  let ?h = "row_height (length (line_layout W line))"
  have h: "?h \<le> 708" by (rule short_row [OF assms(2)])
  have page: "in_flow (add_page cv)" "snd (add_page cv) = 780"
    using assms(1) by (auto simp: st in_flow_def add_page_def placed_def page_geometry)
  let ?st = "if y - ?h < BOTTOM_MARGIN then draw_table_header W currency (add_page cv) else (cv, y)"
  have "in_flow ?st" "BOTTOM_MARGIN \<le> snd ?st - ?h"
    using assms(1) st h page table_header(3) [OF page(1)] by (auto simp: table_header(2) BOTTOM_MARGIN_def)
  then show ?thesis
    using table_row(3) [of ?st "line_layout W line"] by (simp add: draw_line_def st Let_def line_layout_def)
qed

lemma line_texts:
  "\<exists>brk. texts (fst (draw_line W currency line st))
     = texts (fst st) @ (if brk then header_labels currency else []) @ row_texts line (line_layout W line)"
proof -
  obtain cv y where st: "st = (cv, y)" by (cases st)
  show ?thesis
    by (rule exI [of _ "y - row_height (length (line_layout W line)) < BOTTOM_MARGIN"])
      (simp add: draw_line_def st Let_def line_layout_def table_row table_header)
qed

definition table_texts :: "metrics \<Rightarrow> string \<Rightarrow> bool list \<Rightarrow> snapshot_line list \<Rightarrow> string list" where
  "table_texts W currency brks lines = concat (map (\<lambda>(brk, line).
     (if brk then header_labels currency else []) @ row_texts line (line_layout W line)) (zip brks lines))"

lemma lines_texts:
  "\<exists>brks. length brks = length lines \<and>
     texts (fst (fold (draw_line W currency) lines st)) = texts (fst st) @ table_texts W currency brks lines"
proof (induction lines arbitrary: st)
  case (Cons line lines)
  obtain brk where b: "texts (fst (draw_line W currency line st))
     = texts (fst st) @ (if brk then header_labels currency else []) @ row_texts line (line_layout W line)"
    using line_texts by blast
  obtain brks where "length brks = length lines"
    "texts (fst (fold (draw_line W currency) lines (draw_line W currency line st)))
       = texts (fst (draw_line W currency line st)) @ table_texts W currency brks lines"
    using Cons.IH by blast
  with b show ?case by (intro exI [of _ "brk # brks"]) (auto simp: table_texts_def)
qed (simp add: table_texts_def)

lemma draw_invoice_alt:
  "draw_invoice W snap =
     (let st = draw_table_header W (snap_currency snap) (page_break HEADER_ROW_HEIGHT (draw_header_block W snap start_canvas));
          st = fold (draw_line W (snap_currency snap)) (snap_lines snap) st;
          st = fold (draw_total_line W) (total_lines snap) (fst st, snd st - 10)
      in fst (draw_notes_and_payment W snap st))"
  by (simp add: draw_invoice_def start_canvas_def draw_totals_def Let_def)

text \<open>
  Wrapping. Whatever the font, the lines are groups of pieces joined by single spaces, and the pieces
  are the words of the text in order, where a word too wide for the column is cut into chunks that
  make up the word; each line fits the column, or is a single character.
\<close>

theorem wrap_line_exact:
  "\<exists>groups. wrap_line W txt max_width sz = map unwords groups
     \<and> concat groups = concat (map (\<lambda>w. if W w sz False > max_width then break_word W w max_width sz else [w]) (split_whitespace txt))
     \<and> concat (break_word W word max_width sz) = word
     \<and> list_all (fits W max_width sz) (wrap_line W txt max_width sz)"
proof -
  from wrap_words_groups [of "split_whitespace txt" "[]" "[]" "[]" "[]" W max_width sz] show ?thesis
    by (auto simp: wrap_line_def split_whitespace_ne pieces_def intro!: wrap_words_fit)
qed

text \<open>
  The texts drawn are, in this order: the title, the two columns row by row, the table's labels, each
  line's laid out description, quantity, price and amount (the labels again where a page begins), the
  totals, and the notes.
\<close>

lemma texts_in_order:
  "\<exists>brks. length brks = length (snap_lines snap)
     \<and> texts (draw_invoice W snap) =
         shown (snap_title snap) @ header_texts (header_rows W snap) @ header_labels (snap_currency snap)
         @ table_texts W (snap_currency snap) brks (snap_lines snap)
         @ concat (map (shown \<circ> snd) (total_lines snap)) @ note_texts W snap"
proof -
  let ?st = "draw_table_header W (snap_currency snap) (page_break HEADER_ROW_HEIGHT (draw_header_block W snap start_canvas))"
  obtain brks where "length brks = length (snap_lines snap)"
    "texts (fst (fold (draw_line W (snap_currency snap)) (snap_lines snap) ?st))
       = texts (fst ?st) @ table_texts W (snap_currency snap) brks (snap_lines snap)"
    using lines_texts by blast
  then show ?thesis
    by (intro exI [of _ brks])
      (simp add: draw_invoice_alt Let_def notes_and_payment fold_texts [OF total_line(1)] table_header header_block comp_def)
qed

text \<open>
  C35. The bottom margin. If no description takes more than 53 lines, everything is drawn between the
  bottom margin and the top of the writing area.
\<close>

theorem invoice_within_margins:
  assumes "list_all (\<lambda>line. length (layout_description W (line_description line) desc_width) \<le> 53) (snap_lines snap)"
  shows "placed (draw_invoice W snap)"
proof -
  let ?st = "draw_table_header W (snap_currency snap) (page_break HEADER_ROW_HEIGHT (draw_header_block W snap start_canvas))"
  have p: "in_flow (page_break HEADER_ROW_HEIGHT (draw_header_block W snap start_canvas))"
    "BOTTOM_MARGIN \<le> snd (page_break HEADER_ROW_HEIGHT (draw_header_block W snap start_canvas)) - HEADER_ROW_HEIGHT"
    using flow_page_break [OF header_block(2)] by (simp_all add: HEADER_ROW_HEIGHT_def)
  then have "in_flow ?st" by (intro table_header(3)) (simp_all add: page_geometry)
  then have "in_flow (fold (draw_line W (snap_currency snap)) (snap_lines snap) ?st)" (is "in_flow ?st2")
    by (rule fold_keeps [rotated]) (use assms in \<open>auto intro!: line_flow simp: list_all_iff line_layout_def\<close>)
  then have "in_flow (fst ?st2, snd ?st2 - 10)" by (simp add: in_flow_def)
  then have "in_flow (fold (draw_total_line W) (total_lines snap) (fst ?st2, snd ?st2 - 10))"
    by (rule fold_keeps [rotated]) (rule total_line(2))
  from notes_and_payment(2) [OF this] show ?thesis
    by (simp add: draw_invoice_alt Let_def in_flow_def)
qed

end
