(* ===== verification/Pdf_Limits.thy ===== *)
theory Pdf_Limits
  imports Pdf_Safety
begin

section \<open>Tall rows, dates, examples\<close>

text \<open>
  A row taller than a page is drawn off it; the day number stamped on the file is that of the
  calendar; and examples of the drawing on a concrete invoice.
\<close>

subsection \<open>A row taller than a page\<close>

definition drawn :: "canvas \<Rightarrow> (nat \<times> draw_op) set" where
  "drawn cv = set (cv_ops cv)"

lemma drawn_emit [simp]: "drawn (emit d cv) = insert (cv_page cv, d) (drawn cv)"
  by (auto simp: drawn_def emit_def)

lemma drawn_keeps [intro]:
  "e \<in> drawn cv \<Longrightarrow> e \<in> drawn (draw_left b t sz x y cv)"
  "e \<in> drawn cv \<Longrightarrow> e \<in> drawn (draw_right W b t sz x y cv)"
  "e \<in> drawn cv \<Longrightarrow> e \<in> drawn (fill_rect x0 y0 x1 y1 c cv)"
  "e \<in> drawn cv \<Longrightarrow> e \<in> drawn (fst (add_page cv))"
  "e \<in> drawn (fst st) \<Longrightarrow> e \<in> drawn (fst (page_break h st))"
  by (auto simp: draw_left_def draw_right_def fill_rect_def add_page_def page_break_def drawn_def emit_def split: prod.splits)

text \<open>A step only adds to what is drawn, and keeps the cursor below the top of the writing area.\<close>

definition adds :: "(canvas \<times> rat \<Rightarrow> canvas \<times> rat) \<Rightarrow> bool" where
  "adds f \<longleftrightarrow> (\<forall>st. drawn (fst st) \<subseteq> drawn (fst (f st)))"

lemma addsD: "adds f \<Longrightarrow> e \<in> drawn (fst st) \<Longrightarrow> e \<in> drawn (fst (f st))"
  unfolding adds_def by blast

lemma adds_fold: "(\<And>x. adds (f x)) \<Longrightarrow> adds (fold f xs)"
proof (induction xs)
  case (Cons x xs)
  then show ?case unfolding adds_def by (metis comp_apply fold_Cons subset_trans)
qed (simp add: adds_def)

lemma adds_desc_line: "adds (draw_desc_line dl)"
  by (auto simp: adds_def draw_desc_line_def Let_def split: prod.splits)

lemma desc_line_at:
  assumes "k < length dls" "dl_text (dls ! k) \<noteq> []"
  shows "\<exists>p x. (p, UseText (dl_text (dls ! k)) BODY_FONT_SIZE x (snd st - 13 * of_nat k) False)
     \<in> drawn (fst (fold draw_desc_line dls st))"
  using assms
proof (induction dls arbitrary: st k)
  case (Cons dl dls)
  show ?case
  proof (cases k)
    case 0
    with Cons.prems have "\<exists>p x. (p, UseText (dl_text dl) BODY_FONT_SIZE x (snd st) False) \<in> drawn (fst (draw_desc_line dl st))"
      by (auto simp: draw_desc_line_def draw_left_def Let_def split: prod.splits)
    with 0 show ?thesis using addsD [OF adds_fold [of draw_desc_line, OF adds_desc_line]] by fastforce
  next
    case (Suc j)
    with Cons.prems Cons.IH [of j "draw_desc_line dl st"] show ?thesis
      by (simp add: desc_line_y algebra_simps)
  qed
qed simp

lemma desc_row_at:
  assumes "k < length dls" "dl_text (dls ! k) \<noteq> []"
  shows "\<exists>p x y. y = snd st - 7.6 - 13 * of_nat k
     \<and> (p, UseText (dl_text (dls ! k)) BODY_FONT_SIZE x y False) \<in> drawn (fst (draw_table_row W line dls st))"
proof -
  obtain cv y where st: "st = (cv, y)" by (cases st)
  let ?s = "(emit (SetFill black) (fill_rect MARGIN_LEFT (y - row_height (length dls)) MARGIN_RIGHT y BODY_FILL cv), first_baseline y)"
  obtain cv' y' where f: "fold draw_desc_line dls ?s = (cv', y')" by (cases "fold draw_desc_line dls ?s")
  from desc_line_at [OF assms, of ?s] obtain p x where
    "(p, UseText (dl_text (dls ! k)) BODY_FONT_SIZE x (first_baseline y - 13 * of_nat k) False) \<in> drawn cv'"
    by (auto simp: f)
  moreover have "first_baseline y - 13 * of_nat k = snd st - 7.6 - 13 * of_nat k"
    by (simp add: st first_baseline_def page_geometry)
  moreover have "e \<in> drawn cv' \<Longrightarrow> e \<in> drawn (fst (draw_table_row W line dls st))" for e
    by (simp add: st draw_table_row_def Let_def f drawn_keeps)
  ultimately show ?thesis by metis
qed

lemma adds_table_row: "adds (draw_table_row W line dls)"
proof (unfold adds_def, intro allI subsetI)
  fix st :: "canvas \<times> rat" and e assume "e \<in> drawn (fst st)"
  then obtain cv y where st: "st = (cv, y)" "e \<in> drawn cv" by (cases st) auto
  let ?s = "(emit (SetFill black) (fill_rect MARGIN_LEFT (y - row_height (length dls)) MARGIN_RIGHT y BODY_FILL cv), first_baseline y)"
  obtain cv' y' where f: "fold draw_desc_line dls ?s = (cv', y')" by (cases "fold draw_desc_line dls ?s")
  have "e \<in> drawn (fst (fold draw_desc_line dls ?s))"
    by (rule addsD [OF adds_fold, OF adds_desc_line]) (use st in auto)
  with f show "e \<in> drawn (fst (draw_table_row W line dls st))"
    by (simp add: st(1) draw_table_row_def Let_def drawn_keeps)
qed

lemma adds_table_header: "adds (draw_table_header W currency)"
  by (auto simp: adds_def draw_table_header_def Let_def drawn_keeps split: prod.splits)

lemma adds_draw_line: "adds (draw_line W currency line)"
  unfolding adds_def
proof (intro allI subsetI)
  fix st :: "canvas \<times> rat" and e assume "e \<in> drawn (fst st)"
  then obtain cv y where st: "st = (cv, y)" "e \<in> drawn cv" by (cases st) auto
  then have "e \<in> drawn (fst (if b then draw_table_header W currency (add_page cv) else (cv, y)))" for b
    by (auto intro: addsD [OF adds_table_header])
  from addsD [OF adds_table_row this] show "e \<in> drawn (fst (draw_line W currency line st))"
    by (simp add: draw_line_def st(1) Let_def)
qed

lemma adds_note_line: "adds (draw_note_line h sz t)"
  unfolding adds_def
proof (intro allI subsetI)
  fix st :: "canvas \<times> rat" and e assume "e \<in> drawn (fst st)"
  then have "e \<in> drawn (fst (page_break h st))" by auto
  then show "e \<in> drawn (fst (draw_note_line h sz t st))" by (auto simp: draw_note_line_def split: prod.splits)
qed

lemma adds_total_line: "adds (draw_total_line W bt)"
  unfolding adds_def
proof (intro allI subsetI)
  fix st :: "canvas \<times> rat" and e assume "e \<in> drawn (fst st)"
  then have "e \<in> drawn (fst (page_break TOTALS_LINE_HEIGHT st))" by auto
  then show "e \<in> drawn (fst (draw_total_line W bt st))" by (auto simp: draw_total_line_def split: prod.splits)
qed

lemma adds_notes_and_payment: "adds (draw_notes_and_payment W snap)"
  unfolding adds_def
proof (intro allI subsetI)
  fix st :: "canvas \<times> rat" and e assume "e \<in> drawn (fst st)"
  then have "e \<in> drawn (fst (if snap_no_gst_note snap then draw_note_line h sz t (emit (SetFill black) (fst st), y) else (emit (SetFill black) (fst st), y)))"
    for h sz t y by (auto intro: addsD [OF adds_note_line])
  moreover from this have "e \<in> drawn (fst (fold (draw_note_line h' sz') xs
      (fst (if snap_no_gst_note snap then draw_note_line h sz t (emit (SetFill black) (fst st), y) else (emit (SetFill black) (fst st), y)), z)))"
    for h sz t y h' sz' xs z by (intro addsD [OF adds_fold, OF adds_note_line]) simp
  ultimately show "e \<in> drawn (fst (draw_notes_and_payment W snap st))"
    by (cases st) (auto simp: draw_notes_and_payment_def Let_def split: option.splits)
qed

text \<open>The cursor never starts a row above the top of the writing area.\<close>

lemma draw_line_low: "snd st \<le> 780 \<Longrightarrow> snd (draw_line W currency line st) \<le> 780"
proof -
  assume a: "snd st \<le> 780"
  obtain cv y where st: "st = (cv, y)" by (cases st)
  let ?dls = "line_layout W line"
  have "0 \<le> row_height (length ?dls)" unfolding row_height_alt by simp
  with a show ?thesis
    by (simp add: draw_line_def st Let_def table_row table_header add_page_def page_geometry line_layout_def)
qed

lemma fold_draw_line_low: "snd st \<le> 780 \<Longrightarrow> snd (fold (draw_line W currency) lines st) \<le> 780"
  by (rule fold_keeps [where P = "\<lambda>st. snd st \<le> 780"]) (rule draw_line_low)

lemma draw_line_at:
  assumes "snd st \<le> 780" "k < length (line_layout W line)" "dl_text (line_layout W line ! k) \<noteq> []"
  shows "\<exists>p x y. y \<le> 772.4 - 13 * of_nat k
     \<and> (p, UseText (dl_text (line_layout W line ! k)) BODY_FONT_SIZE x y False) \<in> drawn (fst (draw_line W currency line st))"
proof -
  obtain cv y where st: "st = (cv, y)" by (cases st)
  let ?s = "if y - row_height (length (line_layout W line)) < BOTTOM_MARGIN then draw_table_header W currency (add_page cv) else (cv, y)"
  have "snd ?s \<le> 780" using assms(1) by (simp add: st table_header add_page_def page_geometry)
  moreover have "draw_line W currency line st = draw_table_row W line (line_layout W line) ?s"
    by (simp add: draw_line_def st Let_def line_layout_def)
  moreover obtain p x z where "z = snd ?s - 7.6 - 13 * of_nat k"
    "(p, UseText (dl_text (line_layout W line ! k)) BODY_FONT_SIZE x z False) \<in> drawn (fst (draw_table_row W line (line_layout W line) ?s))"
    using desc_row_at [OF assms(2,3), of ?s W line] by blast
  ultimately show ?thesis by (intro exI [of _ p] exI [of _ x] exI [of _ z]) simp
qed

text \<open>
  C36. A row taller than a page. A row is never divided: if a description takes more than 60 lines, its
  61st line, unless blank, is drawn below the lower edge of the page, where nobody sees it.
\<close>

theorem tall_row_falls_off_page:
  assumes "line \<in> set (snap_lines snap)"
    and "60 < length (layout_description W (line_description line) desc_width)"
    and "dl_text (layout_description W (line_description line) desc_width ! 60) \<noteq> []"
  shows "\<exists>p x y. y < 0 \<and> (p, UseText (dl_text (layout_description W (line_description line) desc_width ! 60)) BODY_FONT_SIZE x y False)
     \<in> set (cv_ops (draw_invoice W snap))"
proof -
  let ?c = "snap_currency snap"
  let ?st = "draw_table_header W ?c (page_break HEADER_ROW_HEIGHT (draw_header_block W snap start_canvas))"
  let ?e = "\<lambda>p x y. (p, UseText (dl_text (line_layout W line ! 60)) BODY_FONT_SIZE x y False)"
  obtain before after where lines: "snap_lines snap = before @ line # after" using split_list [OF assms(1)] by blast
  have "snd ?st \<le> 780"
    using flow_page_break(1) [OF header_block(2) [of W snap], of HEADER_ROW_HEIGHT]
    by (simp add: table_header in_flow_def page_geometry)
  then have "snd (fold (draw_line W ?c) before ?st) \<le> 780" by (rule fold_draw_line_low)
  from draw_line_at [OF this assms(2,3) [folded line_layout_def], of ?c] obtain p x y where
    "y \<le> 772.4 - 13 * of_nat 60" and e: "?e p x y \<in> drawn (fst (draw_line W ?c line (fold (draw_line W ?c) before ?st)))"
    by blast
  then have y: "y < 0" by simp
  from addsD [OF adds_fold [of "draw_line W ?c", OF adds_draw_line] e, of after]
  have "?e p x y \<in> drawn (fst (fold (draw_line W ?c) (snap_lines snap) ?st))" by (simp add: lines)
  then have "?e p x y \<in> drawn (fst (fold (draw_total_line W) (total_lines snap) (fst (fold (draw_line W ?c) (snap_lines snap) ?st), z)))" for z
    by (intro addsD [OF adds_fold, OF adds_total_line]) simp
  from addsD [OF adds_notes_and_payment this] have "?e p x y \<in> drawn (draw_invoice W snap)"
    by (simp add: draw_invoice_alt Let_def)
  with y show ?thesis by (auto simp: drawn_def line_layout_def)
qed

subsection \<open>The day number\<close>

definition leap_year :: "int \<Rightarrow> bool" where
  "leap_year y \<longleftrightarrow> 4 dvd y \<and> \<not> 100 dvd y \<or> 400 dvd y"

definition month_days :: "int \<Rightarrow> int \<Rightarrow> int" where
  "month_days y m = (if m = 2 then (if leap_year y then 29 else 28) else if m \<in> {4, 6, 9, 11} then 30 else 31)"

definition calendar_date :: "int \<Rightarrow> int \<Rightarrow> int \<Rightarrow> bool" where
  "calendar_date y m d \<longleftrightarrow> 1 \<le> m \<and> m \<le> 12 \<and> 1 \<le> d \<and> d \<le> month_days y m"

definition day_after :: "int \<Rightarrow> int \<Rightarrow> int \<Rightarrow> int \<times> int \<times> int" where
  "day_after y m d =
     (if d < month_days y m then (y, m, d + 1) else if m < 12 then (y, m + 1, 1) else (y + 1, 1, 1))"

text \<open>The algorithm without machine integers, counting years from March.\<close>

definition march_year :: "int \<Rightarrow> int \<Rightarrow> int" where
  "march_year y m = (if m \<le> 2 then y - 1 else y)"

definition day_of_year :: "int \<Rightarrow> int \<Rightarrow> int" where
  "day_of_year m d = (153 * ((m + 9) mod 12) + 2) div 5 + d - 1"

definition year_days :: "int \<Rightarrow> int" where
  "year_days y = 365 * y + y div 4 - y div 100 + y div 400"

lemma quot_floor: "quot (if y \<ge> 0 then y else y - 399) 400 = y div 400" for y :: int
  by (auto simp: quot_def sgn_if zdiv_zminus1_eq_if)

lemma era_split: "y div 400 * 146097 + ((y - y div 400 * 400) * 365 + (y - y div 400 * 400) div 4 - (y - y div 400 * 400) div 100 + doy)
    = year_days y + doy" for y :: int
proof -
  define e r where "e = y div 400" and "r = y mod 400"
  have y: "y = 400 * e + r" and r: "0 \<le> r" "r < 400" by (simp_all add: e_def r_def)
  have "y div 4 = (r + (100 * e) * 4) div 4" "y div 100 = (r + (4 * e) * 100) div 100" by (simp_all add: y)
  then have "y div 4 = 100 * e + r div 4" "y div 100 = 4 * e + r div 100" by (simp_all only: div_mult_self1)
  moreover have "y - e * 400 = r" using y by simp
  ultimately show ?thesis
    unfolding year_days_def e_def [symmetric] by (simp add: y)
qed

lemma wrap_small: "\<bar>x\<bar> \<le> 1000000000000000 \<Longrightarrow> wrap_i64 x = x"
  by (rule wrap_i64_id) (simp add: in_i64_def i64_min_def i64_max_def abs_le_iff)

lemma days_from_civil_exact:
  assumes "\<bar>y\<bar> \<le> 1000000000000" "1 \<le> m" "m \<le> 12" "1 \<le> d" "d \<le> 31"
  shows "days_from_civil y m d = year_days (march_year y m) + day_of_year m d - 719468"
proof -
  let ?y = "march_year y m"
  have b: "\<bar>?y\<bar> \<le> 1000000000001" using assms by (auto simp: march_year_def)
  have mp: "0 \<le> (m + 9) mod 12" "(m + 9) mod 12 < 12" by simp_all
  have doy: "0 \<le> day_of_year m d" "day_of_year m d \<le> 400" using mp assms by (simp_all add: day_of_year_def)
  have yd: "\<bar>year_days ?y\<bar> \<le> 500000000000000" using b unfolding year_days_def by (auto simp: abs_le_iff)
  have era: "\<bar>?y div 400 * 146097\<bar> \<le> 500000000000000" using b by (auto simp: abs_le_iff)
  have w1: "(if m \<le> 2 then wrap_i64 (y - 1) else y) = ?y"
    using assms by (simp add: march_year_def wrap_small)
  have w2: "wrap_i64 (?y - 399) = ?y - 399"
    using b by (simp add: wrap_small)
  have q: "quot (153 * ((m + 9) mod 12) + 2) 5 + d - 1 = day_of_year m d"
    using mp by (simp add: day_of_year_def quot_nonneg)
  let ?r = "?y - ?y div 400 * 400"
  have r: "?r \<ge> 0" by (simp add: minus_div_mult_eq_mod)
  have "days_from_civil y m d = wrap_i64 (wrap_i64 (wrap_i64 (?y div 400 * 146097)
      + (?r * 365 + ?r div 4 - ?r div 100 + day_of_year m d)) - 719468)"
    unfolding days_from_civil_def Let_def w1 w2 quot_floor q using r by (simp add: quot_nonneg)
  also have "\<dots> = year_days ?y + day_of_year m d - 719468"
    unfolding wrap_small [OF era [THEN order_trans], simplified] era_split using yd doy by (simp add: wrap_small)
  finally show ?thesis .
qed

lemma div_Suc_dvd:
  fixes k y :: int
  assumes "0 < k"
  shows "(y + 1) div k = y div k + (if k dvd y + 1 then 1 else 0)"
proof -
  define q r where "q = y div k" and "r = y mod k"
  have y: "y = k * q + r" "0 \<le> r" "r < k" using assms by (simp_all add: q_def r_def)
  show ?thesis
  proof (cases "r + 1 = k")
    case True
    with y have e: "y + 1 = k * (q + 1)" by (simp add: algebra_simps)
    then have "(y + 1) div k = q + 1" using assms by simp
    with e show ?thesis by (simp add: q_def)
  next
    case False
    have e: "y + 1 = k * q + (r + 1)" "0 \<le> r + 1" "r + 1 < k" using y False by simp_all
    have "(y + 1) div k = q" by (rule int_div_pos_eq [OF e])
    moreover have "(y + 1) mod k = r + 1" by (rule int_mod_pos_eq [OF e])
    ultimately show ?thesis using y(2) by (auto simp: q_def dvd_eq_mod_eq_0)
  qed
qed

lemma year_days_Suc: "year_days (y + 1) = year_days y + (if leap_year (y + 1) then 366 else 365)"
proof -
  have "400 dvd y + 1 \<Longrightarrow> 100 dvd y + 1" "100 dvd y + 1 \<Longrightarrow> 4 dvd y + 1"
    by (auto elim: dvd_trans [rotated])
  then show ?thesis by (auto simp: year_days_def leap_year_def div_Suc_dvd)
qed

lemma calendar_month: "calendar_date y m d \<Longrightarrow> m \<in> {1, 2, 3, 4, 5, 6, 7, 8, 9, 10, 11, 12} \<and> d \<le> 31"
proof -
  assume a: "calendar_date y m d"
  then have "m = 1 \<or> m = 2 \<or> m = 3 \<or> m = 4 \<or> m = 5 \<or> m = 6 \<or> m = 7 \<or> m = 8 \<or> m = 9 \<or> m = 10 \<or> m = 11 \<or> m = 12"
    unfolding calendar_date_def by presburger
  with a show ?thesis by (auto simp: calendar_date_def month_days_def split: if_splits)
qed

lemma month_end:
  assumes "calendar_date y m d" "d = month_days y m"
  shows "year_days (march_year (if m < 12 then y else y + 1) (if m < 12 then m + 1 else 1)) + day_of_year (if m < 12 then m + 1 else 1) 1
    = year_days (march_year y m) + day_of_year m d + 1"
proof -
  have y: "year_days y = year_days (y - 1) + (if leap_year y then 366 else 365)"
    using year_days_Suc [of "y - 1"] by simp
  from calendar_month [OF assms(1)] have "m = 1 \<or> m = 2 \<or> m = 3 \<or> m = 4 \<or> m = 5 \<or> m = 6 \<or> m = 7 \<or> m = 8 \<or> m = 9 \<or> m = 10 \<or> m = 11 \<or> m = 12"
    by simp
  then show ?thesis
    by (elim disjE) (simp_all add: assms(2) month_days_def march_year_def day_of_year_def y)
qed

lemma day_after_exact:
  assumes "calendar_date y m d" "day_after y m d = (y', m', d')"
  shows "year_days (march_year y' m') + day_of_year m' d' = year_days (march_year y m) + day_of_year m d + 1
    \<and> 1 \<le> m' \<and> m' \<le> 12 \<and> 1 \<le> d' \<and> d' \<le> 31 \<and> (y' = y \<or> y' = y + 1)"
proof (cases "d < month_days y m")
  case True
  moreover have "month_days y m \<le> 31" by (simp add: month_days_def)
  ultimately show ?thesis using assms by (auto simp: day_after_def calendar_date_def day_of_year_def)
next
  case False
  with assms(1) have "d = month_days y m" by (simp add: calendar_date_def)
  from month_end [OF assms(1) this] False assms show ?thesis
    by (auto simp: day_after_def calendar_date_def split: if_splits)
qed

text \<open>
  The date stamped on the file. The first of January 1970 is day 0, and each day of the calendar has
  the number after the day before it, for every year of the first trillion to either side; so
  \<^verbatim>\<open>days_from_civil\<close> counts the days since the epoch.
\<close>

theorem days_from_civil_counts:
  assumes "calendar_date y m d" "\<bar>y\<bar> < 1000000000000" "day_after y m d = (y', m', d')"
  shows "days_from_civil y' m' d' = days_from_civil y m d + 1 \<and> days_from_civil 1970 1 1 = 0"
proof -
  have "1 \<le> m" "m \<le> 12" "1 \<le> d" "d \<le> 31" using assms(1) calendar_month [OF assms(1)] by (auto simp: calendar_date_def)
  with assms(2) have "days_from_civil y m d = year_days (march_year y m) + day_of_year m d - 719468"
    by (intro days_from_civil_exact) auto
  moreover have "days_from_civil y' m' d' = year_days (march_year y' m') + day_of_year m' d' - 719468"
    using day_after_exact [OF assms(1,3)] assms(2) by (intro days_from_civil_exact) auto
  moreover have "days_from_civil 1970 1 1 = 0"
    by (simp add: days_from_civil_exact year_days_def march_year_def day_of_year_def)
  ultimately show ?thesis using day_after_exact [OF assms(1,3)] by simp
qed

theorem days_from_civil_counts_witness:
  "days_from_civil 2024 3 1 = days_from_civil 2024 2 29 + 1 \<and> days_from_civil 1970 1 1 = 0"
  by (rule days_from_civil_counts) (simp_all add: calendar_date_def month_days_def leap_year_def day_after_def)

subsection \<open>Examples\<close>

text \<open>Every character half a point wide; a description of 61 lines, which the API accepts.\<close>

definition half_point :: metrics where "half_point t sz bold = of_nat (length t) / 2"

definition tall_text :: string where "tall_text = concat (replicate 60 [CHR ''a'', CHR 0x0A]) @ ''a''"

definition line_of :: "string \<Rightarrow> snapshot_line" where
  "line_of t = \<lparr>line_date = ''2024-02-29'', line_description = t, line_quantity = ''1.00'', line_quantity_hundredths = 100,
     line_unit_price_cents = 100, line_amount = 100\<rparr>"

definition sample_snapshot :: "string \<Rightarrow> invoice_snapshot" where
  "sample_snapshot t = (build_snapshot sample_instance sample_project [] None None)\<lparr>snap_lines := [line_of t]\<rparr>"

theorem invoice_within_margins_witness: "placed (draw_invoice half_point (sample_snapshot ''two lines''))"
  by (rule invoice_within_margins)
    (simp add: sample_snapshot_def line_of_def, code_simp)

theorem tall_row_falls_off_page_witness:
  "validate_description tall_text = Inr tall_text
   \<and> (\<exists>p x y. y < 0 \<and> (p, UseText ''a'' BODY_FONT_SIZE x y False) \<in> set (cv_ops (draw_invoice half_point (sample_snapshot tall_text))))"
proof -
  have l: "60 < length (layout_description half_point tall_text desc_width)
      \<and> dl_text (layout_description half_point tall_text desc_width ! 60) = ''a''"
    by code_simp
  have "validate_description tall_text = Inr tall_text" by code_simp
  with tall_row_falls_off_page [of "line_of tall_text" "sample_snapshot tall_text" half_point] l
  show ?thesis by (simp add: sample_snapshot_def line_of_def)
qed

end
