(* ===== verification/Pdf_Texts.thy ===== *)
theory Pdf_Texts
  imports Pdf_Safety
begin

section \<open>Every word of the invoice is printed\<close>

text \<open>
  What an invoice has to show, stated over the snapshot alone: \<open>carries\<close> says that lines hold the
  words of a text, whatever the font makes of them, and the contents of the two columns, the table and
  the notes are listed without the code's layout. The drawing then shows just that, in that order.
\<close>

subsection \<open>Texts and lines\<close>

text \<open>
  Lines carry a text if they are pieces joined by single spaces, and the same pieces, put together
  without spaces, are the words of the text, each of them whole or cut into several.
\<close>

definition carries :: "string list \<Rightarrow> string \<Rightarrow> bool" where
  "carries ls t \<longleftrightarrow>
     (\<exists>groups cuts. ls = map unwords groups \<and> concat groups = concat cuts \<and> map concat cuts = split_whitespace t)"

definition printed_text :: "string \<Rightarrow> string list \<Rightarrow> bool" where
  "printed_text t ts \<longleftrightarrow> (\<exists>parts. ts = concat parts \<and> list_all2 (\<lambda>l ls. carries ls l) (str_lines t) parts)"

text \<open>A line of a description that begins with a bullet mark is a glyph and the text after the mark.\<close>

definition printed_line :: "string \<Rightarrow> string list \<Rightarrow> bool" where
  "printed_line l ts \<longleftrightarrow>
     (if take 2 l \<in> {''* '', ''- ''} then \<exists>ls. ts = bullet_glyph # ls \<and> carries ls (drop 2 l) else carries ts l)"

definition printed_description :: "string \<Rightarrow> string list \<Rightarrow> bool" where
  "printed_description t ts \<longleftrightarrow> (\<exists>parts. ts = concat parts \<and> list_all2 printed_line (split_on (CHR 0x0A) t) parts)"

definition printed_row :: "snapshot_line \<Rightarrow> string list \<Rightarrow> bool" where
  "printed_row line ts \<longleftrightarrow>
     (\<exists>ds. printed_description (line_description line) ds
        \<and> ts = ds @ shown (line_quantity line) @ [format_cents (line_unit_price_cents line), format_cents (line_amount line)])"

text \<open>The columns of the header: fixed texts, and texts that may be long.\<close>

datatype block = Exact string | Wrapped string

fun printed_block :: "block \<Rightarrow> string list \<Rightarrow> bool" where
  "printed_block (Exact t) ts = (ts = [t])"
| "printed_block (Wrapped t) ts = printed_text t ts"

definition printed_column :: "block list \<Rightarrow> string list \<Rightarrow> bool" where
  "printed_column blocks ts \<longleftrightarrow> (\<exists>parts. ts = concat parts \<and> list_all2 printed_block blocks parts)"

fun if_given :: "string option \<Rightarrow> (string \<Rightarrow> block list) \<Rightarrow> block list" where
  "if_given (Some (c # cs)) f = f (c # cs)"
| "if_given _ f = []"

definition left_content :: "invoice_snapshot \<Rightarrow> block list" where
  "left_content snap =
     [Exact (''Invoice date: '' @ format_ddmmyyyy (unwrap_or [] (snap_issue_date snap))),
      Exact (''Invoice number: '' @ unwrap_or ''Draft'' (snap_display_number snap)),
      Exact ''Invoice to'', Wrapped (bill_name (snap_bill_to snap))]
     @ if_given (bill_abn (snap_bill_to snap)) (\<lambda>abn. [Wrapped (''ABN: '' @ abn)])
     @ if_given (bill_address (snap_bill_to snap)) (\<lambda>address. [Wrapped address])
     @ if_given (snap_reference snap) (\<lambda>reference. [Exact ''Reference'', Wrapped reference])"

definition right_content :: "invoice_snapshot \<Rightarrow> block list" where
  "right_content snap =
     (let contact = if_given (sel_phone (snap_seller snap)) (\<lambda>phone. [Wrapped phone])
            @ if_given (sel_email (snap_seller snap)) (\<lambda>email. [Wrapped email]) in
     if_given (sel_name (snap_seller snap)) (\<lambda>name. [Wrapped name])
     @ if_given (sel_address (snap_seller snap)) (\<lambda>address. [Wrapped address])
     @ (if contact = [] then [] else Exact ''Contact'' # contact)
     @ if_given (sel_abn (snap_seller snap)) (\<lambda>abn. [Exact ''ABN'', Wrapped abn]))"

definition total_texts :: "invoice_snapshot \<Rightarrow> string list" where
  "total_texts snap =
     (if snap_gst_registered snap
      then [''Subtotal '' @ snap_currency snap @ ''   '' @ format_cents (snap_subtotal_cents snap),
            ''GST (10%)   '' @ format_cents (snap_gst_cents snap)]
      else [])
     @ [''Total '' @ snap_currency snap @ ''   '' @ format_cents (snap_total_cents snap)]"

text \<open>The rows of the table, the labels again before those that begin a page.\<close>

definition with_labels :: "string \<Rightarrow> bool list \<Rightarrow> string list list \<Rightarrow> string list" where
  "with_labels currency brks rows =
     concat (map (\<lambda>(brk, r). (if brk then header_labels currency else []) @ r) (zip brks rows))"

subsection \<open>The layout prints them\<close>

lemma break_chars_no_empty:
  "[] \<notin> set chunks \<Longrightarrow> [] \<notin> set chs \<Longrightarrow> [] \<notin> set (break_chars W m sz chs cur chunks)"
  by (induction W m sz chs cur chunks rule: break_chars.induct) auto

lemma break_word_no_empty: "[] \<notin> set (break_word W w m sz)"
  by (simp add: break_word_def break_chars_no_empty utf8_chars_ne)

lemma shown_groups:
  "[] \<notin> set (concat gs) \<Longrightarrow> concat (map shown (map unwords gs)) = map unwords (filter (\<lambda>g. g \<noteq> []) gs)
     \<and> concat (filter (\<lambda>g. g \<noteq> []) gs) = concat gs"
  by (induction gs) (auto simp: shown_def dest: unwords_ne)

lemma wrapped_carries: "carries (concat (map shown (wrap_line W t m sz))) t"
proof -
  let ?cut = "\<lambda>w. if W w sz False > m then break_word W w m sz else [w]"
  let ?cuts = "map ?cut (split_whitespace t)"
  have ne: "[] \<notin> set (split_whitespace t)" by (rule split_whitespace_ne)
  from wrap_words_groups [OF ne, of "[]" "[]" "[]" "[]" W m sz] obtain gs where
    gs: "wrap_line W t m sz = map unwords gs" "concat gs = concat ?cuts"
    by (auto simp: wrap_line_def pieces_def)
  have "[] \<notin> set (concat gs)" unfolding gs(2) using ne by (auto simp: break_word_no_empty split: if_splits)
  from shown_groups [OF this] gs show ?thesis
    unfolding carries_def
    by (intro exI [of _ "filter (\<lambda>g. g \<noteq> []) gs"] exI [of _ ?cuts]) (simp add: comp_def if_distrib map_idI)
qed

lemma concat_map_concat: "concat (map f (concat (map g xs))) = concat (map (\<lambda>x. concat (map f (g x))) xs)"
  by (induction xs) simp_all

lemma wrapped_lines_printed: "printed_text t (concat (map shown (wrap_text_lines W t m sz)))"
  unfolding printed_text_def wrap_text_lines_def
  by (intro exI [of _ "map (\<lambda>l. concat (map shown (wrap_line W l m sz))) (str_lines t)"])
    (simp add: concat_map_concat list_all2_map2 list_all2_same wrapped_carries)

lemma bullet_marks: "strip_bullet l = (if take 2 l \<in> {''* '', ''- ''} then Some (drop 2 l) else None)"
proof -
  have two: "strip_prefix [a, b] l = (if take 2 l = [a, b] then Some (drop 2 l) else None)" for a b
    by (cases l; cases "tl l") (auto simp: numeral_2_eq_2 split: if_splits)
  show ?thesis by (simp add: strip_bullet_def two)
qed

lemma line_printed: "printed_line l (concat (map desc_texts (layout_line W m l)))"
proof -
  have rows: "concat (map desc_texts (map (\<lambda>(i, t). \<lparr>dl_text = t, dl_indent = n, dl_bullet_start = b \<and> i = 0\<rparr>) (enumerate k xs)))
      = (if b \<and> k = 0 \<and> xs \<noteq> [] then [bullet_glyph] else []) @ concat (map shown xs)" for n b k and xs :: "string list"
    by (induction xs arbitrary: k) (auto simp: desc_texts_def)
  have texts: "concat (map desc_texts (layout_line W m l)) =
      (case strip_bullet l of
         Some rest \<Rightarrow> bullet_glyph # concat (map shown (wrap_line W rest (max (m - BULLET_INDENT) 10) BODY_FONT_SIZE))
       | None \<Rightarrow> concat (map shown (wrap_line W l (max (m - 0) 10) BODY_FONT_SIZE)))"
    using rows [of BULLET_INDENT True 0] rows [of 0 False 0]
    by (cases "strip_bullet l") (simp_all add: layout_line_def wrap_line_ne)
  show ?thesis unfolding printed_line_def texts bullet_marks by (auto simp: wrapped_carries)
qed

lemma description_printed: "printed_description t (concat (map desc_texts (layout_description W t m)))"
  unfolding printed_description_def layout_description_def
  by (intro exI [of _ "map (\<lambda>l. concat (map desc_texts (layout_line W m l))) (split_on (CHR 0x0A) t)"])
    (simp add: concat_map_concat list_all2_map2 list_all2_same line_printed)

lemma row_printed: "printed_row line (row_texts line (line_layout W line))"
  unfolding printed_row_def row_texts_def line_layout_def using description_printed by blast

lemma column_append:
  "printed_column as xs \<Longrightarrow> printed_column bs ys \<Longrightarrow> printed_column (as @ bs) (xs @ ys)"
proof -
  assume "printed_column as xs" "printed_column bs ys"
  then obtain ps qs where "xs = concat ps" "list_all2 printed_block as ps" "ys = concat qs" "list_all2 printed_block bs qs"
    unfolding printed_column_def by blast
  then show ?thesis
    unfolding printed_column_def by (intro exI [of _ "ps @ qs"]) (simp add: list_all2_appendI)
qed

lemma column_basic:
  "printed_column [] []"
  "printed_block b xs \<Longrightarrow> printed_column bs ys \<Longrightarrow> printed_column (b # bs) (xs @ ys)"
proof -
  show "printed_column [] []" by (simp add: printed_column_def)
  assume "printed_block b xs" "printed_column bs ys"
  moreover from this(1) have "printed_column [b] xs" by (auto simp: printed_column_def intro!: exI [of _ "[xs]"])
  ultimately show "printed_column (b # bs) (xs @ ys)" using column_append [of "[b]" xs bs ys] by simp
qed

abbreviation rows_shown :: "header_row list \<Rightarrow> string list" where
  "rows_shown rows \<equiv> concat (map row_shown rows)"

lemma plain_printed: "printed_block (Wrapped t) (rows_shown (plain_rows W t m))"
  using wrapped_lines_printed [of t W m COLUMN_FONT_SIZE] by (simp add: plain_rows_def row_shown_def comp_def)

lemma given_printed:
  "(\<And>x. printed_column (f x) (rows_shown (g x))) \<Longrightarrow> printed_column (if_given t f) (rows_shown (rows_of t g))"
  by (cases "(t, f)" rule: if_given.cases) (auto simp: rows_of_def nonempty_def column_basic(1))

lemma fixed_shown: "rows_shown (Some (c # cs, b) # rows) = [c # cs] @ rows_shown rows" "rows_shown (None # rows) = rows_shown rows"
  by (simp_all add: row_shown_def shown_def)

lemma plain_column: "printed_column [Wrapped t] (rows_shown (plain_rows W t m))"
  using column_basic(2) [OF plain_printed column_basic(1)] by simp

lemma headed_printed:
  "h \<noteq> [] \<Longrightarrow> printed_column bs (rows_shown rows) \<Longrightarrow> printed_column (Exact h # bs) (rows_shown (Some (h, b) # rows))"
  using column_basic(2) [of "Exact h" "[h]" bs "rows_shown rows"] by (simp add: row_shown_def shown_def)

lemma gap_printed: "printed_column bs (rows_shown rows) \<Longrightarrow> printed_column bs (rows_shown (None # rows))"
  by (simp add: row_shown_def)

lemma rows_printed:
  "printed_column as (rows_shown xs) \<Longrightarrow> printed_column bs (rows_shown ys) \<Longrightarrow> printed_column (as @ bs) (rows_shown (xs @ ys))"
  using column_append by simp

lemma nil_printed: "printed_column [] (rows_shown [])"
  by (simp add: column_basic(1))

lemmas column_intros = rows_printed given_printed plain_column headed_printed gap_printed nil_printed

lemma left_printed: "printed_column (left_content snap) (rows_shown (build_left_column_rows W snap m))"
proof -
  have top: "printed_column ([Exact a, Exact b, Exact ''Invoice to''] @ [Wrapped t])
      (rows_shown ([Some (a, False), Some (b, False), None, Some (''Invoice to'', True)] @ plain_rows W t m))"
    if "a \<noteq> []" "b \<noteq> []" for a b t
    by (rule rows_printed) (auto intro!: column_intros that simp del: concat.simps list.map)
  have ref: "printed_column [Exact ''Reference'', Wrapped r] (rows_shown ([None, Some (''Reference'', True)] @ plain_rows W r m))" for r
    using gap_printed [OF headed_printed [where h = "''Reference''" and b = True, OF _ plain_column]] by simp
  let ?day = "''Invoice date: '' @ format_ddmmyyyy (unwrap_or [] (snap_issue_date snap))"
  let ?number = "''Invoice number: '' @ unwrap_or ''Draft'' (snap_display_number snap)"
  have "printed_column
      (([Exact ?day, Exact ?number, Exact ''Invoice to''] @ [Wrapped (bill_name (snap_bill_to snap))])
        @ if_given (bill_abn (snap_bill_to snap)) (\<lambda>abn. [Wrapped (''ABN: '' @ abn)])
        @ if_given (bill_address (snap_bill_to snap)) (\<lambda>address. [Wrapped address])
        @ if_given (snap_reference snap) (\<lambda>reference. [Exact ''Reference'', Wrapped reference]))
      (rows_shown (([Some (?day, False), Some (?number, False), None, Some (''Invoice to'', True)]
          @ plain_rows W (bill_name (snap_bill_to snap)) m)
        @ rows_of (bill_abn (snap_bill_to snap)) (\<lambda>abn. plain_rows W (''ABN: '' @ abn) m)
        @ rows_of (bill_address (snap_bill_to snap)) (\<lambda>address. plain_rows W address m)
        @ rows_of (snap_reference snap) (\<lambda>reference. [None, Some (''Reference'', True)] @ plain_rows W reference m)))"
    by (intro rows_printed [OF top] rows_printed [OF given_printed] given_printed plain_column ref) simp_all
  then show ?thesis by (simp only: left_content_def build_left_column_rows_def append.simps append_assoc)
qed

lemma given_none: "if_given t f = [] \<longleftrightarrow> nonempty t = None" if "\<And>x. f x \<noteq> []"
  using that by (cases "(t, f)" rule: if_given.cases) (auto simp: nonempty_def)

lemma right_printed: "printed_column (right_content snap) (rows_shown (build_right_column_rows W snap m))"
proof -
  let ?s = "snap_seller snap"
  let ?contact = "if_given (sel_phone ?s) (\<lambda>phone. [Wrapped phone]) @ if_given (sel_email ?s) (\<lambda>email. [Wrapped email])"
  let ?rows = "rows_of (sel_phone ?s) (\<lambda>phone. plain_rows W phone m) @ rows_of (sel_email ?s) (\<lambda>email. plain_rows W email m)"
  have none: "nonempty (sel_phone ?s) \<noteq> None \<or> nonempty (sel_email ?s) \<noteq> None \<longleftrightarrow> ?contact \<noteq> []"
    by (simp add: given_none)
  have rows: "printed_column ?contact (rows_shown ?rows)" by (intro column_intros)
  have "printed_column (if ?contact = [] then [] else Exact ''Contact'' # ?contact)
      (rows_shown (if ?contact \<noteq> [] then [None, Some (''Contact'', True)] @ ?rows else []))"
    using gap_printed [OF headed_printed [OF _ rows, of "''Contact''" True]] nil_printed by simp
  moreover have "printed_column [Exact ''ABN'', Wrapped abn] (rows_shown ([None, Some (''ABN'', True)] @ plain_rows W abn m))" for abn
    using gap_printed [OF headed_printed [where h = "''ABN''" and b = True, OF _ plain_column]] by simp
  ultimately show ?thesis
    unfolding right_content_def build_right_column_rows_def Let_def none
    by (intro rows_printed given_printed plain_column) simp_all
qed

lemma payment_printed: "printed_column (if_given (snap_payment_details snap) (\<lambda>d. [Wrapped d])) (concat (map shown (payment_lines W snap)))"
  using column_basic(2) [OF _ column_basic(1), of "Wrapped _"] wrapped_lines_printed
  by (cases "(snap_payment_details snap, \<lambda>d. [Wrapped d])" rule: if_given.cases)
    (auto simp: payment_lines_def nonempty_def column_basic(1) intro!: column_basic(2) [where ys = "[]", simplified])

lemma table_printed:
  "table_texts W currency brks lines = with_labels currency brks (map (\<lambda>line. row_texts line (line_layout W line)) lines)"
  by (simp add: table_texts_def with_labels_def zip_map2 comp_def case_prod_unfold)

text \<open>
  C34. The whole invoice is printed. Whatever the font and however the pages break, the texts drawn
  are, in this order: the title; the rows of the two columns, which show every word of the customer,
  the seller, the number, the date and the reference; the table's labels; for each line of the invoice,
  the words of its description, line by line with a glyph for a bullet mark, then its quantity, price
  and amount (the labels again where a page begins); the totals; the note; the words of the payment
  details. No word is lost, changed, moved or printed twice; a word may be cut into pieces.
\<close>

theorem invoice_texts_complete:
  "\<exists>ls rs brks rows pay.
     printed_column (left_content snap) (rows_shown ls) \<and> printed_column (right_content snap) (rows_shown rs)
     \<and> list_all2 printed_row (snap_lines snap) rows \<and> length brks = length rows
     \<and> printed_column (if_given (snap_payment_details snap) (\<lambda>d. [Wrapped d])) pay
     \<and> texts (draw_invoice W snap) =
         shown (snap_title snap) @ header_texts (ls, rs) @ header_labels (snap_currency snap)
         @ with_labels (snap_currency snap) brks rows @ total_texts snap
         @ (if snap_no_gst_note snap then [''No GST has been charged.''] else []) @ pay"
proof -
  obtain brks where drawn: "length brks = length (snap_lines snap)" "texts (draw_invoice W snap) =
      shown (snap_title snap) @ header_texts (header_rows W snap) @ header_labels (snap_currency snap)
      @ table_texts W (snap_currency snap) brks (snap_lines snap)
      @ concat (map (shown \<circ> snd) (total_lines snap)) @ note_texts W snap"
    using texts_in_order by blast
  have totals: "concat (map (shown \<circ> snd) (total_lines snap)) = total_texts snap"
    by (simp add: total_lines_def total_texts_def shown_def)
  have rows: "list_all2 printed_row (snap_lines snap) (map (\<lambda>line. row_texts line (line_layout W line)) (snap_lines snap))"
    by (simp add: list_all2_map2 list_all2_same row_printed)
  show ?thesis
    using drawn rows left_printed [of snap W LEFT_COLUMN_MAX_WIDTH] right_printed [of snap W RIGHT_COLUMN_MAX_WIDTH]
      payment_printed [of snap W]
    unfolding totals table_printed header_rows_def note_texts_def append_assoc
    by (metis (no_types, lifting) length_map)
qed

end
