(* ===== verification/Admin.thy ===== *)
theory Admin
  imports Listing
begin

section \<open>Instances, users, members, addresses\<close>

text \<open>
  The administration of \<^verbatim>\<open>graphql/mutations.rs\<close>: inbound addresses, instances and their settings,
  users and memberships, over the instance operations of \<^verbatim>\<open>dynamodb.rs\<close>. Most of it is for
  superusers; the addresses and the invoicing settings are for owners too.
\<close>

subsection \<open>Instances in the store\<close>

definition instance_row :: "string \<Rightarrow> nat \<Rightarrow> string \<Rightarrow> string \<Rightarrow> string \<Rightarrow> string \<Rightarrow> bool \<Rightarrow> instance_kind \<Rightarrow> item" where
  "instance_row i now name slug from_name signature pub kind =
     [''id'' \<mapsto> AS i, ''name'' \<mapsto> AS name, ''slug'' \<mapsto> AS slug, ''from_name'' \<mapsto> AS from_name,
      ''signature'' \<mapsto> AS signature, ''created_at'' \<mapsto> AN (int now)]
     ++ (if pub then [''public_submission_enabled'' \<mapsto> ABool True] else Map.empty)
     ++ (if kind = Invoicing then [''kind'' \<mapsto> AS (instance_kind_str kind)] else Map.empty)"

definition create_instance ::
    "handler \<Rightarrow> string \<Rightarrow> nat \<Rightarrow> string \<Rightarrow> string \<Rightarrow> string \<Rightarrow> string \<Rightarrow> bool \<Rightarrow> instance_kind \<Rightarrow> store
      \<Rightarrow> (db_error + org_instance) \<times> store" where
  "create_instance h i now name slug from_name signature pub kind s =
     (let (r, s') = send_plain h (Put ''instance'' i (instance_row i now name slug from_name signature pub kind)
                      (CNotExists ''id'')) s
      in (rbind r (\<lambda>_. Inr \<lparr>inst_id = i, inst_name = name, inst_slug = slug, inst_kind = kind,
            inst_public_submission_enabled = pub, inst_from_name = from_name, inst_signature = signature,
            inst_created_at = now, inst_deleted = False, inst_business_name = None, inst_business_abn = None,
            inst_business_address = None, inst_business_phone = None, inst_business_email = None,
            inst_payment_details = None, inst_gst_registered = False, inst_currency = None\<rparr>), s'))"

record seller_settings =
  st_business_name :: "string option"
  st_business_abn :: "string option"
  st_business_address :: "string option"
  st_business_phone :: "string option"
  st_business_email :: "string option"
  st_payment_details :: "string option"
  st_gst_registered :: bool
  st_currency :: "string option"

datatype instance_update =
    InstanceFields string string string bool
  | SetInstanceDeleted bool
  | SetInvoicingSettings seller_settings

definition flag_action :: "string \<Rightarrow> bool \<Rightarrow> action" where
  "flag_action a b = (if b then ASet a (ABool True) else ARemove a)"

fun instance_actions :: "instance_update \<Rightarrow> action list" where
  "instance_actions (InstanceFields name from_name signature pub) =
     [ASet ''name'' (AS name), ASet ''from_name'' (AS from_name), ASet ''signature'' (AS signature),
      flag_action ''public_submission_enabled'' pub]"
| "instance_actions (SetInstanceDeleted b) = [flag_action ''deleted'' b]"
| "instance_actions (SetInvoicingSettings st) =
     [set_or_remove ''business_name'' (st_business_name st), set_or_remove ''business_abn'' (st_business_abn st),
      set_or_remove ''business_address'' (st_business_address st), set_or_remove ''business_phone'' (st_business_phone st),
      set_or_remove ''business_email'' (st_business_email st), set_or_remove ''payment_details'' (st_payment_details st),
      set_or_remove ''currency'' (st_currency st), flag_action ''gst_registered'' (st_gst_registered st)]"

definition update_instance :: "handler \<Rightarrow> string \<Rightarrow> instance_update \<Rightarrow> store \<Rightarrow> (db_error + unit) \<times> store" where
  "update_instance h i change s =
     send_existing h (''Instance '' @ i) (Update ''instance'' ''id'' i (instance_actions change) (CExists ''id'')) s"

definition list_instances :: "pager \<Rightarrow> desk \<Rightarrow> org_instance list loop_run" where
  "list_instances P D = scan_all P D hydrate_instance ''instance''"

definition list_users :: "pager \<Rightarrow> desk \<Rightarrow> user list loop_run" where
  "list_users P D = scan_all P D hydrate_user ''user''"

subsection \<open>Reads the mutations share\<close>

definition the_instance :: "desk \<Rightarrow> string \<Rightarrow> org_instance run" where
  "the_instance D i = sbind (get_instance D i) (found (Api (not_found ''Instance'' i)))"

definition get_user :: "desk \<Rightarrow> string \<Rightarrow> user option run" where
  "get_user D i = db_read D (\<lambda>s. rbind (get_users (dk_db D) [i] s) (\<lambda>rs. Inr (first_row rs)))"

definition the_user :: "desk \<Rightarrow> string \<Rightarrow> user run" where
  "the_user D i = sbind (get_user D i) (found (Api (not_found ''User'' i)))"

definition memberships_of :: "desk \<Rightarrow> string \<Rightarrow> membership list run" where
  "memberships_of D uid = db_read D (list_memberships_by_user (dk_query D) uid)"

definition nonblank_name :: "string \<Rightarrow> string run" where
  "nonblank_name name =
     sbind (sensure_api (trim name \<noteq> []) (Anyhow ''name cannot be empty'')) (\<lambda>_. sreturn (trim name))"

definition quoted :: "string \<Rightarrow> string" where
  "quoted s = CHR 0x22 # s @ [CHR 0x22]"

subsection \<open>Inbound addresses\<close>

fun address_error_text :: "address_error \<Rightarrow> string" where
  "address_error_text (AddressMissingAt raw) =
     quoted raw @ '' is not a valid address (missing '' @ [CHR 0x27, CHR ''@'', CHR 0x27] @ '')''"
| "address_error_text (AddressNoDomain raw) = quoted raw @ '' has no domain''"
| "address_error_text (AddressStarMisplaced raw) =
     quoted raw @ '': '' @ [CHR 0x27, CHR ''*'', CHR 0x27]
       @ '' is only allowed as the entire local part of a wildcard (*@domain)''"
| "address_error_text (AddressNoLocal raw) = quoted raw @ '' has no local part''"

definition m_add_inbound_address :: "desk \<Rightarrow> string \<Rightarrow> string \<Rightarrow> inbound_address run" where
  "m_add_inbound_address D instance_id address =
     sbind (guard D (RequireInstanceOwnerOrSuperuser instance_id)) (\<lambda>_.
     sbind (support_instance D instance_id) (\<lambda>_.
     sbind (slift (map_err (\<lambda>e. Api (forbidden (address_error_text e))) (classify_for_storage (dk_lower D) address)))
       (\<lambda>(normalized, kind).
     sbind (db_read D (get_inbound_address (dk_db D) normalized)) (\<lambda>existing.
     sbind (case existing of
              Some a \<Rightarrow> slift (Inl (Api (conflict (normalized @ '' is already mapped to instance '' @ ia_instance_id a))))
            | None \<Rightarrow> sreturn ()) (\<lambda>_.
     db_write D (\<lambda>n. create_inbound_address (dk_db D) (dk_clock D n) normalized instance_id kind))))))"

definition m_remove_inbound_address :: "desk \<Rightarrow> string \<Rightarrow> string \<Rightarrow> bool run" where
  "m_remove_inbound_address D instance_id address =
     sbind (guard D (RequireInstanceOwnerOrSuperuser instance_id)) (\<lambda>_.
     (let normalized = dk_lower D (trim address) in
     sbind (db_read D (get_inbound_address (dk_db D) normalized)) (\<lambda>row.
     sbind (found (Api (not_found ''InboundAddress'' normalized))
              (case row of Some a \<Rightarrow> if ia_instance_id a = instance_id then Some a else None | None \<Rightarrow> None)) (\<lambda>existing.
     sbind (db_write D (\<lambda>n. delete_inbound_address (dk_db D) (ia_address existing))) (\<lambda>_.
     sreturn True)))))"

subsection \<open>Instances\<close>

fun slug_error_text :: "slug_error \<Rightarrow> string" where
  "slug_error_text SlugEmpty = ''slug cannot be empty''"
| "slug_error_text SlugTooLong = ''slug cannot be longer than 63 characters''"
| "slug_error_text SlugBadChar = ''slug may only contain lowercase letters, digits, and hyphens''"
| "slug_error_text SlugHyphenEdge = ''slug cannot start or end with a hyphen''"

definition support_only_error :: api_error where
  "support_only_error = Anyhow ''publicSubmissionEnabled only applies to a support instance''"

definition m_create_instance ::
    "desk \<Rightarrow> string \<Rightarrow> string \<Rightarrow> string option \<Rightarrow> string option \<Rightarrow> bool \<Rightarrow> instance_kind \<Rightarrow> org_instance run" where
  "m_create_instance D name slug from_name signature pub kind =
     sbind (guard D RequireSuperuser) (\<lambda>_.
     sbind (nonblank_name name) (\<lambda>name.
     (let slug = trim slug in
     sbind (slift (map_err (\<lambda>e. Api (forbidden (slug_error_text e))) (validate_slug slug))) (\<lambda>_.
     sbind (db_read D (get_instance_id_by_slug (dk_query D) slug)) (\<lambda>taken.
     sbind (sensure_api (taken = None) (conflict (''slug '' @ quoted slug @ '' is already taken''))) (\<lambda>_.
     (let from_name = (case from_name of None \<Rightarrow> name | Some f \<Rightarrow> if trim f = [] then name else trim f);
          signature = unwrap_or [] signature in
     sbind (sensure_api (\<not> (pub \<and> kind \<noteq> Support)) support_only_error) (\<lambda>_.
     db_write D (\<lambda>n. create_instance (dk_db D) (dk_id D n) (dk_clock D n) name slug from_name signature pub kind)))))))))"

definition m_update_instance :: "desk \<Rightarrow> string \<Rightarrow> string \<Rightarrow> string \<Rightarrow> string \<Rightarrow> bool \<Rightarrow> org_instance run" where
  "m_update_instance D i name from_name signature pub =
     sbind (guard D RequireSuperuser) (\<lambda>_.
     sbind (nonblank_name name) (\<lambda>name.
     sbind (the_instance D i) (\<lambda>current.
     sbind (sensure_api (\<not> (pub \<and> inst_kind current \<noteq> Support)) support_only_error) (\<lambda>_.
     sbind (db_write D (\<lambda>n. update_instance (dk_db D) i (InstanceFields name from_name signature pub))) (\<lambda>_.
     sreturn (current\<lparr>inst_name := name, inst_from_name := from_name, inst_signature := signature,
       inst_public_submission_enabled := pub\<rparr>))))))"

definition m_set_instance_deleted :: "desk \<Rightarrow> string \<Rightarrow> bool \<Rightarrow> org_instance run" where
  "m_set_instance_deleted D i del =
     sbind (guard D RequireSuperuser) (\<lambda>_.
     sbind (the_instance D i) (\<lambda>current.
     sbind (if inst_deleted current \<noteq> del
            then db_write D (\<lambda>n. update_instance (dk_db D) i (SetInstanceDeleted del)) else sreturn ()) (\<lambda>_.
     sreturn (current\<lparr>inst_deleted := del\<rparr>))))"

subsection \<open>Users\<close>

definition normalized_email :: "desk \<Rightarrow> string \<Rightarrow> string run" where
  "normalized_email D email = slift (map_err (\<lambda>e. Api (Anyhow (email_error_text e))) (normalize_user_email (dk_lower D) email))"

definition email_free :: "desk \<Rightarrow> string \<Rightarrow> unit run" where
  "email_free D email =
     sbind (db_read D (get_user_id_by_email (dk_query D) email)) (\<lambda>taken.
     sensure_api (taken = None) (conflict (''a user with email '' @ email @ '' already exists'')))"

definition m_create_user :: "desk \<Rightarrow> string \<Rightarrow> string \<Rightarrow> user run" where
  "m_create_user D email name =
     sbind (guard D RequireSuperuser) (\<lambda>_.
     sbind (nonblank_name name) (\<lambda>name.
     sbind (normalized_email D email) (\<lambda>email.
     sbind (email_free D email) (\<lambda>_.
     db_write D (\<lambda>n. create_user (dk_db D) (dk_id D n) (dk_clock D n) email name)))))"

definition m_update_user :: "desk \<Rightarrow> string \<Rightarrow> string \<Rightarrow> string \<Rightarrow> bool \<Rightarrow> user run" where
  "m_update_user D i name email enabled =
     sbind (guard D RequireSuperuser) (\<lambda>_.
     sbind (require_user_id D) (\<lambda>caller_id.
     sbind (nonblank_name name) (\<lambda>name.
     sbind (normalized_email D email) (\<lambda>email.
     sbind (the_user D i) (\<lambda>current.
     sbind (sensure_api (\<not> (\<not> enabled \<and> i = caller_id)) (forbidden ''Cannot disable your own account'')) (\<lambda>_.
     sbind (if email \<noteq> usr_email current then email_free D email else sreturn ()) (\<lambda>_.
     sbind (if email \<noteq> usr_email current
            then db_write D (\<lambda>n. update_user (dk_db D) (dk_clock D n) i (SetEmail email)) else sreturn ()) (\<lambda>_.
     sbind (db_write D (\<lambda>n. update_user (dk_db D) (dk_clock D n) i (UserFields name enabled))) (\<lambda>_.
     sreturn (current\<lparr>usr_name := name, usr_email := email, usr_enabled := enabled\<rparr>))))))))))"

fun delete_memberships :: "desk \<Rightarrow> membership list \<Rightarrow> unit run" where
  "delete_memberships D [] = sreturn ()"
| "delete_memberships D (m # ms) =
     sbind (db_write D (\<lambda>n. delete_membership (dk_db D) (mb_id m))) (\<lambda>_. delete_memberships D ms)"

definition m_delete_user :: "desk \<Rightarrow> string \<Rightarrow> user run" where
  "m_delete_user D i =
     sbind (guard D RequireSuperuser) (\<lambda>_.
     sbind (require_user_id D) (\<lambda>caller_id.
     sbind (sensure_api (i \<noteq> caller_id) (forbidden ''Cannot delete your own account'')) (\<lambda>_.
     sbind (the_user D i) (\<lambda>current.
     sbind (db_write D (\<lambda>n. update_user (dk_db D) (dk_clock D n) i (UserFields (usr_name current) False))) (\<lambda>_.
     sbind (memberships_of D i) (\<lambda>ms.
     sbind (delete_memberships D ms) (\<lambda>_.
     sreturn (current\<lparr>usr_enabled := False\<rparr>))))))))"

subsection \<open>Members\<close>

definition m_add_member :: "desk \<Rightarrow> string \<Rightarrow> string \<Rightarrow> membership_role \<Rightarrow> org_instance run" where
  "m_add_member D instance_id uid role =
     sbind (guard D RequireSuperuser) (\<lambda>_.
     sbind (the_instance D instance_id) (\<lambda>inst.
     sbind (get_user D uid) (\<lambda>row.
     sbind (sensure_api (row \<noteq> None) (not_found ''User'' uid)) (\<lambda>_.
     sbind (memberships_of D uid) (\<lambda>existing.
     sbind (sensure_api (\<not> list_ex (\<lambda>m. mb_instance_id m = inst_id inst) existing)
              (conflict (''user '' @ uid @ '' is already a member of instance '' @ instance_id @ '' '' @ em_dash
                 @ '' use setMemberRole to change the role''))) (\<lambda>_.
     sbind (db_write D (\<lambda>n. create_membership (dk_db D) (dk_id D n) uid (inst_id inst) role)) (\<lambda>_.
     sreturn inst)))))))"

definition the_membership :: "desk \<Rightarrow> org_instance \<Rightarrow> string \<Rightarrow> string \<Rightarrow> membership run" where
  "the_membership D inst instance_id uid =
     sbind (memberships_of D uid) (\<lambda>ms.
     found (Api (not_found ''Membership'' (uid @ ''@'' @ instance_id))) (find (\<lambda>m. mb_instance_id m = inst_id inst) ms))"

definition m_remove_member :: "desk \<Rightarrow> string \<Rightarrow> string \<Rightarrow> org_instance run" where
  "m_remove_member D instance_id uid =
     sbind (guard D RequireSuperuser) (\<lambda>_.
     sbind (the_instance D instance_id) (\<lambda>inst.
     sbind (the_membership D inst instance_id uid) (\<lambda>m.
     sbind (db_write D (\<lambda>n. delete_membership (dk_db D) (mb_id m))) (\<lambda>_.
     sreturn inst))))"

definition m_set_member_role :: "desk \<Rightarrow> string \<Rightarrow> string \<Rightarrow> membership_role \<Rightarrow> org_instance run" where
  "m_set_member_role D instance_id uid role =
     sbind (guard D RequireSuperuser) (\<lambda>_.
     sbind (the_instance D instance_id) (\<lambda>inst.
     sbind (the_membership D inst instance_id uid) (\<lambda>m.
     sbind (db_write D (\<lambda>n. update_membership_role (dk_db D) (mb_id m) role)) (\<lambda>_.
     sreturn inst))))"

subsection \<open>Invoicing settings\<close>

record settings_input =
  si_business_name :: string
  si_business_abn :: string
  si_business_address :: string
  si_business_phone :: string
  si_business_email :: string
  si_payment_details :: string
  si_gst_registered :: bool
  si_currency :: string

definition MAX_INVOICING_FIELD_LEN :: nat where "MAX_INVOICING_FIELD_LEN = 200"
definition MAX_INVOICING_LONG_FIELD_LEN :: nat where "MAX_INVOICING_LONG_FIELD_LEN = 2000"

definition normalize_invoicing_field :: "string \<Rightarrow> string \<Rightarrow> api_error + string option" where
  "normalize_invoicing_field raw field_name = normalize_project_field (Some raw) field_name MAX_INVOICING_FIELD_LEN"

definition normalize_invoicing_long_field :: "string \<Rightarrow> string \<Rightarrow> api_error + string option" where
  "normalize_invoicing_long_field raw field_name =
     normalize_project_field (Some raw) field_name MAX_INVOICING_LONG_FIELD_LEN"

definition normalize_currency :: "string \<Rightarrow> api_error + string option" where
  "normalize_currency raw =
     (let trimmed = trim raw in
      if trimmed = [] then Inr None
      else map_err (\<lambda>code. Anyhow (quoted code @ '' is not a valid currency code (must be 3 uppercase letters, e.g. AUD)''))
             (rbind (validate_currency_code trimmed) (\<lambda>_. Inr (Some trimmed))))"

definition normalize_settings :: "settings_input \<Rightarrow> api_error + seller_settings" where
  "normalize_settings input =
     rbind (normalize_invoicing_field (si_business_name input) ''businessName'') (\<lambda>business_name.
     rbind (normalize_invoicing_field (si_business_abn input) ''businessAbn'') (\<lambda>business_abn.
     rbind (normalize_invoicing_long_field (si_business_address input) ''businessAddress'') (\<lambda>business_address.
     rbind (normalize_invoicing_field (si_business_phone input) ''businessPhone'') (\<lambda>business_phone.
     rbind (normalize_invoicing_field (si_business_email input) ''businessEmail'') (\<lambda>business_email.
     rbind (normalize_invoicing_long_field (si_payment_details input) ''paymentDetails'') (\<lambda>payment_details.
     rbind (normalize_currency (si_currency input)) (\<lambda>currency.
     Inr \<lparr>st_business_name = business_name, st_business_abn = business_abn, st_business_address = business_address,
          st_business_phone = business_phone, st_business_email = business_email, st_payment_details = payment_details,
          st_gst_registered = si_gst_registered input, st_currency = currency\<rparr>)))))))"

definition m_update_invoicing_settings :: "desk \<Rightarrow> string \<Rightarrow> settings_input \<Rightarrow> org_instance run" where
  "m_update_invoicing_settings D instance_id input =
     sbind (guard D (RequireInstanceOwnerOrSuperuser instance_id)) (\<lambda>_.
     sbind (invoicing_instance D instance_id) (\<lambda>inst.
     sbind (lift_api (normalize_settings input)) (\<lambda>st.
     sbind (db_write D (\<lambda>n. update_instance (dk_db D) instance_id (SetInvoicingSettings st))) (\<lambda>_.
     sreturn (inst\<lparr>inst_business_name := st_business_name st, inst_business_abn := st_business_abn st,
       inst_business_address := st_business_address st, inst_business_phone := st_business_phone st,
       inst_business_email := st_business_email st, inst_payment_details := st_payment_details st,
       inst_gst_registered := st_gst_registered st, inst_currency := st_currency st\<rparr>)))))"

subsection \<open>The requests\<close>

datatype admin_request =
    AddInboundAddress string string
  | RemoveInboundAddress string string
  | CreateInstance string string "string option" "string option" bool instance_kind
  | UpdateInstance string string string string bool
  | DeleteInstance string bool
  | CreateUser string string
  | UpdateUser string string string bool
  | DeleteUser string
  | AddMember string string membership_role
  | RemoveMember string string
  | SetMemberRole string string membership_role
  | UpdateInvoicingSettings string settings_input

definition void :: "'a run \<Rightarrow> unit run" where
  "void m = sbind m (\<lambda>_. sreturn ())"

fun run_admin :: "desk \<Rightarrow> admin_request \<Rightarrow> unit run" where
  "run_admin D (AddInboundAddress i address) = void (m_add_inbound_address D i address)"
| "run_admin D (RemoveInboundAddress i address) = void (m_remove_inbound_address D i address)"
| "run_admin D (CreateInstance name slug from_name signature pub kind) =
     void (m_create_instance D name slug from_name signature pub kind)"
| "run_admin D (UpdateInstance i name from_name signature pub) = void (m_update_instance D i name from_name signature pub)"
| "run_admin D (DeleteInstance i del) = void (m_set_instance_deleted D i del)"
| "run_admin D (CreateUser email name) = void (m_create_user D email name)"
| "run_admin D (UpdateUser i name email enabled) = void (m_update_user D i name email enabled)"
| "run_admin D (DeleteUser i) = void (m_delete_user D i)"
| "run_admin D (AddMember i u role) = void (m_add_member D i u role)"
| "run_admin D (RemoveMember i u) = void (m_remove_member D i u)"
| "run_admin D (SetMemberRole i u role) = void (m_set_member_role D i u role)"
| "run_admin D (UpdateInvoicingSettings i input) = void (m_update_invoicing_settings D i input)"

fun run_admins :: "desk \<Rightarrow> admin_request list \<Rightarrow> world \<Rightarrow> world" where
  "run_admins D [] w = w"
| "run_admins D (a # as) w = run_admins D as (snd (run_admin D a w))"

end
