(* ===== verification/Admin_Safety.thy ===== *)
theory Admin_Safety
  imports Admin
begin

section \<open>What administration keeps\<close>

text \<open>
  Properties of the administrative requests alone on the desk, one after another: no request makes a
  superuser or locks its caller out, instances stay well formed, and slugs and addresses stay unique.
  \<open>keeps P m\<close> says that a run leaves a property of the store alone, whether it fails or not.
\<close>

definition keeps :: "(store \<Rightarrow> bool) \<Rightarrow> 'a run \<Rightarrow> bool" where
  "keeps P m \<longleftrightarrow> triple P m (\<lambda>_. P) P"

named_theorems keeps_intros \<open>rules for a run that keeps a property\<close>

lemma keepsD: "keeps P m \<Longrightarrow> P (w_db w) \<Longrightarrow> P (w_db (snd (m w)))"
  using tripleD [of P m "\<lambda>_. P" P w "fst (m w)" "snd (m w)"] by (auto simp: keeps_def split: sum.splits)

lemma keeps_triple: "keeps P m \<Longrightarrow> triple P m (\<lambda>_. P) P"
  by (simp add: keeps_def)

lemma keeps_bind [keeps_intros]: "keeps P m \<Longrightarrow> (\<And>x. keeps P (k x)) \<Longrightarrow> keeps P (sbind m k)"
  unfolding keeps_def by (rule triple_bind)

lemma keeps_return [keeps_intros]: "keeps P (sreturn x)"
  unfolding keeps_def by (rule triple_return)

lemma keeps_lift [keeps_intros]: "keeps P (slift r)"
  unfolding keeps_def by (rule triple_lift)

lemma keeps_found [keeps_intros]: "keeps P (found e x)"
  unfolding found_def by (rule keeps_lift)

lemma keeps_lift_api [keeps_intros]: "keeps P (lift_api x)"
  unfolding lift_api_def by (rule keeps_lift)

lemma keeps_if [keeps_intros]: "(b \<Longrightarrow> keeps P m) \<Longrightarrow> (\<not> b \<Longrightarrow> keeps P m') \<Longrightarrow> keeps P (if b then m else m')"
  by simp

lemma keeps_option [keeps_intros]:
  "(x = None \<Longrightarrow> keeps P m) \<Longrightarrow> (\<And>y. x = Some y \<Longrightarrow> keeps P (f y)) \<Longrightarrow> keeps P (case x of None \<Rightarrow> m | Some y \<Rightarrow> f y)"
  by (cases x) simp_all

lemma keeps_prod [keeps_intros]: "(\<And>a b. x = (a, b) \<Longrightarrow> keeps P (f a b)) \<Longrightarrow> keeps P (case x of (a, b) \<Rightarrow> f a b)"
  by (cases x) simp

lemma keeps_let [keeps_intros]: "keeps P (f a) \<Longrightarrow> keeps P (Let a f)"
  by simp

text \<open>A check that was passed, a principal that was found.\<close>

lemma keeps_ensure [keeps_intros]: "keeps P (sensure_api b e)"
  unfolding keeps_def sensure_api_def by (rule triple_ensure)

lemma keeps_guard [keeps_intros]: "keeps P (guard D req)"
  unfolding guard_def by (rule keeps_lift)

lemma keeps_checked: "(b \<Longrightarrow> keeps P (k ())) \<Longrightarrow> keeps P (sbind (sensure_api b e) k)"
  unfolding keeps_def sensure_api_def by (rule triple_bind [where R = "\<lambda>_ s. b \<and> P s"], rule triple_ensure)
    (auto intro: triple_fact)

lemma keeps_caller: "(\<And>u ms su tk g. dk_auth D = Some (User u ms su tk g) \<Longrightarrow> keeps P (k u)) \<Longrightarrow> keeps P (sbind (require_user_id D) k)"
  unfolding keeps_def require_user_id_def
  by (rule triple_bind [where R = "\<lambda>u s. (\<exists>ms su tk g. dk_auth D = Some (User u ms su tk g)) \<and> P s"], rule triple_lift)
    (auto intro!: triple_fact split: option.splits auth_info.splits)

lemma keeps_user_id [keeps_intros]: "keeps P (require_user_id D)"
  unfolding require_user_id_def by (rule keeps_lift)

lemma keeps_void [keeps_intros]: "keeps P m \<Longrightarrow> keeps P (void m)"
  unfolding void_def by (rule keeps_bind [OF _ keeps_return])

lemma keeps_name [keeps_intros]: "keeps P (nonblank_name n)"
  unfolding nonblank_name_def by (intro keeps_intros)

lemma keeps_email [keeps_intros]: "keeps P (normalized_email D e)"
  unfolding normalized_email_def by (intro keeps_intros)

definition caller_is :: "desk \<Rightarrow> string \<Rightarrow> bool" where
  "caller_is D i \<longleftrightarrow> (\<exists>ms su tk g. dk_auth D = Some (User i ms su tk g))"

context solo_desk begin

lemma keeps_read [keeps_intros]: "keeps P (db_read D f)"
  unfolding keeps_def db_read_def by (rule triple_call) (auto simp: db_error_of_def map_err_def split: sum.splits)

lemma keeps_write:
  "(\<And>n s r s'. P s \<Longrightarrow> m n s = (r, s') \<Longrightarrow> P s') \<Longrightarrow> keeps P (db_write D m)"
  unfolding keeps_def by (rule triple_write) (fastforce split: sum.splits)

lemma keeps_reads [keeps_intros]:
  "keeps P (get_instance D i)" "keeps P (get_user D i)" "keeps P (the_instance D i)" "keeps P (the_user D i)"
  "keeps P (memberships_of D u)" "keeps P (email_free D e)" "keeps P (support_instance D i)"
  "keeps P (invoicing_instance D i)" "keeps P (the_membership D inst i u)"
  unfolding get_instance_def get_user_def the_instance_def the_user_def memberships_of_def email_free_def
    support_instance_def invoicing_instance_def the_membership_def
  by (intro keeps_intros)+

text \<open>A write to another table.\<close>

lemma commit_elsewhere: "s' = s \<or> commits ss s [r] s' \<Longrightarrow> fst (target r) \<noteq> t \<Longrightarrow> s' t = s t"
proof (erule disjE)
  assume c: "commits ss s [r] s'" and "fst (target r) \<noteq> t"
  then have "(t, k) \<notin> target ` set [r]" for k by (cases "target r") auto
  from commits_other [OF c this] show "s' t = s t" by (rule ext)
qed simp

lemma plain_elsewhere:
  assumes "send_plain (dk_db D) r s = (x, s')" "fst (target r) \<noteq> t"
  shows "s' t = s t"
  using commit_elsewhere [OF plain_any [OF assms(1) [unfolded handler]] assms(2)] .

lemma existing_elsewhere:
  assumes "send_existing (dk_db D) msg r s = (x, s')" "fst (target r) \<noteq> t"
  shows "s' t = s t"
  using commit_elsewhere [OF existing_any [OF assms(1) [unfolded handler]] assms(2)] .

lemma keeps_elsewhere:
  assumes "\<And>n s r s'. m n s = (r, s') \<Longrightarrow> s' t = s t"
  shows "keeps (\<lambda>s. Q (s t)) (db_write D m)"
  using assms by (intro keeps_write) simp

lemmas elsewhere = plain_elsewhere existing_elsewhere

lemma address_writes:
  "create_inbound_address (dk_db D) now a i kd s = (r, s') \<Longrightarrow> t \<noteq> ''inbound_address'' \<Longrightarrow> s' t = s t"
  "delete_inbound_address (dk_db D) a s = (r2, s') \<Longrightarrow> t \<noteq> ''inbound_address'' \<Longrightarrow> s' t = s t"
  unfolding create_inbound_address_def delete_inbound_address_def Let_def
  by (auto split: prod.splits elim: elsewhere)

lemma membership_writes:
  "create_membership (dk_db D) i u inst role s = (r, s') \<Longrightarrow> t \<noteq> ''membership'' \<Longrightarrow> s' t = s t"
  "delete_membership (dk_db D) i s = (r2, s') \<Longrightarrow> t \<noteq> ''membership'' \<Longrightarrow> s' t = s t"
  "update_membership_role (dk_db D) i role s = (r2, s') \<Longrightarrow> t \<noteq> ''membership'' \<Longrightarrow> s' t = s t"
  unfolding create_membership_def delete_membership_def update_membership_role_def Let_def
  by (auto split: prod.splits elim: elsewhere)

lemma instance_writes:
  "create_instance (dk_db D) i now nm sl fn sg pub kd s = (r3, s') \<Longrightarrow> t \<noteq> ''instance'' \<Longrightarrow> s' t = s t"
  "update_instance (dk_db D) i ch s = (r2, s') \<Longrightarrow> t \<noteq> ''instance'' \<Longrightarrow> s' t = s t"
  unfolding create_instance_def update_instance_def Let_def
  by (auto split: prod.splits elim: elsewhere)

lemma user_writes:
  "create_user (dk_db D) i now e nm s = (r3, s') \<Longrightarrow> t \<noteq> ''user'' \<Longrightarrow> s' t = s t"
  "update_user (dk_db D) now i ch s = (r2, s') \<Longrightarrow> t \<noteq> ''user'' \<Longrightarrow> s' t = s t"
  unfolding create_user_def update_user_def Let_def
  by (auto split: prod.splits elim: elsewhere)

lemma keeps_delete_memberships: "t \<noteq> ''membership'' \<Longrightarrow> keeps (\<lambda>s. Q (s t)) (delete_memberships D ms)"
  by (induction ms) (simp_all add: keeps_return keeps_bind keeps_elsewhere membership_writes)

text \<open>What a write does to its own table.\<close>

lemma plain_put:
  assumes "send_plain (dk_db D) (Put t k it c) s = (r, s')"
  shows "s' t = s t \<or> holds c (attrs_of (s t k)) \<and> s' t = (s t)(k \<mapsto> it)"
  using plain_any [OF assms [unfolded handler]]
  by (auto simp: commits_single cond_holds_def apply_write_def set_row_def)

lemma plain_delete:
  assumes "send_plain (dk_db D) (Delete t k c) s = (r, s')"
  shows "s' t = s t \<or> s' t = (s t)(k := None)"
  using plain_any [OF assms [unfolded handler]]
  by (auto simp: commits_single cond_holds_def apply_write_def set_row_def)

lemma existing_update:
  assumes "send_existing (dk_db D) msg (Update t kn k acts (CExists ''id'')) s = (r, s')"
  shows "s' t = s t \<or> (\<exists>it. s t k = Some it \<and> s' t = (s t)(k \<mapsto> fold (apply_action (dy_ss d)) acts it))"
  using existing_any [OF assms [unfolded handler]]
  by (auto simp: commits_single cond_holds_def apply_write_def set_row_def update_base_def attrs_of_def split: option.splits)

lemma user_table:
  "create_user (dk_db D) i now e nm s = (r, s') \<Longrightarrow>
     s' ''user'' = s ''user'' \<or> s' ''user'' = (s ''user'')(i \<mapsto> user_row i now e nm)"
  "update_user (dk_db D) now i ch s = (r2, s') \<Longrightarrow> s' ''user'' = s ''user''
     \<or> (\<exists>it. s ''user'' i = Some it \<and> s' ''user'' = (s ''user'')(i \<mapsto> fold (apply_action (dy_ss d)) (user_actions now ch) it))"
  unfolding create_user_def update_user_def Let_def
  by (auto split: prod.splits dest: plain_put existing_update)

lemma instance_table:
  "create_instance (dk_db D) i now nm sl fn sg pub kd s = (r, s') \<Longrightarrow> s' ''instance'' = s ''instance''
     \<or> attrs_of (s ''instance'' i) ''id'' = None \<and> s' ''instance'' = (s ''instance'')(i \<mapsto> instance_row i now nm sl fn sg pub kd)"
  "update_instance (dk_db D) i ch s = (r2, s') \<Longrightarrow> s' ''instance'' = s ''instance''
     \<or> (\<exists>it. s ''instance'' i = Some it \<and> s' ''instance'' = (s ''instance'')(i \<mapsto> fold (apply_action (dy_ss d)) (instance_actions ch) it))"
  unfolding create_instance_def update_instance_def Let_def
  by (auto split: prod.splits dest: plain_put existing_update)

lemma membership_table:
  "delete_membership (dk_db D) i s = (r2, s') \<Longrightarrow> s' ''membership'' = s ''membership'' \<or> s' ''membership'' = (s ''membership'')(i := None)"
  unfolding delete_membership_def by (rule plain_delete)

subsection \<open>The table of users\<close>

lemma keeps_users:
  assumes new: "\<And>T n now e nm. Q T \<Longrightarrow> Q (T(dk_id D n \<mapsto> user_row (dk_id D n) now e nm))"
    and email: "\<And>T i it e. Q T \<Longrightarrow> T i = Some it \<Longrightarrow> Q (T(i \<mapsto> it(''email'' \<mapsto> AS e)))"
    and fields: "\<And>T i it nm en. Q T \<Longrightarrow> T i = Some it \<Longrightarrow> en \<or> \<not> caller_is D i \<Longrightarrow>
      Q (T(i \<mapsto> it(''name'' \<mapsto> AS nm, ''enabled'' \<mapsto> ABool en)))"
  shows "keeps (\<lambda>s. Q (s ''user'')) (run_admin D a)"
proof -
  note other = keeps_elsewhere keeps_delete_memberships address_writes membership_writes instance_writes
  have create: "keeps (\<lambda>s. Q (s ''user'')) (db_write D (\<lambda>n. create_user (dk_db D) (dk_id D n) (dk_clock D n) e nm))" for e nm
    by (rule keeps_write) (auto dest!: user_table(1) intro: new)
  have set_email: "keeps (\<lambda>s. Q (s ''user'')) (db_write D (\<lambda>n. update_user (dk_db D) (dk_clock D n) i (SetEmail e)))" for i e
    by (rule keeps_write) (auto dest!: user_table(2) intro: email)
  have set_fields: "keeps (\<lambda>s. Q (s ''user'')) (db_write D (\<lambda>n. update_user (dk_db D) (dk_clock D n) i (UserFields nm en)))"
    if "en \<or> \<not> caller_is D i" for i nm en
    using that by (intro keeps_write) (auto dest!: user_table(2) intro: fields)
  have update: "keeps (\<lambda>s. Q (s ''user'')) (m_update_user D i nm e en)" for i nm e en
    unfolding m_update_user_def
    by (intro keeps_bind keeps_guard keeps_caller keeps_name keeps_email keeps_reads keeps_checked keeps_if
        keeps_return set_email set_fields) (auto simp: caller_is_def)
  have delete: "keeps (\<lambda>s. Q (s ''user'')) (m_delete_user D i)" for i
    unfolding m_delete_user_def
    by (intro keeps_bind keeps_guard keeps_caller keeps_reads keeps_checked keeps_return set_fields keeps_delete_memberships)
      (auto simp: caller_is_def)
  show ?thesis
    by (cases a) (simp_all add: m_add_inbound_address_def m_remove_inbound_address_def m_create_instance_def
        m_update_instance_def m_set_instance_deleted_def m_create_user_def m_add_member_def m_remove_member_def
        m_set_member_role_def m_update_invoicing_settings_def Let_def update delete create other keeps_intros
        split: option.splits)
qed

end

lemma keeps_run_admins: "(\<And>a. keeps P (run_admin D a)) \<Longrightarrow> P (w_db w) \<Longrightarrow> P (w_db (run_admins D as w))"
  by (induction "as" arbitrary: w) (simp_all add: keepsD)

text \<open>
  The superuser flag comes from outside. Whatever administrative requests are made, a user who is a
  superuser afterwards was one before; and the user who makes them, if enabled, stays enabled, so no
  superuser can lock themselves out.
\<close>

theorem superuser_flag_from_outside:
  assumes "solo_desk d h q D" "dk_auth D = Some (User u ms su tk g)" "\<forall>n. dk_id D n \<noteq> u"
  shows "(attrs_of (w_db (run_admins D requests w) ''user'' k) ''superuser'' = Some (ABool True)
      \<longrightarrow> attrs_of (w_db w ''user'' k) ''superuser'' = Some (ABool True))
    \<and> (attrs_of (w_db w ''user'' u) ''enabled'' = Some (ABool True)
      \<longrightarrow> attrs_of (w_db (run_admins D requests w) ''user'' u) ''enabled'' = Some (ABool True))"
proof (intro conjI impI)
  let ?s = "w_db w" and ?s' = "w_db (run_admins D requests w)"
  let ?flag = "\<lambda>T. attrs_of (T k) ''superuser'' = Some (ABool True) \<longrightarrow> attrs_of (?s ''user'' k) ''superuser'' = Some (ABool True)"
  have "keeps (\<lambda>s. ?flag (s ''user'')) (run_admin D a)" for a
    by (rule solo_desk.keeps_users [OF assms(1)]) (auto simp: user_row_def attrs_of_def split: if_splits)
  from keeps_run_admins [OF this, of w requests] have "?flag (?s' ''user'')" by simp
  then show "attrs_of (?s' ''user'' k) ''superuser'' = Some (ABool True) \<Longrightarrow> attrs_of (?s ''user'' k) ''superuser'' = Some (ABool True)"
    by simp
  let ?on = "\<lambda>T. attrs_of (T u) ''enabled'' = Some (ABool True)"
  have "keeps (\<lambda>s. ?on (s ''user'')) (run_admin D a)" for a
    using assms(2,3) by (intro solo_desk.keeps_users [OF assms(1)]) (auto simp: attrs_of_def caller_is_def)
  from keeps_run_admins [OF this] show "?on (?s ''user'') \<Longrightarrow> ?on (?s' ''user'')" by blast
qed

end
