(* ===== verification/Admin_Rows.thy ===== *)
theory Admin_Rows
  imports Admin_Safety Token_Safety
begin

section \<open>Well-formed instances, unique names\<close>

text \<open>
  The state invariant of administration: every instance row hydrates, only support instances accept
  public submissions and a currency is a valid code; the slug and kind of an instance never change;
  no two instances share a slug and no two users an address.
\<close>

subsection \<open>Rows of instances\<close>

lemma other_field [simp]:
  "a \<noteq> f \<Longrightarrow> string_field (it(a := v)) f = string_field it f"
  "a \<noteq> f \<Longrightarrow> bool_field (it(a := v)) f = bool_field it f"
  "a \<noteq> f \<Longrightarrow> need_string (it(a := v)) f m = need_string it f m"
  "a \<noteq> f \<Longrightarrow> need_i64 (it(a := v)) f m = need_i64 it f m"
  "a \<noteq> ''id'' \<Longrightarrow> item_id_field (it(a := v)) = item_id_field it"
  by (simp_all add: string_field_def bool_field_def i64_field_def need_string_def need_i64_def item_id_field_def)

lemma this_field [simp]:
  "string_field (it(f := map_option AS v)) f = Inr v"
  "string_field (it(f \<mapsto> AS x)) f = Inr (Some x)"
  "need_string (it(f \<mapsto> AS x)) f m = Inr x"
  "bool_field (it(f := (if b then Some (ABool True) else None))) f = Inr (if b then Some True else None)"
  by (cases v; simp add: string_field_def bool_field_def need_string_def)+

lemma hydrate_fields:
  "hydrate_instance it = Inr i \<Longrightarrow>
     hydrate_instance (it(''name'' \<mapsto> AS nm, ''from_name'' \<mapsto> AS fn, ''signature'' \<mapsto> AS sg,
        ''public_submission_enabled'' := (if pub then Some (ABool True) else None)))
     = Inr (i\<lparr>inst_name := nm, inst_from_name := fn, inst_signature := sg, inst_public_submission_enabled := pub\<rparr>)"
  by (auto simp: hydrate_instance_def simp del: need_string_iff need_i64_iff item_id_field_iff)

lemma hydrate_deleted:
  "hydrate_instance it = Inr i \<Longrightarrow>
     hydrate_instance (it(''deleted'' := (if b then Some (ABool True) else None))) = Inr (i\<lparr>inst_deleted := b\<rparr>)"
  by (auto simp: hydrate_instance_def simp del: need_string_iff need_i64_iff item_id_field_iff)

lemma hydrate_settings:
  "hydrate_instance it = Inr i \<Longrightarrow>
     hydrate_instance (it(''business_name'' := map_option AS bn, ''business_abn'' := map_option AS ba,
        ''business_address'' := map_option AS bd, ''business_phone'' := map_option AS bp,
        ''business_email'' := map_option AS be, ''payment_details'' := map_option AS pd, ''currency'' := map_option AS cu,
        ''gst_registered'' := (if gst then Some (ABool True) else None)))
     = Inr (i\<lparr>inst_business_name := bn, inst_business_abn := ba, inst_business_address := bd, inst_business_phone := bp,
         inst_business_email := be, inst_payment_details := pd, inst_gst_registered := gst, inst_currency := cu\<rparr>)"
  by (auto simp: hydrate_instance_def simp del: need_string_iff need_i64_iff item_id_field_iff)

lemma hydrate_new_row:
  "in_i64 (int now) \<Longrightarrow> hydrate_instance (instance_row i now nm sl fn sg pub kd) =
     Inr \<lparr>inst_id = i, inst_name = nm, inst_slug = sl, inst_kind = kd, inst_public_submission_enabled = pub,
       inst_from_name = fn, inst_signature = sg, inst_created_at = as_u64 (int now), inst_deleted = False,
       inst_business_name = None, inst_business_abn = None, inst_business_address = None, inst_business_phone = None,
       inst_business_email = None, inst_payment_details = None, inst_gst_registered = False, inst_currency = None\<rparr>"
  by (cases pub; cases kd) (simp_all add: hydrate_instance_def instance_row_def row_simps parse_instance_kind_def)

subsection \<open>The invariant of instances\<close>

definition sound_instance :: "org_instance \<Rightarrow> bool" where
  "sound_instance i \<longleftrightarrow>
     (inst_public_submission_enabled i \<longrightarrow> inst_kind i = Support)
     \<and> (case inst_currency i of None \<Rightarrow> True | Some c \<Rightarrow> validate_currency_code c = Inr ())"

definition sound_instances :: "(string \<Rightarrow> item option) \<Rightarrow> bool" where
  "sound_instances T \<longleftrightarrow>
     (\<forall>k it. T k = Some it \<longrightarrow> (\<exists>i. hydrate_instance it = Inr i \<and> inst_id i = k \<and> sound_instance i))"

text \<open>Instances are never removed, and keep their slug and kind.\<close>

definition same_instances :: "(string \<Rightarrow> item option) \<Rightarrow> (string \<Rightarrow> item option) \<Rightarrow> bool" where
  "same_instances T0 T \<longleftrightarrow>
     (\<forall>k it. T0 k = Some it \<longrightarrow> (\<exists>it'. T k = Some it' \<and> it' ''slug'' = it ''slug'' \<and> it' ''kind'' = it ''kind''))"

definition instances_kept :: "(string \<Rightarrow> item option) \<Rightarrow> (string \<Rightarrow> item option) \<Rightarrow> bool" where
  "instances_kept T0 T \<longleftrightarrow> sound_instances T \<and> same_instances T0 T"

lemma sound_row: "instances_kept T0 T \<Longrightarrow> T k = Some it \<Longrightarrow> \<exists>i. hydrate_instance it = Inr i \<and> inst_id i = k \<and> sound_instance i"
  by (auto simp: instances_kept_def sound_instances_def)

lemma instances_kept_update:
  assumes "instances_kept T0 T" "T k = Some it" "hydrate_instance it = Inr i" "hydrate_instance it' = Inr i'"
    and "inst_id i' = inst_id i" "sound_instance i'" "it' ''slug'' = it ''slug''" "it' ''kind'' = it ''kind''"
  shows "instances_kept T0 (T(k \<mapsto> it'))"
  unfolding instances_kept_def
proof
  have "inst_id i = k" using sound_row [OF assms(1,2)] assms(3) by auto
  then show "sound_instances (T(k \<mapsto> it'))" using assms by (auto simp: instances_kept_def sound_instances_def)
  show "same_instances T0 (T(k \<mapsto> it'))"
    using assms(1,2,7,8) by (fastforce simp: instances_kept_def same_instances_def)
qed

lemma same_row_hydrates:
  "instances_kept T0 T \<Longrightarrow> T k = None \<or> attrs_of (T k) ''id'' = None \<Longrightarrow> T k = None"
  by (cases "T k") (fastforce simp: attrs_of_def instances_kept_def sound_instances_def hydrate_instance_def)+

lemma instances_kept_new:
  assumes "instances_kept T0 T" "attrs_of (T i) ''id'' = None" "in_i64 (int now)" "pub \<longrightarrow> kd = Support"
  shows "instances_kept T0 (T(i \<mapsto> instance_row i now nm sl fn sg pub kd))"
proof -
  have none: "T i = None" using same_row_hydrates [OF assms(1)] assms(2) by blast
  have "sound_instances (T(i \<mapsto> instance_row i now nm sl fn sg pub kd))"
    using assms(1,4) by (auto simp: instances_kept_def sound_instances_def hydrate_new_row [OF assms(3)] sound_instance_def)
  moreover have "same_instances T0 (T(i \<mapsto> instance_row i now nm sl fn sg pub kd))"
    using assms(1) none by (fastforce simp: instances_kept_def same_instances_def)
  ultimately show ?thesis by (simp add: instances_kept_def)
qed

definition clock_fits :: "desk \<Rightarrow> bool" where
  "clock_fits D \<longleftrightarrow> (\<forall>n. in_i64 (int (dk_clock D n)))"

lemma fold_instance_actions:
  "fold (apply_action ss) (instance_actions (InstanceFields nm fn sg pub)) it =
     it(''name'' \<mapsto> AS nm, ''from_name'' \<mapsto> AS fn, ''signature'' \<mapsto> AS sg,
        ''public_submission_enabled'' := (if pub then Some (ABool True) else None))"
  "fold (apply_action ss) (instance_actions (SetInstanceDeleted b)) it =
     it(''deleted'' := (if b then Some (ABool True) else None))"
  "fold (apply_action ss) (instance_actions (SetInvoicingSettings st)) it =
     it(''business_name'' := map_option AS (st_business_name st), ''business_abn'' := map_option AS (st_business_abn st),
        ''business_address'' := map_option AS (st_business_address st), ''business_phone'' := map_option AS (st_business_phone st),
        ''business_email'' := map_option AS (st_business_email st), ''payment_details'' := map_option AS (st_payment_details st),
        ''currency'' := map_option AS (st_currency st), ''gst_registered'' := (if st_gst_registered st then Some (ABool True) else None))"
  by (simp_all add: flag_action_def apply_set_or_remove)

lemma id_hydrate_instance: "id_hydrate hydrate_instance inst_id"
  by (auto simp: id_hydrate_def hydrate_instance_def)

lemma keyed_sound: "instances_kept T0 (s ''instance'') \<Longrightarrow> keyed s ''instance''"
  using sound_row [of T0 "s ''instance''"] id_hydrate_instance by (fastforce simp: keyed_def id_hydrate_def)

lemma triple_lifted:
  "(\<And>x. r = Inr x \<Longrightarrow> triple P (k x) Q E) \<Longrightarrow> (\<And>s. P s \<Longrightarrow> E s) \<Longrightarrow> triple P (sbind (slift r) k) Q E"
  by (rule triple_bind [where R = "\<lambda>x s. r = Inr x \<and> P s"], rule triple_lift) (auto intro: triple_fact)

lemma triple_checked:
  "(b \<Longrightarrow> triple P (k ()) Q E) \<Longrightarrow> (\<And>s. P s \<Longrightarrow> E s) \<Longrightarrow> triple P (sbind (sensure_api b e) k) Q E"
  unfolding sensure_api_def by (rule triple_bind [where R = "\<lambda>_ s. b \<and> P s"], rule triple_ensure) (auto intro: triple_fact)

lemma settings_currency:
  "normalize_settings input = Inr st \<Longrightarrow> case st_currency st of None \<Rightarrow> True | Some c \<Rightarrow> validate_currency_code c = Inr ()"
  by (auto simp: normalize_settings_def normalize_currency_def Let_def map_err_def validate_currency_code_def
      split: if_splits sum.splits)

context current_desk begin

lemma first_hydrated:
  assumes "get_records (dk_db D) t f rid [i] s = Inr rs" "id_hydrate f rid" "keyed s t" "first_row rs = Some x"
  shows "\<exists>it. s t i = Some it \<and> f it = Inr x"
proof -
  have "list_all2 (\<lambda>i r. hydrated f (s t i) = Inr r) [i] rs"
    by (rule get_records_spec [OF assms(1) [unfolded handler] svc assms(2,3)]) simp
  from single_row [OF this assms(4)] show ?thesis by (auto simp: hydrated_def split: option.splits)
qed

lemma triple_the_instance:
  assumes "\<And>s. P s \<Longrightarrow> keyed s ''instance''"
  shows "triple P (the_instance D i) (\<lambda>cur s. P s \<and> (\<exists>it. s ''instance'' i = Some it \<and> hydrate_instance it = Inr cur)) P"
  unfolding the_instance_def get_instance_def
proof (rule triple_bind [OF triple_read])
  show "P s" if "P s" for s by (rule that)
  show "P s \<and> (\<forall>cur. row = Some cur \<longrightarrow> (\<exists>it. s ''instance'' i = Some it \<and> hydrate_instance it = Inr cur))"
    if "P s" "rbind (get_instances (dk_db D) [i] s) (\<lambda>rs. Inr (first_row rs)) = Inr row" for s row
    using that assms [OF that(1)] first_hydrated [OF _ id_hydrate_instance]
    by (auto simp: get_instances_def)
  show "triple (\<lambda>s. P s \<and> (\<forall>cur. row = Some cur \<longrightarrow> (\<exists>it. s ''instance'' i = Some it \<and> hydrate_instance it = Inr cur)))
      (found e row) (\<lambda>cur s. P s \<and> (\<exists>it. s ''instance'' i = Some it \<and> hydrate_instance it = Inr cur)) P" for e row
    unfolding found_def by (rule triple_lift) (auto simp: ok_or_def split: option.splits)
qed

lemma keeps_instances:
  assumes "clock_fits D"
  shows "keeps (\<lambda>s. instances_kept T0 (s ''instance'')) (run_admin D a)"
proof -
  let ?P = "\<lambda>s :: store. instances_kept T0 (s ''instance'')"
  note other = keeps_elsewhere keeps_delete_memberships address_writes membership_writes user_writes
  have create: "keeps ?P (db_write D (\<lambda>n. create_instance (dk_db D) (dk_id D n) (dk_clock D n) nm sl fn sg pub kd))"
    if "pub \<longrightarrow> kd = Support" for nm sl fn sg pub kd
    using that assms by (intro keeps_write)
      (auto dest!: instance_table(1) intro!: instances_kept_new simp: clock_fits_def)
  have new: "keeps ?P (m_create_instance D nm sl fn sg pub kd)" for nm sl fn sg pub kd
    unfolding m_create_instance_def Let_def
    by (intro keeps_bind keeps_guard keeps_name keeps_lift keeps_read keeps_ensure keeps_checked create) auto
  have del: "keeps ?P (db_write D (\<lambda>n. update_instance (dk_db D) i (SetInstanceDeleted b)))" for i b
  proof (rule keeps_write)
    fix n s r s' assume P: "?P s" and run: "update_instance (dk_db D) i (SetInstanceDeleted b) s = (r, s')"
    show "?P s'"
      using instance_table(2) [OF run]
    proof (elim disjE exE conjE)
      fix it assume it: "s ''instance'' i = Some it"
        and s': "s' ''instance'' = (s ''instance'')(i \<mapsto> fold (apply_action (dy_ss d)) (instance_actions (SetInstanceDeleted b)) it)"
      from sound_row [OF P it] obtain x where "hydrate_instance it = Inr x" "sound_instance x" by blast
      with instances_kept_update [OF P it _ hydrate_deleted] show ?thesis
        unfolding s' fold_instance_actions by (auto simp: sound_instance_def)
    qed (simp add: P)
  qed
  have settings: "keeps ?P (db_write D (\<lambda>n. update_instance (dk_db D) i (SetInvoicingSettings st)))"
    if "case st_currency st of None \<Rightarrow> True | Some c \<Rightarrow> validate_currency_code c = Inr ()" for i st
  proof (rule keeps_write)
    fix n s r s' assume P: "?P s" and run: "update_instance (dk_db D) i (SetInvoicingSettings st) s = (r, s')"
    show "?P s'"
      using instance_table(2) [OF run]
    proof (elim disjE exE conjE)
      fix it assume it: "s ''instance'' i = Some it"
        and s': "s' ''instance'' = (s ''instance'')(i \<mapsto> fold (apply_action (dy_ss d)) (instance_actions (SetInvoicingSettings st)) it)"
      from sound_row [OF P it] obtain x where "hydrate_instance it = Inr x" "sound_instance x" by blast
      with instances_kept_update [OF P it _ hydrate_settings] that show ?thesis
        unfolding s' fold_instance_actions by (auto simp: sound_instance_def)
    qed (simp add: P)
  qed
  have upd_settings: "keeps ?P (m_update_invoicing_settings D i input)" for i input
    unfolding m_update_invoicing_settings_def keeps_def lift_api_def
    by (rule triple_bind [OF keeps_triple [OF keeps_guard]], rule triple_bind [OF keeps_triple [OF keeps_reads(8)]],
        rule triple_lifted, rule triple_bind [OF keeps_triple [OF settings]])
      (auto simp: map_err_def split: sum.splits dest: settings_currency intro: triple_return)
  have fields: "triple (\<lambda>s. ?P s \<and> (\<exists>it. s ''instance'' i = Some it \<and> hydrate_instance it = Inr cur))
      (db_write D (\<lambda>n. update_instance (dk_db D) i (InstanceFields nm fn sg pub))) (\<lambda>_. ?P) ?P"
    if "pub \<longrightarrow> inst_kind cur = Support" for i cur nm fn sg pub
  proof (rule triple_write)
    fix n s r s' assume pre: "?P s \<and> (\<exists>it. s ''instance'' i = Some it \<and> hydrate_instance it = Inr cur)"
      and run: "update_instance (dk_db D) i (InstanceFields nm fn sg pub) s = (r, s')"
    from pre obtain it where P: "?P s" and it: "s ''instance'' i = Some it" "hydrate_instance it = Inr cur" by blast
    with sound_row [OF P it(1)] have sound: "sound_instance cur" by auto
    have "?P s'"
      using instance_table(2) [OF run]
    proof (elim disjE exE conjE)
      fix it' assume "s ''instance'' i = Some it'"
        and s': "s' ''instance'' = (s ''instance'')(i \<mapsto> fold (apply_action (dy_ss d)) (instance_actions (InstanceFields nm fn sg pub)) it')"
      with it have eq: "it' = it" by simp
      from instances_kept_update [OF P it hydrate_fields [OF it(2)]] sound that show ?thesis
        unfolding s' fold_instance_actions eq by (auto simp: sound_instance_def)
    qed (simp add: P)
    then show "case r of Inl e \<Rightarrow> ?P s' | Inr x \<Rightarrow> ?P s'" by (simp split: sum.splits)
  qed
  have update: "keeps ?P (m_update_instance D i nm fn sg pub)" for i nm fn sg pub
    unfolding m_update_instance_def keeps_def
    by (rule triple_bind [OF keeps_triple [OF keeps_guard]], rule triple_bind [OF keeps_triple [OF keeps_name]],
        rule triple_bind [OF triple_the_instance], erule keyed_sound, rule triple_checked,
        rule triple_bind [OF fields], blast, rule triple_return) blast+
  show ?thesis
    by (cases a) (simp_all add: m_add_inbound_address_def m_remove_inbound_address_def m_set_instance_deleted_def
        m_create_user_def m_update_user_def m_delete_user_def m_add_member_def m_remove_member_def m_set_member_role_def
        Let_def update new upd_settings del other keeps_intros split: option.splits)
qed

end

text \<open>
  C32. Instances stay well formed. Every administrative request, alone on the desk, keeps the invariant:
  each instance row hydrates under its own id, only support instances accept public submissions,
  a currency is three capital letters; and no instance disappears or changes its slug or kind.
\<close>

theorem instances_stay_sound:
  assumes "current_desk d h q D" "clock_fits D" "sound_instances (w_db w ''instance'')"
  shows "sound_instances (w_db (run_admins D requests w) ''instance'')
    \<and> same_instances (w_db w ''instance'') (w_db (run_admins D requests w) ''instance'')"
proof -
  have "instances_kept (w_db w ''instance'') (w_db w ''instance'')"
    using assms(3) by (simp add: instances_kept_def same_instances_def)
  from keeps_run_admins [of "\<lambda>s. instances_kept (w_db w ''instance'') (s ''instance'')", OF current_desk.keeps_instances [OF assms(1,2)], OF this]
  show ?thesis by (simp add: instances_kept_def)
qed

end
