(* ===== verification/Admin_Rules.thy ===== *)
theory Admin_Rules
  imports Admin_Rows
begin

section \<open>Unique names, deleted users, refused requests\<close>

text \<open>
  Slugs and addresses stay unique while requests run one after another; a deleted user is out of
  every way in; a request that is refused leaves the store as it was.
\<close>

subsection \<open>Fields that name one row\<close>

definition field_free :: "(string \<Rightarrow> item option) \<Rightarrow> string \<Rightarrow> string \<Rightarrow> bool" where
  "field_free T f v \<longleftrightarrow> (\<forall>k it. T k = Some it \<longrightarrow> it f \<noteq> Some (AS v))"

definition unique_field :: "(string \<Rightarrow> item option) \<Rightarrow> string \<Rightarrow> bool" where
  "unique_field T f \<longleftrightarrow>
     (\<forall>k k' it it' v. T k = Some it \<longrightarrow> T k' = Some it' \<longrightarrow> it f = Some (AS v) \<longrightarrow> it' f = Some (AS v) \<longrightarrow> k = k')"

lemma unique_new: "unique_field T f \<Longrightarrow> it f = Some (AS v) \<Longrightarrow> field_free T f v \<Longrightarrow> unique_field (T(k \<mapsto> it)) f"
  unfolding unique_field_def field_free_def by (auto split: if_splits)

lemma unique_same: "unique_field T f \<Longrightarrow> T k = Some it \<Longrightarrow> it' f = it f \<Longrightarrow> unique_field (T(k \<mapsto> it')) f"
  unfolding unique_field_def by (auto split: if_splits)

lemma slug_kept: "fold (apply_action ss) (instance_actions ch) it ''slug'' = it ''slug''"
  by (cases ch; simp only: fold_instance_actions; simp)

context current_desk begin

lemma no_ids:
  assumes "rbind (query_ids (dk_query D) t f v s) (\<lambda>ids. at_most_one ids msg) = Inr None"
  shows "field_free (s t) f v"
proof -
  from assms have "query_ids (dk_query D) t f v s = Inr []"
    by (auto simp: at_most_one_def split: if_splits)
  then have "q s t f v = Inr []" by (auto simp: query_ids_def query mapM_Inr)
  from ix.query_rows [OF this] have none: "rows_with s t f v = {}" by auto
  have "it f \<noteq> Some (AS v)" if "s t k = Some it" for k it
    using none that by (auto simp: rows_with_def attrs_of_def dest: spec [of _ k])
  then show ?thesis by (simp add: field_free_def)
qed

lemma triple_free:
  "triple P (sbind (db_read D f) (\<lambda>taken. sbind (sensure_api (taken = None) e) k)) Q P"
  if "\<And>s. f s = Inr None \<Longrightarrow> R s" "\<And>x. triple (\<lambda>s. P s \<and> R s) (k x) Q P"
  unfolding sensure_api_def
  by (rule triple_bind [where R = "\<lambda>taken s. P s \<and> (taken = None \<longrightarrow> R s)"], rule triple_read)
    (auto intro!: that triple_bind [where R = "\<lambda>_ s. P s \<and> R s"] triple_ensure)

lemma triple_email_free: "triple P (email_free D e) (\<lambda>_ s. P s \<and> field_free (s ''user'') ''email'' e) P"
proof -
  have "triple P (db_read D (get_user_id_by_email (dk_query D) e))
     (\<lambda>taken s. P s \<and> (taken = None \<longrightarrow> field_free (s ''user'') ''email'' e)) P"
    by (rule triple_read) (use no_ids in \<open>auto simp: get_user_id_by_email_def\<close>)
  then show ?thesis
    unfolding email_free_def sensure_api_def by (rule triple_bind) (auto intro!: triple_ensure)
qed

lemma keeps_emails: "keeps (\<lambda>s. unique_field (s ''user'') ''email'') (run_admin D a)"
proof -
  let ?P = "\<lambda>s :: store. unique_field (s ''user'') ''email''"
  note other = keeps_elsewhere [where t = "''user''" and Q = "\<lambda>T. unique_field T ''email''"]
    keeps_delete_memberships [where t = "''user''" and Q = "\<lambda>T. unique_field T ''email''"] address_writes membership_writes instance_writes
  have create: "triple (\<lambda>s. ?P s \<and> field_free (s ''user'') ''email'' e)
      (db_write D (\<lambda>n. create_user (dk_db D) (dk_id D n) (dk_clock D n) e nm)) (\<lambda>_. ?P) ?P" for e nm
    by (rule triple_write) (auto dest!: user_table(1) intro!: unique_new simp: user_row_def split: sum.splits)
  have set_email: "triple (\<lambda>s. ?P s \<and> field_free (s ''user'') ''email'' e)
      (db_write D (\<lambda>n. update_user (dk_db D) (dk_clock D n) i (SetEmail e))) (\<lambda>_. ?P) ?P" for i e
    by (rule triple_write) (auto dest!: user_table(2) intro!: unique_new split: sum.splits)
  have fields: "keeps ?P (db_write D (\<lambda>n. update_user (dk_db D) (dk_clock D n) i (UserFields nm en)))" for i nm en
    by (rule keeps_write) (auto dest!: user_table(2), erule (1) unique_same, simp)
  have change: "keeps ?P (sbind (if c then email_free D e else sreturn ()) (\<lambda>_.
      sbind (if c then db_write D (\<lambda>n. update_user (dk_db D) (dk_clock D n) i (SetEmail e)) else sreturn ()) k))"
    if "\<And>x. keeps ?P (k x)" for c e i and k :: "unit \<Rightarrow> user run"
  proof (cases c)
    case True
    then show ?thesis
      using triple_bind [OF triple_email_free triple_bind [OF set_email keeps_triple [OF that]]] by (simp add: keeps_def)
  next
    case False
    then show ?thesis using that by (simp add: keeps_bind keeps_return)
  qed
  have new: "keeps ?P (m_create_user D e nm)" for e nm
  proof -
    have "keeps ?P (sbind (email_free D e) (\<lambda>_. db_write D (\<lambda>n. create_user (dk_db D) (dk_id D n) (dk_clock D n) e nm)))" for e nm
      unfolding keeps_def by (rule triple_bind [OF triple_email_free create])
    then show ?thesis unfolding m_create_user_def
      by (intro keeps_bind [OF keeps_guard] keeps_bind [OF keeps_name] keeps_bind [OF keeps_email])
  qed
  have update: "keeps ?P (m_update_user D i nm e en)" for i nm e en
    unfolding m_update_user_def
    by (intro keeps_bind [OF keeps_guard] keeps_bind [OF keeps_user_id] keeps_bind [OF keeps_name]
        keeps_bind [OF keeps_email] keeps_bind [OF keeps_reads(4)] keeps_bind [OF keeps_ensure] change
        keeps_bind [OF fields] keeps_return)
  have delete: "keeps ?P (m_delete_user D i)" for i
    unfolding m_delete_user_def
    by (intro keeps_bind keeps_guard keeps_user_id keeps_reads keeps_ensure keeps_return fields keeps_delete_memberships) simp
  show ?thesis
    by (cases a) (simp_all add: m_add_inbound_address_def m_remove_inbound_address_def m_create_instance_def
        m_update_instance_def m_set_instance_deleted_def m_add_member_def m_remove_member_def
        m_set_member_role_def m_update_invoicing_settings_def Let_def update delete new other keeps_intros
        split: option.splits)
qed

lemma keeps_slugs: "keeps (\<lambda>s. unique_field (s ''instance'') ''slug'') (run_admin D a)"
proof -
  let ?P = "\<lambda>s :: store. unique_field (s ''instance'') ''slug''"
  note other = keeps_elsewhere [where t = "''instance''" and Q = "\<lambda>T. unique_field T ''slug''"]
    keeps_delete_memberships [where t = "''instance''" and Q = "\<lambda>T. unique_field T ''slug''"] address_writes membership_writes user_writes
  have create: "triple (\<lambda>s. ?P s \<and> field_free (s ''instance'') ''slug'' sl)
      (db_write D (\<lambda>n. create_instance (dk_db D) (dk_id D n) (dk_clock D n) nm sl fn sg pub kd)) (\<lambda>_. ?P) ?P"
    for nm sl fn sg pub kd
    by (rule triple_write) (auto dest!: instance_table(1) intro!: unique_new simp: instance_row_def split: sum.splits)
  have fields: "keeps ?P (db_write D (\<lambda>n. update_instance (dk_db D) i ch))" for i ch
    by (rule keeps_write) (auto dest!: instance_table(2), erule (1) unique_same, rule slug_kept)
  have taken: "get_instance_id_by_slug (dk_query D) sl s = Inr None \<Longrightarrow> field_free (s ''instance'') ''slug'' sl" for sl s
    by (rule no_ids) (simp add: get_instance_id_by_slug_def)
  have new: "keeps ?P (m_create_instance D nm sl fn sg pub kd)" for nm sl fn sg pub kd
    unfolding m_create_instance_def Let_def
    by (intro keeps_bind [OF keeps_guard] keeps_bind [OF keeps_name] keeps_bind [OF keeps_lift])
      (unfold keeps_def, rule triple_free [where R = "\<lambda>s. field_free (s ''instance'') ''slug'' (trim sl)"], erule taken,
       rule triple_checked, rule create, blast)
  show ?thesis
    by (cases a) (simp_all add: m_add_inbound_address_def m_remove_inbound_address_def
        m_update_instance_def m_set_instance_deleted_def m_create_user_def m_update_user_def m_delete_user_def m_add_member_def m_remove_member_def
        m_set_member_role_def m_update_invoicing_settings_def Let_def new fields other keeps_intros
        split: option.splits)
qed

end

text \<open>
  C31. Names stay unique. However many administrative requests run, one after another, no two instances
  share a slug and no two users an address, if none did before.
\<close>

theorem names_stay_unique:
  assumes "current_desk d h q D" "unique_field (w_db w ''instance'') ''slug''" "unique_field (w_db w ''user'') ''email''"
  shows "unique_field (w_db (run_admins D requests w) ''instance'') ''slug''
    \<and> unique_field (w_db (run_admins D requests w) ''user'') ''email''"
  using keeps_run_admins [of "\<lambda>s. unique_field (s ''instance'') ''slug''", OF current_desk.keeps_slugs [OF assms(1)] assms(2)]
    keeps_run_admins [of "\<lambda>s. unique_field (s ''user'') ''email''", OF current_desk.keeps_emails [OF assms(1)] assms(3)]
  by blast


subsection \<open>A deleted user\<close>

definition user_off :: "store \<Rightarrow> string \<Rightarrow> bool" where
  "user_off s i \<longleftrightarrow> (\<forall>it. s ''user'' i = Some it \<longrightarrow> it ''enabled'' = Some (ABool False))"

definition belongs_only :: "store \<Rightarrow> string \<Rightarrow> string set \<Rightarrow> bool" where
  "belongs_only s i K \<longleftrightarrow> (\<forall>k it. s ''membership'' k = Some it \<longrightarrow> it ''user_id'' = Some (AS i) \<longrightarrow> k \<in> K)"

lemma user_off_backed: "user_off s i \<Longrightarrow> \<not> backed s i ms su"
  by (auto simp: user_off_def backed_def hydrate_user_def bool_or_def bool_field_def split: option.splits)

context current_desk begin

lemma listed_memberships:
  assumes "list_memberships_by_user (dk_query D) i s = Inr ms" "keyed s ''membership''"
  shows "belongs_only s i (mb_id ` set ms)"
  unfolding belongs_only_def
proof (intro allI impI)
  fix k it assume k: "s ''membership'' k = Some it" "it ''user_id'' = Some (AS i)"
  from assms(1) obtain its where its: "q s ''membership'' ''user_id'' i = Inr its"
    and all: "list_all2 (\<lambda>it m. hydrate_membership it = Inr m) its ms"
    by (auto simp: list_memberships_by_user_def query_all_def query mapM_Inr)
  from ix.query_rows [OF its(1)] obtain ks where ks: "set ks = rows_with s ''membership'' ''user_id'' i"
      "its = map (\<lambda>k. attrs_of (s ''membership'' k)) ks" by blast
  have "k \<in> set ks" unfolding ks(1) using k by (simp add: rows_with_def attrs_of_def)
  then have "it \<in> set its" unfolding ks(2) using k by (force simp: attrs_of_def)
  from all2_left [OF all this] obtain m where "m \<in> set ms" "hydrate_membership it = Inr m" by blast
  moreover have "it ''id'' = Some (AS k)" using assms(2) k by (simp add: keyed_def)
  ultimately show "k \<in> mb_id ` set ms" using hydrate_membershipD by fastforce
qed

lemma triple_delete_memberships:
  "triple (\<lambda>s. R s \<and> belongs_only s i (mb_id ` set ms)) (delete_memberships D ms) (\<lambda>_ s. R s \<and> belongs_only s i {}) (\<lambda>_. True)"
  if R: "\<And>s s'. R s \<Longrightarrow> (\<And>t. t \<noteq> ''membership'' \<Longrightarrow> s' t = s t) \<Longrightarrow> R s'" for R :: "store \<Rightarrow> bool"
proof (induction ms)
  case Nil
  show ?case by (simp add: triple_return)
next
  case (Cons m ms)
  have "triple (\<lambda>s. R s \<and> belongs_only s i (mb_id ` set (m # ms))) (db_write D (\<lambda>n. delete_membership (dk_db D) (mb_id m)))
     (\<lambda>_ s. R s \<and> belongs_only s i (mb_id ` set ms)) (\<lambda>_. True)"
  proof (rule triple_write)
    fix n s r s' assume s: "R s \<and> belongs_only s i (mb_id ` set (m # ms))" and run: "delete_membership (dk_db D) (mb_id m) s = (r, s')"
    have "R s'" using s R membership_writes(2) [OF run] by blast
    moreover have "belongs_only s' i (mb_id ` set ms)" if "r = Inr u" for u
    proof -
      from run that have "commits (dy_ss d) s [Delete ''membership'' (mb_id m) CTrue] s'"
        by (simp add: delete_membership_def handler plain_ok)
      then have "s' ''membership'' = (s ''membership'')(mb_id m := None)"
        by (auto simp: commits_single apply_write_def set_row_def)
      with s show ?thesis by (auto simp: belongs_only_def split: if_splits)
    qed
    ultimately show "case r of Inl e \<Rightarrow> True | Inr x \<Rightarrow> R s' \<and> belongs_only s' i (mb_id ` set ms)"
      by (auto split: sum.splits)
  qed
  from triple_bind [OF this Cons.IH] show ?case by simp
qed

lemma triple_disable:
  "triple (\<lambda>s. keyed s ''user'' \<and> keyed s ''user_token'' \<and> keyed s ''membership'')
     (db_write D (\<lambda>n. update_user (dk_db D) (dk_clock D n) i (UserFields nm False)))
     (\<lambda>_ s. (user_off s i \<and> keyed s ''user'' \<and> keyed s ''user_token'') \<and> keyed s ''membership'') (\<lambda>_. True)"
proof (rule triple_write)
  fix n s r s' assume s: "keyed s ''user'' \<and> keyed s ''user_token'' \<and> keyed s ''membership''"
    and run: "update_user (dk_db D) (dk_clock D n) i (UserFields nm False) s = (r, s')"
  have "user_off s' i" if "r = Inr u" for u
  proof -
    from run that have "commits (dy_ss d) s [Update ''user'' ''id'' i (user_actions (dk_clock D n) (UserFields nm False)) (CExists ''id'')] s'"
      using send_existing_ok [OF svc] by (simp add: update_user_def handler)
    then show ?thesis by (auto simp: commits_single apply_write_def set_row_def user_off_def)
  qed
  moreover have "keyed s' t" if "t \<in> {''user'', ''user_token'', ''membership''}" for t
    using that user_writes(2) [OF run] user_table(2) [OF run] s by (auto simp: keyed_def split: if_splits)
  ultimately show "case r of Inl e \<Rightarrow> True | Inr x \<Rightarrow> (user_off s' i \<and> keyed s' ''user'' \<and> keyed s' ''user_token'') \<and> keyed s' ''membership''"
    by (auto split: sum.splits)
qed

lemma triple_delete_user:
  "triple (\<lambda>s. keyed s ''user'' \<and> keyed s ''user_token'' \<and> keyed s ''membership'') (m_delete_user D i)
     (\<lambda>_ s. (user_off s i \<and> keyed s ''user'' \<and> keyed s ''user_token'') \<and> belongs_only s i {}) (\<lambda>_. True)"
  (is "triple ?P _ ?Q ?E")
proof -
  let ?R = "\<lambda>s. user_off s i \<and> keyed s ''user'' \<and> keyed s ''user_token''"
  have listed: "triple (\<lambda>s. ?R s \<and> keyed s ''membership'') (memberships_of D i)
     (\<lambda>ms s. ?R s \<and> belongs_only s i (mb_id ` set ms)) ?E"
    unfolding memberships_of_def by (rule triple_read) (auto intro: listed_memberships)
  have removed: "triple (\<lambda>s. ?R s \<and> belongs_only s i (mb_id ` set ms)) (delete_memberships D ms)
     (\<lambda>_ s. ?R s \<and> belongs_only s i {}) ?E" for ms
    by (rule triple_delete_memberships) (auto simp: user_off_def keyed_def)
  have weaken: "keeps ?P m \<Longrightarrow> triple ?P m (\<lambda>_. ?P) ?E" for m :: "'x run"
    by (rule triple_post [OF keeps_triple]) auto
  show ?thesis
    unfolding m_delete_user_def
    by (rule triple_bind [OF weaken [OF keeps_guard]], rule triple_bind [OF weaken [OF keeps_user_id]],
        rule triple_bind [OF weaken [OF keeps_ensure]], rule triple_bind [OF weaken [OF keeps_reads(4)]],
        rule triple_bind [OF triple_disable], rule triple_bind [OF listed], rule triple_bind [OF removed],
        rule triple_return)
qed

end

text \<open>
  C30. A deleted user is out. When \<^verbatim>\<open>delete_user\<close> answers, no membership row of the user is left, no
  session token verifies as the user any more, whatever its row says, and the loader of principals
  that OAuth grants also go through answers an error for the user.
\<close>

theorem deleted_user_locked_out:
  assumes "current_desk d h q D" "keyed (w_db w) ''user''" "keyed (w_db w) ''user_token''" "keyed (w_db w) ''membership''"
    and "m_delete_user D i w = (Inr u, w1)"
  shows "belongs_only (w_db w1) i {}
    \<and> fst (verify_token A D token w1) \<noteq> Inr (User i ms su t g)
    \<and> (\<exists>e. fst (fetch_update_user_auth_info D i w1) = Inl e)"
proof -
  have off: "user_off (w_db w1) i" "keyed (w_db w1) ''user''" "keyed (w_db w1) ''user_token''" "belongs_only (w_db w1) i {}"
    using tripleD [OF current_desk.triple_delete_user [OF assms(1)] _ assms(5)] assms(2-4) by simp_all
  note out = user_off_backed [OF off(1)]
  have "fst (verify_token A D token w1) \<noteq> Inr (User i ms su t g)"
  proof
    assume "fst (verify_token A D token w1) = Inr (User i ms su t g)"
    then have "verify_token A D token w1 = (Inr (User i ms su t g), snd (verify_token A D token w1))" by (simp add: prod_eq_iff)
    from tripleD [OF current_desk.triple_verify [OF assms(1) off(3,2)] refl this] out show False by simp
  qed
  moreover have "\<exists>e. fst (fetch_update_user_auth_info D i w1) = Inl e"
  proof (cases "fst (fetch_update_user_auth_info D i w1)")
    case (Inr a)
    then have "fetch_update_user_auth_info D i w1 = (Inr a, snd (fetch_update_user_auth_info D i w1))" by (simp add: prod_eq_iff)
    from tripleD [OF current_desk.triple_user [OF assms(1) off(2)] _ this] out show ?thesis by (auto simp: as_before_def)
  qed simp
  ultimately show ?thesis using off(4) by blast
qed


subsection \<open>Refusals\<close>

text \<open>
  A run that only reads, a run that fails only in the database, and a run that leaves the store
  alone when it fails otherwise.
\<close>

definition only_reads :: "'a run \<Rightarrow> bool" where
  "only_reads m \<longleftrightarrow> (\<forall>w. w_db (snd (m w)) = w_db w)"

definition fails_in_db :: "'a run \<Rightarrow> bool" where
  "fails_in_db m \<longleftrightarrow> (\<forall>w x w'. m w = (Inl x, w') \<longrightarrow> (\<exists>e. x = Api (DbError e)))"

definition refuses_cleanly :: "'a run \<Rightarrow> bool" where
  "refuses_cleanly m \<longleftrightarrow> (\<forall>w x w'. m w = (Inl x, w') \<longrightarrow> (\<forall>e. x \<noteq> Api (DbError e)) \<longrightarrow> w_db w' = w_db w)"

named_theorems refusal_intros \<open>rules for runs that only read, fail in the database or refuse cleanly\<close>

lemma refuses_bind [refusal_intros]: "only_reads m \<Longrightarrow> (\<And>x. refuses_cleanly (k x)) \<Longrightarrow> refuses_cleanly (sbind m k)"
  unfolding refuses_cleanly_def
proof (intro allI impI)
  fix w x w' assume reads: "only_reads m" and k: "\<And>x. \<forall>w e w'. k x w = (Inl e, w') \<longrightarrow> (\<forall>y. e \<noteq> Api (DbError y)) \<longrightarrow> w_db w' = w_db w"
    and run: "sbind m k w = (Inl x, w')" and x: "\<forall>e. x \<noteq> Api (DbError e)"
  obtain r w1 where m: "m w = (r, w1)" by (cases "m w")
  with reads have "w_db w1 = w_db w" by (metis only_reads_def snd_conv)
  with run k x m show "w_db w' = w_db w" by (cases r) (auto simp: sbind_def)
qed

lemma refuses_in_db: "fails_in_db m \<Longrightarrow> refuses_cleanly m"
  unfolding refuses_cleanly_def fails_in_db_def by blast

lemma refuses_void: "refuses_cleanly m \<Longrightarrow> refuses_cleanly (void m)"
  unfolding refuses_cleanly_def void_def sbind_def sreturn_def by (auto split: prod.splits sum.splits)

lemma refuses_cases [refusal_intros]:
  "(\<And>a b. y = (a, b) \<Longrightarrow> refuses_cleanly (f a b)) \<Longrightarrow> refuses_cleanly (case y of (a, b) \<Rightarrow> f a b)"
  by (cases y) simp

lemma db_bind [refusal_intros]: "fails_in_db m \<Longrightarrow> (\<And>x. fails_in_db (k x)) \<Longrightarrow> fails_in_db (sbind m k)"
  unfolding fails_in_db_def sbind_def by (fastforce split: prod.splits sum.splits)

lemma db_calls [refusal_intros]:
  "fails_in_db (sreturn y)" "fails_in_db (db_write D f)" "fails_in_db (db_read D g)" "fails_in_db (memberships_of D u)"
  "fails_in_db (if c then db_write D f else sreturn z)"
  by (auto simp: fails_in_db_def sreturn_def memberships_of_def db_write_def db_read_def call_def db_error_of_def
      map_err_def Let_def split: prod.splits sum.splits if_splits)

lemma db_delete_memberships [refusal_intros]: "fails_in_db (delete_memberships D ms)"
  by (induction ms) (simp_all add: db_calls db_bind)

lemma refuses_write:
  "refuses_cleanly (db_write D f)"
  "(\<And>x. fails_in_db (k x)) \<Longrightarrow> refuses_cleanly (sbind (db_write D f) k)"
  "(\<And>x. fails_in_db (k x)) \<Longrightarrow> refuses_cleanly (sbind (if c then db_write D f else sreturn z) k)"
  by (rule refuses_in_db, (rule db_calls | rule db_bind, rule db_calls, assumption))+

lemma reads_bind [refusal_intros]: "only_reads m \<Longrightarrow> (\<And>x. only_reads (k x)) \<Longrightarrow> only_reads (sbind m k)"
  unfolding only_reads_def sbind_def by (auto split: prod.splits sum.splits) (metis snd_conv)+

lemma reads_pure [refusal_intros]:
  "only_reads (sreturn y)" "only_reads (slift r)" "only_reads (sensure_api b e)" "only_reads (guard D req)"
  "only_reads (found x y2)" "only_reads (lift_api v)" "only_reads (require_user_id D)"
  by (simp_all add: only_reads_def sreturn_def slift_def sensure_api_def sensure_def guard_def found_def lift_api_def
      require_user_id_def)

lemma reads_if [refusal_intros]: "only_reads m \<Longrightarrow> only_reads m' \<Longrightarrow> only_reads (if c then m else m')"
  by simp

lemma reads_option [refusal_intros]: "only_reads m \<Longrightarrow> (\<And>x. only_reads (f x)) \<Longrightarrow> only_reads (case y of None \<Rightarrow> m | Some x \<Rightarrow> f x)"
  by (cases y) simp_all

text \<open>Who may make a request.\<close>

fun admin_need :: "admin_request \<Rightarrow> auth_requirement" where
  "admin_need (AddInboundAddress i address) = RequireInstanceOwnerOrSuperuser i"
| "admin_need (RemoveInboundAddress i address) = RequireInstanceOwnerOrSuperuser i"
| "admin_need (UpdateInvoicingSettings i input) = RequireInstanceOwnerOrSuperuser i"
| "admin_need _ = RequireSuperuser"

lemma guard_fails: "guard_check r (dk_auth D) = Inl e \<Longrightarrow> void (sbind (guard D r) k) w = (Inl (Api e), w)"
  by (simp add: void_def sbind_def guard_def slift_def map_err_def)

lemmas admin_defs = m_add_inbound_address_def m_remove_inbound_address_def m_create_instance_def m_update_instance_def
  m_set_instance_deleted_def m_create_user_def m_update_user_def m_delete_user_def m_add_member_def m_remove_member_def
  m_set_member_role_def m_update_invoicing_settings_def Let_def

lemma unauthorised: "guard_check (admin_need a) (dk_auth D) = Inl e \<Longrightarrow> run_admin D a w = (Inl (Api e), w)"
  by (cases a) (simp_all only: admin_need.simps run_admin.simps admin_defs guard_fails)

context solo_desk begin

lemma reads_db [refusal_intros]: "only_reads (db_read D f)"
  by (simp add: only_reads_def db_read_def call_def alone Let_def)

lemma reads_shared [refusal_intros]:
  "only_reads (get_instance D i)" "only_reads (get_user D i)" "only_reads (the_instance D i)" "only_reads (the_user D i)"
  "only_reads (memberships_of D u)" "only_reads (email_free D e)" "only_reads (support_instance D i)"
  "only_reads (invoicing_instance D i)" "only_reads (the_membership D inst i u)" "only_reads (nonblank_name n)"
  "only_reads (normalized_email D e)"
  unfolding get_instance_def get_user_def the_instance_def the_user_def memberships_of_def email_free_def
    support_instance_def invoicing_instance_def the_membership_def nonblank_name_def normalized_email_def
  by (intro refusal_intros)+

lemma refusals: "refuses_cleanly (run_admin D a)"
  by (cases a; simp only: run_admin.simps admin_defs; rule refuses_void)
    (rule refuses_write refusal_intros)+

end

text \<open>
  C33. A refused request changes nothing. A caller without the right gets the error of its guard before
  any call of the database; and whatever else is wrong with a request, a missing row, a blank name,
  a bad slug, address or currency, a name already taken, one's own account, the store stays as it
  was. Only an error of the database itself can leave a request half done.
\<close>

theorem admin_refused:
  assumes "solo_desk d h q D"
  shows "(guard_check (admin_need a) (dk_auth D) = Inl e \<longrightarrow> run_admin D a w = (Inl (Api e), w))
    \<and> (run_admin D a w = (Inl x, w') \<and> (\<forall>y. x \<noteq> Api (DbError y)) \<longrightarrow> w_db w' = w_db w)"
  using unauthorised solo_desk.refusals [OF assms, of a] unfolding refuses_cleanly_def by blast

end
