(* ===== verification/Admin_Demo.thy ===== *)
theory Admin_Demo
  imports Admin_Rules
begin

section \<open>Administration on a concrete state\<close>

text \<open>A superuser, a member of one instance and that instance, on which the properties of administration apply.\<close>

definition admin_desk :: desk where
  "admin_desk = quiet_desk\<lparr>dk_auth := Some (User ''root'' [] True None None), dk_clock := (\<lambda>n. 100)\<rparr>"

definition member_row :: item where
  "member_row = [''id'' \<mapsto> AS ''m2'', ''user_id'' \<mapsto> AS ''u2'', ''instance_id'' \<mapsto> AS ''n1'', ''role'' \<mapsto> AS ''agent'']"

definition admin_db :: store where
  "admin_db t =
     (if t = ''user'' then [''root'' \<mapsto> (user_row ''root'' 1 ''r@x.org'' ''Root'')(''superuser'' \<mapsto> ABool True),
                           ''u2'' \<mapsto> user_row ''u2'' 2 ''u@x.org'' ''Una'']
      else if t = ''membership''
      then [''m2'' \<mapsto> member_row]
      else if t = ''instance'' then [''n1'' \<mapsto> instance_row ''n1'' 3 ''Help'' ''help'' ''Help'' [] True Support]
      else Map.empty)"

definition admin_world :: world where
  "admin_world = \<lparr>w_db = admin_db, w_n = 0, w_sent = [], w_objects = [], w_texts = []\<rparr>"

lemma admin_obliging: "obliging_desk ref_dynamo ref_handler ref_index admin_desk"
  by unfold_locales (simp_all add: admin_desk_def quiet_desk_def ref_handler_def ref_dynamo_def)

interpretation admin: obliging_desk ref_dynamo ref_handler ref_index admin_desk
  by (rule admin_obliging)

lemma admin_auth: "dk_auth admin_desk = Some (User ''root'' [] True None None)"
  by (simp add: admin_desk_def)

lemma admin_db_tables: "w_db admin_world = admin_db"
  by (simp add: admin_world_def)

theorem superuser_flag_from_outside_witness:
  "attrs_of (w_db (run_admins admin_desk [UpdateUser ''root'' ''R'' ''r@x.org'' False, DeleteUser ''root''] admin_world)
     ''user'' ''root'') ''enabled'' = Some (ABool True)"
proof -
  have "\<forall>n. dk_id admin_desk n \<noteq> ''root''" by (simp add: admin_desk_def quiet_desk_def)
  from superuser_flag_from_outside [OF admin.solo_desk_axioms admin_auth this]
  have "attrs_of (admin_db ''user'' ''root'') ''enabled'' = Some (ABool True) \<longrightarrow> ?thesis"
    unfolding admin_db_tables [symmetric] by blast
  then show ?thesis by (simp add: admin_db_def attrs_of_def user_row_def)
qed

theorem instances_stay_sound_witness:
  "sound_instances (w_db (run_admins admin_desk [CreateInstance ''Bills'' ''bills'' None None False Invoicing,
     UpdateInstance ''n1'' ''Desk'' ''Desk'' [] True] admin_world) ''instance'')"
proof -
  have "clock_fits admin_desk" by (simp add: clock_fits_def admin_desk_def in_i64_def i64_min_def i64_max_def)
  moreover have "sound_instances (w_db admin_world ''instance'')"
    using hydrate_new_row [of 3] by (auto simp: admin_db_tables sound_instances_def admin_db_def in_i64_def i64_min_def
        i64_max_def sound_instance_def)
  ultimately show ?thesis using instances_stay_sound [OF admin.current_desk_axioms] by blast
qed

theorem names_stay_unique_witness:
  "unique_field (w_db (run_admins admin_desk [CreateUser ''v@x.org'' ''Vic'', CreateUser ''v@x.org'' ''Val''] admin_world)
     ''user'') ''email''"
proof -
  have "unique_field (w_db admin_world ''instance'') ''slug''" "unique_field (w_db admin_world ''user'') ''email''"
    by (auto simp: admin_db_tables unique_field_def admin_db_def user_row_def split: if_splits)
  with names_stay_unique [OF admin.current_desk_axioms] show ?thesis by blast
qed

theorem admin_refused_witness:
  "run_admin quiet_desk (DeleteUser ''u2'') admin_world
     = (Inl (Api (ApiError Unauthenticated ''Must be a superuser'')), admin_world)"
proof -
  have "guard_check (admin_need (DeleteUser ''u2'')) (dk_auth quiet_desk) = Inl (ApiError Unauthenticated ''Must be a superuser'')"
    by (simp add: quiet_desk_def)
  with admin_refused [OF solo.solo_desk_axioms] show ?thesis by blast
qed

subsection \<open>Deleting a user\<close>

lemma admin_user_read: "get_users ref_handler [''u2''] admin_db =
    Inr [Some \<lparr>usr_id = ''u2'', usr_email = ''u@x.org'', usr_name = ''Una'', usr_enabled = True, usr_created_at = 2,
      usr_access_time = None, usr_superuser = False\<rparr>]"
  by code_simp

lemma admin_members:
  assumes "s ''membership'' = admin_db ''membership''"
  shows "\<exists>m. list_memberships_by_user ref_index ''u2'' s = Inr [m]"
proof -
  have "case hydrate_membership member_row of Inl e \<Rightarrow> False | Inr m \<Rightarrow> True" by code_simp
  then obtain m where m: "hydrate_membership member_row = Inr m" by (auto split: sum.splits)
  have rows: "s ''membership'' = [''m2'' \<mapsto> member_row]" by (simp add: assms admin_db_def)
  have "rows_with s ''membership'' ''user_id'' ''u2'' = {''m2''}"
    by (auto simp: rows_with_def rows attrs_of_def member_row_def split: if_splits)
  then show ?thesis
    by (simp add: list_memberships_by_user_def query_all_def ref_index_def map_err_def rows attrs_of_def m)
qed

lemma admin_deletes: "\<exists>u w1. m_delete_user admin_desk ''u2'' admin_world = (Inr u, w1)"
proof -
  have read: "db_read admin_desk f w = (db_error_of (f (w_db w)), w\<lparr>w_n := Suc (w_n w)\<rparr>)" for f :: "store \<Rightarrow> db_error + 'x" and w
    unfolding db_read_def admin.current by (rule admin.call_step)
  have q: "dk_query admin_desk = ref_index" "dk_db admin_desk = ref_handler" by (simp_all add: admin_desk_def quiet_desk_def)
  obtain it where row: "admin_db ''user'' ''u2'' = Some it" "it ''id'' = Some (AS ''u2'')"
    by (simp add: admin_db_def user_row_def)
  have off: "\<exists>s'. update_user ref_handler n ''u2'' (UserFields nm False) admin_db = (Inr (), s')
      \<and> s' ''membership'' = admin_db ''membership''" for n nm
    using row by (simp add: update_user_def send_defs ref_handler_def ref_dynamo_def cond_holds_def attrs_of_def
        apply_write_def set_row_def)
  have del: "\<exists>s'. delete_membership ref_handler i s = (Inr (), s')" for i s
    by (simp add: delete_membership_def send_defs ref_handler_def ref_dynamo_def cond_holds_def)
  have removed: "\<exists>w1. delete_memberships admin_desk [m] w = (Inr (), w1)" for m w
    using del [of "mb_id m" "w_db w"] by (auto simp: sbind_def db_write_def call_def admin.alone q db_error_of_def map_err_def sreturn_def)
  obtain s' where s': "update_user ref_handler 100 ''u2'' (UserFields ''Una'' False) admin_db = (Inr (), s')"
    and same: "s' ''membership'' = admin_db ''membership''" using off by blast
  from admin_members [of s', OF same] obtain m where m: "list_memberships_by_user ref_index ''u2'' s' = Inr [m]" by blast
  have clock: "dk_clock admin_desk n = 100" for n by (simp add: admin_desk_def)
  obtain w1 where w1: "delete_memberships admin_desk [m] (admin_world\<lparr>w_db := s', w_n := Suc (Suc (Suc (w_n admin_world)))\<rparr>) = (Inr (), w1)" using removed by blast
  show ?thesis
    using w1 by (simp add: m_delete_user_def sbind_def guard_def require_user_id_def admin_auth slift_def map_err_def
        sensure_api_def sensure_def the_user_def get_user_def found_def ok_or_def read admin_db_tables q admin_user_read first_row_def
        db_error_of_def db_write_def call_def admin.alone clock s' memberships_of_def m sreturn_def
        del: delete_memberships.simps)
qed

theorem deleted_user_locked_out_witness:
  "\<exists>u w1. m_delete_user admin_desk ''u2'' admin_world = (Inr u, w1) \<and> belongs_only (w_db w1) ''u2'' {}
     \<and> fst (verify_token plain_auth admin_desk ''mtu_x'' w1) \<noteq> Inr (User ''u2'' [] False (Some ''t'') None)"
proof -
  obtain u w1 where run: "m_delete_user admin_desk ''u2'' admin_world = (Inr u, w1)" using admin_deletes by blast
  have "keyed (w_db admin_world) ''user''" "keyed (w_db admin_world) ''user_token''" "keyed (w_db admin_world) ''membership''"
    by (auto simp: admin_db_tables keyed_def admin_db_def user_row_def member_row_def split: if_splits)
  from deleted_user_locked_out [OF admin.current_desk_axioms this run] run show ?thesis by blast
qed

end
