(* ===== verification/Passkeys.thy ===== *)
theory Passkeys
  imports Admin_Rules
begin

section \<open>Passkeys\<close>

text \<open>
  Registration of and login with WebAuthn credentials (\<^verbatim>\<open>graphql/mutations.rs\<close>), with their rows
  (\<^verbatim>\<open>dynamodb.rs\<close>). The cryptography is the crate \<^verbatim>\<open>webauthn-rs\<close>, the parameter \<open>webauthn_lib\<close>: its
  values are carried as the JSON text the program stores and sends, a credential also as its parsed
  form, the type variable \<open>'k\<close>. Serialising what the library answers is part of it. Logging is left
  out.
\<close>

subsection \<open>JSON\<close>

datatype json =
    JNull
  | JBool bool
  | JNumber int
  | JString string
  | JArray "json list"
  | JObject "(string \<times> json) list"

text \<open>\<^verbatim>\<open>get\<close>, \<^verbatim>\<open>as_str\<close> and \<^verbatim>\<open>insert\<close> of \<^verbatim>\<open>serde_json\<close>.\<close>

fun json_get :: "string \<Rightarrow> json \<Rightarrow> json option" where
  "json_get k (JObject entries) = map_of entries k"
| "json_get k _ = None"

fun json_str :: "json option \<Rightarrow> string option" where
  "json_str (Some (JString s)) = Some s"
| "json_str _ = None"

fun json_insert :: "string \<Rightarrow> json \<Rightarrow> (string \<times> json) list \<Rightarrow> (string \<times> json) list" where
  "json_insert k v [] = [(k, v)]"
| "json_insert k v ((k', v') # entries) = (if k = k' then (k, v) # entries else (k', v') # json_insert k v entries)"

text \<open>The options force a credential that can be discovered.\<close>

definition require_resident_key :: "json \<Rightarrow> json" where
  "require_resident_key options =
     (case (options, json_get ''authenticatorSelection'' options) of
        (JObject entries, Some (JObject sel)) \<Rightarrow>
          JObject (json_insert ''authenticatorSelection''
            (JObject (json_insert ''requireResidentKey'' (JBool True)
              (json_insert ''residentKey'' (JString ''required'') sel))) entries)
      | _ \<Rightarrow> options)"

subsection \<open>The library\<close>

text \<open>
  \<open>wl_start_reg n u name exclude\<close> and \<open>wl_start_auth n\<close> answer the options and the state of a
  ceremony (its challenge is random, hence the number \<open>n\<close> of the call); \<open>wl_finish_reg\<close> takes the
  browser's credential and the state; \<open>wl_identify\<close> reads the credential id a browser's answer names
  and \<open>wl_finish_auth\<close> checks it against a stored passkey, answering whether the passkey changes.
\<close>

record 'k webauthn_lib =
  wl_uuid :: "string \<Rightarrow> string"
  wl_start_reg :: "nat \<Rightarrow> string \<Rightarrow> string \<Rightarrow> string list option \<Rightarrow> desk_error + (json \<times> string)"
  wl_start_auth :: "nat \<Rightarrow> string + (string \<times> string)"
  wl_reg_state :: "string \<Rightarrow> string + string"
  wl_reg_credential :: "string \<Rightarrow> string + string"
  wl_finish_reg :: "string \<Rightarrow> string \<Rightarrow> string + 'k"
  wl_auth_state :: "string \<Rightarrow> string + string"
  wl_auth_credential :: "string \<Rightarrow> string option"
  wl_identify :: "string \<Rightarrow> string + string"
  wl_finish_auth :: "string \<Rightarrow> string \<Rightarrow> 'k \<Rightarrow> string + 'k option"
  wl_cred_id :: "'k \<Rightarrow> string"
  wl_b64 :: "string \<Rightarrow> string"
  wl_passkey_json :: "'k \<Rightarrow> string + string"
  wl_passkey_of :: "string \<Rightarrow> string + 'k"
  wl_print :: "json \<Rightarrow> string"
  wl_parse :: "string \<Rightarrow> string + json"

subsection \<open>Rows\<close>

record webauthn_credential =
  wc_id :: string
  wc_user_id :: string
  wc_name :: string
  wc_passkey_json :: string
  wc_created_at :: nat
  wc_last_used_at :: "nat option"

datatype webauthn_update = RenamePasskey string | TouchPasskey string

record webauthn_state =
  ws_id :: string
  ws_kind :: string
  ws_user_id :: "string option"
  ws_state_json :: string
  ws_expires_at :: nat

definition hydrate_webauthn_credential :: "item \<Rightarrow> string + webauthn_credential" where
  "hydrate_webauthn_credential it =
     rbind (item_id_field it) (\<lambda>i.
     rbind (need_string it ''user_id'' ''WebauthnCredential missing user_id'') (\<lambda>uid.
     rbind (need_string it ''name'' ''WebauthnCredential missing name'') (\<lambda>name.
     rbind (need_string it ''passkey'' ''WebauthnCredential missing passkey_json'') (\<lambda>passkey.
     rbind (need_i64 it ''created_at'' ''WebauthnCredential missing created_at'') (\<lambda>created.
     rbind (i64_field it ''last_used_at'') (\<lambda>used.
     Inr \<lparr>wc_id = i, wc_user_id = uid, wc_name = name, wc_passkey_json = passkey, wc_created_at = as_u64 created,
          wc_last_used_at = map_option as_u64 used\<rparr>))))))"

definition credential_row :: "string \<Rightarrow> nat \<Rightarrow> string \<Rightarrow> string \<Rightarrow> string \<Rightarrow> item" where
  "credential_row i now uid name passkey =
     [''id'' \<mapsto> AS i, ''user_id'' \<mapsto> AS uid, ''name'' \<mapsto> AS name, ''passkey'' \<mapsto> AS passkey,
      ''created_at'' \<mapsto> AN (int now)]"

definition create_webauthn_credential ::
    "handler \<Rightarrow> nat \<Rightarrow> string \<Rightarrow> string \<Rightarrow> string \<Rightarrow> string \<Rightarrow> store \<Rightarrow> (db_error + webauthn_credential) \<times> store" where
  "create_webauthn_credential h now i uid name passkey s =
     (let (r, s') = send_plain h (Put ''webauthn_credential'' i (credential_row i now uid name passkey) CTrue) s
      in (rbind r (\<lambda>_. Inr \<lparr>wc_id = i, wc_user_id = uid, wc_name = name, wc_passkey_json = passkey,
            wc_created_at = now, wc_last_used_at = None\<rparr>), s'))"

definition get_webauthn_credential :: "handler \<Rightarrow> string \<Rightarrow> store \<Rightarrow> db_error + webauthn_credential option" where
  "get_webauthn_credential h i s = get_row h ''webauthn_credential'' hydrate_webauthn_credential i s"

definition list_webauthn_credentials_by_user :: "index \<Rightarrow> string \<Rightarrow> store \<Rightarrow> db_error + webauthn_credential list" where
  "list_webauthn_credentials_by_user q uid s =
     query_all q hydrate_webauthn_credential ''webauthn_credential'' ''user_id'' uid s"

definition count_webauthn_credentials_by_user :: "index \<Rightarrow> string \<Rightarrow> store \<Rightarrow> db_error + nat" where
  "count_webauthn_credentials_by_user q uid s =
     rbind (map_err Infrastructure (q s ''webauthn_credential'' ''user_id'' uid)) (\<lambda>its. Inr (length its))"

fun webauthn_actions :: "nat \<Rightarrow> webauthn_update \<Rightarrow> action list" where
  "webauthn_actions now (RenamePasskey name) = [ASet ''name'' (AS name)]"
| "webauthn_actions now (TouchPasskey passkey) =
     [ASet ''last_used_at'' (AN (int now)), ASet ''passkey'' (AS passkey)]"

definition update_webauthn_credential ::
    "handler \<Rightarrow> nat \<Rightarrow> string \<Rightarrow> webauthn_update \<Rightarrow> store \<Rightarrow> (db_error + unit) \<times> store" where
  "update_webauthn_credential h now i change s =
     send_existing h (''WebauthnCredential '' @ i)
       (Update ''webauthn_credential'' ''id'' i (webauthn_actions now change) (CExists ''id'')) s"

definition delete_webauthn_credential :: "handler \<Rightarrow> string \<Rightarrow> store \<Rightarrow> (db_error + unit) \<times> store" where
  "delete_webauthn_credential h i s = send_plain h (Delete ''webauthn_credential'' i CTrue) s"

subsection \<open>Challenges\<close>

text \<open>A challenge is a row of the ephemeral states, its owner and state folded into the payload.\<close>

definition put_webauthn_state ::
    "'k webauthn_lib \<Rightarrow> handler \<Rightarrow> string \<Rightarrow> string \<Rightarrow> string option \<Rightarrow> string \<Rightarrow> nat \<Rightarrow> store \<Rightarrow> (db_error + unit) \<times> store" where
  "put_webauthn_state L h i kind uid state expires s =
     put_ephemeral_state h i kind
       (wl_print L (JObject [(''state_json'', JString state),
          (''user_id'', case uid of None \<Rightarrow> JNull | Some u \<Rightarrow> JString u)])) expires s"

definition get_webauthn_state :: "'k webauthn_lib \<Rightarrow> handler \<Rightarrow> string \<Rightarrow> store \<Rightarrow> db_error + webauthn_state option" where
  "get_webauthn_state L h i s =
     rbind (get_ephemeral_state h i s) (\<lambda>row.
     case row of
       None \<Rightarrow> Inr None
     | Some st \<Rightarrow>
         rbind (map_err (\<lambda>e. Hydration (''WebauthnState payload: '' @ e)) (wl_parse L (es_payload st))) (\<lambda>payload.
         rbind (ok_or (Hydration ''WebauthnState payload missing state_json'')
                  (json_str (json_get ''state_json'' payload))) (\<lambda>state.
         Inr (Some \<lparr>ws_id = es_id st, ws_kind = es_kind st, ws_user_id = json_str (json_get ''user_id'' payload),
           ws_state_json = state, ws_expires_at = es_expires_at st\<rparr>))))"

definition delete_webauthn_state :: "handler \<Rightarrow> string \<Rightarrow> store \<Rightarrow> (db_error + unit) \<times> store" where
  "delete_webauthn_state h i s = delete_ephemeral_state h i s"

subsection \<open>Registration\<close>

definition MAX_PASSKEYS_PER_USER :: nat where "MAX_PASSKEYS_PER_USER = 10"

definition too_many_passkeys :: api_error where
  "too_many_passkeys = Anyhow (''Maximum of '' @ show_nat MAX_PASSKEYS_PER_USER @ '' passkeys allowed'')"

record passkey_challenge =
  pc_challenge_id :: string
  pc_options_json :: string

record passkey_info =
  pk_id :: string
  pk_name :: string
  pk_created_at :: int
  pk_last_used_at :: "int option"

text \<open>\<^verbatim>\<open>as i64\<close>\<close>

definition as_i64 :: "nat \<Rightarrow> int" where
  "as_i64 n = (let m = int n mod 2 ^ 64 in if m < 2 ^ 63 then m else m - 2 ^ 64)"

definition passkey_info_of :: "webauthn_credential \<Rightarrow> passkey_info" where
  "passkey_info_of c = \<lparr>pk_id = wc_id c, pk_name = wc_name c, 
     pk_created_at = as_i64 (wc_created_at c), pk_last_used_at = map_option as_i64 (wc_last_used_at c)\<rparr>"

text \<open>\<^verbatim>\<open>map_err(|e| anyhow!("...: {e}"))\<close>\<close>

definition said :: "string \<Rightarrow> string + 'a \<Rightarrow> 'a run" where
  "said what r = slift (map_err (\<lambda>e. Api (Anyhow (what @ '': '' @ e))) r)"

definition existing_cred_ids :: "'k webauthn_lib \<Rightarrow> webauthn_credential list \<Rightarrow> string list" where
  "existing_cred_ids L creds =
     concat (map (\<lambda>c. case wl_passkey_of L (wc_passkey_json c) of Inl e \<Rightarrow> [] | Inr pk \<Rightarrow> [wl_cred_id L pk]) creds)"

definition start_challenge ::
    "'k webauthn_lib \<Rightarrow> desk \<Rightarrow> string \<Rightarrow> string option \<Rightarrow> string \<Rightarrow> string \<Rightarrow> passkey_challenge run" where
  "start_challenge L D kind uid options state =
     sbind (generate_nonce D) (\<lambda>challenge_id.
     sbind (from_now D WebauthnChallenge) (\<lambda>expires.
     sbind (db_write D (\<lambda>n. put_webauthn_state L (dk_db D) challenge_id kind uid state expires)) (\<lambda>_.
     sreturn \<lparr>pc_challenge_id = challenge_id, pc_options_json = options\<rparr>)))"

definition drop_challenge :: "desk \<Rightarrow> string \<Rightarrow> unit run" where
  "drop_challenge D challenge_id =
     sbind (best_effort (db_write D (\<lambda>n. delete_webauthn_state (dk_db D) challenge_id))) (\<lambda>_. sreturn ())"

definition passkey_count :: "desk \<Rightarrow> string \<Rightarrow> nat run" where
  "passkey_count D uid = db_read D (count_webauthn_credentials_by_user (dk_query D) uid)"

definition m_begin_passkey_registration :: "'k webauthn_lib \<Rightarrow> desk \<Rightarrow> passkey_challenge run" where
  "m_begin_passkey_registration L D =
     sbind (guard D RequireAuthenticated) (\<lambda>_.
     sbind (require_user_id D) (\<lambda>uid.
     sbind (passkey_count D uid) (\<lambda>count.
     sbind (sensure_api (count < MAX_PASSKEYS_PER_USER) too_many_passkeys) (\<lambda>_.
     sbind (db_read D (list_webauthn_credentials_by_user (dk_query D) uid)) (\<lambda>existing.
     sbind (get_user D uid) (\<lambda>row.
     let display_name = (case row of Some u \<Rightarrow> usr_email u | None \<Rightarrow> uid);
         ids = existing_cred_ids L existing;
         exclude = (if ids = [] then None else Some ids) in
     sbind (call D (\<lambda>n s. (wl_start_reg L n (wl_uuid L uid) display_name exclude, s))) (\<lambda>(options, state).
     start_challenge L D ''reg'' (Some uid) (wl_print L (require_resident_key options)) state)))))))"

text \<open>A challenge of the right kind, for the user if it names one.\<close>

definition challenge_of :: "'k webauthn_lib \<Rightarrow> desk \<Rightarrow> string \<Rightarrow> string \<Rightarrow> string \<Rightarrow> webauthn_state run" where
  "challenge_of L D missing kind challenge_id =
     sbind (db_read D (get_webauthn_state L (dk_db D) challenge_id)) (\<lambda>row.
     sbind (found (Api (Anyhow missing)) row) (\<lambda>st.
     sbind (sensure_api (ws_kind st = kind) (Anyhow ''Invalid challenge kind'')) (\<lambda>_. sreturn st)))"

text \<open>A refusal that drops the challenge first.\<close>

definition unless_dropped :: "desk \<Rightarrow> string \<Rightarrow> bool \<Rightarrow> api_error \<Rightarrow> unit run" where
  "unless_dropped D challenge_id bad e =
     (if bad then sbind (drop_challenge D challenge_id) (\<lambda>_. slift (Inl (Api e))) else sreturn ())"

definition m_finish_passkey_registration ::
    "'k webauthn_lib \<Rightarrow> desk \<Rightarrow> string \<Rightarrow> string \<Rightarrow> string \<Rightarrow> passkey_info run" where
  "m_finish_passkey_registration L D challenge_id credential_json name =
     sbind (guard D RequireAuthenticated) (\<lambda>_.
     sbind (require_user_id D) (\<lambda>uid.
     sbind (challenge_of L D ''Registration challenge not found or expired'' ''reg'' challenge_id) (\<lambda>st.
     sbind (sensure_api (ws_user_id st = Some uid) (Anyhow ''Challenge belongs to a different user'')) (\<lambda>_.
     sbind (now_sec D) (\<lambda>now.
     sbind (unless_dropped D challenge_id (ws_expires_at st \<le> now) (Anyhow ''Registration challenge expired'')) (\<lambda>_.
     sbind (said ''Failed to deserialize registration state'' (wl_reg_state L (ws_state_json st))) (\<lambda>reg_state.
     sbind (said ''Failed to parse credential'' (wl_reg_credential L credential_json)) (\<lambda>credential.
     sbind (said ''Passkey registration failed'' (wl_finish_reg L credential reg_state)) (\<lambda>passkey.
     sbind (passkey_count D uid) (\<lambda>count.
     sbind (unless_dropped D challenge_id (MAX_PASSKEYS_PER_USER \<le> count) too_many_passkeys) (\<lambda>_.
     sbind (said ''Failed to serialize passkey'' (wl_passkey_json L passkey)) (\<lambda>passkey_json.
     sbind (db_write D (\<lambda>n. create_webauthn_credential (dk_db D) (dk_clock D n) (wl_b64 L (wl_cred_id L passkey)) uid name
              passkey_json)) (\<lambda>cred.
     sbind (drop_challenge D challenge_id) (\<lambda>_.
     sreturn (passkey_info_of cred)))))))))))))))"

subsection \<open>Login\<close>

definition m_begin_passkey_login :: "'k webauthn_lib \<Rightarrow> desk \<Rightarrow> passkey_challenge run" where
  "m_begin_passkey_login L D =
     sbind (call D (\<lambda>n s. (map_err (\<lambda>e. Api (Anyhow (''Failed to start passkey login: '' @ e))) (wl_start_auth L n), s)))
       (\<lambda>(options, state).
     start_challenge L D ''auth'' None options state)"

text \<open>The stored credential, used and verified: the passkey as it is stored afterwards.\<close>

definition verified_passkey :: "'k webauthn_lib \<Rightarrow> string \<Rightarrow> string \<Rightarrow> webauthn_credential \<Rightarrow> string run" where
  "verified_passkey L credential auth_state stored =
     sbind (said ''Failed to deserialize stored passkey'' (wl_passkey_of L (wc_passkey_json stored))) (\<lambda>passkey.
     sbind (said ''Passkey authentication failed'' (wl_finish_auth L credential auth_state passkey)) (\<lambda>updated.
     said ''Failed to serialize updated passkey'' (wl_passkey_json L (case updated of None \<Rightarrow> passkey | Some pk \<Rightarrow> pk))))"

definition passkey_session ::
    "'k webauthn_lib \<Rightarrow> auth_env \<Rightarrow> desk \<Rightarrow> string \<Rightarrow> string \<Rightarrow> string \<Rightarrow> string \<Rightarrow> webauthn_credential
      \<Rightarrow> string option run" where
  "passkey_session L A D challenge_id credential auth_state cred_id stored =
     sbind (verified_passkey L credential auth_state stored) (\<lambda>updated_json.
     sbind (best_effort (db_write D (\<lambda>n. update_webauthn_credential (dk_db D) (dk_clock D n) cred_id
              (TouchPasskey updated_json)))) (\<lambda>_.
     sbind (drop_challenge D challenge_id) (\<lambda>_.
     sbind (get_user D (wc_user_id stored)) (\<lambda>row.
     if (case row of Some u \<Rightarrow> usr_enabled u | None \<Rightarrow> False)
     then sbind (issue_user_token A D (wc_user_id stored)) (\<lambda>token. sreturn (Some token))
     else sreturn None))))"

definition m_finish_passkey_login ::
    "'k webauthn_lib \<Rightarrow> auth_env \<Rightarrow> desk \<Rightarrow> string \<Rightarrow> string \<Rightarrow> string option run" where
  "m_finish_passkey_login L A D challenge_id credential_json =
     sbind (challenge_of L D ''Login challenge not found or expired'' ''auth'' challenge_id) (\<lambda>st.
     sbind (now_sec D) (\<lambda>now.
     if ws_expires_at st \<le> now then sbind (drop_challenge D challenge_id) (\<lambda>_. sreturn None)
     else
     sbind (said ''Failed to deserialize auth state'' (wl_auth_state L (ws_state_json st))) (\<lambda>auth_state.
     sbind (found (Api (Anyhow ''Failed to parse credential'')) (wl_auth_credential L credential_json)) (\<lambda>credential.
     sbind (said ''Failed to identify credential'' (wl_identify L credential)) (\<lambda>cred_id_bytes.
     let cred_id = wl_b64 L cred_id_bytes in
     sbind (db_read D (get_webauthn_credential (dk_db D) cred_id)) (\<lambda>row.
     case row of
       None \<Rightarrow> sbind (drop_challenge D challenge_id) (\<lambda>_. sreturn None)
     | Some stored \<Rightarrow> passkey_session L A D challenge_id credential auth_state cred_id stored))))))"

subsection \<open>The user's own passkeys\<close>

definition own_passkey :: "desk \<Rightarrow> string \<Rightarrow> webauthn_credential run" where
  "own_passkey D i =
     sbind (require_user_id D) (\<lambda>uid.
     sbind (db_read D (get_webauthn_credential (dk_db D) i)) (\<lambda>row.
     sbind (found (Api (Anyhow ''Passkey not found'')) row) (\<lambda>cred.
     sbind (sensure_api (wc_user_id cred = uid) (Anyhow ''Passkey not found'')) (\<lambda>_. sreturn cred))))"

definition m_rename_passkey :: "desk \<Rightarrow> string \<Rightarrow> string \<Rightarrow> passkey_info run" where
  "m_rename_passkey D i name =
     sbind (guard D RequireAuthenticated) (\<lambda>_.
     sbind (own_passkey D i) (\<lambda>cred.
     let trimmed = trim name in
     sbind (sensure_api (trimmed \<noteq> []) (Anyhow ''Name cannot be empty'')) (\<lambda>_.
     sbind (db_write D (\<lambda>n. update_webauthn_credential (dk_db D) (dk_clock D n) i (RenamePasskey trimmed))) (\<lambda>_.
     sreturn (passkey_info_of (cred\<lparr>wc_name := trimmed\<rparr>))))))"

definition m_delete_passkey :: "desk \<Rightarrow> string \<Rightarrow> bool run" where
  "m_delete_passkey D i =
     sbind (guard D RequireAuthenticated) (\<lambda>_.
     sbind (own_passkey D i) (\<lambda>_.
     sbind (db_write D (\<lambda>n. delete_webauthn_credential (dk_db D) i)) (\<lambda>_.
     sreturn True)))"

end
