(* ===== verification/Passkey_Safety.thy ===== *)
theory Passkey_Safety
  imports Passkeys
begin

section \<open>What a passkey login proves, whose passkeys change\<close>

text \<open>
  A login with a passkey stands on a live challenge, a stored credential that the library verified
  against it and an enabled user. A user renames and deletes only their own passkeys; registration
  does not look whose the credential was.
\<close>

text \<open>Everything a login checks, as facts of the store it began with.\<close>

definition live_challenge :: "'k webauthn_lib \<Rightarrow> desk \<Rightarrow> store \<Rightarrow> string \<Rightarrow> string \<Rightarrow> string \<Rightarrow> bool" where
  "live_challenge L D s kind i state \<longleftrightarrow>
     (\<exists>it es payload n. s ''ephemeral_state'' i = Some it \<and> hydrate_ephemeral_state it = Inr es \<and> es_kind es = kind
        \<and> dk_clock D n < es_expires_at es \<and> wl_parse L (es_payload es) = Inr payload
        \<and> json_str (json_get ''state_json'' payload) = Some state)"

definition names_challenge :: "'k webauthn_lib \<Rightarrow> store \<Rightarrow> string \<Rightarrow> webauthn_state \<Rightarrow> bool" where
  "names_challenge L s i st \<longleftrightarrow>
     (\<exists>it es payload. s ''ephemeral_state'' i = Some it \<and> hydrate_ephemeral_state it = Inr es
        \<and> ws_kind st = es_kind es \<and> ws_expires_at st = es_expires_at es \<and> wl_parse L (es_payload es) = Inr payload
        \<and> json_str (json_get ''state_json'' payload) = Some (ws_state_json st)
        \<and> json_str (json_get ''user_id'' payload) = ws_user_id st)"

definition passkey_proof :: "'k webauthn_lib \<Rightarrow> desk \<Rightarrow> store \<Rightarrow> string \<Rightarrow> string \<Rightarrow> string \<Rightarrow> bool" where
  "passkey_proof L D s challenge_id credential_json uid \<longleftrightarrow>
     (\<exists>state auth_state credential bytes entry stored passkey updated.
        live_challenge L D s ''auth'' challenge_id state \<and> wl_auth_state L state = Inr auth_state
        \<and> wl_auth_credential L credential_json = Some credential \<and> wl_identify L credential = Inr bytes
        \<and> s ''webauthn_credential'' (wl_b64 L bytes) = Some entry \<and> hydrate_webauthn_credential entry = Inr stored
        \<and> wl_passkey_of L (wc_passkey_json stored) = Inr passkey
        \<and> wl_finish_auth L credential auth_state passkey = Inr updated \<and> wc_user_id stored = uid)"

definition enabled_row :: "store \<Rightarrow> string \<Rightarrow> bool" where
  "enabled_row s uid \<longleftrightarrow> (\<exists>it u. s ''user'' uid = Some it \<and> hydrate_user it = Inr u \<and> usr_enabled u)"

definition session_for :: "auth_env \<Rightarrow> store \<Rightarrow> string \<Rightarrow> string \<Rightarrow> bool" where
  "session_for A s token uid \<longleftrightarrow>
     (\<exists>k it. s ''user_token'' k = Some it \<and> it ''token_hash'' = Some (AS (hash_token A token))
        \<and> it ''user_id'' = Some (AS uid))"

text \<open>What a registration checks and what it leaves.\<close>

definition registration_proof ::
    "'k webauthn_lib \<Rightarrow> desk \<Rightarrow> store \<Rightarrow> string \<Rightarrow> string \<Rightarrow> string \<Rightarrow> 'k \<Rightarrow> bool" where
  "registration_proof L D s challenge_id credential_json uid k \<longleftrightarrow>
     (\<exists>st n reg_state credential. names_challenge L s challenge_id st \<and> ws_kind st = ''reg'' \<and> ws_user_id st = Some uid
        \<and> dk_clock D n < ws_expires_at st \<and> wl_reg_state L (ws_state_json st) = Inr reg_state
        \<and> wl_reg_credential L credential_json = Inr credential \<and> wl_finish_reg L credential reg_state = Inr k)"

definition passkey_row_of :: "'k webauthn_lib \<Rightarrow> desk \<Rightarrow> store \<Rightarrow> string \<Rightarrow> string \<Rightarrow> 'k \<Rightarrow> bool" where
  "passkey_row_of L D s uid name k \<longleftrightarrow>
     (\<exists>n passkey. wl_passkey_json L k = Inr passkey
        \<and> s ''webauthn_credential'' (wl_b64 L (wl_cred_id L k))
            = Some (credential_row (wl_b64 L (wl_cred_id L k)) (dk_clock D n) uid name passkey))"

definition owns_passkey :: "desk \<Rightarrow> store \<Rightarrow> string \<Rightarrow> bool" where
  "owns_passkey D s i \<longleftrightarrow>
     (\<exists>uid it c. caller_is D uid \<and> s ''webauthn_credential'' i = Some it \<and> hydrate_webauthn_credential it = Inr c
        \<and> wc_user_id c = uid)"

lemma triple_said: "(\<And>x s. P s \<Longrightarrow> r = Inr x \<Longrightarrow> Q x s) \<Longrightarrow> triple P (said what r) Q (\<lambda>_. True)"
  unfolding said_def by (rule triple_lift) (auto simp: map_err_def split: sum.splits)

lemma triple_found: "(\<And>x s. P s \<Longrightarrow> entry = Some x \<Longrightarrow> Q x s) \<Longrightarrow> triple P (found e entry) Q (\<lambda>_. True)"
  unfolding found_def by (rule triple_lift) (auto simp: ok_or_def split: option.splits)

lemma triple_assured: "(\<And>s. P s \<Longrightarrow> b \<Longrightarrow> Q () s) \<Longrightarrow> triple P (sensure_api b e) Q (\<lambda>_. True)"
  unfolding sensure_api_def by (rule triple_ensure) auto

lemma triple_guard_any: "triple P (guard D req) (\<lambda>_. P) (\<lambda>_. True)"
  unfolding guard_def by (rule triple_lift) auto

context current_desk begin

lemma passkey_writes:
  "update_webauthn_credential (dk_db D) now i ch s = (r, s') \<Longrightarrow> t \<noteq> ''webauthn_credential'' \<Longrightarrow> s' t = s t"
  "delete_webauthn_credential (dk_db D) i s = (r, s') \<Longrightarrow> t \<noteq> ''webauthn_credential'' \<Longrightarrow> s' t = s t"
  "delete_webauthn_state (dk_db D) i s = (r, s') \<Longrightarrow> t \<noteq> ''ephemeral_state'' \<Longrightarrow> s' t = s t"
  unfolding update_webauthn_credential_def delete_webauthn_credential_def delete_webauthn_state_def delete_ephemeral_state_def
  by (auto elim: elsewhere)

lemma triple_kept_write:
  assumes "\<And>n s r s'. m n s = (r, s') \<Longrightarrow> s' t = s t"
  shows "triple (\<lambda>s. Q (s t)) (db_write D m) (\<lambda>_ s. Q (s t)) (\<lambda>s. Q (s t))"
  by (rule keeps_triple [OF keeps_elsewhere [OF assms]])

lemma triple_drop_challenge: "t \<noteq> ''ephemeral_state'' \<Longrightarrow> triple (\<lambda>s. Q (s t)) (drop_challenge D i) (\<lambda>_ s. Q (s t)) (\<lambda>_. True)"
  unfolding drop_challenge_def
  by (rule triple_bind [OF triple_best_effort [OF triple_kept_write]]) (auto intro: passkey_writes triple_return)

lemma read_challenge:
  assumes "get_webauthn_state L (dk_db D) i s = Inr (Some st)"
  shows "names_challenge L s i st"
proof -
  from assms obtain es payload state where es: "get_row (dk_db D) ''ephemeral_state'' hydrate_ephemeral_state i s = Inr (Some es)"
    and rest: "wl_parse L (es_payload es) = Inr payload" "json_str (json_get ''state_json'' payload) = Some state"
    "st = \<lparr>ws_id = es_id es, ws_kind = es_kind es, ws_user_id = json_str (json_get ''user_id'' payload),
           ws_state_json = state, ws_expires_at = es_expires_at es\<rparr>"
    unfolding get_webauthn_state_def get_ephemeral_state_def by (auto split: option.splits)
  from get_row_spec [OF es] rest show ?thesis by (auto simp: names_challenge_def)
qed

lemma triple_challenge:
  "triple (\<lambda>s. s = s0) (challenge_of L D missing kind i)
     (\<lambda>st s. (names_challenge L s0 i st \<and> ws_kind st = kind) \<and> s = s0) (\<lambda>_. True)"
proof -
  have read: "triple (\<lambda>s. s = s0) (db_read D (get_webauthn_state L (dk_db D) i))
      (\<lambda>entry s. (\<forall>st. entry = Some st \<longrightarrow> names_challenge L s0 i st) \<and> s = s0) (\<lambda>_. True)"
    by (rule triple_read) (use read_challenge in auto)
  have kind: "triple (\<lambda>s. s = s0) (sbind (sensure_api (ws_kind st = kind) e) (\<lambda>_. sreturn st))
     (\<lambda>st s. (names_challenge L s0 i st \<and> ws_kind st = kind) \<and> s = s0) (\<lambda>_. True)"
    if "names_challenge L s0 i st" for st e
    by (rule triple_bind [OF triple_assured [where Q = "\<lambda>_ s. ws_kind st = kind \<and> s = s0"]])
      (use that in \<open>auto simp: triple_def sreturn_def\<close>)
  show ?thesis
    unfolding challenge_of_def
    by (rule triple_bind [OF read], rule triple_fact,
        rule triple_bind [OF triple_found [where Q = "\<lambda>st s. names_challenge L s0 i st \<and> s = s0"]], blast, rule triple_fact,
        rule kind)
qed

lemma live:
  "names_challenge L s i st \<Longrightarrow> ws_kind st = kind \<Longrightarrow> dk_clock D n < ws_expires_at st \<Longrightarrow>
    live_challenge L D s kind i (ws_state_json st)"
  by (auto simp: names_challenge_def live_challenge_def)

lemma triple_issue: "triple P (issue_user_token A D uid) (\<lambda>token s. session_for A s token uid) (\<lambda>_. True)"
proof -
  have stored: "triple (\<lambda>_. True) (db_write D (\<lambda>n. create_user_token (dk_db D) (dk_id D n) (dk_clock D n) hash uid expires))
     (\<lambda>_ s. \<exists>k it. s ''user_token'' k = Some it \<and> it ''token_hash'' = Some (AS hash) \<and> it ''user_id'' = Some (AS uid))
     (\<lambda>_. True)" for hash expires
  proof (rule triple_write)
    fix n s r s' assume run: "create_user_token (dk_db D) (dk_id D n) (dk_clock D n) hash uid expires s = (r, s')"
    have "s' ''user_token'' (dk_id D n) = Some (user_token_row (dk_id D n) (dk_clock D n) hash uid expires)" if "r = Inr x" for x
    proof -
      from run that obtain u where "send_plain h (Put ''user_token'' (dk_id D n)
          (user_token_row (dk_id D n) (dk_clock D n) hash uid expires) CTrue) s = (Inr u, s')"
        by (auto simp: create_user_token_def handler split: prod.splits)
      from plain_ok [OF this] show ?thesis by (auto simp: commits_single apply_write_def set_row_def)
    qed
    then show "case r of Inl e \<Rightarrow> True
      | Inr x \<Rightarrow> \<exists>k it. s' ''user_token'' k = Some it \<and> it ''token_hash'' = Some (AS hash) \<and> it ''user_id'' = Some (AS uid)"
      by (fastforce simp: user_token_row_def split: sum.splits)
  qed
  have any: "triple Q m (\<lambda>_ _. True) (\<lambda>_. True)" for Q :: "store \<Rightarrow> bool" and m :: "'x run"
    by (simp add: triple_def split: sum.splits)
  show ?thesis
    unfolding issue_user_token_def Let_def
    by (rule triple_bind [OF any], rule triple_bind [OF any], rule triple_bind [OF stored], rule triple_return)
      (simp add: session_for_def)
qed

lemma triple_enabled:
  assumes "keyed s0 ''user''"
  shows "triple (\<lambda>s. s ''user'' = s0 ''user'') (get_user D uid)
     (\<lambda>entry s. case entry of Some u \<Rightarrow> usr_enabled u \<longrightarrow> enabled_row s0 uid | None \<Rightarrow> True) (\<lambda>_. True)"
  unfolding get_user_def
proof (rule triple_read)
  fix s entry assume s: "s ''user'' = s0 ''user''" and run: "rbind (get_users (dk_db D) [uid] s) (\<lambda>rs. Inr (first_row rs)) = Inr entry"
  have "keyed s ''user''" using assms s by (simp add: keyed_def)
  from run obtain rs where rs: "get_records (dk_db D) ''user'' hydrate_user usr_id [uid] s = Inr rs" "first_row rs = entry"
    by (auto simp: get_users_def)
  show "case entry of Some u \<Rightarrow> usr_enabled u \<longrightarrow> enabled_row s0 uid | None \<Rightarrow> True"
  proof (cases entry)
    case (Some u)
    with first_hydrated [OF rs(1) id_hydrate_user \<open>keyed s ''user''\<close>] rs(2) s Some show ?thesis
      by (auto simp: enabled_row_def)
  qed simp
qed simp

lemma triple_passkey_session:
  assumes "keyed s0 ''user''" "s0 ''webauthn_credential'' i = Some it" "hydrate_webauthn_credential it = Inr stored"
    and "\<And>passkey updated. wl_passkey_of L (wc_passkey_json stored) = Inr passkey \<Longrightarrow>
      wl_finish_auth L credential auth_state passkey = Inr updated \<Longrightarrow> F (wc_user_id stored)"
  shows "triple (\<lambda>s. s = s0) (passkey_session L A D challenge_id credential auth_state i stored)
     (\<lambda>answer s. \<forall>token. answer = Some token \<longrightarrow> (\<exists>uid. F uid \<and> enabled_row s0 uid \<and> session_for A s token uid)) (\<lambda>_. True)"
proof -
  let ?u = "wc_user_id stored" and ?U = "\<lambda>s. s ''user'' = s0 ''user''"
  have verified: "triple (\<lambda>s. s = s0) (verified_passkey L credential auth_state stored) (\<lambda>_ s. F ?u \<and> ?U s) (\<lambda>_. True)"
    unfolding verified_passkey_def
    by (rule triple_bind [OF triple_said [where Q = "\<lambda>pk s. wl_passkey_of L (wc_passkey_json stored) = Inr pk \<and> s = s0"]], blast,
        rule triple_fact, rule triple_bind [OF triple_said [where Q = "\<lambda>_ s. F ?u \<and> s = s0"]])
      (auto intro: assms(4) triple_said)
  have touch: "triple ?U (best_effort (db_write D (\<lambda>n. update_webauthn_credential (dk_db D) (dk_clock D n) i ch)))
      (\<lambda>_. ?U) (\<lambda>_. True)" for ch
    by (rule triple_best_effort, rule triple_kept_write [where Q = "\<lambda>T. T = s0 ''user''"]) (auto intro: passkey_writes)
  have drop: "triple ?U (drop_challenge D challenge_id) (\<lambda>_. ?U) (\<lambda>_. True)"
    by (rule triple_drop_challenge [where Q = "\<lambda>T. T = s0 ''user''"]) simp
  have answer: "triple (\<lambda>_. case entry of Some u \<Rightarrow> usr_enabled u \<longrightarrow> enabled_row s0 ?u | None \<Rightarrow> True)
      (if (case entry of Some u \<Rightarrow> usr_enabled u | None \<Rightarrow> False)
       then sbind (issue_user_token A D ?u) (\<lambda>token. sreturn (Some token)) else sreturn None)
      (\<lambda>answer s. \<forall>token. answer = Some token \<longrightarrow> (\<exists>uid. F uid \<and> enabled_row s0 uid \<and> session_for A s token uid)) (\<lambda>_. True)"
    if "F ?u" for entry
  proof (rule triple_if)
    assume on: "case entry of Some u \<Rightarrow> usr_enabled u | None \<Rightarrow> False"
    show "triple (\<lambda>_. case entry of Some u \<Rightarrow> usr_enabled u \<longrightarrow> enabled_row s0 ?u | None \<Rightarrow> True)
      (sbind (issue_user_token A D ?u) (\<lambda>token. sreturn (Some token)))
      (\<lambda>answer s. \<forall>token. answer = Some token \<longrightarrow> (\<exists>uid. F uid \<and> enabled_row s0 uid \<and> session_for A s token uid)) (\<lambda>_. True)"
    proof (cases "enabled_row s0 ?u")
      case True
      then show ?thesis using that by (intro triple_bind [OF triple_issue]) (auto intro: triple_return)
    next
      case False
      with on show ?thesis by (auto simp: triple_def split: option.splits)
    qed
  qed (simp add: triple_return)
  show ?thesis
    unfolding passkey_session_def
    by (rule triple_bind [OF verified], rule triple_fact, rule triple_bind [OF touch], rule triple_bind [OF drop],
        rule triple_bind [OF triple_enabled [OF assms(1)]], rule answer)
qed

lemma triple_login:
  assumes "keyed s0 ''user''"
  shows "triple (\<lambda>s. s = s0) (m_finish_passkey_login L A D challenge_id credential_json)
     (\<lambda>answer s. \<forall>token. answer = Some token \<longrightarrow>
        (\<exists>uid. passkey_proof L D s0 challenge_id credential_json uid \<and> enabled_row s0 uid \<and> session_for A s token uid))
     (\<lambda>_. True)" (is "triple ?P _ ?Q ?E")
proof -
  have now: "triple ?P (now_sec D) (\<lambda>now s. (\<exists>n. now = dk_clock D n) \<and> s = s0) ?E"
    unfolding now_sec_def by (rule triple_call) auto
  have gone: "triple P (sbind (drop_challenge D challenge_id) (\<lambda>_. sreturn None)) ?Q ?E" for P
  proof -
    have "triple P (drop_challenge D challenge_id) (\<lambda>_ _. True) ?E"
      by (simp add: triple_def split: sum.splits)
    then show ?thesis by (rule triple_bind) (simp add: triple_return)
  qed
  have entry: "triple ?P (db_read D (get_webauthn_credential (dk_db D) i))
      (\<lambda>entry s. (\<forall>stored. entry = Some stored \<longrightarrow>
         (\<exists>it. s0 ''webauthn_credential'' i = Some it \<and> hydrate_webauthn_credential it = Inr stored)) \<and> s = s0) ?E" for i
    by (rule triple_read) (auto simp: get_webauthn_credential_def dest!: get_row_spec)
  have rest: "triple ?P (case entry of None \<Rightarrow> sbind (drop_challenge D challenge_id) (\<lambda>_. sreturn None)
       | Some stored \<Rightarrow> passkey_session L A D challenge_id credential auth_state (wl_b64 L bytes) stored) ?Q ?E"
    if "live_challenge L D s0 ''auth'' challenge_id state" "wl_auth_state L state = Inr auth_state"
      "wl_auth_credential L credential_json = Some credential" "wl_identify L credential = Inr bytes"
      "\<forall>stored. entry = Some stored \<longrightarrow> (\<exists>it. s0 ''webauthn_credential'' (wl_b64 L bytes) = Some it
         \<and> hydrate_webauthn_credential it = Inr stored)" for entry state auth_state credential bytes
  proof (cases entry)
    case None
    then show ?thesis using gone by simp
  next
    case (Some stored)
    with that(5) obtain it where it: "s0 ''webauthn_credential'' (wl_b64 L bytes) = Some it"
      "hydrate_webauthn_credential it = Inr stored" by blast
    have "triple ?P (passkey_session L A D challenge_id credential auth_state (wl_b64 L bytes) stored) ?Q ?E"
      by (rule triple_passkey_session [OF assms it]) (use that(1-4) it in \<open>auto simp: passkey_proof_def\<close>)
    with Some show ?thesis by simp
  qed
  show ?thesis
    unfolding m_finish_passkey_login_def Let_def
    by (rule triple_bind [OF triple_challenge], rule triple_fact, rule triple_bind [OF now], rule triple_fact,
        rule triple_if, rule gone,
        rule triple_bind [OF triple_said [where Q = "\<lambda>a s. wl_auth_state L x = Inr a \<and> s = s0" for x]], blast, rule triple_fact,
        rule triple_bind [OF triple_found [where Q = "\<lambda>c s. wl_auth_credential L credential_json = Some c \<and> s = s0"]], blast,
        rule triple_fact,
        rule triple_bind [OF triple_said [where Q = "\<lambda>b s. wl_identify L x = Inr b \<and> s = s0" for x]], blast, rule triple_fact,
        rule triple_bind [OF entry], rule triple_fact, rule rest) (auto simp: not_le intro: live)
qed

text \<open>A registration writes the row of the credential the library verified, whatever the row held.\<close>

lemma triple_credential:
  "triple P (db_write D (\<lambda>n. create_webauthn_credential (dk_db D) (dk_clock D n) i uid name passkey))
     (\<lambda>cred s. \<exists>n. s ''webauthn_credential'' i = Some (credential_row i (dk_clock D n) uid name passkey)) (\<lambda>_. True)"
proof (rule triple_write)
  fix n s r s' assume run: "create_webauthn_credential (dk_db D) (dk_clock D n) i uid name passkey s = (r, s')"
  have "s' ''webauthn_credential'' i = Some (credential_row i (dk_clock D n) uid name passkey)" if "r = Inr x" for x
  proof -
    from run that obtain u where "send_plain h (Put ''webauthn_credential'' i
        (credential_row i (dk_clock D n) uid name passkey) CTrue) s = (Inr u, s')"
      by (auto simp: create_webauthn_credential_def handler split: prod.splits)
    from plain_ok [OF this] show ?thesis by (auto simp: commits_single apply_write_def set_row_def)
  qed
  then show "case r of Inl e \<Rightarrow> True
    | Inr x \<Rightarrow> \<exists>n. s' ''webauthn_credential'' i = Some (credential_row i (dk_clock D n) uid name passkey)"
    by (auto split: sum.splits)
qed

lemma triple_unless: "triple (\<lambda>s. s = s0) (unless_dropped D i bad e) (\<lambda>_ s. \<not> bad \<and> s = s0) (\<lambda>_. True)"
proof -
  have "triple (\<lambda>s. s = s0) (drop_challenge D i) (\<lambda>_ _. True) (\<lambda>_. True)"
    by (simp add: triple_def split: sum.splits)
  then show ?thesis
    unfolding unless_dropped_def by (intro triple_if triple_bind triple_lift triple_return) auto
qed

lemma triple_passkey_count: "triple (\<lambda>s. s = s0) (passkey_count D uid) (\<lambda>_ s. s = s0) (\<lambda>_. True)"
  unfolding passkey_count_def by (rule triple_read) auto

lemma triple_caller: "triple P (require_user_id D) (\<lambda>uid s. caller_is D uid \<and> P s) (\<lambda>_. True)"
  unfolding require_user_id_def
  by (rule triple_lift) (auto simp: caller_is_def split: option.splits auth_info.splits)

lemma triple_register:
  "triple (\<lambda>s. s = s0) (m_finish_passkey_registration L D challenge_id credential_json name)
     (\<lambda>_ s. \<exists>uid k. caller_is D uid \<and> registration_proof L D s0 challenge_id credential_json uid k
        \<and> passkey_row_of L D s uid name k) (\<lambda>_. True)" (is "triple ?P _ ?Q ?E")
proof -
  have now: "triple ?P (now_sec D) (\<lambda>now s. (\<exists>n. now = dk_clock D n) \<and> s = s0) ?E"
    unfolding now_sec_def by (rule triple_call) auto
  have guarded: "triple ?P (guard D RequireAuthenticated) (\<lambda>_. ?P) ?E" by (rule triple_guard_any)
  have drop: "triple (\<lambda>s. \<exists>n. s ''webauthn_credential'' i = Some (r n)) (drop_challenge D challenge_id)
      (\<lambda>_ s. \<exists>n. s ''webauthn_credential'' i = Some (r n)) ?E" for i and r :: "nat \<Rightarrow> item"
    by (rule triple_drop_challenge [where Q = "\<lambda>T. \<exists>n. T i = Some (r n)"]) simp
  show ?thesis
    unfolding m_finish_passkey_registration_def
    by (rule triple_bind [OF guarded], rule triple_bind [OF triple_caller], rule triple_fact,
        rule triple_bind [OF triple_challenge], rule triple_fact,
        rule triple_bind [OF triple_assured [where Q = "\<lambda>_ s. ws_user_id x = Some y \<and> s = s0" for x y]], blast, rule triple_fact,
        rule triple_bind [OF now], rule triple_fact, rule triple_bind [OF triple_unless], rule triple_fact,
        rule triple_bind [OF triple_said [where Q = "\<lambda>a s. wl_reg_state L x = Inr a \<and> s = s0" for x]], blast, rule triple_fact,
        rule triple_bind [OF triple_said [where Q = "\<lambda>c s. wl_reg_credential L credential_json = Inr c \<and> s = s0"]], blast,
        rule triple_fact,
        rule triple_bind [OF triple_said [where Q = "\<lambda>k s. wl_finish_reg L x y = Inr k \<and> s = s0" for x y]], blast, rule triple_fact,
        rule triple_bind [OF triple_passkey_count], rule triple_bind [OF triple_unless], rule triple_fact,
        rule triple_bind [OF triple_said [where Q = "\<lambda>p s. wl_passkey_json L x = Inr p \<and> s = s0" for x]], blast, rule triple_fact,
        rule triple_bind [OF triple_credential], rule triple_bind [OF drop], rule triple_return)
      (auto simp: registration_proof_def passkey_row_of_def not_le intro: live)
qed

text \<open>Renaming and deleting look at the owner first.\<close>

lemma triple_own:
  "triple (\<lambda>s. s = s0) (own_passkey D i)
     (\<lambda>_ s. owns_passkey D s0 i \<and> s = s0) (\<lambda>s. s = s0)"
proof -
  have caller: "triple (\<lambda>s. s = s0) (require_user_id D) (\<lambda>uid s. caller_is D uid \<and> s = s0) (\<lambda>s. s = s0)"
    unfolding require_user_id_def
    by (rule triple_lift) (auto simp: caller_is_def split: option.splits auth_info.splits)
  have read: "triple (\<lambda>s. s = s0) (db_read D (get_webauthn_credential (dk_db D) i))
      (\<lambda>entry s. (\<forall>c. entry = Some c \<longrightarrow> (\<exists>it. s0 ''webauthn_credential'' i = Some it
          \<and> hydrate_webauthn_credential it = Inr c)) \<and> s = s0) (\<lambda>s. s = s0)"
    by (rule triple_read) (auto simp: get_webauthn_credential_def dest!: get_row_spec)
  have found: "triple (\<lambda>s. s = s0) (found e entry) (\<lambda>c s. entry = Some c \<and> s = s0) (\<lambda>s. s = s0)"
    for e and entry :: "'x option"
    unfolding found_def by (rule triple_lift) (auto simp: ok_or_def split: option.splits)
  have mine: "triple (\<lambda>s. s = s0) (sensure_api b e) (\<lambda>_ s. b \<and> s = s0) (\<lambda>s. s = s0)" for b e
    unfolding sensure_api_def by (rule triple_ensure) auto
  show ?thesis
    unfolding own_passkey_def
    by (rule triple_bind [OF caller], rule triple_fact, rule triple_bind [OF read], rule triple_fact,
        rule triple_bind [OF found], rule triple_fact, rule triple_bind [OF mine], rule triple_fact, rule triple_return)
      (auto simp: owns_passkey_def)
qed

lemma other_passkeys:
  "update_webauthn_credential (dk_db D) now i ch s = (r, s') \<Longrightarrow> c \<noteq> i \<Longrightarrow>
     s' ''webauthn_credential'' c = s ''webauthn_credential'' c"
  "delete_webauthn_credential (dk_db D) i s = (r, s') \<Longrightarrow> c \<noteq> i \<Longrightarrow>
     s' ''webauthn_credential'' c = s ''webauthn_credential'' c"
proof -
  show "s' ''webauthn_credential'' c = s ''webauthn_credential'' c"
    if "update_webauthn_credential (dk_db D) now i ch s = (r, s')" "c \<noteq> i"
    using existing_any [OF that(1) [unfolded update_webauthn_credential_def handler]] that(2)
    by (auto simp: commits_single apply_write_def set_row_def)
  show "s' ''webauthn_credential'' c = s ''webauthn_credential'' c"
    if "delete_webauthn_credential (dk_db D) i s = (r, s')" "c \<noteq> i"
    using plain_any [OF that(1) [unfolded delete_webauthn_credential_def handler]] that(2)
    by (auto simp: commits_single apply_write_def set_row_def)
qed

lemma triple_own_only:
  defines "Q \<equiv> \<lambda>s0 i s. \<forall>c. s ''webauthn_credential'' c \<noteq> s0 ''webauthn_credential'' c \<longrightarrow> c = i \<and> owns_passkey D s0 i"
  shows "triple (\<lambda>s. s = s0) (m_rename_passkey D i name) (\<lambda>_. Q s0 i) (Q s0 i)"
    and "triple (\<lambda>s. s = s0) (m_delete_passkey D i) (\<lambda>_. Q s0 i) (Q s0 i)"
proof -
  have guarded: "triple (\<lambda>s. s = s0) (guard D req) (\<lambda>_ s. s = s0) (Q s0 i)" for req
    unfolding guard_def Q_def by (rule triple_lift) auto
  have own: "triple (\<lambda>s. s = s0) (own_passkey D i) (\<lambda>_ s. owns_passkey D s0 i \<and> s = s0) (Q s0 i)"
    by (rule triple_post [OF triple_own]) (auto simp: Q_def)
  have named: "triple (\<lambda>s. s = s0) (sensure_api b e) (\<lambda>_ s. s = s0) (Q s0 i)" for b e
    unfolding sensure_api_def Q_def by (rule triple_ensure) auto
  have change: "triple (\<lambda>s. s = s0) (db_write D m) (\<lambda>_. Q s0 i) (Q s0 i)"
    if "owns_passkey D s0 i" "\<And>n s r s' c. m n s = (r, s') \<Longrightarrow> c \<noteq> i \<Longrightarrow>
      s' ''webauthn_credential'' c = s ''webauthn_credential'' c" for m :: "nat \<Rightarrow> store \<Rightarrow> (db_error + unit) \<times> store"
  proof (rule triple_write)
    fix n s r s' assume s: "s = s0" and run: "m n s = (r, s')"
    have "Q s0 i s'" unfolding Q_def using that s run by blast
    then show "case r of Inl e \<Rightarrow> Q s0 i s' | Inr x \<Rightarrow> Q s0 i s'" by (simp split: sum.split)
  qed
  show "triple (\<lambda>s. s = s0) (m_rename_passkey D i name) (\<lambda>_. Q s0 i) (Q s0 i)"
    unfolding m_rename_passkey_def Let_def
    by (rule triple_bind [OF guarded], rule triple_bind [OF own], rule triple_fact, rule triple_bind [OF named],
        rule triple_bind [OF change], assumption, rule other_passkeys(1), assumption, assumption, rule triple_return)
  show "triple (\<lambda>s. s = s0) (m_delete_passkey D i) (\<lambda>_. Q s0 i) (Q s0 i)"
    unfolding m_delete_passkey_def
    by (rule triple_bind [OF guarded], rule triple_bind [OF own], rule triple_fact,
        rule triple_bind [OF change], assumption, rule other_passkeys(2), assumption, assumption, rule triple_return)
qed

end

text \<open>
  C39. No login without a verified passkey. When \<^verbatim>\<open>finish_passkey_login\<close> answers a token, the challenge
  was a live login challenge, the credential the browser named was stored, the library verified its
  answer against the stored passkey and the challenge, the credential's user is enabled, and the
  token is a session of that user.
\<close>

theorem passkey_login_backed:
  assumes "current_desk d h q D" "keyed (w_db w) ''user''"
    and "m_finish_passkey_login L A D challenge_id credential_json w = (Inr (Some token), w')"
  shows "\<exists>uid. passkey_proof L D (w_db w) challenge_id credential_json uid \<and> enabled_row (w_db w) uid
    \<and> session_for A (w_db w') token uid"
  using tripleD [OF current_desk.triple_login [OF assms(1,2)] refl assms(3)] by simp

text \<open>
  C40. A registration binds the verified credential to the caller. When \<^verbatim>\<open>finish_passkey_registration\<close>
  answers, the caller is a signed-in user, the challenge was live, of the registration kind and
  theirs, the library verified the credential against it, and the row under the credential's id is
  the caller's afterwards, whoever's it was before: nothing of the store under that id is assumed.
\<close>

theorem registration_takes_credential:
  assumes "current_desk d h q D"
    and "m_finish_passkey_registration L D challenge_id credential_json name w = (Inr info, w')"
  shows "\<exists>uid k. caller_is D uid \<and> registration_proof L D (w_db w) challenge_id credential_json uid k
    \<and> passkey_row_of L D (w_db w') uid name k"
  using tripleD [OF current_desk.triple_register [OF assms(1)] refl assms(2)] by simp

text \<open>
  Only the user's own passkeys change. Whatever \<^verbatim>\<open>rename_passkey\<close> and \<^verbatim>\<open>delete_passkey\<close> answer, a
  credential whose row differs afterwards is the one named, and it was the caller's.
\<close>

theorem passkeys_change_own_only:
  assumes "current_desk d h q D"
    and "w_db (snd (m_rename_passkey D i name w)) ''webauthn_credential'' c \<noteq> w_db w ''webauthn_credential'' c
      \<or> w_db (snd (m_delete_passkey D i w)) ''webauthn_credential'' c \<noteq> w_db w ''webauthn_credential'' c"
  shows "c = i \<and> owns_passkey D (w_db w) i"
proof -
  obtain r w1 where 1: "m_rename_passkey D i name w = (r, w1)" by fastforce
  obtain r2 w2 where 2: "m_delete_passkey D i w = (r2, w2)" by fastforce
  show ?thesis
    using assms(2) tripleD [OF current_desk.triple_own_only(1) [OF assms(1)] refl 1]
      tripleD [OF current_desk.triple_own_only(2) [OF assms(1)] refl 2] 1 2
    by (auto split: sum.splits)
qed

end
