(* ===== verification/Passkey_Demo.thy ===== *)
theory Passkey_Demo
  imports Passkey_Safety
begin

section \<open>Passkeys on a concrete state\<close>

text \<open>
  Two users with a passkey each, a login and a registration challenge, and a library whose values
  are the texts themselves; the properties of \<open>Passkey_Safety\<close> apply to them.
\<close>

definition demo_webauthn :: "string webauthn_lib" where
  "demo_webauthn =
     \<lparr>wl_uuid = (\<lambda>u. u), wl_start_reg = (\<lambda>n u name ids. Inr (JObject [], ''R'')), wl_start_auth = (\<lambda>n. Inr (''o'', ''A'')),
      wl_reg_state = Inr, wl_reg_credential = Inr, wl_finish_reg = (\<lambda>c st. Inr c), wl_auth_state = Inr,
      wl_auth_credential = Some, wl_identify = Inr, wl_finish_auth = (\<lambda>c st pk. if c = pk then Inr None else Inl ''no''),
      wl_cred_id = (\<lambda>k. k), wl_b64 = (\<lambda>b. b), wl_passkey_json = Inr, wl_passkey_of = Inr, wl_print = (\<lambda>j. ''p''),
      wl_parse = (\<lambda>p. Inr (JObject [(''state_json'', JString p), (''user_id'', JString ''u1'')]))\<rparr>"

definition passkey_desk :: desk where
  "passkey_desk = quiet_desk\<lparr>dk_auth := Some (User ''u1'' [] False None None), dk_clock := (\<lambda>n. 100)\<rparr>"

definition passkey_db :: store where
  "passkey_db t =
     (if t = ''user'' then [''u1'' \<mapsto> user_row ''u1'' 1 ''a@x.org'' ''Ann'', ''u2'' \<mapsto> user_row ''u2'' 2 ''b@x.org'' ''Bob'']
      else if t = ''webauthn_credential''
      then [''k1'' \<mapsto> credential_row ''k1'' 5 ''u1'' ''Phone'' ''k1'', ''k2'' \<mapsto> credential_row ''k2'' 6 ''u2'' ''Key'' ''k2'']
      else if t = ''ephemeral_state''
      then [''c1'' \<mapsto> ephemeral_row ''c1'' ''auth'' ''A'' 200, ''c2'' \<mapsto> ephemeral_row ''c2'' ''reg'' ''R'' 200]
      else Map.empty)"

definition passkey_world :: world where
  "passkey_world = \<lparr>w_db = passkey_db, w_n = 0, w_sent = [], w_objects = [], w_texts = []\<rparr>"

lemma passkey_obliging: "obliging_desk ref_dynamo ref_handler ref_index passkey_desk"
  by unfold_locales (simp_all add: passkey_desk_def quiet_desk_def ref_handler_def ref_dynamo_def)

interpretation passkeys: obliging_desk ref_dynamo ref_handler ref_index passkey_desk
  by (rule passkey_obliging)

lemma passkey_parts:
  "dk_query passkey_desk = ref_index" "dk_db passkey_desk = ref_handler" "dk_clock passkey_desk n = 100"
  "dk_auth passkey_desk = Some (User ''u1'' [] False None None)"
  by (simp_all add: passkey_desk_def quiet_desk_def)

lemma demo_webauthn_parts:
  "wl_auth_state demo_webauthn = Inr" "wl_auth_credential demo_webauthn = Some" "wl_identify demo_webauthn = Inr"
  "wl_b64 demo_webauthn b = b" "wl_reg_state demo_webauthn = Inr" "wl_reg_credential demo_webauthn = Inr"
  "wl_finish_reg demo_webauthn c st = Inr c" "wl_cred_id demo_webauthn k = k" "wl_passkey_json demo_webauthn = Inr"
  by (simp_all add: demo_webauthn_def)

lemma passkey_world_parts: "w_db passkey_world = passkey_db" "w_n passkey_world = 0"
  by (simp_all add: passkey_world_def)

lemma passkey_read: "db_read passkey_desk f w = (db_error_of (f (w_db w)), w\<lparr>w_n := Suc (w_n w)\<rparr>)"
  unfolding db_read_def passkeys.current by (rule passkeys.call_step)

lemma passkey_rows:
  "get_ephemeral_state ref_handler ''c1'' passkey_db
     = Inr (Some \<lparr>es_id = ''c1'', es_kind = ''auth'', es_payload = ''A'', es_expires_at = 200\<rparr>)"
  "get_ephemeral_state ref_handler ''c2'' passkey_db
     = Inr (Some \<lparr>es_id = ''c2'', es_kind = ''reg'', es_payload = ''R'', es_expires_at = 200\<rparr>)"
  "get_webauthn_credential ref_handler ''k1'' passkey_db
     = Inr (Some \<lparr>wc_id = ''k1'', wc_user_id = ''u1'', wc_name = ''Phone'', wc_passkey_json = ''k1'', wc_created_at = 5,
         wc_last_used_at = None\<rparr>)"
  by code_simp+

lemma passkey_challenges:
  "challenge_of demo_webauthn passkey_desk e ''auth'' ''c1'' passkey_world
     = (Inr \<lparr>ws_id = ''c1'', ws_kind = ''auth'', ws_user_id = Some ''u1'', ws_state_json = ''A'', ws_expires_at = 200\<rparr>,
        passkey_world\<lparr>w_n := 1\<rparr>)"
  "challenge_of demo_webauthn passkey_desk e ''reg'' ''c2'' passkey_world
     = (Inr \<lparr>ws_id = ''c2'', ws_kind = ''reg'', ws_user_id = Some ''u1'', ws_state_json = ''R'', ws_expires_at = 200\<rparr>,
        passkey_world\<lparr>w_n := 1\<rparr>)"
  by (simp_all add: challenge_of_def sbind_def passkey_read get_webauthn_state_def passkey_parts passkey_rows demo_webauthn_def
      passkey_world_def db_error_of_def map_err_def found_def ok_or_def slift_def sensure_api_def sensure_def sreturn_def)

text \<open>A best-effort write leaves its store whatever it answers.\<close>

lemma passkey_demo_writes:
  "\<exists>x. best_effort (db_write passkey_desk m) w = (Inr x, w\<lparr>w_db := snd (m (w_n w) (w_db w)), w_n := Suc (w_n w)\<rparr>)"
  by (auto simp: best_effort_def db_write_def call_def passkeys.alone Let_def split: prod.splits sum.splits)

lemma passkey_drop:
  "drop_challenge passkey_desk i w
     = (Inr (), w\<lparr>w_db := snd (delete_webauthn_state ref_handler i (w_db w)), w_n := Suc (w_n w)\<rparr>)"
  using passkey_demo_writes [of "\<lambda>n. delete_webauthn_state ref_handler i" w]
  by (auto simp: drop_challenge_def sbind_def passkey_parts sreturn_def)

lemma passkey_issue: "\<exists>token w1. issue_user_token plain_auth passkey_desk uid w = (Inr token, w1)"
  by (simp add: issue_user_token_def Let_def sbind_def passkeys.tick_steps from_now_def db_write_def call_def passkeys.alone
      passkey_parts create_user_token_def send_plain_def ensure_writable_def ref_handler_def ref_dynamo_def cond_holds_def
      db_error_of_def map_err_def sreturn_def)

lemma passkey_user:
  "get_users ref_handler [''u1''] (snd (delete_webauthn_state ref_handler ''c1''
      (snd (update_webauthn_credential ref_handler 100 ''k1'' (TouchPasskey ''k1'') passkey_db))))
   = Inr [Some \<lparr>usr_id = ''u1'', usr_email = ''a@x.org'', usr_name = ''Ann'', usr_enabled = True, usr_created_at = 1,
      usr_access_time = None, usr_superuser = False\<rparr>]"
  by code_simp

lemma passkey_logs_in:
  "\<exists>token w1. m_finish_passkey_login demo_webauthn plain_auth passkey_desk ''c1'' ''k1'' passkey_world = (Inr (Some token), w1)"
proof -
  let ?w = "passkey_world\<lparr>w_n := 3\<rparr>"
  let ?touch = "\<lambda>n::nat. update_webauthn_credential ref_handler 100 ''k1'' (TouchPasskey ''k1'')"
  obtain x where touch: "best_effort (db_write passkey_desk ?touch) ?w
      = (Inr x, ?w\<lparr>w_db := snd (?touch 3 passkey_db), w_n := 4\<rparr>)"
    using passkey_demo_writes [of ?touch ?w] by (auto simp: passkey_world_def)
  obtain token w1 where issued: "issue_user_token plain_auth passkey_desk ''u1''
      (passkey_world\<lparr>w_db := snd (delete_webauthn_state ref_handler ''c1'' (snd (?touch 3 passkey_db))), w_n := 6\<rparr>) = (Inr token, w1)"
    using passkey_issue by blast
  have "passkey_session demo_webauthn plain_auth passkey_desk ''c1'' ''k1'' ''A'' ''k1''
      \<lparr>wc_id = ''k1'', wc_user_id = ''u1'', wc_name = ''Phone'', wc_passkey_json = ''k1'', wc_created_at = 5,
         wc_last_used_at = None\<rparr> ?w = (Inr (Some token), w1)"
    using touch issued passkey_user
    by (simp add: passkey_session_def verified_passkey_def sbind_def said_def slift_def demo_webauthn_def passkey_parts
        passkey_drop get_user_def passkey_read first_row_def db_error_of_def map_err_def sreturn_def)
  then show ?thesis
    by (simp add: m_finish_passkey_login_def sbind_def passkey_challenges passkeys.tick_steps passkey_parts said_def slift_def
        demo_webauthn_parts found_def ok_or_def passkey_read passkey_rows db_error_of_def map_err_def Let_def passkey_world_parts
        eval_nat_numeral)
qed

theorem passkey_login_backed_witness:
  "\<exists>token w1. m_finish_passkey_login demo_webauthn plain_auth passkey_desk ''c1'' ''k1'' passkey_world = (Inr (Some token), w1)
    \<and> (\<exists>uid. passkey_proof demo_webauthn passkey_desk passkey_db ''c1'' ''k1'' uid \<and> enabled_row passkey_db uid
         \<and> session_for plain_auth (w_db w1) token uid)"
proof -
  obtain token w1 where run: "m_finish_passkey_login demo_webauthn plain_auth passkey_desk ''c1'' ''k1'' passkey_world
      = (Inr (Some token), w1)" using passkey_logs_in by blast
  have "keyed (w_db passkey_world) ''user''"
    by (auto simp: passkey_world_def keyed_def passkey_db_def user_row_def split: if_splits)
  from passkey_login_backed [OF passkeys.current_desk_axioms this run] run show ?thesis by (auto simp: passkey_world_def)
qed

text \<open>Ann registers a credential whose id is stored for Bob: his row becomes hers.\<close>

lemma passkey_registers:
  "\<exists>info w1. m_finish_passkey_registration demo_webauthn passkey_desk ''c2'' ''k2'' ''Mine'' passkey_world = (Inr info, w1)"
proof -
  have "rows_with passkey_db ''webauthn_credential'' ''user_id'' ''u1'' = {''k1''}"
    by (auto simp: rows_with_def passkey_db_def attrs_of_def credential_row_def split: if_splits)
  then have count: "count_webauthn_credentials_by_user ref_index ''u1'' passkey_db = Inr 1"
    by (simp add: count_webauthn_credentials_by_user_def ref_index_def map_err_def)
  have stored: "\<exists>c s'. create_webauthn_credential ref_handler now i uid nm pk s = (Inr c, s')" for now i uid nm pk s
    by (simp add: create_webauthn_credential_def send_plain_def ensure_writable_def ref_handler_def ref_dynamo_def cond_holds_def)
  obtain c s' where "create_webauthn_credential ref_handler 100 ''k2'' ''u1'' ''Mine'' ''k2'' passkey_db = (Inr c, s')"
    using stored by blast
  with count show ?thesis
    by (simp add: m_finish_passkey_registration_def sbind_def guard_def require_user_id_def passkey_parts slift_def map_err_def
        passkey_challenges sensure_api_def sensure_def passkeys.tick_steps unless_dropped_def said_def demo_webauthn_parts
        passkey_count_def passkey_read db_error_of_def passkey_world_parts MAX_PASSKEYS_PER_USER_def db_write_def call_def
        passkeys.alone passkey_drop sreturn_def)
qed

theorem registration_takes_credential_witness:
  "\<exists>info w1. m_finish_passkey_registration demo_webauthn passkey_desk ''c2'' ''k2'' ''Mine'' passkey_world = (Inr info, w1)
    \<and> attrs_of (passkey_db ''webauthn_credential'' ''k2'') ''user_id'' = Some (AS ''u2'')
    \<and> attrs_of (w_db w1 ''webauthn_credential'' ''k2'') ''user_id'' = Some (AS ''u1'')"
proof -
  obtain info w1 where run: "m_finish_passkey_registration demo_webauthn passkey_desk ''c2'' ''k2'' ''Mine'' passkey_world
      = (Inr info, w1)" using passkey_registers by blast
  from registration_takes_credential [OF passkeys.current_desk_axioms run]
  have "attrs_of (w_db w1 ''webauthn_credential'' ''k2'') ''user_id'' = Some (AS ''u1'')"
    by (auto simp: caller_is_def passkey_parts registration_proof_def passkey_row_of_def demo_webauthn_def attrs_of_def
        credential_row_def)
  with run show ?thesis by (simp add: passkey_db_def attrs_of_def credential_row_def)
qed

text \<open>Ann renames her own passkey.\<close>

theorem passkeys_change_own_only_witness:
  "w_db (snd (m_rename_passkey passkey_desk ''k1'' ''Laptop'' passkey_world)) ''webauthn_credential'' ''k1''
     \<noteq> passkey_db ''webauthn_credential'' ''k1''
   \<and> owns_passkey passkey_desk passkey_db ''k1''"
proof -
  let ?m = "m_rename_passkey passkey_desk ''k1'' ''Laptop'' passkey_world"
  have trimmed: "trim ''Laptop'' = ''Laptop''" by code_simp
  have renamed: "attrs_of (snd (update_webauthn_credential ref_handler 100 ''k1'' (RenamePasskey ''Laptop'') passkey_db)
      ''webauthn_credential'' ''k1'') ''name'' = Some (AS ''Laptop'')" by code_simp
  have "w_db (snd ?m) = snd (update_webauthn_credential ref_handler 100 ''k1'' (RenamePasskey ''Laptop'') passkey_db)"
    by (simp add: m_rename_passkey_def sbind_def guard_def own_passkey_def require_user_id_def passkey_parts slift_def map_err_def
        passkey_read passkey_rows passkey_world_parts db_error_of_def found_def ok_or_def sensure_api_def sensure_def sreturn_def
        trimmed Let_def db_write_def call_def passkeys.alone split: prod.splits sum.splits)
  moreover have "attrs_of (passkey_db ''webauthn_credential'' ''k1'') ''name'' = Some (AS ''Phone'')" by code_simp
  ultimately have changed: "w_db (snd ?m) ''webauthn_credential'' ''k1'' \<noteq> w_db passkey_world ''webauthn_credential'' ''k1''"
    using renamed by (auto simp: passkey_world_parts)
  from passkeys_change_own_only [OF passkeys.current_desk_axioms disjI1 [OF changed]] changed
  show ?thesis by (simp add: passkey_world_parts)
qed

end
