(* ===== verification/Queries.thy ===== *)
theory Queries
  imports Passkeys OAuth "HOL-Library.List_Lexorder" "HOL-Library.Char_ord"
begin

section \<open>Queries and the fields of their objects\<close>

text \<open>
  The read side of \<^verbatim>\<open>graphql/query.rs\<close> beside the listings: the batching loader of
  \<^verbatim>\<open>graphql/dataloader.rs\<close>, the root fields, the fields that lead from one object to another with
  their guards, and the scalar fields a client sees of each. An object is the row it was built of.
\<close>

subsection \<open>Rows\<close>

definition get_projects :: "handler \<Rightarrow> string list \<Rightarrow> store \<Rightarrow> db_error + project option list" where
  "get_projects h ids s = get_records h ''project'' hydrate_project proj_id ids s"

definition get_invoices :: "handler \<Rightarrow> string list \<Rightarrow> store \<Rightarrow> db_error + invoice option list" where
  "get_invoices h ids s = get_records h ''invoice'' hydrate_invoice inv_id ids s"

definition get_items :: "handler \<Rightarrow> string list \<Rightarrow> store \<Rightarrow> db_error + billable_item option list" where
  "get_items h ids s = get_records h ''billable_item'' hydrate_billable_item item_id ids s"

definition list_projects_by_instance :: "index \<Rightarrow> string \<Rightarrow> store \<Rightarrow> db_error + project list" where
  "list_projects_by_instance q i s = query_all q hydrate_project ''project'' ''instance_id'' i s"

text \<open>A strongly consistent read, with \<^verbatim>\<open>?\<close> on its error.\<close>

definition db_read_now :: "desk \<Rightarrow> (store \<Rightarrow> db_error + 'a) \<Rightarrow> 'a run" where
  "db_read_now D f = call D (\<lambda>n s. (db_error_of (f s), s))"

subsection \<open>The loader\<close>

text \<open>
  \<^verbatim>\<open>{:?}\<close> of an error, quotes inside it not escaped, and one batch: the rows of the keys that have
  one. A field loads one key; that other keys share its batch does not matter (\<open>batch_as_single\<close>).
\<close>

fun debug_error :: "db_error \<Rightarrow> string" where
  "debug_error (NotFound m) = ''NotFound('' @ quoted m @ '')''"
| "debug_error (Hydration m) = ''Hydration('' @ quoted m @ '')''"
| "debug_error (Infrastructure m) = ''Infrastructure('' @ quoted m @ '')''"
| "debug_error (Integrity m) = ''Integrity('' @ quoted m @ '')''"
| "debug_error (TypeConversion m) = ''TypeConversion('' @ quoted m @ '')''"
| "debug_error MutationDisabled = ''MutationDisabled''"

fun add_row :: "string \<times> 'r option \<Rightarrow> (string \<rightharpoonup> 'r) \<Rightarrow> (string \<rightharpoonup> 'r)" where
  "add_row (k, None) m = m"
| "add_row (k, Some r) m = m(k \<mapsto> r)"

definition keyed_rows :: "string list \<Rightarrow> 'r option list \<Rightarrow> (string \<rightharpoonup> 'r)" where
  "keyed_rows keys recs = fold add_row (zip keys recs) Map.empty"

definition load_keys ::
    "(handler \<Rightarrow> string list \<Rightarrow> store \<Rightarrow> db_error + 'r option list) \<Rightarrow> handler \<Rightarrow> string list \<Rightarrow> store
      \<Rightarrow> string + (string \<rightharpoonup> 'r)" where
  "load_keys get h keys s =
     rbind (map_err (\<lambda>e. ''DB error: '' @ debug_error e) (get h keys s)) (\<lambda>recs. Inr (keyed_rows keys recs))"

definition load_one ::
    "desk \<Rightarrow> (handler \<Rightarrow> string list \<Rightarrow> store \<Rightarrow> db_error + 'r option list) \<Rightarrow> string \<Rightarrow> string \<Rightarrow> 'r option run" where
  "load_one D get what i =
     call D (\<lambda>n s.
       (map_err (\<lambda>e. Api (Anyhow (''Failed to load '' @ what @ '' via DataLoader: '' @ e)))
          (rbind (load_keys get (dk_db D) [i] (dk_view D n s)) (\<lambda>m. Inr (m i))), s))"

definition missing_row :: "string \<Rightarrow> string \<Rightarrow> desk_error" where
  "missing_row what i = Api (Anyhow (what @ '' with ID '' @ i @ '' missing''))"

definition load_instance_of :: "desk \<Rightarrow> string \<Rightarrow> org_instance run" where
  "load_instance_of D i =
     sbind (load_one D get_instances ''instance'' i) (found (missing_row ''Instance'' i))"

definition load_project_of :: "desk \<Rightarrow> string \<Rightarrow> project run" where
  "load_project_of D i =
     sbind (load_one D get_projects ''project'' i) (found (missing_row ''Project'' i))"

definition load_user_of :: "desk \<Rightarrow> string \<Rightarrow> string option \<Rightarrow> user option run" where
  "load_user_of D what uid = (case uid of None \<Rightarrow> sreturn None | Some u \<Rightarrow> load_one D get_users what u)"

subsection \<open>Instances\<close>

record public_instance =
  pub_name :: string
  pub_slug :: string

definition public_instance_of :: "org_instance \<Rightarrow> public_instance" where
  "public_instance_of i = \<lparr>pub_name = inst_name i, pub_slug = inst_slug i\<rparr>"

record inbound_address_info =
  ai_address :: string
  ai_kind :: address_kind
  ai_created_at :: int

definition inbound_address_info_of :: "inbound_address \<Rightarrow> inbound_address_info" where
  "inbound_address_info_of a = \<lparr>ai_address = ia_address a, ai_kind = ia_kind a, ai_created_at = as_i64 (ia_created_at a)\<rparr>"

definition invoicing_settings :: "org_instance \<Rightarrow> org_instance option" where
  "invoicing_settings inst = (if inst_kind inst \<noteq> Invoicing then None else Some inst)"

definition next_invoice_number :: "desk \<Rightarrow> org_instance \<Rightarrow> int run" where
  "next_invoice_number D inst =
     sbind (db_read D (get_invoice_counter (dk_db D) (inst_id inst))) (\<lambda>counter.
     sreturn (let n = int (min (counter + 1) u64_max) in if n \<le> 2147483647 then n else 2147483647))"

definition instance_inbound_addresses :: "desk \<Rightarrow> org_instance \<Rightarrow> inbound_address_info list run" where
  "instance_inbound_addresses D inst =
     sbind (guard D (RequireInstanceOwnerOrSuperuser (inst_id inst))) (\<lambda>_.
     sbind (inbound_addresses D (inst_id inst)) (\<lambda>addrs. sreturn (map inbound_address_info_of addrs)))"

definition instance_members :: "desk \<Rightarrow> org_instance \<Rightarrow> (user \<times> membership_role) list run" where
  "instance_members D inst =
     sbind (guard D (RequireInstanceOwnerOrSuperuser (inst_id inst))) (\<lambda>_.
     sbind (db_read D (list_memberships_by_instance (dk_query D) (inst_id inst))) (\<lambda>ms.
     if ms = [] then sreturn []
     else
     sbind (db_read D (get_users (dk_db D) (map mb_user_id ms))) (\<lambda>users.
     sreturn (List.map_filter (\<lambda>(m, u). map_option (\<lambda>u. (u, mb_role m)) u) (zip ms users)))))"

definition instance_api_tokens :: "desk \<Rightarrow> org_instance \<Rightarrow> api_token list run" where
  "instance_api_tokens D inst =
     sbind (guard D (RequireInstanceOwnerOrSuperuser (inst_id inst))) (\<lambda>_.
     sbind (db_read D (list_api_tokens_by_instance (dk_query D) (inst_id inst))) (\<lambda>tokens.
     sreturn (sort_key tk_created_at tokens)))"

definition api_token_created_by :: "desk \<Rightarrow> api_token \<Rightarrow> user option run" where
  "api_token_created_by D tok = load_one D get_users ''createdBy'' (tk_created_by_user_id tok)"

subsection \<open>Users\<close>

record membership_info =
  mbi_user_id :: string
  mbi_instance :: org_instance
  mbi_role :: membership_role
  mbi_settings :: notification_settings

text \<open>The guard lets a requester in; the body asks for the user themselves.\<close>

definition self_only :: "desk \<Rightarrow> string \<Rightarrow> string \<Rightarrow> unit run" where
  "self_only D uid refusal =
     sbind (guard D RequireAuthenticated) (\<lambda>_.
     sbind (require_user_id D) (\<lambda>caller.
     sensure_api (caller = uid) (forbidden refusal)))"

definition notification_settings_of :: "desk \<Rightarrow> membership_info \<Rightarrow> notification_settings run" where
  "notification_settings_of D mi =
     sbind (self_only D (mbi_user_id mi) ''Cannot view another member's notification settings'') (\<lambda>_.
     sreturn (mbi_settings mi))"

definition user_passkeys :: "desk \<Rightarrow> user \<Rightarrow> passkey_info list run" where
  "user_passkeys D u =
     sbind (self_only D (usr_id u) ''Cannot view another user's passkeys'') (\<lambda>_.
     sbind (db_read D (list_webauthn_credentials_by_user (dk_query D) (usr_id u))) (\<lambda>creds.
     sreturn (map passkey_info_of creds)))"

definition user_oauth_grants :: "desk \<Rightarrow> user \<Rightarrow> oauth_grant list run" where
  "user_oauth_grants D u =
     sbind (self_only D (usr_id u) ''Cannot view another user's connected apps'') (\<lambda>_.
     sbind (now_sec D) (\<lambda>now.
     sbind (db_read D (list_oauth_grants_by_user (dk_query D) (usr_id u))) (\<lambda>grants.
     sreturn (rev (sort_key og_created_at
       (rev (filter (\<lambda>g. now < og_expires_at g \<and> now < og_refresh_expires_at g) grants)))))))"

definition user_memberships_of :: "desk \<Rightarrow> user \<Rightarrow> membership_info list run" where
  "user_memberships_of D u =
     sbind (guard D RequireAuthenticated) (\<lambda>_.
     sbind (memberships_of D (usr_id u)) (\<lambda>ms.
     if ms = [] then sreturn []
     else
     sbind (db_read D (get_instances (dk_db D) (map mb_instance_id ms))) (\<lambda>insts.
     sreturn (List.map_filter (\<lambda>(m, inst). case inst of None \<Rightarrow> None
        | Some i \<Rightarrow> if inst_deleted i then None
                    else Some \<lparr>mbi_user_id = mb_user_id m, mbi_instance = i, mbi_role = mb_role m,
                               mbi_settings = mb_notification_settings m\<rparr>) (zip ms insts)))))"

text \<open>A grant's host: the URI itself when it has none.\<close>

definition grant_redirect_host :: "oauth_env \<Rightarrow> oauth_grant \<Rightarrow> string" where
  "grant_redirect_host E g =
     (case oe_url E (og_redirect_uri g) of
        None \<Rightarrow> og_redirect_uri g
      | Some u \<Rightarrow> unwrap_or (og_redirect_uri g) (url_host u))"

subsection \<open>Tickets\<close>

definition ticket_assignee :: "desk \<Rightarrow> ticket \<Rightarrow> user option run" where
  "ticket_assignee D t = load_user_of D ''assignee'' (tkt_assignee_user_id t)"

definition message_author :: "desk \<Rightarrow> ticket_message \<Rightarrow> user option run" where
  "message_author D m = load_user_of D ''author'' (msg_author_user_id m)"

text \<open>Whether the thread shows its notes, or why it is not shown at all.\<close>

fun show_notes :: "ticket \<Rightarrow> auth_info option \<Rightarrow> api_error + bool" where
  "show_notes t (Some (User i ms su tk g)) =
     (if is_member ms (tkt_instance_id t) then Inr True else Inl (forbidden ''Not a member of this ticket's instance''))"
| "show_notes t (Some (Requester email i)) =
     (if i = tkt_instance_id t \<and> email \<in> set (tkt_requester_emails t) then Inr False
      else Inl (forbidden ''Not authorized to view this ticket''))"
| "show_notes t (Some (ApiToken k i)) = Inl (forbidden ''Must be authenticated'')"
| "show_notes t None = Inl (forbidden ''Must be authenticated'')"

definition ticket_messages :: "desk \<Rightarrow> ticket \<Rightarrow> ticket_message list run" where
  "ticket_messages D t =
     sbind (slift (map_err Api (show_notes t (dk_auth D)))) (\<lambda>notes.
     sbind (db_read D (list_ticket_messages (dk_query D) (tkt_id t))) (\<lambda>msgs.
     sreturn (filter (\<lambda>m. notes \<or> msg_kind m \<noteq> Note) msgs)))"

text \<open>A presigned link; the storage service is the argument \<open>presign_get\<close>.\<close>

definition attachment_download_url :: "(string \<Rightarrow> string + string) \<Rightarrow> desk \<Rightarrow> attachment \<Rightarrow> string run" where
  "attachment_download_url presign_get D a =
     call D (\<lambda>n s. (map_err StorageFailed (presign_get (at_s3_key a)), s))"

subsection \<open>Items and invoices\<close>

datatype billable_item_status = Unbilled | DraftStatus | Invoiced

definition known_parent :: "billable_item \<Rightarrow> invoice option \<Rightarrow> invoice option" where
  "known_parent it parent =
     (case parent of None \<Rightarrow> None | Some p \<Rightarrow> if item_invoice_id it = Some (inv_id p) then Some p else None)"

definition item_invoice :: "desk \<Rightarrow> billable_item \<Rightarrow> invoice option \<Rightarrow> invoice option run" where
  "item_invoice D it parent =
     (case item_invoice_id it of
        None \<Rightarrow> sreturn None
      | Some i \<Rightarrow>
          (case known_parent it parent of
             Some p \<Rightarrow> sreturn (Some p)
           | None \<Rightarrow> load_one D get_invoices ''invoice'' i))"

definition item_status :: "desk \<Rightarrow> billable_item \<Rightarrow> invoice option \<Rightarrow> billable_item_status run" where
  "item_status D it parent =
     (case item_invoice_id it of
        None \<Rightarrow> sreturn Unbilled
      | Some i \<Rightarrow>
          sbind (case known_parent it parent of
                   Some p \<Rightarrow> sreturn (Some p)
                 | None \<Rightarrow> load_one D get_invoices ''invoice'' i) (\<lambda>ivc.
          sreturn (if map_option inv_status ivc = Some Draft then DraftStatus else Invoiced)))"

definition invoice_items :: "desk \<Rightarrow> invoice \<Rightarrow> (billable_item \<times> invoice option) list run" where
  "invoice_items D ivc =
     (if inv_item_ids ivc = [] then sreturn []
      else
      sbind (db_read_now D (get_items (dk_db D) (inv_item_ids ivc))) (\<lambda>recs.
      sreturn (map (\<lambda>it. (it, Some ivc)) (List.map_filter id recs))))"

text \<open>
  What an invoice prints: the frozen snapshot, parsed by \<open>parse\<close> (\<^verbatim>\<open>serde_json\<close>), or one built of
  the draft's rows as they are.
\<close>

definition invoice_effective :: "(string \<Rightarrow> string + invoice_snapshot) \<Rightarrow> desk \<Rightarrow> invoice \<Rightarrow> invoice_snapshot run" where
  "invoice_effective parse D ivc =
     (case inv_status ivc of
        Finalized \<Rightarrow>
          sbind (found (Api (Anyhow (''Finalized invoice '' @ inv_id ivc @ '' is missing its snapshot''))) (inv_snapshot ivc))
            (\<lambda>json.
          slift (map_err (\<lambda>e. Api (Anyhow (''Invoice '' @ inv_id ivc @ '' has a corrupt snapshot: '' @ e))) (parse json)))
      | Draft \<Rightarrow>
          sbind (get_project D (inv_project_id ivc)) (\<lambda>p.
          sbind (found (missing_row ''Project'' (inv_project_id ivc)) p) (\<lambda>proj.
          sbind (get_instance D (inv_instance_id ivc)) (\<lambda>i.
          sbind (found (missing_row ''Instance'' (inv_instance_id ivc)) i) (\<lambda>inst.
          sbind (if inv_item_ids ivc = [] then sreturn []
                 else sbind (db_read D (get_items (dk_db D) (inv_item_ids ivc))) (\<lambda>recs. sreturn (List.map_filter id recs)))
            (\<lambda>items.
          sreturn (build_snapshot inst proj items None None)))))))"

subsection \<open>Root fields\<close>

definition q_me :: "desk \<Rightarrow> user run" where
  "q_me D =
     sbind (guard D RequireAuthenticated) (\<lambda>_.
     sbind (slift (case dk_auth D of
               Some (User i ms su tk g) \<Rightarrow> Inr i
             | _ \<Rightarrow> Inl (Api (Anyhow (''Only an authenticated user has a '' @ [CHR 0x60] @ ''me'' @ [CHR 0x60] @ '' record''))))) (\<lambda>uid.
     sbind (get_user D uid) (found (missing_row ''User'' uid))))"

definition q_instance :: "desk \<Rightarrow> string \<Rightarrow> org_instance option run" where
  "q_instance D slug =
     sbind (guard D RequireAuthenticated) (\<lambda>_.
     sbind (user_memberships D) (\<lambda>ms.
     sbind (db_read D (get_instance_id_by_slug (dk_query D) slug)) (\<lambda>iid.
     case iid of
       None \<Rightarrow> sreturn None
     | Some i \<Rightarrow>
         if \<not> is_member ms i then sreturn None
         else
         sbind (get_instance D i) (\<lambda>inst.
         sreturn (case inst of None \<Rightarrow> None | Some r \<Rightarrow> if inst_deleted r then None else Some r)))))"

definition q_public_instances :: "pager \<Rightarrow> desk \<Rightarrow> public_instance list loop_run" where
  "q_public_instances P D =
     obind (list_instances P D) (\<lambda>insts.
     once (sreturn (map public_instance_of
       (filter (\<lambda>i. inst_public_submission_enabled i \<and> \<not> inst_deleted i \<and> inst_kind i = Support) insts))))"

fun ticket_visible :: "ticket \<Rightarrow> auth_info option \<Rightarrow> bool" where
  "ticket_visible t (Some (User i ms su tk g)) = is_member ms (tkt_instance_id t)"
| "ticket_visible t (Some (Requester email i)) = (i = tkt_instance_id t \<and> email \<in> set (tkt_requester_emails t))"
| "ticket_visible t (Some (ApiToken k i)) = False"
| "ticket_visible t None = False"

definition q_ticket :: "desk \<Rightarrow> string \<Rightarrow> ticket option run" where
  "q_ticket D i =
     sbind (guard D RequireAuthenticated) (\<lambda>_.
     sbind (get_ticket D i) (\<lambda>entry.
     sreturn (case entry of None \<Rightarrow> None | Some t \<Rightarrow> if ticket_visible t (dk_auth D) then Some t else None)))"

definition q_projects :: "desk \<Rightarrow> string \<Rightarrow> bool \<Rightarrow> project list run" where
  "q_projects D i include_archived =
     sbind (guard D (RequireMember i)) (\<lambda>_.
     sbind (invoicing_instance D i) (\<lambda>_.
     sbind (db_read D (list_projects_by_instance (dk_query D) i)) (\<lambda>ps.
     sreturn (sort_key (\<lambda>p. dk_lower D (proj_name p))
       (if include_archived then ps else filter (\<lambda>p. \<not> proj_archived p) ps)))))"

text \<open>Whether an instance exists and is an invoicing one.\<close>

definition in_invoicing_instance :: "desk \<Rightarrow> string \<Rightarrow> bool run" where
  "in_invoicing_instance D i =
     sbind (get_instance D i) (\<lambda>inst.
     sreturn (case inst of None \<Rightarrow> False | Some r \<Rightarrow> inst_kind r = Invoicing))"

definition q_project :: "desk \<Rightarrow> string \<Rightarrow> project option run" where
  "q_project D i =
     sbind (guard D RequireAuthenticated) (\<lambda>_.
     sbind (user_memberships D) (\<lambda>ms.
     sbind (get_project D i) (\<lambda>entry.
     case entry of
       None \<Rightarrow> sreturn None
     | Some p \<Rightarrow>
         if \<not> is_member ms (proj_instance_id p) then sreturn None
         else
         sbind (in_invoicing_instance D (proj_instance_id p)) (\<lambda>yes.
         sreturn (if yes then Some p else None)))))"

definition q_invoice :: "desk \<Rightarrow> string \<Rightarrow> invoice option run" where
  "q_invoice D i =
     sbind (guard D RequireAuthenticated) (\<lambda>_.
     sbind (user_memberships D) (\<lambda>ms.
     sbind (db_read_now D (get_record_consistent (dk_db D) ''invoice'' hydrate_invoice i)) (\<lambda>entry.
     case entry of
       None \<Rightarrow> sreturn None
     | Some ivc \<Rightarrow>
         if \<not> is_member ms (inv_instance_id ivc) then sreturn None
         else
         sbind (in_invoicing_instance D (inv_instance_id ivc)) (\<lambda>yes.
         sreturn (if yes then Some ivc else None)))))"

definition q_admin_instances :: "pager \<Rightarrow> desk \<Rightarrow> org_instance list loop_run" where
  "q_admin_instances P D =
     obind (once (guard D RequireSuperuser)) (\<lambda>_.
     obind (list_instances P D) (\<lambda>insts. once (sreturn (sort_key inst_name insts))))"

definition q_admin_instance :: "desk \<Rightarrow> string \<Rightarrow> org_instance option run" where
  "q_admin_instance D i = sbind (guard D RequireSuperuser) (\<lambda>_. get_instance D i)"

definition q_admin_users :: "pager \<Rightarrow> desk \<Rightarrow> user list loop_run" where
  "q_admin_users P D =
     obind (once (guard D RequireSuperuser)) (\<lambda>_.
     obind (list_users P D) (\<lambda>users. once (sreturn (sort_key usr_email users))))"

definition q_admin_user :: "desk \<Rightarrow> string \<Rightarrow> user option run" where
  "q_admin_user D i = sbind (guard D RequireSuperuser) (\<lambda>_. get_user D i)"

end
