(* ===== verification/Query_Graph.thy ===== *)
theory Query_Graph
  imports Queries
begin

section \<open>What a query can reach\<close>

text \<open>
  A GraphQL request starts at the root fields and follows the fields of the objects it gets, in any
  order and as deep as it likes: \<open>roots\<close> and \<open>links\<close> give the resolvers that answer objects, and
  \<open>reached\<close> is the set of the objects a request can get hold of in one state of the database: every
  read of the request sees that state. The objects that mutations answer are left out.
\<close>

datatype gql_object =
    UserObject user
  | InstanceObject org_instance
  | SettingsObject org_instance
  | MembershipObject membership_info
  | MemberObject user membership_role
  | ApiTokenObject api_token
  | AddressObject inbound_address_info
  | TicketObject ticket
  | MessageObject ticket_message
  | AttachmentObject attachment
  | ProjectObject project
  | ItemObject billable_item "invoice option"
  | InvoiceObject invoice
  | GrantObject oauth_grant
  | PasskeyObject passkey_info

definition answer :: "('a \<Rightarrow> gql_object) \<Rightarrow> 'a run \<Rightarrow> gql_object list run" where
  "answer f m = sbind m (\<lambda>x. sreturn [f x])"

definition answer_opt :: "('a \<Rightarrow> gql_object) \<Rightarrow> 'a option run \<Rightarrow> gql_object list run" where
  "answer_opt f m = sbind m (\<lambda>x. sreturn (case x of None \<Rightarrow> [] | Some y \<Rightarrow> [f y]))"

definition answer_all :: "('a \<Rightarrow> gql_object) \<Rightarrow> 'a list run \<Rightarrow> gql_object list run" where
  "answer_all f m = sbind m (\<lambda>xs. sreturn (map f xs))"

fun links :: "desk \<Rightarrow> gql_object \<Rightarrow> gql_object list run list" where
  "links D (UserObject u) =
     [answer_all PasskeyObject (user_passkeys D u), answer_all GrantObject (user_oauth_grants D u),
      answer_all MembershipObject (user_memberships_of D u)]"
| "links D (InstanceObject i) =
     [answer_opt SettingsObject (sreturn (invoicing_settings i)),
      answer_all (\<lambda>(u, r). MemberObject u r) (instance_members D i), answer_all ApiTokenObject (instance_api_tokens D i),
      answer_all AddressObject (instance_inbound_addresses D i)]"
| "links D (SettingsObject i) = []"
| "links D (MembershipObject mi) = [sreturn [InstanceObject (mbi_instance mi)]]"
| "links D (MemberObject u r) = [sreturn [UserObject u]]"
| "links D (ApiTokenObject k) = [answer_opt UserObject (api_token_created_by D k)]"
| "links D (AddressObject a) = []"
| "links D (TicketObject t) =
     [answer InstanceObject (load_instance_of D (tkt_instance_id t)), answer_opt UserObject (ticket_assignee D t),
      answer_all MessageObject (ticket_messages D t)]"
| "links D (MessageObject m) =
     [answer_opt UserObject (message_author D m), sreturn (map AttachmentObject (msg_attachments m))]"
| "links D (AttachmentObject a) = []"
| "links D (ProjectObject p) = [answer InstanceObject (load_instance_of D (proj_instance_id p))]"
| "links D (ItemObject it parent) =
     [answer ProjectObject (load_project_of D (item_project_id it)), answer_opt InvoiceObject (item_invoice D it parent)]"
| "links D (InvoiceObject v) =
     [answer ProjectObject (load_project_of D (inv_project_id v)),
      answer_all (\<lambda>(it, parent). ItemObject it parent) (invoice_items D v)]"
| "links D (GrantObject g) = []"
| "links D (PasskeyObject p) = []"

datatype root_field =
    MeField
  | InstanceField string
  | TicketsField string ticket_status_filter "string option" page_args
  | TicketField string
  | ProjectsField string bool
  | ProjectField string
  | ItemsField string "string option" billable_item_filter "int option" "string option"
  | InvoicesField string "string option" invoice_list_filter "int option" "string option"
  | InvoiceField string
  | AdminInstancesField
  | AdminInstanceField string
  | AdminUsersField
  | AdminUserField string

definition answer_loop :: "('a \<Rightarrow> gql_object list) \<Rightarrow> 'a loop_run \<Rightarrow> gql_object list loop_run" where
  "answer_loop f m = obind m (\<lambda>x. once (sreturn (f x)))"

text \<open>The nodes of a connection: \<open>canon\<close> is the date library's, as for the listings.\<close>

definition nodes :: "'a connection \<Rightarrow> 'a list" where
  "nodes c = map snd (cn_edges c)"

fun roots :: "pager \<Rightarrow> (string \<Rightarrow> string option) \<Rightarrow> desk \<Rightarrow> root_field \<Rightarrow> gql_object list loop_run" where
  "roots P canon D MeField = once (answer UserObject (q_me D))"
| "roots P canon D (InstanceField slug) = once (answer_opt InstanceObject (q_instance D slug))"
| "roots P canon D (TicketsField i st asg args) = answer_loop (map TicketObject \<circ> nodes) (q_tickets P D i st asg args)"
| "roots P canon D (TicketField i) = once (answer_opt TicketObject (q_ticket D i))"
| "roots P canon D (ProjectsField i b) = once (answer_all ProjectObject (q_projects D i b))"
| "roots P canon D (ProjectField i) = once (answer_opt ProjectObject (q_project D i))"
| "roots P canon D (ItemsField i p filt n c) =
     answer_loop (map (\<lambda>it. ItemObject it None) \<circ> nodes) (q_billable_items P D canon i p filt n c)"
| "roots P canon D (InvoicesField i p filt n c) = answer_loop (map InvoiceObject \<circ> nodes) (q_invoices P D i p filt n c)"
| "roots P canon D (InvoiceField i) = once (answer_opt InvoiceObject (q_invoice D i))"
| "roots P canon D AdminInstancesField = answer_loop (map InstanceObject) (q_admin_instances P D)"
| "roots P canon D (AdminInstanceField i) = once (answer_opt InstanceObject (q_admin_instance D i))"
| "roots P canon D AdminUsersField = answer_loop (map UserObject) (q_admin_users P D)"
| "roots P canon D (AdminUserField i) = once (answer_opt UserObject (q_admin_user D i))"

inductive reached :: "pager \<Rightarrow> (string \<Rightarrow> string option) \<Rightarrow> desk \<Rightarrow> store \<Rightarrow> gql_object \<Rightarrow> bool"
  for P :: pager and canon :: "string \<Rightarrow> string option" and D :: desk and s :: store where
  at_root: "w_db w = s \<Longrightarrow> roots P canon D f w = Some (Inr xs, w') \<Longrightarrow> x \<in> set xs \<Longrightarrow> reached P canon D s x"
| by_link: "reached P canon D s y \<Longrightarrow> m \<in> set (links D y) \<Longrightarrow> w_db w = s \<Longrightarrow> m w = (Inr xs, w') \<Longrightarrow> x \<in> set xs \<Longrightarrow>
    reached P canon D s x"

subsection \<open>Who may see what\<close>

definition stored :: "store \<Rightarrow> string \<Rightarrow> (item \<Rightarrow> string + 'r) \<Rightarrow> 'r \<Rightarrow> bool" where
  "stored s t f x \<longleftrightarrow> (\<exists>k it. s t k = Some it \<and> f it = Inr x)"

fun belongs_to :: "auth_info option \<Rightarrow> string \<Rightarrow> bool" where
  "belongs_to (Some (User u ms su tk g)) i = is_member ms i"
| "belongs_to _ i = False"

fun settles :: "auth_info option \<Rightarrow> string \<Rightarrow> bool" where
  "settles (Some (User u ms su tk g)) i = (su \<or> is_owner ms i)"
| "settles _ i = False"

fun is_caller :: "auth_info option \<Rightarrow> string \<Rightarrow> bool" where
  "is_caller (Some (User u ms su tk g)) i = (u = i)"
| "is_caller _ i = False"

fun signed_in :: "auth_info option \<Rightarrow> bool" where
  "signed_in (Some (User u ms su tk g)) = True"
| "signed_in (Some (Requester e i)) = True"
| "signed_in _ = False"

text \<open>A ticket is for the members of its instance and for its requesters, who log in to that instance.\<close>

definition sees_ticket :: "auth_info option \<Rightarrow> ticket \<Rightarrow> bool" where
  "sees_ticket a t \<longleftrightarrow>
     belongs_to a (tkt_instance_id t)
     \<or> (\<exists>e. a = Some (Requester e (tkt_instance_id t)) \<and> e \<in> set (tkt_requester_emails t))"

text \<open>A message of such a ticket; a note only for a member of the ticket's instance.\<close>

definition message_visible :: "auth_info option \<Rightarrow> store \<Rightarrow> ticket_message \<Rightarrow> bool" where
  "message_visible a s m \<longleftrightarrow>
     (\<exists>t. stored s ''ticket'' hydrate_ticket t \<and> sees_ticket a t \<and> msg_ticket_id m = tkt_id t
        \<and> (msg_kind m = Note \<longrightarrow> belongs_to a (tkt_instance_id t)))"

fun permitted :: "auth_info option \<Rightarrow> store \<Rightarrow> gql_object \<Rightarrow> bool" where
  "permitted a s (UserObject u) = signed_in a"
| "permitted a s (InstanceObject i) = signed_in a"
| "permitted a s (SettingsObject i) = signed_in a"
| "permitted a s (MembershipObject mi) = signed_in a"
| "permitted a s (MemberObject u r) =
     (\<exists>m. stored s ''membership'' hydrate_membership m \<and> mb_user_id m = usr_id u \<and> mb_role m = r
        \<and> settles a (mb_instance_id m))"
| "permitted a s (ApiTokenObject k) = settles a (tk_instance_id k)"
| "permitted a s (AddressObject x) =
     (\<exists>r. stored s ''inbound_address'' hydrate_inbound_address r \<and> settles a (ia_instance_id r) \<and> x = inbound_address_info_of r)"
| "permitted a s (TicketObject t) = (stored s ''ticket'' hydrate_ticket t \<and> sees_ticket a t)"
| "permitted a s (MessageObject m) = message_visible a s m"
| "permitted a s (AttachmentObject x) = (\<exists>m. message_visible a s m \<and> x \<in> set (msg_attachments m))"
| "permitted a s (ProjectObject p) = (stored s ''project'' hydrate_project p \<and> belongs_to a (proj_instance_id p))"
| "permitted a s (ItemObject it parent) =
     (stored s ''billable_item'' hydrate_billable_item it \<and> belongs_to a (item_instance_id it)
      \<and> (case parent of None \<Rightarrow> True | Some v \<Rightarrow> stored s ''invoice'' hydrate_invoice v \<and> belongs_to a (inv_instance_id v)))"
| "permitted a s (InvoiceObject v) = (stored s ''invoice'' hydrate_invoice v \<and> belongs_to a (inv_instance_id v))"
| "permitted a s (GrantObject g) = is_caller a (og_user_id g)"
| "permitted a s (PasskeyObject p) =
     (\<exists>c. stored s ''webauthn_credential'' hydrate_webauthn_credential c \<and> is_caller a (wc_user_id c) \<and> p = passkey_info_of c)"

text \<open>Rows that name each other lie in one instance, and the tables batch reads go to are keyed.\<close>

definition rows_linked :: "store \<Rightarrow> bool" where
  "rows_linked s \<longleftrightarrow>
     (\<forall>it p. stored s ''billable_item'' hydrate_billable_item it \<longrightarrow> stored s ''project'' hydrate_project p \<longrightarrow>
        proj_id p = item_project_id it \<longrightarrow> proj_instance_id p = item_instance_id it)
     \<and> (\<forall>it v. stored s ''billable_item'' hydrate_billable_item it \<longrightarrow> stored s ''invoice'' hydrate_invoice v \<longrightarrow>
        item_invoice_id it = Some (inv_id v) \<or> item_id it \<in> set (inv_item_ids v) \<longrightarrow> inv_instance_id v = item_instance_id it)
     \<and> (\<forall>v p. stored s ''invoice'' hydrate_invoice v \<longrightarrow> stored s ''project'' hydrate_project p \<longrightarrow>
        proj_id p = inv_project_id v \<longrightarrow> proj_instance_id p = inv_instance_id v)"

definition query_tables :: "string set" where
  "query_tables = {''user'', ''instance'', ''ticket'', ''project'', ''billable_item'', ''invoice''}"

end
