(* ===== verification/Query_Safety.thy ===== *)
theory Query_Safety
  imports Query_Graph
begin

section \<open>Where a query's objects come from\<close>

text \<open>
  The judgement \<open>answers s m G\<close>: run in the state \<open>s\<close>, \<open>m\<close> answers only what \<open>G\<close> holds of and
  leaves the state alone. By it and by induction over \<open>reached\<close>, tickets, threads, projects, items,
  invoices, tokens and members are only reached by the principals they are for.
\<close>

named_theorems answer_intros \<open>rules of the judgement on answers, one per program construct\<close>

definition answers :: "store \<Rightarrow> 'a run \<Rightarrow> ('a \<Rightarrow> bool) \<Rightarrow> bool" where
  "answers s m G \<longleftrightarrow> (\<forall>w x w'. w_db w = s \<longrightarrow> m w = (Inr x, w') \<longrightarrow> G x \<and> w_db w' = s)"

definition answers_loop :: "store \<Rightarrow> 'a loop_run \<Rightarrow> ('a \<Rightarrow> bool) \<Rightarrow> bool" where
  "answers_loop s m G \<longleftrightarrow> (\<forall>w x w'. w_db w = s \<longrightarrow> m w = Some (Inr x, w') \<longrightarrow> G x \<and> w_db w' = s)"

lemma answersI: "(\<And>w x w'. w_db w = s \<Longrightarrow> m w = (Inr x, w') \<Longrightarrow> G x \<and> w_db w' = s) \<Longrightarrow> answers s m G"
  unfolding answers_def by blast

lemma answersD: "answers s m G \<Longrightarrow> w_db w = s \<Longrightarrow> m w = (Inr x, w') \<Longrightarrow> G x \<and> w_db w' = s"
  unfolding answers_def by blast

lemma answers_loopI: "(\<And>w x w'. w_db w = s \<Longrightarrow> m w = Some (Inr x, w') \<Longrightarrow> G x \<and> w_db w' = s) \<Longrightarrow> answers_loop s m G"
  unfolding answers_loop_def by blast

lemma answers_loopD: "answers_loop s m G \<Longrightarrow> w_db w = s \<Longrightarrow> m w = Some (Inr x, w') \<Longrightarrow> G x \<and> w_db w' = s"
  unfolding answers_loop_def by blast

lemma ans_bind:
  assumes "answers s m F" "\<And>x. F x \<Longrightarrow> answers s (k x) G"
  shows "answers s (sbind m k) G"
proof (rule answersI)
  fix w y w' assume w: "w_db w = s" and run: "sbind m k w = (Inr y, w')"
  then obtain x w1 where m: "m w = (Inr x, w1)" and k: "k x w1 = (Inr y, w')"
    by (auto simp: sbind_def split: prod.splits sum.splits)
  from answersD [OF assms(1) w m] answersD [OF assms(2) _ k] show "G y \<and> w_db w' = s" by blast
qed

lemma ans_weaken: "answers s m F \<Longrightarrow> (\<And>x. F x \<Longrightarrow> G x) \<Longrightarrow> answers s m G"
  unfolding answers_def by blast

lemma ans_return: "G x \<Longrightarrow> answers s (sreturn x) G"
  by (auto simp: answers_def sreturn_def)

lemma ans_returned [answer_intros]: "answers s (sreturn x) (\<lambda>y. y = x)"
  by (rule ans_return) simp

lemma ans_lift [answer_intros]: "answers s (slift r) (\<lambda>x. r = Inr x)"
  by (auto simp: answers_def slift_def)

lemma ans_found [answer_intros]: "answers s (found e y) (\<lambda>x. y = Some x)"
  unfolding found_def by (rule ans_weaken [OF ans_lift]) (simp add: ok_or_def split: option.splits)

lemma ans_ensure [answer_intros]: "answers s (sensure_api b e) (\<lambda>_. b)"
  by (auto simp: answers_def sensure_api_def sensure_def)

lemma ans_guard [answer_intros]: "answers s (guard D req) (\<lambda>_. guard_check req (dk_auth D) = Inr ())"
  unfolding guard_def by (rule ans_weaken [OF ans_lift]) auto

lemma ans_once: "answers s m G \<Longrightarrow> answers_loop s (once m) G"
  by (rule answers_loopI, rule answersD, assumption, assumption, simp add: once_def)

lemma ans_obind:
  assumes "answers_loop s m F" "\<And>x. F x \<Longrightarrow> answers_loop s (k x) G"
  shows "answers_loop s (obind m k) G"
proof (rule answers_loopI)
  fix w y w' assume w: "w_db w = s" and run: "obind m k w = Some (Inr y, w')"
  then obtain x w1 where m: "m w = Some (Inr x, w1)" and k: "k x w1 = Some (Inr y, w')"
    by (auto simp: obind_def split: prod.splits sum.splits option.splits)
  from answers_loopD [OF assms(1) w m] answers_loopD [OF assms(2) _ k] show "G y \<and> w_db w' = s" by blast
qed

lemma ans_loop_weaken: "answers_loop s m F \<Longrightarrow> (\<And>x. F x \<Longrightarrow> G x) \<Longrightarrow> answers_loop s m G"
  unfolding answers_loop_def by blast

subsection \<open>Principals\<close>

lemma ans_memberships [answer_intros]:
  "answers s (user_memberships D) (\<lambda>ms. \<exists>u su tk g. dk_auth D = Some (User u ms su tk g))"
  unfolding user_memberships_def by (rule ans_weaken [OF ans_lift]) (auto split: option.splits auth_info.splits)

lemma ans_user_id [answer_intros]: "answers s (require_user_id D) (\<lambda>u. is_caller (dk_auth D) u)"
  unfolding require_user_id_def by (rule ans_weaken [OF ans_lift]) (auto split: option.splits auth_info.splits)

lemma guard_checks:
  "guard_check RequireAuthenticated a = Inr () \<Longrightarrow> signed_in a"
  "guard_check (RequireMember i) a = Inr () \<Longrightarrow> belongs_to a i"
  "guard_check RequireSuperuser a = Inr () \<Longrightarrow> signed_in a"
  "guard_check (RequireInstanceOwnerOrSuperuser i) a = Inr () \<Longrightarrow> settles a i"
  by (auto split: if_splits option.splits auth_info.splits)

lemma ans_guarded:
  "answers s (guard D RequireAuthenticated) (\<lambda>_. signed_in (dk_auth D))"
  "answers s (guard D (RequireMember i)) (\<lambda>_. belongs_to (dk_auth D) i)"
  "answers s (guard D RequireSuperuser) (\<lambda>_. signed_in (dk_auth D))"
  "answers s (guard D (RequireInstanceOwnerOrSuperuser i)) (\<lambda>_. settles (dk_auth D) i)"
  by (rule ans_weaken [OF ans_guard], erule guard_checks)+

lemma member_signed_in: "belongs_to a i \<Longrightarrow> signed_in a"
  by (cases "(a, i)" rule: belongs_to.cases) auto

lemma settles_signed_in: "settles a i \<Longrightarrow> signed_in a"
  by (cases "(a, i)" rule: settles.cases) auto

lemma caller_signed_in: "is_caller a i \<Longrightarrow> signed_in a"
  by (cases "(a, i)" rule: is_caller.cases) auto

lemma visible_sees: "ticket_visible t a \<longleftrightarrow> sees_ticket a t"
  by (cases "(t, a)" rule: ticket_visible.cases) (auto simp: sees_ticket_def)

lemma visible_signed_in: "sees_ticket a t \<Longrightarrow> signed_in a"
  by (auto simp: sees_ticket_def dest: member_signed_in)

lemma message_signed_in: "message_visible a s m \<Longrightarrow> signed_in a"
  unfolding message_visible_def by (auto dest: visible_signed_in)

text \<open>A thread shows itself to those who see the ticket, and its notes to members only.\<close>

lemma shown_notes: "show_notes t a = Inr notes \<Longrightarrow> sees_ticket a t \<and> (notes \<longrightarrow> belongs_to a (tkt_instance_id t))"
  by (cases "(t, a)" rule: show_notes.cases) (auto simp: sees_ticket_def split: if_splits)

subsection \<open>Ticket indexes\<close>

text \<open>
  Every ticket row carries the attributes of its indexes as \<open>compute_ticket_markers\<close> gives them,
  and the ids of instances have no \<open>#\<close>, the character that joins an instance and a status there.
\<close>

definition tickets_marked :: "store \<Rightarrow> bool" where
  "tickets_marked s \<longleftrightarrow>
     (\<forall>k it. s ''ticket'' k = Some it \<longrightarrow> (\<exists>i n st as. ticket_row_is k it i n st as \<and> CHR ''#'' \<notin> set i))"

definition plain_memberships :: "auth_info option \<Rightarrow> bool" where
  "plain_memberships a \<longleftrightarrow> (\<forall>i. belongs_to a i \<longrightarrow> CHR ''#'' \<notin> set i)"

lemma joined_prefix: "i @ c # x = j @ c # y \<Longrightarrow> c \<notin> set i \<Longrightarrow> c \<notin> set j \<Longrightarrow> i = j"
  by (induction i arbitrary: j) (case_tac j; force)+

lemma marked_row:
  assumes "ticket_row_is k it j m st as"
  shows "it ''instance_status'' = Some (AS (j @ ''#'' @ ticket_status_str st))"
    and "it ''instance_visible'' = Some (AS v) \<Longrightarrow> v = j"
    and "it ''instance_assignee'' = Some (AS v) \<Longrightarrow> \<exists>u. v = j @ ''#'' @ u"
  using assms by (cases as; auto simp: ticket_row_is_def markers_of_def compute_ticket_markers_def Let_def split: if_splits)+

lemma indexed_instance:
  assumes "tickets_marked s" "s ''ticket'' k = Some it" "indexed (tickets_query i filt n forward) it" "CHR ''#'' \<notin> set i"
  shows "it ''instance_id'' = Some (AS i)"
proof -
  from assms(1,2) obtain j m st as where r: "ticket_row_is k it j m st as" and j: "CHR ''#'' \<notin> set j"
    unfolding tickets_marked_def by blast
  note join = joined_prefix [of j "CHR ''#''" _ i, OF _ j assms(4)]
  have "j = i"
  proof (cases filt)
    case (ByStatus status)
    with assms(3) have "it ''instance_status'' = Some (AS (i @ ''#'' @ ticket_status_str status))"
      by (simp add: indexed_def tickets_query_def)
    with marked_row(1) [OF r] join [of "ticket_status_str st" "ticket_status_str status"] show ?thesis by simp
  next
    case Visible
    with assms(3) marked_row(2) [OF r] show ?thesis by (simp add: indexed_def tickets_query_def)
  next
    case (AssignedTo u status)
    with assms(3) have "it ''instance_assignee'' = Some (AS (i @ ''#'' @ u))" by (simp add: indexed_def tickets_query_def)
    from marked_row(3) [OF r this] obtain u' where "i @ ''#'' @ u = j @ ''#'' @ u'" by blast
    with join [of u' u] show ?thesis by simp
  qed
  with r show ?thesis by (simp add: ticket_row_is_def)
qed

subsection \<open>Rows that are read\<close>

lemma storedI: "s t k = Some it \<Longrightarrow> f it = Inr x \<Longrightarrow> stored s t f x"
  by (auto simp: stored_def)

lemma id_hydrates:
  "id_hydrate hydrate_project proj_id" "id_hydrate hydrate_invoice inv_id" "id_hydrate hydrate_billable_item item_id"
  by (auto simp: id_hydrate_def hydrate_project_def hydrate_invoice_def hydrate_billable_item_def)

lemma removed_rows: "Some x \<in> set (remove_each ids m) \<Longrightarrow> \<exists>i \<in> set ids. m i = Some x"
proof (induction ids arbitrary: m)
  case (Cons j ids)
  show ?case
  proof (cases "m j = Some x")
    case False
    with Cons obtain i where "i \<in> set ids" "(m(j := None)) i = Some x" by fastforce
    then show ?thesis by (auto split: if_splits)
  qed simp
qed simp

lemma removed_nth: "j < length (remove_each ids m) \<Longrightarrow> remove_each ids m ! j = Some x \<Longrightarrow> m (ids ! j) = Some x"
proof (induction ids arbitrary: m j)
  case (Cons i ids)
  show ?case
  proof (cases j)
    case (Suc k)
    have "(m(i := None)) (ids ! k) = Some x"
      by (rule Cons.IH [of k "m(i := None)"]) (use Cons.prems Suc in \<open>simp_all add: fun_upd_def\<close>)
    with Suc show ?thesis by (simp split: if_splits)
  qed (use Cons.prems in simp)
qed simp

lemma instance_attribute:
  "hydrate_ticket it = Inr t \<Longrightarrow> it ''instance_id'' = Some (AS (tkt_instance_id t))"
  "hydrate_project it = Inr p \<Longrightarrow> it ''instance_id'' = Some (AS (proj_instance_id p))"
  "hydrate_billable_item it = Inr b \<Longrightarrow> it ''instance_id'' = Some (AS (item_instance_id b))"
  "hydrate_billable_item it = Inr b \<Longrightarrow> it ''project_id'' = Some (AS (item_project_id b))"
  "hydrate_invoice it = Inr v \<Longrightarrow> it ''instance_id'' = Some (AS (inv_instance_id v))"
  "hydrate_invoice it = Inr v \<Longrightarrow> it ''project_id'' = Some (AS (inv_project_id v))"
  "hydrate_api_token it = Inr k \<Longrightarrow> it ''instance_id'' = Some (AS (tk_instance_id k))"
  "hydrate_membership it = Inr m \<Longrightarrow> it ''instance_id'' = Some (AS (mb_instance_id m))"
  "hydrate_oauth_grant it = Inr g \<Longrightarrow> it ''user_id'' = Some (AS (og_user_id g))"
  "hydrate_webauthn_credential it = Inr c \<Longrightarrow> it ''user_id'' = Some (AS (wc_user_id c))"
  "hydrate_message it = Inr msg \<Longrightarrow> it ''ticket_id'' = Some (AS (msg_ticket_id msg))"
  "hydrate_inbound_address it = Inr adr \<Longrightarrow> it ''instance_id'' = Some (AS (ia_instance_id adr))"
  "hydrate_membership it = Inr m \<Longrightarrow> it ''user_id'' = Some (AS (mb_user_id m))"
  by (auto simp: hydrate_ticket_def hydrate_project_def hydrate_billable_item_def hydrate_invoice_def hydrate_api_token_def
      hydrate_membership_def hydrate_oauth_grant_def hydrate_webauthn_credential_def hydrate_message_def
      hydrate_inbound_address_def)

lemma mapM_source: "mapM f xs = Inr ys \<Longrightarrow> y \<in> set ys \<Longrightarrow> \<exists>x \<in> set xs. f x = Inr y"
  by (induction xs arbitrary: ys) auto

definition row_of_index :: "store \<Rightarrow> list_query \<Rightarrow> (item \<Rightarrow> string + 'r) \<Rightarrow> 'r \<Rightarrow> bool" where
  "row_of_index s qy f r \<longleftrightarrow> (\<exists>k it. s (lq_table qy) k = Some it \<and> indexed qy it \<and> f it = Inr r)"

text \<open>A scope lies in an instance.\<close>

definition scope_of :: "store \<Rightarrow> string \<Rightarrow> list_scope \<Rightarrow> bool" where
  "scope_of s i scope \<longleftrightarrow>
     scope = InstanceScope i
     \<or> (\<exists>p. scope = ProjectScope (proj_id p) \<and> stored s ''project'' hydrate_project p \<and> proj_instance_id p = i)"

definition index_pages :: "pager \<Rightarrow> bool" where
  "index_pages P \<longleftrightarrow> (\<forall>n s qy start its nxt. P n s qy start = Inr (its, nxt) \<longrightarrow> lq_limit qy \<noteq> Some 0 \<longrightarrow>
     (\<forall>it \<in> set its. \<exists>k. s (lq_table qy) k = Some it \<and> indexed qy it))"

lemma index_pagesD: "index_pages P \<Longrightarrow> P n s qy start = Inr (its, nxt) \<Longrightarrow> lq_limit qy \<noteq> Some 0 \<Longrightarrow> it \<in> set its \<Longrightarrow>
    \<exists>k. s (lq_table qy) k = Some it \<and> indexed qy it"
  unfolding index_pages_def by blast

text \<open>A service that keeps the paging contract has only rows of the index on its pages.\<close>

context paged_service begin

lemma pages_of_index: "index_pages pg"
  unfolding index_pages_def
proof (intro allI impI ballI)
  fix n s qy start its nxt it
  assume got: "pg n s qy start = Inr (its, nxt)" "lq_limit qy \<noteq> Some 0" and it: "it \<in> set its"
  from page [OF got] obtain ks m where ks: "listing ord s qy start ks" "its = matching s qy (take m ks)" by blast
  with it obtain k where "k \<in> set (take m ks)" "it = row s qy k" by (auto simp: matching_def)
  with ks(1) in_set_takeD [of k m ks] show "\<exists>k. s (lq_table qy) k = Some it \<and> indexed qy it"
    by (auto simp: listing_def indexed_keys_def row_def attrs_of_def)
qed

end

text \<open>Induction over the rounds of a loop that ends.\<close>

lemma page_loop_induct [consumes 1, case_names step]:
  assumes run: "page_loop P D f qy want start acc w = Some res"
    and step: "\<And>loop start acc w res.
      (\<And>start acc w res. loop start acc w = Some res \<Longrightarrow> R start acc w res) \<Longrightarrow>
      (case read_rows P D f qy start w of
          (Inl e, w') \<Rightarrow> Some (Inl e, w')
        | (Inr (rows, nxt), w') \<Rightarrow>
            if want \<le> length (acc @ rows) \<or> nxt = None then Some (Inr (acc @ rows), w')
            else loop nxt (acc @ rows) w') = Some res \<Longrightarrow> R start acc w res"
  shows "R start acc w res"
proof -
  let ?Q = "\<lambda>x res. fst (fst (fst x)) = ((((P, D), f), qy), want) \<longrightarrow> R (snd (fst (fst x))) (snd (fst x)) (snd x) res"
  have "?Q (((((((P, D), f), qy), want), start), acc), w) res"
    by (rule page_loop.raw_induct [where Pa = ?Q, OF _ run], unfold fst_conv snd_conv prod.inject, intro impI, elim conjE,
        hypsubst, erule step [rotated], blast)
  then show ?thesis by simp
qed

lemma walk_induct [consumes 1, case_names step]:
  assumes run: "walk P D qy start acc w = Some res"
    and step: "\<And>loop start acc w res.
      (\<And>start acc w res. loop start acc w = Some res \<Longrightarrow> R start acc w res) \<Longrightarrow>
      (case read_page P D qy start w of
          (Inl e, w') \<Rightarrow> Some (Inl e, w')
        | (Inr (its, nxt), w') \<Rightarrow>
            if nxt = None then Some (Inr (acc @ its), w') else loop nxt (acc @ its) w') = Some res \<Longrightarrow> R start acc w res"
  shows "R start acc w res"
proof -
  let ?Q = "\<lambda>x res. fst (fst (fst x)) = ((P, D), qy) \<longrightarrow> R (snd (fst (fst x))) (snd (fst x)) (snd x) res"
  have "?Q (((((P, D), qy), start), acc), w) res"
    by (rule walk.raw_induct [where Pa = ?Q, OF _ run], unfold fst_conv snd_conv prod.inject, intro impI, elim conjE,
        hypsubst, erule step [rotated], blast)
  then show ?thesis by simp
qed

context current_desk begin

lemma ans_call:
  assumes "\<And>n x. f n s = Inr x \<Longrightarrow> G x"
  shows "answers s (call D (\<lambda>n s. (f n s, s))) G"
  using assms by (auto simp: answers_def call_step)

lemma ans_db_read: "answers s (db_read D f) (\<lambda>x. f s = Inr x)"
  unfolding db_read_def by (rule ans_call) (simp add: current db_error_of_def)

lemma ans_db_read_now: "answers s (db_read_now D f) (\<lambda>x. f s = Inr x)"
  unfolding db_read_now_def by (rule ans_call) (simp add: db_error_of_def)

lemma query_stored:
  assumes "query_all (dk_query D) f t a v s = Inr xs" "x \<in> set xs"
  shows "\<exists>k it. s t k = Some it \<and> it a = Some (AS v) \<and> f it = Inr x"
proof -
  from assms(1) obtain its where its: "q s t a v = Inr its" "mapM f its = Inr xs"
    by (auto simp: query_all_def query)
  from mapM_source [OF its(2) assms(2)] ix.query_row [OF its(1)] show ?thesis by blast
qed

lemma batch_stored:
  assumes "get_records (dk_db D) t f rid ids s = Inr rs" "id_hydrate f rid" "keyed s t" "Some x \<in> set rs"
  shows "stored s t f x \<and> rid x \<in> set ids"
proof -
  from assms(1) obtain m where m: "batch_chunks h s t f rid (chunks 100 ids) Map.empty = Inr m" and rs: "rs = remove_each ids m"
    by (auto simp: get_records_def handler)
  have "rows_of s t f (Map.empty :: string \<rightharpoonup> _)" by (simp add: rows_of_def)
  from batch_chunks_spec [OF m svc assms(2) this assms(3)] have rows: "rows_of s t f m" by simp
  from assms(4) have "Some x \<in> set (remove_each ids m)" by (simp add: rs)
  from removed_rows [OF this] obtain i where i: "i \<in> set ids" "m i = Some x" by blast
  with rows obtain it where it: "s t i = Some it" "f it = Inr x" unfolding rows_of_def by blast
  have "it ''id'' = Some (AS i)" "it ''id'' = Some (AS (rid x))"
    using keyedD [OF assms(3) it(1)] assms(2) it(2) by (auto simp: id_hydrate_def)
  then have "rid x = i" by simp
  with i it show ?thesis by (auto intro: storedI)
qed

lemma first_stored:
  assumes "rbind (get_records (dk_db D) t f rid [i] s) (\<lambda>rs. Inr (first_row rs)) = Inr (Some x)"
    and "id_hydrate f rid" "keyed s t"
  shows "stored s t f x \<and> rid x = i"
proof -
  from assms(1) obtain rs where rs: "get_records (dk_db D) t f rid [i] s = Inr rs" "first_row rs = Some x" by auto
  then have "Some x \<in> set rs" by (cases rs) (auto simp: first_row_def)
  from batch_stored [OF rs(1) assms(2,3) this] show ?thesis by simp
qed

end

lemma row_step_other:
  "k \<notin> set keys \<Longrightarrow> fold add_row (zip keys recs) m0 k = m0 k"
proof (induction keys arbitrary: recs m0)
  case (Cons i keys)
  show ?case
  proof (cases recs)
    case (Cons e es)
    with \<open>k \<notin> set (i # keys)\<close> Cons.IH [of es] show ?thesis by (cases e) simp_all
  qed simp
qed simp

lemma keyed_rows_nth:
  assumes "distinct keys" "length keys = length recs" "j < length keys"
  shows "keyed_rows keys recs (keys ! j) = recs ! j"
proof -
  have "fold add_row (zip keys recs) m0 (keys ! j) = recs ! j"
    if "m0 (keys ! j) = None" for m0
    using assms that
  proof (induction keys arbitrary: recs m0 j)
    case (Cons i keys)
    then obtain e es where recs: "recs = e # es" by (cases recs) auto
    show ?case
    proof (cases j)
      case 0
      with Cons.prems recs show ?thesis by (cases e) (simp_all add: row_step_other)
    next
      case (Suc n)
      with Cons.prems recs have "keys ! n \<noteq> i" by (auto dest: nth_mem)
      with Suc Cons.prems recs Cons.IH [of es n] show ?thesis by (cases e) simp_all
    qed
  qed simp
  then show ?thesis by (simp add: keyed_rows_def)
qed

subsection \<open>Rules for the fields\<close>

definition query_keyed :: "store \<Rightarrow> bool" where
  "query_keyed s \<longleftrightarrow> (\<forall>t \<in> query_tables. keyed s t)"

lemma query_keyedD:
  assumes "query_keyed s"
  shows "keyed s ''user''" "keyed s ''instance''" "keyed s ''ticket''" "keyed s ''project''" "keyed s ''billable_item''"
    "keyed s ''invoice''"
  using assms by (simp_all add: query_keyed_def query_tables_def)

lemma ans_answer: "answers s m (\<lambda>x. Q (f x)) \<Longrightarrow> answers s (answer f m) (\<lambda>ys. \<forall>y \<in> set ys. Q y)"
  unfolding answer_def by (erule ans_bind) (simp add: ans_return)

lemma ans_answer_opt: "answers s m (\<lambda>x. \<forall>y. x = Some y \<longrightarrow> Q (f y)) \<Longrightarrow> answers s (answer_opt f m) (\<lambda>ys. \<forall>y \<in> set ys. Q y)"
  unfolding answer_opt_def by (erule ans_bind) (rule ans_return, auto split: option.split)

lemma ans_answer_all: "answers s m (\<lambda>xs. \<forall>x \<in> set xs. Q (f x)) \<Longrightarrow> answers s (answer_all f m) (\<lambda>ys. \<forall>y \<in> set ys. Q y)"
  unfolding answer_all_def by (erule ans_bind) (rule ans_return, auto)

lemma ans_answer_loop:
  "answers_loop s m (\<lambda>x. \<forall>y \<in> set (f x). Q y) \<Longrightarrow> answers_loop s (answer_loop f m) (\<lambda>ys. \<forall>y \<in> set ys. Q y)"
  unfolding answer_loop_def by (erule ans_obind) (rule ans_once, rule ans_return, auto)

context current_desk begin

text \<open>Reads of single rows and of lists.\<close>

lemma ans_self [answer_intros]: "answers s (self_only D uid refusal) (\<lambda>_. is_caller (dk_auth D) uid)"
  unfolding self_only_def
  by (rule ans_bind [OF ans_guard], rule ans_bind [OF ans_user_id], rule ans_weaken [OF ans_ensure]) simp

lemma ans_load_one: "answers s (load_one D get what i) (\<lambda>x. \<forall>y. x = Some y \<longrightarrow>
    (\<exists>rs. get (dk_db D) [i] s = Inr rs \<and> keyed_rows [i] rs i = Some y))"
  unfolding load_one_def by (rule ans_call) (auto simp: current load_keys_def)

lemma loaded_single: "keyed_rows [i] rs i = Some y \<Longrightarrow> Some y \<in> set rs"
  by (cases rs; cases "hd rs") (auto simp: keyed_rows_def)

lemma single_stored:
  assumes "get_records (dk_db D) t f rid [i] s = Inr rs" "keyed_rows [i] rs i = Some x" "id_hydrate f rid" "keyed s t"
  shows "stored s t f x \<and> rid x = i"
  using batch_stored [OF assms(1,3,4) loaded_single [OF assms(2)]] by simp

text \<open>A batch answers for each of its keys what a batch of that key alone would.\<close>

lemma batch_as_single:
  assumes "get_records (dk_db D) t f rid keys s = Inr recs" "id_hydrate f rid" "keyed s t" "distinct keys" "k \<in> set keys"
  shows "hydrated f (s t k) = Inr (keyed_rows keys recs k)"
proof -
  have all: "list_all2 (\<lambda>i r. hydrated f (s t i) = Inr r) keys recs"
    by (rule get_records_spec [OF assms(1) [unfolded handler] svc assms(2-4)])
  from assms(5) obtain j where j: "j < length keys" "keys ! j = k" by (auto simp: in_set_conv_nth)
  with list_all2_nthD [OF all j(1)] list_all2_lengthD [OF all] keyed_rows_nth [OF assms(4), of recs j] show ?thesis by simp
qed

lemma ans_load_project:
  assumes "query_keyed s"
  shows "answers s (load_project_of D i) (\<lambda>p. stored s ''project'' hydrate_project p \<and> proj_id p = i)"
  unfolding load_project_of_def
  by (rule ans_bind [OF ans_load_one], rule ans_weaken [OF ans_found])
    (auto simp: get_projects_def dest: single_stored [OF _ _ id_hydrates(1) query_keyedD(4) [OF assms]])

lemma ans_load_invoice:
  assumes "query_keyed s"
  shows "answers s (load_one D get_invoices what i) (\<lambda>x. \<forall>v. x = Some v \<longrightarrow>
     stored s ''invoice'' hydrate_invoice v \<and> inv_id v = i)"
  by (rule ans_weaken [OF ans_load_one])
    (auto simp: get_invoices_def dest: single_stored [OF _ _ id_hydrates(2) query_keyedD(6) [OF assms]])

lemma ans_get_ticket: "query_keyed s \<Longrightarrow> answers s (get_ticket D i) (\<lambda>x. \<forall>t. x = Some t \<longrightarrow> stored s ''ticket'' hydrate_ticket t)"
  unfolding get_ticket_def get_tickets_def
  by (rule ans_weaken [OF ans_db_read]) (use first_stored [OF _ id_hydrate_ticket query_keyedD(3)] in blast)

lemma ans_get_project:
  "query_keyed s \<Longrightarrow> answers s (get_project D i) (\<lambda>x. \<forall>p. x = Some p \<longrightarrow> stored s ''project'' hydrate_project p)"
  unfolding get_project_def
  by (rule ans_weaken [OF ans_db_read]) (use first_stored [OF _ id_hydrates(1) query_keyedD(4)] in blast)

lemma ans_get_user: "answers s (get_user D i) (\<lambda>_. True)"
  unfolding get_user_def by (rule ans_weaken [OF ans_db_read]) simp

lemma ans_get_instance: "answers s (get_instance D i) (\<lambda>_. True)"
  unfolding get_instance_def by (rule ans_weaken [OF ans_db_read]) simp

lemma ans_in_invoicing: "answers s (in_invoicing_instance D i) (\<lambda>_. True)"
  unfolding in_invoicing_instance_def by (rule ans_bind [OF ans_get_instance]) (simp add: ans_return)

lemma ans_list:
  assumes "\<And>it x. f it = Inr x \<Longrightarrow> it a = Some (AS (key x))"
  shows "answers s (db_read D (query_all (dk_query D) f t a v)) (\<lambda>xs. \<forall>x \<in> set xs. stored s t f x \<and> key x = v)"
proof (rule ans_weaken [OF ans_db_read], intro ballI)
  fix xs x assume "query_all (dk_query D) f t a v s = Inr xs" "x \<in> set xs"
  from query_stored [OF this] obtain k it where "s t k = Some it" "it a = Some (AS v)" "f it = Inr x" by blast
  with assms [of it x] show "stored s t f x \<and> key x = v" by (auto intro: storedI)
qed

lemma batch_nth:
  assumes "get_records (dk_db D) t f rid ids s = Inr rs" "id_hydrate f rid" "keyed s t" "j < length rs" "rs ! j = Some x"
  shows "rid x = ids ! j"
proof -
  from assms(1) obtain m where m: "batch_chunks h s t f rid (chunks 100 ids) Map.empty = Inr m" and rs: "rs = remove_each ids m"
    by (auto simp: get_records_def handler)
  have "rows_of s t f (Map.empty :: string \<rightharpoonup> _)" by (simp add: rows_of_def)
  from batch_chunks_spec [OF m svc assms(2) this assms(3)] have rows: "rows_of s t f m" by simp
  have "m (ids ! j) = Some x" using assms(4,5) unfolding rs by (rule removed_nth)
  with rows obtain it where it: "s t (ids ! j) = Some it" "f it = Inr x" unfolding rows_of_def by blast
  have "it ''id'' = Some (AS (ids ! j))" "it ''id'' = Some (AS (rid x))"
    using keyedD [OF assms(3) it(1)] assms(2) it(2) by (auto simp: id_hydrate_def)
  then show ?thesis by simp
qed

text \<open>The fields, one by one.\<close>

lemma ans_passkeys:
  "answers s (user_passkeys D u) (\<lambda>ps. \<forall>p \<in> set ps. permitted (dk_auth D) s (PasskeyObject p))"
  unfolding user_passkeys_def list_webauthn_credentials_by_user_def
  by (rule ans_bind [OF ans_self], rule ans_bind [OF ans_list [OF instance_attribute(10)]], assumption, rule ans_return) auto

lemma ans_grants:
  "answers s (user_oauth_grants D u) (\<lambda>gs. \<forall>g \<in> set gs. permitted (dk_auth D) s (GrantObject g))"
proof -
  have now: "answers s (now_sec D) (\<lambda>_. True)" unfolding now_sec_def by (rule ans_call) simp
  show ?thesis
    unfolding user_oauth_grants_def list_oauth_grants_by_user_def
    by (rule ans_bind [OF ans_self], rule ans_bind [OF now], rule ans_bind [OF ans_list [OF instance_attribute(9)]], assumption,
        rule ans_return) auto
qed

lemma ans_user_memberships:
  "answers s (user_memberships_of D u) (\<lambda>ms. \<forall>m \<in> set ms. permitted (dk_auth D) s (MembershipObject m))"
  unfolding user_memberships_of_def memberships_of_def
  by (rule ans_bind [OF ans_guarded(1)], rule ans_bind [OF ans_db_read])
    (auto intro!: ans_return ans_bind [OF ans_db_read])

lemma ans_members:
  assumes "query_keyed s"
  shows "answers s (instance_members D i) (\<lambda>ms. \<forall>m \<in> set ms. permitted (dk_auth D) s (case m of (u, r) \<Rightarrow> MemberObject u r))"
  unfolding instance_members_def list_memberships_by_instance_def
proof (rule ans_bind [OF ans_guarded(4)], rule ans_bind [OF ans_list [OF instance_attribute(8)]], assumption)
  fix x :: unit and ms
  assume guarded: "settles (dk_auth D) (inst_id i)"
    and ms: "\<forall>m \<in> set ms. stored s ''membership'' hydrate_membership m \<and> mb_instance_id m = inst_id i"
  let ?G = "\<lambda>ms. \<forall>m \<in> set ms. permitted (dk_auth D) s (case m of (u, r) \<Rightarrow> MemberObject u r)"
  have "permitted (dk_auth D) s (case p of (u, r) \<Rightarrow> MemberObject u r)"
    if users: "get_users (dk_db D) (map mb_user_id ms) s = Inr users"
      and p: "p \<in> set (List.map_filter (\<lambda>(m, u). map_option (\<lambda>u. (u, mb_role m)) u) (zip ms users))" for users p
  proof -
    from p obtain m u where m: "(m, Some u) \<in> set (zip ms users)" "p = (u, mb_role m)"
      by (auto simp: map_filter_def)
    then obtain j where j: "j < length ms" "j < length users" "ms ! j = m" "users ! j = Some u"
      by (auto simp: set_zip)
    have "usr_id u = mb_user_id m"
      using batch_nth [OF users [unfolded get_users_def] id_hydrate_user query_keyedD(1) [OF assms] j(2,4)] j(1,3) by simp
    moreover have "stored s ''membership'' hydrate_membership m" "mb_instance_id m = inst_id i"
      using ms nth_mem [OF j(1)] j(3) by auto
    ultimately show ?thesis using m(2) guarded by auto
  qed
  then show "answers s (if ms = [] then sreturn []
      else sbind (db_read D (get_users (dk_db D) (map mb_user_id ms))) (\<lambda>users.
        sreturn (List.map_filter (\<lambda>(m, u). map_option (\<lambda>u. (u, mb_role m)) u) (zip ms users)))) ?G"
    by (auto intro!: ans_return ans_bind [OF ans_db_read])
qed

lemma ans_tokens:
  "answers s (instance_api_tokens D i) (\<lambda>ks. \<forall>k \<in> set ks. permitted (dk_auth D) s (ApiTokenObject k))"
  unfolding instance_api_tokens_def list_api_tokens_by_instance_def
  by (rule ans_bind [OF ans_guarded(4)], rule ans_bind [OF ans_list [OF instance_attribute(7)]], assumption, rule ans_return) auto

lemma ans_addresses:
  "answers s (instance_inbound_addresses D i) (\<lambda>xs. \<forall>x \<in> set xs. permitted (dk_auth D) s (AddressObject x))"
  unfolding instance_inbound_addresses_def inbound_addresses_def list_inbound_addresses_by_instance_def
  by (rule ans_bind [OF ans_guarded(4)], rule ans_bind [OF ans_list [OF instance_attribute(12)]], assumption, rule ans_return) auto

lemma ans_messages:
  assumes "stored s ''ticket'' hydrate_ticket t"
  shows "answers s (ticket_messages D t) (\<lambda>ms. \<forall>m \<in> set ms. permitted (dk_auth D) s (MessageObject m))"
proof -
  have listed: "answers s (db_read D (list_ticket_messages (dk_query D) (tkt_id t)))
      (\<lambda>ms. \<forall>m \<in> set ms. msg_ticket_id m = tkt_id t)"
  proof (rule ans_weaken [OF ans_db_read], intro ballI)
    fix xs m assume "list_ticket_messages (dk_query D) (tkt_id t) s = Inr xs" "m \<in> set xs"
    then obtain ms where "query_all (dk_query D) hydrate_message ''ticket_message'' ''ticket_id'' (tkt_id t) s = Inr ms" "m \<in> set ms"
      by (auto simp: list_ticket_messages_def sort_messages_key)
    from query_stored [OF this] show "msg_ticket_id m = tkt_id t" by (auto dest: instance_attribute(11))
  qed
  show ?thesis
    unfolding ticket_messages_def
    by (rule ans_bind [OF ans_lift], rule ans_bind [OF listed], rule ans_return)
      (use assms in \<open>auto simp: message_visible_def dest!: shown_notes\<close>)
qed

lemma ans_item_invoice:
  assumes "query_keyed s" "rows_linked s" "permitted (dk_auth D) s (ItemObject it parent)"
  shows "answers s (item_invoice D it parent) (\<lambda>x. \<forall>v. x = Some v \<longrightarrow> permitted (dk_auth D) s (InvoiceObject v))"
proof (cases "item_invoice_id it")
  case (Some i)
  show ?thesis
  proof (cases "known_parent it parent")
    case None
    have linked: "inv_instance_id v = item_instance_id it" if "stored s ''invoice'' hydrate_invoice v" "inv_id v = i" for v
      using assms(2,3) Some that by (auto simp: rows_linked_def)
    show ?thesis
      unfolding item_invoice_def Some option.case None
      by (rule ans_weaken [OF ans_load_invoice [OF assms(1)]]) (use assms(3) linked in auto)
  next
    case (Some p)
    then have "parent = Some p" by (auto simp: known_parent_def split: option.splits if_splits)
    with assms(3) show ?thesis
      using \<open>item_invoice_id it = Some i\<close> Some by (auto simp: item_invoice_def intro: ans_return)
  qed
qed (simp add: item_invoice_def ans_return)

lemma ans_item_project:
  assumes "query_keyed s" "rows_linked s" "permitted (dk_auth D) s (ItemObject it parent)"
  shows "answers s (load_project_of D (item_project_id it)) (\<lambda>p. permitted (dk_auth D) s (ProjectObject p))"
  by (rule ans_weaken [OF ans_load_project [OF assms(1)]]) (use assms(2,3) in \<open>auto simp: rows_linked_def\<close>)

lemma ans_invoice_project:
  assumes "query_keyed s" "rows_linked s" "permitted (dk_auth D) s (InvoiceObject v)"
  shows "answers s (load_project_of D (inv_project_id v)) (\<lambda>p. permitted (dk_auth D) s (ProjectObject p))"
  by (rule ans_weaken [OF ans_load_project [OF assms(1)]]) (use assms(2,3) in \<open>auto simp: rows_linked_def\<close>)

lemma ans_invoice_items:
  assumes "query_keyed s" "rows_linked s" "permitted (dk_auth D) s (InvoiceObject v)"
  shows "answers s (invoice_items D v) (\<lambda>xs. \<forall>x \<in> set xs. permitted (dk_auth D) s (case x of (it, parent) \<Rightarrow> ItemObject it parent))"
proof -
  have "permitted (dk_auth D) s (ItemObject it (Some v))"
    if "get_items (dk_db D) (inv_item_ids v) s = Inr recs" "Some it \<in> set recs" for recs it
  proof -
    from batch_stored [OF that(1) [unfolded get_items_def] id_hydrates(3) query_keyedD(5) [OF assms(1)] that(2)]
    have it: "stored s ''billable_item'' hydrate_billable_item it" "item_id it \<in> set (inv_item_ids v)" by auto
    with assms(2,3) have "inv_instance_id v = item_instance_id it" by (auto simp: rows_linked_def)
    with it assms(3) show ?thesis by simp
  qed
  then show ?thesis
    unfolding invoice_items_def
    by (auto intro!: ans_return ans_bind [OF ans_db_read_now] simp: map_filter_def)
qed

lemma ans_load_instance: "answers s (load_instance_of D i) (\<lambda>_. True)"
  unfolding load_instance_of_def by (rule ans_bind [OF ans_load_one], rule ans_weaken [OF ans_found]) simp

lemma ans_load_user: "answers s (load_user_of D what i) (\<lambda>_. True)"
  unfolding load_user_of_def by (cases i) (auto intro: ans_return ans_weaken [OF ans_load_one])

lemma ans_links:
  assumes "query_keyed s" "rows_linked s" "permitted (dk_auth D) s y" "m \<in> set (links D y)"
  shows "answers s m (\<lambda>xs. \<forall>x \<in> set xs. permitted (dk_auth D) s x)"
proof (cases y)
  case (UserObject u)
  with assms(4) show ?thesis
    by (auto intro!: ans_answer_all ans_passkeys ans_grants ans_user_memberships)
next
  case (InstanceObject i)
  with assms show ?thesis
    by (auto intro!: ans_answer_all ans_answer_opt ans_return ans_members ans_tokens ans_addresses)
next
  case (MemberObject u r)
  with assms show ?thesis by (auto intro!: ans_return dest: settles_signed_in)
next
  case (ApiTokenObject k)
  with assms show ?thesis
    by (auto intro!: ans_answer_opt ans_weaken [OF ans_load_one] simp: api_token_created_by_def dest: settles_signed_in)
next
  case (TicketObject t)
  with assms show ?thesis
    by (auto intro!: ans_answer ans_answer_opt ans_answer_all ans_messages ans_weaken [OF ans_load_instance]
        ans_weaken [OF ans_load_user] simp: ticket_assignee_def dest: visible_signed_in)
next
  case (MessageObject mg)
  with assms show ?thesis
    by (auto intro!: ans_answer_opt ans_return ans_weaken [OF ans_load_user] simp: message_author_def
        dest: message_signed_in) blast
next
  case (ProjectObject p)
  with assms show ?thesis by (auto intro!: ans_answer ans_weaken [OF ans_load_instance] dest: member_signed_in)
next
  case (ItemObject it parent)
  with assms ans_item_project [OF assms(1,2)] ans_item_invoice [OF assms(1,2)] show ?thesis
    by (auto intro!: ans_answer ans_answer_opt simp del: permitted.simps)
next
  case (InvoiceObject v)
  with assms ans_invoice_project [OF assms(1,2)] ans_invoice_items [OF assms(1,2)] show ?thesis
    by (auto intro!: ans_answer ans_answer_all simp del: permitted.simps)
qed (use assms in \<open>auto intro!: ans_return\<close>)

text \<open>A page holds rows of the index; the loop over pages then too.\<close>

lemma ans_read_rows:
  assumes "index_pages P" "lq_limit qy \<noteq> Some 0"
  shows "answers s (read_rows P D f qy start) (\<lambda>(rows, nxt). \<forall>r \<in> set rows. row_of_index s qy f r)"
proof (rule answersI)
  fix w p w' assume w: "w_db w = s" and run: "read_rows P D f qy start w = (Inr p, w')"
  obtain rows nxt where p: "p = (rows, nxt)" by (cases p)
  from run w p obtain its where its: "P (w_n w) s qy start = Inr (its, nxt)" "mapM f its = Inr rows" "w_db w' = s"
    by (auto simp: read_rows_def sbind_def read_page_def call_step current db_error_of_def map_err_def slift_def hydrate_items_def
        sreturn_def split: prod.splits sum.splits)
  have "row_of_index s qy f r" if "r \<in> set rows" for r
  proof -
    from mapM_source [OF its(2) that] obtain it where it: "it \<in> set its" "f it = Inr r" by blast
    with index_pagesD [OF assms(1) its(1) assms(2)] show ?thesis unfolding row_of_index_def by blast
  qed
  with its(3) p show "(case p of (rows, nxt) \<Rightarrow> \<forall>r \<in> set rows. row_of_index s qy f r) \<and> w_db w' = s" by simp
qed

lemma page_loop_rows:
  assumes "index_pages P" "lq_limit qy \<noteq> Some 0"
  shows "page_loop P D f qy want start acc w = Some res \<Longrightarrow> res = (Inr xs, w') \<Longrightarrow> w_db w = s \<Longrightarrow>
    \<forall>r \<in> set acc. row_of_index s qy f r \<Longrightarrow> (\<forall>r \<in> set xs. row_of_index s qy f r) \<and> w_db w' = s"
proof (induction arbitrary: xs w' rule: page_loop_induct)
  case (step loop start acc w res)
  from step.prems(1) step.hyps obtain rows nxt w1 where got: "read_rows P D f qy start w = (Inr (rows, nxt), w1)"
    and rest: "(if want \<le> length (acc @ rows) \<or> nxt = None then Some (Inr (acc @ rows), w1)
        else loop nxt (acc @ rows) w1) = Some (Inr xs, w')"
    by (auto split: prod.splits sum.splits)
  from answersD [OF ans_read_rows [OF assms(1,2)] step.prems(2) got] step.prems(3)
  have more: "\<forall>r \<in> set (acc @ rows). row_of_index s qy f r" "w_db w1 = s" by auto
  show ?case
  proof (cases "want \<le> length (acc @ rows) \<or> nxt = None")
    case True
    with rest more show ?thesis by auto
  next
    case False
    with rest have "loop nxt (acc @ rows) w1 = Some (Inr xs, w')" by auto
    from step.IH [OF this refl more(2,1)] show ?thesis by simp
  qed
qed

lemma ans_page_loop:
  assumes "index_pages P" "lq_limit qy \<noteq> Some 0"
  shows "answers_loop s (page_loop P D f qy want start []) (\<lambda>xs. \<forall>r \<in> set xs. row_of_index s qy f r)"
  by (rule answers_loopI, rule page_loop_rows [OF assms _ refl]) auto

lemma walk_keeps: "walk P D qy start acc w = Some res \<Longrightarrow> w_db w = s \<Longrightarrow> w_db (snd res) = s"
proof (induction rule: walk_induct)
  case (step loop start acc w res)
  have "w_db w1 = s" if "read_page P D qy start w = (r, w1)" for r w1
    using that step.prems by (auto simp: read_page_def call_step current)
  with step.hyps step.IH show ?case by (auto split: prod.splits sum.splits if_splits)
qed

lemma ans_scan: "answers_loop s (scan_all P D f t) (\<lambda>_. True)"
proof -
  have "answers_loop s (walk P D qy start acc) (\<lambda>_. True)" for qy start acc
    by (rule answers_loopI) (auto dest: walk_keeps)
  then show ?thesis
    unfolding scan_all_def scan_all_items_def
    by (rule ans_obind) (auto intro: ans_once ans_weaken [OF ans_lift])
qed

subsection \<open>The root fields\<close>

lemma ans_tickets:
  assumes "index_pages P" "tickets_marked s" "plain_memberships (dk_auth D)"
  shows "answers_loop s (q_tickets P D i st asg args) (\<lambda>c. \<forall>t \<in> set (nodes c). permitted (dk_auth D) s (TicketObject t))"
proof -
  have listed: "answers_loop s (list_tickets P D i filt pg) (\<lambda>ts. \<forall>t \<in> set ts. stored s ''ticket'' hydrate_ticket t \<and> tkt_instance_id t = i)"
    if "belongs_to (dk_auth D) i" "tp_limit pg \<noteq> 0" for filt pg
  proof -
    have found: "stored s ''ticket'' hydrate_ticket t \<and> tkt_instance_id t = i"
      if row: "row_of_index s (tickets_query i filt (tp_limit pg) forward) hydrate_ticket t" for t forward
    proof -
      from row obtain k it where it: "s ''ticket'' k = Some it" "hydrate_ticket it = Inr t"
        and at: "indexed (tickets_query i filt (tp_limit pg) forward) it"
        by (auto simp: row_of_index_def tickets_query_def Let_def split: prod.splits)
      have "CHR ''#'' \<notin> set i" using assms(3) \<open>belongs_to (dk_auth D) i\<close> by (simp add: plain_memberships_def)
      with indexed_instance [OF assms(2) it(1) at] it(2) have "tkt_instance_id t = i"
        using instance_attribute(1) [OF it(2)] by auto
      with it show ?thesis by (auto intro: storedI)
    qed
    have "lq_limit (tickets_query i filt (tp_limit pg) forward) \<noteq> Some 0" for forward
      using that(2) by (simp add: tickets_query_def Let_def split: prod.splits)
    from ans_page_loop [OF assms(1) this]
    have "answers_loop s (page_loop P D hydrate_ticket (tickets_query i filt (tp_limit pg) forward) want start [])
        (\<lambda>ts. \<forall>t \<in> set ts. stored s ''ticket'' hydrate_ticket t \<and> tkt_instance_id t = i)" for forward want start
      by (rule ans_loop_weaken) (use found in blast)
    note loop = this
    obtain a b where dir: "page_scan_direction (tp_after pg \<noteq> None) (tp_before pg \<noteq> None) (tp_descending pg) = (a, b)"
      by fastforce
    show ?thesis
      unfolding list_tickets_def Let_def dir prod.case
      by (rule ans_obind [OF loop], rule ans_once, rule ans_return) auto
  qed
  have request: "answers s (lift_api (ticket_page_request args)) (\<lambda>rq. tp_limit (tr_page rq) \<noteq> 0)"
    unfolding lift_api_def by (rule ans_weaken [OF ans_lift]) (auto simp: ticket_page_request_def fetch_limit_def split: if_splits)
  show ?thesis
    unfolding q_tickets_def
  proof (rule ans_obind [OF ans_once [OF ans_guarded(2)]], rule ans_obind [OF ans_once [OF ans_memberships]],
      rule ans_obind [OF ans_once [OF ans_ensure]], rule ans_obind [OF ans_once [OF request]], rule ans_obind [OF listed],
      assumption, assumption, rule ans_once, rule ans_return)
    fix u :: unit and ms u2 rq ts
    assume i: "belongs_to (dk_auth D) i" and ms: "\<exists>u su tk g. dk_auth D = Some (User u ms su tk g)"
      and ts: "\<forall>t \<in> set ts. stored s ''ticket'' hydrate_ticket t \<and> tkt_instance_id t = i"
    have "t \<in> set ts"
      if "t \<in> set (nodes (build_connection ts n mode af be (\<lambda>t. (encode_ticket_cursor t, t))))" for t n mode af be
      using that by (auto simp: nodes_def build_connection_def Let_def dest: in_set_takeD split: if_splits)
    with ts i ms show "\<forall>t \<in> set (nodes (build_connection ts (tr_size rq) (tr_last_mode rq) (tp_after (tr_page rq) \<noteq> None)
        (tp_before (tr_page rq) \<noteq> None) (\<lambda>t. (encode_ticket_cursor t, t)))). permitted (dk_auth D) s (TicketObject t)"
      by (fastforce simp: sees_ticket_def)
  qed
qed

text \<open>Items and invoices of an instance, or of one of its projects.\<close>

lemma ans_invoicing_instance: "query_keyed s \<Longrightarrow> answers s (invoicing_instance D i) (\<lambda>r. inst_id r = i)"
  unfolding invoicing_instance_def get_instance_def get_instances_def
  by (rule ans_bind [OF ans_db_read], rule ans_bind [OF ans_found], rule ans_bind [OF ans_lift], rule ans_return)
    (use first_stored [OF _ id_hydrate_instance query_keyedD(2)] in blast)

lemma ans_scope:
  assumes "query_keyed s" "inst_id r = i"
  shows "answers s (list_scope_of D r i project_id) (scope_of s i)"
proof (cases project_id)
  case (Some p)
  have got: "answers s (get_project D p) (\<lambda>x. \<forall>y. x = Some y \<longrightarrow> stored s ''project'' hydrate_project y \<and> proj_id y = p)"
    unfolding get_project_def
    by (rule ans_weaken [OF ans_db_read]) (use first_stored [OF _ id_hydrates(1) query_keyedD(4) [OF assms(1)]] in blast)
  show ?thesis
    unfolding list_scope_of_def Some option.case
    by (rule ans_bind [OF got], rule ans_bind [OF ans_found], rule ans_return)
      (use assms(2) in \<open>auto simp: scope_of_def split: option.splits if_splits\<close>)
qed (simp add: list_scope_of_def scope_of_def ans_return)

lemma shown_rows: "x \<in> set (nodes (build_connection xs n mode af be (\<lambda>r. (enc r, r)))) \<Longrightarrow> x \<in> set xs"
  by (auto simp: nodes_def build_connection_def Let_def dest: in_set_takeD split: if_splits)

lemma ans_listed:
  assumes "index_pages P" "lq_limit qy \<noteq> Some 0" "\<And>r. row_of_index s qy f r \<Longrightarrow> G r"
  shows "answers_loop s (obind (page_loop P D f qy want start []) (\<lambda>rows. once (sreturn (take want rows)))) (\<lambda>xs. \<forall>x \<in> set xs. G x)"
  by (rule ans_obind [OF ans_page_loop [OF assms(1,2)]], rule ans_once, rule ans_return)
    (use assms(3) in \<open>auto dest: in_set_takeD\<close>)

lemma row_in_scope:
  assumes "scope_of s i scope" "rows_linked s"
  shows "row_of_index s (newest_query ''billable_item'' srt scope c n) hydrate_billable_item it \<Longrightarrow>
      stored s ''billable_item'' hydrate_billable_item it \<and> item_instance_id it = i"
    and "row_of_index s (newest_query ''invoice'' srt scope c n) hydrate_invoice v \<Longrightarrow>
      stored s ''invoice'' hydrate_invoice v \<and> inv_instance_id v = i"
proof -
  assume "row_of_index s (newest_query ''billable_item'' srt scope c n) hydrate_billable_item it"
  then obtain k row_it where r: "s ''billable_item'' k = Some row_it" "hydrate_billable_item row_it = Inr it"
    and key: "row_it (fst (scope_key scope)) = Some (AS (snd (scope_key scope)))"
    by (cases scope) (auto simp: row_of_index_def newest_query_def indexed_def)
  from r have it: "stored s ''billable_item'' hydrate_billable_item it" by (rule storedI)
  moreover have "item_instance_id it = i"
    using assms key it instance_attribute(3,4) [OF r(2)] by (auto simp: scope_of_def rows_linked_def)
  ultimately show "stored s ''billable_item'' hydrate_billable_item it \<and> item_instance_id it = i" by simp
next
  assume "row_of_index s (newest_query ''invoice'' srt scope c n) hydrate_invoice v"
  then obtain k row_v where r: "s ''invoice'' k = Some row_v" "hydrate_invoice row_v = Inr v"
    and key: "row_v (fst (scope_key scope)) = Some (AS (snd (scope_key scope)))"
    by (cases scope) (auto simp: row_of_index_def newest_query_def indexed_def)
  from r have v: "stored s ''invoice'' hydrate_invoice v" by (rule storedI)
  moreover have "inv_instance_id v = i"
    using assms key v instance_attribute(5,6) [OF r(2)] by (auto simp: scope_of_def rows_linked_def)
  ultimately show "stored s ''invoice'' hydrate_invoice v \<and> inv_instance_id v = i" by simp
qed

lemma limit_not_zero: "0 < n \<Longrightarrow> lq_limit (newest_query t srt scope c n) \<noteq> Some 0"
  by (simp add: newest_query_def)

lemma ans_any: "answers s (slift r) (\<lambda>_. True)"
  by (rule ans_weaken [OF ans_lift]) simp

lemma ans_q_items:
  assumes "query_keyed s" "rows_linked s" "index_pages P"
  shows "answers_loop s (q_billable_items P D canon i p filt n c)
    (\<lambda>c. \<forall>it \<in> set (nodes c). permitted (dk_auth D) s (ItemObject it None))"
proof -
  have listed: "answers_loop s (list_billable_items P D scope filt pg)
      (\<lambda>xs. \<forall>it \<in> set xs. stored s ''billable_item'' hydrate_billable_item it \<and> item_instance_id it = i)"
    if "scope_of s i scope" for scope pg
    unfolding list_billable_items_def Let_def prod.case_eq_if
    by (auto intro!: ans_once ans_return ans_listed [OF assms(3) limit_not_zero] dest: row_in_scope(1) [OF that assms(2)])
  show ?thesis
    unfolding q_billable_items_def lift_api_def prod.case_eq_if
    by (rule ans_obind [OF ans_once [OF ans_guarded(2)]], rule ans_obind [OF ans_once [OF ans_invoicing_instance [OF assms(1)]]],
        rule ans_obind [OF ans_once [OF ans_scope [OF assms(1)]]], assumption,
        rule ans_obind [OF ans_once [OF ans_any]], rule ans_obind [OF ans_once [OF ans_any]],
        rule ans_obind [OF ans_once [OF ans_any]], rule ans_obind [OF listed], assumption, rule ans_once, rule ans_return)
      (auto dest!: shown_rows)
qed

lemma ans_q_invoices:
  assumes "query_keyed s" "rows_linked s" "index_pages P"
  shows "answers_loop s (q_invoices P D i p filt n c)
    (\<lambda>c. \<forall>v \<in> set (nodes c). permitted (dk_auth D) s (InvoiceObject v))"
proof -
  have listed: "answers_loop s (list_invoices P D scope filt pg)
      (\<lambda>xs. \<forall>v \<in> set xs. stored s ''invoice'' hydrate_invoice v \<and> inv_instance_id v = i)"
    if "scope_of s i scope" for scope pg
    unfolding list_invoices_def Let_def prod.case_eq_if
    by (auto intro!: ans_once ans_return ans_listed [OF assms(3) limit_not_zero] dest: row_in_scope(2) [OF that assms(2)])
  show ?thesis
    unfolding q_invoices_def lift_api_def prod.case_eq_if
    by (rule ans_obind [OF ans_once [OF ans_guarded(2)]], rule ans_obind [OF ans_once [OF ans_invoicing_instance [OF assms(1)]]],
        rule ans_obind [OF ans_once [OF ans_scope [OF assms(1)]]], assumption,
        rule ans_obind [OF ans_once [OF ans_any]], rule ans_obind [OF ans_once [OF ans_any]],
        rule ans_obind [OF ans_once [OF ans_any]], rule ans_obind [OF listed], assumption, rule ans_once, rule ans_return)
      (auto dest!: shown_rows)
qed

lemma ans_q_project:
  assumes "query_keyed s"
  shows "answers s (q_project D i) (\<lambda>x. \<forall>p. x = Some p \<longrightarrow> permitted (dk_auth D) s (ProjectObject p))"
  unfolding q_project_def
proof (rule ans_bind [OF ans_guarded(1)], rule ans_bind [OF ans_memberships], rule ans_bind [OF ans_get_project [OF assms]])
  fix u :: unit and ms entry
  assume ms: "\<exists>u su tk g. dk_auth D = Some (User u ms su tk g)"
    and entry: "\<forall>p. entry = Some p \<longrightarrow> stored s ''project'' hydrate_project p"
  then show "answers s (case entry of None \<Rightarrow> sreturn None
      | Some p \<Rightarrow> if \<not> is_member ms (proj_instance_id p) then sreturn None
          else sbind (in_invoicing_instance D (proj_instance_id p)) (\<lambda>yes. sreturn (if yes then Some p else None)))
     (\<lambda>x. \<forall>p. x = Some p \<longrightarrow> permitted (dk_auth D) s (ProjectObject p))"
    by (cases entry) (auto intro!: ans_return ans_bind [OF ans_in_invoicing] split: if_splits)
qed

lemma ans_q_invoice:
  "answers s (q_invoice D i) (\<lambda>x. \<forall>v. x = Some v \<longrightarrow> permitted (dk_auth D) s (InvoiceObject v))"
proof -
  have got: "answers s (db_read_now D (get_record_consistent (dk_db D) ''invoice'' hydrate_invoice i))
      (\<lambda>x. \<forall>v. x = Some v \<longrightarrow> stored s ''invoice'' hydrate_invoice v)"
  proof (rule ans_weaken [OF ans_db_read_now], intro allI impI)
    fix x v assume x: "get_record_consistent (dk_db D) ''invoice'' hydrate_invoice i s = Inr x" "x = Some v"
    then obtain it where it: "dy_get d s ''invoice'' i = Inr it" "hydrated hydrate_invoice it = Inr (Some v)"
      by (auto simp: get_record_consistent_def handler svc)
    from get_consistent [OF it(1)] it(2) show "stored s ''invoice'' hydrate_invoice v"
      by (auto simp: hydrated_def stored_def split: option.splits)
  qed
  show ?thesis
    unfolding q_invoice_def
  proof (rule ans_bind [OF ans_guarded(1)], rule ans_bind [OF ans_memberships], rule ans_bind [OF got])
    fix u :: unit and ms entry
    assume ms: "\<exists>u su tk g. dk_auth D = Some (User u ms su tk g)"
      and entry: "\<forall>v. entry = Some v \<longrightarrow> stored s ''invoice'' hydrate_invoice v"
    then show "answers s (case entry of None \<Rightarrow> sreturn None
        | Some v \<Rightarrow> if \<not> is_member ms (inv_instance_id v) then sreturn None
            else sbind (in_invoicing_instance D (inv_instance_id v)) (\<lambda>yes. sreturn (if yes then Some v else None)))
       (\<lambda>x. \<forall>v. x = Some v \<longrightarrow> permitted (dk_auth D) s (InvoiceObject v))"
      by (cases entry) (auto intro!: ans_return ans_bind [OF ans_in_invoicing] split: if_splits)
  qed
qed

lemma ans_q_projects:
  "answers s (q_projects D i b) (\<lambda>ps. \<forall>p \<in> set ps. permitted (dk_auth D) s (ProjectObject p))"
proof -
  have inst: "answers s (invoicing_instance D i) (\<lambda>_. True)"
    unfolding invoicing_instance_def
    by (rule ans_bind [OF ans_get_instance], rule ans_bind [OF ans_found], rule ans_bind [OF ans_lift], rule ans_return) simp
  show ?thesis
    unfolding q_projects_def list_projects_by_instance_def
    by (rule ans_bind [OF ans_guarded(2)], rule ans_bind [OF inst], rule ans_bind [OF ans_list [OF instance_attribute(2)]],
        assumption, rule ans_return) auto
qed

lemma ans_q_ticket:
  assumes "query_keyed s"
  shows "answers s (q_ticket D i) (\<lambda>x. \<forall>t. x = Some t \<longrightarrow> permitted (dk_auth D) s (TicketObject t))"
  unfolding q_ticket_def
  by (rule ans_bind [OF ans_guarded(1)], rule ans_bind [OF ans_get_ticket [OF assms]], rule ans_return)
    (auto simp: visible_sees split: option.splits if_splits)

lemma ans_q_me: "answers s (q_me D) (\<lambda>_. signed_in (dk_auth D))"
  unfolding q_me_def
  by (rule ans_bind [OF ans_guarded(1)], rule ans_bind [OF ans_any], rule ans_bind [OF ans_get_user],
      rule ans_weaken [OF ans_found])

lemma ans_q_instance: "answers s (q_instance D slug) (\<lambda>_. signed_in (dk_auth D))"
  unfolding q_instance_def
  by (rule ans_bind [OF ans_guarded(1)], rule ans_bind [OF ans_memberships], rule ans_bind [OF ans_db_read])
    (auto intro!: ans_return ans_bind [OF ans_get_instance] split: option.splits)

lemma ans_q_admin:
  "answers s (q_admin_instance D i) (\<lambda>_. signed_in (dk_auth D))"
  "answers s (q_admin_user D i) (\<lambda>_. signed_in (dk_auth D))"
  "answers_loop s (q_admin_instances P D) (\<lambda>_. signed_in (dk_auth D))"
  "answers_loop s (q_admin_users P D) (\<lambda>_. signed_in (dk_auth D))"
  unfolding q_admin_instance_def q_admin_user_def q_admin_instances_def q_admin_users_def list_instances_def list_users_def
  by (rule ans_bind [OF ans_guarded(3)], rule ans_weaken [OF ans_get_instance], simp,
      rule ans_bind [OF ans_guarded(3)], rule ans_weaken [OF ans_get_user], simp,
      rule ans_obind [OF ans_once [OF ans_guarded(3)]], rule ans_obind [OF ans_scan], rule ans_once, rule ans_return, simp,
      rule ans_obind [OF ans_once [OF ans_guarded(3)]], rule ans_obind [OF ans_scan], rule ans_once, rule ans_return, simp)

lemma ans_roots:
  assumes "query_keyed s" "rows_linked s" "tickets_marked s" "plain_memberships (dk_auth D)" "index_pages P"
  shows "answers_loop s (roots P canon D f) (\<lambda>xs. \<forall>x \<in> set xs. permitted (dk_auth D) s x)"
proof (cases f)
  case (TicketsField i st asg args)
  then show ?thesis
    by (simp del: permitted.simps) (rule ans_answer_loop, rule ans_loop_weaken [OF ans_tickets [OF assms(5,3,4)]], auto)
next
  case (ItemsField i p filt n c)
  then show ?thesis
    by (simp del: permitted.simps) (rule ans_answer_loop, rule ans_loop_weaken [OF ans_q_items [OF assms(1,2,5)]], auto)
next
  case (InvoicesField i p filt n c)
  then show ?thesis
    by (simp del: permitted.simps) (rule ans_answer_loop, rule ans_loop_weaken [OF ans_q_invoices [OF assms(1,2,5)]], auto)
next
  case (TicketField i)
  then show ?thesis using ans_q_ticket [OF assms(1)] by (simp add: ans_once ans_answer_opt)
next
  case (ProjectField i)
  then show ?thesis using ans_q_project [OF assms(1)] by (simp add: ans_once ans_answer_opt)
next
  case (InvoiceField i)
  then show ?thesis using ans_q_invoice by (simp add: ans_once ans_answer_opt)
next
  case (ProjectsField i b)
  then show ?thesis using ans_q_projects by (simp add: ans_once ans_answer_all)
qed (auto intro!: ans_once ans_answer ans_answer_opt ans_answer_loop ans_weaken [OF ans_q_me] ans_weaken [OF ans_q_instance]
  ans_weaken [OF ans_q_admin(1)] ans_weaken [OF ans_q_admin(2)] ans_loop_weaken [OF ans_q_admin(3)] ans_loop_weaken [OF ans_q_admin(4)])

lemma reached_permitted:
  assumes "query_keyed s" "rows_linked s" "tickets_marked s" "plain_memberships (dk_auth D)" "index_pages P"
    and "reached P canon D s x"
  shows "permitted (dk_auth D) s x"
  using assms(6)
proof induction
  case (at_root w f xs w' x)
  from answers_loopD [OF ans_roots [OF assms(1-5)] at_root(1,2)] at_root(3) show ?case by blast
next
  case (by_link y m w xs w' x)
  from answersD [OF ans_links [OF assms(1,2) by_link.IH by_link.hyps(2)] by_link.hyps(3,4)] by_link.hyps(5) show ?case by blast
qed

end

text \<open>
  C37. Queries stay within the caller's rights. Whatever objects a query reaches, through whatever
  fields: a ticket is of an instance the caller is a member of, or opened by the requester; a message
  or an attachment is of such a ticket, and a note only a member sees; projects, items and invoices
  are of the caller's instances; API tokens and members of instances the caller owns, unless a
  superuser; grants and passkeys the caller's own. Without a user or a requester nothing is reached.
\<close>

theorem reads_confined:
  assumes "current_desk d h q D" "paged_service P ord"
    and "query_keyed s" "rows_linked s" "tickets_marked s" "plain_memberships (dk_auth D)"
    and "reached P canon D s x"
  shows "permitted (dk_auth D) s x"
  by (rule current_desk.reached_permitted [OF assms(1,3-6) paged_service.pages_of_index [OF assms(2)] assms(7)])

end
