(* ===== verification/Note_Mail.thy ===== *)
theory Note_Mail
  imports Best_Effort Query_Safety
begin

section \<open>Who is written to about an internal note\<close>

text \<open>
  Every mail sent while a note is added, traced to the rows it stands on. \<open>mails P G m Q\<close>: from a store
  with \<open>P\<close>, whatever the outcome, \<open>m\<close> sends only mail that \<open>G\<close> allows, and its result and store
  satisfy \<open>Q\<close>.
\<close>

definition mails ::
    "(store \<Rightarrow> bool) \<Rightarrow> (string \<times> string list \<times> string list \<Rightarrow> bool) \<Rightarrow> 'a run \<Rightarrow> ('a \<Rightarrow> store \<Rightarrow> bool) \<Rightarrow> bool" where
  "mails P G m Q \<longleftrightarrow>
     (\<forall>w r w'. P (w_db w) \<longrightarrow> m w = (r, w') \<longrightarrow>
        (\<exists>sent. w_sent w' = w_sent w @ sent \<and> (\<forall>x \<in> set sent. G x)) \<and> (\<forall>x. r = Inr x \<longrightarrow> Q x (w_db w')))"

lemma mailsD:
  "mails P G m Q \<Longrightarrow> P (w_db w) \<Longrightarrow> m w = (r, w') \<Longrightarrow>
     (\<exists>sent. w_sent w' = w_sent w @ sent \<and> (\<forall>x \<in> set sent. G x)) \<and> (\<forall>x. r = Inr x \<longrightarrow> Q x (w_db w'))"
  unfolding mails_def by blast

lemma mails_bind:
  assumes "mails P G m R" "\<And>x. mails (R x) G (k x) Q"
  shows "mails P G (sbind m k) Q"
  unfolding mails_def
proof (intro allI impI)
  fix w r w' assume P: "P (w_db w)" and run: "sbind m k w = (r, w')"
  obtain r1 w1 where m: "m w = (r1, w1)" by (cases "m w")
  from mailsD [OF assms(1) P m] obtain s1 where s1: "w_sent w1 = w_sent w @ s1" "\<forall>x \<in> set s1. G x"
    and R: "\<forall>x. r1 = Inr x \<longrightarrow> R x (w_db w1)" by blast
  show "(\<exists>sent. w_sent w' = w_sent w @ sent \<and> (\<forall>x \<in> set sent. G x)) \<and> (\<forall>x. r = Inr x \<longrightarrow> Q x (w_db w'))"
  proof (cases r1)
    case (Inl e)
    with run m s1 show ?thesis by (auto simp: sbind_def)
  next
    case (Inr x)
    with run m have k: "k x w1 = (r, w')" by (simp add: sbind_def)
    from R Inr have "R x (w_db w1)" by simp
    from mailsD [OF assms(2) this k] obtain s2 where "w_sent w' = w_sent w1 @ s2" "\<forall>x \<in> set s2. G x"
      "\<forall>x. r = Inr x \<longrightarrow> Q x (w_db w')" by blast
    with s1 show ?thesis by (intro conjI exI [of _ "s1 @ s2"]) auto
  qed
qed

text \<open>The two halves apart: the mail by \<open>sends\<close>, the store by a triple.\<close>

lemma mails_both: "sends G m \<Longrightarrow> triple P m Q (\<lambda>_. True) \<Longrightarrow> mails P G m Q"
  unfolding mails_def by (auto dest: sendsD tripleD)

lemma mails_sends: "sends G m \<Longrightarrow> mails P G m (\<lambda>_ _. True)"
  unfolding mails_def by (auto dest: sendsD)

lemma mails_fact: "(F \<Longrightarrow> mails P G m Q) \<Longrightarrow> mails (\<lambda>s. F \<and> P s) G m Q"
  unfolding mails_def by blast

lemma mails_if: "mails P G m Q \<Longrightarrow> mails P G m' Q \<Longrightarrow> mails P G (if b then m else m') Q"
  by simp

lemma mails_best_effort: "mails P G m Q \<Longrightarrow> mails P G (best_effort m) (\<lambda>_ _. True)"
  unfolding mails_def best_effort_def by (fastforce split: sum.splits prod.splits)

lemma answers_triple: "answers s m F \<Longrightarrow> triple (\<lambda>s'. s' = s) m (\<lambda>x s'. F x \<and> s' = s) (\<lambda>_. True)"
proof (rule tripleI)
  fix w r w' assume "answers s m F" "w_db w = s" "m w = (r, w')"
  then show "case r of Inl e \<Rightarrow> True | Inr x \<Rightarrow> F x \<and> w_db w' = s" by (cases r) (auto dest: answersD)
qed

subsection \<open>The rows behind a notice\<close>

text \<open>
  What the code may say about a note on the ticket \<open>t\<close>, and to whom: to one address, which is that of an
  enabled user who is a member of the ticket's instance, who did not write the note, and who asked to
  hear of updates of tickets that are theirs, another's or nobody's, as this one is.
\<close>

definition told_of_note :: "store \<Rightarrow> auth_info option \<Rightarrow> ticket \<Rightarrow> string list \<Rightarrow> bool" where
  "told_of_note s a t to \<longleftrightarrow>
     (\<exists>u mb why. to = [usr_email u] \<and> stored s ''user'' hydrate_user u \<and> usr_enabled u \<and> \<not> is_caller a (usr_id u)
        \<and> stored s ''membership'' hydrate_membership mb \<and> mb_user_id mb = usr_id u \<and> mb_instance_id mb = tkt_instance_id t
        \<and> setting_on (mb_notification_settings mb) why \<and> concerns_update (tkt_assignee_user_id t) (usr_id u) why)"

definition staff_tables :: "string set" where "staff_tables = {''user'', ''membership''}"

lemma joined_users:
  "(mb, u) \<in> set (join_users mbs us) \<Longrightarrow> \<exists>n < length mbs. n < length us \<and> mbs ! n = mb \<and> us ! n = Some u"
proof (induction mbs us rule: join_users.induct)
  case (1 m mbs v us)
  then show ?case
  proof (cases "(mb, u) = (m, v)")
    case False
    with 1 obtain n where "n < length mbs" "n < length us" "mbs ! n = mb" "us ! n = Some u" by auto
    then show ?thesis by (intro exI [of _ "Suc n"]) simp
  qed (intro exI [of _ 0], simp)
next
  case (2 m mbs us)
  then obtain n where "n < length mbs" "n < length us" "mbs ! n = mb" "us ! n = Some u" by auto
  then show ?case by (intro exI [of _ "Suc n"]) simp
qed auto

lemma as_before_stored: "as_before T s0 s \<Longrightarrow> t \<in> T \<Longrightarrow> stored s t f x \<Longrightarrow> stored s0 t f x"
  by (simp add: as_before_def stored_def)

context current_desk begin

lemma note_recipients:
  assumes "as_before staff_tables s0 s" "keyed s0 ''user''" "is_caller (dk_auth D) c"
    and "list_memberships_by_instance (dk_query D) (tkt_instance_id t) s = Inr ms"
    and "get_users (dk_db D) (map mb_user_id ms) s = Inr us"
    and "rc \<in> set (select_recipients (join_users ms us) status (tkt_assignee_user_id t) (ActorUser c) InternalNote)"
  shows "told_of_note s0 (dk_auth D) t [rc_email rc]"
proof -
  from assms(6) obtain mb u where mb: "(mb, u) \<in> set (join_users ms us)" "usr_enabled u" "usr_id u \<noteq> c"
    and rc: "rc = recipient_of u (rc_reason rc)"
    and why: "setting_on (mb_notification_settings mb) (rc_reason rc)" "concerns_update (tkt_assignee_user_id t) (usr_id u) (rc_reason rc)"
    unfolding recipients_iff by auto
  from joined_users [OF mb(1)] obtain n where n: "n < length ms" "n < length us" "ms ! n = mb" "us ! n = Some u" by blast
  have keyed: "keyed s ''user''" using assms(1,2) by (simp add: as_before_def staff_tables_def keyed_def)
  note users = assms(5) [unfolded get_users_def]
  have "usr_id u = mb_user_id mb" using batch_nth [OF users id_hydrate_user keyed n(2,4)] n(1,3) by simp
  moreover have "stored s ''user'' hydrate_user u"
    using batch_stored [OF users id_hydrate_user keyed] nth_mem [OF n(2)] n(4) by fastforce
  moreover have "stored s ''membership'' hydrate_membership mb" "mb_instance_id mb = tkt_instance_id t"
    using query_stored [OF assms(4) [unfolded list_memberships_by_instance_def], of mb] nth_mem [OF n(1)] n(3)
    by (auto dest: instance_attribute(8) intro: storedI)
  moreover have "\<not> is_caller (dk_auth D) (usr_id u)"
    using assms(3) mb(3) by (cases "(dk_auth D, c)" rule: is_caller.cases) auto
  moreover have "rc_email rc = usr_email u" using rc by (metis rc_of(2))
  moreover note as_before_stored [OF assms(1), of "''user''" hydrate_user u]
    as_before_stored [OF assms(1), of "''membership''" hydrate_membership mb]
  ultimately show ?thesis
    using mb(2) why unfolding told_of_note_def
    by (intro exI [of _ u] exI [of _ mb] exI [of _ "rc_reason rc"]) (auto simp: staff_tables_def)
qed

lemma note_notices:
  assumes "keyed s0 ''user''" "is_caller (dk_auth D) c" "\<And>raw to. told_of_note s0 (dk_auth D) t to \<Longrightarrow> tkt_status t \<noteq> TDeleted \<Longrightarrow> G (raw, to, [])"
  shows "mails (as_before staff_tables s0) G (notify_staff D t (tkt_assignee_user_id t) InternalNote (ActorUser c) body) (\<lambda>_ _. True)"
proof (cases "tkt_status t = TDeleted")
  case True
  then show ?thesis unfolding notify_staff_def by (auto intro: mails_sends send_intros)
next
  case False
  note allowed = assms(3) [OF _ False]
  have inst: "mails (as_before staff_tables s0) G (get_instance D j) (\<lambda>_. as_before staff_tables s0)" for j
    unfolding get_instance_def by (rule mails_both [OF sends_calls(2)], rule triple_read) auto
  have found: "mails (as_before staff_tables s0) G (found e x) (\<lambda>_. as_before staff_tables s0)" for e and x :: "org_instance option"
    unfolding found_def by (rule mails_both [OF sends_lift(1)], rule triple_lift) auto
  have members: "mails (as_before staff_tables s0) G (db_read D (list_memberships_by_instance (dk_query D) (tkt_instance_id t)))
      (\<lambda>ms s. list_memberships_by_instance (dk_query D) (tkt_instance_id t) s = Inr ms \<and> as_before staff_tables s0 s)"
    by (rule mails_both [OF sends_calls(2)], rule triple_read) auto
  have users: "mails (\<lambda>s. list_memberships_by_instance (dk_query D) (tkt_instance_id t) s = Inr ms \<and> as_before staff_tables s0 s) G
      (db_read D (get_users (dk_db D) (map mb_user_id ms)))
      (\<lambda>us s. (\<forall>rc \<in> set (select_recipients (join_users ms us) (tkt_status t) (tkt_assignee_user_id t) (ActorUser c) InternalNote).
          told_of_note s0 (dk_auth D) t [rc_email rc]) \<and> True)" for ms
    by (rule mails_both [OF sends_calls(2)], rule triple_read) (auto intro: note_recipients [OF _ assms(1,2)])
  have "mails (as_before staff_tables s0) G (notify_members D t (tkt_assignee_user_id t) InternalNote (ActorUser c) body) (\<lambda>_ _. True)"
    unfolding notify_members_def Let_def
    by (rule mails_bind [OF inst], rule mails_bind [OF found], rule mails_bind [OF members], rule mails_if,
        rule mails_sends [OF sends_lift(2)], rule mails_bind [OF users], rule mails_fact, rule mails_sends, rule sends_notices,
        rule allowed, blast)
  from mails_bind [OF mails_best_effort [OF this] mails_sends [OF sends_lift(2)]] False show ?thesis
    unfolding notify_staff_def by simp
qed

lemma staff_tables_kept:
  assumes "\<And>n s r s'. m n s = (r, s') \<Longrightarrow> s' = s \<or> (\<exists>req. commits (dy_ss d) s [req] s' \<and> fst (target req) \<notin> staff_tables)"
  shows "mails (as_before staff_tables s0) G (db_write D m) (\<lambda>_. as_before staff_tables s0)"
proof (rule mails_both [OF sends_calls(1)], rule triple_write)
  fix n s r s' assume s: "as_before staff_tables s0 s" and run: "m n s = (r, s')"
  from assms [OF run] have "as_before staff_tables s0 s'"
  proof (elim disjE exE conjE)
    fix req assume req: "commits (dy_ss d) s [req] s'" "fst (target req) \<notin> staff_tables"
    have "s' t k = s t k" if "t \<in> staff_tables" for t k
      by (rule commits_other [OF req(1)]) (use that req(2) in \<open>auto simp: prod_eq_iff\<close>)
    with s show ?thesis by (auto simp: as_before_def fun_eq_iff)
  qed (use s in simp)
  then show "case r of Inl e \<Rightarrow> True | Inr x \<Rightarrow> as_before staff_tables s0 s'" by (simp split: sum.splits)
qed

lemma note_mail:
  assumes "query_keyed s0" "\<And>t raw to. stored s0 ''ticket'' hydrate_ticket t \<Longrightarrow> tkt_id t = i \<Longrightarrow> tkt_status t \<noteq> TDeleted \<Longrightarrow>
      belongs_to (dk_auth D) (tkt_instance_id t) \<Longrightarrow> told_of_note s0 (dk_auth D) t to \<Longrightarrow> G (raw, to, [])"
  shows "mails (\<lambda>s. s = s0) G (m_add_internal_note D i text) (\<lambda>_ _. True)"
proof -
  have got: "answers s0 (get_ticket D i) (\<lambda>x. \<forall>t. x = Some t \<longrightarrow> stored s0 ''ticket'' hydrate_ticket t \<and> tkt_id t = i)"
    unfolding get_ticket_def get_tickets_def
    by (rule ans_weaken [OF ans_db_read]) (use first_stored [OF _ id_hydrate_ticket query_keyedD(3) [OF assms(1)]] in blast)
  let ?own = "\<lambda>t. stored s0 ''ticket'' hydrate_ticket t \<and> tkt_id t = i \<and> belongs_to (dk_auth D) (tkt_instance_id t)"
  have member: "answers s0 (require_ticket_member D i) ?own"
    unfolding require_ticket_member_def
    by (rule ans_bind [OF got], rule ans_bind [OF ans_found], rule ans_bind [OF ans_lift], rule ans_bind [OF ans_ensure],
        rule ans_return) (auto split: option.splits auth_info.splits)
  have guarded: "mails (\<lambda>s. s = s0) G (guard D req) (\<lambda>_ s. s = s0)" for req
    by (rule mails_both [OF sends_lift(5) triple_post [OF answers_triple [OF ans_guard]]]) auto
  have ticket: "mails (\<lambda>s. s = s0) G (require_ticket_member D i) (\<lambda>t s. ?own t \<and> s = s0)"
    by (rule mails_both [OF sends_member answers_triple [OF member]])
  have author: "mails (\<lambda>s. s = s0) G (require_user_id D) (\<lambda>c s. is_caller (dk_auth D) c \<and> s = s0)"
    by (rule mails_both [OF sends_lift(6) answers_triple [OF ans_user_id]])
  have worded: "mails (\<lambda>s. s = s0) G (required_text a b) (\<lambda>_. as_before staff_tables s0)" for a b
    unfolding required_text_def
    by (rule mails_both [OF sends_required [unfolded required_text_def]], rule triple_post [OF answers_triple])
      (rule ans_bind [OF ans_ensure], rule ans_return, rule TrueI, auto simp: as_before_def)
  have message: "mails (as_before staff_tables s0) G (new_message D j k a f to cc t h irt refs) (\<lambda>_. as_before staff_tables s0)"
    for j k a f to cc t h irt refs
    unfolding new_message_def
    by (rule staff_tables_kept) (auto simp: create_ticket_message_def handler staff_tables_def split: prod.splits dest!: plain_any)
  have touch: "mails (as_before staff_tables s0) G (write_ticket D j ch) (\<lambda>_. as_before staff_tables s0)" for j ch
    unfolding write_ticket_def
    by (rule staff_tables_kept) (auto simp: update_ticket_def update_ticket_req_def handler staff_tables_def dest!: existing_any)
  have clock: "mails (as_before staff_tables s0) G (now_sec D) (\<lambda>_. as_before staff_tables s0)"
    by (rule mails_both [OF sends_calls(3) triple_ticks(1)])
  show ?thesis
    unfolding m_add_internal_note_def
    by (rule mails_bind [OF guarded], rule mails_bind [OF ticket], rule mails_fact, rule mails_bind [OF author], rule mails_fact,
        rule mails_bind [OF worded], rule mails_bind [OF message], rule mails_bind [OF clock], rule mails_bind [OF touch],
        rule mails_bind [OF note_notices [OF query_keyedD(1) [OF assms(1)]]], assumption)
      (use assms(2) in \<open>auto intro: mails_sends sends_lift\<close>)
qed

end

text \<open>
  C18. An internal note stays internal. Whatever happens while a note is added to the ticket \<open>i\<close>, and
  whatever the mail service answers, every mail goes to one address and has no CC, and that address is
  in the user row of an enabled user other than the caller whose membership row is of the ticket's
  instance and switches on the setting that applies to them: updates of their own tickets, of others'
  or of unassigned ones. The ticket is stored, not deleted and of an instance the caller is a member
  of. So no requester and no customer on CC is written to, unless they are such a user.
\<close>

theorem internal_note_not_mailed:
  assumes "current_desk d h q D" "query_keyed (w_db w)" "m_add_internal_note D i text w = (r, w')"
  shows "\<exists>sent. w_sent w' = w_sent w @ sent \<and> (\<forall>(raw, to, cc) \<in> set sent. cc = []
      \<and> (\<exists>t. stored (w_db w) ''ticket'' hydrate_ticket t \<and> tkt_id t = i \<and> tkt_status t \<noteq> TDeleted
          \<and> belongs_to (dk_auth D) (tkt_instance_id t) \<and> told_of_note (w_db w) (dk_auth D) t to))"
proof -
  let ?G = "\<lambda>(raw :: string, to, cc). cc = [] \<and> (\<exists>t. stored (w_db w) ''ticket'' hydrate_ticket t \<and> tkt_id t = i
      \<and> tkt_status t \<noteq> TDeleted \<and> belongs_to (dk_auth D) (tkt_instance_id t) \<and> told_of_note (w_db w) (dk_auth D) t to)"
  have "mails (\<lambda>s. s = w_db w) ?G (m_add_internal_note D i text) (\<lambda>_ _. True)"
    by (rule current_desk.note_mail [OF assms(1,2)]) blast
  from mailsD [OF this refl assms(3)] show ?thesis by blast
qed

end
