(* ===== verification/Requester_Reach.thy ===== *)
theory Requester_Reach
  imports Query_Safety
begin

section \<open>What a requester reaches\<close>

text \<open>
  The whole of what the queries of one requester can get hold of, field by field (\<open>on_path\<close>), and the
  settings they can read among it: exactly those of their own tickets' instance, if it is an invoicing
  one, and of every invoicing instance that an agent of one of their tickets is a member of.
\<close>

subsection \<open>The specification, over the rows\<close>

definition own_ticket :: "store \<Rightarrow> string \<Rightarrow> string \<Rightarrow> ticket \<Rightarrow> bool" where
  "own_ticket s e i t \<longleftrightarrow>
     stored s ''ticket'' hydrate_ticket t \<and> tkt_instance_id t = i \<and> e \<in> set (tkt_requester_emails t)"

text \<open>The ticket is assigned to the user, or they wrote a message of it that is not a note.\<close>

definition handles :: "store \<Rightarrow> ticket \<Rightarrow> string \<Rightarrow> bool" where
  "handles s t u \<longleftrightarrow>
     tkt_assignee_user_id t = Some u
     \<or> (\<exists>m. stored s ''ticket_message'' hydrate_message m \<and> msg_ticket_id m = tkt_id t \<and> msg_kind m \<noteq> Note
          \<and> msg_author_user_id m = Some u)"

definition works_in :: "store \<Rightarrow> string \<Rightarrow> org_instance \<Rightarrow> bool" where
  "works_in s u j \<longleftrightarrow>
     (\<exists>r. stored s ''user'' hydrate_user r \<and> usr_id r = u)
     \<and> (\<exists>m. stored s ''membership'' hydrate_membership m \<and> mb_user_id m = u \<and> mb_instance_id m = inst_id j)
     \<and> \<not> inst_deleted j"

definition near :: "store \<Rightarrow> string \<Rightarrow> string \<Rightarrow> org_instance \<Rightarrow> bool" where
  "near s e i j \<longleftrightarrow>
     stored s ''instance'' hydrate_instance j
     \<and> (\<exists>t. own_ticket s e i t \<and> (inst_id j = i \<or> (\<exists>u. handles s t u \<and> works_in s u j)))"

text \<open>Every read a query makes on the way is answered.\<close>

definition reads_answered :: "handler \<Rightarrow> index \<Rightarrow> store \<Rightarrow> bool" where
  "reads_answered h q s \<longleftrightarrow>
     (\<forall>i. \<exists>rs. get_tickets h [i] s = Inr rs) \<and> (\<forall>i. \<exists>rs. get_users h [i] s = Inr rs)
     \<and> (\<forall>ids. \<exists>rs. get_instances h ids s = Inr rs) \<and> (\<forall>u. \<exists>ms. list_memberships_by_user q u s = Inr ms)
     \<and> (\<forall>i. \<exists>ms. list_ticket_messages q i s = Inr ms)"

subsection \<open>Nothing else is reached\<close>

definition own_message :: "store \<Rightarrow> string \<Rightarrow> string \<Rightarrow> ticket_message \<Rightarrow> bool" where
  "own_message s e i m \<longleftrightarrow>
     stored s ''ticket_message'' hydrate_message m \<and> msg_kind m \<noteq> Note
     \<and> (\<exists>t. own_ticket s e i t \<and> msg_ticket_id m = tkt_id t)"

fun on_path :: "store \<Rightarrow> string \<Rightarrow> string \<Rightarrow> gql_object \<Rightarrow> bool" where
  "on_path s e i (TicketObject t) = own_ticket s e i t"
| "on_path s e i (MessageObject m) = own_message s e i m"
| "on_path s e i (AttachmentObject a) = (\<exists>m. own_message s e i m \<and> a \<in> set (msg_attachments m))"
| "on_path s e i (UserObject u) = (stored s ''user'' hydrate_user u \<and> (\<exists>t. own_ticket s e i t \<and> handles s t (usr_id u)))"
| "on_path s e i (MembershipObject mi) =
     (stored s ''instance'' hydrate_instance (mbi_instance mi)
      \<and> (\<exists>t u. own_ticket s e i t \<and> handles s t u \<and> works_in s u (mbi_instance mi)))"
| "on_path s e i (InstanceObject j) = near s e i j"
| "on_path s e i (SettingsObject j) = (near s e i j \<and> inst_kind j = Invoicing)"
| "on_path s e i _ = False"

lemma ans_stop: "answers s m (\<lambda>_. False) \<Longrightarrow> answers s (sbind m k) G"
  by (erule ans_bind) simp

lemma ans_loop_stop: "answers_loop s m (\<lambda>_. False) \<Longrightarrow> answers_loop s (obind m k) G"
  by (erule ans_obind) simp

lemma ans_no_answer: "answers s m (\<lambda>_. False) \<Longrightarrow> answers s (answer f m) G"
  "answers s m' (\<lambda>_. False) \<Longrightarrow> answers s (answer_opt f' m') G"
  "answers s m'' (\<lambda>_. False) \<Longrightarrow> answers s (answer_all f'' m'') G"
  unfolding answer_def answer_opt_def answer_all_def by (rule ans_stop, assumption)+

lemma ans_loop_no_answer: "answers_loop s m (\<lambda>_. False) \<Longrightarrow> answers_loop s (answer_loop f m) G"
  unfolding answer_loop_def by (rule ans_loop_stop)

context current_desk begin

lemma requester_refused:
  assumes "dk_auth D = Some (Requester e i)"
  shows "answers s (guard D (RequireMember j)) (\<lambda>_. False)"
    and "answers s (guard D RequireSuperuser) (\<lambda>_. False)"
    and "answers s (guard D (RequireInstanceOwnerOrSuperuser j)) (\<lambda>_. False)"
    and "answers s (user_memberships D) (\<lambda>_. False)"
    and "answers s (self_only D u refusal) (\<lambda>_. False)"
  by (rule ans_weaken [OF ans_guard] ans_weaken [OF ans_memberships] ans_weaken [OF ans_self], simp add: assms)+

lemma requester_roots:
  assumes "dk_auth D = Some (Requester e i)" "query_keyed s"
  shows "answers_loop s (roots P canon D f) (\<lambda>xs. \<forall>x \<in> set xs. on_path s e i x)"
proof (cases f)
  case MeField
  have "answers s (q_me D) (\<lambda>_. False)"
    unfolding q_me_def
    by (rule ans_bind [OF ans_guard], rule ans_stop, rule ans_weaken [OF ans_lift]) (simp add: assms)
  with MeField show ?thesis by (simp add: ans_once ans_no_answer)
next
  case (InstanceField slug)
  have "answers s (q_instance D slug) (\<lambda>_. False)"
    unfolding q_instance_def by (rule ans_bind [OF ans_guard], rule ans_stop, rule requester_refused [OF assms(1)])
  with InstanceField show ?thesis by (simp add: ans_once ans_no_answer)
next
  case (TicketField t)
  have "answers s (q_ticket D t) (\<lambda>x. \<forall>t. x = Some t \<longrightarrow> own_ticket s e i t)"
    unfolding q_ticket_def
    by (rule ans_bind [OF ans_guard], rule ans_bind [OF ans_get_ticket [OF assms(2)]], rule ans_return)
      (auto simp: assms own_ticket_def split: option.splits if_splits)
  with TicketField show ?thesis by (simp add: ans_once ans_answer_opt)
next
  case (ProjectField p)
  have "answers s (q_project D p) (\<lambda>_. False)"
    unfolding q_project_def by (rule ans_bind [OF ans_guard], rule ans_stop, rule requester_refused [OF assms(1)])
  with ProjectField show ?thesis by (simp add: ans_once ans_no_answer)
next
  case (InvoiceField v)
  have "answers s (q_invoice D v) (\<lambda>_. False)"
    unfolding q_invoice_def by (rule ans_bind [OF ans_guard], rule ans_stop, rule requester_refused [OF assms(1)])
  with InvoiceField show ?thesis by (simp add: ans_once ans_no_answer)
qed (auto intro!: ans_once ans_no_answer ans_loop_no_answer ans_stop ans_loop_stop requester_refused [OF assms(1)]
  simp: q_tickets_def q_projects_def q_billable_items_def q_invoices_def q_admin_instances_def q_admin_instance_def
    q_admin_users_def q_admin_user_def)

lemma ans_instance_row:
  assumes "query_keyed s"
  shows "answers s (load_instance_of D i) (\<lambda>j. stored s ''instance'' hydrate_instance j \<and> inst_id j = i)"
  unfolding load_instance_of_def
  by (rule ans_bind [OF ans_load_one], rule ans_weaken [OF ans_found])
    (auto simp: get_instances_def dest: single_stored [OF _ _ id_hydrate_instance query_keyedD(2) [OF assms]])

lemma ans_user_row:
  assumes "query_keyed s"
  shows "answers s (load_user_of D what uid) (\<lambda>x. \<forall>u. x = Some u \<longrightarrow> stored s ''user'' hydrate_user u \<and> uid = Some (usr_id u))"
proof (cases uid)
  case (Some i)
  show ?thesis
    unfolding load_user_of_def Some option.case
    by (rule ans_weaken [OF ans_load_one])
      (auto simp: get_users_def dest: single_stored [OF _ _ id_hydrate_user query_keyedD(1) [OF assms]])
qed (simp add: load_user_of_def ans_return)

lemma ans_own_messages:
  assumes "dk_auth D = Some (Requester e i)" "own_ticket s e i t"
  shows "answers s (ticket_messages D t) (\<lambda>ms. \<forall>m \<in> set ms. own_message s e i m)"
proof -
  have listed: "answers s (db_read D (list_ticket_messages (dk_query D) (tkt_id t)))
      (\<lambda>ms. \<forall>m \<in> set ms. stored s ''ticket_message'' hydrate_message m \<and> msg_ticket_id m = tkt_id t)"
  proof (rule ans_weaken [OF ans_db_read], intro ballI)
    fix xs m assume "list_ticket_messages (dk_query D) (tkt_id t) s = Inr xs" "m \<in> set xs"
    then obtain ms where "query_all (dk_query D) hydrate_message ''ticket_message'' ''ticket_id'' (tkt_id t) s = Inr ms" "m \<in> set ms"
      by (auto simp: list_ticket_messages_def sort_messages_key)
    from query_stored [OF this] show "stored s ''ticket_message'' hydrate_message m \<and> msg_ticket_id m = tkt_id t"
      by (auto dest: instance_attribute(11) intro: storedI)
  qed
  have quiet: "show_notes t (dk_auth D) \<noteq> Inr True" by (simp add: assms(1))
  show ?thesis
    unfolding ticket_messages_def
    by (rule ans_bind [OF ans_lift], rule ans_bind [OF listed], rule ans_return)
      (use assms(2) quiet in \<open>auto simp: own_message_def\<close>)
qed

lemma ans_path_memberships:
  assumes "query_keyed s" "on_path s e i (UserObject u)"
  shows "answers s (user_memberships_of D u) (\<lambda>ms. \<forall>m \<in> set ms. on_path s e i (MembershipObject m))"
  unfolding user_memberships_of_def memberships_of_def list_memberships_by_user_def
proof (rule ans_bind [OF ans_guard], rule ans_bind [OF ans_list [OF instance_attribute(13)]], assumption)
  fix x :: unit and ms
  assume ms: "\<forall>m \<in> set ms. stored s ''membership'' hydrate_membership m \<and> mb_user_id m = usr_id u"
  let ?pick = "\<lambda>(m, inst). case inst of None \<Rightarrow> None
     | Some i \<Rightarrow> if inst_deleted i then None
        else Some \<lparr>mbi_user_id = mb_user_id m, mbi_instance = i, mbi_role = mb_role m, mbi_settings = mb_notification_settings m\<rparr>"
  have "on_path s e i (MembershipObject mi)"
    if insts: "get_instances (dk_db D) (map mb_instance_id ms) s = Inr insts"
      and mi: "mi \<in> set (List.map_filter ?pick (zip ms insts))" for insts mi
  proof -
    from mi obtain m j where m: "(m, Some j) \<in> set (zip ms insts)" "\<not> inst_deleted j" "mbi_instance mi = j"
      by (auto simp: map_filter_def split: option.splits if_splits)
    then obtain n where n: "n < length ms" "n < length insts" "ms ! n = m" "insts ! n = Some j" by (auto simp: set_zip)
    note rows = insts [unfolded get_instances_def]
    have "inst_id j = mb_instance_id m"
      using batch_nth [OF rows id_hydrate_instance query_keyedD(2) [OF assms(1)] n(2,4)] n(1,3) by simp
    moreover have "stored s ''instance'' hydrate_instance j"
      using batch_stored [OF rows id_hydrate_instance query_keyedD(2) [OF assms(1)]] nth_mem [OF n(2)] n(4) by fastforce
    moreover have "stored s ''membership'' hydrate_membership m" "mb_user_id m = usr_id u" using ms nth_mem [OF n(1)] n(3) by auto
    ultimately have "works_in s (usr_id u) j" using assms(2) m(2) by (auto simp: works_in_def)
    with assms(2) m(3) \<open>stored s ''instance'' hydrate_instance j\<close> show ?thesis by auto
  qed
  then show "answers s (if ms = [] then sreturn []
      else sbind (db_read D (get_instances (dk_db D) (map mb_instance_id ms))) (\<lambda>insts.
        sreturn (List.map_filter ?pick (zip ms insts)))) (\<lambda>ms. \<forall>m \<in> set ms. on_path s e i (MembershipObject m))"
    by (auto intro!: ans_return ans_bind [OF ans_db_read])
qed

lemma requester_links:
  assumes "dk_auth D = Some (Requester e i)" "query_keyed s" "on_path s e i y" "m \<in> set (links D y)"
  shows "answers s m (\<lambda>xs. \<forall>x \<in> set xs. on_path s e i x)"
proof (cases y)
  case (UserObject u)
  then have path: "on_path s e i (UserObject u)" using assms(3) by simp
  have "answers s (user_passkeys D u) (\<lambda>_. False)" "answers s (user_oauth_grants D u) (\<lambda>_. False)"
    unfolding user_passkeys_def user_oauth_grants_def by (rule ans_stop, rule requester_refused(5) [OF assms(1)])+
  with UserObject assms(4) ans_path_memberships [OF assms(2) path] show ?thesis
    by (auto intro: ans_no_answer ans_answer_all simp del: on_path.simps)
next
  case (InstanceObject j)
  have "answers s (instance_members D j) (\<lambda>_. False)" "answers s (instance_api_tokens D j) (\<lambda>_. False)"
    "answers s (instance_inbound_addresses D j) (\<lambda>_. False)"
    unfolding instance_members_def instance_api_tokens_def instance_inbound_addresses_def
    by (rule ans_stop, rule requester_refused(3) [OF assms(1)])+
  with InstanceObject assms(3,4) show ?thesis
    by (auto intro!: ans_answer_opt ans_return intro: ans_no_answer simp: invoicing_settings_def split: if_splits)
next
  case (MembershipObject mi)
  with assms(3,4) show ?thesis by (auto intro!: ans_return simp: near_def) blast
next
  case (TicketObject t)
  then have t: "own_ticket s e i t" using assms(3) by simp
  have "near s e i j" if "stored s ''instance'' hydrate_instance j" "inst_id j = tkt_instance_id t" for j
    using that t unfolding near_def own_ticket_def by blast
  then have "answers s (answer InstanceObject (load_instance_of D (tkt_instance_id t))) (\<lambda>xs. \<forall>x \<in> set xs. on_path s e i x)"
    by (intro ans_answer ans_weaken [OF ans_instance_row [OF assms(2)]]) simp
  moreover have "answers s (answer_opt UserObject (ticket_assignee D t)) (\<lambda>xs. \<forall>x \<in> set xs. on_path s e i x)"
    unfolding ticket_assignee_def
    by (intro ans_answer_opt ans_weaken [OF ans_user_row [OF assms(2)]]) (use t in \<open>auto simp: handles_def\<close>)
  moreover have "answers s (answer_all MessageObject (ticket_messages D t)) (\<lambda>xs. \<forall>x \<in> set xs. on_path s e i x)"
    by (intro ans_answer_all ans_weaken [OF ans_own_messages [OF assms(1) t]]) simp
  ultimately show ?thesis using TicketObject assms(4) by auto
next
  case (MessageObject mg)
  then have mg: "own_message s e i mg" using assms(3) by simp
  have "answers s (answer_opt UserObject (message_author D mg)) (\<lambda>xs. \<forall>x \<in> set xs. on_path s e i x)"
    unfolding message_author_def
    by (intro ans_answer_opt ans_weaken [OF ans_user_row [OF assms(2)]]) (use mg in \<open>auto simp: handles_def own_message_def\<close>)
  with MessageObject assms(4) mg show ?thesis by (auto intro!: ans_return) blast
qed (use assms in auto)

lemma requester_on_path:
  assumes "dk_auth D = Some (Requester e i)" "query_keyed s" "reached P canon D s x"
  shows "on_path s e i x"
  using assms(3)
proof induction
  case (at_root w f xs w' x)
  from answers_loopD [OF requester_roots [OF assms(1,2)] at_root(1,2)] at_root(3) show ?case by blast
next
  case (by_link y m w xs w' x)
  from answersD [OF requester_links [OF assms(1,2) by_link.IH by_link.hyps(2)] by_link.hyps(3,4)] by_link.hyps(5)
  show ?case by blast
qed

subsection \<open>All of it is reached\<close>

lemma row_found:
  assumes "get_records (dk_db D) t f rid [i] s = Inr rs" "id_hydrate f rid" "keyed s t" "stored s t f x" "rid x = i"
  shows "rs = [Some x]"
proof -
  from assms(4) obtain k it where it: "s t k = Some it" "f it = Inr x" unfolding stored_def by blast
  have "k = i" using keyedD [OF assms(3) it(1)] assms(2,5) it(2) by (fastforce simp: id_hydrate_def)
  moreover have "list_all2 (\<lambda>i r. hydrated f (s t i) = Inr r) [i] rs"
    by (rule get_records_spec [OF assms(1) [unfolded handler] svc assms(2,3)]) simp
  ultimately show ?thesis using it by (cases rs) (auto simp: hydrated_def)
qed

lemma row_listed:
  assumes "query_all (dk_query D) f t a v s = Inr xs" "stored s t f x" "\<And>it. f it = Inr x \<Longrightarrow> it a = Some (AS v)"
  shows "x \<in> set xs"
proof -
  from assms(2) obtain k it where it: "s t k = Some it" "f it = Inr x" unfolding stored_def by blast
  from assms(1) obtain its where its: "q s t a v = Inr its" "mapM f its = Inr xs" by (auto simp: query_all_def query)
  from ix.query_rows [OF its(1)] obtain ks where ks: "set ks = rows_with s t a v" "its = map (\<lambda>k. attrs_of (s t k)) ks" by blast
  have "k \<in> set ks" using it assms(3) [OF it(2)] by (simp add: ks rows_with_def attrs_of_def)
  then have "it \<in> set its" unfolding ks(2) using it(1) by (force simp: attrs_of_def)
  from all2_left [OF its(2) [unfolded mapM_Inr] this] it(2) show ?thesis by auto
qed

lemma load_one_step:
  assumes "get (dk_db D) [i] (w_db w) = Inr [Some x]"
  shows "load_one D get what i w = (Inr (Some x), w\<lparr>w_n := Suc (w_n w)\<rparr>)"
  by (simp add: load_one_def call_step current load_keys_def assms keyed_rows_def map_err_def)

lemma read_step: "db_read D f w = (db_error_of (f (w_db w)), w\<lparr>w_n := Suc (w_n w)\<rparr>)"
  unfolding db_read_def current by (rule call_step)

text \<open>One step of a path: a link that answers.\<close>

lemma follow:
  assumes "reached P canon D s y" "m \<in> set (links D y)" "\<And>w. w_db w = s \<Longrightarrow> \<exists>xs w'. m w = (Inr xs, w') \<and> x \<in> set xs"
  shows "reached P canon D s x"
proof -
  obtain w :: world where w: "w_db w = s"
    using that [of "\<lparr>w_db = s, w_n = 0, w_sent = [], w_objects = [], w_texts = []\<rparr>"] by simp
  from assms(3) [OF w] obtain xs w' where "m w = (Inr xs, w')" "x \<in> set xs" by blast
  with by_link [OF assms(1,2) w] show ?thesis by blast
qed

end

context current_desk begin

lemma reaches_ticket:
  assumes "dk_auth D = Some (Requester e i)" "query_keyed s" "reads_answered h q s" "own_ticket s e i t"
  shows "reached P canon D s (TicketObject t)"
proof -
  from assms(3) obtain rs where rs: "get_tickets (dk_db D) [tkt_id t] s = Inr rs" unfolding reads_answered_def handler by blast
  from row_found [OF this [unfolded get_tickets_def] id_hydrate_ticket query_keyedD(3) [OF assms(2)], of t] assms(4)
  have row: "get_tickets (dk_db D) [tkt_id t] s = Inr [Some t]" using rs by (simp add: own_ticket_def)
  let ?w = "\<lparr>w_db = s, w_n = 0, w_sent = [], w_objects = [], w_texts = []\<rparr>"
  have "roots P canon D (TicketField (tkt_id t)) ?w = Some (Inr [TicketObject t], ?w\<lparr>w_n := 1\<rparr>)"
    using assms(4)
    by (simp add: once_def answer_opt_def q_ticket_def guard_def assms(1) slift_def map_err_def sbind_def get_ticket_def read_step row
        first_row_def db_error_of_def sreturn_def own_ticket_def)
  from at_root [OF _ this] show ?thesis by simp
qed

lemma reaches_agent:
  assumes "dk_auth D = Some (Requester e i)" "query_keyed s" "reads_answered h q s" "own_ticket s e i t" "handles s t u"
    and "stored s ''user'' hydrate_user r" "usr_id r = u"
  shows "reached P canon D s (UserObject r)"
proof -
  from assms(3) obtain rs where "get_users (dk_db D) [u] s = Inr rs" unfolding reads_answered_def handler by blast
  with row_found [OF this [unfolded get_users_def] id_hydrate_user query_keyedD(1) [OF assms(2)] assms(6,7)]
  have row: "get_users (dk_db D) [u] s = Inr [Some r]" by simp
  note load = load_one_step [of get_users u _ r]
  have user: "\<exists>xs w'. answer_opt UserObject (load_user_of D what (Some u)) w = (Inr xs, w') \<and> UserObject r \<in> set xs" if "w_db w = s" for w what
    using load [of w what] row that by (simp add: answer_opt_def load_user_of_def sbind_def sreturn_def)
  have ticket: "reached P canon D s (TicketObject t)" by (rule reaches_ticket [OF assms(1-4)])
  from assms(5) consider (assignee) "tkt_assignee_user_id t = Some u"
    | (author) m where "stored s ''ticket_message'' hydrate_message m" "msg_ticket_id m = tkt_id t" "msg_kind m \<noteq> Note"
        "msg_author_user_id m = Some u"
    unfolding handles_def by blast
  then show ?thesis
  proof cases
    case assignee
    show ?thesis
      by (rule follow [OF ticket, of "answer_opt UserObject (ticket_assignee D t)"])
        (use user in \<open>auto simp: ticket_assignee_def assignee\<close>)
  next
    case author
    from assms(3) obtain ms where ms: "list_ticket_messages (dk_query D) (tkt_id t) s = Inr ms"
      unfolding reads_answered_def query by blast
    then obtain all where all: "query_all (dk_query D) hydrate_message ''ticket_message'' ''ticket_id'' (tkt_id t) s = Inr all"
        "set ms = set all"
      by (auto simp: list_ticket_messages_def sort_messages_key)
    have "m \<in> set ms"
      unfolding all(2) by (rule row_listed [OF all(1) author(1)]) (use author(2) in \<open>auto dest: instance_attribute(11)\<close>)
    then have "reached P canon D s (MessageObject m)"
      using assms(4) author(3)
      by (intro follow [OF ticket, of "answer_all MessageObject (ticket_messages D t)"])
        (auto simp: answer_all_def ticket_messages_def sbind_def slift_def assms(1) map_err_def read_step ms db_error_of_def
          sreturn_def own_ticket_def)
    then show ?thesis
      by (rule follow [of _ _ _ _ "answer_opt UserObject (message_author D m)"]) (use user in \<open>auto simp: message_author_def author(4)\<close>)
  qed
qed

text \<open>A batch with a row's id answers the row.\<close>

lemma row_in_batch:
  assumes "get_records (dk_db D) t f rid ids s = Inr rs" "id_hydrate f rid" "keyed s t" "stored s t f x" "rid x \<in> set ids"
  shows "\<exists>n < length ids. ids ! n = rid x \<and> rs ! n = Some x \<and> length rs = length ids"
proof -
  from assms(1) obtain m where m: "batch_chunks h s t f rid (chunks 100 ids) Map.empty = Inr m" and rs: "rs = remove_each ids m"
    by (auto simp: get_records_def handler)
  have "rows_of s t f (Map.empty :: string \<rightharpoonup> _)" by (simp add: rows_of_def)
  from batch_chunks_spec [OF m svc assms(2) this assms(3)] have rows: "rows_of s t f m" and all: "\<forall>k \<in> set ids. has_row s t m k"
    by (simp_all add: concat_chunks)
  from assms(4) obtain k it where it: "s t k = Some it" "f it = Inr x" unfolding stored_def by blast
  have k: "k = rid x" using keyedD [OF assms(3) it(1)] assms(2) it(2) by (fastforce simp: id_hydrate_def)
  from all assms(5) it(1) have "m (rid x) \<noteq> None" by (auto simp: has_row_def k)
  with rows it have mx: "m (rid x) = Some x" by (force simp: rows_of_def k)
  from assms(5) mx have "\<exists>n < length ids. ids ! n = rid x \<and> remove_each ids m ! n = Some x"
  proof (induction ids arbitrary: m)
    case (Cons i ids)
    show ?case
    proof (cases "i = rid x")
      case True
      with Cons.prems show ?thesis by (intro exI [of _ 0]) simp
    next
      case False
      with Cons.prems have "rid x \<in> set ids" "(m(i := None)) (rid x) = Some x" by auto
      from Cons.IH [of "m(i := None)", OF this] obtain n where "n < length ids" "ids ! n = rid x" "remove_each ids (m(i := None)) ! n = Some x"
        by blast
      then show ?thesis by (intro exI [of _ "Suc n"]) simp
    qed
  qed simp
  then show ?thesis using rs by auto
qed

lemma reaches_instance:
  assumes "dk_auth D = Some (Requester e i)" "query_keyed s" "reads_answered h q s" "near s e i j"
  shows "reached P canon D s (InstanceObject j)"
proof -
  from assms(4) obtain t where j: "stored s ''instance'' hydrate_instance j" and t: "own_ticket s e i t"
    and "inst_id j = i \<or> (\<exists>u. handles s t u \<and> works_in s u j)" unfolding near_def by blast
  from this(3) consider (own) "inst_id j = i" | (agent) u where "handles s t u" "works_in s u j" by blast
  then show ?thesis
  proof cases
    case own
    from assms(3) obtain rs where "get_instances (dk_db D) [i] s = Inr rs" unfolding reads_answered_def handler by blast
    with row_found [OF this [unfolded get_instances_def] id_hydrate_instance query_keyedD(2) [OF assms(2)] j own]
    have row: "get_instances (dk_db D) [i] s = Inr [Some j]" by simp
    have i: "tkt_instance_id t = i" using t by (simp add: own_ticket_def)
    show ?thesis
      by (rule follow [OF reaches_ticket [OF assms(1-3) t], of "answer InstanceObject (load_instance_of D (tkt_instance_id t))"])
        (use load_one_step [of get_instances i _ j] row in
          \<open>auto simp: i answer_def load_instance_of_def found_def ok_or_def sbind_def sreturn_def slift_def\<close>)
  next
    case agent
    from agent(2) obtain r mb where r: "stored s ''user'' hydrate_user r" "usr_id r = u"
      and mb: "stored s ''membership'' hydrate_membership mb" "mb_user_id mb = u" "mb_instance_id mb = inst_id j"
      and live: "\<not> inst_deleted j" unfolding works_in_def by blast
    let ?mi = "\<lambda>m. \<lparr>mbi_user_id = mb_user_id m, mbi_instance = j, mbi_role = mb_role m, mbi_settings = mb_notification_settings m\<rparr>"
    from assms(3) obtain ms where ms: "list_memberships_by_user (dk_query D) u s = Inr ms"
      unfolding reads_answered_def query by blast
    have "mb \<in> set ms"
      by (rule row_listed [OF ms [unfolded list_memberships_by_user_def] mb(1)]) (use mb(2) in \<open>auto dest: instance_attribute(13)\<close>)
    then have ids: "inst_id j \<in> set (map mb_instance_id ms)" "ms \<noteq> []" using mb(3) by force+
    from assms(3) obtain insts where insts: "get_instances (dk_db D) (map mb_instance_id ms) s = Inr insts"
      unfolding reads_answered_def handler by blast
    from row_in_batch [OF insts [unfolded get_instances_def] id_hydrate_instance query_keyedD(2) [OF assms(2)] j ids(1)]
    obtain n where n: "n < length ms" "insts ! n = Some j" "length insts = length ms" by auto
    then have pair: "(ms ! n, Some j) \<in> set (zip ms insts)" by (auto simp: set_zip)
    let ?pick = "\<lambda>(m, inst). case inst of None \<Rightarrow> None
       | Some i \<Rightarrow> if inst_deleted i then None
          else Some \<lparr>mbi_user_id = mb_user_id m, mbi_instance = i, mbi_role = mb_role m, mbi_settings = mb_notification_settings m\<rparr>"
    have picked: "?mi (ms ! n) \<in> set (List.map_filter ?pick (zip ms insts))"
      using pair live by (force simp: map_filter_def)
    have "user_memberships_of D r w = (Inr (List.map_filter ?pick (zip ms insts)), w\<lparr>w_n := Suc (Suc (w_n w))\<rparr>)" if "w_db w = s" for w
      using that ids(2)
      by (simp add: user_memberships_of_def guard_def assms(1) slift_def map_err_def sbind_def memberships_of_def read_step r(2) ms
          insts db_error_of_def sreturn_def)
    then have "reached P canon D s (MembershipObject (?mi (ms ! n)))"
      using picked
      by (intro follow [OF reaches_agent [OF assms(1-3) t agent(1) r], of "answer_all MembershipObject (user_memberships_of D r)"])
        (auto simp: answer_all_def sbind_def sreturn_def)
    then show ?thesis by (rule follow [of _ _ _ _ "sreturn [InstanceObject j]"]) (auto simp: sreturn_def)
  qed
qed

end

text \<open>
  C38. The settings a requester can read. Among everything the queries of a requester reach, there are
  exactly the settings of these invoicing instances: the one of their own tickets, and each that is not
  deleted and of which an agent who is assigned one of those tickets, or wrote a message of it that is
  not a note, is a member. So nothing of other requesters' tickets, of notes or of members leads further;
  but the agents lead to tenants the requester has nothing to do with.
\<close>

theorem requester_settings_exact:
  assumes "current_desk d h q D" "query_keyed s" "dk_auth D = Some (Requester e i)" "reads_answered h q s"
  shows "reached P canon D s (SettingsObject j) \<longleftrightarrow> near s e i j \<and> inst_kind j = Invoicing"
proof
  assume "reached P canon D s (SettingsObject j)"
  from current_desk.requester_on_path [OF assms(1,3,2) this] show "near s e i j \<and> inst_kind j = Invoicing" by simp
next
  assume "near s e i j \<and> inst_kind j = Invoicing"
  then have "reached P canon D s (InstanceObject j)" "invoicing_settings j = Some j"
    using current_desk.reaches_instance [OF assms(1,3,2,4)] by (simp_all add: invoicing_settings_def)
  from current_desk.follow [OF assms(1) this(1), of "answer_opt SettingsObject (sreturn (invoicing_settings j))"] this(2)
  show "reached P canon D s (SettingsObject j)" by (simp add: answer_opt_def sbind_def sreturn_def)
qed

end
