(* ===== verification/Query_Demo.thy ===== *)
theory Query_Demo
  imports Requester_Reach
begin

section \<open>A query on a concrete state\<close>

text \<open>
  A support instance and an invoicing one, an agent of both, and a ticket of the support instance
  that is assigned to them; the caller is the ticket's requester.
\<close>

definition requester_desk :: desk where
  "requester_desk = quiet_desk\<lparr>dk_auth := Some (Requester ''r@x.org'' ''n1'')\<rparr>"

definition assigned_row :: item where
  "assigned_row = (ticket_row remdups ''t1'' 20 ''tok1'' ''n1'' 1 ''Printer'' [''r@x.org''] [])
     (''assignee_user_id'' \<mapsto> AS ''u1'', ''instance_assignee'' \<mapsto> AS ''n1#u1'')"

definition books_row :: item where
  "books_row = (instance_row ''n2'' 4 ''Books'' ''books'' ''Books'' [] False Invoicing)
     (''payment_details'' \<mapsto> AS ''BSB 1'')"

definition agent_row :: "string \<Rightarrow> string \<Rightarrow> item" where
  "agent_row i inst = [''id'' \<mapsto> AS i, ''user_id'' \<mapsto> AS ''u1'', ''instance_id'' \<mapsto> AS inst, ''role'' \<mapsto> AS ''agent'']"

definition query_db :: store where
  "query_db t =
     (if t = ''ticket'' then [''t1'' \<mapsto> assigned_row]
      else if t = ''user'' then [''u1'' \<mapsto> user_row ''u1'' 2 ''u@x.org'' ''Una'']
      else if t = ''membership'' then [''m2'' \<mapsto> agent_row ''m2'' ''n2'']
      else if t = ''instance''
      then [''n1'' \<mapsto> instance_row ''n1'' 3 ''Help'' ''help'' ''Help'' [] True Support, ''n2'' \<mapsto> books_row]
      else Map.empty)"

definition query_world :: world where
  "query_world = \<lparr>w_db = query_db, w_n = 0, w_sent = [], w_objects = [], w_texts = []\<rparr>"

lemma requester_current: "current_desk ref_dynamo ref_handler ref_index requester_desk"
  by unfold_locales (simp_all add: requester_desk_def quiet_desk_def ref_handler_def ref_dynamo_def)

interpretation asked: current_desk ref_dynamo ref_handler ref_index requester_desk
  by (rule requester_current)

lemma requester_parts:
  "dk_query requester_desk = ref_index" "dk_db requester_desk = ref_handler"
  "dk_auth requester_desk = Some (Requester ''r@x.org'' ''n1'')"
  by (simp_all add: requester_desk_def quiet_desk_def)

lemma query_world_db: "w_db query_world = query_db"
  by (simp add: query_world_def)

lemma query_read: "db_read requester_desk f w = (db_error_of (f (w_db w)), w\<lparr>w_n := Suc (w_n w)\<rparr>)"
  unfolding db_read_def asked.current by (rule asked.call_step)

definition query_ticket :: ticket where
  "query_ticket =
     \<lparr>tkt_id = ''t1'', tkt_instance_id = ''n1'', tkt_number = 1, tkt_subject = ''Printer'', tkt_status = TOpen,
      tkt_requester_emails = [''r@x.org''], tkt_cc_emails = [], tkt_assignee_user_id = Some ''u1'',
      tkt_reply_token = ''tok1'', tkt_created_at = 20, tkt_updated_at = 20, tkt_last_activity_at = 20,
      tkt_has_attachments = False\<rparr>"

definition query_agent :: user where
  "query_agent =
     \<lparr>usr_id = ''u1'', usr_email = ''u@x.org'', usr_name = ''Una'', usr_enabled = True, usr_created_at = 2,
      usr_access_time = None, usr_superuser = False\<rparr>"

definition query_books :: org_instance where
  "query_books =
     \<lparr>inst_id = ''n2'', inst_name = ''Books'', inst_slug = ''books'', inst_kind = Invoicing,
      inst_public_submission_enabled = False, inst_from_name = ''Books'', inst_signature = [], inst_created_at = 4,
      inst_deleted = False, inst_business_name = None, inst_business_abn = None, inst_business_address = None,
      inst_business_phone = None, inst_business_email = None, inst_payment_details = Some ''BSB 1'',
      inst_gst_registered = False, inst_currency = None\<rparr>"

lemma query_rows:
  "get_tickets ref_handler [''t1''] query_db = Inr [Some query_ticket]"
  "get_users ref_handler [''u1''] query_db = Inr [Some query_agent]"
  "get_instances ref_handler [''n2''] query_db = Inr [Some query_books]"
  by code_simp+

lemma query_hydrates:
  "hydrate_ticket assigned_row = Inr query_ticket"
  "hydrate_user (user_row ''u1'' 2 ''u@x.org'' ''Una'') = Inr query_agent"
  "hydrate_instance books_row = Inr query_books"
  "\<not> isl (hydrate_instance (instance_row ''n1'' 3 ''Help'' ''help'' ''Help'' [] True Support))"
  "case hydrate_membership (agent_row ''m2'' ''n2'') of Inl e \<Rightarrow> False | Inr m \<Rightarrow> mb_user_id m = ''u1'' \<and> mb_instance_id m = ''n2''"
  by code_simp+

lemma query_keyed_db: "query_keyed query_db"
  by (auto simp: query_keyed_def query_tables_def keyed_def query_db_def user_row_def instance_row_def books_row_def
      assigned_row_def ticket_row_fields split: if_splits)

lemma query_ticket_reached: "reached P canon requester_desk query_db (TicketObject query_ticket)"
proof (rule at_root [OF query_world_db])
  show "roots P canon requester_desk (TicketField ''t1'') query_world
      = Some (Inr [TicketObject query_ticket], query_world\<lparr>w_n := Suc (w_n query_world)\<rparr>)"
    by (simp add: once_def answer_opt_def q_ticket_def guard_def requester_parts slift_def map_err_def sbind_def get_ticket_def
        query_read query_world_db query_rows first_row_def db_error_of_def sreturn_def)
      (simp add: query_ticket_def)
qed simp

text \<open>The reference service answers every read of rows that hydrate.\<close>

definition all_hydrate :: "store \<Rightarrow> string \<Rightarrow> (item \<Rightarrow> string + 'r) \<Rightarrow> bool" where
  "all_hydrate s t f \<longleftrightarrow> (\<forall>k it. s t k = Some it \<longrightarrow> \<not> isl (f it))"

lemma not_isl: "\<not> isl r \<longleftrightarrow> (\<exists>x. r = Inr x)"
  by (cases r) auto

lemma mapM_answers: "(\<And>it. it \<in> set its \<Longrightarrow> \<not> isl (f it)) \<Longrightarrow> \<exists>xs. mapM f its = Inr xs"
  by (induction its) (fastforce simp: not_isl)+

lemma insert_answers: "(\<And>it. it \<in> set its \<Longrightarrow> \<not> isl (f it)) \<Longrightarrow> \<exists>m'. insert_rows f rid its m = Inr m'"
  by (induction its arbitrary: m) (fastforce simp: not_isl)+

lemma batch_answers:
  assumes "all_hydrate s t f"
  shows "\<exists>rs. get_records ref_handler t f rid ids s = Inr rs"
proof -
  have one: "\<exists>m'. batch_attempts ref_handler s t f rid BATCH_GET_MAX_ATTEMPTS 1 c m = Inr m'" for c m
  proof -
    let ?its = "concat (map (\<lambda>k. case s t k of None \<Rightarrow> [] | Some i \<Rightarrow> [i]) c)"
    have "\<exists>m'. insert_rows f rid ?its m = Inr m'"
      by (rule insert_answers) (use assms in \<open>auto simp: all_hydrate_def split: option.splits\<close>)
    then show ?thesis
      by (auto simp: BATCH_GET_MAX_ATTEMPTS_def eval_nat_numeral ref_handler_def ref_dynamo_def map_err_def)
  qed
  have "\<exists>m'. batch_chunks ref_handler s t f rid cs m = Inr m'" for cs m
  proof (induction cs arbitrary: m)
    case (Cons c cs)
    from one obtain m1 where "batch_attempts ref_handler s t f rid BATCH_GET_MAX_ATTEMPTS 1 c m = Inr m1" by blast
    with Cons.IH [of m1] show ?case by simp
  qed simp
  then obtain m where "batch_chunks ref_handler s t f rid (chunks 100 ids) Map.empty = Inr m" by blast
  then show ?thesis by (simp add: get_records_def)
qed

lemma list_answers:
  assumes "all_hydrate s t f" "finite (dom (s t))"
  shows "\<exists>xs. query_all ref_index f t a v s = Inr xs"
proof -
  have rows: "rows_with s t a v \<subseteq> dom (s t)" by (auto simp: rows_with_def attrs_of_def split: option.splits)
  with assms(2) have "finite (rows_with s t a v)" by (rule finite_subset [rotated])
  moreover obtain xs where "mapM f (map (\<lambda>k. attrs_of (s t k)) (sorted_list_of_set (rows_with s t a v))) = Inr xs"
    using mapM_answers [of "map (\<lambda>k. attrs_of (s t k)) (sorted_list_of_set (rows_with s t a v))" f] assms(1) rows
      \<open>finite (rows_with s t a v)\<close> by (fastforce simp: all_hydrate_def attrs_of_def)
  note eq = iffD2 [OF mapM_hydrate_item this]
  show ?thesis using calculation by (intro exI [of _ xs]) (simp add: query_all_def ref_index_def map_err_def eq)
qed

lemma query_answered: "reads_answered ref_handler ref_index query_db"
proof -
  have hydrate: "all_hydrate query_db ''ticket'' hydrate_ticket" "all_hydrate query_db ''user'' hydrate_user"
    "all_hydrate query_db ''instance'' hydrate_instance" "all_hydrate query_db ''membership'' hydrate_membership"
    "all_hydrate query_db ''ticket_message'' hydrate_message"
    using query_hydrates by (auto simp: all_hydrate_def query_db_def not_isl split: if_splits sum.splits)
  have fin: "finite (dom (query_db t))" for t by (simp add: query_db_def)
  have "\<exists>ms. list_ticket_messages ref_index i query_db = Inr ms" for i
    using list_answers [OF hydrate(5) fin, of "''ticket_id''" i] by (auto simp: list_ticket_messages_def)
  then show ?thesis
    unfolding reads_answered_def get_tickets_def get_users_def get_instances_def list_memberships_by_user_def
    by (intro conjI allI batch_answers list_answers hydrate fin)
qed

text \<open>The payment details of the other tenant are among what the requester reads.\<close>

theorem requester_settings_exact_witness:
  "reached ref_pager Some requester_desk query_db (SettingsObject query_books) \<and> inst_payment_details query_books = Some ''BSB 1''"
proof -
  obtain m where m: "hydrate_membership (agent_row ''m2'' ''n2'') = Inr m" "mb_user_id m = ''u1''" "mb_instance_id m = ''n2''"
    using query_hydrates(5) by (auto split: sum.splits)
  have rows: "stored query_db ''ticket'' hydrate_ticket query_ticket" "stored query_db ''user'' hydrate_user query_agent"
    "stored query_db ''instance'' hydrate_instance query_books" "stored query_db ''membership'' hydrate_membership m"
    unfolding stored_def by (rule exI [of _ "''t1''"] exI [of _ "''u1''"] exI [of _ "''n2''"] exI [of _ "''m2''"],
      use query_hydrates m in \<open>simp add: query_db_def\<close>)+
  have "own_ticket query_db ''r@x.org'' ''n1'' query_ticket" "handles query_db query_ticket ''u1''"
    using rows(1) by (simp_all add: own_ticket_def handles_def query_ticket_def)
  moreover have "works_in query_db ''u1'' query_books"
    using rows m(2,3) unfolding works_in_def by (fastforce simp: query_agent_def query_books_def)
  ultimately have "near query_db ''r@x.org'' ''n1'' query_books" using rows(3) unfolding near_def by blast
  with requester_settings_exact [OF requester_current query_keyed_db requester_parts(3) query_answered]
  show ?thesis by (simp add: query_books_def)
qed

theorem reads_confined_witness:
  "sees_ticket (Some (Requester ''r@x.org'' ''n1'')) query_ticket"
proof -
  have linked: "rows_linked query_db"
    by (auto simp: rows_linked_def stored_def query_db_def)
  have "ticket_row_is ''t1'' assigned_row ''n1'' 1 TOpen (Some ''u1'')"
    by (simp add: ticket_row_is_def assigned_row_def ticket_row_fields markers_of_def compute_ticket_markers_def)
  then have marked: "tickets_marked query_db"
    unfolding tickets_marked_def by (auto simp: query_db_def split: if_splits intro!: exI [of _ "''n1''"])
  have "plain_memberships (dk_auth requester_desk)" by (simp add: plain_memberships_def requester_parts)
  from reads_confined [OF requester_current ref_pages.paged_service_axioms query_keyed_db linked marked this query_ticket_reached]
  show ?thesis by (simp add: requester_parts)
qed

end
