(* ===== verification/Note_Demo.thy ===== *)
theory Note_Demo
  imports Note_Mail Query_Demo
begin

section \<open>A note on a concrete ticket\<close>

text \<open>
  The ticket of \<open>Query_Demo\<close>, whose assignee is a member of its instance; a colleague adds a note, and
  the assignee is written to.
\<close>

definition note_desk :: desk where
  "note_desk = quiet_desk\<lparr>dk_auth := Some (User ''u9'' [\<lparr>am_instance_id = ''n1'', am_is_owner = False\<rparr>] False None None)\<rparr>"

definition note_db :: store where
  "note_db = query_db(''membership'' := [''m1'' \<mapsto> agent_row ''m1'' ''n1''])"

definition note_world :: world where
  "note_world = \<lparr>w_db = note_db, w_n = 0, w_sent = [], w_objects = [], w_texts = []\<rparr>"

lemma note_current: "current_desk ref_dynamo ref_handler ref_index note_desk"
  by unfold_locales (simp_all add: note_desk_def quiet_desk_def ref_handler_def ref_dynamo_def)

interpretation noting: current_desk ref_dynamo ref_handler ref_index note_desk
  by (rule note_current)

lemma note_parts [simp]:
  "dk_auth note_desk = Some (User ''u9'' [\<lparr>am_instance_id = ''n1'', am_is_owner = False\<rparr>] False None None)"
  "dk_db note_desk = ref_handler" "dk_query note_desk = ref_index" "dk_mime note_desk m = Inr (mm_text m)"
  "dk_send note_desk n raw to cc = Inr (''<sent'' @ show_nat n @ ''>'')"
  by (simp_all add: note_desk_def quiet_desk_def)


definition staffed :: "store \<Rightarrow> bool" where
  "staffed s \<longleftrightarrow> (\<forall>t \<in> {''instance'', ''user'', ''membership''}. s t = note_db t)"

lemma staffed_rows:
  assumes "staffed s"
  shows "s ''instance'' = [''n1'' \<mapsto> instance_row ''n1'' 3 ''Help'' ''help'' ''Help'' [] True Support, ''n2'' \<mapsto> books_row]"
    and "s ''user'' = [''u1'' \<mapsto> user_row ''u1'' 2 ''u@x.org'' ''Una'']"
    and "s ''membership'' = [''m1'' \<mapsto> agent_row ''m1'' ''n1'']"
  using assms by (simp_all add: staffed_def note_db_def query_db_def)

lemma single_read:
  assumes "s t k = Some it" "f it = Inr x" "rid x = k"
  shows "get_records ref_handler t f rid [k] s = Inr [Some x]"
  using assms
  by (simp add: get_records_def chunks_small BATCH_GET_MAX_ATTEMPTS_def eval_nat_numeral ref_handler_def ref_dynamo_def map_err_def)

lemma note_reads:
  assumes "staffed s"
  shows "\<exists>j. get_instances ref_handler [''n1''] s = Inr [Some j]"
    and "\<exists>mb. list_memberships_by_instance ref_index ''n1'' s = Inr [mb] \<and> mb_user_id mb = ''u1''
      \<and> mb_notification_settings mb = default_notification_settings"
    and "get_users ref_handler [''u1''] s = Inr [Some query_agent]"
proof -
  obtain j where j: "hydrate_instance (instance_row ''n1'' 3 ''Help'' ''help'' ''Help'' [] True Support) = Inr j"
    using query_hydrates(4) by (auto simp: not_isl)
  then have "inst_id j = ''n1''" using id_hydrate_instance by (fastforce simp: id_hydrate_def instance_row_def)
  with j show "\<exists>j. get_instances ref_handler [''n1''] s = Inr [Some j]"
    unfolding get_instances_def by (intro exI [of _ j] single_read) (simp_all add: staffed_rows [OF assms])
  have "case hydrate_membership (agent_row ''m1'' ''n1'') of Inl e \<Rightarrow> False
      | Inr m \<Rightarrow> mb_user_id m = ''u1'' \<and> mb_notification_settings m = default_notification_settings" by code_simp
  then obtain m where m: "hydrate_membership (agent_row ''m1'' ''n1'') = Inr m" "mb_user_id m = ''u1''"
    "mb_notification_settings m = default_notification_settings" by (auto split: sum.splits)
  have rows: "rows_with s ''membership'' ''instance_id'' ''n1'' = {''m1''}"
    by (auto simp: rows_with_def staffed_rows [OF assms] attrs_of_def agent_row_def split: if_splits)
  have "mapM (hydrate_item hydrate_membership) [agent_row ''m1'' ''n1''] = Inr [m]" using m(1) by simp
  with m show "\<exists>mb. list_memberships_by_instance ref_index ''n1'' s = Inr [mb] \<and> mb_user_id mb = ''u1''
      \<and> mb_notification_settings mb = default_notification_settings"
    by (intro exI [of _ m])
      (simp add: list_memberships_by_instance_def query_all_def ref_index_def rows map_err_def staffed_rows [OF assms] attrs_of_def)
  show "get_users ref_handler [''u1''] s = Inr [Some query_agent]"
    unfolding get_users_def by (rule single_read) (use query_hydrates(2) in \<open>simp_all add: staffed_rows [OF assms] query_agent_def\<close>)
qed

lemma note_told:
  assumes "staffed (w_db w)"
  shows "\<exists>raw. w_sent (snd (notify_staff note_desk query_ticket (Some ''u1'') InternalNote (ActorUser ''u9'') (Some b) w))
    = w_sent w @ [(raw, [''u@x.org''], [])]"
proof -
  obtain j where j: "get_instances ref_handler [''n1''] (w_db w) = Inr [Some j]" using note_reads(1) [OF assms] by blast
  obtain mb where mb: "list_memberships_by_instance ref_index ''n1'' (w_db w) = Inr [mb]" "mb_user_id mb = ''u1''"
    "mb_notification_settings mb = default_notification_settings" using note_reads(2) [OF assms] by blast
  note users = note_reads(3) [OF assms]
  have to: "select_recipients [(mb, query_agent)] TOpen (Some ''u1'') (ActorUser ''u9'') InternalNote
      = [recipient_of query_agent RAssignedToMeUpdated]"
    by (simp add: select_recipients_def query_agent_def update_reason_def when_set_def mb(3) default_notification_settings_def)
  show ?thesis
    by (simp add: notify_staff_def notify_members_def query_ticket_def sbind_def get_instance_def noting.read_step j first_row_def
        db_error_of_def map_err_def found_def ok_or_def slift_def sreturn_def mb(1,2) users to [unfolded query_agent_def] best_effort_def Let_def
        build_staff_mime_def generate_nonce_def noting.call_step send_raw_def query_agent_def recipient_of_def)
qed

lemma note_write:
  "db_write note_desk m w = (let (r, s') = m (w_n w) (w_db w) in (db_error_of r, w\<lparr>w_db := s', w_n := Suc (w_n w)\<rparr>))"
  by (simp add: db_write_def call_def noting.alone Let_def split: prod.splits)

lemma note_stored:
  "\<exists>msg s'. new_message note_desk ''t1'' Note (Some ''u9'') None [] [] (Some b) None None None (note_world\<lparr>w_n := n\<rparr>)
      = (Inr msg, note_world\<lparr>w_db := s', w_n := Suc n\<rparr>) \<and> staffed s' \<and> s' ''ticket'' = note_db ''ticket''"
proof -
  have new: "note_db ''ticket_message'' = Map.empty" by (simp add: note_db_def query_db_def)
  show ?thesis
    by (simp add: new_message_def note_write note_world_def create_ticket_message_def ref_plain cond_holds_def attrs_of_def new
        db_error_of_def map_err_def) (simp add: apply_write_def set_row_def staffed_def)
qed

lemma note_touched:
  assumes "staffed (w_db w)" "w_db w ''ticket'' = note_db ''ticket''"
  shows "\<exists>s'. write_ticket note_desk ''t1'' (Touch now) w = (Inr (), w\<lparr>w_db := s', w_n := Suc (w_n w)\<rparr>) \<and> staffed s'"
proof -
  have "w_db w ''ticket'' = [''t1'' \<mapsto> assigned_row]" using assms(2) by (simp add: note_db_def query_db_def)
  moreover have "assigned_row ''id'' = Some (AS ''t1'')" by (simp add: assigned_row_def ticket_row_fields)
  ultimately have "update_ticket ref_handler ''t1'' (Touch now) (w_db w) = (Inr (), apply_write remdups (update_ticket_req ''t1'' (Touch now)) (w_db w))"
    by (simp add: update_ticket_def send_existing_def ensure_writable_def ref_handler_def ref_dynamo_def update_ticket_req_def
        touch_actions_def cond_holds_def attrs_of_def)
  moreover have "staffed (apply_write remdups (update_ticket_req ''t1'' (Touch now)) (w_db w))"
    using assms(1) by (simp add: apply_write_def set_row_def staffed_def update_ticket_req_def)
  ultimately show ?thesis
    by (intro exI [of _ "apply_write remdups (update_ticket_req ''t1'' (Touch now)) (w_db w)"])
      (simp add: write_ticket_def note_write db_error_of_def map_err_def)
qed

lemma note_run: "\<exists>raw. w_sent (snd (m_add_internal_note note_desk ''t1'' ''call back'' note_world)) = [(raw, [''u@x.org''], [])]"
proof -
  let ?run = "m_add_internal_note note_desk ''t1'' ''call back'' note_world"
  have row: "get_tickets ref_handler [''t1''] note_db = Inr [Some query_ticket]"
    unfolding get_tickets_def
    by (rule single_read) (use query_hydrates(1) in \<open>simp_all add: note_db_def query_db_def query_ticket_def\<close>)
  have ticket: "require_ticket_member note_desk ''t1'' note_world = (Inr query_ticket, note_world\<lparr>w_n := 1\<rparr>)"
    by (simp add: require_ticket_member_def sbind_def get_ticket_def noting.read_step note_world_def row first_row_def db_error_of_def
        map_err_def found_def ok_or_def slift_def sreturn_def sensure_api_def sensure_def query_ticket_def is_member_def)
  obtain msg s1 where s1: "new_message note_desk ''t1'' Note (Some ''u9'') None [] [] (Some ''call back'') None None None
      (note_world\<lparr>w_n := 1\<rparr>) = (Inr msg, note_world\<lparr>w_db := s1, w_n := 2\<rparr>)" "staffed s1" "s1 ''ticket'' = note_db ''ticket''"
    using note_stored [of "''call back''" 1] by (auto simp: numeral_2_eq_2)
  obtain now where now: "now_sec note_desk (note_world\<lparr>w_db := s1, w_n := 2\<rparr>) = (Inr now, note_world\<lparr>w_db := s1, w_n := 3\<rparr>)"
    by (simp add: noting.tick_steps(1))
  obtain s2 where s2: "write_ticket note_desk ''t1'' (Touch now) (note_world\<lparr>w_db := s1, w_n := 3\<rparr>)
      = (Inr (), note_world\<lparr>w_db := s2, w_n := 4\<rparr>)" "staffed s2"
    using note_touched [of "note_world\<lparr>w_db := s1, w_n := 3\<rparr>" now] s1(2,3) by auto
  obtain raw where raw: "w_sent (snd (notify_staff note_desk query_ticket (Some ''u1'') InternalNote (ActorUser ''u9'')
      (Some ''call back'') (note_world\<lparr>w_db := s2, w_n := 4\<rparr>))) = [(raw, [''u@x.org''], [])]"
    using note_told [of "note_world\<lparr>w_db := s2, w_n := 4\<rparr>" "''call back''"] s2(2) by (auto simp: note_world_def)
  have worded: "required_text ''body'' ''call back'' w = (Inr ''call back'', w)" for w
  proof -
    have "trim ''call back'' = ''call back''" by code_simp
    then show ?thesis by (simp add: required_text_def sbind_def sensure_api_def sensure_def sreturn_def)
  qed
  have author: "require_user_id note_desk w = (Inr ''u9'', w)" for w
    by (simp add: require_user_id_def slift_def)
  have assignee: "tkt_assignee_user_id query_ticket = Some ''u1''" "tkt_id query_ticket = ''t1''" by (simp_all add: query_ticket_def)
  have run: "?run = (case notify_staff note_desk query_ticket (Some ''u1'') InternalNote (ActorUser ''u9'') (Some ''call back'')
      (note_world\<lparr>w_db := s2, w_n := 4\<rparr>) of (Inl e, w') \<Rightarrow> (Inl e, w') | (Inr x, w') \<Rightarrow> sreturn msg w')"
    by (simp add: m_add_internal_note_def sbind_def guard_def slift_def map_err_def ticket author worded assignee s1(1) [unfolded One_nat_def] now s2(1))
  show ?thesis unfolding run using raw by (intro exI [of _ raw]) (auto simp: sreturn_def split: prod.splits sum.splits)
qed

theorem internal_note_not_mailed_witness:
  "\<exists>raw. w_sent (snd (m_add_internal_note note_desk ''t1'' ''call back'' note_world)) = [(raw, [''u@x.org''], [])]
    \<and> told_of_note note_db (dk_auth note_desk) query_ticket [''u@x.org'']"
proof -
  obtain raw where sent: "w_sent (snd (m_add_internal_note note_desk ''t1'' ''call back'' note_world)) = [(raw, [''u@x.org''], [])]"
    using note_run by blast
  have keyed: "query_keyed (w_db note_world)"
    using query_keyed_db by (simp add: query_keyed_def query_tables_def keyed_def note_world_def note_db_def)
  from internal_note_not_mailed [OF note_current keyed prod.collapse [symmetric], of "''t1''" "''call back''"] sent
  obtain t where t: "stored note_db ''ticket'' hydrate_ticket t" "told_of_note note_db (dk_auth note_desk) t [''u@x.org'']"
    by (auto simp: note_world_def)
  from t(1) have "t = query_ticket" using query_hydrates(1) by (auto simp: stored_def note_db_def query_db_def split: if_splits)
  with sent t(2) show ?thesis by blast
qed

end
