(* ===== verification/Query_Views.thy ===== *)
theory Query_Views
  imports Query_Graph
begin

section \<open>What a client sees of an object\<close>

text \<open>
  The scalar fields of the objects of \<^verbatim>\<open>graphql/query.rs\<close>, as records: every field a client can ask
  for and nothing else of the row. Numbers leave as \<^verbatim>\<open>i64\<close> and \<^verbatim>\<open>i32\<close>. Reply tokens, token hashes,
  storage keys and the keys of passkeys are in no view (\<open>secrets_not_shown\<close>).
\<close>

definition as_i32 :: "nat \<Rightarrow> int" where
  "as_i32 n = (let m = int n mod 2 ^ 32 in if m < 2 ^ 31 then m else m - 2 ^ 32)"

record instance_view =
  iv_id :: string
  iv_name :: string
  iv_slug :: string
  iv_kind :: instance_kind
  iv_public_submission_enabled :: bool
  iv_from_name :: string
  iv_signature :: string
  iv_created_at :: int
  iv_deleted :: bool

definition instance_view_of :: "org_instance \<Rightarrow> instance_view" where
  "instance_view_of i =
     \<lparr>iv_id = inst_id i, iv_name = inst_name i, iv_slug = inst_slug i, iv_kind = inst_kind i,
      iv_public_submission_enabled = inst_public_submission_enabled i, iv_from_name = inst_from_name i,
      iv_signature = inst_signature i, iv_created_at = as_i64 (inst_created_at i), iv_deleted = inst_deleted i\<rparr>"

record settings_view =
  sv_business_name :: "string option"
  sv_business_abn :: "string option"
  sv_business_address :: "string option"
  sv_business_phone :: "string option"
  sv_business_email :: "string option"
  sv_payment_details :: "string option"
  sv_gst_registered :: bool
  sv_currency :: string

definition settings_view_of :: "org_instance \<Rightarrow> settings_view" where
  "settings_view_of i =
     \<lparr>sv_business_name = inst_business_name i, sv_business_abn = inst_business_abn i,
      sv_business_address = inst_business_address i, sv_business_phone = inst_business_phone i,
      sv_business_email = inst_business_email i, sv_payment_details = inst_payment_details i,
      sv_gst_registered = inst_gst_registered i, sv_currency = currency_or_default i\<rparr>"

record user_view =
  uv_id :: string
  uv_email :: string
  uv_name :: string
  uv_enabled :: bool
  uv_created_at :: int
  uv_access_time :: "int option"
  uv_is_superuser :: bool

definition user_view_of :: "user \<Rightarrow> user_view" where
  "user_view_of u =
     \<lparr>uv_id = usr_id u, uv_email = usr_email u, uv_name = usr_name u, uv_enabled = usr_enabled u,
      uv_created_at = as_i64 (usr_created_at u), uv_access_time = map_option as_i64 (usr_access_time u),
      uv_is_superuser = usr_superuser u\<rparr>"

record api_token_view =
  kv_id :: string
  kv_name :: string
  kv_enabled :: bool
  kv_created_at :: int
  kv_last_used_at :: "int option"

definition api_token_view_of :: "api_token \<Rightarrow> api_token_view" where
  "api_token_view_of k =
     \<lparr>kv_id = tk_id k, kv_name = tk_name k, kv_enabled = tk_enabled k, kv_created_at = as_i64 (tk_created_at k),
      kv_last_used_at = map_option as_i64 (tk_last_used_at k)\<rparr>"

record ticket_view =
  tv_id :: string
  tv_instance_id :: string
  tv_number :: int
  tv_subject :: string
  tv_status :: ticket_status
  tv_requester_emails :: "string list"
  tv_cc_emails :: "string list"
  tv_assignee_user_id :: "string option"
  tv_created_at :: int
  tv_updated_at :: int
  tv_last_activity_at :: int
  tv_has_attachments :: bool

definition ticket_view_of :: "ticket \<Rightarrow> ticket_view" where
  "ticket_view_of t =
     \<lparr>tv_id = tkt_id t, tv_instance_id = tkt_instance_id t, tv_number = as_i64 (tkt_number t), tv_subject = tkt_subject t,
      tv_status = tkt_status t, tv_requester_emails = tkt_requester_emails t, tv_cc_emails = tkt_cc_emails t,
      tv_assignee_user_id = tkt_assignee_user_id t, tv_created_at = as_i64 (tkt_created_at t),
      tv_updated_at = as_i64 (tkt_updated_at t), tv_last_activity_at = as_i64 (tkt_last_activity_at t),
      tv_has_attachments = tkt_has_attachments t\<rparr>"

record message_view =
  mv_id :: string
  mv_ticket_id :: string
  mv_kind :: message_kind
  mv_author_user_id :: "string option"
  mv_from_email :: "string option"
  mv_to_emails :: "string list"
  mv_cc_emails :: "string list"
  mv_body_text :: "string option"
  mv_body_html :: "string option"
  mv_rfc_message_id :: "string option"
  mv_in_reply_to :: "string option"
  mv_created_at :: int

definition message_view_of :: "ticket_message \<Rightarrow> message_view" where
  "message_view_of m =
     \<lparr>mv_id = msg_id m, mv_ticket_id = msg_ticket_id m, mv_kind = msg_kind m, mv_author_user_id = msg_author_user_id m,
      mv_from_email = msg_from_email m, mv_to_emails = msg_to_emails m, mv_cc_emails = msg_cc_emails m,
      mv_body_text = msg_body_text m, mv_body_html = msg_body_html m, mv_rfc_message_id = msg_rfc_message_id m,
      mv_in_reply_to = msg_in_reply_to m, mv_created_at = as_i64 (msg_created_at m)\<rparr>"

record attachment_view =
  tav_filename :: string
  tav_content_type :: string
  tav_size :: int

definition attachment_view_of :: "attachment \<Rightarrow> attachment_view" where
  "attachment_view_of a =
     \<lparr>tav_filename = at_filename a, tav_content_type = at_content_type a, tav_size = as_i64 (at_size a)\<rparr>"

record project_view =
  pv_id :: string
  pv_name :: string
  pv_client_name :: string
  pv_client_abn :: "string option"
  pv_client_address :: "string option"
  pv_reference :: "string option"
  pv_archived :: bool
  pv_created_at :: int
  pv_updated_at :: int

definition project_view_of :: "project \<Rightarrow> project_view" where
  "project_view_of p =
     \<lparr>pv_id = proj_id p, pv_name = proj_name p, pv_client_name = proj_client_name p, pv_client_abn = proj_client_abn p,
      pv_client_address = proj_client_address p, pv_reference = proj_reference p, pv_archived = proj_archived p,
      pv_created_at = as_i64 (proj_created_at p), pv_updated_at = as_i64 (proj_updated_at p)\<rparr>"

record item_view =
  bv_id :: string
  bv_date :: string
  bv_description :: string
  bv_quantity :: string
  bv_unit_price_cents :: int
  bv_amount_cents :: int
  bv_created_at :: int
  bv_updated_at :: int

definition item_view_of :: "billable_item \<Rightarrow> item_view" where
  "item_view_of b =
     \<lparr>bv_id = item_id b, bv_date = item_date b, bv_description = item_description b,
      bv_quantity = format_quantity (item_quantity_hundredths b), bv_unit_price_cents = item_unit_price_cents b,
      bv_amount_cents = line_amount_cents (item_quantity_hundredths b) (item_unit_price_cents b),
      bv_created_at = as_i64 (item_created_at b), bv_updated_at = as_i64 (item_updated_at b)\<rparr>"

record invoice_view =
  nv_id :: string
  nv_status :: invoice_status
  nv_number :: "int option"
  nv_display_number :: "string option"
  nv_issue_date :: "string option"
  nv_paid_date :: "string option"
  nv_created_at :: int
  nv_finalized_at :: "int option"

definition invoice_view_of :: "invoice \<Rightarrow> invoice_view" where
  "invoice_view_of v =
     \<lparr>nv_id = inv_id v, nv_status = inv_status v, nv_number = map_option as_i32 (inv_number v),
      nv_display_number = map_option (\<lambda>n. pad0 3 (show_nat n)) (inv_number v), nv_issue_date = inv_issue_date v,
      nv_paid_date = inv_paid_date v, nv_created_at = as_i64 (inv_created_at v),
      nv_finalized_at = map_option as_i64 (inv_finalized_at v)\<rparr>"

record grant_view =
  gv_id :: string
  gv_client_name :: string
  gv_redirect_host :: string
  gv_scope :: string
  gv_created_at :: int
  gv_last_used_at :: "int option"
  gv_refresh_expires_at :: int

definition grant_view_of :: "oauth_env \<Rightarrow> oauth_grant \<Rightarrow> grant_view" where
  "grant_view_of E g =
     \<lparr>gv_id = og_id g, gv_client_name = og_client_name g, gv_redirect_host = grant_redirect_host E g, gv_scope = og_scope g,
      gv_created_at = as_i64 (og_created_at g), gv_last_used_at = map_option as_i64 (og_last_used_at g),
      gv_refresh_expires_at = as_i64 (og_refresh_expires_at g)\<rparr>"

text \<open>What an invoice prints, field by field, of the one snapshot.\<close>

record line_view =
  lv_date :: string
  lv_description :: string
  lv_quantity :: string
  lv_unit_price_cents :: int
  lv_amount_cents :: int

definition line_view_of :: "snapshot_line \<Rightarrow> line_view" where
  "line_view_of l =
     \<lparr>lv_date = line_date l, lv_description = line_description l, lv_quantity = line_quantity l,
      lv_unit_price_cents = line_unit_price_cents l, lv_amount_cents = line_amount l\<rparr>"

record printed_view =
  xv_title :: string
  xv_bill_to :: snapshot_bill_to
  xv_reference :: "string option"
  xv_seller :: snapshot_seller
  xv_lines :: "line_view list"
  xv_subtotal_cents :: int
  xv_gst_cents :: int
  xv_total_cents :: int
  xv_currency :: string
  xv_gst_registered :: bool
  xv_payment_details :: "string option"

definition printed_view_of :: "invoice_snapshot \<Rightarrow> printed_view" where
  "printed_view_of sn =
     \<lparr>xv_title = snap_title sn, xv_bill_to = snap_bill_to sn, xv_reference = snap_reference sn, xv_seller = snap_seller sn,
      xv_lines = map line_view_of (snap_lines sn), xv_subtotal_cents = snap_subtotal_cents sn,
      xv_gst_cents = snap_gst_cents sn, xv_total_cents = snap_total_cents sn, xv_currency = snap_currency sn,
      xv_gst_registered = snap_gst_registered sn, xv_payment_details = snap_payment_details sn\<rparr>"

definition printed_invoice :: "(string \<Rightarrow> string + invoice_snapshot) \<Rightarrow> desk \<Rightarrow> invoice \<Rightarrow> printed_view run" where
  "printed_invoice parse D v = sbind (invoice_effective parse D v) (\<lambda>sn. sreturn (printed_view_of sn))"

text \<open>Rows that differ in their secrets only look the same.\<close>

lemma secrets_not_shown:
  "ticket_view_of (t\<lparr>tkt_reply_token := r\<rparr>) = ticket_view_of t"
  "api_token_view_of (k\<lparr>tk_token_hash := h\<rparr>) = api_token_view_of k"
  "grant_view_of E (g\<lparr>og_access_token_hash := a, og_refresh_token_hash := b, og_client_id := c\<rparr>) = grant_view_of E g"
  "attachment_view_of (x\<lparr>at_s3_key := key\<rparr>) = attachment_view_of x"
  "message_view_of (m\<lparr>msg_raw_s3_key := raw, msg_references := refs\<rparr>) = message_view_of m"
  "passkey_info_of (c'\<lparr>wc_passkey_json := j\<rparr>) = passkey_info_of c'"
  by (simp_all add: ticket_view_of_def api_token_view_of_def grant_view_of_def grant_redirect_host_def attachment_view_of_def
      message_view_of_def passkey_info_of_def cong: option.case_cong)

text \<open>
  A draft's preview prints what finalizing it over the same rows would freeze, and a finalized
  invoice prints its snapshot without a call to the database.
\<close>

lemma preview_prints_as_finalized:
  "printed_view_of (build_snapshot i p items None None) = printed_view_of (build_snapshot i p items (Some n) (Some d))"
  by (simp add: printed_view_of_def build_snapshot_def Let_def)

lemma finalized_prints_snapshot:
  assumes "inv_status v = Finalized" "inv_snapshot v = Some json" "parse json = Inr sn"
  shows "printed_invoice parse D v w = (Inr (printed_view_of sn), w)"
  using assms
  by (simp add: printed_invoice_def invoice_effective_def sbind_def found_def ok_or_def slift_def map_err_def sreturn_def)

end
