(* ===== verification/Spec2Isabelle.thy ===== *)
theory Spec2Isabelle
  imports Invoice_Demo Best_Effort Login_Safety OAuth_Demo Listing_Demo Pdf_Limits Pdf_Texts Admin_Demo Passkey_Demo
    Note_Demo Query_Views
begin

text \<open>
  A model of microticket's API (\<^verbatim>\<open>src/api/src\<close>), a multi-tenant helpdesk and invoicing
  service: a GraphQL server and a mail pipeline over DynamoDB, S3 and SES. An instance is either
  an invoicing instance (projects, billable items, invoices) or a helpdesk instance (tickets fed by
  mail and by its members). The model translates the code that decides what is stored and what is
  sent; the services themselves are parameters with stated laws.

  \<^bold>\<open>Generic parts.\<close> \<open>Prelude\<close> holds the result and state combinators
  (\<open>rbind\<close> for \<^verbatim>\<open>?\<close> on results, \<open>sbind\<close> and its relatives for handlers that thread
  a state) and list lemmas. \<open>Rust_Str\<close> models the Rust string operations used, on UTF-8 byte
  strings: trimming of Unicode white space, splitting, number parsing and printing.

  \<^bold>\<open>The database.\<close> \<open>Dynamo\<close> has attribute values, conditions, update
  actions and write requests, the reference semantics of a transaction on a store
  \<open>table \<Rightarrow> key \<Rightarrow> item option\<close>, and the locale \<open>dynamo_service\<close> with the laws the code
  relies on: a write is all or nothing, happens only where its conditions hold, and reports a failed
  condition as such. It is interpreted on the reference semantics. \<open>Rows\<close> is hydration
  (\<^verbatim>\<open>TryInto\<close> of \<^verbatim>\<open>dynamodb.rs\<close>), \<open>Batch_Get\<close> the retried batch read,
  \<open>Invoice_Store\<close> and \<open>Ticket_Store\<close> the requests of the \<^verbatim>\<open>Handler\<close>'s operations. Secondary
  indexes are the parameter of the locale \<open>index_service\<close>, whose answer is all the rows of a key: the two
  lookups that ask for a single page of key-only rows (a ticket by its number, a message by its
  \<^verbatim>\<open>Message-ID\<close>) are taken to get them all, where the loops over pages are in \<open>Paging\<close>.

  \<^bold>\<open>Invoicing.\<close> \<open>Money\<close> (\<^verbatim>\<open>invoicing/money.rs\<close>, \<^verbatim>\<open>invoicing/mod.rs\<close>), \<open>Domain\<close>
  (\<^verbatim>\<open>db.rs\<close>), \<open>Snapshot\<close> (\<^verbatim>\<open>invoicing/snapshot.rs\<close>), \<open>Guards\<close> (\<^verbatim>\<open>graphql/auth.rs\<close>,
  \<^verbatim>\<open>graphql/error.rs\<close>), \<open>Invoice_Mutations\<close> (the resolvers of \<^verbatim>\<open>graphql/mutations.rs\<close>),
  \<open>Invoice_System\<close> (the step relation of concurrent requests and its invariant \<open>sys_ok\<close>),
  \<open>Ledger\<close> (what survives over any number of steps), \<open>Invoice_Runs\<close> (every run of a resolver is a
  sequence of steps), \<open>Invoice_Demo\<close> (a worked history for the witnesses).

  \<^bold>\<open>Helpdesk.\<close> \<open>Mail_Routing\<close> (\<^verbatim>\<open>mailloop.rs\<close>, \<^verbatim>\<open>inbound/routing.rs\<close>), \<open>Attachments\<close>
  (\<^verbatim>\<open>inbound/attachments.rs\<close>), \<open>Desk_Domain\<close> (its records), \<open>Outbound\<close>
  (\<^verbatim>\<open>outbound.rs\<close>), \<open>Resolution\<close> (\<^verbatim>\<open>inbound/resolution.rs\<close>), \<open>Ticket_Store\<close> (above),
  \<open>Desk_System\<close> (the step relation of the ticket table, its invariant \<open>desk_ok\<close>, and what no
  sequence of steps changes). \<open>Desk_Env\<close> is what a handler runs in: the state \<open>world\<close> (database, mail
  sent, storage calls, a count of the calls made) and the environment \<open>desk\<close> (services, clock, ids).
  \<open>Staff_Notify\<close> (\<^verbatim>\<open>staff_notify.rs\<close>), \<open>Ticket_Mutations\<close> (the helpdesk resolvers of
  \<^verbatim>\<open>graphql/mutations.rs\<close>) and \<open>Inbound_Pipeline\<close> (\<^verbatim>\<open>inbound/pipeline.rs\<close>) are the handlers.
  \<open>Desk_Runs\<close> and \<open>Desk_Handlers\<close> show that any run of them, with other requests between any two
  calls and lagging reads, is a sequence of steps of \<open>Desk_System\<close>; \<open>Desk_Isolation\<close> and
  \<open>Inbound_Isolation\<close> what one request alone can touch; \<open>Best_Effort\<close> that mail which fails
  changes neither the answer nor the store; \<open>Note_Mail\<close> traces every mail about an internal note to the
  rows of the person it goes to (\<open>Note_Demo\<close>: one that is sent).

  \<^bold>\<open>Credentials.\<close> \<open>Auth_Rows\<close> (the rows of codes, sessions, tokens and grants), \<open>Sessions\<close>
  (\<^verbatim>\<open>auth.rs\<close>: from a bearer token to a principal), \<open>Logins\<close> (e-mail codes and API tokens),
  \<open>OAuth\<close> (\<^verbatim>\<open>oauth.rs\<close>, \<^verbatim>\<open>oauth_http.rs\<close>, \<^verbatim>\<open>base_url.rs\<close>) and \<open>Passkeys\<close> (WebAuthn). \<open>Auth_Rules\<close>
  has triples for runs; \<open>Login_Safety\<close> bounds the guesses of a code, \<open>Token_Safety\<close> shows that a
  principal stands on rows of the database, \<open>OAuth_Safety\<close> audience, single use and reuse detection,
  \<open>Passkey_Safety\<close> what a login and a registration stand on. \<open>OAuth_Demo\<close> and \<open>Passkey_Demo\<close> are
  their worked examples.

  \<^bold>\<open>Administration.\<close> \<open>Admin\<close> is instances, settings, users, memberships and inbound addresses in
  \<^verbatim>\<open>graphql/mutations.rs\<close>; \<open>Admin_Safety\<close>, \<open>Admin_Rows\<close> and \<open>Admin_Rules\<close> have the invariant of the
  instance rows, the uniqueness of slugs and addresses while requests run one after another, and what a
  refused request leaves; \<open>Admin_Demo\<close> their example.

  \<^bold>\<open>Reading.\<close> \<open>Paging\<close> is the loop over the pages of a \<^verbatim>\<open>Query\<close> or \<^verbatim>\<open>Scan\<close>, \<open>Listing\<close> the
  connections of \<^verbatim>\<open>graphql/pagination.rs\<close> and the listing fields, \<open>Listing_Safety\<close> which slice a page
  is and that walking the pages meets every entry and ends, \<open>Listing_Demo\<close> their example. \<open>Queries\<close> has
  the other fields of \<^verbatim>\<open>graphql/query.rs\<close> and the loader of \<^verbatim>\<open>graphql/dataloader.rs\<close>. A request may
  follow these fields in any order and as deep as it likes, so \<open>Query_Graph\<close> gives \<open>reached\<close>, the objects
  a request can get hold of when all its reads see one state (objects that a mutation answers are left
  out). \<open>Query_Safety\<close> shows who reaches what, \<open>Requester_Reach\<close> exactly which settings a requester
  reaches, some of them settings the comments of the code keep from them, \<open>Query_Views\<close> which scalars of
  an object are shown; \<open>Query_Demo\<close> is the example.

  \<^bold>\<open>The printed invoice.\<close> \<open>Invoice_Layout\<close> and \<open>Invoice_Pdf\<close> are \<^verbatim>\<open>invoicing/pdf.rs\<close>: text wrapping and
  the drawing operations of each page. \<open>Pdf_Safety\<close> has the order of the texts and shows that
  everything stays within the margins while no table row is taller than a page, \<open>Pdf_Limits\<close> how a taller
  one leaves it; \<open>Pdf_Texts\<close> lists what has to be printed, over the snapshot alone, and shows that just
  that is drawn.

  \<^bold>\<open>Desks.\<close> What is known of a request's surroundings is a locale: \<open>desk_client\<close> (others may run
  between any two calls, by steps of the system), \<open>solo_desk\<close> (alone, but reads may lag) with its
  extensions \<open>current_desk\<close> (reads are current) and \<open>obliging_desk\<close> (the service also performs what it
  may), \<open>still_desk\<close> and \<open>paged_desk\<close> (alone, over a service of pages). Each is interpreted on a desk over the
  reference semantics of \<open>Dynamo\<close>. Properties that are told \<open>solo_desk\<close> or more do not speak of
  interleavings; those over \<open>desk_client\<close>, \<open>reachable\<close> and \<open>desk_ok\<close> do.

  \<^bold>\<open>Parameters.\<close> Code that is not under \<^verbatim>\<open>src/\<close> is an argument: digests, random numbers, the captcha
  service and the JSON of stored payloads (\<open>auth_env\<close>), signatures, URLs and encodings (\<open>oauth_env\<close>),
  the pages of a query (\<open>pager\<close>), fonts and the PDF writer (\<open>face\<close>, \<open>pdf_lib\<close>), WebAuthn
  (\<open>webauthn_lib\<close>), the MIME parser and writer, storage and presigning. What a property relies on in
  them is among its hypotheses.

  \<^bold>\<open>Bounds and termination.\<close> No definition counts fuel. Retry loops have the attempt limits of the
  code as their measure; a loop over the pages of a service is a \<^verbatim>\<open>partial_function\<close> whose result
  \<open>None\<close> is a service that never ends its pages, and it is shown to return over a service whose
  continuation keys advance. Panics are an error value (\<open>Panic\<close>). Amounts are integers with the
  wrap-around and saturation of the code written out; sums of clock seconds and constants are taken
  not to exceed \<^verbatim>\<open>u64\<close>. Layout positions are exact rationals where the code has \<^verbatim>\<open>f32\<close>, so
  rounding of positions is not modelled. String sets keep the order and the duplicates a service may
  return. \<^verbatim>\<open>Debug\<close> texts of errors are printed without escapes. An answer lost on the way to the SDK and
  sent again is not a step of its own: a call is one attempt.

  \<^bold>\<open>Not modelled.\<close> The MCP tools (\<^verbatim>\<open>mcp/\<close>) send fixed GraphQL documents and render the answers; the
  transports and storage back ends (\<^verbatim>\<open>sesmail.rs\<close>, \<^verbatim>\<open>s3storage.rs\<close>, the mocks) are pure I/O behind
  traits; \<^verbatim>\<open>mockdb.rs\<close> is a test double; \<^verbatim>\<open>server.rs\<close>, configuration, telemetry and the binaries are glue
  that reads the environment and starts the parts above. Logging and metrics are left out everywhere.
\<close>

section \<open>Invoices under concurrent requests\<close>

text \<open>
  C1. Snapshot integrity. In every reachable state of the system, the snapshot stored in a
  finalized invoice is the serialisation of \<^verbatim>\<open>build_snapshot\<close> on exactly the invoice's items
  (each once, at least one) as their rows are at that moment, under the invoice's own number
  and issue date, and the stored total is the snapshot's. So no interleaving of edits, attaches,
  detaches and finalizes freezes content that differs from the rows.
\<close>

theorem finalized_snapshot_integrity:
  assumes "set_enum ss" "reachable ss ser c" "invoices (sy_db c) k = Some it" "is_final it"
  shows "\<exists>inst proj ids xs n date snap json.
      ids \<noteq> [] \<and> distinct ids \<and> set ids = ids_in it
      \<and> list_all2 (\<lambda>i x. hydrated hydrate_billable_item (items (sy_db c) i) = Inr (Some x)) ids xs
      \<and> snap = build_snapshot inst proj xs (Some n) (Some date) \<and> ser snap = Inr json
      \<and> it ''number'' = Some (AN (int n)) \<and> it ''issue_date'' = Some (AS date)
      \<and> it ''snapshot'' = Some (AS json) \<and> it ''total_cents'' = Some (AN (snap_total_cents snap))"
proof -
  from sys_okD(5) [OF reachable_ok [OF assms(1,2)]] assms(3,4)
  have "snapshot_of_rows ser (items (sy_db c)) it" unfolding frozen_ok_def by blast
  then obtain inst proj ids xs n date snap json where a:
      "ids \<noteq> []" "distinct ids" "set ids = ids_in it" "list_all2 (row_is (items (sy_db c))) ids xs"
      "final_snapshot inst proj xs n date = Inr snap" "ser snap = Inr json"
      "it ''number'' = Some (AN (int n))" "it ''issue_date'' = Some (AS date)"
      "it ''snapshot'' = Some (AS json)" "it ''total_cents'' = Some (AN (snap_total_cents snap))"
    unfolding snapshot_of_rows_def by blast
  have "snap = build_snapshot inst proj xs (Some n) (Some date)" using a(5) by (rule final_snapshotD)
  moreover have "list_all2 (\<lambda>i x. hydrated hydrate_billable_item (items (sy_db c) i) = Inr (Some x)) ids xs"
    using a(4) unfolding row_is_hydrated .
  ultimately show ?thesis using a(1-3,6-10)
    by (intro exI [of _ inst] exI [of _ proj] exI [of _ ids] exI [of _ xs] exI [of _ n] exI [of _ date]
      exI [of _ snap] exI [of _ json] conjI)
qed

lemma set_enum_remdups: "set_enum remdups"
  by (simp add: set_enum_def)

theorem finalized_snapshot_integrity_witness:
  "\<exists>it. invoices (sy_db demo_end) ''v1'' = Some it \<and> (\<exists>snap :: invoice_snapshot. it ''total_cents'' = Some (AN (snap_total_cents snap)))"
proof -
  obtain it where it: "invoices (sy_db demo_end) ''v1'' = Some it" "is_final it" using demo_is_final by blast
  from finalized_snapshot_integrity [OF set_enum_remdups demo_reachable it]
  have "\<exists>snap :: invoice_snapshot. it ''total_cents'' = Some (AN (snap_total_cents snap))" by (elim exE conjE) (rule exI, assumption)
  with it(1) show ?thesis by (intro exI [of _ it] conjI)
qed

text \<open>
  C2. Finalized is final. Whatever steps follow, a finalized invoice stays, all its attributes
  but the payment date, the PDF key and the update time keep their values (\<open>touched\<close>), and no
  row of its items changes.
\<close>

theorem finalized_never_changes:
  assumes "set_enum ss" "reachable ss ser c" "steps ss ser c d"
    and "invoices (sy_db c) k = Some it" "is_final it"
  shows "(\<exists>it'. invoices (sy_db d) k = Some it' \<and> touched it it')
    \<and> (\<forall>i \<in> ids_in it. items (sy_db d) i = items (sy_db c) i)"
  using steps_kept [OF assms(3,1) reachable_ok [OF assms(1,2)] assms(4,5)] unfolding kept_def .

theorem finalized_never_changes_witness:
  "\<exists>it. invoices (sy_db demo_end) ''v1'' = Some it \<and> is_final it"
proof -
  obtain it where it: "invoices (sy_db demo_end) ''v1'' = Some it" "is_final it" using demo_is_final by blast
  from finalized_never_changes [OF set_enum_remdups demo_reachable steps.none it] it show ?thesis by blast
qed

text \<open>
  C3. Invoice numbers are unique. Two invoices of one instance never carry the same number
  below \<^verbatim>\<open>u32::MAX\<close>, and the instance's counter has reached every number in use.
\<close>

theorem invoice_numbers_unique:
  assumes "set_enum ss" "reachable ss ser c" "has_number c j i n" "has_number c k i n" "n < u32_max"
  shows "j = k \<and> (\<exists>m. counter_of (counters (sy_db c)) i = Some m \<and> int n \<le> m)"
  using sys_okD(7) [OF reachable_ok [OF assms(1,2)]] assms(3-5) unfolding numbers_ok_def by blast

lemma demo_has_number: "has_number demo_end ''v1'' ''n1'' 1"
  by (simp add: has_number_def demo_end_def demo_row) (simp add: final_row_def invoice_row_def)

theorem invoice_numbers_unique_witness:
  "\<exists>m. counter_of (counters (sy_db demo_end)) ''n1'' = Some m \<and> 1 \<le> m"
  using invoice_numbers_unique [OF set_enum_remdups demo_reachable demo_has_number demo_has_number]
  by (simp add: u32_max_def)

text \<open>
  C4. An item is billed once. An item's \<^verbatim>\<open>invoice_id\<close> names an invoice exactly when that
  invoice lists the item, so the two directions of the link never disagree, and no item is on
  two invoices.
\<close>

theorem item_billed_once:
  assumes "set_enum ss" "reachable ss ser c"
  shows "(item_owner (items (sy_db c)) x = Some k \<longleftrightarrow> x \<in> ids_of (invoices (sy_db c)) k)
    \<and> (x \<in> ids_of (invoices (sy_db c)) j \<inter> ids_of (invoices (sy_db c)) k \<longrightarrow> j = k)"
proof -
  note l = ledger_okD(3) [OF sys_okD(1) [OF reachable_ok [OF assms]], of x]
  show ?thesis using l [of k] l [of j] by auto
qed

theorem item_billed_once_witness:
  "item_owner (items (sy_db demo_end)) ''i1'' = Some ''v1''"
proof -
  obtain it where "invoices (sy_db demo_end) ''v1'' = Some it" "ids_in it = {''i1''}" using demo_is_final by blast
  then have "''i1'' \<in> ids_of (invoices (sy_db demo_end)) ''v1''" by simp
  with item_billed_once [OF set_enum_remdups demo_reachable, THEN conjunct1] show ?thesis by (rule iffD2)
qed

text \<open>
  C6. No write on stale data. When an add, remove, delete or finalize commits with an invoice
  its request read at any earlier time, the stored invoice is at that moment still a draft of
  the same version with the same items: what happened in between never gets overwritten.
\<close>

theorem no_stale_write:
  assumes "set_enum ss" "reachable ss ser c" "v \<in> sy_reads c"
    and "commits ss (sy_db c) ws s'" "versioned_reqs v ws"
  shows "\<exists>it. invoices (sy_db c) (inv_id v) = Some it \<and> is_draft it
    \<and> version_of it = int (inv_version v) \<and> ids_in it = set (inv_item_ids v)"
  by (rule versioned_current [OF reachable_ok [OF assms(1,2)] assms(3-5)])

theorem no_stale_write_witness:
  "\<exists>it. invoices (sy_db demo_mid) ''v1'' = Some it \<and> is_draft it"
proof -
  have v: "demo_invoice \<in> sy_reads demo_mid" by (simp add: demo_mid_def)
  have c: "commits remdups (sy_db demo_mid) [finalize_invoice_req 4 ''v1'' 1 1 ''2026-02-01'' (snap_title demo_snapshot)
      (snap_total_cents demo_snapshot) ''u1''] demo_db4"
    using demo_commit4 by (simp add: demo_mid_def)
  have r: "versioned_reqs demo_invoice [finalize_invoice_req 4 ''v1'' 1 1 ''2026-02-01'' (snap_title demo_snapshot)
      (snap_total_cents demo_snapshot) ''u1'']"
    unfolding versioned_reqs_def by (intro disjI2 exI) (simp add: demo_invoice_def)
  have k: "inv_id demo_invoice = ''v1''" by (simp add: demo_invoice_def)
  from no_stale_write [OF set_enum_remdups demo_mid_reachable v c r] show ?thesis unfolding k by blast
qed

text \<open>
  The invoice counter never moves back, over any steps: not by allocation, not by
  \<^verbatim>\<open>setNextInvoiceNumber\<close>, not by any other operation.
\<close>

theorem counter_forward_only:
  assumes "set_enum ss" "reachable ss ser c" "steps ss ser c d"
    and "counter_of (counters (sy_db c)) i = Some m"
  shows "\<exists>m'. counter_of (counters (sy_db d)) i = Some m' \<and> m \<le> m'"
  by (rule steps_counter_mono [OF assms(3,1) reachable_ok [OF assms(1,2)] assms(4)])

lemma demo_counter: "counter_of (counters (sy_db demo_end)) ''n1'' = Some 1"
proof -
  have "counters demo_db4 = counters demo_db3" using finalize_effect [OF demo_commit4] by blast
  then show ?thesis by (simp add: demo_end_def demo_rows3 counter_of_def attrs_of_def)
qed

theorem counter_forward_only_witness:
  "\<exists>m'. counter_of (counters (sy_db demo_end)) ''n1'' = Some m' \<and> 1 \<le> m'"
  by (rule counter_forward_only [OF set_enum_remdups demo_reachable steps.none demo_counter])

section \<open>The resolvers and the system\<close>

text \<open>
  C5. Refinement. A run of any of the modelled invoicing mutations, from any reachable state,
  against any service that keeps its documented laws and whatever it answers, is a sequence of
  steps of the system, so the state it ends in is reachable and C1 to C6 hold of it.
\<close>

theorem mutations_are_steps:
  assumes "dynamo_handler d (rq_db rq)" "reachable (dy_ss d) ser c" "rq_new_id rq \<notin> sy_used c"
    and "run_mutation ser p rq m (sy_db c) = (r, s')"
  shows "\<exists>c'. steps (dy_ss d) ser c c' \<and> reachable (dy_ss d) ser c' \<and> sy_db c' = s'"
  using dynamo_handler.run_mutation_steps [OF assms(1,2) refl assms(3,4)] steps_reachable assms(2)
  unfolding reaches_def by blast

definition demo_request :: request where
  "demo_request =
     \<lparr>rq_db = ref_handler, rq_auth = Some (User ''u1'' [\<lparr>am_instance_id = ''n1'', am_is_owner = True\<rparr>] False None None),
      rq_view = sy_db demo_end, rq_now = 5, rq_now_end = 5, rq_new_id = ''x1'', rq_canon = Some\<rparr>"

definition demo_pdf :: pdf_env where
  "demo_pdf = \<lparr>pdf_de = (\<lambda>j. Inl j), pdf_render = (\<lambda>snap. Inr []), pdf_put = (\<lambda>k b. Inr ()), pdf_presign = (\<lambda>k f. Inr k)\<rparr>"

theorem mutations_are_steps_witness:
  "\<exists>c'. reachable remdups demo_ser c'
     \<and> sy_db c' = snd (run_mutation demo_ser demo_pdf demo_request (SetInvoicePaid ''v1'' None) (sy_db demo_end))"
proof -
  have h: "dynamo_handler ref_dynamo (rq_db demo_request)"
    by (simp add: demo_request_def ref_client.dynamo_handler_axioms)
  have ss: "dy_ss ref_dynamo = remdups" by (simp add: ref_dynamo_def)
  have n: "rq_new_id demo_request \<notin> sy_used demo_end" by (simp add: demo_request_def demo_end_def)
  have run: "run_mutation demo_ser demo_pdf demo_request (SetInvoicePaid ''v1'' None) (sy_db demo_end)
      = (fst (run_mutation demo_ser demo_pdf demo_request (SetInvoicePaid ''v1'' None) (sy_db demo_end)),
         snd (run_mutation demo_ser demo_pdf demo_request (SetInvoicePaid ''v1'' None) (sy_db demo_end)))"
    by (rule prod.collapse [symmetric])
  from mutations_are_steps [OF h _ n run] demo_reachable ss show ?thesis by auto
qed

text \<open>
  With the read-only switch on, no mutation changes the database, whatever the service
  does.
\<close>

theorem read_only_changes_nothing:
  assumes "h_read_only (rq_db rq)" "run_mutation ser p rq m s = (r, s')"
  shows "s' = s"
  using read_only_mutation [OF assms(1)] assms(2) unfolding spure_def by blast

theorem read_only_changes_nothing_witness:
  "snd (run_mutation demo_ser demo_pdf (demo_request\<lparr>rq_db := \<lparr>h_read_only = True, h_svc = ref_dynamo\<rparr>\<rparr>)
     (DeleteInvoice ''v1'') demo_db3) = demo_db3"
  by (rule read_only_changes_nothing [OF _ prod.collapse [symmetric]]) simp

text \<open>
  C8. Batch reads are complete. When a batch read returns, each requested id has its row if
  there is one and nothing otherwise, whatever the chunking and however many keys the service
  left unprocessed on the way; a batch read never reports an existing row as missing.
\<close>

theorem batch_read_complete:
  assumes "dynamo_service (h_svc h)" "id_hydrate f rid" "keyed s t" "distinct ids"
    and "get_records h t f rid ids s = Inr rs"
  shows "list_all2 (\<lambda>i r. hydrated f (s t i) = Inr r) ids rs"
  by (rule dynamo_service.get_records_spec [OF assms(1,5) refl assms(2,3,4)])

theorem batch_read_complete_witness:
  "\<exists>r. list_all2 (\<lambda>i r. hydrated hydrate_billable_item (items (sy_db demo_end) i) = Inr r) [''i1'', ''i9''] r"
proof -
  have r: "get_records ref_handler ''billable_item'' hydrate_billable_item item_id [''i1'', ''i9''] demo_db2
      = Inr [Some sample_item, None]"
    using demo_read_item
    by (simp add: get_records_def chunks_small BATCH_GET_MAX_ATTEMPTS_def eval_nat_numeral ref_handler_def
        ref_dynamo_def hydrated_Some demo_rows2) (simp add: sample_item_def)
  have k: "keyed demo_db2 ''billable_item''"
    by (simp add: keyed_def demo_rows2 billable_item_row_def)
  have same: "items (sy_db demo_end) = items demo_db2"
    using finalize_effect [OF demo_commit4] demo_rows3 by (auto simp: demo_end_def)
  have d: "dynamo_service (h_svc ref_handler)" by (simp add: ref_handler_def ref.dynamo_service_axioms)
  from batch_read_complete [OF d hydrate_ids(3) k _ r] show ?thesis
    unfolding same by auto
qed

section \<open>Input rules of the invoice mutations\<close>

text \<open>
  \<^verbatim>\<open>validate_new_invoice_item_ids\<close> accepts exactly the non-empty lists of distinct ids
  that are not on the invoice yet and keep it at 50 items, and returns them unchanged.
\<close>

theorem new_item_ids_exact:
  "validate_new_invoice_item_ids ids existing = Inr out \<longleftrightarrow>
     out = ids \<and> ids \<noteq> [] \<and> length existing + length ids \<le> 50
     \<and> distinct ids \<and> set ids \<inter> set existing = {}"
  by (auto simp: validate_new_invoice_item_ids_def MAX_INVOICE_ITEMS_def distinct_ids_iff)

text \<open>
  \<^verbatim>\<open>validate_remove_invoice_item_ids\<close> accepts exactly the non-empty lists of distinct
  ids that are on the invoice, and returns them unchanged.
\<close>

theorem remove_item_ids_exact:
  "validate_remove_invoice_item_ids ids current = Inr out \<longleftrightarrow>
     out = ids \<and> ids \<noteq> [] \<and> distinct ids \<and> set ids \<subseteq> set current"
  by (auto simp: validate_remove_invoice_item_ids_def removable_ids_iff)

text \<open>
  The total check made when items are put on a draft agrees with the check made on the
  snapshot when the draft is finalized: for at most 50 validated items the first passes exactly
  when the second does, in whatever order the items come, although one adds with saturation
  and the other wraps.
\<close>

theorem total_precheck_agrees:
  assumes "list_all valid_item xs" "length xs \<le> 50"
  shows "check_invoice_total_within_safe_integer xs (inst_gst_registered inst) = Inr () \<longleftrightarrow>
    (\<exists>snap. final_snapshot inst proj xs n date = Inr snap)"
  by (auto simp: check_total_of [OF assms, of inst proj "Some n" "Some date"] final_snapshot_def Let_def)

theorem total_precheck_agrees_witness:
  "\<exists>snap. final_snapshot sample_instance sample_project [sample_item] 1 ''2026-02-01'' = Inr snap"
proof -
  have v: "list_all valid_item [sample_item]" by (simp add: valid_item_def sample_item_def money_consts)
  have "check_invoice_total_within_safe_integer [sample_item] (inst_gst_registered sample_instance) = Inr ()"
    by (simp add: check_invoice_total_within_safe_integer_def sample_item_def sample_instance_def sum_i64_def
      wrap_i64_def line_amount_cents_def gst_cents_def div_round_half_up_def quot_def clamp_i64_def in_i64_def
      i64_min_def i64_max_def validate_total_within_safe_integer_def MAX_SAFE_TOTAL_CENTS_def)
  with total_precheck_agrees [OF v, of sample_instance sample_project 1 "''2026-02-01''"] show ?thesis by simp
qed

section \<open>Who may do what\<close>

text \<open>
  The guards keep the principals apart: nobody without credentials passes any guard, an
  API token passes exactly its own guard, a requester exactly its own and the authenticated one,
  and for a user the superuser flag opens exactly the two superuser guards, never membership.
\<close>

theorem guards_separate_principals:
  "guard_check req None \<noteq> Inr ()
   \<and> (guard_check req (Some (ApiToken t i)) = Inr () \<longleftrightarrow> req = RequireApiToken)
   \<and> (guard_check req (Some (Requester e i)) = Inr () \<longleftrightarrow> req \<in> {RequireRequester, RequireAuthenticated})
   \<and> (guard_check (RequireMember i) (Some (User u ms su tk g)) = Inr () \<longleftrightarrow> is_member ms i)
   \<and> (guard_check (RequireInstanceOwner i) (Some (User u ms su tk g)) = Inr () \<longleftrightarrow> is_owner ms i)
   \<and> (guard_check RequireSuperuser (Some (User u ms su tk g)) = Inr () \<longleftrightarrow> su)
   \<and> (guard_check (RequireInstanceOwnerOrSuperuser i) (Some (User u ms su tk g)) = Inr () \<longleftrightarrow> su \<or> is_owner ms i)"
  by (cases req) simp_all

end
